(* ===== verification/Prelude.thy ===== *)
theory Prelude
  imports Main "HOL-Library.Word" "HOL-Library.Sublist"
begin

text \<open>
  Shared vocabulary of the development: the execution character set, the C and C++ library
  functions the sources call on characters and integers, C++ exceptions as values, and the generic
  lemmas the component theories use.

  The native code is compiled with the default execution character set of z/OS, IBM-1047 (the
  makefiles select no other). A value of type \<^typ>\<open>char\<close> stands for a character, numbered by its
  ISO 8859-1 code; \<open>ebcdic\<close> gives the byte that represents it at run time. IBM-1047 is a
  permutation of ISO 8859-1, so strings of characters and strings of bytes are in bijection, and
  the code is written out only where the sources rely on it: the Base64 tables of \<open>zbase64.h\<close> and
  the ordering of \<open>std::string\<close>.
\<close>

section \<open>Collections of facts\<close>

named_theorems iter_simps \<open>how an operation moves a cursor over its input\<close>
named_theorems progress_rules \<open>an operation that succeeds consumes input\<close>
named_theorems inv_rules \<open>an operation keeps the invariant of its component\<close>

section \<open>Exceptions as values\<close>

text \<open>The standard exception classes the sources throw, with the text of \<open>what()\<close>.\<close>

datatype exn =
    Invalid_argument string
  | Runtime_error string
  | Logic_error string
  | Out_of_range string

type_synonym 'a result = "exn + 'a"

fun exn_what :: "exn \<Rightarrow> string" where
  "exn_what (Invalid_argument m) = m"
| "exn_what (Runtime_error m) = m"
| "exn_what (Logic_error m) = m"
| "exn_what (Out_of_range m) = m"

fun bind_result :: "'e + 'a \<Rightarrow> ('a \<Rightarrow> 'e + 'b) \<Rightarrow> 'e + 'b" where
  "bind_result (Inl e) f = Inl e"
| "bind_result (Inr x) f = f x"

lemma bind_result_eq_Inr [simp]:
  "bind_result m f = Inr y \<longleftrightarrow> (\<exists>x. m = Inr x \<and> f x = Inr y)"
  by (cases m) auto

lemma bind_result_eq_Inl:
  "bind_result m f = Inl e \<longleftrightarrow> m = Inl e \<or> (\<exists>x. m = Inr x \<and> f x = Inl e)"
  by (cases m) auto

lemma bind_result_Inr [simp]: "bind_result m Inr = m"
  by (cases m) auto

lemma bind_result_assoc:
  "bind_result (bind_result m f) g = bind_result m (\<lambda>x. bind_result (f x) g)"
  by (cases m) auto

lemma bind_result_cong [fundef_cong]:
  "m = m' \<Longrightarrow> (\<And>x. m' = Inr x \<Longrightarrow> f x = g x) \<Longrightarrow> bind_result m f = bind_result m' g"
  by (cases m') auto

section \<open>Characters\<close>

type_synonym byte = "8 word"

text \<open>The IBM-1047 code of each ISO 8859-1 character, in the order of the ISO codes.\<close>

definition ibm1047 :: "nat list" where
  "ibm1047 = [
   0, 1, 2, 3, 55, 45, 46, 47, 22, 5, 21, 11, 12, 13, 14, 15,
   16, 17, 18, 19, 60, 61, 50, 38, 24, 25, 63, 39, 28, 29, 30, 31,
   64, 90, 127, 123, 91, 108, 80, 125, 77, 93, 92, 78, 107, 96, 75, 97,
   240, 241, 242, 243, 244, 245, 246, 247, 248, 249, 122, 94, 76, 126, 110, 111,
   124, 193, 194, 195, 196, 197, 198, 199, 200, 201, 209, 210, 211, 212, 213, 214,
   215, 216, 217, 226, 227, 228, 229, 230, 231, 232, 233, 173, 224, 189, 95, 109,
   121, 129, 130, 131, 132, 133, 134, 135, 136, 137, 145, 146, 147, 148, 149, 150,
   151, 152, 153, 162, 163, 164, 165, 166, 167, 168, 169, 192, 79, 208, 161, 7,
   32, 33, 34, 35, 36, 37, 6, 23, 40, 41, 42, 43, 44, 9, 10, 27,
   48, 49, 26, 51, 52, 53, 54, 8, 56, 57, 58, 59, 4, 20, 62, 255,
   65, 170, 74, 177, 159, 178, 106, 181, 187, 180, 154, 138, 176, 202, 175, 188,
   144, 143, 234, 250, 190, 160, 182, 179, 157, 218, 155, 139, 183, 184, 185, 171,
   100, 101, 98, 102, 99, 103, 158, 104, 116, 113, 114, 115, 120, 117, 118, 119,
   172, 105, 237, 238, 235, 239, 236, 191, 128, 253, 254, 251, 252, 186, 174, 89,
   68, 69, 66, 70, 67, 71, 156, 72, 84, 81, 82, 83, 88, 85, 86, 87,
   140, 73, 205, 206, 203, 207, 204, 225, 112, 221, 222, 219, 220, 141, 142, 223]"

definition ebcdic_code :: "char \<Rightarrow> nat" where
  "ebcdic_code c = ibm1047 ! (of_char c :: nat)"

definition ebcdic :: "char \<Rightarrow> byte" where
  "ebcdic c = of_nat (ebcdic_code c)"

abbreviation NUL :: char where "NUL \<equiv> CHR 0x00"
abbreviation NL :: char where "NL \<equiv> CHR 0x0A"
abbreviation CR :: char where "CR \<equiv> CHR 0x0D"
abbreviation TAB :: char where "TAB \<equiv> CHR 0x09"
abbreviation SPACE :: char where "SPACE \<equiv> CHR 0x20"
abbreviation DQUOTE :: char where "DQUOTE \<equiv> CHR 0x22"
abbreviation SQUOTE :: char where "SQUOTE \<equiv> CHR 0x27"
abbreviation BACKSLASH :: char where "BACKSLASH \<equiv> CHR 0x5C"

text \<open>
  The functions of \<open>ctype.h\<close> the sources call, in the POSIX locale. On an IBM-1047
  system the control characters are the bytes 0x00 to 0x3F and 0xFF, which are the C0 and C1
  controls and DEL.
\<close>

definition iscntrl :: "char \<Rightarrow> bool" where
  "iscntrl c \<longleftrightarrow> ebcdic_code c < 64 \<or> ebcdic_code c = 255"

definition isprint :: "char \<Rightarrow> bool" where
  "isprint c \<longleftrightarrow> 32 \<le> (of_char c :: nat) \<and> (of_char c :: nat) \<le> 126"

definition isupper :: "char \<Rightarrow> bool" where
  "isupper c \<longleftrightarrow> 65 \<le> (of_char c :: nat) \<and> (of_char c :: nat) \<le> 90"

definition tolower :: "char \<Rightarrow> char" where
  "tolower c = (if isupper c then char_of ((of_char c :: nat) + 32) else c)"

definition islower :: "char \<Rightarrow> bool" where
  "islower c \<longleftrightarrow> 97 \<le> (of_char c :: nat) \<and> (of_char c :: nat) \<le> 122"

definition toupper :: "char \<Rightarrow> char" where
  "toupper c = (if islower c then char_of ((of_char c :: nat) - 32) else c)"

definition isalpha :: "char \<Rightarrow> bool" where
  "isalpha c \<longleftrightarrow> isupper c \<or> islower c"

definition isalnum :: "char \<Rightarrow> bool" where
  "isalnum c \<longleftrightarrow> isalpha c \<or> (48 \<le> (of_char c :: nat) \<and> (of_char c :: nat) \<le> 57)"

definition isspace :: "char \<Rightarrow> bool" where
  "isspace c \<longleftrightarrow> (of_char c :: nat) = 32 \<or> (9 \<le> (of_char c :: nat) \<and> (of_char c :: nat) \<le> 13)"

lemma ibm1047_length [simp]: "length ibm1047 = 256"
  by (simp add: ibm1047_def)

lemma ibm1047_permutation: "set ibm1047 = {..<256}" "distinct ibm1047"
proof -
  have "list_all (\<lambda>n. n < 256) ibm1047" by (simp add: ibm1047_def)
  then have sub: "set ibm1047 \<subseteq> {..<256}" by (auto simp: list_all_iff)
  show d: "distinct ibm1047" unfolding ibm1047_def by simp
  have "card (set ibm1047) = card {..<256::nat}"
    using d by (simp add: distinct_card)
  then show "set ibm1047 = {..<256}"
    using sub by (intro card_subset_eq) auto
qed

lemma ebcdic_code_less [simp]: "ebcdic_code c < 256"
proof -
  have "(of_char c :: nat) < length ibm1047" by simp
  then have "ebcdic_code c \<in> set ibm1047"
    unfolding ebcdic_code_def by (rule nth_mem)
  then show ?thesis by (simp add: ibm1047_permutation)
qed

lemma ebcdic_code_inject [simp]: "ebcdic_code c = ebcdic_code d \<longleftrightarrow> c = d"
  by (simp add: ebcdic_code_def nth_eq_iff_index_eq ibm1047_permutation)

lemma list_all_enumerate:
  assumes "list_all (\<lambda>p. P (fst p) (snd p)) (List.enumerate 0 xs)" and "i < length xs"
  shows "P i (xs ! i)"
proof -
  have "(i, xs ! i) \<in> set (List.enumerate 0 xs)"
    using assms(2) by (simp add: in_set_enumerate_eq)
  with assms(1) show ?thesis by (force simp: list_all_iff)
qed

lemma iscntrl_iso:
  "iscntrl c \<longleftrightarrow> (of_char c :: nat) < 32 \<or> (127 \<le> (of_char c :: nat) \<and> (of_char c :: nat) < 160)"
proof -
  have "list_all (\<lambda>p. (snd p < 64 \<or> snd p = 255) = (fst p < 32 \<or> (127 \<le> fst p \<and> fst p < 160)))
    (List.enumerate 0 ibm1047)"
    unfolding ibm1047_def by simp
  from list_all_enumerate [OF this, of "of_char c"] show ?thesis
    by (simp add: iscntrl_def ebcdic_code_def)
qed

text \<open>
  A range test \<open>lo <= c && c <= hi\<close> on characters compares their run-time codes. The ranges the
  sources test, \<open>0-9\<close>, \<open>a-f\<close> and \<open>A-F\<close>, are contiguous in IBM-1047 as they are in ISO 8859-1.
\<close>

definition char_between :: "char \<Rightarrow> char \<Rightarrow> char \<Rightarrow> bool" where
  "char_between lo hi c \<longleftrightarrow> ebcdic_code lo \<le> ebcdic_code c \<and> ebcdic_code c \<le> ebcdic_code hi"

lemma char_between_iso:
  "char_between CHR ''0'' CHR ''9'' c \<longleftrightarrow> 48 \<le> (of_char c :: nat) \<and> (of_char c :: nat) \<le> 57"
  "char_between CHR ''a'' CHR ''f'' c \<longleftrightarrow> 97 \<le> (of_char c :: nat) \<and> (of_char c :: nat) \<le> 102"
  "char_between CHR ''A'' CHR ''F'' c \<longleftrightarrow> 65 \<le> (of_char c :: nat) \<and> (of_char c :: nat) \<le> 70"
proof -
  have codes: "ebcdic_code CHR ''0'' = 240" "ebcdic_code CHR ''9'' = 249" "ebcdic_code CHR ''a'' = 129"
    "ebcdic_code CHR ''f'' = 134" "ebcdic_code CHR ''A'' = 193" "ebcdic_code CHR ''F'' = 198"
    by (simp_all add: ebcdic_code_def ibm1047_def)
  have "list_all (\<lambda>p. (240 \<le> snd p \<and> snd p \<le> 249) = (48 \<le> fst p \<and> fst p \<le> 57) \<and>
      (129 \<le> snd p \<and> snd p \<le> 134) = (97 \<le> fst p \<and> fst p \<le> 102) \<and>
      (193 \<le> snd p \<and> snd p \<le> 198) = (65 \<le> fst p \<and> fst p \<le> 70)) (List.enumerate 0 ibm1047)"
    unfolding ibm1047_def by simp
  from list_all_enumerate [OF this, of "of_char c"]
  show "char_between CHR ''0'' CHR ''9'' c \<longleftrightarrow> 48 \<le> (of_char c :: nat) \<and> (of_char c :: nat) \<le> 57"
    "char_between CHR ''a'' CHR ''f'' c \<longleftrightarrow> 97 \<le> (of_char c :: nat) \<and> (of_char c :: nat) \<le> 102"
    "char_between CHR ''A'' CHR ''F'' c \<longleftrightarrow> 65 \<le> (of_char c :: nat) \<and> (of_char c :: nat) \<le> 70"
    by (simp_all add: char_between_def codes ebcdic_code_def [of c])
qed

section \<open>Integers in decimal\<close>

text \<open>What \<open>operator<<\<close> and \<open>std::to_string\<close> print for an integer.\<close>

definition digit_char :: "nat \<Rightarrow> char" where
  "digit_char d = char_of (48 + d)"

fun show_nat :: "nat \<Rightarrow> string" where
  "show_nat n = (if n < 10 then [digit_char n] else show_nat (n div 10) @ [digit_char (n mod 10)])"

declare show_nat.simps [simp del]

lemma show_nat_code [code]:
  "show_nat n = (if n < 10 then [digit_char n] else show_nat (n div 10) @ [digit_char (n mod 10)])"
  by (rule show_nat.simps)

definition show_int :: "int \<Rightarrow> string" where
  "show_int i = (if i < 0 then CHR ''-'' # show_nat (nat (- i)) else show_nat (nat i))"

section \<open>Lists and options\<close>

text \<open>\<open>std::string::find\<close> of a character, \<open>npos\<close> as \<^const>\<open>None\<close>.\<close>

fun find_index :: "('a \<Rightarrow> bool) \<Rightarrow> 'a list \<Rightarrow> nat option" where
  "find_index P [] = None"
| "find_index P (x # xs) = (if P x then Some 0 else map_option Suc (find_index P xs))"

lemma find_index_None [simp]: "find_index P xs = None \<longleftrightarrow> (\<forall>x \<in> set xs. \<not> P x)"
  by (induction xs) auto

lemma find_index_Some:
  "find_index P xs = Some i \<longleftrightarrow> i < length xs \<and> P (xs ! i) \<and> (\<forall>j < i. \<not> P (xs ! j))"
proof (induction xs arbitrary: i)
  case Nil
  then show ?case by simp
next
  case (Cons x xs)
  then show ?case
    by (cases i) (auto simp: less_Suc_eq_0_disj)
qed

lemma list_induct_drop [case_names Nil Drop]:
  assumes "P []" and "\<And>xs. xs \<noteq> [] \<Longrightarrow> P (drop n xs) \<Longrightarrow> P xs" and "0 < n"
  shows "P xs"
proof (induction "length xs" arbitrary: xs rule: less_induct)
  case less
  show ?case
  proof (cases "xs = []")
    case True
    with assms(1) show ?thesis by simp
  next
    case False
    with assms(3) have "length (drop n xs) < length xs" by simp
    then have "P (drop n xs)" by (rule less)
    with False show ?thesis by (rule assms(2))
  qed
qed

end
