(* ===== verification/Base64.thy ===== *)
theory Base64
  imports Prelude
begin

unbundle bit_operations_syntax

text \<open>
  The Base64 codec of \<open>native/c/zbase64.h\<close>: the two tables, the block encoder with its unrolled
  main loop, the validating decoder, and the streaming variants that carry an incomplete group from
  one call to the next in a \<open>left_over\<close> vector. Characters are bytes of the execution character set,
  so the literals of \<open>encode_table_ascii\<close> are the IBM-1047 codes that
  \<open>get_ebcdic_decode_table\<close> reads back.
\<close>

section \<open>Tables and sizes\<close>

definition encode_table_ascii :: "byte list" where
  "encode_table_ascii =
     map ebcdic (''ABCDEFGH'' @ ''IJKLMNOP'' @ ''QRSTUVWX'' @ ''YZabcdef'' @
                 ''ghijklmn'' @ ''opqrstuv'' @ ''wxyz0123'' @ ''456789+/'')"

text \<open>One initialisation loop of the decode table: \<open>table[base + i] = first + i\<close> for \<open>i < n\<close>.\<close>

fun fill_range :: "nat \<Rightarrow> nat \<Rightarrow> nat \<Rightarrow> byte list \<Rightarrow> byte list" where
  "fill_range base first 0 table = table"
| "fill_range base first (Suc n) table =
     (fill_range base first n table)[base + n := of_nat (first + n)]"

definition get_ebcdic_decode_table :: "byte list" where
  "get_ebcdic_decode_table =
     (let t0 = replicate 256 255;
          t1 = fill_range 193 0 9 t0;
          t2 = fill_range 209 9 9 t1;
          t3 = fill_range 226 18 8 t2;
          t4 = fill_range 129 26 9 t3;
          t5 = fill_range 145 35 9 t4;
          t6 = fill_range 162 44 8 t5;
          t7 = fill_range 240 52 10 t6
      in t7[78 := 62, 97 := 63, 126 := 254])"

definition encoded_size :: "64 word \<Rightarrow> 64 word" where
  "encoded_size input_size = (input_size + 2) div 3 * 4"

definition max_decoded_size :: "64 word \<Rightarrow> 64 word" where
  "max_decoded_size input_size = (input_size div 4) * 3"

section \<open>Encoder\<close>

definition table_char :: "32 word \<Rightarrow> byte" where
  "table_char v = encode_table_ascii ! unat (v AND 0x3F)"

text \<open>The 24 bits of three bytes, \<open>(b0 << 16) | (b1 << 8) | b2\<close>, at the width of \<open>unsigned int\<close>.\<close>

definition combine3 :: "byte \<Rightarrow> byte \<Rightarrow> byte \<Rightarrow> 32 word" where
  "combine3 b0 b1 b2 =
     push_bit 16 (ucast b0) OR push_bit 8 (ucast b1) OR ucast b2"

text \<open>One full group: the body of both block loops, writing four characters at \<open>dst\<close>.\<close>

definition encode_block :: "byte list \<Rightarrow> nat \<Rightarrow> byte list" where
  "encode_block src i =
     (let combined = combine3 (src ! (i * 3)) (src ! (i * 3 + 1)) (src ! (i * 3 + 2))
      in [table_char (drop_bit 18 combined), table_char (drop_bit 12 combined),
          table_char (drop_bit 6 combined), table_char combined])"

text \<open>The main loop: four groups per iteration. Returns the characters written and the next \<open>i\<close>.\<close>

function encode_loop4 :: "byte list \<Rightarrow> nat \<Rightarrow> nat \<Rightarrow> byte list \<times> nat" where
  "encode_loop4 src full_blocks i =
     (if i + 4 \<le> full_blocks
      then (let (out, k) = encode_loop4 src full_blocks (i + 4)
            in (concat (map (\<lambda>j. encode_block src (i + j)) [0..<4]) @ out, k))
      else ([], i))"
  by pat_completeness auto
termination
  by (relation "measure (\<lambda>(src, full_blocks, i). full_blocks - i)") auto

text \<open>The clean-up loop over the remaining full groups.\<close>

function encode_loop1 :: "byte list \<Rightarrow> nat \<Rightarrow> nat \<Rightarrow> byte list" where
  "encode_loop1 src full_blocks i =
     (if i < full_blocks then encode_block src i @ encode_loop1 src full_blocks (i + 1) else [])"
  by pat_completeness auto
termination
  by (relation "measure (\<lambda>(src, full_blocks, i). full_blocks - i)") auto

text \<open>The last one or two bytes, padded with \<open>=\<close>.\<close>

definition encode_tail :: "byte list \<Rightarrow> nat \<Rightarrow> nat \<Rightarrow> byte list" where
  "encode_tail src full_blocks remaining =
     (if remaining > 0 then
        let c0 = push_bit 16 (ucast (src ! (full_blocks * 3))) :: 32 word;
            combined = (if remaining > 1
                        then c0 OR push_bit 8 (ucast (src ! (full_blocks * 3 + 1))) else c0)
        in [table_char (drop_bit 18 combined), table_char (drop_bit 12 combined),
            if remaining > 1 then table_char (drop_bit 6 combined) else ebcdic CHR ''='',
            ebcdic CHR ''='']
      else [])"

definition encode :: "byte list \<Rightarrow> byte list" where
  "encode input =
     (if length input = 0 then []
      else let full_blocks = length input div 3;
               (out4, i) = encode_loop4 input full_blocks 0;
               out1 = encode_loop1 input full_blocks i
           in out4 @ out1 @ encode_tail input full_blocks (length input - full_blocks * 3))"

section \<open>Decoder\<close>

abbreviation EQ_SIGN :: byte where "EQ_SIGN \<equiv> 126"

text \<open>One iteration of the decode loop on the group \<open>src[0..3]\<close>: the bytes it appends.\<close>

definition decode_group :: "byte \<Rightarrow> byte \<Rightarrow> byte \<Rightarrow> byte \<Rightarrow> byte list result" where
  "decode_group s0 s1 s2 s3 =
     (let decode_table = get_ebcdic_decode_table;
          c0 = decode_table ! unat s0;
          c1 = decode_table ! unat s1;
          c2 = (if s2 = EQ_SIGN then 0 else decode_table ! unat s2);
          c3 = (if s3 = EQ_SIGN then 0 else decode_table ! unat s3)
      in if (c0 OR c1) AND 0x80 \<noteq> 0 then Inl (Invalid_argument ''Invalid base64 character'')
         else if s2 \<noteq> EQ_SIGN \<and> c2 AND 0x80 \<noteq> 0
           then Inl (Invalid_argument ''Invalid base64 character'')
         else if s3 \<noteq> EQ_SIGN \<and> c3 AND 0x80 \<noteq> 0
           then Inl (Invalid_argument ''Invalid base64 character'')
         else let combined = push_bit 18 (ucast c0) OR push_bit 12 (ucast c1) OR
                             push_bit 6 (ucast c2) OR ucast c3 :: 32 word
              in Inr (ucast (drop_bit 16 combined AND 0xFF) #
                      (if s2 \<noteq> EQ_SIGN
                       then ucast (drop_bit 8 combined AND 0xFF) #
                            (if s3 \<noteq> EQ_SIGN then [ucast (combined AND 0xFF)] else [])
                       else [])))"

text \<open>The loop \<open>while (src + 4 <= src_end)\<close>.\<close>

fun decode_loop :: "byte list \<Rightarrow> byte list result" where
  "decode_loop (s0 # s1 # s2 # s3 # rest) =
     bind_result (decode_group s0 s1 s2 s3) (\<lambda>out.
       bind_result (decode_loop rest) (\<lambda>out'. Inr (out @ out')))"
| "decode_loop _ = Inr []"

definition decode :: "byte list \<Rightarrow> byte list result" where
  "decode input =
     (if length input = 0 then Inr []
      else if length input mod 4 \<noteq> 0 then Inl (Invalid_argument ''Invalid base64 input length'')
      else decode_loop input)"

section \<open>Streaming\<close>

text \<open>\<open>load_leftover\<close>: the combined input, and the cleared \<open>left_over\<close>.\<close>

definition load_leftover :: "byte list \<Rightarrow> byte list \<Rightarrow> byte list \<times> byte list" where
  "load_leftover input left_over = (left_over @ input, [])"

text \<open>\<open>store_leftover\<close>: the length that is processed now and the new \<open>left_over\<close>, a pointer that
  may be null.\<close>

definition store_leftover ::
    "byte list \<Rightarrow> byte list option \<Rightarrow> nat \<Rightarrow> nat \<times> byte list option" where
  "store_leftover combined_input left_over byte_multiple =
     (let input_len = length combined_input;
          extra_count = input_len mod byte_multiple;
          total_size = input_len - extra_count
      in (total_size,
          if left_over \<noteq> None \<and> extra_count > 0
          then Some (take extra_count (drop total_size combined_input))
          else left_over))"

text \<open>The part the two streaming functions share: the input to process, or \<^const>\<open>None\<close> for their
  early return, and the new \<open>left_over\<close>.\<close>

definition split_leftover ::
    "byte list \<Rightarrow> byte list option \<Rightarrow> nat \<Rightarrow> byte list option \<times> byte list option" where
  "split_leftover input left_over byte_multiple =
     (case left_over of
        Some (b # bs) \<Rightarrow>
          let (combined, cleared) = load_leftover input (b # bs);
              (n, left_over') = store_leftover combined (Some cleared) byte_multiple
          in (Some (take n combined), left_over')
      | _ \<Rightarrow>
          if length input = 0 then (None, left_over)
          else let (n, left_over') = store_leftover input left_over byte_multiple
               in (Some (take n input), left_over'))"

definition encode_stream ::
    "byte list \<Rightarrow> byte list option \<Rightarrow> byte list \<times> byte list option" where
  "encode_stream input left_over =
     (case split_leftover input left_over 3 of
        (None, left_over') \<Rightarrow> ([], left_over')
      | (Some part, left_over') \<Rightarrow> (encode part, left_over'))"

definition decode_stream ::
    "byte list \<Rightarrow> byte list option \<Rightarrow> byte list result \<times> byte list option" where
  "decode_stream input left_over =
     (case split_leftover input left_over 4 of
        (None, left_over') \<Rightarrow> (Inr [], left_over')
      | (Some part, left_over') \<Rightarrow> (decode part, left_over'))"

text \<open>
  How the callers use the streaming encoder (\<open>zds.cpp\<close>, \<open>zusf.cpp\<close>): one call per chunk, then the
  bytes that are still left over are encoded without a \<open>left_over\<close> vector.
\<close>

fun encode_chunks :: "byte list list \<Rightarrow> byte list \<Rightarrow> byte list" where
  "encode_chunks [] left_over = (if left_over = [] then [] else encode left_over)"
| "encode_chunks (c # cs) left_over =
     (case encode_stream c (Some left_over) of
        (out, Some left_over') \<Rightarrow> out @ encode_chunks cs left_over'
      | (out, None) \<Rightarrow> out)"

fun decode_chunks :: "byte list list \<Rightarrow> byte list \<Rightarrow> (byte list \<times> byte list) result" where
  "decode_chunks [] left_over = Inr ([], left_over)"
| "decode_chunks (c # cs) left_over =
     (case decode_stream c (Some left_over) of
        (Inl e, _) \<Rightarrow> Inl e
      | (Inr out, Some left_over') \<Rightarrow>
          bind_result (decode_chunks cs left_over') (\<lambda>(out', rest). Inr (out @ out', rest))
      | (Inr out, None) \<Rightarrow> Inr (out, []))"

section \<open>The encoder as a map over groups\<close>

declare encode_loop4.simps [simp del] encode_loop1.simps [simp del]

text \<open>The loops as one map over the group numbers.\<close>

lemma encode_loop1_map:
  "encode_loop1 src full_blocks i = concat (map (encode_block src) [i..<full_blocks])"
  by (induction src full_blocks i rule: encode_loop1.induct)
    (subst encode_loop1.simps, simp add: upt_rec)

lemma encode_loop4_map:
  "encode_loop4 src full_blocks i = (out, k) \<Longrightarrow> i \<le> full_blocks \<Longrightarrow>
     k \<le> full_blocks \<and> i \<le> k \<and> out = concat (map (encode_block src) [i..<k])"
proof (induction src full_blocks i arbitrary: out k rule: encode_loop4.induct)
  case (1 src full_blocks i)
  show ?case
  proof (cases "i + 4 \<le> full_blocks")
    case True
    obtain out' k' where r: "encode_loop4 src full_blocks (i + 4) = (out', k')" by fastforce
    from "1.IH" [OF True r True] have IH: "k' \<le> full_blocks" "i + 4 \<le> k'"
      "out' = concat (map (encode_block src) [i + 4..<k'])" by blast+
    have "[i..<k'] = [i..<i + 4] @ [i + 4..<k']"
      using IH(2) by (metis le_add1 upt_add_eq_append le_Suc_ex)
    moreover have "[i..<i + 4] = map (\<lambda>j. i + j) [0..<4]"
      by (simp add: map_add_upt add.commute)
    ultimately show ?thesis
      using True r IH "1.prems" by (auto simp: encode_loop4.simps [of src full_blocks i] o_def)
  next
    case False
    with "1.prems" show ?thesis by (simp add: encode_loop4.simps [of src full_blocks i])
  qed
qed

text \<open>The codec of RFC 4648 on the three-byte groups of a list, the reference for the encoder.\<close>

fun b64_spec :: "byte list \<Rightarrow> byte list" where
  "b64_spec (b0 # b1 # b2 # rest) =
     (let c = combine3 b0 b1 b2
      in [table_char (drop_bit 18 c), table_char (drop_bit 12 c), table_char (drop_bit 6 c), table_char c])
     @ b64_spec rest"
| "b64_spec [b0, b1] =
     (let c = combine3 b0 b1 0
      in [table_char (drop_bit 18 c), table_char (drop_bit 12 c), table_char (drop_bit 6 c), EQ_SIGN])"
| "b64_spec [b0] =
     (let c = combine3 b0 0 0 in [table_char (drop_bit 18 c), table_char (drop_bit 12 c), EQ_SIGN, EQ_SIGN])"
| "b64_spec [] = []"

lemma ebcdic_eq_sign [simp]: "ebcdic CHR ''='' = EQ_SIGN"
  by (simp add: ebcdic_def ebcdic_code_def ibm1047_def)

lemma encode_groups:
  "concat (map (encode_block xs) [0..<length xs div 3]) @
     encode_tail xs (length xs div 3) (length xs - length xs div 3 * 3) = b64_spec xs"
proof (induction xs rule: b64_spec.induct)
  case (1 b0 b1 b2 rest)
  let ?xs = "b0 # b1 # b2 # rest"
  let ?n = "length rest div 3"
  have n: "length ?xs div 3 = Suc ?n" by simp
  have blk: "encode_block ?xs (Suc i) = encode_block rest i" for i
    by (simp add: encode_block_def)
  have "map (encode_block ?xs) [0..<Suc ?n] = encode_block ?xs 0 # map (encode_block rest) [0..<?n]"
    by (simp add: upt_conv_Cons blk map_Suc_upt [symmetric] del: upt_Suc)
  moreover have "encode_tail ?xs (Suc ?n) r = encode_tail rest ?n r" for r
    by (simp add: encode_tail_def Let_def)
  moreover have "length ?xs - Suc ?n * 3 = length rest - ?n * 3" by simp
  ultimately show ?case
    unfolding n using "1.IH" by (simp only:) (simp add: encode_block_def [of ?xs 0] Let_def)
qed (simp_all add: encode_tail_def combine3_def Let_def)

lemma encode_eq_spec: "encode xs = b64_spec xs"
proof (cases "xs = []")
  case True
  then show ?thesis by (simp add: encode_def)
next
  case False
  obtain out k where l4: "encode_loop4 xs (length xs div 3) 0 = (out, k)" by fastforce
  from encode_loop4_map [OF l4]
  have k: "k \<le> length xs div 3" "out = concat (map (encode_block xs) [0..<k])" by auto
  then have "out @ encode_loop1 xs (length xs div 3) k =
      concat (map (encode_block xs) [0..<length xs div 3])"
    by (metis concat_append encode_loop1_map le_add_diff_inverse map_append upt_add_eq_append zero_le)
  with False l4 encode_groups [of xs] show ?thesis
    by (simp add: encode_def Let_def) (metis append.assoc)
qed

lemma mask6: "(x :: 32 word) AND 0x3F = take_bit 6 x"
  by (simp add: take_bit_eq_mask mask_eq_exp_minus_1)

lemma mask8: "(x :: 32 word) AND 0xFF = take_bit 8 x"
  by (simp add: take_bit_eq_mask mask_eq_exp_minus_1)

text \<open>The decode table, range by range.\<close>

lemma length_fill_range [simp]: "length (fill_range base first n table) = length table"
  by (induction n) simp_all

lemma fill_range_nth:
  "base + n \<le> length table \<Longrightarrow> fill_range base first n table ! k =
     (if base \<le> k \<and> k < base + n then of_nat (first + (k - base)) else table ! k)"
  by (induction n) (auto simp: nth_list_update less_Suc_eq)

lemma decode_table_nth:
  assumes "k < 256"
  shows "get_ebcdic_decode_table ! k =
    (if k = 126 then 254 else if k = 97 then 63 else if k = 78 then 62
     else if 240 \<le> k \<and> k < 250 then of_nat (52 + (k - 240))
     else if 162 \<le> k \<and> k < 170 then of_nat (44 + (k - 162))
     else if 145 \<le> k \<and> k < 154 then of_nat (35 + (k - 145))
     else if 129 \<le> k \<and> k < 138 then of_nat (26 + (k - 129))
     else if 226 \<le> k \<and> k < 234 then of_nat (18 + (k - 226))
     else if 209 \<le> k \<and> k < 218 then of_nat (9 + (k - 209))
     else if 193 \<le> k \<and> k < 202 then of_nat (k - 193) else 255)"
  using assms unfolding get_ebcdic_decode_table_def Let_def
  by (simp add: nth_list_update fill_range_nth del: of_nat_add)

lemma encode_table_eval:
  "encode_table_ascii = map of_nat ([193..<202] @ [209..<218] @ [226..<234] @ [129..<138] @
     [145..<154] @ [162..<170] @ [240..<250] @ [78, 97])"
  by (simp add: encode_table_ascii_def ebcdic_def ebcdic_code_def ibm1047_def upt_rec)

lemma tables_inverse:
  assumes "i < 64"
  shows "get_ebcdic_decode_table ! unat (encode_table_ascii ! i) = of_nat i"
    and "encode_table_ascii ! i \<noteq> EQ_SIGN"
proof -
  have "list_all (\<lambda>p. get_ebcdic_decode_table ! unat (snd p) = of_nat (fst p) \<and> snd p \<noteq> 126)
    (List.enumerate 0 encode_table_ascii)"
    unfolding encode_table_eval by (simp add: upt_rec decode_table_nth)
  from list_all_enumerate [OF this, of i] assms
  show "get_ebcdic_decode_table ! unat (encode_table_ascii ! i) = of_nat i"
    and "encode_table_ascii ! i \<noteq> EQ_SIGN"
    by (simp_all add: encode_table_ascii_def)
qed

lemma unat_take6: "unat (take_bit 6 (v :: 32 word)) < 64"
  using take_bit_nat_less_exp [of 6 "unat v"] by (simp add: unsigned_take_bit_eq)

lemma decode_table_char [simp]:
  "get_ebcdic_decode_table ! unat (table_char v) = ucast (take_bit 6 v)"
  using tables_inverse(1) [OF unat_take6 [of v]]
  by (simp add: table_char_def mask6 unsigned_of_nat)

lemma table_char_not_eq [simp]: "table_char v \<noteq> EQ_SIGN"
  using tables_inverse(2) [OF unat_take6 [of v]] by (simp add: table_char_def mask6)

text \<open>Decoding the characters of a group gives the bytes back.\<close>

lemma bit_byte: "8 \<le> n \<Longrightarrow> \<not> bit (b :: byte) n"
  using bit_imp_le_length [of b n] by auto

lemma bit_0x80: "bit (0x80 :: 'a :: semiring_bit_operations) n \<Longrightarrow> n = 7"
  using bit_exp_iff [of 7 n, where 'a = 'a] by simp

lemma no_high_bit [simp]: "(ucast (take_bit 6 (v :: 32 word)) :: byte) AND 0x80 = 0"
  by (rule bit_word_eqI) (auto simp: bit_simps dest: bit_0x80)

lemma no_high_bit2: "(ucast (take_bit 6 (v :: 32 word)) OR ucast (take_bit 6 (w :: 32 word)) :: byte) AND 0x80 = 0"
proof -
  have "(x OR y) AND z = (x AND z) OR (y AND z)" for x y z :: byte
    by (rule bit_word_eqI) (auto simp: bit_simps)
  then show ?thesis by simp
qed

lemma regroup:
  "push_bit 18 (ucast (ucast (take_bit 6 (drop_bit 18 c)) :: byte)) OR
   push_bit 12 (ucast (ucast (take_bit 6 (drop_bit 12 c)) :: byte)) OR
   push_bit 6 (ucast (ucast (take_bit 6 (drop_bit 6 c)) :: byte)) OR
   (ucast (ucast (take_bit 6 c) :: byte) :: 32 word) = take_bit 24 c" for c :: "32 word"
proof (rule bit_word_eqI)
  fix n assume "n < LENGTH(32)"
  then consider "n < 6" | "6 \<le> n" "n < 12" | "12 \<le> n" "n < 18" | "18 \<le> n" "n < 24" | "24 \<le> n" "n < 32"
    by fastforce
  then show "bit (push_bit 18 (ucast (ucast (take_bit 6 (drop_bit 18 c)) :: byte)) OR
     push_bit 12 (ucast (ucast (take_bit 6 (drop_bit 12 c)) :: byte)) OR
     push_bit 6 (ucast (ucast (take_bit 6 (drop_bit 6 c)) :: byte)) OR
     (ucast (ucast (take_bit 6 c) :: byte) :: 32 word)) n = bit (take_bit 24 c) n"
    by cases (simp_all add: bit_simps less_diff_conv2)
qed

lemma combine3_24: "take_bit 24 (combine3 b0 b1 b2) = combine3 b0 b1 b2"
  unfolding combine3_def by (rule bit_word_eqI) (auto simp: bit_simps bit_byte less_diff_conv2)

lemma combine3_bytes:
  "ucast (take_bit 8 (drop_bit 16 (combine3 b0 b1 b2))) = b0"
  "ucast (take_bit 8 (drop_bit 8 (combine3 b0 b1 b2))) = b1"
  "ucast (take_bit 8 (combine3 b0 b1 b2)) = b2"
  unfolding combine3_def by ((rule bit_word_eqI, auto simp: bit_simps bit_byte less_diff_conv2)[1])+

lemma combine3_zero:
  "take_bit 6 (combine3 b0 b1 0) = 0"
  "take_bit 6 (drop_bit 6 (combine3 b0 0 0)) = 0"
  unfolding combine3_def by ((rule bit_word_eqI, auto simp: bit_simps bit_byte less_diff_conv2)[1])+

lemmas group_simps = Let_def mask8 no_high_bit2 regroup combine3_24 combine3_bytes

lemma decode_group_full:
  fixes b0 b1 b2 :: byte
  defines "c \<equiv> combine3 b0 b1 b2"
  shows "decode_group (table_char (drop_bit 18 c)) (table_char (drop_bit 12 c))
           (table_char (drop_bit 6 c)) (table_char c) = Inr [b0, b1, b2]"
  by (simp add: decode_group_def c_def group_simps)

lemma decode_group_pad1:
  fixes b0 b1 :: byte
  defines "c \<equiv> combine3 b0 b1 0"
  shows "decode_group (table_char (drop_bit 18 c)) (table_char (drop_bit 12 c))
           (table_char (drop_bit 6 c)) EQ_SIGN = Inr [b0, b1]"
  using regroup [of c] combine3_zero(1) [of b0 b1]
  by (simp add: decode_group_def c_def group_simps)

lemma decode_group_pad2:
  fixes b0 :: byte
  defines "c \<equiv> combine3 b0 0 0"
  shows "decode_group (table_char (drop_bit 18 c)) (table_char (drop_bit 12 c)) EQ_SIGN EQ_SIGN = Inr [b0]"
  using regroup [of c] combine3_zero(1) [of b0 0] combine3_zero(2) [of b0]
  by (simp add: decode_group_def c_def group_simps)

lemma decode_loop_spec: "decode_loop (b64_spec xs) = Inr xs"
  by (induction xs rule: b64_spec.induct)
    (simp_all add: Let_def decode_group_full decode_group_pad1 decode_group_pad2)

lemma length_spec: "length (b64_spec xs) = (length xs + 2) div 3 * 4"
proof (induction xs rule: b64_spec.induct)
  case (1 b0 b1 b2 rest)
  have "(length (b0 # b1 # b2 # rest) + 2) div 3 = Suc ((length rest + 2) div 3)"
    using div_add_self2 [of 3 "length rest + 2"] by simp
  with 1 show ?case by (simp add: Let_def)
qed (simp_all add: Let_def)

lemma decode_encode_inv: "decode (encode xs) = Inr xs"
proof (cases "xs = []")
  case True
  then show ?thesis by (simp add: encode_eq_spec decode_def)
next
  case False
  then have "length (b64_spec xs) \<noteq> 0" by (cases xs rule: b64_spec.cases) (simp_all add: Let_def)
  moreover have "length (b64_spec xs) mod 4 = 0" by (simp add: length_spec)
  ultimately show ?thesis
    by (simp only: decode_def encode_eq_spec if_False simp_thms decode_loop_spec)
qed

section \<open>Streaming, for any block codec\<close>

text \<open>What the two streaming functions rely on: the codec works group by group.\<close>

locale block_codec =
  fixes codec :: "byte list \<Rightarrow> byte list result" and group :: nat
  assumes group_pos: "0 < group"
    and codec_Nil: "codec [] = Inr []"
    and codec_append: "length xs mod group = 0 \<Longrightarrow> length ys mod group = 0 \<Longrightarrow>
      codec (xs @ ys) = bind_result (codec xs) (\<lambda>out. bind_result (codec ys) (\<lambda>out'. Inr (out @ out')))"
begin

text \<open>One call per chunk; the result is the output and what is left over at the end.\<close>

fun run_chunks :: "byte list list \<Rightarrow> byte list \<Rightarrow> (byte list \<times> byte list) result" where
  "run_chunks [] left_over = Inr ([], left_over)"
| "run_chunks (c # cs) left_over =
     (case split_leftover c (Some left_over) group of
        (part, left_over') \<Rightarrow>
          bind_result (case part of None \<Rightarrow> Inr [] | Some p \<Rightarrow> codec p) (\<lambda>out.
          bind_result (run_chunks cs (case left_over' of None \<Rightarrow> [] | Some l \<Rightarrow> l)) (\<lambda>(out', rest).
          Inr (out @ out', rest))))"

text \<open>The bytes that make up complete groups, and the incomplete group after them.\<close>

definition whole :: "byte list \<Rightarrow> byte list" where
  "whole xs = take (length xs - length xs mod group) xs"

definition rest :: "byte list \<Rightarrow> byte list" where
  "rest xs = drop (length xs - length xs mod group) xs"

lemma whole_rest [simp]: "whole xs @ rest xs = xs"
  by (simp add: whole_def rest_def)

lemma length_whole: "length (whole xs) mod group = 0"
  by (simp add: whole_def minus_mod_eq_mult_div)

lemma length_rest: "length (rest xs) = length xs mod group"
  by (simp add: rest_def)

lemma whole_append:
  assumes "length xs mod group = 0"
  shows "whole (xs @ ys) = xs @ whole ys" and "rest (xs @ ys) = rest ys"
proof -
  have m: "length (xs @ ys) mod group = length ys mod group"
    using assms by (metis length_append mod_add_left_eq add_0)
  have "length ys mod group \<le> length ys" by simp
  then have "length (xs @ ys) - length ys mod group - length xs = length ys - length ys mod group"
    and "length xs \<le> length (xs @ ys) - length ys mod group"
    unfolding length_append by linarith+
  then show "whole (xs @ ys) = xs @ whole ys" and "rest (xs @ ys) = rest ys"
    unfolding whole_def rest_def m by simp_all
qed

lemma split_leftover_spec:
  "split_leftover c (Some left_over) group = (part, left_over') \<Longrightarrow> length left_over < group \<Longrightarrow>
     (case part of None \<Rightarrow> Inr [] | Some p \<Rightarrow> codec p) = codec (whole (left_over @ c)) \<and>
     (case left_over' of None \<Rightarrow> [] | Some l \<Rightarrow> l) = rest (left_over @ c)"
  by (cases left_over)
    (auto simp: split_leftover_def load_leftover_def store_leftover_def Let_def whole_def rest_def
        codec_Nil split: if_splits)

lemma run_chunks_spec:
  "length left_over < group \<Longrightarrow> run_chunks cs left_over =
     bind_result (codec (whole (left_over @ concat cs))) (\<lambda>out. Inr (out, rest (left_over @ concat cs)))"
proof (induction cs arbitrary: left_over)
  case Nil
  then show ?case by (simp add: whole_def rest_def codec_Nil)
next
  case (Cons c cs)
  obtain part left_over' where s: "split_leftover c (Some left_over) group = (part, left_over')"
    by fastforce
  let ?in = "left_over @ c"
  have IH: "run_chunks cs (rest ?in) = bind_result (codec (whole (rest ?in @ concat cs)))
      (\<lambda>out. Inr (out, rest (rest ?in @ concat cs)))"
    using group_pos by (intro Cons.IH) (simp add: length_rest)
  have split: "left_over @ concat (c # cs) = whole ?in @ (rest ?in @ concat cs)"
    by (metis append.assoc concat.simps(2) whole_rest)
  show ?case
    using split_leftover_spec [OF s Cons.prems] s IH
    unfolding split by (simp add: whole_append length_whole codec_append bind_result_assoc)
qed

end

lemma encode_Nil [simp]: "encode [] = []"
  by (simp add: encode_def)

lemma decode_loop_append:
  "length xs mod 4 = 0 \<Longrightarrow> decode_loop (xs @ ys) =
     bind_result (decode_loop xs) (\<lambda>out. bind_result (decode_loop ys) (\<lambda>out'. Inr (out @ out')))"
proof (induction xs rule: decode_loop.induct)
  case (1 s0 s1 s2 s3 rest)
  have "length (s0 # s1 # s2 # s3 # rest) = length rest + 4" by simp
  with "1.prems" have "length rest mod 4 = 0" by (metis mod_add_self2)
  with 1 show ?case by (cases "decode_group s0 s1 s2 s3") (simp_all add: bind_result_assoc)
qed simp_all

lemma decode_eq_loop: "length xs mod 4 = 0 \<Longrightarrow> decode xs = decode_loop xs"
  by (simp add: decode_def)

interpretation dec: block_codec decode 4
  by unfold_locales (simp_all add: decode_eq_loop decode_loop_append mod_add_eq [symmetric])

lemma b64_spec_append: "length xs mod 3 = 0 \<Longrightarrow> b64_spec (xs @ ys) = b64_spec xs @ b64_spec ys"
  by (induction xs rule: b64_spec.induct) (simp_all add: Let_def)

interpretation enc: block_codec "\<lambda>xs. Inr (encode xs)" 3
  by unfold_locales (simp_all add: encode_eq_spec b64_spec_append)

lemma split_leftover_Some:
  "split_leftover c (Some left_over) k = (part, left_over') \<Longrightarrow> left_over' \<noteq> None"
  by (cases left_over) (auto simp: split_leftover_def store_leftover_def load_leftover_def Let_def split: if_splits)

lemma decode_chunks_run: "decode_chunks cs left_over = dec.run_chunks cs left_over"
proof (induction cs arbitrary: left_over)
  case (Cons c cs)
  obtain part left_over' where s: "split_leftover c (Some left_over) 4 = (part, Some left_over')"
    using split_leftover_Some by (metis not_None_eq surj_pair)
  then show ?case
    using Cons.IH [of left_over'] 
    by (cases part; cases "decode (the part)") (simp_all add: decode_stream_def split: prod.splits)
qed simp

lemma enc_run_chunks_Inr: "\<exists>r. enc.run_chunks cs left_over = Inr r"
proof (induction cs arbitrary: left_over)
  case (Cons c cs)
  obtain part left_over' where s: "split_leftover c (Some left_over) 3 = (part, Some left_over')"
    using split_leftover_Some by (metis not_None_eq surj_pair)
  from Cons.IH [of left_over'] show ?case by (cases part) (auto simp: s)
qed simp

lemma encode_chunks_run:
  "encode_chunks cs left_over =
     (case enc.run_chunks cs left_over of Inr (out, rest) \<Rightarrow> out @ encode rest | Inl _ \<Rightarrow> [])"
proof (induction cs arbitrary: left_over)
  case Nil
  then show ?case by simp
next
  case (Cons c cs)
  obtain part left_over' where s: "split_leftover c (Some left_over) 3 = (part, Some left_over')"
    using split_leftover_Some by (metis not_None_eq surj_pair)
  then show ?case
    using Cons.IH [of left_over'] enc_run_chunks_Inr [of cs left_over']
    by (cases part) (auto simp: encode_stream_def split: prod.splits)
qed

lemma encode_chunks_concat: "encode_chunks cs [] = encode (concat cs)"
proof -
  let ?xs = "concat cs"
  have "encode_chunks cs [] = encode (enc.whole ?xs) @ encode (enc.rest ?xs)"
    by (simp add: encode_chunks_run enc.run_chunks_spec)
  also have "\<dots> = encode (enc.whole ?xs @ enc.rest ?xs)"
    by (simp add: encode_eq_spec b64_spec_append enc.length_whole del: enc.whole_rest)
  finally show ?thesis by simp
qed

lemma decode_chunks_concat:
  "decode_chunks cs [] = bind_result (decode (dec.whole (concat cs))) (\<lambda>out. Inr (out, dec.rest (concat cs)))"
  by (simp add: decode_chunks_run dec.run_chunks_spec)

section \<open>Which inputs decode\<close>

definition valid_group :: "byte \<Rightarrow> byte \<Rightarrow> byte \<Rightarrow> byte \<Rightarrow> bool" where
  "valid_group s0 s1 s2 s3 \<longleftrightarrow>
     s0 \<in> set encode_table_ascii \<and> s1 \<in> set encode_table_ascii \<and>
     (s2 = EQ_SIGN \<or> s2 \<in> set encode_table_ascii) \<and> (s3 = EQ_SIGN \<or> s3 \<in> set encode_table_ascii)"

fun valid_groups :: "byte list \<Rightarrow> bool" where
  "valid_groups (s0 # s1 # s2 # s3 # more) \<longleftrightarrow> valid_group s0 s1 s2 s3 \<and> valid_groups more"
| "valid_groups s \<longleftrightarrow> s = []"

lemma of_nat_byte_image: "N \<subseteq> {..<256} \<Longrightarrow> (s :: byte) \<in> of_nat ` N \<longleftrightarrow> unat s \<in> N"
proof
  assume N: "N \<subseteq> {..<256}" and "s \<in> of_nat ` N"
  then obtain n where n: "n \<in> N" "s = of_nat n" by blast
  with N have "n < 256" by auto
  with n show "unat s \<in> N" by (simp add: unsigned_of_nat take_bit_nat_eq_self)
next
  assume "unat s \<in> N"
  then show "s \<in> of_nat ` N" by (rule image_eqI [rotated]) simp
qed

lemma set_encode_table:
  "s \<in> set encode_table_ascii \<longleftrightarrow> unat s \<in> set ([193..<202] @ [209..<218] @ [226..<234] @ [129..<138] @
     [145..<154] @ [162..<170] @ [240..<250] @ [78, 97])"
  unfolding encode_table_eval set_map by (rule of_nat_byte_image) (simp add: subset_iff)

lemma small_no_high_bit: "m < 64 \<Longrightarrow> (of_nat m :: byte) AND 0x80 = 0"
proof -
  assume "m < 64"
  then have "(of_nat m :: byte) = ucast (take_bit 6 (of_nat m :: 32 word))"
    by (simp add: unsigned_ucast_eq take_bit_of_nat take_bit_nat_eq_self unsigned_of_nat)
  then show ?thesis by (simp only: no_high_bit)
qed

lemma decode_table_valid:
  "(get_ebcdic_decode_table ! unat s) AND 0x80 = 0 \<longleftrightarrow> s \<in> set encode_table_ascii"
proof -
  have k: "unat s < 256" using unsigned_less [of s] by simp
  show ?thesis
    unfolding decode_table_nth [OF k] set_encode_table set_append set_upt list.set
    by (auto simp: small_no_high_bit simp del: of_nat_add of_nat_diff)
qed

lemma and_or_0x80: "(x OR y) AND (0x80 :: byte) = 0 \<longleftrightarrow> x AND 0x80 = 0 \<and> y AND 0x80 = 0"
proof -
  have "(x OR y) AND z = (x AND z) OR (y AND z)" for z :: byte
    by (rule bit_word_eqI) (auto simp: bit_simps)
  then show ?thesis by (simp add: or_eq_0_iff)
qed

lemma decode_group_valid:
  "valid_group s0 s1 s2 s3 \<Longrightarrow> \<exists>out. decode_group s0 s1 s2 s3 = Inr out \<and> length out \<le> 3"
  by (auto simp: valid_group_def decode_group_def Let_def and_or_0x80 decode_table_valid)

lemma decode_group_invalid:
  "\<not> valid_group s0 s1 s2 s3 \<Longrightarrow>
     decode_group s0 s1 s2 s3 = Inl (Invalid_argument ''Invalid base64 character'')"
  by (auto simp: valid_group_def decode_group_def Let_def and_or_0x80 decode_table_valid)

lemma decode_loop_cases:
  "length s mod 4 = 0 \<Longrightarrow>
     (if valid_groups s then \<exists>out. decode_loop s = Inr out \<and> length out \<le> length s div 4 * 3
      else decode_loop s = Inl (Invalid_argument ''Invalid base64 character''))"
proof (induction s rule: decode_loop.induct)
  case (1 s0 s1 s2 s3 more)
  have len: "length (s0 # s1 # s2 # s3 # more) = length more + 4" by simp
  with "1.prems" have more: "length more mod 4 = 0" by (metis mod_add_self2)
  show ?case
  proof (cases "valid_group s0 s1 s2 s3")
    case True
    from decode_group_valid [OF this] obtain out where
      out: "decode_group s0 s1 s2 s3 = Inr out" "length out \<le> 3" by blast
    have "length (s0 # s1 # s2 # s3 # more) div 4 = Suc (length more div 4)"
      unfolding len by simp
    with "1.IH" [OF out(1) more] out True show ?thesis
      by (auto simp: bind_result_eq_Inl split: if_splits)
  next
    case False
    then show ?thesis by (simp add: decode_group_invalid)
  qed
qed auto

lemma encoded_size_unat:
  assumes "n < 2 ^ 62"
  shows "unat (encoded_size (of_nat n)) = (n + 2) div 3 * 4"
proof -
  have "n < 4611686018427387904" using assms by simp
  then have q: "(n + 2) div 3 * 4 < 2 ^ 64" by simp
  have "(of_nat n + 2 :: 64 word) = of_nat (n + 2)" by simp
  moreover have "unat (of_nat (n + 2) :: 64 word) = n + 2"
    using assms by (subst unsigned_of_nat) (simp add: take_bit_nat_eq_self)
  ultimately have "(of_nat n + 2 :: 64 word) div 3 = of_nat ((n + 2) div 3)"
    by (simp only: word_arith_nat_div) simp
  then have "encoded_size (of_nat n) = of_nat ((n + 2) div 3 * 4)"
    by (simp only: encoded_size_def) simp
  with q show ?thesis
    by (simp add: unsigned_of_nat take_bit_nat_eq_self del: of_nat_mult)
qed

lemma max_decoded_size_unat:
  assumes "n < 2 ^ 64"
  shows "unat (max_decoded_size (of_nat n)) = n div 4 * 3"
proof -
  have "n < 18446744073709551616" using assms by simp
  then have q: "n div 4 * 3 < 2 ^ 64" by simp
  have "unat (of_nat n :: 64 word) = n"
    using assms by (subst unsigned_of_nat) (simp add: take_bit_nat_eq_self)
  then have "(of_nat n :: 64 word) div 4 = of_nat (n div 4)"
    by (simp only: word_arith_nat_div) simp
  then have "max_decoded_size (of_nat n) = of_nat (n div 4 * 3)"
    by (simp only: max_decoded_size_def) simp
  with q show ?thesis
    by (simp add: unsigned_of_nat take_bit_nat_eq_self del: of_nat_mult)
qed

text \<open>The decoder never writes more than \<open>max_decoded_size\<close> bytes, the bound it reserves from.\<close>

lemma decode_within_reserved:
  assumes "decode input = Inr out" and "length input < 2 ^ 64"
  shows "length out \<le> unat (max_decoded_size (of_nat (length input)))"
proof -
  from assms(1) have "length input mod 4 = 0"
    by (auto simp: decode_def split: if_splits)
  from decode_loop_cases [OF this] assms(1) show ?thesis
    unfolding max_decoded_size_unat [OF assms(2)] decode_eq_loop [OF \<open>length input mod 4 = 0\<close>]
    by (auto split: if_splits)
qed

section \<open>Properties\<close>

text \<open>
  C14. The optimised encoder, whose main loop handles four groups per iteration and whose clean-up
  loop and tail handle the rest, computes the group-by-group Base64 encoding of its input, for every
  input.
\<close>

theorem encode_reference: "encode input = b64_spec input"
  by (rule encode_eq_spec)

text \<open>
  Decoding what the encoder produced succeeds and returns exactly the original bytes.
\<close>

theorem decode_encode_roundtrip: "decode (encode input) = Inr input"
  by (rule decode_encode_inv)

text \<open>
  The buffer size the encoder allocates, computed in 64-bit arithmetic, is exactly the number of
  characters it writes; there is no wrap-around for inputs below 2 to the 62 bytes.
\<close>

theorem encoded_size_exact:
  assumes "length input < 2 ^ 62"
  shows "unat (encoded_size (of_nat (length input))) = length (encode input)"
  using assms by (simp only: encoded_size_unat encode_eq_spec length_spec)

theorem encoded_size_exact_witness:
  "unat (encoded_size (of_nat (length [1, 2, 3, 4 :: byte]))) = length (encode [1, 2, 3, 4])"
  by (rule encoded_size_exact) simp

text \<open>
  C5. Streaming: whatever the chunk boundaries on either side, encoding the chunks with the
  left-over vector and flushing at the end gives the encoding of the whole input, and decoding any
  re-chunking of it gives the whole input back with nothing left over.
\<close>

theorem streaming_roundtrip:
  assumes "concat received = encode_chunks sent []"
  shows "encode_chunks sent [] = encode (concat sent) \<and> decode_chunks received [] = Inr (concat sent, [])"
proof -
  have e: "encode_chunks sent [] = encode (concat sent)" by (rule encode_chunks_concat)
  have "length (encode (concat sent)) mod 4 = 0" by (simp add: encode_eq_spec length_spec)
  then have "dec.whole (concat received) = encode (concat sent)" "dec.rest (concat received) = []"
    unfolding assms e by (simp_all add: dec.whole_def dec.rest_def)
  with e show ?thesis by (simp add: decode_chunks_concat decode_encode_inv)
qed

theorem streaming_roundtrip_witness:
  "decode_chunks [encode_chunks [[72], [105, 33]] []] [] = Inr ([72, 105, 33], [])"
  using streaming_roundtrip [of "[encode_chunks [[72], [105, 33]] []]" "[[72], [105, 33]]", THEN conjunct2] by simp

text \<open>
  C31. The decoder accepts exactly the inputs that consist of complete groups of four characters of
  the alphabet in which the last two may be padding; it then writes at most three bytes per group.
  Any other length raises the length error, any other character the character error.
\<close>

theorem decode_accepts:
  "if length input mod 4 \<noteq> 0
   then decode input = Inl (Invalid_argument ''Invalid base64 input length'')
   else if valid_groups input
   then \<exists>out. decode input = Inr out \<and> length out \<le> length input div 4 * 3
   else decode input = Inl (Invalid_argument ''Invalid base64 character'')"
proof (cases "length input mod 4 = 0")
  case True
  from decode_loop_cases [OF this] show ?thesis
    unfolding decode_eq_loop [OF True] using True by (simp split: if_splits)
next
  case False
  then have "length input \<noteq> 0" by (metis mod_0)
  with False show ?thesis by (simp add: decode_def)
qed

end
