(* ===== verification/Lexer.thy ===== *)
theory Lexer
  imports Prelude
begin

text \<open>
  The tokenizer of \<open>native/c/lexer.hpp\<close>: source locations, the input iterator with its line and
  column count, lexical errors, tokens with their printing, and the lexer itself, one definition per
  method. The iterator is a record that each operation returns updated; an operation that throws
  \<open>LexError\<close> returns it as the left value of a sum.

  The format of \<open>double\<close> is a choice of the platform (IBM hexadecimal or IEEE), so the tokens are
  polymorphic in the type \<open>'d\<close> of its values and the two library conversions the lexer uses are
  the fields of a record \<open>fp_ops\<close>.
\<close>

section \<open>Locations and the input iterator\<close>

record location =
  loc_filename :: string
  loc_line :: nat
  loc_col :: nat

definition location_print :: "location \<Rightarrow> string" where
  "location_print loc =
     (if loc_filename loc = [] then ''<string>'' else loc_filename loc) @ '' ('' @
     show_nat (loc_line loc) @ '':'' @ show_nat (loc_col loc) @ '')''"

record input_iter =
  it_input :: string
  it_filename :: string
  it_line :: nat
  it_col :: nat
  it_pos :: nat

definition iter_current :: "input_iter \<Rightarrow> char" where
  "iter_current it = (if it_pos it < length (it_input it) then it_input it ! it_pos it else NUL)"

definition iter_peek :: "input_iter \<Rightarrow> char" where
  "iter_peek it = (if it_pos it + 1 < length (it_input it) then it_input it ! (it_pos it + 1) else NUL)"

definition iter_peek2 :: "input_iter \<Rightarrow> char" where
  "iter_peek2 it = (if it_pos it + 2 < length (it_input it) then it_input it ! (it_pos it + 2) else NUL)"

definition iter_next :: "input_iter \<Rightarrow> input_iter" where
  "iter_next it =
     (if it_pos it < length (it_input it) then
        let c = it_input it ! it_pos it;
            it' = (if c = NL then it\<lparr>it_line := it_line it + 1, it_col := 1\<rparr>
                   else if c = TAB then it\<lparr>it_col := it_col it + 4\<rparr>
                   else it\<lparr>it_col := it_col it + 1\<rparr>)
        in it'\<lparr>it_pos := it_pos it + 1\<rparr>
      else it)"

definition iter_next2 :: "input_iter \<Rightarrow> input_iter" where
  "iter_next2 it = iter_next (iter_next it)"

definition iter_has_more :: "input_iter \<Rightarrow> bool" where
  "iter_has_more it \<longleftrightarrow> it_pos it < length (it_input it)"

definition iter_location :: "input_iter \<Rightarrow> location" where
  "iter_location it = \<lparr>loc_filename = it_filename it, loc_line = it_line it, loc_col = it_col it\<rparr>"

record src =
  src_filename :: string
  src_code :: string

definition src_from_string :: "string \<Rightarrow> string \<Rightarrow> src" where
  "src_from_string code_str filename = \<lparr>src_filename = filename, src_code = code_str\<rparr>"

definition get_iterator :: "src \<Rightarrow> input_iter" where
  "get_iterator s =
     \<lparr>it_input = src_code s, it_filename = src_filename s, it_line = 1, it_col = 1, it_pos = 0\<rparr>"

section \<open>Lexical errors\<close>

datatype lex_error_kind =
    InvalidChar | UnclosedString | UnknownEscape | IntOutOfRange | IncompleteInt
  | FloatOutOfRange | InvalidFloat

record lex_error =
  err_loc :: location
  err_kind :: lex_error_kind

definition lex_error :: "location \<Rightarrow> lex_error_kind \<Rightarrow> lex_error" where
  "lex_error loc kind = \<lparr>err_loc = loc, err_kind = kind\<rparr>"

fun lex_error_text :: "lex_error_kind \<Rightarrow> string" where
  "lex_error_text InvalidChar = ''invalid character''"
| "lex_error_text UnclosedString = ''unclosed string literal''"
| "lex_error_text UnknownEscape = ''unknown escape character''"
| "lex_error_text IntOutOfRange = ''integer literal out of 64-bit range''"
| "lex_error_text IncompleteInt = ''incomplete integer literal''"
| "lex_error_text FloatOutOfRange = ''floating-point literal out of range''"
| "lex_error_text InvalidFloat = ''invalid floating-point literal''"

definition lex_error_to_string :: "lex_error \<Rightarrow> string" where
  "lex_error_to_string e = location_print (err_loc e) @ '': '' @ lex_error_text (err_kind e)"

section \<open>Tokens\<close>

datatype radix = Dec | Bin | Hex

fun radix_value :: "radix \<Rightarrow> nat" where
  "radix_value Dec = 10"
| "radix_value Bin = 2"
| "radix_value Hex = 16"

datatype token_kind =
    TokEof | TokTrue | TokFalse | TokMinus | TokDoubleMinus | TokTimes
  | TokId | TokIntLit | TokFloatLit | TokStrLit | TokFlagShort | TokFlagLong

text \<open>The numbering of the enumeration, which \<open>Token::print\<close> shows for the kinds it does not handle.\<close>

fun token_kind_number :: "token_kind \<Rightarrow> nat" where
  "token_kind_number TokEof = 0"
| "token_kind_number TokTrue = 1"
| "token_kind_number TokFalse = 2"
| "token_kind_number TokMinus = 3"
| "token_kind_number TokDoubleMinus = 4"
| "token_kind_number TokTimes = 5"
| "token_kind_number TokId = 6"
| "token_kind_number TokIntLit = 7"
| "token_kind_number TokFloatLit = 8"
| "token_kind_number TokStrLit = 9"
| "token_kind_number TokFlagShort = 10"
| "token_kind_number TokFlagLong = 11"

text \<open>
  \<open>union TokenData\<close>, tagged. A \<open>StringRef\<close> points into the input; the model keeps the characters it
  refers to, \<^const>\<open>None\<close> for a null pointer. An \<open>IntLit\<close> holds a \<open>long long\<close>.
\<close>

datatype 'd token_data =
    IntLit int radix
  | FloatLit 'd bool
  | StringRef "string option"

record 'd token =
  tok_kind :: token_kind
  tok_span :: "nat \<times> nat"
  tok_data :: "'d token_data"

definition simple_token :: "token_kind \<Rightarrow> nat \<times> nat \<Rightarrow> 'd token" where
  "simple_token kind span = \<lparr>tok_kind = kind, tok_span = span, tok_data = IntLit 0 Dec\<rparr>"

definition make_id :: "string \<Rightarrow> nat \<times> nat \<Rightarrow> 'd token" where
  "make_id text span = \<lparr>tok_kind = TokId, tok_span = span, tok_data = StringRef (Some text)\<rparr>"

definition make_short_flag :: "string \<Rightarrow> nat \<times> nat \<Rightarrow> 'd token" where
  "make_short_flag name span = \<lparr>tok_kind = TokFlagShort, tok_span = span, tok_data = StringRef (Some name)\<rparr>"

definition make_long_flag :: "string \<Rightarrow> nat \<times> nat \<Rightarrow> 'd token" where
  "make_long_flag name span = \<lparr>tok_kind = TokFlagLong, tok_span = span, tok_data = StringRef (Some name)\<rparr>"

definition make_int_lit :: "int \<Rightarrow> radix \<Rightarrow> nat \<times> nat \<Rightarrow> 'd token" where
  "make_int_lit value base span = \<lparr>tok_kind = TokIntLit, tok_span = span, tok_data = IntLit value base\<rparr>"

definition make_float_lit :: "'d \<Rightarrow> bool \<Rightarrow> nat \<times> nat \<Rightarrow> 'd token" where
  "make_float_lit value has_exponent span =
     \<lparr>tok_kind = TokFloatLit, tok_span = span, tok_data = FloatLit value has_exponent\<rparr>"

definition make_str_lit :: "string \<Rightarrow> nat \<times> nat \<Rightarrow> 'd token" where
  "make_str_lit content span = \<lparr>tok_kind = TokStrLit, tok_span = span, tok_data = StringRef (Some content)\<rparr>"

definition token_ref :: "'d token \<Rightarrow> string option" where
  "token_ref t = (case tok_data t of StringRef r \<Rightarrow> r | _ \<Rightarrow> None)"

definition get_string_ref_length :: "'d token \<Rightarrow> nat" where
  "get_string_ref_length t =
     (if tok_kind t \<in> {TokId, TokStrLit, TokFlagShort, TokFlagLong}
      then (case token_ref t of None \<Rightarrow> 0 | Some s \<Rightarrow> length s) else 0)"

definition get_id_value :: "'d token \<Rightarrow> string result" where
  "get_id_value t =
     (if tok_kind t = TokId \<or> tok_kind t = TokFlagShort \<or> tok_kind t = TokFlagLong
      then Inr (case token_ref t of Some s \<Rightarrow> s | None \<Rightarrow> '''')
      else Inl (Runtime_error ''token is not an identifier or flag''))"

definition get_int_value :: "'d token \<Rightarrow> int result" where
  "get_int_value t =
     (case (tok_kind t, tok_data t) of (TokIntLit, IntLit v _) \<Rightarrow> Inr v
      | _ \<Rightarrow> Inl (Runtime_error ''token is not an integer literal''))"

definition get_int_base :: "'d token \<Rightarrow> radix result" where
  "get_int_base t =
     (case (tok_kind t, tok_data t) of (TokIntLit, IntLit _ b) \<Rightarrow> Inr b
      | _ \<Rightarrow> Inl (Runtime_error ''token is not an integer literal''))"

definition get_float_value :: "'d token \<Rightarrow> 'd result" where
  "get_float_value t =
     (case (tok_kind t, tok_data t) of (TokFloatLit, FloatLit v _) \<Rightarrow> Inr v
      | _ \<Rightarrow> Inl (Runtime_error ''token is not a float literal''))"

definition has_float_exponent :: "'d token \<Rightarrow> bool result" where
  "has_float_exponent t =
     (case (tok_kind t, tok_data t) of (TokFloatLit, FloatLit _ x) \<Rightarrow> Inr x
      | _ \<Rightarrow> Inl (Runtime_error ''token is not a float literal''))"

text \<open>The escape loop of \<open>get_str_lit_value\<close>.\<close>

definition unescape_char :: "char \<Rightarrow> char" where
  "unescape_char c =
     (if c = CHR ''n'' then NL else if c = CHR ''r'' then CR else if c = CHR ''t'' then TAB
      else if c = BACKSLASH then BACKSLASH else if c = DQUOTE then DQUOTE
      else if c = CHR ''0'' then NUL else c)"

fun unescape :: "string \<Rightarrow> string" where
  "unescape [] = []"
| "unescape [c] = [c]"
| "unescape (c # e # cs) = (if c = BACKSLASH then unescape_char e # unescape cs else c # unescape (e # cs))"

definition get_str_lit_value :: "'d token \<Rightarrow> string result" where
  "get_str_lit_value t =
     (if tok_kind t \<noteq> TokStrLit then Inl (Runtime_error ''token is not a string literal'')
      else Inr (case token_ref t of None \<Rightarrow> '''' | Some s \<Rightarrow> unescape s))"

subsection \<open>Printing\<close>

text \<open>
  What the sources use of floating point: \<open>strtod\<close> gives whether \<open>errno\<close> was set to \<open>ERANGE\<close>, the
  value, and how many characters it consumed; \<open>operator<<\<close> prints in the default or in the
  scientific format.
\<close>

record 'd fp_ops =
  fp_strtod :: "string \<Rightarrow> bool \<times> 'd \<times> nat"
  fp_show :: "bool \<Rightarrow> 'd \<Rightarrow> string"

definition hex_digit :: "nat \<Rightarrow> char" where
  "hex_digit d = (if d < 10 then char_of (48 + d) else char_of (87 + d))"

fun show_hex :: "nat \<Rightarrow> string" where
  "show_hex n = (if n < 16 then [hex_digit n] else show_hex (n div 16) @ [hex_digit (n mod 16)])"

declare show_hex.simps [simp del]

text \<open>The 64-bit pattern of a \<open>long long\<close>.\<close>

definition unsigned_ll :: "int \<Rightarrow> nat" where
  "unsigned_ll v = nat (v mod 2 ^ 64)"

text \<open>The loop over \<open>(value >> i) & 1\<close> for \<open>i = 63, ..., 0\<close> that suppresses leading zeros.\<close>

fun show_bin_loop :: "nat \<Rightarrow> bool \<Rightarrow> nat \<Rightarrow> string" where
  "show_bin_loop v leading 0 = []"
| "show_bin_loop v leading (Suc i) =
     (if odd (v div 2 ^ i) then CHR ''1'' # show_bin_loop v False i
      else if \<not> leading then CHR ''0'' # show_bin_loop v leading i
      else show_bin_loop v leading i)"

definition print_integer_literal :: "int \<Rightarrow> radix \<Rightarrow> string" where
  "print_integer_literal v base =
     (if base = Hex then ''0x'' @ show_hex (unsigned_ll v)
      else if base = Bin then
        ''0b'' @ (if v = 0 then ''0'' else show_bin_loop (unsigned_ll v) True 64)
      else show_int v)"

text \<open>
  \<open>print_string_literal\<close> writes an escape sequence of the raw content as it stands, escapes the
  quote and the line controls, and replaces any other unprintable character by the byte 0x3F, which
  is the character SUB in IBM-1047.
\<close>

fun print_string_content :: "string \<Rightarrow> string" where
  "print_string_content [] = []"
| "print_string_content (c # cs) =
     (if c = BACKSLASH \<and> cs \<noteq> [] then BACKSLASH # hd cs # print_string_content (tl cs)
      else (if c = DQUOTE then [BACKSLASH, DQUOTE]
            else if c = NL then [BACKSLASH, CHR ''n'']
            else if c = CR then [BACKSLASH, CHR ''r'']
            else if c = TAB then [BACKSLASH, CHR ''t'']
            else if isprint c then [c]
            else [CHR 0x1A]) @ print_string_content cs)"

definition print_string_literal :: "string option \<Rightarrow> string" where
  "print_string_literal ref =
     [DQUOTE] @ (case ref of None \<Rightarrow> [] | Some content \<Rightarrow> print_string_content content) @ [DQUOTE]"

definition print_string_ref :: "string option \<Rightarrow> string \<Rightarrow> string" where
  "print_string_ref ref null_fallback = (case ref of Some s \<Rightarrow> s | None \<Rightarrow> null_fallback)"

definition token_print :: "'d fp_ops \<Rightarrow> 'd token \<Rightarrow> string" where
  "token_print fp t =
     (case tok_kind t of
        TokFlagShort \<Rightarrow> ''-'' @ print_string_ref (token_ref t) ''<null_short_flag>''
      | TokFlagLong \<Rightarrow> ''--'' @ print_string_ref (token_ref t) ''<null_long_flag>''
      | TokId \<Rightarrow> (case token_ref t of Some s \<Rightarrow> s | None \<Rightarrow> [])
      | TokStrLit \<Rightarrow> print_string_literal (token_ref t)
      | TokIntLit \<Rightarrow> (case tok_data t of IntLit v base \<Rightarrow> print_integer_literal v base | _ \<Rightarrow> [])
      | TokFloatLit \<Rightarrow> (case tok_data t of FloatLit v has_exponent \<Rightarrow> fp_show fp has_exponent v | _ \<Rightarrow> [])
      | TokFalse \<Rightarrow> ''false''
      | TokTrue \<Rightarrow> ''true''
      | k \<Rightarrow> ''<unknown token_kind: '' @ show_nat (token_kind_number k) @ ''>'')"

section \<open>The lexer\<close>

definition is_ascii_dec_digit :: "char \<Rightarrow> bool" where
  "is_ascii_dec_digit c \<longleftrightarrow> char_between CHR ''0'' CHR ''9'' c"

definition is_ascii_hex_digit :: "char \<Rightarrow> bool" where
  "is_ascii_hex_digit c \<longleftrightarrow>
     is_ascii_dec_digit c \<or> char_between CHR ''a'' CHR ''f'' c \<or> char_between CHR ''A'' CHR ''F'' c"

definition is_ascii_bin_digit :: "char \<Rightarrow> bool" where
  "is_ascii_bin_digit c \<longleftrightarrow> c = CHR ''0'' \<or> c = CHR ''1''"

definition is_ident_start :: "char \<Rightarrow> bool" where
  "is_ident_start c \<longleftrightarrow> c \<noteq> SPACE \<and> \<not> iscntrl c"

definition is_ident_cont :: "char \<Rightarrow> bool" where
  "is_ident_cont c \<longleftrightarrow> is_ident_start c"

definition is_digit_or_underscore :: "char \<Rightarrow> radix \<Rightarrow> bool" where
  "is_digit_or_underscore c base =
     (if c = CHR ''_'' then True
      else case base of
        Dec \<Rightarrow> is_ascii_dec_digit c
      | Hex \<Rightarrow> is_ascii_hex_digit c
      | Bin \<Rightarrow> is_ascii_bin_digit c)"

text \<open>
  A loop \<open>while (P(current())) next();\<close>. Every such loop of the source has a guard that is false of
  the null character, which \<open>current()\<close> returns at the end of the input, so the bound on the position
  never cuts it short.
\<close>

function skip_while :: "(char \<Rightarrow> bool) \<Rightarrow> input_iter \<Rightarrow> input_iter" where
  "skip_while P it =
     (if iter_has_more it \<and> P (iter_current it) then skip_while P (iter_next it) else it)"
  by pat_completeness auto
termination
  by (relation "measure (\<lambda>(P, it). length (it_input it) - it_pos it)")
    (auto simp: iter_has_more_def iter_next_def Let_def)

declare skip_while.simps [simp del]

text \<open>The characters of the input between two positions.\<close>

definition text_slice :: "input_iter \<Rightarrow> nat \<Rightarrow> nat \<Rightarrow> string" where
  "text_slice it start_pos end_pos = take (end_pos - start_pos) (drop start_pos (it_input it))"

lemma iter_next_input [simp, iter_simps]:
  "it_input (iter_next it) = it_input it" "it_filename (iter_next it) = it_filename it"
  by (simp_all add: iter_next_def Let_def)

lemma iter_next_pos [iter_simps]:
  "it_pos (iter_next it) = (if iter_has_more it then it_pos it + 1 else it_pos it)"
  by (simp add: iter_next_def iter_has_more_def Let_def)

lemma iter_current_more: "iter_current it \<noteq> NUL \<Longrightarrow> iter_has_more it"
  by (auto simp: iter_current_def iter_has_more_def split: if_splits)

lemma skip_while_frame:
  "it_input (skip_while P it) = it_input it \<and> it_filename (skip_while P it) = it_filename it \<and>
   it_pos it \<le> it_pos (skip_while P it)"
proof (induction P it rule: skip_while.induct)
  case (1 P it)
  then show ?case by (subst (1 2 3) skip_while.simps) (auto simp: iter_next_pos split: if_splits)
qed

lemmas skip_while_input [simp, iter_simps] =
  skip_while_frame [THEN conjunct1] skip_while_frame [THEN conjunct2, THEN conjunct1]
lemmas skip_while_pos [iter_simps] = skip_while_frame [THEN conjunct2, THEN conjunct2]

text \<open>\<open>eat_whitespace_and_comments\<close>: white space, and comments from \<open>#\<close> and a space to the end of
  the line.\<close>

function eat_whitespace_and_comments :: "input_iter \<Rightarrow> input_iter" where
  "eat_whitespace_and_comments it =
     (let c = iter_current it
      in if c = SPACE \<or> c = TAB \<or> c = NL \<or> c = CR then eat_whitespace_and_comments (iter_next it)
         else if c = CHR ''#'' \<and> iter_peek it = SPACE
         then eat_whitespace_and_comments (skip_while (\<lambda>c. c \<noteq> NL \<and> c \<noteq> NUL) (iter_next it))
         else it)"
  by pat_completeness auto
termination
proof (relation "measure (\<lambda>it. length (it_input it) - it_pos it)", goal_cases)
  case 1
  show ?case by simp
next
  case (2 it c)
  then have "iter_has_more it" by (intro iter_current_more) auto
  then show ?case by (simp add: iter_simps) (simp add: iter_has_more_def)
next
  case (3 it c)
  then have "iter_has_more it" by (intro iter_current_more) auto
  then show ?case
    using skip_while_pos [of "iter_next it" "\<lambda>c. c \<noteq> NL \<and> c \<noteq> NUL"]
    by (simp add: iter_next_pos) (simp add: iter_has_more_def)
qed

declare eat_whitespace_and_comments.simps [simp del]

definition lex_identifier_or_keyword :: "nat \<Rightarrow> input_iter \<Rightarrow> 'd token \<times> input_iter" where
  "lex_identifier_or_keyword start_pos it =
     (let it' = skip_while is_ident_cont (iter_next it);
          end_pos = it_pos it';
          text = text_slice it start_pos end_pos
      in (if text = ''true'' then simple_token TokTrue (start_pos, end_pos)
          else if text = ''false'' then simple_token TokFalse (start_pos, end_pos)
          else make_id text (start_pos, end_pos), it'))"

definition valid_escape :: "char \<Rightarrow> bool" where
  "valid_escape c \<longleftrightarrow>
     c = CHR ''n'' \<or> c = CHR ''r'' \<or> c = CHR ''t'' \<or> c = BACKSLASH \<or> c = DQUOTE \<or> c = CHR ''0''"

text \<open>The loop of \<open>lex_string\<close> up to the closing quote. \<open>start_loc\<close> is the location of the opening one.\<close>

function lex_string_loop :: "location \<Rightarrow> input_iter \<Rightarrow> lex_error + input_iter" where
  "lex_string_loop start_loc it =
     (let char_loc = iter_location it; c = iter_current it
      in if c = NUL then Inl (lex_error start_loc UnclosedString)
         else if c = NL then Inl (lex_error char_loc UnclosedString)
         else if c = DQUOTE then Inr it
         else if c = BACKSLASH then
           let escape_loc = iter_location it; it1 = iter_next it; escaped_char = iter_current it1
           in if escaped_char = NUL \<or> escaped_char = NL then Inl (lex_error escape_loc UnclosedString)
              else if \<not> valid_escape escaped_char then Inl (lex_error (iter_location it1) UnknownEscape)
              else lex_string_loop start_loc (iter_next it1)
         else lex_string_loop start_loc (iter_next it))"
  by pat_completeness auto
termination
proof (relation "measure (\<lambda>(loc, it). length (it_input it) - it_pos it)", goal_cases)
  case 1
  show ?case by simp
next
  case (2 start_loc it char_loc c)
  then have "iter_has_more it" by (intro iter_current_more) simp
  then show ?case using 2 by (simp add: iter_next_pos) (auto simp: iter_has_more_def)
next
  case (3 start_loc it char_loc c)
  then have "iter_has_more it" by (intro iter_current_more) simp
  then show ?case by (simp add: iter_next_pos) (simp add: iter_has_more_def)
qed

declare lex_string_loop.simps [simp del]

definition lex_string :: "nat \<Rightarrow> input_iter \<Rightarrow> lex_error + 'd token \<times> input_iter" where
  "lex_string span_start it =
     (let start_loc = iter_location it;
          it1 = iter_next it;
          content_start_pos = it_pos it1
      in bind_result (lex_string_loop start_loc it1) (\<lambda>it2.
           let content_end_pos = it_pos it2;
               it3 = iter_next it2
           in Inr (make_str_lit (text_slice it content_start_pos content_end_pos) (span_start, it_pos it3), it3)))"

subsection \<open>Numbers\<close>

text \<open>\<open>num_buffer\<close> has room for 127 characters and the terminator; further ones are dropped.\<close>

definition buffer_max_idx :: nat where
  "buffer_max_idx = 127"

definition buf_add :: "string \<Rightarrow> char \<Rightarrow> string" where
  "buf_add num_buffer c = (if length num_buffer < buffer_max_idx then num_buffer @ [c] else num_buffer)"

text \<open>A loop over digits and underscores, which copies the digits to the buffer.\<close>

function take_digits :: "radix \<Rightarrow> input_iter \<Rightarrow> string \<Rightarrow> input_iter \<times> string" where
  "take_digits base it num_buffer =
     (if iter_has_more it \<and> is_digit_or_underscore (iter_current it) base
      then take_digits base (iter_next it)
             (if iter_current it \<noteq> CHR ''_'' then buf_add num_buffer (iter_current it) else num_buffer)
      else (it, num_buffer))"
  by pat_completeness auto
termination
  by (relation "measure (\<lambda>(base, it, buf). length (it_input it) - it_pos it)")
    (auto simp: iter_has_more_def iter_next_pos)

declare take_digits.simps [simp del]

text \<open>
  The base prefix. The result is the iterator, the buffer and the base, or \<^const>\<open>None\<close> for a lone
  \<open>0\<close>, which is returned as a token at once.
\<close>

definition lex_number_prefix :: "input_iter \<Rightarrow> lex_error + input_iter \<times> (string \<times> radix) option" where
  "lex_number_prefix it =
     (if iter_current it = CHR ''0'' then
        let buf = buf_add '''' CHR ''0'';
            it1 = iter_next it;
            p = iter_current it1
        in if p = CHR ''x'' \<or> p = CHR ''X'' then
             let it2 = iter_next it1
             in if \<not> is_ascii_hex_digit (iter_current it2)
                then Inl (lex_error (iter_location it2) IncompleteInt)
                else Inr (it2, Some (buf_add buf p, Hex))
           else if p = CHR ''b'' \<or> p = CHR ''B'' then
             let it2 = iter_next it1
             in if \<not> is_ascii_bin_digit (iter_current it2)
                then Inl (lex_error (iter_location it2) IncompleteInt)
                else Inr (it2, Some (buf_add buf p, Bin))
           else if \<not> is_ascii_dec_digit p \<and> p \<noteq> CHR ''.'' \<and> p \<noteq> CHR ''e'' \<and> p \<noteq> CHR ''E''
           then Inr (it1, None)
           else Inr (it1, Some (buf, Dec))
      else Inr (it, Some ('''', Dec)))"

text \<open>The decimal point and the fraction digits; the last component is \<open>is_float\<close>.\<close>

definition lex_fraction :: "input_iter \<Rightarrow> string \<Rightarrow> input_iter \<times> string \<times> bool" where
  "lex_fraction it buf =
     (if iter_current it = CHR ''.'' \<and> is_ascii_dec_digit (iter_peek it)
      then let (it', buf') = take_digits Dec (iter_next it) (buf_add buf CHR ''.'') in (it', buf', True)
      else (it, buf, False))"

text \<open>The exponent; the last component is \<open>has_exponent\<close>.\<close>

definition lex_exponent :: "input_iter \<Rightarrow> string \<Rightarrow> input_iter \<times> string \<times> bool" where
  "lex_exponent it buf =
     (if (iter_current it = CHR ''e'' \<or> iter_current it = CHR ''E'') \<and>
         (is_ascii_dec_digit (iter_peek it) \<or>
          ((iter_peek it = CHR ''+'' \<or> iter_peek it = CHR ''-'') \<and> is_ascii_dec_digit (iter_peek2 it)))
      then let buf1 = buf_add buf (iter_current it);
               it1 = iter_next it;
               (it2, buf2) = (if iter_current it1 = CHR ''+'' \<or> iter_current it1 = CHR ''-''
                              then (iter_next it1, buf_add buf1 (iter_current it1)) else (it1, buf1));
               (it3, buf3) = take_digits Dec it2 buf2
           in (it3, buf3, True)
      else (it, buf, False))"

text \<open>
  \<open>strtoll\<close> on a string that starts with a digit: whether \<open>errno\<close> is set to \<open>ERANGE\<close>, the value, and
  the number of characters consumed.
\<close>

definition digit_value :: "char \<Rightarrow> nat option" where
  "digit_value c =
     (if is_ascii_dec_digit c then Some ((of_char c :: nat) - 48)
      else if char_between CHR ''a'' CHR ''f'' c then Some ((of_char c :: nat) - 87)
      else if char_between CHR ''A'' CHR ''F'' c then Some ((of_char c :: nat) - 55)
      else None)"

definition digit_of_base :: "nat \<Rightarrow> char \<Rightarrow> bool" where
  "digit_of_base base c \<longleftrightarrow> (case digit_value c of Some d \<Rightarrow> d < base | None \<Rightarrow> False)"

definition digits_value :: "nat \<Rightarrow> string \<Rightarrow> nat" where
  "digits_value base s = foldl (\<lambda>acc c. acc * base + the (digit_value c)) 0 s"

definition LLONG_MAX :: int where
  "LLONG_MAX = 2 ^ 63 - 1"

definition strtoll :: "string \<Rightarrow> nat \<Rightarrow> bool \<times> int \<times> nat" where
  "strtoll s base =
     (let ds = takeWhile (digit_of_base base) s;
          v = int (digits_value base ds)
      in if v > LLONG_MAX then (True, LLONG_MAX, length ds) else (False, v, length ds))"

text \<open>The validation and conversion that end \<open>lex_number\<close>.\<close>

definition lex_number_finish ::
    "'d fp_ops \<Rightarrow> location \<Rightarrow> nat \<Rightarrow> input_iter \<Rightarrow> string \<Rightarrow> radix \<Rightarrow> bool \<Rightarrow> bool \<Rightarrow>
     lex_error + 'd token \<times> input_iter" where
  "lex_number_finish fp start_loc start_pos it num_buffer base is_float has_exponent =
     (if (base = Hex \<or> base = Bin) \<and> length num_buffer \<le> 2
      then Inl (lex_error (iter_location it) IncompleteInt)
      else let digits = (if base = Hex \<or> base = Bin then drop 2 num_buffer else num_buffer);
               number_span = (start_pos, it_pos it)
           in if digits = [] then Inl (lex_error start_loc IncompleteInt)
              else if is_float then
                (case fp_strtod fp num_buffer of (erange, v, n) \<Rightarrow>
                   if erange then Inl (lex_error (iter_location it) FloatOutOfRange)
                   else if n \<noteq> length num_buffer then Inl (lex_error start_loc InvalidFloat)
                   else Inr (make_float_lit v has_exponent number_span, it))
              else
                (case strtoll digits (radix_value base) of (erange, v, n) \<Rightarrow>
                   if erange then Inl (lex_error (iter_location it) IntOutOfRange)
                   else if n \<noteq> length digits then Inl (lex_error start_loc IncompleteInt)
                   else Inr (make_int_lit v base number_span, it)))"

definition lex_number :: "'d fp_ops \<Rightarrow> nat \<Rightarrow> input_iter \<Rightarrow> lex_error + 'd token \<times> input_iter" where
  "lex_number fp start_pos it =
     (let start_loc = iter_location it
      in bind_result (lex_number_prefix it) (\<lambda>(it1, pre).
        case pre of
          None \<Rightarrow> Inr (make_int_lit 0 Dec (start_pos, it_pos it1), it1)
        | Some (buf, base) \<Rightarrow>
            let (it2, buf2) = take_digits base it1 buf
            in if base = Dec then
                 let (it3, buf3, fraction) = lex_fraction it2 buf2;
                     (it4, buf4, has_exponent) = lex_exponent it3 buf3
                 in lex_number_finish fp start_loc start_pos it4 buf4 base (fraction \<or> has_exponent) has_exponent
               else if iter_current it2 = CHR ''.'' \<or> iter_current it2 = CHR ''e'' \<or> iter_current it2 = CHR ''E''
               then Inl (lex_error (iter_location it2) InvalidChar)
               else lex_number_finish fp start_loc start_pos it2 buf2 base False False))"

subsection \<open>Flags, and the driver\<close>

text \<open>Called with the iterator after \<open>-\<close>, respectively after \<open>--\<close>.\<close>

definition lex_short_flag :: "nat \<Rightarrow> input_iter \<Rightarrow> 'd token \<times> input_iter" where
  "lex_short_flag start_pos it =
     (let it' = skip_while (\<lambda>c. is_ident_cont c \<or> is_ascii_dec_digit c) it
      in (make_short_flag (text_slice it (it_pos it) (it_pos it')) (start_pos, it_pos it'), it'))"

definition lex_long_flag :: "nat \<Rightarrow> input_iter \<Rightarrow> 'd token \<times> input_iter" where
  "lex_long_flag start_pos it =
     (let it' = skip_while (\<lambda>c. is_ident_cont c \<or> c = CHR ''-'') it
      in (make_long_flag (text_slice it (it_pos it) (it_pos it')) (start_pos, it_pos it'), it'))"

definition next_token :: "'d fp_ops \<Rightarrow> input_iter \<Rightarrow> lex_error + 'd token \<times> input_iter" where
  "next_token fp it =
     (let start_pos = it_pos it;
          start_loc = iter_location it;
          c = iter_current it
      in if c = NUL then Inr (simple_token TokEof (start_pos, start_pos), it)
         else if c = CHR ''*'' then
           let it1 = iter_next it in Inr (simple_token TokTimes (start_pos, it_pos it1), it1)
         else if c = CHR ''-'' then
           let it1 = iter_next it
           in if iter_current it1 = CHR ''-'' then
                let it2 = iter_next it1
                in if is_ident_start (iter_current it2) then Inr (lex_long_flag start_pos it2)
                   else Inr (simple_token TokDoubleMinus (start_pos, it_pos it2), it2)
              else if is_ident_start (iter_current it1) \<or> is_ascii_dec_digit (iter_current it1)
              then Inr (lex_short_flag start_pos it1)
              else Inr (simple_token TokMinus (start_pos, it_pos it1), it1)
         else if c = DQUOTE then lex_string start_pos it
         else if is_ascii_dec_digit c then lex_number fp start_pos it
         else if is_ident_start c then Inr (lex_identifier_or_keyword start_pos it)
         else Inl (lex_error start_loc InvalidChar))"

text \<open>One iterator is a later position of another over the same input.\<close>

definition advances :: "input_iter \<Rightarrow> input_iter \<Rightarrow> bool" where
  "advances it it' \<longleftrightarrow> it_input it' = it_input it \<and> it_filename it' = it_filename it \<and>
     it_pos it \<le> it_pos it' \<and>
     (it_pos it \<le> length (it_input it) \<longrightarrow> it_pos it' \<le> length (it_input it))"

lemma advances_refl [simp, intro]: "advances it it"
  by (simp add: advances_def)

lemma advances_trans [trans]: "advances it it1 \<Longrightarrow> advances it1 it2 \<Longrightarrow> advances it it2"
  by (auto simp: advances_def)

lemma advances_next [simp, intro]: "advances it (iter_next it)"
  by (auto simp: advances_def iter_next_pos iter_has_more_def)

lemma advances_next_trans: "advances (iter_next it) it' \<Longrightarrow> advances it it'"
  by (rule advances_trans [OF advances_next])

lemma advances_next_next [simp]: "advances (iter_next it) (iter_next (iter_next it))"
  by simp

lemma advances_next_strict:
  "iter_has_more it \<Longrightarrow> advances (iter_next it) it' \<Longrightarrow> it_pos it < it_pos it'"
  by (auto simp: advances_def iter_next_pos)

lemma advances_skip_while [simp, intro]: "advances it (skip_while P it)"
proof (induction P it rule: skip_while.induct)
  case (1 P it)
  then show ?case
    by (subst skip_while.simps) (auto intro: advances_next_trans)
qed

lemma advances_next_skip_while [simp]:
  "advances it (skip_while P (iter_next it))"
  by (rule advances_next_trans) simp

lemma skip_while_stops: "\<not> P NUL \<Longrightarrow> \<not> P (iter_current (skip_while P it))"
proof (induction P it rule: skip_while.induct)
  case (1 P it)
  show ?case
  proof (cases "iter_has_more it \<and> P (iter_current it)")
    case True
    with "1.IH" "1.prems" show ?thesis by (simp add: skip_while.simps [of P it])
  next
    case False
    with "1.prems" show ?thesis
      by (auto simp: skip_while.simps [of P it] iter_current_def iter_has_more_def)
  qed
qed

lemma advances_take_digits: "advances it (fst (take_digits base it buf))"
proof (induction base it buf rule: take_digits.induct)
  case (1 base it buf)
  then show ?case
    by (subst take_digits.simps) (auto intro: advances_next_trans)
qed

lemma advances_take_digitsD [dest]: "take_digits base it buf = (it', buf') \<Longrightarrow> advances it it'"
  using advances_take_digits [of it base buf] by simp

lemma advances_eat [simp, intro]: "advances it (eat_whitespace_and_comments it)"
proof (induction it rule: eat_whitespace_and_comments.induct)
  case (1 it)
  then show ?case
    by (subst eat_whitespace_and_comments.simps)
      (auto simp: Let_def intro: advances_next_trans
        advances_next_trans [OF advances_trans [OF advances_skip_while]])
qed

lemma lex_string_loop_Inr:
  "lex_string_loop loc it = Inr it' \<longleftrightarrow>
     iter_current it = DQUOTE \<and> it' = it \<or>
     iter_current it = BACKSLASH \<and> valid_escape (iter_current (iter_next it)) \<and>
       lex_string_loop loc (iter_next (iter_next it)) = Inr it' \<or>
     iter_current it \<notin> {NUL, NL, DQUOTE, BACKSLASH} \<and> lex_string_loop loc (iter_next it) = Inr it'"
  by (subst lex_string_loop.simps) (auto simp: Let_def valid_escape_def)

lemma advances_lex_string_loop: "lex_string_loop loc it = Inr it' \<Longrightarrow> advances it it'"
proof (induction "length (it_input it) - it_pos it" arbitrary: it rule: less_induct)
  case less
  have step: "advances it1 it'"
    if "lex_string_loop loc it1 = Inr it'" "advances (iter_next it) it1" "iter_has_more it" for it1
    using that less.hyps [of it1] by (auto simp: advances_def iter_has_more_def iter_next_pos)
  from less.prems have "it' = it \<or> iter_has_more it \<and>
      (lex_string_loop loc (iter_next it) = Inr it' \<or>
       lex_string_loop loc (iter_next (iter_next it)) = Inr it')"
    using iter_current_more [of it] by (subst (asm) lex_string_loop_Inr) auto
  with step [of "iter_next it"] step [of "iter_next (iter_next it)"] show ?case
    by (auto intro: advances_next_trans)
qed

lemma advances_prefix: "lex_number_prefix it = Inr (it', pre) \<Longrightarrow> advances it it'"
  by (auto simp: lex_number_prefix_def Let_def split: if_splits intro: advances_next_trans)

lemma advances_fraction: "lex_fraction it buf = (it', r) \<Longrightarrow> advances it it'"
  by (auto simp: lex_fraction_def split: if_splits prod.splits intro: advances_next_trans)

lemma advances_exponent: "lex_exponent it buf = (it', r) \<Longrightarrow> advances it it'"
  by (auto simp: lex_exponent_def Let_def split: if_splits prod.splits intro: advances_next_trans)

lemma lex_number_finish_result:
  "lex_number_finish fp loc start_pos it buf base is_float e = Inr (tok, it') \<Longrightarrow>
     it' = it \<and> tok_span tok = (start_pos, it_pos it) \<and> tok_kind tok \<in> {TokIntLit, TokFloatLit}"
  by (auto simp: lex_number_finish_def Let_def make_int_lit_def make_float_lit_def
      split: if_splits prod.splits)

lemma take_digits_strict:
  assumes "take_digits base it buf = (it', buf')" and "is_digit_or_underscore (iter_current it) base"
    and "iter_has_more it"
  shows "it_pos it < it_pos it'"
proof -
  from assms have "advances (iter_next it) it'"
    by (subst (asm) take_digits.simps) (auto)
  with assms(3) show ?thesis by (rule advances_next_strict)
qed

lemma prefix_strict:
  assumes "lex_number_prefix it = Inr (it', pre)" and "iter_has_more it"
  shows "it_pos it < it_pos it' \<or> it' = it \<and> (\<exists>buf. pre = Some (buf, Dec))"
  using assms by (auto simp: lex_number_prefix_def Let_def split: if_splits intro: advances_next_strict)

lemma lex_number_result:
  assumes "lex_number fp start_pos it = Inr (tok, it')" and "is_ascii_dec_digit (iter_current it)"
    and "iter_has_more it"
  shows "advances it it' \<and> it_pos it < it_pos it' \<and> tok_span tok = (start_pos, it_pos it') \<and>
    tok_kind tok \<in> {TokIntLit, TokFloatLit}"
proof -
  from assms(1) obtain it1 pre where pre: "lex_number_prefix it = Inr (it1, pre)"
    by (auto simp: lex_number_def Let_def)
  note adv1 = advances_prefix [OF pre] and str1 = prefix_strict [OF pre assms(3)]
  show ?thesis
  proof (cases pre)
    case None
    with assms(1) pre adv1 str1 show ?thesis
      by (auto simp: lex_number_def Let_def make_int_lit_def)
  next
    case (Some p)
    then obtain buf base where p: "pre = Some (buf, base)" by (cases p) auto
    obtain it2 buf2 where td: "take_digits base it1 buf = (it2, buf2)" by fastforce
    have adv2: "advances it1 it2" using td by blast
    have digit: "is_digit_or_underscore (iter_current it) Dec"
      using assms(2) by (simp add: is_digit_or_underscore_def)
    have "it_pos it < it_pos it2"
    proof (cases "it1 = it")
      case True
      with str1 p have "base = Dec" by auto
      with True td digit assms(3) show ?thesis by (auto dest: take_digits_strict)
    next
      case False
      with str1 adv2 show ?thesis by (auto simp: advances_def)
    qed
    moreover have "advances it2 it' \<and> tok_span tok = (start_pos, it_pos it') \<and>
        tok_kind tok \<in> {TokIntLit, TokFloatLit}"
      using assms(1) pre p td
      by (auto simp: lex_number_def Let_def split: if_splits prod.splits
          dest!: lex_number_finish_result advances_fraction advances_exponent intro: advances_trans)
    ultimately show ?thesis
      using adv1 adv2 by (auto simp: advances_def)
  qed
qed

lemma lex_string_result:
  assumes "lex_string start_pos it = Inr (tok, it')" and "iter_has_more it"
  shows "advances (iter_next it) it' \<and> it_pos it < it_pos it' \<and> tok_span tok = (start_pos, it_pos it') \<and>
    tok_kind tok = TokStrLit"
proof -
  from assms(1) obtain it2 where l: "lex_string_loop (iter_location it) (iter_next it) = Inr it2"
    and r: "it' = iter_next it2" "tok_span tok = (start_pos, it_pos it')" "tok_kind tok = TokStrLit"
    by (auto simp: lex_string_def Let_def make_str_lit_def)
  from advances_lex_string_loop [OF l] have "advances (iter_next it) it'"
    unfolding r by (rule advances_trans) simp
  with r assms(2) show ?thesis by (auto intro: advances_next_strict)
qed

lemmas token_defs = simple_token_def make_id_def make_short_flag_def make_long_flag_def
  make_int_lit_def make_float_lit_def make_str_lit_def

lemma NUL_not_digit [simp]: "\<not> is_ascii_dec_digit NUL" "\<not> is_ident_start NUL"
  by (simp_all add: is_ascii_dec_digit_def char_between_iso is_ident_start_def iscntrl_iso)

lemma next_token_result [progress_rules]:
  assumes "next_token fp it = Inr (tok, it')"
  shows "advances it it' \<and> tok_span tok = (it_pos it, it_pos it') \<and>
    (tok_kind tok = TokEof \<and> it' = it \<and> iter_current it = NUL \<or>
     tok_kind tok \<noteq> TokEof \<and> it_pos it < it_pos it')"
proof (cases "iter_current it = NUL")
  case True
  with assms show ?thesis by (auto simp: next_token_def Let_def simple_token_def)
next
  case False
  then have more: "iter_has_more it" by (rule iter_current_more)
  consider (num) "is_ascii_dec_digit (iter_current it)" "lex_number fp (it_pos it) it = Inr (tok, it')"
    | (str) "lex_string (it_pos it) it = Inr (tok, it')"
    | (oth) "tok_kind tok \<noteq> TokEof" "advances (iter_next it) it'" "tok_span tok = (it_pos it, it_pos it')"
    using assms False 
    by (auto simp: next_token_def Let_def lex_long_flag_def lex_short_flag_def token_defs
        lex_identifier_or_keyword_def split: if_splits intro: advances_next_trans)
  then show ?thesis
  proof cases
    case num
    with lex_number_result [OF num(2,1) more] show ?thesis by auto
  next
    case str
    with lex_string_result [OF str more] show ?thesis by (auto intro: advances_next_trans)
  next
    case oth
    with more show ?thesis by (auto intro: advances_next_trans advances_next_strict)
  qed
qed


text \<open>\<open>lex_all\<close> and \<open>tokenize\<close>; \<open>m_tokens\<close> is the list of the tokens pushed.\<close>

lemma next_token_more:
  "next_token fp it = Inr (tok, it') \<Longrightarrow> tok_kind tok \<noteq> TokEof \<Longrightarrow> iter_has_more it"
  using iter_current_more [of it]
  by (cases "iter_current it = NUL") (auto simp: next_token_def simple_token_def Let_def)

function lex_all :: "'d fp_ops \<Rightarrow> input_iter \<Rightarrow> lex_error + 'd token list" where
  "lex_all fp it =
     bind_result (next_token fp (eat_whitespace_and_comments it)) (\<lambda>(token, it').
       if tok_kind token = TokEof then Inr [token]
       else bind_result (lex_all fp it') (\<lambda>tokens. Inr (token # tokens)))"
  by pat_completeness auto
termination
proof (relation "measure (\<lambda>(fp, it). length (it_input it) - it_pos it)", goal_cases)
  case 1
  show ?case by simp
next
  case (2 fp it x token it')
  then have n: "next_token fp (eat_whitespace_and_comments it) = Inr (token, it')"
    and k: "tok_kind token \<noteq> TokEof" by simp_all
  from next_token_result [OF n] next_token_more [OF n k] k advances_eat [of it]
  show ?case by (auto simp: advances_def iter_has_more_def)
qed

declare lex_all.simps [simp del]

definition tokenize :: "'d fp_ops \<Rightarrow> src \<Rightarrow> lex_error + 'd token list" where
  "tokenize fp source = lex_all fp (get_iterator source)"

section \<open>What the tokens say of the input\<close>

definition span_text :: "string \<Rightarrow> nat \<times> nat \<Rightarrow> string" where
  "span_text code span = take (snd span - fst span) (drop (fst span) code)"

lemma text_slice_span [simp]: "text_slice it a b = span_text (it_input it) (a, b)"
  by (simp add: text_slice_def span_text_def)

text \<open>The characters between two positions of an iterator.\<close>

definition consumed :: "input_iter \<Rightarrow> input_iter \<Rightarrow> string" where
  "consumed it it' = span_text (it_input it) (it_pos it, it_pos it')"

lemma consumed_refl [simp]: "consumed it it = []"
  by (simp add: consumed_def span_text_def)

lemma consumed_trans:
  assumes "advances it it1" and "advances it1 it2"
  shows "consumed it it2 = consumed it it1 @ consumed it1 it2"
proof -
  obtain k1 where "it_pos it1 = it_pos it + k1"
    using assms by (auto simp: advances_def le_iff_add)
  moreover obtain k2 where "it_pos it2 = it_pos it1 + k2"
    using assms by (auto simp: advances_def le_iff_add)
  moreover have "it_input it1 = it_input it" using assms by (simp add: advances_def)
  ultimately show ?thesis by (simp add: consumed_def span_text_def take_add add.commute)
qed

lemma consumed_next [simp]: "iter_has_more it \<Longrightarrow> consumed it (iter_next it) = [iter_current it]"
  by (simp add: consumed_def span_text_def iter_has_more_def iter_next_pos iter_current_def
      take_Suc_conv_app_nth)

lemma consumed_next_trans:
  "iter_has_more it \<Longrightarrow> advances (iter_next it) it' \<Longrightarrow> consumed it it' = iter_current it # consumed (iter_next it) it'"
  using consumed_trans [of it "iter_next it" it'] by simp

lemma consumed_skip_while: "c \<in> set (consumed it (skip_while P it)) \<Longrightarrow> P c"
proof (induction P it rule: skip_while.induct)
  case (1 P it)
  show ?case
  proof (cases "iter_has_more it \<and> P (iter_current it)")
    case True
    with 1 show ?thesis
      by (auto simp: skip_while.simps [of P it] consumed_next_trans)
  next
    case False
    with "1.prems" show ?thesis by (auto simp: skip_while.simps [of P it])
  qed
qed

text \<open>White space and comments, as a grammar.\<close>

inductive blank :: "string \<Rightarrow> bool" where
  blank_Nil: "blank []"
| blank_white: "c \<in> {SPACE, TAB, NL, CR} \<Longrightarrow> blank s \<Longrightarrow> blank (c # s)"
| blank_comment: "NL \<notin> set body \<Longrightarrow> NUL \<notin> set body \<Longrightarrow> blank s \<Longrightarrow>
     blank (CHR ''#'' # SPACE # body @ s)"

lemma iter_peek_next: "iter_has_more it \<Longrightarrow> iter_current (iter_next it) = iter_peek it"
  by (simp add: iter_current_def iter_peek_def iter_next_pos)

lemma consumed_comment:
  assumes "iter_current it = CHR ''#''" and "iter_peek it = SPACE"
  obtains body where "consumed it (skip_while (\<lambda>c. c \<noteq> NL \<and> c \<noteq> NUL) (iter_next it)) = CHR ''#'' # SPACE # body"
    "NL \<notin> set body" "NUL \<notin> set body"
proof -
  let ?P = "\<lambda>c. c \<noteq> NL \<and> c \<noteq> NUL"
  have more: "iter_has_more it" using assms by (intro iter_current_more) simp
  then have cur: "iter_current (iter_next it) = SPACE" using assms iter_peek_next by simp
  then have more1: "iter_has_more (iter_next it)" by (intro iter_current_more) simp
  have sk: "skip_while ?P (iter_next it) = skip_while ?P (iter_next (iter_next it))"
    using more1 cur by (simp add: skip_while.simps [of ?P "iter_next it"])
  have "consumed it (skip_while ?P (iter_next it)) =
    CHR ''#'' # SPACE # consumed (iter_next (iter_next it)) (skip_while ?P (iter_next (iter_next it)))"
    using more more1 assms cur by (simp add: sk consumed_next_trans)
  then show thesis
    using that consumed_skip_while [of _ "iter_next (iter_next it)" ?P] by blast
qed

lemma consumed_eat: "blank (consumed it (eat_whitespace_and_comments it))"
proof (induction it rule: eat_whitespace_and_comments.induct)
  case (1 it)
  let ?c = "iter_current it" and ?s = "skip_while (\<lambda>c. c \<noteq> NL \<and> c \<noteq> NUL) (iter_next it)"
  consider (ws) "?c \<in> {SPACE, TAB, NL, CR}" | (com) "?c = CHR ''#''" "iter_peek it = SPACE"
    | (no) "eat_whitespace_and_comments it = it"
    by (cases "?c \<in> {SPACE, TAB, NL, CR} \<or> (?c = CHR ''#'' \<and> iter_peek it = SPACE)")
      (auto simp: eat_whitespace_and_comments.simps [of it] Let_def)
  then show ?case
  proof cases
    case ws
    then have "iter_has_more it" by (intro iter_current_more) auto
    with ws "1.IH"(1) [OF refl] show ?thesis
      by (auto simp: eat_whitespace_and_comments.simps [of it] Let_def consumed_next_trans intro: blank_white)
  next
    case com
    then obtain body where b: "consumed it ?s = CHR ''#'' # SPACE # body" "NL \<notin> set body" "NUL \<notin> set body"
      by (rule consumed_comment)
    have "consumed it (eat_whitespace_and_comments ?s) = consumed it ?s @ consumed ?s (eat_whitespace_and_comments ?s)"
      by (rule consumed_trans) simp_all
    with com b "1.IH"(2) [OF refl] show ?thesis
      by (auto simp: eat_whitespace_and_comments.simps [of it] Let_def intro: blank_comment)
  next
    case no
    then show ?thesis by (simp add: blank_Nil)
  qed
qed


text \<open>
  The invariant of \<open>lex_number\<close>: the buffer holds what has been consumed, less the underscores and
  cut at the buffer's capacity.
\<close>

definition number_text :: "string \<Rightarrow> string" where
  "number_text text = take buffer_max_idx (filter (\<lambda>c. c \<noteq> CHR ''_'') text)"

definition num_inv :: "input_iter \<Rightarrow> input_iter \<Rightarrow> string \<Rightarrow> bool" where
  "num_inv it0 it buf \<longleftrightarrow> advances it0 it \<and> buf = number_text (consumed it0 it)"

lemma num_inv_refl: "num_inv it it []"
  by (simp add: num_inv_def number_text_def)

lemma buf_add_take: "buf_add (take buffer_max_idx xs) c = take buffer_max_idx (xs @ [c])"
  by (auto simp: buf_add_def)

lemma num_inv_add:
  assumes "num_inv it0 it buf" and "iter_has_more it" and "iter_current it \<noteq> CHR ''_''"
  shows "num_inv it0 (iter_next it) (buf_add buf (iter_current it))"
  using assms consumed_trans [of it0 it "iter_next it"]
  by (auto simp: num_inv_def number_text_def buf_add_take intro: advances_trans)

lemma num_inv_underscore:
  assumes "num_inv it0 it buf" and "iter_has_more it" and "iter_current it = CHR ''_''"
  shows "num_inv it0 (iter_next it) buf"
  using assms consumed_trans [of it0 it "iter_next it"]
  by (auto simp: num_inv_def number_text_def intro: advances_trans)

lemma num_inv_take_digits:
  "num_inv it0 it buf \<Longrightarrow> take_digits base it buf = (it', buf') \<Longrightarrow> num_inv it0 it' buf'"
proof (induction base it buf rule: take_digits.induct)
  case (1 base it buf)
  show ?case
  proof (cases "iter_has_more it \<and> is_digit_or_underscore (iter_current it) base")
    case True
    with 1 show ?thesis
      by (cases "iter_current it = CHR ''_''")
        (auto simp: take_digits.simps [of base it] intro: num_inv_add num_inv_underscore)
  next
    case False
    with "1.prems" show ?thesis by (simp add: take_digits.simps [of base it])
  qed
qed

lemma num_inv_prefix:
  "lex_number_prefix it = Inr (it', Some (buf, base)) \<Longrightarrow> num_inv it it' buf"
  using iter_current_more [of it] iter_current_more [of "iter_next it"]
    num_inv_add [OF num_inv_refl, of it] num_inv_add [of it "iter_next it"]
  by (auto simp: lex_number_prefix_def Let_def num_inv_refl split: if_splits)

lemma num_inv_fraction:
  "num_inv it0 it buf \<Longrightarrow> lex_fraction it buf = (it', buf', f) \<Longrightarrow> num_inv it0 it' buf'"
  using iter_current_more [of it] num_inv_add [of it0 it buf]
  by (auto simp: lex_fraction_def split: if_splits prod.splits intro: num_inv_take_digits)

lemma num_inv_exponent:
  "num_inv it0 it buf \<Longrightarrow> lex_exponent it buf = (it', buf', e) \<Longrightarrow> num_inv it0 it' buf'"
  using iter_current_more [of it] iter_current_more [of "iter_next it"]
    num_inv_add [of it0 it buf] num_inv_add [of it0 "iter_next it" "buf_add buf (iter_current it)"]
  by (auto simp: lex_exponent_def Let_def split: if_splits prod.splits intro: num_inv_take_digits)

text \<open>The raw content of a string literal: no quote, no line end, and only the known escapes.\<close>

fun raw_content :: "string \<Rightarrow> bool" where
  "raw_content [] = True"
| "raw_content (c # cs) =
     (if c = BACKSLASH then cs \<noteq> [] \<and> valid_escape (hd cs) \<and> raw_content (tl cs)
      else c \<noteq> NUL \<and> c \<noteq> NL \<and> c \<noteq> DQUOTE \<and> raw_content cs)"

lemma raw_content_escape: "valid_escape e \<Longrightarrow> raw_content cs \<Longrightarrow> raw_content (BACKSLASH # e # cs)"
  by simp

lemma valid_escape_more: "valid_escape (iter_current it) \<Longrightarrow> iter_has_more it"
  by (rule iter_current_more) (auto simp: valid_escape_def)

lemma lex_string_loop_content:
  "lex_string_loop loc it = Inr it' \<Longrightarrow> raw_content (consumed it it') \<and> iter_current it' = DQUOTE"
proof (induction "length (it_input it) - it_pos it" arbitrary: it rule: less_induct)
  case less
  from less.prems consider "iter_current it = DQUOTE" "it' = it"
    | (esc) "iter_current it = BACKSLASH" "valid_escape (iter_current (iter_next it))"
       "lex_string_loop loc (iter_next (iter_next it)) = Inr it'"
    | (oth) "iter_current it \<notin> {NUL, NL, DQUOTE, BACKSLASH}" "lex_string_loop loc (iter_next it) = Inr it'"
    by (subst (asm) lex_string_loop_Inr) blast
  then show ?case
  proof cases
    case 1
    then show ?thesis by simp
  next
    case esc
    then have "iter_has_more it" "iter_has_more (iter_next it)"
      using iter_current_more [of it] valid_escape_more by simp_all
    with esc less.hyps [of "iter_next (iter_next it)"] advances_lex_string_loop [OF esc(3)] show ?thesis
      by (auto simp: consumed_next_trans advances_next_trans iter_has_more_def iter_next_pos)
  next
    case oth
    then have "iter_has_more it" using iter_current_more [of it] by simp
    with oth less.hyps [of "iter_next it"] advances_lex_string_loop [OF oth(2)] show ?thesis
      by (auto simp: consumed_next_trans iter_has_more_def iter_next_pos)
  qed
qed

text \<open>
  What a token says of the text its span covers. The value of a number is read from the buffer, so
  it is the value of the digits as long as they fit in it.
\<close>

definition token_matches :: "'d fp_ops \<Rightarrow> string \<Rightarrow> 'd token \<Rightarrow> bool" where
  "token_matches fp text t \<longleftrightarrow>
     (case tok_kind t of
        TokEof \<Rightarrow> text = ''''
      | TokTrue \<Rightarrow> text = ''true''
      | TokFalse \<Rightarrow> text = ''false''
      | TokMinus \<Rightarrow> text = ''-''
      | TokDoubleMinus \<Rightarrow> text = ''--''
      | TokTimes \<Rightarrow> text = ''*''
      | TokId \<Rightarrow> tok_data t = StringRef (Some text) \<and> text \<noteq> [] \<and> list_all is_ident_start text
      | TokFlagShort \<Rightarrow> (case tok_data t of
            StringRef (Some name) \<Rightarrow> text = ''-'' @ name \<and> name \<noteq> [] \<and> list_all is_ident_start name
          | _ \<Rightarrow> False)
      | TokFlagLong \<Rightarrow> (case tok_data t of
            StringRef (Some name) \<Rightarrow> text = ''--'' @ name \<and> name \<noteq> [] \<and> list_all is_ident_start name
          | _ \<Rightarrow> False)
      | TokStrLit \<Rightarrow> (case tok_data t of
            StringRef (Some raw) \<Rightarrow> text = [DQUOTE] @ raw @ [DQUOTE] \<and> raw_content raw
          | _ \<Rightarrow> False)
      | TokIntLit \<Rightarrow> (case tok_data t of
            IntLit v base \<Rightarrow>
              v = int (digits_value (radix_value base)
                    (drop (if base = Dec then 0 else 2) (number_text text))) \<and> v \<le> LLONG_MAX
          | _ \<Rightarrow> False)
      | TokFloatLit \<Rightarrow> (case tok_data t of
            FloatLit v e \<Rightarrow>
              fp_strtod fp (number_text text) = (False, v, length (number_text text))
          | _ \<Rightarrow> False))"

lemma dec_digit_ident_start: "is_ascii_dec_digit c \<Longrightarrow> is_ident_start c"
  by (auto simp: is_ascii_dec_digit_def is_ident_start_def iscntrl_iso char_between_iso)

lemma ident_start_more: "is_ident_start (iter_current it) \<Longrightarrow> iter_has_more it"
  by (rule iter_current_more) (auto simp: is_ident_start_def iscntrl_iso)

lemma skip_while_one:
  "iter_has_more it \<Longrightarrow> P (iter_current it) \<Longrightarrow> consumed it (skip_while P it) \<noteq> []"
  by (simp add: skip_while.simps [of P it] consumed_next_trans)

lemma takeWhile_full_length: "length (takeWhile P xs) = length xs \<Longrightarrow> takeWhile P xs = xs"
  by (metis takeWhile_eq_take take_all_iff order_refl)

lemma strtoll_all:
  assumes "strtoll s b = (False, v, n)" and "n = length s"
  shows "v = int (digits_value b s) \<and> v \<le> LLONG_MAX"
proof -
  have "takeWhile (digit_of_base b) s = s"
    using assms by (intro takeWhile_full_length) (auto simp: strtoll_def Let_def split: if_splits)
  with assms(1) show ?thesis by (auto simp only: strtoll_def Let_def split: if_splits)
qed

lemma lex_number_finish_matches:
  assumes "lex_number_finish fp loc start_pos it' buf base is_float e = Inr (tok, it'')"
    and "num_inv it it' buf"
  shows "token_matches fp (consumed it it') tok"
  using assms
  by (cases base) (auto simp: lex_number_finish_def Let_def make_int_lit_def make_float_lit_def token_matches_def
      num_inv_def split: if_splits prod.splits dest!: strtoll_all)

lemma lex_number_matches:
  assumes "lex_number fp start_pos it = Inr (tok, it')"
  shows "token_matches fp (consumed it it') tok"
proof -
  from assms obtain it1 pre where pre: "lex_number_prefix it = Inr (it1, pre)"
    by (auto simp: lex_number_def Let_def)
  show ?thesis
  proof (cases pre)
    case None
    with pre have "iter_current it = CHR ''0''" "it1 = iter_next it"
      by (auto simp: lex_number_prefix_def Let_def split: if_splits)
    moreover from this have "iter_has_more it" by (intro iter_current_more) simp
    ultimately show ?thesis using assms pre None
      by (auto simp: lex_number_def make_int_lit_def token_matches_def number_text_def buffer_max_idx_def
          digits_value_def digit_value_def is_ascii_dec_digit_def char_between_iso LLONG_MAX_def)
  next
    case (Some p)
    then obtain buf base where p: "pre = Some (buf, base)" by (cases p) auto
    obtain it2 buf2 where td: "take_digits base it1 buf = (it2, buf2)" by fastforce
    have inv2: "num_inv it it2 buf2"
      using num_inv_take_digits [OF num_inv_prefix td] pre p by simp
    obtain it3 buf3 f where fr: "lex_fraction it2 buf2 = (it3, buf3, f)" by (cases "lex_fraction it2 buf2") auto
    obtain it4 buf4 e where ex: "lex_exponent it3 buf3 = (it4, buf4, e)" by (cases "lex_exponent it3 buf3") auto
    have inv4: "num_inv it it4 buf4" using num_inv_exponent [OF num_inv_fraction [OF inv2 fr] ex] .
    show ?thesis
    proof (cases "base = Dec")
      case True
      with assms pre p td fr ex
      have fin: "lex_number_finish fp (iter_location it) start_pos it4 buf4 base (f \<or> e) e = Inr (tok, it')"
        by (simp add: lex_number_def)
      then have "it' = it4" using lex_number_finish_result by blast
      with lex_number_finish_matches [OF fin inv4] show ?thesis by simp
    next
      case False
      with assms pre p td
      have fin: "lex_number_finish fp (iter_location it) start_pos it2 buf2 base False False = Inr (tok, it')"
        by (auto simp: lex_number_def Let_def split: if_splits)
      then have "it' = it2" using lex_number_finish_result by blast
      with lex_number_finish_matches [OF fin inv2] show ?thesis by simp
    qed
  qed
qed

lemma lex_string_matches:
  assumes "lex_string start_pos it = Inr (tok, it')" and "iter_current it = DQUOTE"
  shows "token_matches fp (consumed it it') tok"
proof -
  from assms(1) obtain it2 where l: "lex_string_loop (iter_location it) (iter_next it) = Inr it2"
    and it': "it' = iter_next it2"
    and tok: "tok_kind tok = TokStrLit" "tok_data tok = StringRef (Some (consumed (iter_next it) it2))"
    by (auto simp: lex_string_def Let_def make_str_lit_def consumed_def)
  note adv = advances_lex_string_loop [OF l] and cont = lex_string_loop_content [OF l]
  have more: "iter_has_more it" "iter_has_more it2"
    using assms(2) cont iter_current_more [of it] iter_current_more [of it2] by auto
  have "advances (iter_next it) (iter_next it2)" using adv by (rule advances_trans) simp
  moreover have "consumed (iter_next it) (iter_next it2) = consumed (iter_next it) it2 @ [DQUOTE]"
    using consumed_trans [OF adv advances_next] more cont by simp
  ultimately have "consumed it it' = [DQUOTE] @ consumed (iter_next it) it2 @ [DQUOTE]"
    using more assms(2) by (simp add: it' consumed_next_trans)
  with tok cont show ?thesis by (simp add: token_matches_def)
qed

lemma flag_matches:
  assumes "iter_current it = CHR ''-''"
  shows "iter_current (iter_next it) = CHR ''-'' \<Longrightarrow> is_ident_start (iter_current (iter_next (iter_next it))) \<Longrightarrow>
      lex_long_flag n (iter_next (iter_next it)) = (tok, it') \<Longrightarrow> token_matches fp (consumed it it') tok"
    and "is_ident_start (iter_current (iter_next it)) \<Longrightarrow> lex_short_flag n (iter_next it) = (tok, it') \<Longrightarrow>
      token_matches fp (consumed it it') tok"
proof -
  let ?L = "\<lambda>c. is_ident_cont c \<or> c = CHR ''-''" and ?S = "\<lambda>c. is_ident_cont c \<or> is_ascii_dec_digit c"
  have minus: "is_ident_start CHR ''-''" by (simp add: is_ident_start_def iscntrl_iso)
  have more: "iter_has_more it" using assms by (intro iter_current_more) simp
  show "token_matches fp (consumed it it') tok"
    if "iter_current (iter_next it) = CHR ''-''" "is_ident_start (iter_current (iter_next (iter_next it)))"
      "lex_long_flag n (iter_next (iter_next it)) = (tok, it')"
  proof -
    have m2: "iter_has_more (iter_next it)" using that(1) by (intro iter_current_more) simp
    have "consumed it it' = ''--'' @ consumed (iter_next (iter_next it)) it'"
      using that more m2 assms by (auto simp: lex_long_flag_def Let_def consumed_next_trans)
    moreover have "list_all is_ident_start (consumed (iter_next (iter_next it)) it')"
      using that(3) minus consumed_skip_while [of _ "iter_next (iter_next it)" ?L]
      by (auto simp: lex_long_flag_def Let_def list_all_iff is_ident_cont_def)
    moreover have "consumed (iter_next (iter_next it)) it' \<noteq> []"
      using that skip_while_one [of "iter_next (iter_next it)" ?L] ident_start_more
      by (auto simp: lex_long_flag_def Let_def is_ident_cont_def)
    ultimately show ?thesis
      using that(3) by (auto simp: lex_long_flag_def Let_def make_long_flag_def token_matches_def consumed_def)
  qed
  show "token_matches fp (consumed it it') tok"
    if "is_ident_start (iter_current (iter_next it))" "lex_short_flag n (iter_next it) = (tok, it')"
  proof -
    have "consumed it it' = ''-'' @ consumed (iter_next it) it'"
      using that more assms by (auto simp: lex_short_flag_def Let_def consumed_next_trans)
    moreover have "list_all is_ident_start (consumed (iter_next it) it')"
      using that(2) dec_digit_ident_start consumed_skip_while [of _ "iter_next it" ?S]
      by (auto simp: lex_short_flag_def Let_def list_all_iff is_ident_cont_def)
    moreover have "consumed (iter_next it) it' \<noteq> []"
      using that skip_while_one [of "iter_next it" ?S] ident_start_more
      by (auto simp: lex_short_flag_def Let_def is_ident_cont_def)
    ultimately show ?thesis
      using that(2) by (auto simp: lex_short_flag_def Let_def make_short_flag_def token_matches_def consumed_def)
  qed
qed

lemma identifier_matches:
  assumes "is_ident_start (iter_current it)" and "lex_identifier_or_keyword (it_pos it) it = (tok, it')"
  shows "token_matches fp (consumed it it') tok"
proof -
  have more: "iter_has_more it" using assms(1) by (rule ident_start_more)
  have it': "it' = skip_while is_ident_cont (iter_next it)"
    using assms(2) by (simp add: lex_identifier_or_keyword_def Let_def)
  have "consumed it it' = iter_current it # consumed (iter_next it) it'"
    using more by (simp add: it' consumed_next_trans)
  moreover have "list_all is_ident_start (consumed (iter_next it) it')"
    using consumed_skip_while [of _ "iter_next it" is_ident_cont]
    by (auto simp: it' list_all_iff is_ident_cont_def)
  moreover have "tok = (if consumed it it' = ''true'' then simple_token TokTrue (it_pos it, it_pos it')
      else if consumed it it' = ''false'' then simple_token TokFalse (it_pos it, it_pos it')
      else make_id (consumed it it') (it_pos it, it_pos it'))"
    using assms(2) by (auto simp: lex_identifier_or_keyword_def Let_def consumed_def)
  ultimately show ?thesis
    using assms(1) by (simp add: token_matches_def simple_token_def make_id_def)
qed

lemma simple_token_matches [simp]:
  "token_matches fp text (simple_token TokEof sp) \<longleftrightarrow> text = []"
  "token_matches fp text (simple_token TokTimes sp) \<longleftrightarrow> text = ''*''"
  "token_matches fp text (simple_token TokMinus sp) \<longleftrightarrow> text = ''-''"
  "token_matches fp text (simple_token TokDoubleMinus sp) \<longleftrightarrow> text = ''--''"
  by (simp_all add: token_matches_def simple_token_def)

lemma next_token_matches:
  assumes "next_token fp it = Inr (tok, it')"
  shows "token_matches fp (consumed it it') tok"
proof -
  let ?c = "iter_current it"
  have digit_start: "is_ident_start (iter_current (iter_next it)) \<or> is_ascii_dec_digit (iter_current (iter_next it))
    \<Longrightarrow> is_ident_start (iter_current (iter_next it))"
    using dec_digit_ident_start by blast
  have more: "?c \<noteq> NUL \<Longrightarrow> iter_has_more it" by (rule iter_current_more)
  have more2: "iter_current (iter_next it) \<noteq> NUL \<Longrightarrow> iter_has_more (iter_next it)" by (rule iter_current_more)
  consider "?c = NUL" | "?c = CHR ''*''" | "?c = CHR ''-''" | "?c = DQUOTE"
    | (num) "lex_number fp (it_pos it) it = Inr (tok, it')"
    | (id) "is_ident_start ?c" "lex_identifier_or_keyword (it_pos it) it = (tok, it')"
    using assms by (auto simp: next_token_def Let_def split: if_splits)
  then show ?thesis
  proof cases
    case 3
    then show ?thesis
      using assms more more2 flag_matches [OF 3] digit_start
      by (auto simp: next_token_def Let_def consumed_next_trans
          split: if_splits)
  next
    case 4
    then show ?thesis using assms by (auto simp: next_token_def intro: lex_string_matches)
  next
    case num
    then show ?thesis by (rule lex_number_matches)
  next
    case id
    then show ?thesis by (rule identifier_matches)
  qed (use assms more in \<open>auto simp: next_token_def Let_def\<close>)
qed


text \<open>
  A list of tokens covers an input: each token stands for its text after some blanks, and only the
  last one is the end marker, at the end of the input or before a null character.
\<close>

inductive covers :: "'d fp_ops \<Rightarrow> nat \<Rightarrow> string \<Rightarrow> 'd token list \<Rightarrow> bool" for fp where
  covers_end: "blank gap \<Longrightarrow> rest = [] \<or> hd rest = NUL \<Longrightarrow> tok_kind t = TokEof \<Longrightarrow>
     tok_span t = (n + length gap, n + length gap) \<Longrightarrow> covers fp n (gap @ rest) [t]"
| covers_step: "blank gap \<Longrightarrow> text \<noteq> [] \<Longrightarrow> tok_kind t \<noteq> TokEof \<Longrightarrow> token_matches fp text t \<Longrightarrow>
     tok_span t = (n + length gap, n + length gap + length text) \<Longrightarrow>
     covers fp (n + length gap + length text) rest ts \<Longrightarrow> covers fp n (gap @ text @ rest) (t # ts)"

lemma consumed_rest:
  assumes "advances it it'"
  shows "drop (it_pos it) (it_input it) = consumed it it' @ drop (it_pos it') (it_input it')"
proof -
  obtain k where "it_pos it' = it_pos it + k"
    using assms by (auto simp: advances_def le_iff_add)
  moreover have "it_input it' = it_input it" using assms by (simp add: advances_def)
  ultimately show ?thesis
    by (simp add: consumed_def span_text_def) (metis add.commute append_take_drop_id drop_drop)
qed

lemma consumed_length:
  "advances it it' \<Longrightarrow> it_pos it \<le> length (it_input it) \<Longrightarrow> it_pos it' = it_pos it + length (consumed it it')"
  by (auto simp: advances_def consumed_def span_text_def)

lemma lex_all_covers:
  "lex_all fp it = Inr ts \<Longrightarrow> it_pos it \<le> length (it_input it) \<Longrightarrow>
     covers fp (it_pos it) (drop (it_pos it) (it_input it)) ts"
proof (induction fp it arbitrary: ts rule: lex_all.induct)
  case (1 fp it)
  let ?e = "eat_whitespace_and_comments it"
  from "1.prems"(1) obtain t it' where n: "next_token fp ?e = Inr (t, it')"
    and t: "if tok_kind t = TokEof then ts = [t] else \<exists>ts'. lex_all fp it' = Inr ts' \<and> ts = t # ts'"
    by (subst (asm) lex_all.simps) (auto split: if_splits)
  note r = next_token_result [OF n]
  have e: "advances it ?e" "blank (consumed it ?e)" by (simp_all add: consumed_eat)
  have pe: "it_pos ?e = it_pos it + length (consumed it ?e)" "it_pos ?e \<le> length (it_input ?e)"
    using e(1) "1.prems"(2) by (rule consumed_length, auto simp: advances_def)
  show ?case
  proof (cases "tok_kind t = TokEof")
    case True
    with r have "iter_current ?e = NUL" by simp
    then have "drop (it_pos ?e) (it_input ?e) = [] \<or> hd (drop (it_pos ?e) (it_input ?e)) = NUL"
      by (auto simp: iter_current_def hd_drop_conv_nth split: if_splits)
    moreover have "ts = [t]" using True t by simp
    ultimately show ?thesis
      unfolding consumed_rest [OF e(1)] using True r e(2) pe(1) by (auto intro!: covers_end)
  next
    case False
    with t obtain ts' where ts': "lex_all fp it' = Inr ts'" "ts = t # ts'" by auto
    have a: "advances ?e it'" "it_pos it' \<le> length (it_input it')"
      using r pe by (auto simp: advances_def)
    have p': "it_pos it' = it_pos ?e + length (consumed ?e it')" using a(1) pe(2) by (rule consumed_length)
    have "covers fp (it_pos it') (drop (it_pos it') (it_input it')) ts'"
      using "1.IH" [OF n refl] False ts'(1) a(2) by simp
    with False r e pe p' next_token_matches [OF n] show ?thesis
      unfolding ts'(2) consumed_rest [OF e(1)] consumed_rest [OF a(1)]
      by (intro covers_step) auto
  qed
qed

end
