(* ===== verification/Lexer_Print.thy ===== *)
theory Lexer_Print
  imports Lexer
begin

text \<open>
  The lexer against the printer of \<open>native/c/lexer.hpp\<close>: integer and string literals that were
  printed are lexed back, and a tokenization accounts for the whole input.
\<close>

section \<open>Lexing what was printed\<close>

text \<open>The input that is left at an iterator.\<close>

definition at_input :: "input_iter \<Rightarrow> string \<Rightarrow> bool" where
  "at_input it s \<longleftrightarrow> drop (it_pos it) (it_input it) = s"

lemma at_input_current [simp]: "at_input it s \<Longrightarrow> iter_current it = (case s of [] \<Rightarrow> NUL | c # _ \<Rightarrow> c)"
  by (auto simp: at_input_def iter_current_def nth_via_drop split: list.splits)

lemma at_input_more [simp]: "at_input it s \<Longrightarrow> iter_has_more it \<longleftrightarrow> s \<noteq> []"
  by (auto simp: at_input_def iter_has_more_def)

lemma at_input_next: "at_input it (c # s) \<Longrightarrow> at_input (iter_next it) s"
  unfolding at_input_def iter_next_input iter_next_pos iter_has_more_def
  by (cases "it_pos it < length (it_input it)") (auto simp: drop_Suc tl_drop [symmetric])

lemma at_input_next_pos: "at_input it (c # s) \<Longrightarrow> it_pos (iter_next it) = Suc (it_pos it)"
  using at_input_more [of it "c # s"] by (simp add: iter_next_pos)

lemma at_input_peek [simp]: "at_input it (c # s) \<Longrightarrow> iter_peek it = (case s of [] \<Rightarrow> NUL | d # _ \<Rightarrow> d)"
  using iter_peek_next [of it] at_input_next [of it c s] by simp

lemma at_input_start: "at_input (get_iterator (src_from_string code f)) code"
  by (simp add: at_input_def get_iterator_def src_from_string_def)

lemma take_take_append: "take m (take m xs @ ys) = take m (xs @ ys)"
  by (cases "length xs \<le> m") simp_all

lemma take_digits_forward:
  assumes "at_input it (ds @ s)" and "\<forall>c \<in> set ds. is_digit_or_underscore c base \<and> c \<noteq> CHR ''_''"
    and "s = [] \<or> \<not> is_digit_or_underscore (hd s) base" and "length buf \<le> buffer_max_idx"
  shows "\<exists>it'. take_digits base it buf = (it', take buffer_max_idx (buf @ ds)) \<and> at_input it' s \<and>
    it_pos it' = it_pos it + length ds"
  using assms
proof (induction ds arbitrary: it buf)
  case Nil
  then show ?case by (subst take_digits.simps) (auto split: list.splits)
next
  case (Cons d ds)
  then have "take_digits base it buf = take_digits base (iter_next it) (take buffer_max_idx (buf @ [d]))"
    by (subst take_digits.simps) (auto simp: buf_add_def)
  moreover have "at_input (iter_next it) (ds @ s)" using Cons.prems(1) at_input_next by simp
  moreover have "it_pos (iter_next it) = Suc (it_pos it)"
    using Cons.prems(1) at_input_next_pos by simp
  ultimately show ?case
    using Cons.IH [of "iter_next it" "take buffer_max_idx (buf @ [d])"] Cons.prems
      take_take_append [of buffer_max_idx "buf @ [d]" ds] by auto
qed

lemma digits_value_snoc: "digits_value b (s @ [c]) = digits_value b s * b + the (digit_value c)"
  by (simp add: digits_value_def)

lemma digit_char_value: "d < 10 \<Longrightarrow> digit_value (digit_char d) = Some d"
  "d < 10 \<Longrightarrow> is_ascii_dec_digit (digit_char d)"
  by (auto simp: digit_value_def is_ascii_dec_digit_def digit_char_def char_between_iso)

lemma hex_digit_value: "d < 16 \<Longrightarrow> digit_value (hex_digit d) = Some d"
  "d < 16 \<Longrightarrow> is_ascii_hex_digit (hex_digit d)"
  by (auto simp: digit_value_def is_ascii_dec_digit_def is_ascii_hex_digit_def hex_digit_def char_between_iso)

lemma show_nat_digits:
  "digits_value 10 (show_nat n) = n \<and> (\<forall>c \<in> set (show_nat n). is_ascii_dec_digit c)"
proof (induction n rule: show_nat.induct)
  case (1 n)
  then show ?case
    by (subst (1 2) show_nat.simps)
      (auto simp: digits_value_snoc digit_char_value digits_value_def split: if_splits)
qed

lemma show_hex_digits:
  "digits_value 16 (show_hex n) = n \<and> (\<forall>c \<in> set (show_hex n). is_ascii_hex_digit c)"
proof (induction n rule: show_hex.induct)
  case (1 n)
  then show ?case
    by (subst (1 2) show_hex.simps)
      (auto simp: digits_value_snoc hex_digit_value digits_value_def split: if_splits)
qed

lemma show_nat_length: "n < 10 ^ Suc k \<Longrightarrow> show_nat n \<noteq> [] \<and> length (show_nat n) \<le> Suc k"
proof (induction k arbitrary: n)
  case (Suc k)
  then show ?case
    using Suc.IH [of "n div 10"] by (subst (1 2) show_nat.simps) (auto simp: less_mult_imp_div_less mult.commute)
qed (simp add: show_nat.simps)

lemma show_hex_length: "n < 16 ^ Suc k \<Longrightarrow> show_hex n \<noteq> [] \<and> length (show_hex n) \<le> Suc k"
proof (induction k arbitrary: n)
  case (Suc k)
  then show ?case
    using Suc.IH [of "n div 16"] by (subst (1 2) show_hex.simps) (auto simp: less_mult_imp_div_less mult.commute)
qed (simp add: show_hex.simps)

lemma mod_pow_Suc: "n mod 2 ^ Suc i = (if odd (n div 2 ^ i) then 2 ^ i else 0) + n mod (2 ^ i :: nat)"
  using mod_mult2_eq [of n "2 ^ i" 2] by (simp add: mult.commute odd_iff_mod_2_eq_one)

lemma bin_digit_value: "digit_value CHR ''1'' = Some 1" "digit_value CHR ''0'' = Some 0"
  by (simp_all add: digit_value_def is_ascii_dec_digit_def char_between_iso)

lemma show_bin_value_acc:
  "(l \<longrightarrow> acc = 0) \<Longrightarrow> foldl (\<lambda>acc c. acc * 2 + the (digit_value c)) acc (show_bin_loop n l i) =
     acc * 2 ^ i + n mod 2 ^ i"
  by (induction i arbitrary: l acc)
    (auto simp: mod_pow_Suc bin_digit_value algebra_simps simp del: power_Suc, simp_all)

lemma show_bin_digits:
  "digits_value 2 (show_bin_loop n True i) = n mod 2 ^ i \<and>
   (\<forall>c \<in> set (show_bin_loop n l i). is_ascii_bin_digit c) \<and> length (show_bin_loop n l i) \<le> i"
proof -
  have "\<forall>c \<in> set (show_bin_loop n l i). is_ascii_bin_digit c"
    by (induction i arbitrary: l) (auto simp: is_ascii_bin_digit_def)
  moreover have "length (show_bin_loop n l i) \<le> i"
    by (induction i arbitrary: l) (auto simp: le_SucI)
  ultimately show ?thesis
    using show_bin_value_acc [of True 0 n i] by (simp add: digits_value_def)
qed

lemma takeWhile_all: "\<forall>c \<in> set s. P c \<Longrightarrow> takeWhile P s = s"
  by simp

lemma strtoll_digits:
  assumes "\<forall>c \<in> set s. digit_of_base b c" and "int (digits_value b s) \<le> LLONG_MAX"
  shows "strtoll s b = (False, int (digits_value b s), length s)"
  using assms by (simp add: strtoll_def Let_def takeWhile_all)

lemma radix_digit_of_base:
  "is_ascii_dec_digit c \<Longrightarrow> digit_of_base 10 c" "is_ascii_hex_digit c \<Longrightarrow> digit_of_base 16 c"
  "is_ascii_bin_digit c \<Longrightarrow> digit_of_base 2 c"
  by (auto simp: digit_of_base_def digit_value_def is_ascii_hex_digit_def is_ascii_dec_digit_def
      is_ascii_bin_digit_def char_between_iso)

lemma underscore_not_digit:
  "\<not> is_ascii_dec_digit CHR ''_''" "\<not> is_ascii_hex_digit CHR ''_''" "\<not> is_ascii_bin_digit CHR ''_''"
  by (auto simp: is_ascii_hex_digit_def is_ascii_dec_digit_def is_ascii_bin_digit_def char_between_iso)

text \<open>Lexing the digits that end the input, after the prefix of the base has been consumed.\<close>

lemma lex_number_forward:
  assumes pre: "lex_number_prefix it = Inr (it1, Some (buf, base))" and at: "at_input it1 ds"
    and ds: "\<forall>c \<in> set ds. is_digit_or_underscore c base \<and> c \<noteq> CHR ''_'' \<and> digit_of_base (radix_value base) c"
    and len: "length buf + length ds \<le> buffer_max_idx" "ds \<noteq> []"
    and buf: "if base = Dec then digit_of_base 10 CHR ''0'' \<and> set buf \<subseteq> {CHR ''0''} else length buf = 2"
    and val: "int (digits_value (radix_value base) (if base = Dec then buf @ ds else ds)) = v" "v \<le> LLONG_MAX"
  shows "\<exists>it'. lex_number fp start_pos it = Inr (make_int_lit v base (start_pos, it_pos it'), it') \<and>
    at_input it' [] \<and> it_pos it' = it_pos it1 + length ds"
proof -
  obtain it' where it': "take_digits base it1 buf = (it', buf @ ds)" "at_input it' []"
      "it_pos it' = it_pos it1 + length ds"
    using take_digits_forward [of it1 ds "[]" base buf] at ds len by auto
  have "lex_fraction it' (buf @ ds) = (it', buf @ ds, False)" "lex_exponent it' (buf @ ds) = (it', buf @ ds, False)"
    using it'(2) by (simp_all add: lex_fraction_def lex_exponent_def)
  moreover have "lex_number_finish fp loc start_pos it' (buf @ ds) base False False =
      Inr (make_int_lit v base (start_pos, it_pos it'), it')" for loc
  proof (cases "base = Dec")
    case True
    then have "strtoll (buf @ ds) 10 = (False, v, length (buf @ ds))"
      using strtoll_digits [of "buf @ ds" 10] ds buf val by auto
    with True len show ?thesis by (simp add: lex_number_finish_def)
  next
    case False
    then have "strtoll ds (radix_value base) = (False, v, length ds)"
      using strtoll_digits [of ds "radix_value base"] ds val by auto
    with False buf len show ?thesis by (cases base) (auto simp: lex_number_finish_def)
  qed
  ultimately show ?thesis
    using pre it' by (auto simp: lex_number_def Let_def)
qed


lemma lex_all_single:
  assumes "at_input it (c # s)" and "c \<notin> {SPACE, TAB, NL, CR, CHR ''#''}"
    and "next_token fp it = Inr (tok, it')" and "tok_kind tok \<noteq> TokEof" and "at_input it' []"
  shows "lex_all fp it = Inr [tok, simple_token TokEof (it_pos it', it_pos it')]"
proof -
  have "eat_whitespace_and_comments it = it"
    using assms(1,2) by (subst eat_whitespace_and_comments.simps) simp
  moreover have "eat_whitespace_and_comments it' = it'"
    using assms(5) by (subst eat_whitespace_and_comments.simps) simp
  moreover have "next_token fp it' = Inr (simple_token TokEof (it_pos it', it_pos it'), it')"
    using assms(5) by (simp add: next_token_def Let_def)
  moreover from this have "lex_all fp it' = Inr [simple_token TokEof (it_pos it', it_pos it')]"
    using calculation by (subst lex_all.simps) (simp add: simple_token_def)
  ultimately show ?thesis
    using assms(3,4) by (subst lex_all.simps) simp
qed

lemma next_token_number:
  assumes "at_input it (c # s)" and "is_ascii_dec_digit c"
  shows "next_token fp it = lex_number fp (it_pos it) it"
proof -
  have "c \<noteq> NUL" "c \<noteq> CHR ''*''" "c \<noteq> CHR ''-''" "c \<noteq> DQUOTE"
    using assms(2) by (auto simp: is_ascii_dec_digit_def char_between_iso)
  with assms show ?thesis by (simp add: next_token_def)
qed

lemma lex_number_dec:
  assumes "at_input it (show_nat n)" and "int n \<le> LLONG_MAX"
  shows "\<exists>it'. lex_number fp start_pos it = Inr (make_int_lit (int n) Dec (start_pos, it_pos it'), it') \<and>
    at_input it' [] \<and> it_pos it' = it_pos it + length (show_nat n)"
proof -
  have "n < 10 ^ Suc 19" using assms(2) by (simp add: LLONG_MAX_def)
  then have l: "show_nat n \<noteq> []" "length (show_nat n) \<le> 20" using show_nat_length [of n 19] by simp_all
  then obtain c cs where sn: "show_nat n = c # cs" by (cases "show_nat n") auto
  have dv: "digits_value 10 (c # cs) = n" and digs: "\<forall>d \<in> set (c # cs). is_ascii_dec_digit d"
    using show_nat_digits [of n] by (simp_all add: sn)
  have ds: "\<forall>d \<in> set (c # cs). is_digit_or_underscore d Dec \<and> d \<noteq> CHR ''_'' \<and> digit_of_base (radix_value Dec) d"
    using digs radix_digit_of_base underscore_not_digit by (auto simp: is_digit_or_underscore_def)
  have at0: "at_input it (c # cs)" using assms(1) by (simp add: sn)
  have zero: "digit_of_base 10 CHR ''0''" by (simp add: digit_of_base_def bin_digit_value)
  show ?thesis
  proof (cases "c = CHR ''0''")
    case False
    then have "lex_number_prefix it = Inr (it, Some ('''', Dec))"
      using at0 by (simp add: lex_number_prefix_def)
    from lex_number_forward [OF this at0 ds, of "int n"] show ?thesis
      using l assms(2) dv zero by (simp add: sn buffer_max_idx_def)
  next
    case True
    have at1: "at_input (iter_next it) cs" using at0 at_input_next by blast
    have pos: "it_pos (iter_next it) = Suc (it_pos it)" using at0 at_input_next_pos by blast
    show ?thesis
    proof (cases cs)
      case Nil
      have "n = 0" using dv True by (simp add: Nil digits_value_def bin_digit_value)
      moreover have "lex_number_prefix it = Inr (iter_next it, None)"
        using at0 at1 True Nil
        by (simp add: lex_number_prefix_def Let_def is_ascii_dec_digit_def char_between_iso)
      ultimately show ?thesis
        using at1 pos Nil by (auto simp: lex_number_def show_nat.simps [of 0])
    next
      case (Cons d ds')
      have d: "is_ascii_dec_digit d" using digs Cons by simp
      then have "d \<noteq> CHR ''x''" "d \<noteq> CHR ''X''" "d \<noteq> CHR ''b''" "d \<noteq> CHR ''B''"
        by (auto simp: is_ascii_dec_digit_def char_between_iso)
      then have "lex_number_prefix it = Inr (iter_next it, Some (''0'', Dec))"
        using at0 at1 True Cons d by (simp add: lex_number_prefix_def Let_def buf_add_def buffer_max_idx_def)
      from lex_number_forward [OF this at1, of "int n"] show ?thesis
        using l assms(2) dv zero ds True Cons pos by (simp add: sn buffer_max_idx_def)
    qed
  qed
qed


lemma lex_number_prefixed:
  assumes "at_input it (CHR ''0'' # p # ds)"
    and "base = Hex \<and> p = CHR ''x'' \<and> (\<forall>c \<in> set ds. is_ascii_hex_digit c) \<or>
         base = Bin \<and> p = CHR ''b'' \<and> (\<forall>c \<in> set ds. is_ascii_bin_digit c)"
    and "ds \<noteq> []" and "length ds \<le> 64"
    and "int (digits_value (radix_value base) ds) = v" and "v \<le> LLONG_MAX"
  shows "\<exists>it'. lex_number fp start_pos it = Inr (make_int_lit v base (start_pos, it_pos it'), it') \<and>
    at_input it' [] \<and> it_pos it' = it_pos it + 2 + length ds"
proof -
  have at1: "at_input (iter_next it) (p # ds)" using assms(1) by (rule at_input_next)
  then have at2: "at_input (iter_next (iter_next it)) ds" by (rule at_input_next)
  have pos: "it_pos (iter_next (iter_next it)) = it_pos it + 2"
    using at_input_next_pos [OF at1] at_input_next_pos [OF assms(1)] by simp
  obtain d ds' where d: "ds = d # ds'" using assms(3) by (cases ds) auto
  have cur: "iter_current it = CHR ''0''" "iter_current (iter_next it) = p"
    "iter_current (iter_next (iter_next it)) = d"
    using assms(1) at1 at2 d by simp_all
  have pre: "lex_number_prefix it = Inr (iter_next (iter_next it), Some ([CHR ''0'', p], base))"
    using assms(2) cur d by (auto simp: lex_number_prefix_def Let_def buf_add_def buffer_max_idx_def)
  have "\<forall>c \<in> set ds. is_digit_or_underscore c base \<and> c \<noteq> CHR ''_'' \<and> digit_of_base (radix_value base) c"
    using assms(2) radix_digit_of_base underscore_not_digit
    by (elim disjE conjE) (simp_all add: is_digit_or_underscore_def, metis+)
  from lex_number_forward [OF pre at2 this, of v fp start_pos] show ?thesis
    using pos assms(2-) by (elim disjE conjE) (simp_all add: buffer_max_idx_def)
qed

lemma unsigned_ll_nonneg: "0 \<le> v \<Longrightarrow> v \<le> LLONG_MAX \<Longrightarrow> unsigned_ll v = nat v"
  by (simp add: unsigned_ll_def LLONG_MAX_def)

lemma lex_number_printed:
  assumes "0 \<le> v" and "v \<le> LLONG_MAX" and at: "at_input it (print_integer_literal v base)"
  shows "\<exists>it'. lex_number fp start_pos it = Inr (make_int_lit v base (start_pos, it_pos it'), it') \<and>
    at_input it' [] \<and> it_pos it' = it_pos it + length (print_integer_literal v base)"
proof (cases base)
  case Dec
  then show ?thesis
    using lex_number_dec [of it "nat v" fp start_pos] assms by (simp add: print_integer_literal_def show_int_def)
next
  case Hex
  let ?ds = "show_hex (nat v)"
  have "nat v < 16 ^ Suc 16" using assms(2) by (simp add: LLONG_MAX_def)
  then have "?ds \<noteq> []" "length ?ds \<le> 17" using show_hex_length [of "nat v" 16] by simp_all
  with Hex show ?thesis
    using lex_number_prefixed [of it "CHR ''x''" ?ds Hex v fp start_pos] show_hex_digits [of "nat v"] assms
    by (simp add: print_integer_literal_def unsigned_ll_nonneg)
next
  case Bin
  define ds where "ds = (if v = 0 then ''0'' else show_bin_loop (nat v) True 64)"
  note sb = show_bin_digits [of "nat v" 64 True]
  have "nat v mod 2 ^ 64 = nat v" using assms(1,2) by (simp add: LLONG_MAX_def)
  with sb have v: "digits_value 2 (show_bin_loop (nat v) True 64) = nat v" by simp
  have val: "int (digits_value 2 ds) = v"
    using v assms(1) by (simp add: ds_def digits_value_def bin_digit_value)
  moreover have "\<forall>c \<in> set ds. is_ascii_bin_digit c" "length ds \<le> 64"
    using sb by (simp_all add: ds_def is_ascii_bin_digit_def)
  moreover have "ds \<noteq> []"
    using val by (cases "v = 0") (auto simp: ds_def digits_value_def)
  moreover have "print_integer_literal v Bin = CHR ''0'' # CHR ''b'' # ds"
    using assms by (simp add: print_integer_literal_def unsigned_ll_nonneg ds_def)
  ultimately show ?thesis
    using lex_number_prefixed [of it "CHR ''b''" ds Bin v fp start_pos] assms Bin by simp
qed

lemma print_integer_literal_head:
  assumes "0 \<le> v"
  obtains c s where "print_integer_literal v base = c # s" "is_ascii_dec_digit c"
proof (cases base)
  case Dec
  have "show_nat (nat v) \<noteq> []" by (subst show_nat.simps) simp
  with that Dec assms show_nat_digits [of "nat v"] show thesis
    by (cases "show_nat (nat v)") (auto simp: print_integer_literal_def show_int_def)
qed (use that in \<open>auto simp: print_integer_literal_def is_ascii_dec_digit_def char_between_iso\<close>)

text \<open>
  Printing a non-negative 64-bit integer literal in decimal, hexadecimal or binary and lexing
  the result gives back one token with the same value and base that covers the whole text.
\<close>

theorem int_literal_roundtrip:
  assumes "0 \<le> v" and "v \<le> LLONG_MAX" and "n = length (print_integer_literal v base)"
  shows "tokenize fp (src_from_string (print_integer_literal v base) f) =
    Inr [make_int_lit v base (0, n), simple_token TokEof (n, n)]"
proof -
  let ?it = "get_iterator (src_from_string (print_integer_literal v base) f)"
  obtain c s where cs: "print_integer_literal v base = c # s" "is_ascii_dec_digit c"
    using print_integer_literal_head [OF assms(1)] .
  have at: "at_input ?it (print_integer_literal v base)" by (rule at_input_start)
  obtain it' where "lex_number fp 0 ?it = Inr (make_int_lit v base (0, it_pos it'), it')" "at_input it' []" "it_pos it' = n"
    using lex_number_printed [OF assms(1,2) at, of fp 0] assms(3) by (auto simp: get_iterator_def)
  moreover have "next_token fp ?it = lex_number fp 0 ?it"
    using next_token_number [of ?it c s fp] at cs by (simp add: get_iterator_def)
  moreover have "c \<notin> {SPACE, TAB, NL, CR, CHR ''#''}"
    using cs(2) by (auto simp: is_ascii_dec_digit_def char_between_iso)
  ultimately show ?thesis
    using lex_all_single [of ?it c s fp] at cs by (simp add: tokenize_def make_int_lit_def)
qed

text \<open>A library whose only floating-point value is \<^const>\<open>Unity\<close>, for evaluation on concrete input.\<close>

definition fp0 :: "unit fp_ops" where
  "fp0 = \<lparr>fp_strtod = (\<lambda>s. (False, (), length s)), fp_show = (\<lambda>_ _. ''1.5'')\<rparr>"

theorem int_literal_roundtrip_witness:
  "tokenize fp0 (src_from_string (print_integer_literal 255 Hex) []) =
     Inr [make_int_lit 255 Hex (0, 4), simple_token TokEof (4, 4)]"
  using int_literal_roundtrip [of 255 4 Hex fp0 "[]"]
  by (simp add: LLONG_MAX_def print_integer_literal_def unsigned_ll_def show_hex.simps [of 255] show_hex.simps [of 15])





lemma print_content_raw:
  "raw_content raw \<Longrightarrow> \<forall>c \<in> set raw. isprint c \<or> c = CR \<or> c = TAB \<Longrightarrow>
     raw_content (print_string_content raw) \<and> unescape (print_string_content raw) = unescape raw"
proof (induction raw rule: print_string_content.induct)
  case (2 c cs)
  show ?case
  proof (cases "c = BACKSLASH")
    case True
    then obtain e cs' where "cs = e # cs'" "valid_escape e" using "2.prems" by (cases cs) auto
    with True 2 show ?thesis by simp
  next
    case False
    then have "unescape (c # cs) = c # unescape cs" by (cases cs) auto
    moreover have "unescape (c # s) = c # unescape s" for s using False by (cases s) auto
    ultimately show ?thesis
      using False 2 by (auto simp: isprint_def valid_escape_def unescape_char_def)
  qed
qed simp

lemma lex_string_loop_forward:
  assumes "at_input it (raw @ DQUOTE # s)" and "raw_content raw"
  shows "\<exists>it'. lex_string_loop loc it = Inr it' \<and> at_input it' (DQUOTE # s) \<and> it_pos it' = it_pos it + length raw"
  using assms
proof (induction raw arbitrary: it rule: raw_content.induct)
  case 1
  then show ?case by (subst lex_string_loop.simps) simp
next
  case (2 c cs)
  have at1: "at_input (iter_next it) (cs @ DQUOTE # s)" and p1: "it_pos (iter_next it) = Suc (it_pos it)"
    using "2.prems"(1) at_input_next [of it c] at_input_next_pos [of it c] by simp_all
  show ?case
  proof (cases "c = BACKSLASH")
    case True
    then obtain e cs' where cs: "cs = e # cs'" "valid_escape e" "raw_content cs'"
      using "2.prems"(2) by (cases cs) auto
    have at2: "at_input (iter_next (iter_next it)) (cs' @ DQUOTE # s)"
      and p2: "it_pos (iter_next (iter_next it)) = Suc (Suc (it_pos it))"
      using at1 p1 cs(1) at_input_next [of "iter_next it" e] at_input_next_pos [of "iter_next it" e] by simp_all
    have cur: "iter_current it = BACKSLASH" "iter_current (iter_next it) = e"
      using "2.prems"(1) at1 True cs(1) by simp_all
    with cs(2) have eq: "lex_string_loop loc it = lex_string_loop loc (iter_next (iter_next it))"
      by (subst lex_string_loop.simps) (auto simp: valid_escape_def)
    show ?thesis unfolding eq using "2.IH"(1) [OF True, of "iter_next (iter_next it)"] at2 p2 cs by simp
  next
    case False
    have "iter_current it = c" using "2.prems"(1) by simp
    with False "2.prems"(2) have eq: "lex_string_loop loc it = lex_string_loop loc (iter_next it)"
      by (subst lex_string_loop.simps) simp
    show ?thesis unfolding eq using "2.IH"(2) [OF False, of "iter_next it"] at1 p1 False "2.prems"(2) by simp
  qed
qed

lemma lex_string_forward:
  assumes at: "at_input it (DQUOTE # raw @ [DQUOTE])" and "raw_content raw"
  shows "\<exists>it'. lex_string (it_pos it) it = Inr (make_str_lit raw (it_pos it, it_pos it'), it') \<and> at_input it' [] \<and>
    it_pos it' = it_pos it + length raw + 2"
proof -
  have at1: "at_input (iter_next it) (raw @ [DQUOTE])" and p1: "it_pos (iter_next it) = Suc (it_pos it)"
    using at_input_next [OF at] at_input_next_pos [OF at] by simp_all
  obtain it2 where l: "lex_string_loop (iter_location it) (iter_next it) = Inr it2"
    and at2: "at_input it2 [DQUOTE]" and p2: "it_pos it2 = Suc (it_pos it) + length raw"
    using lex_string_loop_forward [of "iter_next it" raw "[]" "iter_location it"] at1 p1 assms(2) by auto
  have "text_slice it (it_pos (iter_next it)) (it_pos it2) = raw"
    using at1 p1 p2 by (simp add: span_text_def at_input_def)
  with l at_input_next [OF at2] at_input_next_pos [OF at2] p2 show ?thesis
    by (auto simp: lex_string_def Let_def simp del: text_slice_span)
qed




text \<open>
  The lexer drops the characters of a number beyond the 127 its buffer holds: 127 zeros followed
  by any further digits are accepted as one literal with the value zero.
\<close>

theorem number_buffer_truncates:
  assumes "\<forall>c \<in> set ds. is_ascii_dec_digit c" and "n = 127 + length ds"
  shows "tokenize fp (src_from_string (replicate 127 CHR ''0'' @ ds) f) =
    Inr [make_int_lit 0 Dec (0, n), simple_token TokEof (n, n)]"
proof -
  define it where "it = get_iterator (src_from_string (replicate 127 CHR ''0'' @ ds) f)"
  have at: "at_input it (CHR ''0'' # replicate 126 CHR ''0'' @ ds)" "it_pos it = 0"
    using at_input_start [of "replicate 127 CHR ''0'' @ ds" f]
    by (simp_all add: it_def eval_nat_numeral get_iterator_def)
  note at1 = at_input_next [OF at(1)]
  have z: "is_ascii_dec_digit CHR ''0''" by (simp add: is_ascii_dec_digit_def char_between_iso)
  have cur: "iter_current it = CHR ''0''" "iter_current (iter_next it) = CHR ''0''"
    using at(1) at1 by (simp_all add: eval_nat_numeral)
  then have pre: "lex_number_prefix it = Inr (iter_next it, Some (''0'', Dec))"
    using z by (simp add: lex_number_prefix_def Let_def buf_add_def buffer_max_idx_def)
  have "\<forall>c \<in> set (replicate 126 CHR ''0'' @ ds). is_digit_or_underscore c Dec \<and> c \<noteq> CHR ''_''"
    using z assms(1) underscore_not_digit(1) by (auto simp: is_digit_or_underscore_def)
  then obtain it' where td: "take_digits Dec (iter_next it) ''0'' = (it', replicate 127 CHR ''0'')" "at_input it' []" "it_pos it' = n"
    using take_digits_forward [of "iter_next it" "replicate 126 CHR ''0'' @ ds" "[]" Dec "''0''"] at1
      at_input_next_pos [OF at(1)] at(2) assms(2)
    by (auto simp: buffer_max_idx_def replicate_Suc [symmetric] simp del: replicate_Suc)
  have dv: "digits_value 10 (replicate k CHR ''0'') = 0" for k
    by (induction k) (simp_all add: digits_value_def bin_digit_value)
  have "strtoll (replicate 127 CHR ''0'') 10 = (False, 0, 127)"
    using strtoll_digits [of "replicate 127 CHR ''0''" 10] z
    by (simp add: dv radix_digit_of_base LLONG_MAX_def)
  moreover have "lex_fraction it' buf = (it', buf, False)" "lex_exponent it' buf = (it', buf, False)" for buf
    using td(2) by (simp_all add: lex_fraction_def lex_exponent_def)
  ultimately have "lex_number fp 0 it = Inr (make_int_lit 0 Dec (0, n), it')"
    using pre td by (simp add: lex_number_def lex_number_finish_def Let_def)
  then have "next_token fp it = Inr (make_int_lit 0 Dec (0, n), it')"
    using next_token_number [OF at(1) z, of fp] at(2) by simp
  from lex_all_single [OF at(1) _ this] td show ?thesis
    by (simp add: tokenize_def it_def make_int_lit_def)
qed

theorem number_buffer_truncates_witness:
  "tokenize fp0 (src_from_string (replicate 127 CHR ''0'' @ ''5'') []) =
     Inr [make_int_lit 0 Dec (0, 128), simple_token TokEof (128, 128)]"
  by (rule number_buffer_truncates) (simp_all add: is_ascii_dec_digit_def char_between_iso)

end
