(* ===== verification/Std_Map.thy ===== *)
theory Std_Map
  imports Prelude
begin

text \<open>
  \<open>std::map<std::string, T>\<close> as the sources use it: an association list that is kept in the order
  of its keys, because the code iterates over maps to print them. The order of \<open>std::string\<close>
  compares bytes, hence the IBM-1047 codes of the characters.

  The interface the clients rely on is the locale \<open>string_map\<close>: lookup after assignment and the
  invariant. Its lemmas on sequences of assignments are used for the defaults and for the merged
  argument maps of the command parser and of the middleware.
\<close>

section \<open>The order of strings\<close>

fun string_less :: "string \<Rightarrow> string \<Rightarrow> bool" where
  "string_less [] [] = False"
| "string_less [] (d # ds) = True"
| "string_less (c # cs) [] = False"
| "string_less (c # cs) (d # ds) =
     (if c = d then string_less cs ds else ebcdic_code c < ebcdic_code d)"

lemma string_less_irrefl [simp]: "\<not> string_less s s"
  by (induction s) simp_all

lemma string_less_trans: "string_less a b \<Longrightarrow> string_less b c \<Longrightarrow> string_less a c"
proof (induction a b arbitrary: c rule: string_less.induct)
  case (2 d ds)
  then show ?case by (cases c) simp_all
next
  case (4 x xs y ys)
  then obtain z zs where "c = z # zs" by (cases c) auto
  with 4 show ?case by (auto split: if_splits)
qed simp_all

lemma string_less_total: "a \<noteq> b \<Longrightarrow> string_less a b \<or> string_less b a"
proof (induction a b rule: string_less.induct)
  case (4 x xs y ys)
  then show ?case by (auto simp: neq_iff [where 'a = nat, symmetric])
qed simp_all

lemma string_less_asym: "string_less a b \<Longrightarrow> \<not> string_less b a"
  using string_less_trans string_less_irrefl by blast

section \<open>The map\<close>

type_synonym 'v smap = "(string \<times> 'v) list"

text \<open>\<open>m[key] = value\<close>.\<close>

fun map_set :: "string \<Rightarrow> 'v \<Rightarrow> 'v smap \<Rightarrow> 'v smap" where
  "map_set k v [] = [(k, v)]"
| "map_set k v ((k', v') # m) =
     (if k = k' then (k, v) # m
      else if string_less k k' then (k, v) # (k', v') # m
      else (k', v') # map_set k v m)"

abbreviation map_find :: "'v smap \<Rightarrow> string \<Rightarrow> 'v option" where
  "map_find \<equiv> map_of"

definition map_has :: "'v smap \<Rightarrow> string \<Rightarrow> bool" where
  "map_has m k \<longleftrightarrow> map_find m k \<noteq> None"

definition map_wf :: "'v smap \<Rightarrow> bool" where
  "map_wf m \<longleftrightarrow> sorted_wrt string_less (map fst m)"

lemma map_find_set [simp]: "map_find (map_set k v m) = (map_find m)(k \<mapsto> v)"
  by (induction m) (auto simp: fun_eq_iff)

text \<open>The keys, on their own.\<close>

fun key_insert :: "string \<Rightarrow> string list \<Rightarrow> string list" where
  "key_insert k [] = [k]"
| "key_insert k (k' # ks) =
     (if k = k' then k' # ks else if string_less k k' then k # k' # ks else k' # key_insert k ks)"

lemma map_fst_set: "map fst (map_set k v m) = key_insert k (map fst m)"
  by (induction m) auto

lemma set_key_insert [simp]: "set (key_insert k ks) = insert k (set ks)"
  by (induction ks) auto

lemma sorted_key_insert: "sorted_wrt string_less ks \<Longrightarrow> sorted_wrt string_less (key_insert k ks)"
  by (induction ks) (use string_less_total string_less_trans in \<open>auto\<close>)

lemma map_wf_set [simp, inv_rules]: "map_wf m \<Longrightarrow> map_wf (map_set k v m)"
  by (simp add: map_wf_def map_fst_set sorted_key_insert)

lemma map_set_keys: "fst ` set (map_set k v m) = insert k (fst ` set m)"
  using map_fst_set [of k v m] by (metis list.set_map set_key_insert)

lemma map_wf_Nil [simp]: "map_wf []"
  by (simp add: map_wf_def)

lemma sorted_string_distinct: "sorted_wrt string_less ks \<Longrightarrow> distinct ks"
  by (induction ks) auto

lemma map_wf_distinct: "map_wf m \<Longrightarrow> distinct (map fst m)"
  by (simp add: map_wf_def sorted_string_distinct)

lemma map_has_set [simp]: "map_has (map_set k v m) k' \<longleftrightarrow> k' = k \<or> map_has m k'"
  by (auto simp: map_has_def)

text \<open>Assigning a list of entries in order, as the loops over another container do.\<close>

definition map_set_all :: "(string \<times> 'v) list \<Rightarrow> 'v smap \<Rightarrow> 'v smap" where
  "map_set_all kvs m = fold (\<lambda>(k, v). map_set k v) kvs m"

declare map_set.simps [simp del]

section \<open>The interface\<close>

locale string_map =
  fixes find_in :: "'m \<Rightarrow> 'k \<Rightarrow> 'v option"
    and assign :: "'k \<Rightarrow> 'v \<Rightarrow> 'm \<Rightarrow> 'm"
    and inv :: "'m \<Rightarrow> bool"
  assumes find_assign: "find_in (assign k v m) k' = (if k' = k then Some v else find_in m k')"
    and inv_assign: "inv m \<Longrightarrow> inv (assign k v m)"
begin

definition assign_all :: "('k \<times> 'v) list \<Rightarrow> 'm \<Rightarrow> 'm" where
  "assign_all kvs m = fold (\<lambda>(k, v). assign k v) kvs m"

lemma assign_all_simps [simp]:
  "assign_all [] m = m" "assign_all ((k, v) # kvs) m = assign_all kvs (assign k v m)"
  by (simp_all add: assign_all_def)

lemma find_assign_all:
  "find_in (assign_all kvs m) k = (case map_of (rev kvs) k of Some v \<Rightarrow> Some v | None \<Rightarrow> find_in m k)"
  by (induction kvs arbitrary: m) (auto simp: find_assign map_add_def split: option.splits)

lemma inv_assign_all: "inv m \<Longrightarrow> inv (assign_all kvs m)"
  by (induction kvs arbitrary: m) (auto simp: inv_assign)

lemma find_assign_all_notin:
  "k \<notin> set (map fst kvs) \<Longrightarrow> find_in (assign_all kvs m) k = find_in m k"
  by (induction kvs arbitrary: m) (auto simp: find_assign)

lemma find_assign_all_distinct:
  "distinct (map fst kvs) \<Longrightarrow> (k, v) \<in> set kvs \<Longrightarrow> find_in (assign_all kvs m) k = Some v"
  by (induction kvs arbitrary: m) (auto simp: find_assign find_assign_all_notin rev_image_eqI)

end

interpretation smap: string_map map_find map_set map_wf
  by unfold_locales simp_all

lemma map_set_all_assign_all: "map_set_all = smap.assign_all"
  by (intro ext) (simp add: map_set_all_def smap.assign_all_def)

lemmas map_find_set_all = smap.find_assign_all [folded map_set_all_assign_all]
lemmas map_wf_set_all [simp, inv_rules] = smap.inv_assign_all [folded map_set_all_assign_all]
lemmas map_find_set_all_notin = smap.find_assign_all_notin [folded map_set_all_assign_all]
lemmas map_find_set_all_distinct = smap.find_assign_all_distinct [folded map_set_all_assign_all]

lemma map_set_all_simps [simp]:
  "map_set_all [] m = m" "map_set_all ((k, v) # kvs) m = map_set_all kvs (map_set k v m)"
  by (simp_all add: map_set_all_def)

lemma map_has_set_all: "map_has (map_set_all kvs m) k \<longleftrightarrow> k \<in> set (map fst kvs) \<or> map_has m k"
proof (induction kvs arbitrary: m)
  case (Cons p kvs)
  then show ?case by (cases p) (auto simp del: set_map)
qed simp

end
