(* ===== verification/Argument.thy ===== *)
theory Argument
  imports Std_Map Lexer
begin

text \<open>
  The values of \<open>native/c/extend/plugin.hpp\<close> that cross the boundary between the command parser, the
  handlers and the server: \<open>ast::Ast\<close>, the output tree with its JSON and YAML renderings,
  \<open>plugin::Argument\<close>, and \<open>plugin::Io\<close>, the argument map and the streams a handler works on.

  A null \<open>shared_ptr\<close> is \<^const>\<open>None\<close>. The trees are values: the sources never build a cycle.
\<close>

section \<open>The output tree\<close>

datatype 'd ast =
    AstNull
  | AstBoolean bool
  | AstInteger int
  | AstNumber 'd
  | AstString string
  | AstArray "'d ast option list"
  | AstObject "(string \<times> 'd ast option) list"

fun ast_is_number :: "'d ast \<Rightarrow> bool" where
  "ast_is_number (AstNumber d) = True"
| "ast_is_number (AstInteger i) = True"
| "ast_is_number _ = False"

definition ast_require :: "string \<Rightarrow> exn" where
  "ast_require name = Logic_error (''Json: expected '' @ name)"

fun ast_as_bool :: "'d ast \<Rightarrow> bool result" where
  "ast_as_bool (AstBoolean b) = Inr b"
| "ast_as_bool _ = Inl (ast_require ''bool'')"

fun ast_as_integer :: "'d ast \<Rightarrow> int result" where
  "ast_as_integer (AstInteger i) = Inr i"
| "ast_as_integer _ = Inl (ast_require ''integer'')"

fun ast_as_string :: "'d ast \<Rightarrow> string result" where
  "ast_as_string (AstString s) = Inr s"
| "ast_as_string _ = Inl (ast_require ''string'')"

fun ast_as_array :: "'d ast \<Rightarrow> 'd ast option list result" where
  "ast_as_array (AstArray a) = Inr a"
| "ast_as_array _ = Inl (ast_require ''array'')"

fun ast_as_object :: "'d ast \<Rightarrow> (string \<times> 'd ast option) list result" where
  "ast_as_object (AstObject ob) = Inr ob"
| "ast_as_object _ = Inl (ast_require ''object'')"

fun ast_set :: "'d ast \<Rightarrow> string \<Rightarrow> 'd ast option \<Rightarrow> 'd ast result" where
  "ast_set (AstObject ob) key value = Inr (AstObject (map_set key value ob))"
| "ast_set _ key value = Inl (ast_require ''object'')"

fun ast_push :: "'d ast \<Rightarrow> 'd ast option \<Rightarrow> 'd ast result" where
  "ast_push (AstArray a) value = Inr (AstArray (a @ [value]))"
| "ast_push _ value = Inl (ast_require ''array'')"

fun ast_get :: "'d ast \<Rightarrow> string \<Rightarrow> 'd ast option result" where
  "ast_get (AstObject ob) key = Inr (case map_find ob key of None \<Rightarrow> None | Some n \<Rightarrow> n)"
| "ast_get _ key = Inl (ast_require ''object'')"

fun ast_at :: "'d ast \<Rightarrow> nat \<Rightarrow> 'd ast option result" where
  "ast_at (AstArray a) idx =
     (if idx \<ge> length a then Inl (Out_of_range ''json array index'') else Inr (a ! idx))"
| "ast_at _ idx = Inl (ast_require ''array'')"

subsection \<open>JSON\<close>

fun join :: "string \<Rightarrow> string list \<Rightarrow> string" where
  "join sep [] = []"
| "join sep [x] = x"
| "join sep (x # y # ys) = x @ sep @ join sep (y # ys)"

definition quoted :: "string \<Rightarrow> string" where
  "quoted s = [DQUOTE] @ s @ [DQUOTE]"

fun ast_as_json :: "'d fp_ops \<Rightarrow> 'd ast \<Rightarrow> string" where
  "ast_as_json fp AstNull = ''null''"
| "ast_as_json fp (AstBoolean b) = (if b then ''true'' else ''false'')"
| "ast_as_json fp (AstInteger i) = show_int i"
| "ast_as_json fp (AstNumber d) = fp_show fp False d"
| "ast_as_json fp (AstString s) = quoted s"
| "ast_as_json fp (AstArray a) =
     ''['' @ join '', '' (map (\<lambda>e. case e of Some n \<Rightarrow> ast_as_json fp n | None \<Rightarrow> ''null'') a) @ '']''"
| "ast_as_json fp (AstObject ob) =
     ''{'' @ join '', '' (map (\<lambda>(key, e). quoted key @ '': '' @
        (case e of Some n \<Rightarrow> ast_as_json fp n | None \<Rightarrow> ''null'')) ob) @ ''}''"

subsection \<open>YAML\<close>

definition append_indent :: "nat \<Rightarrow> string" where
  "append_indent indent = replicate indent SPACE"

fun needs_multiline_yaml :: "'d ast \<Rightarrow> bool" where
  "needs_multiline_yaml (AstArray a) = (a \<noteq> [])"
| "needs_multiline_yaml (AstObject ob) = (ob \<noteq> [])"
| "needs_multiline_yaml _ = False"

text \<open>\<open>append_yaml\<close> with its two helpers; the result is the text written.\<close>

fun append_yaml :: "'d fp_ops \<Rightarrow> 'd ast \<Rightarrow> nat \<Rightarrow> string" where
  "append_yaml fp (AstArray a) indent =
     (if a = [] then ''[]''
      else join [NL] (map (\<lambda>e. append_indent indent @
        (case e of
           None \<Rightarrow> ''- null''
         | Some n \<Rightarrow>
             if needs_multiline_yaml n then ''-'' @ [NL] @ append_yaml fp n (indent + 2)
             else ''- '' @ append_yaml fp n 0)) a))"
| "append_yaml fp (AstObject ob) indent =
     (if ob = [] then ''{}''
      else join [NL] (map (\<lambda>(key, e). append_indent indent @ key @
        (case e of
           None \<Rightarrow> '': null''
         | Some n \<Rightarrow>
             if needs_multiline_yaml n then '':'' @ [NL] @ append_yaml fp n (indent + 2)
             else '': '' @ append_yaml fp n 0)) ob))"
| "append_yaml fp n indent = ast_as_json fp n"

definition ast_as_yaml :: "'d fp_ops \<Rightarrow> 'd ast \<Rightarrow> string" where
  "ast_as_yaml fp n = append_yaml fp n 0"

section \<open>Argument values\<close>

datatype 'd value_kind =
    ValueNone
  | ValueBool bool
  | ValueInt int
  | ValueDouble 'd
  | ValueString string
  | ValueList "string list"

record 'd argument =
  arg_val :: "'d value_kind"
  arg_dynamic :: bool

definition mk_argument :: "'d value_kind \<Rightarrow> 'd argument" where
  "mk_argument v = \<lparr>arg_val = v, arg_dynamic = False\<rparr>"

definition is_none :: "'d argument \<Rightarrow> bool" where
  "is_none a \<longleftrightarrow> (case arg_val a of ValueNone \<Rightarrow> True | _ \<Rightarrow> False)"

definition is_string :: "'d argument \<Rightarrow> bool" where
  "is_string a \<longleftrightarrow> (case arg_val a of ValueString _ \<Rightarrow> True | _ \<Rightarrow> False)"

definition is_string_vector :: "'d argument \<Rightarrow> bool" where
  "is_string_vector a \<longleftrightarrow> (case arg_val a of ValueList _ \<Rightarrow> True | _ \<Rightarrow> False)"

definition get_bool :: "'d argument \<Rightarrow> bool option" where
  "get_bool a = (case arg_val a of ValueBool b \<Rightarrow> Some b | _ \<Rightarrow> None)"

definition get_int :: "'d argument \<Rightarrow> int option" where
  "get_int a = (case arg_val a of ValueInt i \<Rightarrow> Some i | _ \<Rightarrow> None)"

definition get_double :: "'d argument \<Rightarrow> 'd option" where
  "get_double a = (case arg_val a of ValueDouble d \<Rightarrow> Some d | _ \<Rightarrow> None)"

definition get_string :: "'d argument \<Rightarrow> string option" where
  "get_string a = (case arg_val a of ValueString s \<Rightarrow> Some s | _ \<Rightarrow> None)"

definition get_string_vector :: "'d argument \<Rightarrow> string list option" where
  "get_string_vector a = (case arg_val a of ValueList l \<Rightarrow> Some l | _ \<Rightarrow> None)"

definition get_string_value :: "'d argument \<Rightarrow> string \<Rightarrow> string" where
  "get_string_value a default_val = (case get_string a of Some s \<Rightarrow> s | None \<Rightarrow> default_val)"

definition argument_print :: "'d fp_ops \<Rightarrow> 'd argument \<Rightarrow> string" where
  "argument_print fp a =
     (case arg_val a of
        ValueNone \<Rightarrow> ''<none>''
      | ValueBool b \<Rightarrow> (if b then ''true'' else ''false'')
      | ValueInt i \<Rightarrow> show_int i
      | ValueDouble d \<Rightarrow> fp_show fp False d
      | ValueString s \<Rightarrow> s
      | ValueList l \<Rightarrow> ''['' @ join '', '' l @ '']'')"

definition set_dynamic :: "bool \<Rightarrow> 'd argument \<Rightarrow> 'd argument" where
  "set_dynamic b a = a\<lparr>arg_dynamic := b\<rparr>"

type_synonym 'd argument_map = "'d argument smap"

section \<open>Handler input and output\<close>

text \<open>
  \<open>plugin::Io\<close>. A stream pointer is kept as whether it is redirected, and the text written through it
  as a string. \<open>ArgGetter<T>\<close> is a getter above, so \<open>get_if\<close> and the two forms of \<open>get\<close> take it as
  an argument.
\<close>

record 'd io =
  io_args :: "'d argument_map"
  io_output :: "'d argument_map"
  io_in_redirected :: bool
  io_out_redirected :: bool
  io_err_redirected :: bool
  io_out_text :: string
  io_err_text :: string
  io_object :: "'d ast option"
  io_content_len :: nat

definition io_has :: "'d io \<Rightarrow> string \<Rightarrow> bool" where
  "io_has io key \<longleftrightarrow> map_has (io_args io) key"

definition io_get_if :: "('d argument \<Rightarrow> 't option) \<Rightarrow> 'd io \<Rightarrow> string \<Rightarrow> 't option" where
  "io_get_if getter io key = (case map_find (io_args io) key of None \<Rightarrow> None | Some a \<Rightarrow> getter a)"

definition io_get :: "('d argument \<Rightarrow> 't option) \<Rightarrow> 'd io \<Rightarrow> string \<Rightarrow> 't result" where
  "io_get getter io key =
     (case io_get_if getter io key of
        None \<Rightarrow> Inl (Runtime_error (''argument '' @ [SQUOTE] @ key @ [SQUOTE] @ '' missing or wrong type''))
      | Some v \<Rightarrow> Inr v)"

definition io_get_default :: "('d argument \<Rightarrow> 't option) \<Rightarrow> 'd io \<Rightarrow> string \<Rightarrow> 't \<Rightarrow> 't" where
  "io_get_default getter io key default_value =
     (case io_get_if getter io key of None \<Rightarrow> default_value | Some v \<Rightarrow> v)"

text \<open>The specialisations for \<open>bool\<close>, which look for the negated argument first.\<close>

definition io_get_bool :: "'d io \<Rightarrow> string \<Rightarrow> bool result" where
  "io_get_bool io key =
     (case io_get_if get_bool io (''no-'' @ key) of
        Some neg \<Rightarrow> Inr (\<not> neg)
      | None \<Rightarrow>
          (case io_get_if get_bool io key of
             None \<Rightarrow> Inl (Invalid_argument (''argument '' @ [SQUOTE] @ key @ [SQUOTE] @ '' missing or wrong type''))
           | Some v \<Rightarrow> Inr v))"

definition io_get_bool_default :: "'d io \<Rightarrow> string \<Rightarrow> bool \<Rightarrow> bool" where
  "io_get_bool_default io key default_value =
     (case io_get_if get_bool io (''no-'' @ key) of
        Some neg \<Rightarrow> \<not> neg
      | None \<Rightarrow> (case io_get_if get_bool io key of None \<Rightarrow> default_value | Some v \<Rightarrow> v))"

text \<open>A \<open>const char *\<close> argument: \<^const>\<open>None\<close> for null; \<open>strlen\<close> stops at the first null character.\<close>

definition c_str :: "string \<Rightarrow> string" where
  "c_str s = takeWhile (\<lambda>c. c \<noteq> NUL) s"

definition io_print :: "string option \<Rightarrow> 'd io \<Rightarrow> 'd io" where
  "io_print s io = (case s of None \<Rightarrow> io | Some t \<Rightarrow> io\<lparr>io_out_text := io_out_text io @ c_str t\<rparr>)"

definition io_println :: "string option \<Rightarrow> 'd io \<Rightarrow> 'd io" where
  "io_println s io = (let io' = io_print s io in io'\<lparr>io_out_text := io_out_text io' @ [NL]\<rparr>)"

definition io_err :: "string option \<Rightarrow> 'd io \<Rightarrow> 'd io" where
  "io_err s io = (case s of None \<Rightarrow> io | Some t \<Rightarrow> io\<lparr>io_err_text := io_err_text io @ c_str t\<rparr>)"

definition io_errln :: "string option \<Rightarrow> 'd io \<Rightarrow> 'd io" where
  "io_errln s io = (let io' = io_err s io in io'\<lparr>io_err_text := io_err_text io' @ [NL]\<rparr>)"

definition io_set_output :: "string \<Rightarrow> 'd value_kind \<Rightarrow> 'd io \<Rightarrow> 'd io" where
  "io_set_output key v io = io\<lparr>io_output := map_set key (mk_argument v) (io_output io)\<rparr>"

definition io_dynamic_arguments :: "'d io \<Rightarrow> 'd argument_map" where
  "io_dynamic_arguments io = map_set_all (filter (\<lambda>(k, a). arg_dynamic a) (io_args io)) []"

definition io_set_object :: "'d ast option \<Rightarrow> 'd io \<Rightarrow> 'd io" where
  "io_set_object n io = io\<lparr>io_object := n\<rparr>"

definition io_set_content_len :: "nat \<Rightarrow> 'd io \<Rightarrow> 'd io" where
  "io_set_content_len n io = io\<lparr>io_content_len := n\<rparr>"

text \<open>\<open>ContextArgs\<close> and the constructor of \<open>InvocationContext\<close>.\<close>

record 'd context_args =
  ctx_command_path :: string
  ctx_args :: "'d argument_map"
  ctx_passthrough_args :: "string list"
  ctx_in_stream :: bool
  ctx_out_stream :: bool
  ctx_err_stream :: bool

record 'd invocation_context = "'d io" +
  inv_command_path :: string
  inv_passthrough_args :: "string list"

definition mk_invocation_context :: "'d context_args \<Rightarrow> 'd invocation_context" where
  "mk_invocation_context c =
     \<lparr>io_args = ctx_args c, io_output = [], io_in_redirected = ctx_in_stream c,
      io_out_redirected = ctx_out_stream c, io_err_redirected = ctx_err_stream c,
      io_out_text = [], io_err_text = [], io_object = None, io_content_len = 0,
      inv_command_path = ctx_command_path c, inv_passthrough_args = ctx_passthrough_args c\<rparr>"

definition has_passthrough :: "'d invocation_context \<Rightarrow> bool" where
  "has_passthrough ctx \<longleftrightarrow> inv_passthrough_args ctx \<noteq> []"

section \<open>Properties\<close>

lemma filter_sorted_map_set_all:
  assumes "map_wf m"
  shows "map_find (map_set_all (filter P m) []) k = map_find (filter P m) k"
proof -
  have "distinct (map fst (filter P m))" using map_wf_distinct [OF assms] by (simp add: distinct_map_filter)
  then have "map_of (rev (filter P m)) = map_of (filter P m)"
    by (intro map_of_eqI) (auto simp: rev_map [symmetric])
  then show ?thesis by (simp add: map_find_set_all split: option.splits)
qed

end
