(* ===== verification/Suggest.thy ===== *)
theory Suggest
  imports Prelude
begin

text \<open>
  \<open>levenshtein_distance\<close> of \<open>native/c/parser.hpp\<close>, which the command parser uses to suggest a
  similar option or command. The two rows of the algorithm are lists that are updated in place; the
  result is shown to be the least number of insertions, deletions and replacements of one character.
\<close>

section \<open>The algorithm\<close>

text \<open>One step of the inner loop, for \<open>1 \<le> j\<close>.\<close>

definition lev_cell :: "char \<Rightarrow> string \<Rightarrow> nat list \<Rightarrow> nat list \<Rightarrow> nat \<Rightarrow> nat list" where
  "lev_cell ai b prev row j =
     (let cost = (if ai = b ! (j - 1) then 0 else 1);
          del = prev ! j + 1;
          ins = row ! (j - 1) + 1;
          sub = prev ! (j - 1) + cost;
          min_val = (if del < ins then del else ins);
          min_val' = (if min_val < sub then min_val else sub)
      in row[j := min_val'])"

definition lev_row :: "string \<Rightarrow> string \<Rightarrow> nat \<Rightarrow> nat list \<Rightarrow> nat list \<Rightarrow> nat list" where
  "lev_row a b i prev row =
     fold (\<lambda>j row. lev_cell (a ! (i - 1)) b prev row j) [1..<length b + 1] (row[0 := i])"

definition levenshtein_distance :: "string \<Rightarrow> string \<Rightarrow> nat" where
  "levenshtein_distance a b =
     (let len_a = length a;
          len_b = length b;
          prev = fold (\<lambda>j prev. prev[j := j]) [0..<len_b + 1] (replicate (len_b + 1) 0);
          row = replicate (len_b + 1) 0;
          (prev', row') = fold (\<lambda>i (prev, row). let row' = lev_row a b i prev row in (row', row'))
                             [1..<len_a + 1] (prev, row)
      in prev' ! len_b)"

section \<open>Edit scripts\<close>

text \<open>One edit of one character, anywhere in the string.\<close>

inductive one_edit :: "string \<Rightarrow> string \<Rightarrow> bool" where
  edit_insert: "one_edit xs (c # xs)"
| edit_delete: "one_edit (c # xs) xs"
| edit_replace: "one_edit (c # xs) (d # xs)"
| edit_later: "one_edit xs ys \<Longrightarrow> one_edit (c # xs) (c # ys)"

text \<open>Aligned edit scripts with their cost, and the recursion over the ends of the strings.\<close>

inductive align :: "nat \<Rightarrow> string \<Rightarrow> string \<Rightarrow> bool" where
  align_Nil: "align 0 [] []"
| align_keep: "align n xs ys \<Longrightarrow> align n (c # xs) (c # ys)"
| align_replace: "align n xs ys \<Longrightarrow> align (Suc n) (c # xs) (d # ys)"
| align_delete: "align n xs ys \<Longrightarrow> align (Suc n) (c # xs) ys"
| align_insert: "align n xs ys \<Longrightarrow> align (Suc n) xs (d # ys)"

fun edit_distance :: "string \<Rightarrow> string \<Rightarrow> nat" where
  "edit_distance [] ys = length ys"
| "edit_distance (x # xs) [] = Suc (length xs)"
| "edit_distance (x # xs) (y # ys) =
     min (min (edit_distance xs (y # ys) + 1) (edit_distance (x # xs) ys + 1))
       (edit_distance xs ys + (if x = y then 0 else 1))"

lemma edit_distance_Nil [simp]: "edit_distance xs [] = length xs"
  by (cases xs) simp_all

lemma align_edit_distance: "align (edit_distance xs ys) xs ys"
proof (induction xs ys rule: edit_distance.induct)
  case (1 ys)
  show ?case by (induction ys) (auto intro: align.intros)
next
  case (2 x xs)
  show ?case by (induction xs arbitrary: x) (auto intro: align.intros align_delete [OF align_Nil])
next
  case (3 x xs y ys)
  then show ?case by (auto simp: min_def intro: align.intros)
qed

lemma edit_distance_le: "align n xs ys \<Longrightarrow> edit_distance xs ys \<le> n"
proof (induction rule: align.induct)
  case (align_delete n xs ys c)
  then show ?case by (cases ys) auto
next
  case (align_insert n xs ys d)
  then show ?case by (cases xs) auto
qed auto

lemma align_snoc:
  assumes "align n xs ys"
  shows "align n (xs @ [c]) (ys @ [c])" "align (Suc n) (xs @ [c]) (ys @ [d])"
    "align (Suc n) (xs @ [c]) ys" "align (Suc n) xs (ys @ [d])"
  using assms
  by (induction rule: align.induct) (auto intro: align.intros)

lemma align_rev: "align n xs ys \<Longrightarrow> align n (rev xs) (rev ys)"
  by (induction rule: align.induct) (auto intro: align_Nil align_snoc)

lemma edit_distance_rev: "edit_distance (rev xs) (rev ys) = edit_distance xs ys"
proof (rule antisym)
  show "edit_distance (rev xs) (rev ys) \<le> edit_distance xs ys"
    by (intro edit_distance_le align_rev align_edit_distance)
  have "align (edit_distance (rev xs) (rev ys)) (rev (rev xs)) (rev (rev ys))"
    by (intro align_rev align_edit_distance)
  then show "edit_distance xs ys \<le> edit_distance (rev xs) (rev ys)"
    by (simp add: edit_distance_le)
qed

lemma edit_distance_snoc:
  "edit_distance (xs @ [x]) (ys @ [y]) =
     min (min (edit_distance xs (ys @ [y]) + 1) (edit_distance (xs @ [x]) ys + 1))
       (edit_distance xs ys + (if x = y then 0 else 1))"
  using edit_distance.simps(3) [of x "rev xs" y "rev ys"]
    edit_distance_rev [of "xs @ [x]" "ys @ [y]"] edit_distance_rev [of xs "ys @ [y]"]
    edit_distance_rev [of "xs @ [x]" ys] edit_distance_rev [of xs ys]
  by simp

lemma relpowp_edit_later: "(one_edit ^^ n) xs ys \<Longrightarrow> (one_edit ^^ n) (c # xs) (c # ys)"
  by (induction n arbitrary: ys) (auto intro: edit_later)

lemma align_edits: "align n xs ys \<Longrightarrow> (one_edit ^^ n) xs ys"
proof (induction rule: align.induct)
  case (align_keep n xs ys c)
  show ?case using align_keep.IH by (rule relpowp_edit_later)
next
  case (align_replace n xs ys c d)
  then show ?case using relpowp_edit_later [of n xs ys c] edit_replace [of c ys d] by auto
next
  case (align_delete n xs ys c)
  then show ?case using relpowp_edit_later [of n xs ys c] edit_delete [of c ys] by auto
next
  case (align_insert n xs ys d)
  then show ?case using edit_insert [of ys d] by auto
qed simp

inductive_cases one_edit_NilE: "one_edit [] zs"
inductive_simps one_edit_Cons: "one_edit (c # ys) zs"

lemma one_edit_ConsE:
  assumes "one_edit (c # ys) zs"
  obtains d where "zs = d # c # ys" | "zs = ys" | d where "zs = d # ys"
    | ys' where "zs = c # ys'" "one_edit ys ys'"
  using assms unfolding one_edit_Cons by blast

lemma align_one_edit: "align n xs ys \<Longrightarrow> one_edit ys zs \<Longrightarrow> \<exists>m \<le> Suc n. align m xs zs"
proof (induction arbitrary: zs rule: align.induct)
  case align_Nil
  then obtain c where "zs = [c]" by (auto elim: one_edit_NilE)
  then show ?case using align.align_insert [OF align.align_Nil] by blast
next
  case (align_keep n xs ys c)
  from align_keep.prems show ?case
  proof (cases rule: one_edit_ConsE)
    case (4 ys')
    then obtain m where "m \<le> Suc n" "align m xs ys'" using align_keep.IH by blast
    with 4 show ?thesis by (auto intro: align.intros)
  qed (use align_keep.hyps in \<open>auto intro: align.intros\<close>)
next
  case (align_replace n xs ys c d)
  from align_replace.prems show ?case
  proof (cases rule: one_edit_ConsE)
    case (4 ys')
    then obtain m where "m \<le> Suc n" "align m xs ys'" using align_replace.IH by blast
    with 4 show ?thesis by (auto intro!: exI [of _ "Suc m"] intro: align.intros)
  qed (use align_replace.hyps in \<open>auto intro: align.intros le_SucI\<close>)
next
  case (align_delete n xs ys c)
  then obtain m where "m \<le> Suc n" "align m xs zs" by blast
  then show ?case by (auto intro!: exI [of _ "Suc m"] intro: align.intros)
next
  case (align_insert n xs ys d)
  from align_insert.prems show ?case
  proof (cases rule: one_edit_ConsE)
    case (4 ys')
    then obtain m where "m \<le> Suc n" "align m xs ys'" using align_insert.IH by blast
    with 4 show ?thesis by (auto intro!: exI [of _ "Suc m"] intro: align.intros)
  qed (use align_insert.hyps in \<open>auto intro: align.intros le_SucI\<close>)
qed

lemma edits_align: "(one_edit ^^ n) xs ys \<Longrightarrow> \<exists>m \<le> n. align m xs ys"
proof (induction n arbitrary: ys)
  case 0
  have "align 0 xs xs" by (induction xs) (auto intro: align.intros)
  with 0 show ?case by auto
next
  case (Suc n)
  then obtain zs where "(one_edit ^^ n) xs zs" "one_edit zs ys" by auto
  with Suc.IH align_one_edit show ?case by (meson Suc_le_mono order_trans)
qed

section \<open>The rows hold the distances of the prefixes\<close>

definition row_ok :: "string \<Rightarrow> string \<Rightarrow> nat \<Rightarrow> nat list \<Rightarrow> nat \<Rightarrow> bool" where
  "row_ok a b i row k \<longleftrightarrow> length row = length b + 1 \<and>
     (\<forall>j < k. row ! j = edit_distance (take i a) (take j b))"

lemma min3_if:
  "(if (if x < y then x else y) < z then (if x < y then x else y) else z) = min (min x y) (z :: nat)"
  by auto

lemma lev_cell_ok:
  assumes "row_ok a b i prev (length b + 1)" and "row_ok a b (Suc i) row (Suc j)"
    and "j < length b" and "i < length a"
  shows "row_ok a b (Suc i) (lev_cell (a ! i) b prev row (Suc j)) (Suc (Suc j))"
proof -
  have "take (Suc i) a = take i a @ [a ! i]" "take (Suc j) b = take j b @ [b ! j]"
    using assms(3,4) by (simp_all add: take_Suc_conv_app_nth)
  then have e: "edit_distance (take (Suc i) a) (take (Suc j) b) =
      min (min (edit_distance (take i a) (take (Suc j) b) + 1) (edit_distance (take (Suc i) a) (take j b) + 1))
        (edit_distance (take i a) (take j b) + (if a ! i = b ! j then 0 else 1))"
    by (simp add: edit_distance_snoc)
  have "length row = length b + 1" using assms(2) by (simp add: row_ok_def)
  moreover have "prev ! Suc j = edit_distance (take i a) (take (Suc j) b)"
    "prev ! j = edit_distance (take i a) (take j b)"
    "row ! j = edit_distance (take (Suc i) a) (take j b)"
    using assms by (auto simp: row_ok_def)
  ultimately have "lev_cell (a ! i) b prev row (Suc j) =
      row[Suc j := edit_distance (take (Suc i) a) (take (Suc j) b)]"
    by (simp only: lev_cell_def Let_def e min3_if diff_Suc_1)
  moreover have "Suc j < length row" using assms(2,3) by (simp add: row_ok_def)
  ultimately show ?thesis
    using assms(2) by (auto simp: row_ok_def nth_list_update)
qed

lemma lev_row_ok:
  assumes "row_ok a b i prev (length b + 1)" and "length row = length b + 1" and "i < length a"
  shows "row_ok a b (Suc i) (lev_row a b (Suc i) prev row) (length b + 1)"
proof -
  have "row_ok a b (Suc i) (fold (\<lambda>j row. lev_cell (a ! i) b prev row j) [1..<k + 1] (row[0 := Suc i])) (k + 1)"
    if "k \<le> length b" for k
    using that
  proof (induction k)
    case 0
    then show ?case using assms(2,3) by (simp add: row_ok_def min_def)
  next
    case (Suc k)
    then show ?case using lev_cell_ok [OF assms(1)] assms(3) by simp
  qed
  from this [of "length b"] show ?thesis by (simp add: lev_row_def)
qed

lemma lev_rows_ok:
  assumes "row_ok a b 0 prev (length b + 1)" and "length row = length b + 1" and "k \<le> length a"
    and "fold (\<lambda>i (prev, row). let row' = lev_row a b i prev row in (row', row')) [1..<k + 1] (prev, row) = (p, c)"
  shows "row_ok a b k p (length b + 1) \<and> length c = length b + 1"
  using assms(3,4)
proof (induction k arbitrary: p c)
  case 0
  then show ?case using assms(1,2) by simp
next
  case (Suc k)
  obtain p' c' where f: "fold (\<lambda>i (prev, row). let row' = lev_row a b i prev row in (row', row'))
      [1..<k + 1] (prev, row) = (p', c')" by fastforce
  from Suc.IH [OF _ f] Suc.prems(1) have "row_ok a b k p' (length b + 1)" "length c' = length b + 1" by simp_all
  then have "row_ok a b (Suc k) (lev_row a b (Suc k) p' c') (length b + 1)"
    using Suc.prems(1) by (intro lev_row_ok) simp_all
  with f Suc.prems(2) show ?case by (simp add: Let_def) (auto simp: row_ok_def)
qed

lemma init_row: "k \<le> n \<Longrightarrow> fold (\<lambda>j prev. prev[j := j]) [0..<k] (replicate n 0) = [0..<k] @ replicate (n - k) 0"
proof (induction k)
  case (Suc k)
  then have "n - k = Suc (n - Suc k)" by simp
  with Suc show ?case by (simp add: list_update_append)
qed simp

lemma levenshtein_edit_distance: "levenshtein_distance a b = edit_distance a b"
proof -
  let ?prev = "fold (\<lambda>j prev. prev[j := j]) [0..<length b + 1] (replicate (length b + 1) 0)"
  obtain p c where f: "fold (\<lambda>i (prev, row). let row' = lev_row a b i prev row in (row', row'))
      [1..<length a + 1] (?prev, replicate (length b + 1) 0) = (p, c)" by fastforce
  have "?prev = [0..<length b + 1]"
    using init_row [of "length b + 1" "length b + 1"] by simp
  then have "row_ok a b 0 ?prev (length b + 1)" unfolding row_ok_def
    by (simp only: length_upt) (auto simp: nth_append simp del: upt_Suc)
  from lev_rows_ok [OF this _ _ f] have "row_ok a b (length a) p (length b + 1)" by simp
  with f show ?thesis unfolding levenshtein_distance_def Let_def by (simp add: row_ok_def)
qed

text \<open>
  C33. The distance the parser computes with two rows is the least number of one-character edits
  (insertions, deletions, replacements) that turn one string into the other.
\<close>

theorem levenshtein_least_edits:
  "levenshtein_distance a b = (LEAST n. (one_edit ^^ n) a b)"
proof (rule Least_equality [symmetric])
  show "(one_edit ^^ levenshtein_distance a b) a b"
    unfolding levenshtein_edit_distance by (intro align_edits align_edit_distance)
  show "levenshtein_distance a b \<le> n" if "(one_edit ^^ n) a b" for n
    using edits_align [OF that] edit_distance_le unfolding levenshtein_edit_distance by fastforce
qed

end
