(* ===== verification/Command.thy ===== *)
theory Command
  imports Argument Suggest
begin

text \<open>
  Command definitions of \<open>native/c/parser.hpp\<close>: argument definitions with their builder and factory,
  the command tree with its registration checks, the help text and the completion script.

  A command is a value, a tree whose nodes are the records of the members of \<open>class Command\<close>; an
  operation that mutates a command returns the new one, and one that throws returns the exception. A
  handler is a function of the invocation context that returns the changed context and the exit code,
  or an exception. The vector of pre-command hooks is shared by all the commands of a parser, so a
  command only records whether its pointer to the vector is set.
\<close>

section \<open>Argument definitions\<close>

datatype arg_type = ArgType_Flag | ArgType_Single | ArgType_Multiple

record 'd arg_template =
  at_name :: string
  at_aliases :: "string list"
  at_help :: string
  at_type :: arg_type
  at_required :: bool
  at_default_value :: "'d argument"
  at_conflicts_with :: "string list"
  at_hidden :: bool
  at_coerce_as_string :: bool

record 'd argument_def =
  ad_name :: string
  ad_aliases :: "string list"
  ad_help :: string
  ad_type :: arg_type
  ad_positional :: bool
  ad_required :: bool
  ad_hidden :: bool
  ad_coerce_as_string :: bool
  ad_default_value :: "'d argument"
  ad_is_help_flag :: bool
  ad_is_json_flag :: bool
  ad_conflicts_with :: "string list"

definition mk_argument_def ::
    "string \<Rightarrow> string list \<Rightarrow> string \<Rightarrow> arg_type \<Rightarrow> bool \<Rightarrow> bool \<Rightarrow> 'd argument \<Rightarrow> bool \<Rightarrow> 'd argument_def" where
  "mk_argument_def n als h t pos req def_val help_flag =
     \<lparr>ad_name = n, ad_aliases = als, ad_help = h, ad_type = t, ad_positional = pos, ad_required = req,
      ad_hidden = False, ad_coerce_as_string = False, ad_default_value = def_val,
      ad_is_help_flag = help_flag, ad_is_json_flag = False, ad_conflicts_with = []\<rparr>"

text \<open>The aliases and the long flag are joined in the order of the source, skipping empty aliases.\<close>

definition get_display_name :: "'d argument_def \<Rightarrow> string" where
  "get_display_name arg =
     (let add = (\<lambda>display s. (if display \<noteq> [] then display @ '', '' else display) @ s);
          d1 = fold (\<lambda>al display. if al \<noteq> [] then add display al else display) (ad_aliases arg) [];
          long_flag = ''--'' @ ad_name arg;
          d2 = (if ad_name arg \<noteq> [] \<and> \<not> ad_positional arg \<and> long_flag \<notin> set (ad_aliases arg)
                then add d1 long_flag else d1)
      in case ad_type arg of
           ArgType_Flag \<Rightarrow> d2
         | ArgType_Single \<Rightarrow> d2 @ '' <value>''
         | ArgType_Multiple \<Rightarrow> d2 @ '' <value>'' @ ''...'')"

definition argument_factory_create :: "'d arg_template \<Rightarrow> bool \<Rightarrow> 'd argument_def" where
  "argument_factory_create tpl positional =
     (mk_argument_def (at_name tpl) (if positional then [] else at_aliases tpl) (at_help tpl) (at_type tpl)
        positional (at_required tpl) (at_default_value tpl) False)
     \<lparr>ad_hidden := at_hidden tpl, ad_coerce_as_string := at_coerce_as_string tpl,
      ad_conflicts_with := at_conflicts_with tpl\<rparr>"

text \<open>The builder: its setters on the definition under construction, and its destructor.\<close>

definition argument_builder :: "string \<Rightarrow> 'd argument_def" where
  "argument_builder name =
     (mk_argument_def name [] [] ArgType_Flag False False (mk_argument ValueNone) False)"

definition builder_alias :: "string \<Rightarrow> 'd argument_def \<Rightarrow> 'd argument_def" where
  "builder_alias als a = a\<lparr>ad_aliases := ad_aliases a @ [als]\<rparr>"

definition builder_aliases :: "string list \<Rightarrow> 'd argument_def \<Rightarrow> 'd argument_def" where
  "builder_aliases als a = a\<lparr>ad_aliases := ad_aliases a @ als\<rparr>"

definition builder_conflicts_with :: "string list \<Rightarrow> 'd argument_def \<Rightarrow> 'd argument_def" where
  "builder_conflicts_with others a = a\<lparr>ad_conflicts_with := ad_conflicts_with a @ others\<rparr>"

section \<open>Commands\<close>

record cmd_example =
  ex_title :: string
  ex_command :: string

record dynamic_kw =
  dk_keyword_type :: arg_type
  dk_description :: string
  dk_placeholder :: string

type_synonym 'd command_handler =
  "'d invocation_context \<Rightarrow> exn + 'd invocation_context \<times> int"

record 'd command_info =
  m_name :: string
  m_help :: string
  m_args :: "'d argument_def list"
  m_aliases :: "string list"
  m_examples :: "cmd_example list"
  m_dynamic :: dynamic_kw
  m_handler :: "'d command_handler option"
  m_allow_dynamic_keywords :: bool
  m_allow_passthrough :: bool
  m_privileged :: bool
  m_json_registered :: bool
  m_json_capture :: bool
  m_stdout_is_payload :: bool
  m_passthrough_description :: string
  m_pre_hooks_set :: bool

datatype 'd command = Command (cmd_info: "'d command_info") (m_commands: "(string \<times> 'd command) list")

definition update_info :: "('d command_info \<Rightarrow> 'd command_info) \<Rightarrow> 'd command \<Rightarrow> 'd command" where
  "update_info f c = Command (f (cmd_info c)) (m_commands c)"

definition update_args :: "('d argument_def list \<Rightarrow> 'd argument_def list) \<Rightarrow> 'd command \<Rightarrow> 'd command" where
  "update_args f c = update_info (\<lambda>i. i\<lparr>m_args := f (m_args i)\<rparr>) c"

abbreviation cmd_name :: "'d command \<Rightarrow> string" where "cmd_name c \<equiv> m_name (cmd_info c)"
abbreviation cmd_args :: "'d command \<Rightarrow> 'd argument_def list" where "cmd_args c \<equiv> m_args (cmd_info c)"
abbreviation cmd_aliases :: "'d command \<Rightarrow> string list" where "cmd_aliases c \<equiv> m_aliases (cmd_info c)"

definition has_alias :: "'d command \<Rightarrow> string \<Rightarrow> bool" where
  "has_alias c al \<longleftrightarrow> al \<in> set (cmd_aliases c)"

subsection \<open>Arguments\<close>

definition help_argument :: "'d argument_def" where
  "help_argument = mk_argument_def ''help'' [''-h'', ''--help''] ''show this help message and exit''
     ArgType_Flag False False (mk_argument (ValueBool False)) True"

definition ensure_help_argument :: "'d argument_def list \<Rightarrow> 'd argument_def list" where
  "ensure_help_argument args =
     (if list_ex (\<lambda>arg. ad_name arg = ''help'') args then args else args @ [help_argument])"

definition json_argument :: "'d argument_def" where
  "json_argument = (mk_argument_def ''json'' [''--json'', ''--rfj'']
     ''print the result as a single line of JSON'' ArgType_Flag False False
     (mk_argument (ValueBool False)) False)\<lparr>ad_is_json_flag := True\<rparr>"

definition ensure_json_argument :: "bool \<Rightarrow> 'd argument_def list \<Rightarrow> 'd argument_def list" where
  "ensure_json_argument json_registered args =
     (if \<not> json_registered then args
      else if list_ex (\<lambda>arg. ad_name arg = ''json'' \<or>
                 list_ex (\<lambda>al. al = ''--json'' \<or> al = ''--rfj'') (ad_aliases arg)) args
      then args
      else args @ [json_argument])"

definition negation_argument :: "string \<Rightarrow> 'd argument_def" where
  "negation_argument name =
     mk_argument_def (''no-'' @ name) [] (''disable the --'' @ name @ '' flag.'') ArgType_Flag False False
       (mk_argument (ValueBool False)) False"

definition register_argument :: "'d argument_def \<Rightarrow> 'd argument_def list \<Rightarrow> 'd argument_def list result" where
  "register_argument arg args =
     (if ad_name arg = ''help'' then
        Inl (Invalid_argument (''argument name '' @ [SQUOTE] @ ''help'' @ [SQUOTE] @
          '' is reserved for the automatic help flag.''))
      else if prefix ''no-'' (ad_name arg) then
        Inl (Invalid_argument (''argument name cannot start with '' @ [SQUOTE] @ ''no-'' @ [SQUOTE] @
          ''. this prefix is reserved for automatic negation flags.''))
      else if list_ex (\<lambda>al. al \<noteq> [] \<and> prefix ''--no-'' al) (ad_aliases arg) then
        Inl (Invalid_argument (''alias cannot start with '' @ [SQUOTE] @ ''--no-'' @ [SQUOTE] @
          ''. this prefix is reserved for automatic negation flags.''))
      else
        let final_default_value =
              (if ad_type arg = ArgType_Flag \<and> is_none (ad_default_value arg)
               then mk_argument (ValueBool False) else ad_default_value arg)
        in if list_ex (\<lambda>existing. ad_name existing = ad_name arg) args then
             Inl (Invalid_argument (''argument name '' @ [SQUOTE] @ ad_name arg @ [SQUOTE] @ '' already exists.''))
           else
             case List.find (\<lambda>(al, al'). al \<noteq> [] \<and> al = al')
                    (concat (map (\<lambda>existing. List.product (ad_aliases arg) (ad_aliases existing)) args)) of
               Some (al, _) \<Rightarrow>
                 Inl (Invalid_argument (''alias '' @ [SQUOTE] @ al @ [SQUOTE] @ '' already exists.''))
             | None \<Rightarrow>
                 let args' = args @ [arg\<lparr>ad_default_value := final_default_value\<rparr>]
                 in if ad_type arg = ArgType_Flag \<and> get_bool final_default_value = Some True then
                      if list_ex (\<lambda>existing. ad_name existing = ''no-'' @ ad_name arg) args' then
                        Inl (Invalid_argument (''automatic negation flag name '' @ [SQUOTE] @ ''no-'' @
                          ad_name arg @ [SQUOTE] @ '' conflicts with an existing argument.''))
                      else Inr (args' @ [negation_argument (ad_name arg)])
                    else Inr args')"

definition cmd_register_argument :: "'d argument_def \<Rightarrow> 'd command \<Rightarrow> 'd command result" where
  "cmd_register_argument arg c =
     bind_result (register_argument arg (cmd_args c)) (\<lambda>args. Inr (update_args (\<lambda>_. args) c))"

definition add_arg ::
    "string \<Rightarrow> string list \<Rightarrow> string \<Rightarrow> arg_type \<Rightarrow> bool \<Rightarrow> bool \<Rightarrow> 'd argument \<Rightarrow> bool \<Rightarrow> bool \<Rightarrow>
     'd command \<Rightarrow> 'd command result" where
  "add_arg name aliases help type positional required default_value hidden coerce c =
     cmd_register_argument
       ((mk_argument_def name aliases help type positional required default_value False)
          \<lparr>ad_hidden := hidden, ad_coerce_as_string := coerce\<rparr>) c"

definition add_keyword_arg ::
    "string \<Rightarrow> string list \<Rightarrow> string \<Rightarrow> arg_type \<Rightarrow> bool \<Rightarrow> 'd argument \<Rightarrow> bool \<Rightarrow> 'd command \<Rightarrow> 'd command result" where
  "add_keyword_arg name aliases help type required default_value coerce c =
     add_arg name aliases help type False required default_value False coerce c"

definition add_positional_arg ::
    "string \<Rightarrow> string \<Rightarrow> arg_type \<Rightarrow> bool \<Rightarrow> 'd argument \<Rightarrow> bool \<Rightarrow> 'd command \<Rightarrow> 'd command result" where
  "add_positional_arg name help type required default_value coerce c =
     (if type = ArgType_Flag then Inl (Invalid_argument ''positional arguments cannot be flags.'')
      else add_arg name [] help type True required default_value False coerce c)"

definition add_keyword_arg_tpl :: "'d arg_template \<Rightarrow> 'd command \<Rightarrow> 'd command result" where
  "add_keyword_arg_tpl tpl c = cmd_register_argument (argument_factory_create tpl False) c"

definition add_positional_arg_tpl :: "'d arg_template \<Rightarrow> 'd command \<Rightarrow> 'd command result" where
  "add_positional_arg_tpl tpl c =
     (if at_type tpl = ArgType_Flag then Inl (Invalid_argument ''positional arguments cannot be flags.'')
      else cmd_register_argument (argument_factory_create tpl True) c)"


subsection \<open>The command tree\<close>

definition new_command :: "string \<Rightarrow> string \<Rightarrow> 'd command" where
  "new_command name help =
     Command \<lparr>m_name = name, m_help = help,
       m_args = ensure_json_argument True (ensure_help_argument []),
       m_aliases = [], m_examples = [],
       m_dynamic = \<lparr>dk_keyword_type = ArgType_Flag, dk_description = [], dk_placeholder = []\<rparr>,
       m_handler = None, m_allow_dynamic_keywords = False, m_allow_passthrough = False,
       m_privileged = False, m_json_registered = True, m_json_capture = True,
       m_stdout_is_payload = False, m_passthrough_description = [], m_pre_hooks_set = False\<rparr> []"

fun set_privileged :: "bool \<Rightarrow> 'd command \<Rightarrow> 'd command" where
  "set_privileged b (Command i subs) =
     Command (i\<lparr>m_privileged := b\<rparr>) (map (\<lambda>(n, c). (n, set_privileged b c)) subs)"

fun set_pre_hooks :: "'d command \<Rightarrow> 'd command" where
  "set_pre_hooks (Command i subs) =
     Command (i\<lparr>m_pre_hooks_set := True\<rparr>) (map (\<lambda>(n, c). (n, set_pre_hooks c)) subs)"

definition add_example :: "string \<Rightarrow> string \<Rightarrow> 'd command \<Rightarrow> 'd command" where
  "add_example title command =
     update_info (\<lambda>i. i\<lparr>m_examples := m_examples i @ [\<lparr>ex_title = title, ex_command = command\<rparr>]\<rparr>)"

definition enable_dynamic_keywords :: "arg_type \<Rightarrow> string \<Rightarrow> string \<Rightarrow> 'd command \<Rightarrow> 'd command result" where
  "enable_dynamic_keywords dynamic_type placeholder description c =
     (if dynamic_type = ArgType_Flag then
        Inl (Invalid_argument ''dynamic keyword arguments cannot be configured as flags.'')
      else Inr (update_info (\<lambda>i. i\<lparr>m_allow_dynamic_keywords := True,
             m_dynamic := \<lparr>dk_keyword_type = dynamic_type, dk_description = description,
                           dk_placeholder = placeholder\<rparr>\<rparr>) c))"

definition enable_passthrough :: "string \<Rightarrow> 'd command \<Rightarrow> 'd command" where
  "enable_passthrough description =
     update_info (\<lambda>i. i\<lparr>m_allow_passthrough := True, m_passthrough_description := description\<rparr>)"

definition mark_stdout_as_payload :: "'d command \<Rightarrow> 'd command" where
  "mark_stdout_as_payload = update_info (\<lambda>i. i\<lparr>m_stdout_is_payload := True\<rparr>)"

definition disable_json_output :: "'d command \<Rightarrow> 'd command" where
  "disable_json_output = update_info (\<lambda>i. i\<lparr>m_json_registered := False, m_json_capture := False,
     m_args := filter (\<lambda>arg. \<not> ad_is_json_flag arg) (m_args i)\<rparr>)"

definition disable_json_capture :: "'d command \<Rightarrow> 'd command" where
  "disable_json_capture = update_info (\<lambda>i. i\<lparr>m_json_capture := False\<rparr>)"

definition set_handler :: "'d command_handler \<Rightarrow> 'd command \<Rightarrow> 'd command" where
  "set_handler h = update_info (\<lambda>i. i\<lparr>m_handler := Some h\<rparr>)"

definition add_alias :: "string \<Rightarrow> 'd command \<Rightarrow> 'd command result" where
  "add_alias al c =
     (if al = cmd_name c then
        Inl (Invalid_argument (''alias cannot be the same as the command name '' @ [SQUOTE] @ cmd_name c @
          [SQUOTE] @ ''.''))
      else Inr (update_info (\<lambda>i. i\<lparr>m_aliases := m_aliases i @ [al]\<rparr>) c))"

text \<open>
  The checks of \<open>add_command\<close> against one command that is already registered: its aliases against
  the new name, then its name and aliases against each new alias.
\<close>

definition sibling_conflict :: "string \<Rightarrow> string list \<Rightarrow> string \<times> 'd command \<Rightarrow> exn option" where
  "sibling_conflict sub_name aliases pair =
     (if has_alias (snd pair) sub_name then
        Some (Invalid_argument (''subcommand name '' @ [SQUOTE] @ sub_name @ [SQUOTE] @
          '' conflicts with an existing alias.''))
      else case List.find (\<lambda>al. fst pair = al \<or> has_alias (snd pair) al) aliases of
        Some al \<Rightarrow> Some (Invalid_argument (''subcommand alias '' @ [SQUOTE] @ al @ [SQUOTE] @
          '' conflicts with an existing name or alias.''))
      | None \<Rightarrow> None)"

fun first_conflict :: "string \<Rightarrow> string list \<Rightarrow> (string \<times> 'd command) list \<Rightarrow> exn option" where
  "first_conflict sub_name aliases [] = None"
| "first_conflict sub_name aliases (p # ps) =
     (case sibling_conflict sub_name aliases p of Some e \<Rightarrow> Some e | None \<Rightarrow> first_conflict sub_name aliases ps)"

definition add_command :: "'d command option \<Rightarrow> 'd command \<Rightarrow> 'd command result" where
  "add_command sub c =
     (case sub of
        None \<Rightarrow> Inr c
      | Some sub0 \<Rightarrow>
          let sub1 = update_info (\<lambda>i. i\<lparr>m_args := ensure_json_argument (m_json_registered i)
                                          (ensure_help_argument (m_args i))\<rparr>) sub0;
              sub2 = (if m_privileged (cmd_info c) then set_privileged True sub1 else sub1);
              sub3 = (if m_pre_hooks_set (cmd_info c) then set_pre_hooks sub2 else sub2);
              sub_name = cmd_name sub3
          in if map_has (m_commands c) sub_name then
               Inl (Invalid_argument (''subcommand name '' @ [SQUOTE] @ sub_name @ [SQUOTE] @ '' already exists.''))
             else (case first_conflict sub_name (cmd_aliases sub3) (m_commands c) of
               Some e \<Rightarrow> Inl e
             | None \<Rightarrow>
                 if sub_name \<in> set (cmd_aliases sub3) then
                   Inl (Invalid_argument (''subcommand alias '' @ [SQUOTE] @ sub_name @ [SQUOTE] @
                     '' cannot be the same as its name '' @ [SQUOTE] @ sub_name @ [SQUOTE] @ ''.''))
                 else Inr (Command (cmd_info c) (map_set sub_name sub3 (m_commands c)))))"

section \<open>Help text\<close>

text \<open>\<open>std::left << std::setw(w) << s\<close>.\<close>

definition pad_right :: "nat \<Rightarrow> string \<Rightarrow> string" where
  "pad_right w s = s @ replicate (w - length s) SPACE"

definition max_list :: "nat list \<Rightarrow> nat" where
  "max_list ns = fold max ns 0"

definition dynamic_placeholder :: "string \<Rightarrow> dynamic_kw \<Rightarrow> string" where
  "dynamic_placeholder many d =
     (if dk_keyword_type d = ArgType_Multiple then ''--<'' @ dk_placeholder d @ ''> '' @ many
      else ''--<'' @ dk_placeholder d @ ''> '' @ ''<value>'')"

definition cmd_width :: "string \<times> 'd command \<Rightarrow> nat" where
  "cmd_width p =
     (let aliases = cmd_aliases (snd p)
      in if aliases \<noteq> [] then length (fst p) + 3 + sum_list (map length aliases) + 2 * (length aliases - 1)
         else length (fst p))"

definition cmd_display :: "string \<times> 'd command \<Rightarrow> string" where
  "cmd_display p =
     (let aliases = cmd_aliases (snd p)
      in if aliases \<noteq> [] then fst p @ '' ('' @ join '', '' aliases @ '')'' else fst p)"

definition full_command_path :: "string \<Rightarrow> string \<Rightarrow> string" where
  "full_command_path command_path_prefix name =
     (if command_path_prefix \<noteq> [] \<and> last command_path_prefix \<noteq> SPACE
      then command_path_prefix @ '' '' @ name
      else command_path_prefix @ name)"

definition positional_usage :: "'d argument_def list \<Rightarrow> string" where
  "positional_usage pos_args =
     concat (map (\<lambda>a. '' '' @ (if ad_required a then ''<'' else ''['') @ ad_name a @
       (if ad_required a then ''>'' else '']'') @ (if ad_type a = ArgType_Multiple then ''...'' else [])) pos_args)"

definition default_text :: "'d fp_ops \<Rightarrow> 'd argument \<Rightarrow> string" where
  "default_text fp v = '' (default: '' @ argument_print fp v @ '')''"

definition help_positional :: "'d fp_ops \<Rightarrow> nat \<Rightarrow> 'd argument_def \<Rightarrow> string" where
  "help_positional fp w a =
     ''  '' @ pad_right w (ad_name a) @ ad_help a @
     (if \<not> is_none (ad_default_value a) then default_text fp (ad_default_value a) else []) @
     (if \<not> ad_required a then '' [optional]'' else []) @ [NL]"

definition help_keyword :: "'d fp_ops \<Rightarrow> nat \<Rightarrow> 'd argument_def \<Rightarrow> string" where
  "help_keyword fp w a =
     (if ad_hidden a then []
      else ''  '' @ pad_right w (get_display_name a) @ ad_help a @
        (if \<not> is_none (ad_default_value a) \<and> get_bool (ad_default_value a) \<noteq> Some False
         then default_text fp (ad_default_value a) else []) @
        (if ad_required a then '' [required]'' else []) @ [NL])"

definition generate_help :: "'d fp_ops \<Rightarrow> 'd command \<Rightarrow> string \<Rightarrow> string" where
  "generate_help fp c command_path_prefix =
     (let i = cmd_info c;
          pos_args = filter ad_positional (m_args i);
          kw_args = filter (\<lambda>a. \<not> ad_positional a) (m_args i);
          visible = filter (\<lambda>a. \<not> ad_hidden a);
          max_pos_arg_width = max_list (map (\<lambda>a. length (ad_name a)) (visible pos_args)) + 2;
          max_kw = max_list (map (\<lambda>a. length (get_display_name a)) (visible kw_args));
          max_kw_arg_width = (if m_allow_dynamic_keywords i
            then max max_kw (length (c_str (dynamic_placeholder ''<value...>'' (m_dynamic i)))) else max_kw) + 2;
          max_cmd_width = max_list (map cmd_width (m_commands c)) + 2;
          full_path = full_command_path command_path_prefix (m_name i)
      in ''Usage: '' @ full_path @
         (if m_commands c \<noteq> [] then '' <command>'' else []) @
         positional_usage pos_args @
         (if kw_args \<noteq> [] \<or> m_allow_dynamic_keywords i then '' [options]'' else []) @
         (if m_allow_passthrough i then '' [-- <passthrough_args>...]'' else []) @ [NL, NL] @
         (if m_help i \<noteq> [] then m_help i @ [NL, NL] else []) @
         (if pos_args \<noteq> []
          then ''Arguments:'' @ [NL] @ concat (map (help_positional fp max_pos_arg_width) pos_args) @ [NL] else []) @
         (if kw_args \<noteq> [] \<or> m_allow_dynamic_keywords i
          then ''Options:'' @ [NL] @ concat (map (help_keyword fp max_kw_arg_width) kw_args) @
            (if m_allow_dynamic_keywords i
             then ''  '' @ pad_right max_kw_arg_width (dynamic_placeholder ''<values...>'' (m_dynamic i)) @
               dk_description (m_dynamic i) @ [NL] else []) @ [NL]
          else []) @
         (if m_allow_passthrough i
          then ''Passthrough:'' @ [NL] @ ''  --                    '' @ m_passthrough_description i @ [NL] @
            ''                        All arguments after -- are passed through without parsing.'' @ [NL, NL]
          else []) @
         (if m_commands c \<noteq> []
          then ''Commands:'' @ [NL] @
            concat (map (\<lambda>p. ''  '' @ pad_right max_cmd_width (cmd_display p) @ m_help (cmd_info (snd p)) @ [NL])
              (m_commands c)) @
            [NL] @ ''Run '' @ [SQUOTE] @ full_path @ '' <command> --help'' @ [SQUOTE] @
            '' for more information on a command.'' @ [NL]
          else []) @
         (if m_examples i \<noteq> []
          then ''Examples:'' @ [NL, NL] @
            concat (map (\<lambda>e. ''   - '' @ ex_title e @ '':'' @ [NL, NL] @ ''      $ '' @ ex_command e @ [NL, NL])
              (m_examples i))
          else []))"

section \<open>Bash completion\<close>

definition completion_words :: "'d command \<Rightarrow> string list" where
  "completion_words c = concat (map (\<lambda>(n, sub). n # cmd_aliases sub) (m_commands c))"

definition completion_options :: "'d command \<Rightarrow> string list" where
  "completion_options c = concat (map (\<lambda>a.
     if ad_positional a then []
     else ad_aliases a @
       (if ad_name a \<noteq> [] \<and> (''--'' @ ad_name a) \<notin> set (ad_aliases a) then [''--'' @ ad_name a] else []))
     (cmd_args c))"

definition bash_array :: "string \<Rightarrow> string \<Rightarrow> string list \<Rightarrow> string" where
  "bash_array arr_name pfx words =
     arr_name @ (if pfx \<noteq> [] then ''_'' @ pfx else []) @ ''=( '' @
     concat (map (\<lambda>w. [SQUOTE] @ w @ [SQUOTE] @ '' '') words) @ '')'' @ [NL]"

fun emit_command_tree :: "'d command \<Rightarrow> string \<Rightarrow> string" where
  "emit_command_tree (Command i subs) pfx =
     bash_array ''_parser_cmds'' pfx (completion_words (Command i subs)) @
     bash_array ''_parser_opts'' pfx (completion_options (Command i subs)) @
     concat (map (\<lambda>(n, sub). emit_command_tree sub (if pfx = [] then n else pfx @ ''_'' @ n)) subs)"


section \<open>The registration invariant\<close>

text \<open>
  Argument names are distinct, no alias belongs to two arguments, the reserved prefix is only used
  by the generated negation of a flag that is on by default, and every flag has a default.
\<close>

definition aliases_disjoint :: "'d argument_def \<Rightarrow> 'd argument_def \<Rightarrow> bool" where
  "aliases_disjoint a b \<longleftrightarrow> (\<forall>al \<in> set (ad_aliases a). al \<noteq> [] \<longrightarrow> al \<notin> set (ad_aliases b))"

definition negated_by :: "'d argument_def \<Rightarrow> 'd argument_def \<Rightarrow> bool" where
  "negated_by a b \<longleftrightarrow> ad_name b = ''no-'' @ ad_name a \<and> ad_type a = ArgType_Flag \<and>
     get_bool (ad_default_value a) = Some True"

definition args_inv :: "'d argument_def list \<Rightarrow> bool" where
  "args_inv args \<longleftrightarrow>
     distinct (map ad_name args) \<and> sorted_wrt aliases_disjoint args \<and>
     (\<forall>b \<in> set args. prefix ''no-'' (ad_name b) \<longrightarrow> (\<exists>a \<in> set args. negated_by a b)) \<and>
     (\<forall>a \<in> set args. ad_type a = ArgType_Flag \<longrightarrow> \<not> is_none (ad_default_value a))"

lemma aliases_disjoint_sym: "aliases_disjoint a b \<longleftrightarrow> aliases_disjoint b a"
  by (auto simp: aliases_disjoint_def)

lemma args_inv_append1:
  assumes "args_inv args" and "\<forall>b \<in> set args. ad_name b \<noteq> ad_name a"
    and "\<forall>b \<in> set args. aliases_disjoint b a"
    and "prefix ''no-'' (ad_name a) \<Longrightarrow> \<exists>b \<in> set args. negated_by b a"
    and "ad_type a = ArgType_Flag \<Longrightarrow> \<not> is_none (ad_default_value a)"
  shows "args_inv (args @ [a])"
  using assms by (auto simp: args_inv_def sorted_wrt_append)

lemma args_inv_new [inv_rules]: "args_inv (ensure_json_argument True (ensure_help_argument []))"
  by (simp add: args_inv_def ensure_help_argument_def ensure_json_argument_def help_argument_def
      json_argument_def mk_argument_def_def aliases_disjoint_def is_none_def mk_argument_def)

lemma args_inv_json [inv_rules]:
  assumes "args_inv args"
  shows "args_inv (ensure_json_argument reg args)"
proof (cases "ensure_json_argument reg args = args")
  case False
  then have "\<forall>b \<in> set args. aliases_disjoint b json_argument"
    and "\<forall>b \<in> set args. ad_name b \<noteq> ''json''"
    by (auto simp: ensure_json_argument_def aliases_disjoint_def json_argument_def mk_argument_def_def
        list_ex_iff split: if_splits)
  with assms False show ?thesis
    by (auto simp: ensure_json_argument_def json_argument_def mk_argument_def_def is_none_def mk_argument_def
        split: if_splits intro!: args_inv_append1)
qed (use assms in simp)

lemma args_inv_help [inv_rules]:
  "args_inv args \<Longrightarrow> \<exists>a \<in> set args. ad_name a = ''help'' \<Longrightarrow> args_inv (ensure_help_argument args)"
  by (simp add: ensure_help_argument_def list_ex_iff)

text \<open>Which registrations are accepted, without reference to the order of the checks.\<close>

definition registrable :: "'d argument_def \<Rightarrow> 'd argument_def list \<Rightarrow> bool" where
  "registrable arg args \<longleftrightarrow>
     ad_name arg \<noteq> ''help'' \<and> \<not> prefix ''no-'' (ad_name arg) \<and>
     (\<forall>al \<in> set (ad_aliases arg). \<not> prefix ''--no-'' al) \<and>
     (\<forall>b \<in> set args. ad_name b \<noteq> ad_name arg \<and> aliases_disjoint arg b)"

definition normalized_arg :: "'d argument_def \<Rightarrow> 'd argument_def" where
  "normalized_arg arg = arg\<lparr>ad_default_value :=
     (if ad_type arg = ArgType_Flag \<and> is_none (ad_default_value arg)
      then mk_argument (ValueBool False) else ad_default_value arg)\<rparr>"

definition registered_args :: "'d argument_def \<Rightarrow> 'd argument_def list \<Rightarrow> 'd argument_def list" where
  "registered_args arg args =
     args @ [normalized_arg arg] @
     (if negated_by (normalized_arg arg) (negation_argument (ad_name arg)) then [negation_argument (ad_name arg)] else [])"

lemma alias_clash_find:
  "List.find (\<lambda>(al, al'). al \<noteq> [] \<and> al = al')
     (concat (map (\<lambda>existing. List.product (ad_aliases arg) (ad_aliases existing)) args)) = None \<longleftrightarrow>
   (\<forall>b \<in> set args. aliases_disjoint arg b)"
  by (auto simp: find_None_iff aliases_disjoint_def)

lemma negation_fresh:
  assumes "args_inv args" and "\<forall>b \<in> set args. ad_name b \<noteq> ad_name arg" and "\<not> prefix ''no-'' (ad_name arg)"
    and "b \<in> set args"
  shows "ad_name b \<noteq> ''no-'' @ ad_name arg"
proof
  assume b: "ad_name b = ''no-'' @ ad_name arg"
  then obtain a where "a \<in> set args" "negated_by a b" using assms(1,4) by (auto simp: args_inv_def)
  then show False using b assms(2) by (auto simp: negated_by_def)
qed

lemma normalized_simps [simp]:
  "ad_name (normalized_arg arg) = ad_name arg" "ad_type (normalized_arg arg) = ad_type arg"
  "ad_aliases (normalized_arg arg) = ad_aliases arg"
  by (simp_all add: normalized_arg_def)

lemma negation_simps [simp]:
  "ad_name (negation_argument n) = ''no-'' @ n" "ad_aliases (negation_argument n) = []"
  "ad_type (negation_argument n) = ArgType_Flag"
  "ad_default_value (negation_argument n) = mk_argument (ValueBool False)"
  by (simp_all add: negation_argument_def mk_argument_def_def)

lemma is_none_bool [simp]: "\<not> is_none (mk_argument (ValueBool b))"
  by (simp add: is_none_def mk_argument_def)

lemma no_prefix_nonempty: "al \<noteq> [] \<and> prefix ''--no-'' al \<longleftrightarrow> prefix ''--no-'' al"
  by auto

lemma register_argument_eq:
  assumes "args_inv args"
  shows "register_argument arg args = Inr args' \<longleftrightarrow> registrable arg args \<and> args' = registered_args arg args"
proof (cases "registrable arg args")
  case True
  then have ok: "ad_name arg \<noteq> ''help''" "\<not> prefix ''no-'' (ad_name arg)"
    "\<not> list_ex (\<lambda>al. al \<noteq> [] \<and> prefix ''--no-'' al) (ad_aliases arg)"
    "\<not> list_ex (\<lambda>existing. ad_name existing = ad_name arg) args"
    "List.find (\<lambda>(al, al'). al \<noteq> [] \<and> al = al')
     (concat (map (\<lambda>existing. List.product (ad_aliases arg) (ad_aliases existing)) args)) = None"
    by (auto simp: registrable_def list_ex_iff alias_clash_find)
  have "\<not> list_ex (\<lambda>existing. ad_name existing = ''no-'' @ ad_name arg) (args @ [normalized_arg arg])"
    using negation_fresh [OF assms _ ok(2)] True by (auto simp: list_ex_iff registrable_def)
  then have "register_argument arg args = Inr (registered_args arg args)"
    unfolding register_argument_def Let_def normalized_arg_def [symmetric]
    by (simp only: ok if_False option.case) (simp add: registered_args_def negated_by_def normalized_arg_def)
  with True show ?thesis by auto
next
  case False
  have "ad_name arg = ''help'' \<or> prefix ''no-'' (ad_name arg) \<or>
      list_ex (\<lambda>al. al \<noteq> [] \<and> prefix ''--no-'' al) (ad_aliases arg) \<or>
      list_ex (\<lambda>existing. ad_name existing = ad_name arg) args \<or>
      List.find (\<lambda>(al, al'). al \<noteq> [] \<and> al = al')
       (concat (map (\<lambda>existing. List.product (ad_aliases arg) (ad_aliases existing)) args)) \<noteq> None"
    using False by (simp only: alias_clash_find no_prefix_nonempty) (auto simp: registrable_def list_ex_iff)
  then have "register_argument arg args \<noteq> Inr args'"
    unfolding register_argument_def Let_def
    by (auto split del: if_split split: option.split if_split_asm)
  with False show ?thesis by simp
qed

lemma args_inv_register [inv_rules]:
  assumes "args_inv args" and "registrable arg args"
  shows "args_inv (registered_args arg args)"
proof -
  have 1: "args_inv (args @ [normalized_arg arg])"
    using assms by (intro args_inv_append1) (auto simp: registrable_def aliases_disjoint_def normalized_arg_def)
  have n: "args_inv ((args @ [normalized_arg arg]) @ [negation_argument (ad_name arg)])"
    if "negated_by (normalized_arg arg) (negation_argument (ad_name arg))"
  proof (rule args_inv_append1 [OF 1])
    show "\<forall>b \<in> set (args @ [normalized_arg arg]). ad_name b \<noteq> ad_name (negation_argument (ad_name arg))"
      using negation_fresh [OF assms(1), of arg] assms(2) by (auto simp: registrable_def)
  qed (use that in \<open>auto simp: aliases_disjoint_def\<close>)
  show ?thesis using 1 n by (simp add: registered_args_def)
qed

text \<open>
  C13. Registering an argument on a command that satisfies the registration invariant succeeds exactly
  when its name and aliases are not reserved and not taken; then the command has the argument, a flag
  without a default defaults to off, a flag that is on by default gets its negation flag, and the
  invariant holds again. In particular the generated negation never clashes.
\<close>

theorem register_argument_correct:
  assumes "args_inv args"
  shows "(\<exists>args'. register_argument arg args = Inr args') = registrable arg args \<and>
    (registrable arg args \<longrightarrow>
       register_argument arg args = Inr (registered_args arg args) \<and> args_inv (registered_args arg args))"
  using register_argument_eq [OF assms] args_inv_register [OF assms] by blast

text \<open>A flag that is on by default.\<close>

definition colour_arg :: "unit argument_def" where
  "colour_arg = (argument_builder ''colour'')\<lparr>ad_default_value := mk_argument (ValueBool True)\<rparr>"

theorem register_argument_correct_witness:
  "map ad_name (projr (register_argument colour_arg (ensure_json_argument True (ensure_help_argument [])))) =
     [''help'', ''json'', ''colour'', ''no-colour'']"
proof -
  have "registrable colour_arg (ensure_json_argument True (ensure_help_argument []))"
    "negated_by (normalized_arg colour_arg) (negation_argument (ad_name colour_arg))"
    by (simp_all add: registrable_def colour_arg_def argument_builder_def ensure_help_argument_def
        ensure_json_argument_def help_argument_def json_argument_def mk_argument_def_def aliases_disjoint_def
        negated_by_def normalized_arg_def negation_argument_def is_none_def mk_argument_def get_bool_def)
  with register_argument_correct [OF args_inv_new, of colour_arg] show ?thesis
    by (simp add: registered_args_def ensure_help_argument_def ensure_json_argument_def help_argument_def
        json_argument_def mk_argument_def_def colour_arg_def argument_builder_def)
qed

end
