(* ===== verification/Command_Parse.thy ===== *)
theory Command_Parse
  imports Command
begin

text \<open>
  \<open>ParseResult\<close> and \<open>Command::parse\<close> of \<open>native/c/parser.hpp\<close>. One iteration of the parsing loop is
  a function \<open>parse_step\<close>, put together from one definition per branch of the source; the loop itself
  may not end (a positional argument of type flag is never consumed), so it is a partial function
  into \<open>option\<close>. The call of a subcommand's \<open>parse\<close> is a tail call, so it is a step of the same
  loop. What is printed on \<open>std::cout\<close> and \<open>std::cerr\<close> is kept in the result.
\<close>

section \<open>Results\<close>

datatype parser_status = ParserStatus_Success | ParserStatus_HelpRequested | ParserStatus_ParseError

record 'd parse_result =
  pr_status :: parser_status
  pr_exit_code :: int
  pr_error_message :: string
  pr_command_path :: string
  pr_values :: "'d argument_map"
  pr_dynamic_values :: "'d argument_map"
  pr_passthrough_args :: "string list"
  pr_command :: "'d command option"
  pr_json_requested :: bool
  pr_json_suppressed :: bool
  pr_json_data :: "'d ast option"
  pr_json_stdout :: string
  pr_json_stderr :: string
  pr_json_stdout_is_payload :: bool
  pr_json_output :: string
  pr_cout :: string
  pr_cerr :: string

definition empty_result :: "'d parse_result" where
  "empty_result =
     \<lparr>pr_status = ParserStatus_Success, pr_exit_code = 0, pr_error_message = [], pr_command_path = [],
      pr_values = [], pr_dynamic_values = [], pr_passthrough_args = [], pr_command = None,
      pr_json_requested = False, pr_json_suppressed = False, pr_json_data = None, pr_json_stdout = [],
      pr_json_stderr = [], pr_json_stdout_is_payload = False, pr_json_output = [], pr_cout = [], pr_cerr = []\<rparr>"

definition pr_has :: "'d parse_result \<Rightarrow> string \<Rightarrow> bool" where
  "pr_has r name \<longleftrightarrow> map_has (pr_values r) name"

definition pr_get :: "('d argument \<Rightarrow> 't option) \<Rightarrow> 'd parse_result \<Rightarrow> string \<Rightarrow> 't option" where
  "pr_get getter r name = (case map_find (pr_values r) name of None \<Rightarrow> None | Some a \<Rightarrow> getter a)"

text \<open>The default of the command's definition of that name, which both forms of \<open>get_value\<close> consult.\<close>

definition pr_command_default :: "('d argument \<Rightarrow> 't option) \<Rightarrow> 'd parse_result \<Rightarrow> string \<Rightarrow> 't option" where
  "pr_command_default getter r name =
     (case pr_command r of
        None \<Rightarrow> None
      | Some c \<Rightarrow> (case List.find (\<lambda>a. ad_name a = name) (cmd_args c) of
                    None \<Rightarrow> None
                  | Some a \<Rightarrow> getter (ad_default_value a)))"

definition pr_get_value :: "('d argument \<Rightarrow> 't option) \<Rightarrow> 'd parse_result \<Rightarrow> string \<Rightarrow> 't \<Rightarrow> 't" where
  "pr_get_value getter r name default_value =
     (case pr_get getter r name of
        Some v \<Rightarrow> v
      | None \<Rightarrow> (case pr_command_default getter r name of Some v \<Rightarrow> v | None \<Rightarrow> default_value))"

definition pr_get_value_bool :: "'d parse_result \<Rightarrow> string \<Rightarrow> bool \<Rightarrow> bool" where
  "pr_get_value_bool r name default_value =
     (if pr_has r (''no-'' @ name) then False
      else case pr_get get_bool r name of
        Some v \<Rightarrow> v
      | None \<Rightarrow> (case pr_command_default get_bool r name of Some v \<Rightarrow> v | None \<Rightarrow> default_value))"

section \<open>Helpers of the parser\<close>

definition execute_pre_hooks :: "('d command \<Rightarrow> bool \<Rightarrow> bool) list \<Rightarrow> 'd command \<Rightarrow> bool \<Rightarrow> bool" where
  "execute_pre_hooks hooks c is_help_request =
     (if m_pre_hooks_set (cmd_info c) then list_all (\<lambda>hook. hook c is_help_request) hooks else True)"

definition is_flag_kind :: "'d token \<Rightarrow> bool" where
  "is_flag_kind t \<longleftrightarrow> tok_kind t = TokFlagShort \<or> tok_kind t = TokFlagLong"

definition is_flag_token :: "'d token list \<Rightarrow> nat \<Rightarrow> bool" where
  "is_flag_token tokens idx = (if idx \<ge> length tokens then False else is_flag_kind (tokens ! idx))"

definition alias_matches :: "string \<Rightarrow> bool \<Rightarrow> string \<Rightarrow> bool" where
  "alias_matches flag_name is_short al =
     (if is_short then length al = 2 \<and> al ! 0 = CHR ''-'' \<and> drop 1 al = flag_name
      else length al > 2 \<and> take 2 al = ''--'' \<and> drop 2 al = flag_name)"

definition find_keyword_arg :: "'d argument_def list \<Rightarrow> string \<Rightarrow> bool \<Rightarrow> 'd argument_def option" where
  "find_keyword_arg args flag_name is_short =
     List.find (\<lambda>arg. \<not> ad_positional arg \<and>
       (ad_name arg = flag_name \<or> list_ex (alias_matches flag_name is_short) (ad_aliases arg))) args"

definition id_value :: "'d token \<Rightarrow> string" where
  "id_value t = (case get_id_value t of Inr s \<Rightarrow> s | Inl _ \<Rightarrow> [])"

definition str_value :: "'d token \<Rightarrow> string" where
  "str_value t = (case get_str_lit_value t of Inr s \<Rightarrow> s | Inl _ \<Rightarrow> [])"

definition coerce_numeric_to_str :: "'d fp_ops \<Rightarrow> 'd token \<Rightarrow> 'd value_kind \<Rightarrow> bool \<Rightarrow> 'd argument" where
  "coerce_numeric_to_str fp t native_val prefer_string =
     mk_argument (if prefer_string then ValueString (token_print fp t) else native_val)"

definition parse_token_value :: "'d fp_ops \<Rightarrow> 'd token \<Rightarrow> arg_type \<Rightarrow> bool \<Rightarrow> 'd argument" where
  "parse_token_value fp t expected_type coerce_as_string =
     (let kind = tok_kind t;
          expect_string = (expected_type = ArgType_Single \<or> expected_type = ArgType_Multiple);
          prefer_string = (expected_type = ArgType_Multiple \<or> coerce_as_string);
          none = mk_argument ValueNone
      in if expected_type = ArgType_Flag \<and> (kind = TokId \<or> kind = TokStrLit) then
           mk_argument (ValueBool ((if kind = TokId then id_value t else str_value t) = ''true''))
         else case (kind, tok_data t) of
           (TokIntLit, IntLit v _) \<Rightarrow>
             if expect_string then coerce_numeric_to_str fp t (ValueInt v) prefer_string else none
         | (TokFloatLit, FloatLit v _) \<Rightarrow>
             if expect_string then coerce_numeric_to_str fp t (ValueDouble v) prefer_string else none
         | (TokTrue, _) \<Rightarrow> mk_argument (if expect_string then ValueString ''true'' else ValueBool True)
         | (TokFalse, _) \<Rightarrow> mk_argument (if expect_string then ValueString ''false'' else ValueBool False)
         | (TokStrLit, _) \<Rightarrow> if expect_string then mk_argument (ValueString (str_value t)) else none
         | (TokId, _) \<Rightarrow> if expect_string then mk_argument (ValueString (id_value t)) else none
         | (TokTimes, _) \<Rightarrow> if expect_string then mk_argument (ValueString ''*'') else none
         | _ \<Rightarrow> none)"

text \<open>The loops that collect the values of an argument that takes several.\<close>

function collect_values :: "'d fp_ops \<Rightarrow> 'd token list \<Rightarrow> bool \<Rightarrow> nat \<Rightarrow> string list \<times> nat" where
  "collect_values fp tokens coerce idx =
     (if idx < length tokens \<and> \<not> is_flag_token tokens idx then
        case get_string (parse_token_value fp (tokens ! idx) ArgType_Multiple coerce) of
          Some s \<Rightarrow> let (vs, idx') = collect_values fp tokens coerce (idx + 1) in (s # vs, idx')
        | None \<Rightarrow> ([], idx)
      else ([], idx))"
  by pat_completeness auto
termination
  by (relation "measure (\<lambda>(fp, tokens, coerce, idx). length tokens - idx)") auto

declare collect_values.simps [simp del]

text \<open>Suggestions: the first candidate of least distance; \<^const>\<open>None\<close> stands for \<open>(size_t)-1\<close>.\<close>

definition better_match :: "string \<Rightarrow> string \<times> string \<Rightarrow> (nat \<times> string) option \<Rightarrow> (nat \<times> string) option" where
  "better_match word cand best =
     (let dist = levenshtein_distance word (fst cand)
      in case best of
           None \<Rightarrow> Some (dist, snd cand)
         | Some (best_dist, best_match) \<Rightarrow> if dist < best_dist then Some (dist, snd cand) else best)"

definition best_match :: "string \<Rightarrow> (string \<times> string) list \<Rightarrow> (nat \<times> string) option" where
  "best_match word cands = fold (better_match word) cands None"

text \<open>The candidates of an option: its name, and its aliases without the leading dashes.\<close>

definition option_candidates :: "'d argument_def list \<Rightarrow> (string \<times> string) list" where
  "option_candidates args =
     concat (map (\<lambda>a. if ad_positional a then []
       else (ad_name a, ''--'' @ ad_name a) # map (\<lambda>al. (dropWhile (\<lambda>c. c = CHR ''-'') al, al)) (ad_aliases a)) args)"

definition command_candidates :: "(string \<times> 'd command) list \<Rightarrow> (string \<times> string) list" where
  "command_candidates subs =
     concat (map (\<lambda>(n, c). (n, n) # map (\<lambda>al. (al, al)) (cmd_aliases c)) subs)"

definition suggestion_text :: "(nat \<times> string) option \<Rightarrow> string" where
  "suggestion_text best =
     (case best of
        Some (d, m) \<Rightarrow> if d \<le> 2 then ''Did you mean '' @ [SQUOTE] @ m @ [SQUOTE] @ ''?'' @ [NL, NL] else [NL]
      | None \<Rightarrow> [NL])"

section \<open>The parsing loop\<close>

record 'd parse_state =
  ps_index :: nat
  ps_pos_index :: nat
  ps_seen :: "bool smap"
  ps_result :: "'d parse_result"

text \<open>
  The outcome of an iteration: go on, leave the loop, return (with the token index as the caller
  sees it), or continue in a subcommand.
\<close>

datatype 'd step =
    Continue "'d parse_state"
  | Break "'d parse_state"
  | Return "exn + 'd parse_result" nat
  | Descend "'d command" string bool nat

text \<open>What all the error returns have in common, with the text printed after the message.\<close>

definition fail_with ::
    "'d fp_ops \<Rightarrow> 'd command \<Rightarrow> string \<Rightarrow> 'd parse_state \<Rightarrow> string \<Rightarrow> string \<Rightarrow> 'd parse_result" where
  "fail_with fp cmd pfx st msg after =
     (let r = ps_result st
      in r\<lparr>pr_status := ParserStatus_ParseError, pr_error_message := msg, pr_exit_code := 1,
           pr_cerr := pr_cerr r @ ''Error: '' @ msg @ [NL] @ after @ generate_help fp cmd pfx\<rparr>)"

definition parse_fail ::
    "'d fp_ops \<Rightarrow> 'd command \<Rightarrow> string \<Rightarrow> 'd parse_state \<Rightarrow> string \<Rightarrow> 'd step" where
  "parse_fail fp cmd pfx st msg = Return (Inr (fail_with fp cmd pfx st msg [NL])) (ps_index st)"

definition set_value :: "string \<Rightarrow> 'd argument \<Rightarrow> 'd parse_state \<Rightarrow> 'd parse_state" where
  "set_value name v st = st\<lparr>ps_result := (ps_result st)\<lparr>pr_values := map_set name v (pr_values (ps_result st))\<rparr>\<rparr>"

definition set_dynamic_value :: "string \<Rightarrow> 'd argument \<Rightarrow> 'd parse_state \<Rightarrow> 'd parse_state" where
  "set_dynamic_value name v st =
     st\<lparr>ps_result := (ps_result st)\<lparr>pr_dynamic_values := map_set name v (pr_dynamic_values (ps_result st))\<rparr>\<rparr>"

definition mark_seen :: "string \<Rightarrow> 'd parse_state \<Rightarrow> 'd parse_state" where
  "mark_seen name st = st\<lparr>ps_seen := map_set name True (ps_seen st)\<rparr>"

definition advance :: "'d parse_state \<Rightarrow> 'd parse_state" where
  "advance st = st\<lparr>ps_index := ps_index st + 1\<rparr>"

definition show_help_result :: "'d fp_ops \<Rightarrow> 'd command \<Rightarrow> string \<Rightarrow> 'd parse_result \<Rightarrow> 'd parse_result" where
  "show_help_result fp cmd pfx r =
     r\<lparr>pr_status := ParserStatus_HelpRequested, pr_exit_code := 0,
       pr_cout := pr_cout r @ generate_help fp cmd pfx\<rparr>"

definition step_passthrough ::
    "'d fp_ops \<Rightarrow> 'd command \<Rightarrow> string \<Rightarrow> 'd token list \<Rightarrow> 'd parse_state \<Rightarrow> 'd step" where
  "step_passthrough fp cmd pfx tokens st =
     (if \<not> m_allow_passthrough (cmd_info cmd) then
        parse_fail fp cmd pfx st (''unexpected delimiter '' @ [SQUOTE] @ ''--'' @ [SQUOTE] @
          ''. This command does not accept passthrough arguments.'')
      else
        let r = ps_result st
        in Break (st\<lparr>ps_index := length tokens,
             ps_result := r\<lparr>pr_passthrough_args :=
               pr_passthrough_args r @ map (token_print fp) (drop (ps_index st + 1) tokens)\<rparr>\<rparr>))"

text \<open>Combined short flags, one character at a time.\<close>

fun step_combined ::
    "'d fp_ops \<Rightarrow> 'd command \<Rightarrow> string \<Rightarrow> string \<Rightarrow> 'd parse_state \<Rightarrow> 'd step" where
  "step_combined fp cmd pfx [] st = Continue st"
| "step_combined fp cmd pfx (c # cs) st =
     (case find_keyword_arg (cmd_args cmd) [c] True of
        None \<Rightarrow> parse_fail fp cmd pfx st (''unknown option in combined flags: -'' @ [c])
      | Some arg \<Rightarrow>
          if ad_is_help_flag arg then Return (Inr (show_help_result fp cmd pfx (ps_result st))) (ps_index st)
          else if ad_type arg \<noteq> ArgType_Flag then
            parse_fail fp cmd pfx st (''option -'' @ [c] @ '' requires a value and cannot be combined.'')
          else step_combined fp cmd pfx cs
                 (set_value (ad_name arg) (mk_argument (ValueBool True)) (mark_seen (ad_name arg) st)))"

text \<open>A long flag the command does not define, when it allows dynamic keywords. \<open>st\<close> is past the flag.\<close>

definition step_dynamic ::
    "'d fp_ops \<Rightarrow> 'd command \<Rightarrow> string \<Rightarrow> 'd token list \<Rightarrow> string \<Rightarrow> 'd parse_state \<Rightarrow> 'd step" where
  "step_dynamic fp cmd pfx tokens flag_name st =
     (let idx = ps_index st;
          no_value = (idx \<ge> length tokens \<or> is_flag_token tokens idx)
      in case dk_keyword_type (m_dynamic (cmd_info cmd)) of
           ArgType_Single \<Rightarrow>
             if no_value then parse_fail fp cmd pfx st (''option --'' @ flag_name @ '' requires a value.'')
             else let v = parse_token_value fp (tokens ! idx) ArgType_Single False
                  in if is_none v then parse_fail fp cmd pfx st (''invalid value for option --'' @ flag_name)
                     else Continue (advance (set_dynamic_value flag_name (set_dynamic True v) st))
         | ArgType_Multiple \<Rightarrow>
             if no_value then
               parse_fail fp cmd pfx st (''option --'' @ flag_name @ '' requires at least one value.'')
             else let (vs, idx') = collect_values fp tokens False idx;
                      st' = st\<lparr>ps_index := idx'\<rparr>
                  in if vs = [] then parse_fail fp cmd pfx st' (''invalid value for option --'' @ flag_name)
                     else Continue (set_dynamic_value flag_name
                            (set_dynamic True (mk_argument (ValueList vs))) st')
         | ArgType_Flag \<Rightarrow>
             parse_fail fp cmd pfx st ''internal error: unsupported dynamic keyword configuration'')"

definition step_unknown_option ::
    "'d fp_ops \<Rightarrow> 'd command \<Rightarrow> string \<Rightarrow> string \<Rightarrow> bool \<Rightarrow> 'd parse_state \<Rightarrow> 'd step" where
  "step_unknown_option fp cmd pfx flag_name is_short st =
     Return (Inr (fail_with fp cmd pfx st
         (''unknown option: '' @ (if is_short then ''-'' else ''--'') @ flag_name)
         (suggestion_text (best_match flag_name (option_candidates (cmd_args cmd))))))
       (ps_index st)"

text \<open>The value of a matched option. \<open>st\<close> is past the flag token, which is marked as seen.\<close>

definition step_flag_value :: "'d fp_ops \<Rightarrow> 'd token list \<Rightarrow> 'd argument_def \<Rightarrow> 'd parse_state \<Rightarrow> 'd step" where
  "step_flag_value fp tokens arg st =
     (let idx = ps_index st;
          v = parse_token_value fp (tokens ! idx) ArgType_Flag False
      in if idx < length tokens \<and> \<not> is_flag_token tokens idx \<and> \<not> is_none v
         then Continue (set_value (ad_name arg) v (advance st))
         else Continue (set_value (ad_name arg) (mk_argument (ValueBool True)) st))"

definition step_option_value ::
    "'d fp_ops \<Rightarrow> 'd command \<Rightarrow> string \<Rightarrow> 'd token list \<Rightarrow> 'd argument_def \<Rightarrow> 'd parse_state \<Rightarrow> 'd step" where
  "step_option_value fp cmd pfx tokens arg st =
     (let idx = ps_index st
      in if idx \<ge> length tokens \<or> is_flag_kind (tokens ! idx) then
           parse_fail fp cmd pfx st (''option '' @ get_display_name arg @ '' requires a value.'')
         else
           let v = parse_token_value fp (tokens ! idx) (ad_type arg) (ad_coerce_as_string arg)
           in if is_none v then parse_fail fp cmd pfx st (''invalid value for option '' @ get_display_name arg)
              else if ad_type arg = ArgType_Single then Continue (advance (set_value (ad_name arg) v st))
              else
                case get_string v of
                  None \<Rightarrow> parse_fail fp cmd pfx st
                    (''internal error: expected string value for multiple option '' @ ad_name arg)
                | Some s \<Rightarrow>
                    let old = (case map_find (pr_values (ps_result st)) (ad_name arg) of
                                 Some a \<Rightarrow> (case get_string_vector a of Some l \<Rightarrow> l | None \<Rightarrow> [])
                               | None \<Rightarrow> []);
                        dyn = (case map_find (pr_values (ps_result st)) (ad_name arg) of
                                 Some a \<Rightarrow> if is_string_vector a then arg_dynamic a else False
                               | None \<Rightarrow> False);
                        (vs, idx') = collect_values fp tokens (ad_coerce_as_string arg) (idx + 1)
                    in Continue (set_value (ad_name arg)
                         \<lparr>arg_val = ValueList (old @ s # vs), arg_dynamic = dyn\<rparr> (st\<lparr>ps_index := idx'\<rparr>)))"

definition step_option ::
    "'d fp_ops \<Rightarrow> ('d command \<Rightarrow> bool \<Rightarrow> bool) list \<Rightarrow> 'd command \<Rightarrow> string \<Rightarrow> 'd token list \<Rightarrow> 'd token \<Rightarrow>
     'd parse_state \<Rightarrow> 'd step" where
  "step_option fp hooks cmd pfx tokens token st =
     (let flag_name = id_value token;
          is_short = (tok_kind token = TokFlagShort)
      in if is_short \<and> length flag_name > 1 then step_combined fp cmd pfx flag_name (advance st)
         else case find_keyword_arg (cmd_args cmd) flag_name is_short of
           None \<Rightarrow>
             if \<not> is_short \<and> m_allow_dynamic_keywords (cmd_info cmd)
             then step_dynamic fp cmd pfx tokens flag_name (advance st)
             else step_unknown_option fp cmd pfx flag_name is_short st
         | Some arg \<Rightarrow>
             if ad_is_help_flag arg then
               if \<not> execute_pre_hooks hooks cmd True
               then Return (Inr ((ps_result st)\<lparr>pr_exit_code := 1\<rparr>)) (ps_index st)
               else Return (Inr (show_help_result fp cmd pfx (ps_result st))) (ps_index st)
             else
               let st1 = mark_seen (ad_name arg) (advance st)
               in if ad_is_json_flag arg
                  then Continue (set_value (ad_name arg) (mk_argument (ValueBool True)) st1)
                  else if ad_type arg = ArgType_Flag then step_flag_value fp tokens arg st1
                  else step_option_value fp cmd pfx tokens arg st1)"

text \<open>The subcommand a word names: by its name, else by the aliases, which must match one only.\<close>

datatype 'd resolution = Resolved "'d command" | Unresolved | Ambiguous

definition resolve_subcommand :: "(string \<times> 'd command) list \<Rightarrow> string \<Rightarrow> 'd resolution" where
  "resolve_subcommand subs word =
     (case map_find subs word of
        Some c \<Rightarrow> Resolved c
      | None \<Rightarrow>
          (case filter (\<lambda>p. has_alias (snd p) word) subs of
             [] \<Rightarrow> Unresolved
           | [p] \<Rightarrow> Resolved (snd p)
           | _ \<Rightarrow> Ambiguous))"

definition step_unknown_command ::
    "'d fp_ops \<Rightarrow> 'd command \<Rightarrow> string \<Rightarrow> string \<Rightarrow> 'd parse_state \<Rightarrow> 'd step" where
  "step_unknown_command fp cmd pfx word st =
     Return (Inr (fail_with fp cmd pfx st (''unknown command or group: '' @ word)
         (suggestion_text (best_match word (command_candidates (m_commands cmd))))))
       (ps_index st)"

definition pos_args_of :: "'d command \<Rightarrow> 'd argument_def list" where
  "pos_args_of cmd = filter (\<lambda>a. \<not> (ad_is_help_flag a \<or> ad_is_json_flag a) \<and> ad_positional a) (cmd_args cmd)"

definition step_positional ::
    "'d fp_ops \<Rightarrow> 'd command \<Rightarrow> string \<Rightarrow> 'd token list \<Rightarrow> 'd token \<Rightarrow> 'd parse_state \<Rightarrow> 'd step" where
  "step_positional fp cmd pfx tokens token st =
     (let pos_args = pos_args_of cmd;
          k = ps_pos_index st
      in if k < length pos_args then
           let def = pos_args ! k;
               v = parse_token_value fp token (ad_type def) (ad_coerce_as_string def)
           in if is_none v then
                parse_fail fp cmd pfx st (''invalid value for positional argument '' @ [SQUOTE] @ ad_name def @ [SQUOTE])
              else (case ad_type def of
                ArgType_Single \<Rightarrow> Continue (advance (set_value (ad_name def) v (st\<lparr>ps_pos_index := k + 1\<rparr>)))
              | ArgType_Multiple \<Rightarrow>
                  (case get_string v of
                     None \<Rightarrow> parse_fail fp cmd pfx st
                       (''internal error: expected string value for multiple positional argument '' @ ad_name def)
                   | Some s \<Rightarrow>
                       let (vs, idx') = collect_values fp tokens (ad_coerce_as_string def) (ps_index st + 1)
                       in Continue (set_value (ad_name def) (mk_argument (ValueList (s # vs)))
                            (st\<lparr>ps_index := idx', ps_pos_index := k + 1\<rparr>)))
              | ArgType_Flag \<Rightarrow> Continue st)
         else parse_fail fp cmd pfx st (''unexpected argument: '' @ token_print fp token))"

text \<open>One iteration of the loop, with its condition.\<close>

definition parse_step ::
    "'d fp_ops \<Rightarrow> ('d command \<Rightarrow> bool \<Rightarrow> bool) list \<Rightarrow> 'd command \<Rightarrow> string \<Rightarrow> bool \<Rightarrow> 'd token list \<Rightarrow>
     'd parse_state \<Rightarrow> 'd step" where
  "parse_step fp hooks cmd pfx json_inherited tokens st =
     (if \<not> ps_index st < length tokens then Break st
      else
        let token = tokens ! ps_index st;
            kind = tok_kind token;
            word = id_value token
        in if kind = TokDoubleMinus then step_passthrough fp cmd pfx tokens st
           else if kind = TokFlagShort \<or> kind = TokFlagLong then step_option fp hooks cmd pfx tokens token st
           else if kind = TokId then
             (case resolve_subcommand (m_commands cmd) word of
                Ambiguous \<Rightarrow> parse_fail fp cmd pfx st
                  (''ambiguous alias '' @ [SQUOTE] @ word @ [SQUOTE] @ '' matches multiple subcommands.'')
              | Resolved sub \<Rightarrow>
                  Descend sub (pr_command_path (ps_result st) @ '' '')
                    (json_inherited \<or> pr_get_value_bool (ps_result st) ''json'' False) (ps_index st + 1)
              | Unresolved \<Rightarrow>
                  if m_commands cmd \<noteq> [] \<and> ps_pos_index st = 0 \<and> m_handler (cmd_info cmd) = None
                  then step_unknown_command fp cmd pfx word st
                  else step_positional fp cmd pfx tokens token st)
           else step_positional fp cmd pfx tokens token st)"

section \<open>After the loop\<close>

definition missing_required :: "'d command \<Rightarrow> bool smap \<Rightarrow> 'd argument_def option" where
  "missing_required cmd seen =
     List.find (\<lambda>a. \<not> (ad_positional a \<or> ad_is_help_flag a) \<and> ad_required a \<and> \<not> map_has seen (ad_name a))
       (cmd_args cmd)"

text \<open>The positional arguments that were not reached: an error if one is required, else the defaults.\<close>

fun finish_positional :: "'d argument_def list \<Rightarrow> 'd parse_state \<Rightarrow> 'd argument_def option \<times> 'd parse_state" where
  "finish_positional [] st = (None, st)"
| "finish_positional (a # as) st =
     (if ad_required a then (Some a, st)
      else finish_positional as (set_value (ad_name a) (ad_default_value a) st))"

text \<open>\<open>std::set<std::pair<std::string, std::string>>\<close>, in order.\<close>

definition pair_less :: "string \<times> string \<Rightarrow> string \<times> string \<Rightarrow> bool" where
  "pair_less p q \<longleftrightarrow> string_less (fst p) (fst q) \<or> fst p = fst q \<and> string_less (snd p) (snd q)"

fun insert_pair :: "string \<times> string \<Rightarrow> (string \<times> string) list \<Rightarrow> (string \<times> string) list" where
  "insert_pair p [] = [p]"
| "insert_pair p (q # qs) = (if p = q then q # qs else if pair_less p q then p # q # qs else q # insert_pair p qs)"

definition conflicts_of :: "bool smap \<Rightarrow> 'd argument_def \<Rightarrow> (string \<times> string) list" where
  "conflicts_of seen arg =
     (if \<not> map_has seen (ad_name arg) then []
      else map (\<lambda>other. if string_less other (ad_name arg) then (other, ad_name arg) else (ad_name arg, other))
             (filter (\<lambda>other. map_has seen other \<and> other \<noteq> ad_name arg) (ad_conflicts_with arg)))"

definition conflict_pairs :: "'d command \<Rightarrow> bool smap \<Rightarrow> (string \<times> string) list" where
  "conflict_pairs cmd seen = fold insert_pair (concat (map (conflicts_of seen) (cmd_args cmd))) []"

definition conflict_message :: "(string \<times> string) list \<Rightarrow> string" where
  "conflict_message pairs =
     ''conflicting options provided: '' @
     join ''; '' (map (\<lambda>(a, b). ''--'' @ a @ '' conflicts with --'' @ b) pairs)"

definition invocation_args :: "'d parse_result \<Rightarrow> 'd argument_map" where
  "invocation_args r = map_set_all (pr_dynamic_values r) (map_set_all (pr_values r) [])"

text \<open>Running the handler; without \<open>--json\<close> its output goes to the standard streams.\<close>

definition run_handler ::
    "'d command \<Rightarrow> bool \<Rightarrow> 'd command_handler \<Rightarrow> 'd parse_result \<Rightarrow> exn + 'd parse_result" where
  "run_handler cmd json_inherited handler r =
     (let json_wanted = (json_inherited \<or> pr_get_value_bool r ''json'' False);
          json_active = (json_wanted \<and> m_json_capture (cmd_info cmd));
          r1 = (if json_wanted \<and> \<not> m_json_capture (cmd_info cmd) then r\<lparr>pr_json_suppressed := True\<rparr> else r);
          ctx = mk_invocation_context
            \<lparr>ctx_command_path = pr_command_path r, ctx_args = invocation_args r,
             ctx_passthrough_args = pr_passthrough_args r, ctx_in_stream = False,
             ctx_out_stream = json_active, ctx_err_stream = json_active\<rparr>
      in bind_result (handler ctx) (\<lambda>(ctx', code).
           let r2 = r1\<lparr>pr_exit_code := code\<rparr>
           in Inr (if json_active
                   then r2\<lparr>pr_json_requested := True, pr_json_data := io_object ctx',
                           pr_json_stdout := io_out_text ctx', pr_json_stderr := io_err_text ctx',
                           pr_json_stdout_is_payload := m_stdout_is_payload (cmd_info cmd)\<rparr>
                   else r2\<lparr>pr_cout := pr_cout r2 @ io_out_text ctx', pr_cerr := pr_cerr r2 @ io_err_text ctx'\<rparr>)))"

definition parse_finish ::
    "'d fp_ops \<Rightarrow> ('d command \<Rightarrow> bool \<Rightarrow> bool) list \<Rightarrow> 'd command \<Rightarrow> string \<Rightarrow> bool \<Rightarrow> 'd parse_state \<Rightarrow>
     exn + 'd parse_result" where
  "parse_finish fp hooks cmd pfx json_inherited st =
     (case missing_required cmd (ps_seen st) of
        Some a \<Rightarrow> Inr (fail_with fp cmd pfx st (''missing required option: '' @ get_display_name a) [NL])
      | None \<Rightarrow>
          (case finish_positional (drop (ps_pos_index st) (pos_args_of cmd)) st of
             (Some a, st1) \<Rightarrow>
               Inr (fail_with fp cmd pfx st1 (''missing required positional argument: '' @ ad_name a) [NL])
           | (None, st1) \<Rightarrow>
               let pairs = conflict_pairs cmd (ps_seen st1);
                   r = ps_result st1
               in if pairs \<noteq> [] then Inr (fail_with fp cmd pfx st1 (conflict_message pairs) [NL])
                  else (case m_handler (cmd_info cmd) of
                    Some handler \<Rightarrow>
                      if \<not> execute_pre_hooks hooks cmd False then Inr (r\<lparr>pr_exit_code := 1\<rparr>)
                      else run_handler cmd json_inherited handler r
                  | None \<Rightarrow>
                      if m_commands cmd \<noteq> [] then
                        if \<not> execute_pre_hooks hooks cmd True then Inr (r\<lparr>pr_exit_code := 1\<rparr>)
                        else Inr (show_help_result fp cmd pfx r)
                      else Inr r)))"

section \<open>The whole function\<close>

definition initial_state :: "'d command \<Rightarrow> string \<Rightarrow> nat \<Rightarrow> 'd parse_state" where
  "initial_state cmd pfx idx =
     \<lparr>ps_index = idx, ps_pos_index = 0, ps_seen = [],
      ps_result = empty_result\<lparr>pr_command := Some cmd, pr_command_path := pfx @ cmd_name cmd,
        pr_values := map_set_all (map (\<lambda>a. (ad_name a, ad_default_value a))
          (filter (\<lambda>a. \<not> (ad_is_help_flag a \<or> ad_is_json_flag a)) (cmd_args cmd))) []\<rparr>\<rparr>"

partial_function (option) parse_loop ::
    "'d fp_ops \<Rightarrow> ('d command \<Rightarrow> bool \<Rightarrow> bool) list \<Rightarrow> 'd token list \<Rightarrow> 'd command \<Rightarrow> string \<Rightarrow> bool \<Rightarrow>
     'd parse_state \<Rightarrow> ((exn + 'd parse_result) \<times> nat) option" where
  [code]: "parse_loop fp hooks tokens cmd pfx json_inherited st =
     (case parse_step fp hooks cmd pfx json_inherited tokens st of
        Continue st' \<Rightarrow> parse_loop fp hooks tokens cmd pfx json_inherited st'
      | Break st' \<Rightarrow> Some (parse_finish fp hooks cmd pfx json_inherited st', ps_index st')
      | Return r idx \<Rightarrow> Some (r, idx)
      | Descend sub pfx' json' idx \<Rightarrow>
          parse_loop fp hooks tokens sub pfx' json' (initial_state sub pfx' idx))"

definition command_parse ::
    "'d fp_ops \<Rightarrow> ('d command \<Rightarrow> bool \<Rightarrow> bool) list \<Rightarrow> 'd command \<Rightarrow> 'd token list \<Rightarrow> nat \<Rightarrow> string \<Rightarrow> bool \<Rightarrow>
     ((exn + 'd parse_result) \<times> nat) option" where
  "command_parse fp hooks cmd tokens idx pfx json_inherited =
     parse_loop fp hooks tokens cmd pfx json_inherited (initial_state cmd pfx idx)"

end
