(* ===== verification/Json_Output.thy ===== *)
theory Json_Output
  imports Argument Base64
begin

text \<open>
  The JSON value of \<open>native/c/zjson.hpp\<close> and the \<open>--json\<close> envelope of
  \<open>native/c/json_output.cpp\<close>. Writing a value as text is done by the z/OS HWTJ services, so
  \<open>zjson::to_string\<close> is a parameter of the functions that use it; it may fail.
\<close>

section \<open>JSON values\<close>

datatype 'd json =
    JNull
  | JBool bool
  | JInteger int
  | JDouble 'd
  | JString string
  | JArray "'d json list"
  | JObject "(string \<times> 'd json) list"

datatype json_error_kind =
  InvalidValue | InvalidType | InvalidLength | InvalidData | MissingField | UnknownField | Custom

record json_error =
  je_kind :: json_error_kind
  je_message :: string

definition invalid_type :: "string \<Rightarrow> string \<Rightarrow> json_error" where
  "invalid_type expected found =
     \<lparr>je_kind = InvalidType, je_message = ''Invalid type. Expected '' @ expected @ '', found '' @ found\<rparr>"

fun type_name :: "'d json \<Rightarrow> string" where
  "type_name JNull = ''null''"
| "type_name (JBool _) = ''bool''"
| "type_name (JInteger _) = ''number''"
| "type_name (JDouble _) = ''number''"
| "type_name (JString _) = ''string''"
| "type_name (JArray _) = ''array''"
| "type_name (JObject _) = ''object''"

fun json_is_null :: "'d json \<Rightarrow> bool" where
  "json_is_null JNull = True"
| "json_is_null _ = False"

fun json_is_bool :: "'d json \<Rightarrow> bool" where
  "json_is_bool (JBool _) = True"
| "json_is_bool _ = False"

fun json_is_integer :: "'d json \<Rightarrow> bool" where
  "json_is_integer (JInteger _) = True"
| "json_is_integer _ = False"

fun json_is_double :: "'d json \<Rightarrow> bool" where
  "json_is_double (JDouble _) = True"
| "json_is_double _ = False"

fun json_is_string :: "'d json \<Rightarrow> bool" where
  "json_is_string (JString _) = True"
| "json_is_string _ = False"

fun json_is_array :: "'d json \<Rightarrow> bool" where
  "json_is_array (JArray _) = True"
| "json_is_array _ = False"

fun json_is_object :: "'d json \<Rightarrow> bool" where
  "json_is_object (JObject _) = True"
| "json_is_object _ = False"

fun json_as_bool :: "'d json \<Rightarrow> json_error + bool" where
  "json_as_bool (JBool b) = Inr b"
| "json_as_bool v = Inl (invalid_type ''bool'' (type_name v))"

fun json_as_string :: "'d json \<Rightarrow> json_error + string" where
  "json_as_string (JString s) = Inr s"
| "json_as_string v = Inl (invalid_type ''string'' (type_name v))"

fun json_as_array :: "'d json \<Rightarrow> json_error + 'd json list" where
  "json_as_array (JArray a) = Inr a"
| "json_as_array v = Inl (invalid_type ''array'' (type_name v))"

fun json_as_object :: "'d json \<Rightarrow> json_error + (string \<times> 'd json) list" where
  "json_as_object (JObject m) = Inr m"
| "json_as_object v = Inl (invalid_type ''object'' (type_name v))"

fun json_add_to_object :: "string \<Rightarrow> 'd json \<Rightarrow> 'd json \<Rightarrow> json_error + 'd json" where
  "json_add_to_object key value (JObject m) = Inr (JObject (map_set key value m))"
| "json_add_to_object key value _ = Inl (invalid_type ''object'' ''other'')"

fun json_add_to_array :: "'d json \<Rightarrow> 'd json \<Rightarrow> json_error + 'd json" where
  "json_add_to_array value (JArray a) = Inr (JArray (a @ [value]))"
| "json_add_to_array value _ = Inl (invalid_type ''array'' ''other'')"

text \<open>\<open>operator[]\<close> on a constant value: null for a missing key or index.\<close>

fun json_key :: "'d json \<Rightarrow> string \<Rightarrow> json_error + 'd json" where
  "json_key (JObject m) key = Inr (case map_find m key of Some v \<Rightarrow> v | None \<Rightarrow> JNull)"
| "json_key v key = Inl (invalid_type ''object'' (type_name v))"

fun json_nth :: "'d json \<Rightarrow> nat \<Rightarrow> json_error + 'd json" where
  "json_nth (JArray a) idx = Inr (if idx \<ge> length a then JNull else a ! idx)"
| "json_nth v idx = Inl (invalid_type ''array'' (type_name v))"

section \<open>From the output tree\<close>

fun ast_to_json :: "'d ast option \<Rightarrow> 'd json" where
  "ast_to_json None = JNull"
| "ast_to_json (Some AstNull) = JNull"
| "ast_to_json (Some (AstBoolean b)) = JBool b"
| "ast_to_json (Some (AstInteger i)) = JInteger i"
| "ast_to_json (Some (AstNumber d)) = JDouble d"
| "ast_to_json (Some (AstString s)) = JString s"
| "ast_to_json (Some (AstArray items)) = JArray (map ast_to_json items)"
| "ast_to_json (Some (AstObject flds)) =
     JObject (map_set_all (map (\<lambda>(key, n). (key, ast_to_json n)) flds) [])"

section \<open>The envelope\<close>

record 'd envelope =
  env_exit_code :: int
  env_data :: "'d ast option"
  env_captured_out :: string
  env_captured_err :: string
  env_error_message :: string
  env_stdout_is_payload :: bool

definition MAX_PAYLOAD_BYTES :: nat where
  "MAX_PAYLOAD_BYTES = 8 * 1024 * 1024"

definition is_json_safe_text :: "string \<Rightarrow> bool" where
  "is_json_safe_text txt \<longleftrightarrow>
     list_all (\<lambda>ch. ch = CHR 0x08 \<or> ch = CHR 0x0C \<or> ch = NL \<or> ch = CR \<or> ch = TAB \<or> \<not> iscntrl ch) txt"

record payload =
  pl_text :: string
  pl_present :: bool
  pl_encoded :: bool
  pl_truncated :: bool

definition no_payload :: payload where
  "no_payload = \<lparr>pl_text = [], pl_present = False, pl_encoded = False, pl_truncated = False\<rparr>"

text \<open>The character a byte stands for, and Base64 on strings.\<close>

definition unebcdic :: "byte \<Rightarrow> char" where
  "unebcdic b = char_of (the (find_index (\<lambda>n. n = unat b) ibm1047))"

definition base64_encode_string :: "string \<Rightarrow> string" where
  "base64_encode_string s = map unebcdic (encode (map ebcdic s))"

definition resolve_payload :: "'d envelope \<Rightarrow> (string \<times> 'd json) list \<Rightarrow> payload" where
  "resolve_payload e flds =
     (if env_captured_out e = [] then no_payload
      else if map_has flds ''data'' then no_payload
      else if \<not> env_stdout_is_payload e \<and> flds \<noteq> [] then no_payload
      else
        let truncated = (length (env_captured_out e) > MAX_PAYLOAD_BYTES);
            txt = (if truncated then take MAX_PAYLOAD_BYTES (env_captured_out e) else env_captured_out e);
            safe = is_json_safe_text txt
        in \<lparr>pl_text = (if safe then txt else base64_encode_string txt), pl_present = True,
            pl_encoded = (\<not> safe), pl_truncated = truncated\<rparr>)"

definition build_data :: "'d ast option \<Rightarrow> (string \<times> 'd json) list" where
  "build_data node =
     (case node of
        None \<Rightarrow> []
      | Some n \<Rightarrow> (case ast_to_json (Some n) of JObject m \<Rightarrow> m | v \<Rightarrow> map_set ''value'' v []))"

definition diagnostics :: "'d envelope \<Rightarrow> string" where
  "diagnostics e = (if env_captured_err e = [] then env_error_message e else env_captured_err e)"

definition fallback :: "'d envelope \<Rightarrow> string" where
  "fallback e =
     ''{'' @ quoted ''success'' @ '':'' @ (if env_exit_code e = 0 then ''true'' else ''false'') @
     '','' @ quoted ''exitCode'' @ '':'' @ show_int (env_exit_code e) @
     '','' @ quoted ''data'' @ '':{}'' @
     '','' @ quoted ''stderr'' @ '':'' @ quoted [] @
     '','' @ quoted ''jsonError'' @ '':'' @ quoted ''failed to serialize command result'' @ ''}''"

text \<open>The root object of the envelope.\<close>

definition envelope_root :: "'d envelope \<Rightarrow> (string \<times> 'd json) list" where
  "envelope_root e =
     (let data = build_data (env_data e);
          payload = resolve_payload e data;
          data' = (if pl_present payload then map_set ''data'' (JString (pl_text payload)) data else data)
      in map_set_all
           ([(''success'', JBool (env_exit_code e = 0)),
             (''exitCode'', JInteger (env_exit_code e)),
             (''data'', JObject data'),
             (''stderr'', JString (diagnostics e))] @
            (if pl_encoded payload then [(''encoding'', JString ''base64'')] else []) @
            (if pl_truncated payload then [(''truncated'', JBool True)] else [])) [])"

definition json_serialize :: "('d json \<Rightarrow> json_error + string) \<Rightarrow> 'd envelope \<Rightarrow> string" where
  "json_serialize to_str e =
     (case to_str (JObject (envelope_root e)) of Inr s \<Rightarrow> s | Inl _ \<Rightarrow> fallback e)"

section \<open>Properties\<close>

lemma find_index_nth: "find_index P xs = Some i \<Longrightarrow> i < length xs \<and> P (xs ! i)"
  by (induction xs arbitrary: i) (auto split: if_splits)

lemma find_index_ex: "x \<in> set xs \<Longrightarrow> P x \<Longrightarrow> \<exists>i. find_index P xs = Some i"
  by (induction xs) auto

lemma unebcdic_ebcdic [simp]: "unebcdic (ebcdic c) = c"
proof -
  have u: "unat (ebcdic c) = ebcdic_code c"
    by (simp add: ebcdic_def unat_of_nat)
  have "ebcdic_code c \<in> set ibm1047" by (simp add: ibm1047_permutation)
  then obtain i where i: "find_index (\<lambda>n. n = ebcdic_code c) ibm1047 = Some i"
    using find_index_ex [of "ebcdic_code c" ibm1047 "\<lambda>n. n = ebcdic_code c"] by auto
  from find_index_nth [OF i] have "i < 256" "ibm1047 ! i = ibm1047 ! of_char c"
    by (simp_all add: ebcdic_code_def)
  then have "i = of_char c"
    using nth_eq_iff_index_eq [OF ibm1047_permutation(2), of i "of_char c"] by simp
  then show ?thesis by (simp add: unebcdic_def u i)
qed

lemma ebcdic_unebcdic [simp]: "ebcdic (unebcdic b) = b"
proof -
  have "unat b \<in> set ibm1047" using unsigned_less [of b] by (simp add: ibm1047_permutation)
  then obtain i where i: "find_index (\<lambda>n. n = unat b) ibm1047 = Some i"
    using find_index_ex [of "unat b" ibm1047 "\<lambda>n. n = unat b"] by auto
  from find_index_nth [OF i] have "i < 256" "ibm1047 ! i = unat b" by simp_all
  then show ?thesis by (simp add: unebcdic_def i ebcdic_def ebcdic_code_def)
qed

lemma envelope_root_find:
  fixes e
  defines "data \<equiv> build_data (env_data e)"
  defines "p \<equiv> resolve_payload e data"
  shows "map_find (envelope_root e) ''data'' =
      Some (JObject (if pl_present p then map_set ''data'' (JString (pl_text p)) data else data))"
    and "map_find (envelope_root e) ''success'' = Some (JBool (env_exit_code e = 0))"
    and "map_find (envelope_root e) ''stderr'' = Some (JString (diagnostics e))"
    and "map_find (envelope_root e) ''encoding'' = (if pl_encoded p then Some (JString ''base64'') else None)"
    and "map_find (envelope_root e) ''truncated'' = (if pl_truncated p then Some (JBool True) else None)"
  unfolding envelope_root_def Let_def data_def [symmetric] p_def [symmetric]
  by simp_all

lemma resolve_payload_cases:
  assumes "env_captured_out e \<noteq> []" and "\<not> map_has flds ''data''" and "env_stdout_is_payload e \<or> flds = []"
  shows "pl_present (resolve_payload e flds)"
    and "pl_encoded (resolve_payload e flds) \<longleftrightarrow> \<not> is_json_safe_text (take MAX_PAYLOAD_BYTES (env_captured_out e))"
    and "pl_truncated (resolve_payload e flds) \<longleftrightarrow> length (env_captured_out e) > MAX_PAYLOAD_BYTES"
    and "pl_text (resolve_payload e flds) =
      (if pl_encoded (resolve_payload e flds) then base64_encode_string (take MAX_PAYLOAD_BYTES (env_captured_out e))
       else take MAX_PAYLOAD_BYTES (env_captured_out e))"
  using assms by (auto simp: resolve_payload_def Let_def)

lemma decode_base64_string: "decode (map ebcdic (base64_encode_string s)) = Inr (map ebcdic s)"
  by (simp add: base64_encode_string_def decode_encode_inv o_def)


text \<open>A handler that printed \<open>hi\<close> and set no object.\<close>

definition env0 :: "unit envelope" where
  "env0 = \<lparr>env_exit_code = 0, env_data = None, env_captured_out = ''hi'', env_captured_err = [],
     env_error_message = [], env_stdout_is_payload = False\<rparr>"


end
