(* ===== verification/Arg_Parser.thy ===== *)
theory Arg_Parser
  imports Command_Parse Json_Output
begin

text \<open>
  \<open>class ArgumentParser\<close> of \<open>native/c/parser.hpp\<close>: the two entry points, for an argument vector and
  for a command line, with the classification of arguments into tokens and the \<open>--json\<close> envelope.
  A run that does not end is \<^const>\<open>None\<close>; an exception that leaves the function is a left value.
\<close>

record 'd argument_parser =
  ap_json_enabled :: bool
  ap_program_name :: string
  ap_program_desc :: string
  ap_root_cmd :: "'d command option"
  ap_pre_hooks :: "('d command \<Rightarrow> bool \<Rightarrow> bool) list option"

definition new_argument_parser :: "string \<Rightarrow> string \<Rightarrow> 'd argument_parser" where
  "new_argument_parser prog_name description =
     \<lparr>ap_json_enabled = True, ap_program_name = prog_name, ap_program_desc = description,
      ap_root_cmd = Some (set_pre_hooks (new_command prog_name description)), ap_pre_hooks = Some []\<rparr>"

definition update_program_name :: "string \<Rightarrow> 'd argument_parser \<Rightarrow> 'd argument_parser" where
  "update_program_name new_name ap =
     ap\<lparr>ap_program_name := new_name,
        ap_root_cmd := map_option (update_info (\<lambda>i. i\<lparr>m_name := new_name\<rparr>)) (ap_root_cmd ap)\<rparr>"

definition add_pre_command_hook ::
    "('d command \<Rightarrow> bool \<Rightarrow> bool) \<Rightarrow> 'd argument_parser \<Rightarrow> 'd argument_parser" where
  "add_pre_command_hook hook ap =
     ap\<lparr>ap_pre_hooks := Some ((case ap_pre_hooks ap of Some hs \<Rightarrow> hs | None \<Rightarrow> []) @ [hook]),
        ap_root_cmd := map_option set_pre_hooks (ap_root_cmd ap)\<rparr>"

definition parser_disable_json_output :: "'d argument_parser \<Rightarrow> 'd argument_parser" where
  "parser_disable_json_output ap =
     ap\<lparr>ap_json_enabled := False, ap_root_cmd := map_option disable_json_output (ap_root_cmd ap)\<rparr>"

section \<open>Tokens from arguments\<close>

definition classify_literal_or_identifier :: "'d fp_ops \<Rightarrow> string \<Rightarrow> nat \<times> nat \<Rightarrow> 'd token" where
  "classify_literal_or_identifier fp arg span =
     (case tokenize fp (src_from_string arg ''<arg>'') of
        Inl _ \<Rightarrow> make_id arg span
      | Inr arg_tokens \<Rightarrow>
          if length arg_tokens \<noteq> 2 \<or> tok_kind (arg_tokens ! 1) \<noteq> TokEof then make_id arg span
          else (case (tok_kind (arg_tokens ! 0), tok_data (arg_tokens ! 0)) of
            (TokIntLit, IntLit v base) \<Rightarrow> make_int_lit v base span
          | (TokFloatLit, FloatLit v has_exponent) \<Rightarrow> make_float_lit v has_exponent span
          | (TokTrue, _) \<Rightarrow> simple_token TokTrue span
          | (TokFalse, _) \<Rightarrow> simple_token TokFalse span
          | _ \<Rightarrow> make_id arg span))"

definition classify_argument :: "'d fp_ops \<Rightarrow> string \<Rightarrow> nat \<times> nat \<Rightarrow> 'd token" where
  "classify_argument fp arg span =
     (if length arg > 2 \<and> arg ! 0 = CHR ''-'' \<and> arg ! 1 = CHR ''-'' then make_long_flag (drop 2 arg) span
      else if length arg > 1 \<and> arg ! 0 = CHR ''-'' \<and> arg \<noteq> ''-'' then make_short_flag (drop 1 arg) span
      else if length arg \<ge> 2 \<and>
          (arg ! 0 = DQUOTE \<and> arg ! (length arg - 1) = DQUOTE \<or>
           arg ! 0 = SQUOTE \<and> arg ! (length arg - 1) = SQUOTE)
      then make_str_lit (take (length arg - 2) (drop 1 arg)) span
      else classify_literal_or_identifier fp arg span)"

text \<open>The loop over the arguments, with the position and \<open>passthrough_mode\<close>.\<close>

fun tokens_of_args :: "'d fp_ops \<Rightarrow> nat \<Rightarrow> bool \<Rightarrow> string list \<Rightarrow> 'd token list" where
  "tokens_of_args fp pos passthrough_mode [] = []"
| "tokens_of_args fp pos passthrough_mode (arg # args) =
     (let span = (pos, pos + length arg);
          pos' = pos + length arg + 1
      in if passthrough_mode then make_id arg span # tokens_of_args fp pos' True args
         else if arg = ''--'' then simple_token TokDoubleMinus span # tokens_of_args fp pos' True args
         else classify_argument fp arg span # tokens_of_args fp pos' False args)"

section \<open>The entry points\<close>

definition error_result :: "string \<Rightarrow> 'd parse_result" where
  "error_result msg = empty_result\<lparr>pr_status := ParserStatus_ParseError, pr_error_message := msg, pr_exit_code := 1\<rparr>"

definition hooks_of :: "'d argument_parser \<Rightarrow> ('d command \<Rightarrow> bool \<Rightarrow> bool) list" where
  "hooks_of ap = (case ap_pre_hooks ap of Some hs \<Rightarrow> hs | None \<Rightarrow> [])"

text \<open>Success although tokens are left: an error at the first of them.\<close>

definition trailing_tokens ::
    "'d fp_ops \<Rightarrow> 'd command \<Rightarrow> 'd token list \<Rightarrow> nat \<Rightarrow> 'd parse_result \<Rightarrow> 'd parse_result" where
  "trailing_tokens fp root tokens idx r =
     (if pr_status r = ParserStatus_Success \<and> idx < length tokens then
        let msg = ''unexpected arguments starting from: '' @ token_print fp (tokens ! idx)
        in r\<lparr>pr_status := ParserStatus_ParseError, pr_error_message := msg, pr_exit_code := 1,
             pr_cerr := pr_cerr r @ ''Error: '' @ msg @ [NL, NL] @ generate_help fp root []\<rparr>
      else r)"

definition parse_impl_argv ::
    "'d fp_ops \<Rightarrow> 'd argument_parser \<Rightarrow> string list \<Rightarrow> (exn + 'd parse_result) option" where
  "parse_impl_argv fp ap argv =
     (if length argv < 1 then Some (Inr (error_result ''invalid arguments provided (argc < 1)''))
      else
        let tokens = tokens_of_args fp 0 False (drop 1 argv)
        in case ap_root_cmd ap of
             None \<Rightarrow> Some (Inr (error_result ''ArgumentParser is not initialized correctly.''))
           | Some root \<Rightarrow>
               map_option (\<lambda>(res, idx). bind_result res (\<lambda>r. Inr (trailing_tokens fp root tokens idx r)))
                 (command_parse fp (hooks_of ap) root tokens 0 [] False))"

text \<open>The command-line form catches lexical errors and exceptions and reports them.\<close>

definition caught :: "'d fp_ops \<Rightarrow> 'd command \<Rightarrow> string \<Rightarrow> string \<Rightarrow> 'd parse_result" where
  "caught fp root label msg =
     (error_result msg)\<lparr>pr_cerr := label @ msg @ [NL] @ generate_help fp root []\<rparr>"

definition parse_impl_line ::
    "'d fp_ops \<Rightarrow> 'd argument_parser \<Rightarrow> string \<Rightarrow> 'd parse_result option" where
  "parse_impl_line fp ap command_line =
     (case ap_root_cmd ap of
        None \<Rightarrow> Some (error_result ''ArgumentParser is not initialized correctly.'')
      | Some root \<Rightarrow>
          (case tokenize fp (src_from_string command_line ''<cli>'') of
             Inl e \<Rightarrow> Some (caught fp root ''Lexer error: '' (lex_error_to_string e))
           | Inr toks \<Rightarrow>
               let tokens = (if toks \<noteq> [] \<and> tok_kind (last toks) = TokEof then butlast toks else toks)
               in map_option (\<lambda>(res, idx). case res of
                      Inl e \<Rightarrow> caught fp root ''Parser error: '' (exn_what e)
                    | Inr r \<Rightarrow> trailing_tokens fp root tokens idx r)
                    (command_parse fp (hooks_of ap) root tokens 0 [] False)))"

text \<open>Whether \<open>--json\<close> stands in the raw input before the delimiter.\<close>

fun requests_json :: "string list \<Rightarrow> bool" where
  "requests_json [] = False"
| "requests_json (w # ws) =
     (if w = ''--'' then False else if w = ''--json'' \<or> w = ''--rfj'' then True else requests_json ws)"

definition argv_requests_json :: "string list \<Rightarrow> bool" where
  "argv_requests_json argv = requests_json (drop 1 argv)"

text \<open>\<open>operator>>\<close> into a string: the words between white space.\<close>

fun stream_words :: "string \<Rightarrow> string \<Rightarrow> string list" where
  "stream_words acc [] = (if acc = [] then [] else [acc])"
| "stream_words acc (c # cs) =
     (if isspace c then (if acc = [] then stream_words [] cs else acc # stream_words [] cs)
      else stream_words (acc @ [c]) cs)"

definition line_requests_json :: "string \<Rightarrow> bool" where
  "line_requests_json command_line = requests_json (stream_words [] command_line)"

definition emit_json_envelope ::
    "('d json \<Rightarrow> json_error + string) \<Rightarrow> 'd argument_parser \<Rightarrow> bool \<Rightarrow> 'd parse_result \<Rightarrow> 'd parse_result" where
  "emit_json_envelope to_str ap json_requested r =
     (if pr_status r = ParserStatus_HelpRequested then r
      else if \<not> ap_json_enabled ap \<or> pr_json_suppressed r then r
      else if \<not> pr_json_requested r \<and> \<not> json_requested then r
      else
        let env = \<lparr>env_exit_code = pr_exit_code r, env_data = pr_json_data r, env_captured_out = pr_json_stdout r,
                   env_captured_err = pr_json_stderr r, env_error_message = pr_error_message r,
                   env_stdout_is_payload = pr_json_stdout_is_payload r\<rparr>;
            out = json_serialize to_str env
        in r\<lparr>pr_json_output := out, pr_cout := pr_cout r @ out @ [NL]\<rparr>)"

definition parse_argv ::
    "'d fp_ops \<Rightarrow> ('d json \<Rightarrow> json_error + string) \<Rightarrow> 'd argument_parser \<Rightarrow> string list \<Rightarrow>
     (exn + 'd parse_result) option" where
  "parse_argv fp to_str ap argv =
     map_option (\<lambda>res. bind_result res (\<lambda>r. Inr (emit_json_envelope to_str ap (argv_requests_json argv) r)))
       (parse_impl_argv fp ap argv)"

definition parse_line ::
    "'d fp_ops \<Rightarrow> ('d json \<Rightarrow> json_error + string) \<Rightarrow> 'd argument_parser \<Rightarrow> string \<Rightarrow> 'd parse_result option" where
  "parse_line fp to_str ap command_line =
     map_option (emit_json_envelope to_str ap (line_requests_json command_line)) (parse_impl_line fp ap command_line)"

end
