(* ===== verification/Command_Tree.thy ===== *)
theory Command_Tree
  imports Command_Parse
begin

text \<open>
  Consistency of the command tree of \<open>native/c/parser.hpp\<close>: what \<open>add_command\<close> keeps of it, and what
  that means for the lookup of subcommands during a parse.
\<close>

section \<open>The command tree\<close>

text \<open>The words that name a subcommand, and the invariant that no word names two.\<close>

definition labels :: "string \<times> 'd command \<Rightarrow> string set" where
  "labels p = insert (fst p) (set (cmd_aliases (snd p)))"

definition unambiguous :: "(string \<times> 'd command) list \<Rightarrow> bool" where
  "unambiguous subs \<longleftrightarrow>
     (\<forall>p \<in> set subs. \<forall>q \<in> set subs. fst p \<noteq> fst q \<longrightarrow> labels p \<inter> labels q = {})"

lemma set_map_set: "\<not> map_has m k \<Longrightarrow> set (map_set k v m) = insert (k, v) (set m)"
  by (induction m) (auto simp: map_set.simps map_has_def split: if_splits)

lemma cmd_info_set_privileged [simp]: "cmd_info (set_privileged b c) = (cmd_info c)\<lparr>m_privileged := b\<rparr>"
  by (cases c) simp

lemma cmd_info_set_pre_hooks [simp]: "cmd_info (set_pre_hooks c) = (cmd_info c)\<lparr>m_pre_hooks_set := True\<rparr>"
  by (cases c) simp

lemma sibling_conflict_None:
  "sibling_conflict n als p = None \<longleftrightarrow> n \<notin> set (cmd_aliases (snd p)) \<and> labels p \<inter> set als = {}"
proof (cases "List.find (\<lambda>al. fst p = al \<or> has_alias (snd p) al) als")
  case None
  then have "\<forall>al \<in> set als. fst p \<noteq> al \<and> \<not> has_alias (snd p) al" by (simp add: find_None_iff)
  with None show ?thesis
    unfolding sibling_conflict_def by (auto simp: labels_def) (auto simp: has_alias_def)
next
  case (Some al)
  then have "al \<in> set als" "fst p = al \<or> has_alias (snd p) al" by (auto simp: find_Some_iff)
  with Some show ?thesis by (auto simp: sibling_conflict_def has_alias_def labels_def)
qed

lemma first_conflict_None:
  "first_conflict n als ps = None \<longleftrightarrow>
     (\<forall>p \<in> set ps. n \<notin> set (cmd_aliases (snd p)) \<and> labels p \<inter> set als = {})"
  by (induction ps) (auto simp: sibling_conflict_None [symmetric] split: option.splits)

text \<open>The subcommand as \<open>add_command\<close> stores it.\<close>

definition attached :: "'d command \<Rightarrow> 'd command \<Rightarrow> 'd command" where
  "attached c sub =
     (let sub1 = update_info (\<lambda>i. i\<lparr>m_args := ensure_json_argument (m_json_registered i)
                                      (ensure_help_argument (m_args i))\<rparr>) sub;
          sub2 = (if m_privileged (cmd_info c) then set_privileged True sub1 else sub1)
      in if m_pre_hooks_set (cmd_info c) then set_pre_hooks sub2 else sub2)"

lemma attached_names [simp]:
  "cmd_name (attached c sub) = cmd_name sub" "cmd_aliases (attached c sub) = cmd_aliases sub"
  by (simp_all add: attached_def update_info_def Let_def)

lemma add_command_Inr:
  "add_command (Some sub) c = Inr c' \<longleftrightarrow>
     \<not> map_has (m_commands c) (cmd_name sub) \<and> cmd_name sub \<notin> set (cmd_aliases sub) \<and>
     (\<forall>p \<in> set (m_commands c). cmd_name sub \<notin> set (cmd_aliases (snd p)) \<and> labels p \<inter> set (cmd_aliases sub) = {}) \<and>
     c' = Command (cmd_info c) (map_set (cmd_name sub) (attached c sub) (m_commands c))"
proof -
  have "add_command (Some sub) c =
    (if map_has (m_commands c) (cmd_name (attached c sub)) then
       Inl (Invalid_argument (''subcommand name '' @ [SQUOTE] @ cmd_name (attached c sub) @ [SQUOTE] @ '' already exists.''))
     else (case first_conflict (cmd_name (attached c sub)) (cmd_aliases (attached c sub)) (m_commands c) of
       Some e \<Rightarrow> Inl e
     | None \<Rightarrow>
         if cmd_name (attached c sub) \<in> set (cmd_aliases (attached c sub)) then
           Inl (Invalid_argument (''subcommand alias '' @ [SQUOTE] @ cmd_name (attached c sub) @ [SQUOTE] @
             '' cannot be the same as its name '' @ [SQUOTE] @ cmd_name (attached c sub) @ [SQUOTE] @ ''.''))
         else Inr (Command (cmd_info c) (map_set (cmd_name (attached c sub)) (attached c sub) (m_commands c)))))"
    unfolding add_command_def attached_def Let_def by simp
  then show ?thesis
    unfolding attached_names
    using first_conflict_None [of "cmd_name sub" "cmd_aliases sub" "m_commands c"]
    by (auto split: if_splits option.splits)
qed

lemma unambiguous_add:
  assumes "unambiguous (m_commands c)" and "add_command (Some sub) c = Inr c'"
  shows "unambiguous (m_commands c')"
proof -
  note a = add_command_Inr [of sub c c', THEN iffD1, OF assms(2)]
  have new: "labels p \<inter> labels (cmd_name sub, attached c sub) = {}" if "p \<in> set (m_commands c)" for p
    using a that by (auto simp: labels_def map_has_def map_of_eq_None_iff)
  have "set (m_commands c') = insert (cmd_name sub, attached c sub) (set (m_commands c))"
    using a by (simp add: set_map_set)
  with new assms(1) show ?thesis unfolding unambiguous_def by auto
qed

fun all_privileged :: "'d command \<Rightarrow> bool" where
  "all_privileged (Command i subs) \<longleftrightarrow> m_privileged i \<and> (\<forall>p \<in> set subs. all_privileged (snd p))"

fun priv_closed :: "'d command \<Rightarrow> bool" where
  "priv_closed (Command i subs) \<longleftrightarrow>
     (m_privileged i \<longrightarrow> (\<forall>p \<in> set subs. all_privileged (snd p))) \<and> (\<forall>p \<in> set subs. priv_closed (snd p))"

lemma all_privileged_set [simp]: "all_privileged (set_privileged True c)"
  by (induction c) auto

lemma all_privileged_closed: "all_privileged c \<Longrightarrow> priv_closed c"
  by (induction c) auto

lemma priv_closed_set: "priv_closed (set_privileged b c)"
proof (cases b)
  case True
  then show ?thesis by (simp add: all_privileged_closed)
next
  case False
  then show ?thesis by (induction c) auto
qed

lemma all_privileged_hooks: "all_privileged (set_pre_hooks c) \<longleftrightarrow> all_privileged c"
  by (induction c) force

lemma priv_closed_hooks: "priv_closed (set_pre_hooks c) \<longleftrightarrow> priv_closed c"
  by (induction c) (force simp: all_privileged_hooks)

lemma priv_args: "all_privileged (update_args f c) \<longleftrightarrow> all_privileged c" "priv_closed (update_args f c) \<longleftrightarrow> priv_closed c"
  by (cases c, simp add: update_args_def update_info_def)+

lemma attached_privileged:
  assumes "priv_closed sub"
  shows "priv_closed (attached c sub) \<and> (m_privileged (cmd_info c) \<longrightarrow> all_privileged (attached c sub))"
proof -
  have "priv_closed (update_info (\<lambda>i. i\<lparr>m_args := g i\<rparr>) sub)" for g
    using assms by (cases sub) (simp add: update_info_def)
  then show ?thesis
    by (auto simp: attached_def Let_def priv_closed_hooks all_privileged_hooks all_privileged_closed)
qed

definition tree_inv :: "'d command \<Rightarrow> bool" where
  "tree_inv c \<longleftrightarrow> map_wf (m_commands c) \<and> unambiguous (m_commands c) \<and> priv_closed c"

text \<open>
  Adding a subcommand keeps the command tree consistent: the map stays ordered, no word names two
  subcommands of the same command, and below a privileged command every command is privileged.
\<close>

theorem add_command_inv:
  assumes "tree_inv c" and "priv_closed sub" and "add_command (Some sub) c = Inr c'"
  shows "tree_inv c'"
proof -
  have c': "c' = Command (cmd_info c) (map_set (cmd_name sub) (attached c sub) (m_commands c))"
    and "\<not> map_has (m_commands c) (cmd_name sub)"
    using add_command_Inr [of sub c c'] assms(3) by simp_all
  then have set: "set (m_commands c') = insert (cmd_name sub, attached c sub) (set (m_commands c))"
    by (simp add: set_map_set)
  have "priv_closed c'"
    using assms(1) set attached_privileged [OF assms(2), of c]
    unfolding c' by (cases c) (auto simp: tree_inv_def)
  then show ?thesis
    using unambiguous_add [OF _ assms(3)] assms(1) c' by (simp add: tree_inv_def)
qed
theorem add_command_inv_witness:
  "tree_inv (projr (add_command (Some (new_command ''list'' []))
     (set_privileged True (new_command ''ds'' [] :: unit command))))"
proof -
  let ?p = "set_privileged True (new_command ''ds'' [] :: unit command)"
    and ?s = "new_command ''list'' [] :: unit command"
  have c: "m_commands ?p = []" "cmd_name ?s = ''list''" "cmd_aliases ?s = []" "m_commands ?s = []"
    by (simp_all add: new_command_def)
  then have "\<exists>c'. add_command (Some ?s) ?p = Inr c'"
    using add_command_Inr [of ?s ?p] by (simp add: map_has_def)
  then obtain c' where c': "add_command (Some ?s) ?p = Inr c'" ..
  have "tree_inv ?p" using c(1) priv_closed_set [of True] by (simp add: tree_inv_def unambiguous_def)
  moreover have "priv_closed ?s" by (simp add: new_command_def)
  ultimately show ?thesis using add_command_inv [OF _ _ c'] c' by simp
qed

lemma unambiguous_unique:
  assumes "unambiguous subs" and "distinct (map fst subs)" and "p \<in> set subs" and "q \<in> set subs"
    and "w \<in> labels p" and "w \<in> labels q"
  shows "p = q"
proof -
  have "fst p = fst q" using assms unfolding unambiguous_def by blast
  with assms(2-4) show ?thesis by (metis eq_key_imp_eq_value prod.collapse)
qed

lemma filter_single: "distinct xs \<Longrightarrow> x \<in> set xs \<Longrightarrow> filter (\<lambda>y. y = x) xs = [x]"
  by (induction xs) (auto simp: filter_empty_conv)

lemma resolve_sound: "resolve_subcommand subs w = Resolved c \<Longrightarrow> \<exists>p \<in> set subs. snd p = c \<and> w \<in> labels p"
proof (cases "map_find subs w")
  case None
  assume r: "resolve_subcommand subs w = Resolved c"
  have f: "p \<in> set subs \<and> has_alias (snd p) w" if "filter (\<lambda>p. has_alias (snd p) w) subs = [p]" for p
  proof -
    have "p \<in> set (filter (\<lambda>p. has_alias (snd p) w) subs)" by (simp add: that)
    then show ?thesis by simp
  qed
  from r None obtain p where p: "filter (\<lambda>p. has_alias (snd p) w) subs = [p]" "c = snd p"
    by (cases "filter (\<lambda>p. has_alias (snd p) w) subs")
      (auto simp: resolve_subcommand_def split: list.split_asm)
  show ?thesis using f [OF p(1)] p(2) by (intro bexI [of _ p]) (simp_all add: labels_def has_alias_def)
next
  case (Some c')
  assume "resolve_subcommand subs w = Resolved c"
  with Some have "(w, c) \<in> set subs" by (auto simp: resolve_subcommand_def dest: map_of_SomeD)
  then show ?thesis by (intro bexI [of _ "(w, c)"]) (auto simp: labels_def)
qed

lemma resolve_complete:
  assumes "unambiguous subs" and "distinct (map fst subs)" and "p \<in> set subs" and "w \<in> labels p"
  shows "resolve_subcommand subs w = Resolved (snd p)"
proof (cases "map_find subs w")
  case (Some c)
  then have "(w, c) \<in> set subs" by (rule map_of_SomeD)
  then have "(w, c) = p"
    using unambiguous_unique [OF assms(1,2) _ assms(3) _ assms(4), of "(w, c)"] by (simp add: labels_def)
  with Some show ?thesis by (auto simp: resolve_subcommand_def)
next
  case None
  then have w: "w \<in> set (cmd_aliases (snd p))" using assms(3,4) by (auto simp: labels_def map_of_eq_None_iff)
  have "q = p" if "q \<in> set subs" "has_alias (snd q) w" for q
    using unambiguous_unique [OF assms(1,2) that(1) assms(3), of w] that(2) w
    by (simp add: labels_def has_alias_def)
  then have "filter (\<lambda>q. has_alias (snd q) w) subs = filter (\<lambda>q. q = p) subs"
    using w by (intro filter_cong) (auto simp: has_alias_def)
  moreover have "filter (\<lambda>q. q = p) subs = [p]"
    using assms(2,3) by (intro filter_single) (simp_all add: distinct_map)
  ultimately show ?thesis using None by (simp add: resolve_subcommand_def)
qed

text \<open>
  In a consistent tree a word selects a subcommand exactly when it is the name or an alias of it:
  the lookup finds that subcommand, never another one, and the ambiguity error is never raised.
\<close>

theorem resolve_subcommand_exact:
  assumes "tree_inv c"
  shows "(resolve_subcommand (m_commands c) word = Resolved sub) =
      (\<exists>p \<in> set (m_commands c). snd p = sub \<and> word \<in> labels p) \<and>
    resolve_subcommand (m_commands c) word \<noteq> Ambiguous"
proof -
  have u: "unambiguous (m_commands c)" and d: "distinct (map fst (m_commands c))"
    using assms by (simp_all add: tree_inv_def map_wf_distinct)
  have "resolve_subcommand (m_commands c) word \<noteq> Ambiguous"
  proof (cases "\<exists>p \<in> set (m_commands c). word \<in> labels p")
    case True
    then show ?thesis using resolve_complete [OF u d] by fastforce
  next
    case False
    then have "filter (\<lambda>p. has_alias (snd p) word) (m_commands c) = []" "map_find (m_commands c) word = None"
      by (auto simp: filter_empty_conv labels_def has_alias_def map_of_eq_None_iff)
    then show ?thesis by (simp add: resolve_subcommand_def)
  qed
  then show ?thesis using resolve_sound resolve_complete [OF u d] by blast
qed

text \<open>A group with one subcommand that has an alias.\<close>

definition ls_command :: "unit command" where
  "ls_command = update_info (\<lambda>i. i\<lparr>m_aliases := [''ls'']\<rparr>) (new_command ''list'' [])"

definition ds_group :: "unit command" where
  "ds_group = Command (cmd_info (new_command ''ds'' [])) [(''list'', ls_command)]"

theorem resolve_subcommand_exact_witness:
  "resolve_subcommand (m_commands ds_group) ''ls'' = Resolved ls_command"
proof -
  have "tree_inv ds_group"
    by (simp add: tree_inv_def unambiguous_def ds_group_def map_wf_def ls_command_def new_command_def update_info_def)
  moreover have "(''list'', ls_command) \<in> set (m_commands ds_group)" "''ls'' \<in> labels (''list'', ls_command)"
    by (simp_all add: ds_group_def labels_def ls_command_def update_info_def)
  ultimately show ?thesis
    using resolve_subcommand_exact [of ds_group "''ls''" ls_command] by force
qed

end
