(* ===== verification/Command_Loop.thy ===== *)
theory Command_Loop
  imports Command_Tree Lexer_Print
begin

text \<open>
  What \<open>Command::parse\<close> of \<open>native/c/parser.hpp\<close> does as a whole: its loop ends for every command
  tree without positional flags (and only the handler can raise), what a parse reports and prints on
  every path, and which checks stand between the loop and the handler.
\<close>

section \<open>Progress and termination\<close>

lemma state_simps [simp]:
  "ps_index (set_value n v st) = ps_index st" "ps_pos_index (set_value n v st) = ps_pos_index st"
  "ps_seen (set_value n v st) = ps_seen st"
  "ps_index (set_dynamic_value n v st) = ps_index st" "ps_pos_index (set_dynamic_value n v st) = ps_pos_index st"
  "ps_seen (set_dynamic_value n v st) = ps_seen st"
  "ps_index (mark_seen n st) = ps_index st" "ps_pos_index (mark_seen n st) = ps_pos_index st"
  "ps_result (mark_seen n st) = ps_result st"
  "ps_index (advance st) = Suc (ps_index st)" "ps_pos_index (advance st) = ps_pos_index st"
  "ps_seen (advance st) = ps_seen st" "ps_result (advance st) = ps_result st"
  by (simp_all add: set_value_def set_dynamic_value_def mark_seen_def advance_def)

lemma parse_fail_simps [simp]:
  "parse_fail fp cmd pfx st msg \<noteq> Continue st'" "parse_fail fp cmd pfx st msg \<noteq> Break st'"
  "parse_fail fp cmd pfx st msg \<noteq> Descend sub pfx' j idx"
  by (simp_all add: parse_fail_def)

lemma collect_values_le: "collect_values fp tokens coerce idx = (vs, idx') \<Longrightarrow>
  idx \<le> idx' \<and> (idx \<le> length tokens \<longrightarrow> idx' \<le> length tokens) \<and> idx' = idx + length vs"
proof (induction fp tokens coerce idx arbitrary: vs idx' rule: collect_values.induct)
  case (1 fp tokens coerce idx)
  show ?case
  proof (cases "idx < length tokens \<and> \<not> is_flag_token tokens idx")
    case True
    show ?thesis
    proof (cases "get_string (parse_token_value fp (tokens ! idx) ArgType_Multiple coerce)")
      case None
      with True "1.prems" show ?thesis by (simp add: collect_values.simps [of fp tokens coerce idx])
    next
      case (Some s)
      obtain ws k where w: "collect_values fp tokens coerce (idx + 1) = (ws, k)" by fastforce
      from "1.IH" [OF True Some w] True "1.prems" Some w show ?thesis
        by (auto simp: collect_values.simps [of fp tokens coerce idx])
    qed
  next
    case False
    with "1.prems" show ?thesis by (auto simp: collect_values.simps [of fp tokens coerce idx])
  qed
qed

lemma step_combined_index:
  "step_combined fp cmd pfx cs st = Continue st' \<Longrightarrow> ps_index st' = ps_index st"
  by (induction fp cmd pfx cs st rule: step_combined.induct) (auto split: option.splits if_splits)

lemma step_combined_not [simp]:
  "step_combined fp cmd pfx cs st \<noteq> Descend sub pfx' j idx" "step_combined fp cmd pfx cs st \<noteq> Break st'"
  by (induction fp cmd pfx cs st rule: step_combined.induct) (auto split: option.splits if_splits)

lemma step_dynamic_index:
  "step_dynamic fp cmd pfx tokens n st = Continue st' \<Longrightarrow> ps_index st \<le> ps_index st'"
  by (auto simp: step_dynamic_def Let_def split: arg_type.splits if_splits prod.splits dest: collect_values_le)

lemma step_flag_value_index:
  "step_flag_value fp tokens arg st = Continue st' \<Longrightarrow> ps_index st \<le> ps_index st'"
  by (auto simp: step_flag_value_def Let_def split: if_splits)

lemma step_option_value_index:
  "step_option_value fp cmd pfx tokens arg st = Continue st' \<Longrightarrow> ps_index st \<le> ps_index st'"
  by (auto simp: step_option_value_def Let_def split: if_splits option.splits prod.splits dest!: collect_values_le)

lemma step_option_index:
  "step_option fp hooks cmd pfx tokens token st = Continue st' \<Longrightarrow> ps_index st < ps_index st'"
  by (auto simp: step_option_def step_unknown_option_def Let_def split: if_splits option.splits
      dest!: step_combined_index step_dynamic_index step_flag_value_index step_option_value_index)

lemma step_not_descend [simp]:
  "step_dynamic fp cmd pfx tokens n st \<noteq> Descend sub pfx' j idx"
  "step_flag_value fp tokens arg st \<noteq> Descend sub pfx' j idx"
  "step_option_value fp cmd pfx tokens arg st \<noteq> Descend sub pfx' j idx"
  "step_passthrough fp cmd pfx tokens st \<noteq> Descend sub pfx' j idx"
  "step_positional fp cmd pfx tokens token st \<noteq> Descend sub pfx' j idx"
  "step_unknown_command fp cmd pfx word st \<noteq> Descend sub pfx' j idx"
  by (auto simp: step_dynamic_def step_flag_value_def step_option_value_def step_passthrough_def
      step_positional_def step_unknown_command_def Let_def split: arg_type.splits if_splits option.splits prod.splits)

lemma step_option_not_descend [simp]: "step_option fp hooks cmd pfx tokens token st \<noteq> Descend sub pfx' j idx"
  by (auto simp: step_option_def step_unknown_option_def Let_def split: option.splits)

text \<open>No positional argument is a flag, in the whole tree.\<close>

definition no_positional_flag :: "'d command \<Rightarrow> bool" where
  "no_positional_flag c \<longleftrightarrow> (\<forall>a \<in> set (cmd_args c). ad_positional a \<longrightarrow> ad_type a \<noteq> ArgType_Flag)"

fun no_positional_flags :: "'d command \<Rightarrow> bool" where
  "no_positional_flags (Command i subs) \<longleftrightarrow>
     no_positional_flag (Command i subs) \<and> (\<forall>p \<in> set subs. no_positional_flags (snd p))"

lemma no_positional_flagsD: "no_positional_flags c \<Longrightarrow> no_positional_flag c"
  "no_positional_flags c \<Longrightarrow> p \<in> set (m_commands c) \<Longrightarrow> no_positional_flags (snd p)"
  by (cases c, simp)+

lemma step_positional_index:
  assumes "step_positional fp cmd pfx tokens token st = Continue st'" and "no_positional_flag cmd"
  shows "ps_index st < ps_index st'"
proof -
  have "ad_type (pos_args_of cmd ! k) \<noteq> ArgType_Flag" if "k < length (pos_args_of cmd)" for k
    using assms(2) nth_mem [OF that] by (auto simp: pos_args_of_def no_positional_flag_def)
  with assms(1) show ?thesis
    by (auto simp: step_positional_def Let_def split: if_splits option.splits prod.splits arg_type.splits
        dest!: collect_values_le)
qed

lemma parse_step_index [progress_rules]:
  assumes "parse_step fp hooks cmd pfx j tokens st = Continue st'" and "no_positional_flag cmd"
  shows "ps_index st < length tokens \<and> ps_index st < ps_index st'"
  using assms(1) step_positional_index [OF _ assms(2)] step_option_index
  by (auto simp: parse_step_def step_passthrough_def step_unknown_command_def Let_def
      split: if_splits resolution.splits)

lemma resolve_member: "resolve_subcommand subs w = Resolved c \<Longrightarrow> \<exists>p \<in> set subs. snd p = c"
  using resolve_sound by blast

lemma parse_step_descend:
  assumes "parse_step fp hooks cmd pfx j tokens st = Descend sub pfx' j' idx"
  shows "ps_index st < length tokens \<and> idx = Suc (ps_index st) \<and> (\<exists>p \<in> set (m_commands cmd). snd p = sub)"
  using assms resolve_member
  by (auto simp: parse_step_def Let_def split: if_splits resolution.splits)

lemma parse_loop_total:
  assumes "no_positional_flags cmd"
  shows "\<exists>r idx. parse_loop fp hooks tokens cmd pfx j st = Some (r, idx)"
  using assms
proof (induction "length tokens - ps_index st" arbitrary: cmd pfx j st rule: less_induct)
  case less
  note flag = no_positional_flagsD(1) [OF less.prems]
  show ?case
  proof (cases "parse_step fp hooks cmd pfx j tokens st")
    case (Continue st')
    with less.hyps [of st' cmd] less.prems parse_step_index [OF Continue flag] show ?thesis
      by (subst parse_loop.simps) auto
  next
    case (Descend sub pfx' j' idx)
    note d = parse_step_descend [OF Descend]
    then have "no_positional_flags sub" using no_positional_flagsD(2) [OF less.prems] by blast
    with d less.hyps [of "initial_state sub pfx' idx" sub] Descend show ?thesis
      by (subst parse_loop.simps) (auto simp: initial_state_def)
  qed (subst parse_loop.simps, simp)+
qed

text \<open>
  C9. Parsing ends: on every token list and for every command whose tree has no positional argument
  of type flag, \<open>Command::parse\<close> returns a result (or an exception of the handler).
\<close>

theorem command_parse_terminates:
  assumes "no_positional_flags cmd"
  shows "\<exists>r idx'. command_parse fp hooks cmd tokens idx pfx json_inherited = Some (r, idx')"
  using parse_loop_total [OF assms] by (simp add: command_parse_def)

theorem command_parse_terminates_witness:
  "\<exists>r idx'. command_parse fp0 [] ds_group [make_id ''ls'' (0, 2)] 0 [] False = Some (r, idx')"
  by (rule command_parse_terminates)
    (simp add: ds_group_def ls_command_def no_positional_flag_def new_command_def update_info_def
      ensure_help_argument_def ensure_json_argument_def help_argument_def json_argument_def mk_argument_def_def)

lemma parse_loop_not_stuck:
  "parse_loop fp hooks tokens cmd pfx j st = Some y \<Longrightarrow> parse_step fp hooks cmd pfx j tokens st \<noteq> Continue st"
proof (induction rule: parse_loop.raw_induct [rotated, consumes 1, case_names step])
  case (step loop fp hooks tokens cmd pfx j st y)
  show ?case
  proof
    assume c: "parse_step fp hooks cmd pfx j tokens st = Continue st"
    with step(2) have "loop fp hooks tokens cmd pfx j st = Some y" by simp
    with step(1) c show False by blast
  qed
qed

text \<open>
  A positional argument of type flag, which \<open>add_arg\<close> and the argument builder accept, is never
  consumed: when the loop reaches it with a boolean word as the token, the parse does not end.
\<close>

theorem positional_flag_diverges:
  assumes "ps_pos_index st < length (pos_args_of cmd)"
    and "ad_type (pos_args_of cmd ! ps_pos_index st) = ArgType_Flag"
    and "ps_index st < length tokens" and "tok_kind (tokens ! ps_index st) = TokTrue"
  shows "parse_loop fp hooks tokens cmd pfx j st = None"
proof -
  have stuck: "parse_step fp hooks cmd pfx j tokens st = Continue st"
    using assms by (simp add: parse_step_def step_positional_def parse_token_value_def Let_def)
  show ?thesis
    using stuck parse_loop_not_stuck [of fp hooks tokens cmd pfx j st]
    by (cases "parse_loop fp hooks tokens cmd pfx j st") auto
qed

text \<open>A command with a positional argument of type flag.\<close>

definition flag_cmd :: "unit command" where
  "flag_cmd = update_args (\<lambda>as. as @ [(argument_builder ''f'')\<lparr>ad_positional := True\<rparr>]) (new_command ''t'' [])"

theorem positional_flag_diverges_witness:
  "command_parse fp0 [] flag_cmd [simple_token TokTrue (0, 4)] 0 [] False = None"
proof -
  have "pos_args_of flag_cmd = [(argument_builder ''f'')\<lparr>ad_positional := True\<rparr>]"
    by (simp add: pos_args_of_def flag_cmd_def update_args_def update_info_def new_command_def
        ensure_help_argument_def ensure_json_argument_def help_argument_def json_argument_def mk_argument_def_def
        argument_builder_def)
  then show ?thesis
    unfolding command_parse_def
    by (intro positional_flag_diverges) (simp_all add: initial_state_def argument_builder_def mk_argument_def_def
        simple_token_def)
qed

section \<open>Status, exit code and messages\<close>

text \<open>The result while the loop runs: nothing has been reported or printed.\<close>

definition fresh_result :: "'d command \<Rightarrow> string \<Rightarrow> 'd parse_result \<Rightarrow> bool" where
  "fresh_result cmd pfx r \<longleftrightarrow>
     pr_status r = ParserStatus_Success \<and> pr_exit_code r = 0 \<and> pr_error_message r = [] \<and>
     pr_cout r = [] \<and> pr_cerr r = [] \<and> pr_command r = Some cmd \<and> pr_command_path r = pfx @ cmd_name cmd \<and>
     \<not> pr_json_requested r \<and> \<not> pr_json_suppressed r"

text \<open>A parse error: the message is set, the exit code is one, and message and help are on stderr.\<close>

definition error_reported :: "'d fp_ops \<Rightarrow> 'd command \<Rightarrow> string \<Rightarrow> 'd parse_result \<Rightarrow> bool" where
  "error_reported fp cmd pfx r \<longleftrightarrow>
     pr_status r = ParserStatus_ParseError \<and> pr_exit_code r = 1 \<and> pr_error_message r \<noteq> [] \<and>
     prefix (''Error: '' @ pr_error_message r) (pr_cerr r) \<and> suffix (generate_help fp cmd pfx) (pr_cerr r) \<and>
     pr_cout r = []"

definition help_shown :: "'d fp_ops \<Rightarrow> 'd command \<Rightarrow> string \<Rightarrow> 'd parse_result \<Rightarrow> bool" where
  "help_shown fp cmd pfx r \<longleftrightarrow>
     pr_status r = ParserStatus_HelpRequested \<and> pr_exit_code r = 0 \<and> pr_error_message r = [] \<and>
     pr_cout r = generate_help fp cmd pfx \<and> pr_cerr r = []"

definition hook_abort :: "('d command \<Rightarrow> bool \<Rightarrow> bool) list \<Rightarrow> 'd command \<Rightarrow> bool \<Rightarrow> 'd parse_result \<Rightarrow> bool" where
  "hook_abort hooks cmd is_help r \<longleftrightarrow>
     pr_status r = ParserStatus_Success \<and> pr_exit_code r = 1 \<and> pr_error_message r = [] \<and>
     pr_cout r = [] \<and> pr_cerr r = [] \<and> \<not> execute_pre_hooks hooks cmd is_help"

definition early_result ::
    "'d fp_ops \<Rightarrow> ('d command \<Rightarrow> bool \<Rightarrow> bool) list \<Rightarrow> 'd command \<Rightarrow> string \<Rightarrow> 'd parse_result \<Rightarrow> bool" where
  "early_result fp hooks cmd pfx r \<longleftrightarrow>
     error_reported fp cmd pfx r \<or> help_shown fp cmd pfx r \<or> hook_abort hooks cmd True r"

lemma fresh_simps [simp]:
  "fresh_result cmd pfx (ps_result (set_value n v st)) \<longleftrightarrow> fresh_result cmd pfx (ps_result st)"
  "fresh_result cmd pfx (ps_result (set_dynamic_value n v st)) \<longleftrightarrow> fresh_result cmd pfx (ps_result st)"
  "fresh_result cmd pfx (r\<lparr>pr_passthrough_args := ps\<rparr>) \<longleftrightarrow> fresh_result cmd pfx r"
  by (simp_all add: fresh_result_def set_value_def set_dynamic_value_def)

lemma fresh_initial [simp]: "fresh_result cmd pfx (ps_result (initial_state cmd pfx idx))"
  by (simp add: fresh_result_def initial_state_def empty_result_def)

lemma fail_with_simps [simp]:
  "pr_status (fail_with fp cmd pfx st msg after) = ParserStatus_ParseError"
  "pr_exit_code (fail_with fp cmd pfx st msg after) = 1"
  "pr_error_message (fail_with fp cmd pfx st msg after) = msg"
  "pr_cout (fail_with fp cmd pfx st msg after) = pr_cout (ps_result st)"
  "pr_cerr (fail_with fp cmd pfx st msg after) =
     pr_cerr (ps_result st) @ ''Error: '' @ msg @ [NL] @ after @ generate_help fp cmd pfx"
  by (simp_all add: fail_with_def Let_def)

lemma fail_with_reported:
  assumes "fresh_result cmd pfx (ps_result st)" and "msg \<noteq> []"
  shows "error_reported fp cmd pfx (fail_with fp cmd pfx st msg after)"
proof -
  let ?r = "fail_with fp cmd pfx st msg after"
  have "pr_cerr (ps_result st) = []" "pr_cout (ps_result st) = []" using assms(1) by (simp_all add: fresh_result_def)
  then have e: "pr_cerr ?r = (''Error: '' @ msg) @ ([NL] @ after @ generate_help fp cmd pfx)"
    and o: "pr_cout ?r = []"
    by (simp_all only: fail_with_simps append_Nil append_assoc)
  have "prefix (''Error: '' @ pr_error_message ?r) (pr_cerr ?r)"
    unfolding fail_with_simps(3) e by (rule prefixI, rule refl)
  moreover have "suffix (generate_help fp cmd pfx) (pr_cerr ?r)"
    unfolding e by (rule suffixI [of _ "(''Error: '' @ msg) @ [NL] @ after"]) (simp only: append_assoc)
  ultimately show ?thesis unfolding error_reported_def using assms(2) o by (simp only: fail_with_simps simp_thms)
qed

lemma help_result_shown:
  "fresh_result cmd pfx r \<Longrightarrow> help_shown fp cmd pfx (show_help_result fp cmd pfx r)"
  by (simp add: help_shown_def show_help_result_def fresh_result_def)

text \<open>What every branch of the loop body promises.\<close>

definition step_ok ::
    "'d fp_ops \<Rightarrow> ('d command \<Rightarrow> bool \<Rightarrow> bool) list \<Rightarrow> 'd command \<Rightarrow> string \<Rightarrow> 'd step \<Rightarrow> bool" where
  "step_ok fp hooks cmd pfx s \<longleftrightarrow>
     (case s of
        Continue st \<Rightarrow> fresh_result cmd pfx (ps_result st)
      | Break st \<Rightarrow> fresh_result cmd pfx (ps_result st)
      | Return res idx \<Rightarrow> (\<exists>r. res = Inr r \<and> early_result fp hooks cmd pfx r)
      | Descend _ _ _ _ \<Rightarrow> True)"

lemma step_ok_simps [simp]:
  "step_ok fp hooks cmd pfx (Continue st) \<longleftrightarrow> fresh_result cmd pfx (ps_result st)"
  "step_ok fp hooks cmd pfx (Break st) \<longleftrightarrow> fresh_result cmd pfx (ps_result st)"
  "step_ok fp hooks cmd pfx (Return (Inr r) idx) \<longleftrightarrow> early_result fp hooks cmd pfx r"
  "step_ok fp hooks cmd pfx (Descend sub p j idx)"
  by (simp_all add: step_ok_def)

lemma step_ok_fail [intro]:
  "fresh_result cmd pfx (ps_result st) \<Longrightarrow> msg \<noteq> [] \<Longrightarrow> step_ok fp hooks cmd pfx (parse_fail fp cmd pfx st msg)"
  by (simp add: parse_fail_def early_result_def fail_with_reported)

lemma fresh_index [simp]:
  "ps_result (st\<lparr>ps_index := k\<rparr>) = ps_result st" "ps_result (st\<lparr>ps_pos_index := k\<rparr>) = ps_result st"
  by simp_all

lemma step_ok_combined:
  "fresh_result cmd pfx (ps_result st) \<Longrightarrow> step_ok fp hooks cmd pfx (step_combined fp cmd pfx cs st)"
proof (induction fp cmd pfx cs st rule: step_combined.induct)
  case (2 fp cmd pfx c cs st)
  then show ?case
    by (auto simp: early_result_def help_result_shown split: option.splits)
qed simp

lemma step_ok_branches:
  assumes "fresh_result cmd pfx (ps_result st)"
  shows "step_ok fp hooks cmd pfx (step_passthrough fp cmd pfx tokens st)"
    "step_ok fp hooks cmd pfx (step_dynamic fp cmd pfx tokens n st)"
    "step_ok fp hooks cmd pfx (step_unknown_option fp cmd pfx n sh st)"
    "step_ok fp hooks cmd pfx (step_flag_value fp tokens arg st)"
    "step_ok fp hooks cmd pfx (step_option_value fp cmd pfx tokens arg st)"
    "step_ok fp hooks cmd pfx (step_unknown_command fp cmd pfx n st)"
    "step_ok fp hooks cmd pfx (step_positional fp cmd pfx tokens token st)"
  subgoal using assms by (auto simp: step_passthrough_def Let_def)
  subgoal using assms by (auto simp: step_dynamic_def Let_def split: arg_type.splits prod.splits)
  subgoal using assms by (auto simp: step_unknown_option_def early_result_def fail_with_reported)
  subgoal using assms by (auto simp: step_flag_value_def Let_def)
  subgoal using assms by (auto simp: step_option_value_def Let_def split: option.splits prod.splits)
  subgoal using assms by (auto simp: step_unknown_command_def early_result_def fail_with_reported)
  subgoal using assms by (auto simp: step_positional_def Let_def split: option.splits prod.splits arg_type.splits)
  done

lemma step_ok_option:
  assumes "fresh_result cmd pfx (ps_result st)"
  shows "step_ok fp hooks cmd pfx (step_option fp hooks cmd pfx tokens token st)"
proof -
  have "hook_abort hooks cmd True ((ps_result st)\<lparr>pr_exit_code := 1\<rparr>)" if "\<not> execute_pre_hooks hooks cmd True"
    using assms that by (simp add: hook_abort_def fresh_result_def)
  then show ?thesis
    using assms step_ok_combined [of cmd pfx "advance st"] step_ok_branches [of cmd pfx]
    by (auto simp: step_option_def Let_def early_result_def help_result_shown split: option.splits)
qed

lemma step_ok_parse_step:
  assumes "fresh_result cmd pfx (ps_result st)"
  shows "step_ok fp hooks cmd pfx (parse_step fp hooks cmd pfx j tokens st)"
  using assms step_ok_option [OF assms] step_ok_branches [OF assms]
  by (auto simp: parse_step_def Let_def split: resolution.splits)


section \<open>Runs of the loop\<close>

text \<open>
  The loop as a transition system: a configuration is a command with the prefix and the inherited
  JSON flag its parse was called with, and the state. A run ends by leaving the loop or by returning
  from its body.
\<close>

inductive runs_to ::
    "'d fp_ops \<Rightarrow> ('d command \<Rightarrow> bool \<Rightarrow> bool) list \<Rightarrow> 'd token list \<Rightarrow> 'd command \<Rightarrow> string \<Rightarrow> bool \<Rightarrow>
     'd parse_state \<Rightarrow> 'd command \<Rightarrow> string \<Rightarrow> bool \<Rightarrow> 'd parse_state \<Rightarrow> bool"
  for fp hooks tokens where
  runs_here: "runs_to fp hooks tokens cmd pfx j st cmd pfx j st"
| runs_continue: "parse_step fp hooks cmd pfx j tokens st = Continue st' \<Longrightarrow>
     runs_to fp hooks tokens cmd pfx j st' C P J S \<Longrightarrow> runs_to fp hooks tokens cmd pfx j st C P J S"
| runs_descend: "parse_step fp hooks cmd pfx j tokens st = Descend sub pfx' j' idx \<Longrightarrow>
     runs_to fp hooks tokens sub pfx' j' (initial_state sub pfx' idx) C P J S \<Longrightarrow>
     runs_to fp hooks tokens cmd pfx j st C P J S"

definition loop_end ::
    "'d fp_ops \<Rightarrow> ('d command \<Rightarrow> bool \<Rightarrow> bool) list \<Rightarrow> 'd token list \<Rightarrow> 'd command \<Rightarrow> string \<Rightarrow> bool \<Rightarrow>
     'd parse_state \<Rightarrow> (exn + 'd parse_result) \<times> nat \<Rightarrow> bool" where
  "loop_end fp hooks tokens C P J S y \<longleftrightarrow>
     (case parse_step fp hooks C P J tokens S of
        Break S' \<Rightarrow> y = (parse_finish fp hooks C P J S', ps_index S')
      | Return res idx \<Rightarrow> y = (res, idx)
      | _ \<Rightarrow> False)"

lemma parse_loop_cases:
  assumes "parse_loop fp hooks tokens cmd pfx j st = Some y"
  shows "\<exists>C P J S. runs_to fp hooks tokens cmd pfx j st C P J S \<and> loop_end fp hooks tokens C P J S y"
  using assms
proof (induction rule: parse_loop.raw_induct [rotated, consumes 1, case_names step])
  case (step loop fp hooks tokens cmd pfx j st y)
  show ?case
  proof (cases "parse_step fp hooks cmd pfx j tokens st")
    case (Continue st')
    with step(2) have "loop fp hooks tokens cmd pfx j st' = Some y" by simp
    from step(1) [OF this] show ?thesis using runs_continue [OF Continue] by blast
  next
    case (Descend sub pfx' j' idx)
    with step(2) have "loop fp hooks tokens sub pfx' j' (initial_state sub pfx' idx) = Some y" by simp
    from step(1) [OF this] show ?thesis using runs_descend [OF Descend] by blast
  next
    case (Break st')
    with step(2) have "loop_end fp hooks tokens cmd pfx j st y" by (simp add: loop_end_def)
    then show ?thesis using runs_here by blast
  next
    case (Return res idx)
    with step(2) have "loop_end fp hooks tokens cmd pfx j st y" by (simp add: loop_end_def)
    then show ?thesis using runs_here by blast
  qed
qed

lemma runs_to_fresh:
  "runs_to fp hooks tokens cmd pfx j st C P J S \<Longrightarrow> fresh_result cmd pfx (ps_result st) \<Longrightarrow>
     fresh_result C P (ps_result S)"
proof (induction rule: runs_to.induct)
  case (runs_continue cmd pfx j st st' C P J S)
  then show ?case using step_ok_parse_step [of cmd pfx st fp hooks j tokens] by simp
qed simp_all

section \<open>The end of a parse\<close>

text \<open>The handler ran, after the hooks allowed it, and its exit code is the exit code of the result.\<close>

definition handled :: "('d command \<Rightarrow> bool \<Rightarrow> bool) list \<Rightarrow> 'd command \<Rightarrow> 'd parse_result \<Rightarrow> bool" where
  "handled hooks c r \<longleftrightarrow>
     (\<exists>h ctx ctx' code. m_handler (cmd_info c) = Some h \<and> execute_pre_hooks hooks c False \<and>
        h ctx = Inr (ctx', code) \<and> pr_status r = ParserStatus_Success \<and> pr_exit_code r = code \<and>
        pr_error_message r = [])"

definition nothing_to_run :: "'d command \<Rightarrow> 'd parse_result \<Rightarrow> bool" where
  "nothing_to_run c r \<longleftrightarrow>
     m_handler (cmd_info c) = None \<and> m_commands c = [] \<and> pr_status r = ParserStatus_Success \<and>
     pr_exit_code r = 0 \<and> pr_error_message r = []"

lemma run_handler_handled:
  assumes "run_handler c j h r = Inr r'" and "fresh_result c p r" and "m_handler (cmd_info c) = Some h"
    and "execute_pre_hooks hooks c False"
  shows "handled hooks c r'"
proof -
  from assms(1) obtain ctx ctx' code where "h ctx = Inr (ctx', code)"
    "pr_status r' = pr_status r" "pr_exit_code r' = code" "pr_error_message r' = pr_error_message r"
    by (auto simp: run_handler_def Let_def split: if_splits)
  with assms(2-4) show ?thesis by (auto simp: handled_def fresh_result_def)
qed

lemma finish_positional_fresh:
  "finish_positional as st = (m, st') \<Longrightarrow> fresh_result c p (ps_result st) \<Longrightarrow> fresh_result c p (ps_result st')"
  by (induction as arbitrary: st) (auto split: if_splits)

lemma parse_finish_outcome:
  assumes "parse_finish fp hooks c p j st = Inr r" and "fresh_result c p (ps_result st)"
  shows "error_reported fp c p r \<or> help_shown fp c p r \<or> (\<exists>b. hook_abort hooks c b r) \<or> handled hooks c r \<or> nothing_to_run c r"
proof -
  obtain m st1 where fp1: "finish_positional (drop (ps_pos_index st) (pos_args_of c)) st = (m, st1)" by fastforce
  note fresh1 = finish_positional_fresh [OF fp1 assms(2)]
  have abort: "hook_abort hooks c b ((ps_result st1)\<lparr>pr_exit_code := 1\<rparr>)" if "\<not> execute_pre_hooks hooks c b" for b
    using that fresh1 by (simp add: hook_abort_def fresh_result_def)
  have run: "handled hooks c r" if "run_handler c j h (ps_result st1) = Inr r" "m_handler (cmd_info c) = Some h"
      "execute_pre_hooks hooks c False" for h
    using run_handler_handled [OF that(1) fresh1 that(2,3)] .
  have none: "nothing_to_run c (ps_result st1)" if "m_handler (cmd_info c) = None" "m_commands c = []"
    using that fresh1 by (simp add: nothing_to_run_def fresh_result_def)
  have err: "error_reported fp c p (fail_with fp c p st' msg [NL])"
    if "fresh_result c p (ps_result st')" "msg \<noteq> []" for st' msg
    using fail_with_reported [OF that] .
  show ?thesis
    using assms fp1 fresh1 abort run none help_result_shown [OF fresh1, of fp]
    unfolding parse_finish_def Let_def
    by (auto split: option.splits if_splits simp: conflict_message_def intro: err)
qed



section \<open>The checks after the loop\<close>

text \<open>
  What must hold for the handler to run: every required option was given, no required positional
  argument is missing, and no two options that were given conflict.
\<close>

definition all_checks :: "'d command \<Rightarrow> 'd parse_state \<Rightarrow> bool" where
  "all_checks c st \<longleftrightarrow>
     (\<forall>a \<in> set (cmd_args c). ad_required a \<and> \<not> ad_positional a \<and> \<not> ad_is_help_flag a \<longrightarrow>
        map_has (ps_seen st) (ad_name a)) \<and>
     (\<forall>a \<in> set (drop (ps_pos_index st) (pos_args_of c)). \<not> ad_required a) \<and>
     (\<forall>a \<in> set (cmd_args c). \<forall>other \<in> set (ad_conflicts_with a).
        map_has (ps_seen st) (ad_name a) \<and> map_has (ps_seen st) other \<longrightarrow> other = ad_name a)"

lemma missing_required_None:
  "missing_required c seen = None \<longleftrightarrow>
     (\<forall>a \<in> set (cmd_args c). ad_required a \<and> \<not> ad_positional a \<and> \<not> ad_is_help_flag a \<longrightarrow>
        map_has seen (ad_name a))"
  by (auto simp: missing_required_def find_None_iff)

definition with_defaults :: "'d argument_def list \<Rightarrow> 'd parse_state \<Rightarrow> 'd parse_state" where
  "with_defaults as st = fold (\<lambda>a. set_value (ad_name a) (ad_default_value a)) as st"

lemma finish_positional_None:
  "finish_positional as st = (None, st') \<longleftrightarrow> (\<forall>a \<in> set as. \<not> ad_required a) \<and> st' = with_defaults as st"
  by (induction as arbitrary: st) (auto simp: with_defaults_def)

lemma finish_positional_seen: "finish_positional as st = (m, st') \<Longrightarrow> ps_seen st' = ps_seen st"
  by (induction as arbitrary: st) (auto split: if_splits)

lemma insert_pair_nonempty [simp]: "insert_pair p ps \<noteq> []"
  by (cases ps) auto

lemma fold_insert_pair: "fold insert_pair ps qs = [] \<longleftrightarrow> ps = [] \<and> qs = []"
  by (induction ps arbitrary: qs) auto

lemma conflict_pairs_Nil:
  "conflict_pairs c seen = [] \<longleftrightarrow>
     (\<forall>a \<in> set (cmd_args c). \<forall>other \<in> set (ad_conflicts_with a).
        map_has seen (ad_name a) \<and> map_has seen other \<longrightarrow> other = ad_name a)"
proof -
  have "conflicts_of seen a = [] \<longleftrightarrow> (\<forall>other \<in> set (ad_conflicts_with a).
      map_has seen (ad_name a) \<and> map_has seen other \<longrightarrow> other = ad_name a)" for a :: "'a argument_def"
    by (auto simp: conflicts_of_def filter_empty_conv)
  then show ?thesis by (simp add: conflict_pairs_def fold_insert_pair)
qed


end
