(* ===== verification/Worker.thy ===== *)
theory Worker
  imports Prelude
begin

text \<open>
  The worker pool of the JSON-RPC server, \<open>native/c/server/worker.hpp\<close> and \<open>worker.cpp\<close>: the state of
  a worker and of the pool, and one function per operation of \<open>Worker\<close> and \<open>WorkerPool\<close>, cut at the
  points where another thread can run (a mutex is released, a thread waits, or an atomic is written).
  \<open>Worker_Pool\<close> puts them together to the threads of the server.

  A \<open>std::shared_ptr<Worker>\<close> is an address in the store \<open>wp_heap\<close>, because a worker that the pool has
  given up lives on while its own thread runs. The steady clock counts nanoseconds.
\<close>

section \<open>Workers\<close>

datatype worker_state = Starting | Idle | Running | Stopping | Faulted | Exited

record request_metadata =
  rm_data :: string
  rm_retry_count :: nat
  rm_request_id :: string

definition mk_request_metadata :: "string \<Rightarrow> nat \<Rightarrow> string \<Rightarrow> request_metadata" where
  "mk_request_metadata d retries rid = \<lparr>rm_data = d, rm_retry_count = retries, rm_request_id = rid\<rparr>"

text \<open>
  Where the thread of a worker stands in \<open>worker_loop\<close>: not created; at the top of the loop; waiting on
  the queue; holding a request it has taken, before it is recorded as current; inside
  \<open>process_request\<close>; after it returned; out of the loop; unwinding (the request it was processing when
  an exception ended the loop); and gone.
\<close>

datatype worker_pc =
    Pc_None | Pc_Top | Pc_Waiting
  | Pc_Got request_metadata | Pc_Processing request_metadata | Pc_Processed request_metadata
  | Pc_Left | Pc_Unwind "request_metadata option" | Pc_Done "request_metadata option"

record worker =
  wk_id :: int
  wk_pc :: worker_pc
  wk_joinable :: bool
  wk_queue :: "request_metadata list"
  wk_stop_requested :: bool
  wk_state :: worker_state
  wk_heartbeat_ms :: int
  wk_current :: string
  wk_detached :: bool

definition now_ms :: "int \<Rightarrow> int" where
  "now_ms clock = clock div 1000000"

definition new_worker :: "int \<Rightarrow> int \<Rightarrow> worker" where
  "new_worker worker_id clock =
     \<lparr>wk_id = worker_id, wk_pc = Pc_None, wk_joinable = False, wk_queue = [], wk_stop_requested = False,
      wk_state = Starting, wk_heartbeat_ms = now_ms clock, wk_current = [], wk_detached = False\<rparr>"

definition update_heartbeat :: "int \<Rightarrow> worker \<Rightarrow> worker" where
  "update_heartbeat clock w = w\<lparr>wk_heartbeat_ms := now_ms clock\<rparr>"

definition add_request :: "request_metadata \<Rightarrow> worker \<Rightarrow> worker" where
  "add_request r w = w\<lparr>wk_queue := wk_queue w @ [r]\<rparr>"

definition is_ready :: "worker \<Rightarrow> bool" where
  "is_ready w \<longleftrightarrow> wk_state w = Idle \<or> wk_state w = Running"

definition is_running :: "worker \<Rightarrow> bool" where
  "is_running w \<longleftrightarrow> wk_state w = Running"

definition has_fault :: "worker \<Rightarrow> bool" where
  "has_fault w \<longleftrightarrow> wk_state w = Faulted"

definition is_stop_requested :: "worker \<Rightarrow> bool" where
  "is_stop_requested w \<longleftrightarrow>
     (if wk_state w = Stopping \<or> wk_state w = Exited \<or> wk_state w = Faulted then True else wk_stop_requested w)"

text \<open>
  \<open>start\<close> up to the creation of the thread, which may fail; with the thread created; and the store of
  the idle state, before which the new thread can already run.
\<close>

definition start_begin :: "int \<Rightarrow> worker \<Rightarrow> worker" where
  "start_begin clock w = update_heartbeat clock (w\<lparr>wk_stop_requested := False, wk_state := Starting\<rparr>)"

definition start_thread :: "int \<Rightarrow> worker \<Rightarrow> worker" where
  "start_thread clock w = (start_begin clock w)\<lparr>wk_pc := Pc_Top, wk_joinable := True\<rparr>"

definition start_idle :: "int \<Rightarrow> worker \<Rightarrow> worker" where
  "start_idle clock w = update_heartbeat clock (w\<lparr>wk_state := Idle\<rparr>)"

text \<open>
  \<open>stop\<close> in four parts: it reads the state and returns at once for a worker that has exited; it
  requests the stop; it stores the new state, depending on the one it read; and it waits for the
  thread. The wait ends when the thread has ended and is joined (at once if there is no thread to
  join), or after five seconds, when the thread is detached.
\<close>

definition stop_returns :: "worker \<Rightarrow> bool" where
  "stop_returns w \<longleftrightarrow> wk_state w = Exited"

definition stop_request :: "worker \<Rightarrow> worker" where
  "stop_request w = w\<lparr>wk_stop_requested := True\<rparr>"

definition stop_mark :: "worker_state \<Rightarrow> worker \<Rightarrow> worker" where
  "stop_mark current_state w = (if current_state \<noteq> Faulted then w\<lparr>wk_state := Stopping\<rparr> else w)"

definition exit_signalled :: "worker \<Rightarrow> bool" where
  "exit_signalled w \<longleftrightarrow> wk_state w = Exited \<or> wk_state w = Faulted"

definition thread_ended :: "worker \<Rightarrow> bool" where
  "thread_ended w \<longleftrightarrow> (case wk_pc w of Pc_None \<Rightarrow> True | Pc_Done _ \<Rightarrow> True | _ \<Rightarrow> False)"

definition stop_wait_over :: "worker \<Rightarrow> bool" where
  "stop_wait_over w \<longleftrightarrow> \<not> wk_joinable w \<or> exit_signalled w \<and> thread_ended w"

definition stop_joined :: "worker \<Rightarrow> worker" where
  "stop_joined w = w\<lparr>wk_joinable := False, wk_state := (if wk_state w \<noteq> Faulted then Exited else Faulted)\<rparr>"

definition stop_timed_out :: "worker \<Rightarrow> worker" where
  "stop_timed_out w = w\<lparr>wk_joinable := False, wk_state := Faulted\<rparr>"

definition force_detach :: "int \<Rightarrow> worker \<Rightarrow> worker" where
  "force_detach clock w =
     (let w1 = w\<lparr>wk_stop_requested := True, wk_state := Faulted\<rparr>;
          w2 = (if wk_joinable w1 then w1\<lparr>wk_detached := True, wk_joinable := False\<rparr> else w1)
      in update_heartbeat clock w2)"

definition drain_pending_requests :: "worker \<Rightarrow> request_metadata list \<times> worker" where
  "drain_pending_requests w = (wk_queue w, w\<lparr>wk_queue := []\<rparr>)"

definition get_current_request :: "worker \<Rightarrow> string" where
  "get_current_request w = wk_current w"

section \<open>The loop of a worker thread\<close>

definition loop_wait :: "int \<Rightarrow> worker \<Rightarrow> worker" where
  "loop_wait clock w = update_heartbeat clock (w\<lparr>wk_state := Idle, wk_pc := Pc_Waiting\<rparr>)"

definition wait_over :: "worker \<Rightarrow> bool" where
  "wait_over w \<longleftrightarrow> wk_stop_requested w \<or> wk_queue w \<noteq> []"

definition loop_take :: "int \<Rightarrow> worker \<Rightarrow> worker" where
  "loop_take clock w =
     (if wk_stop_requested w then update_heartbeat clock (w\<lparr>wk_state := Stopping, wk_pc := Pc_Left\<rparr>)
      else case wk_queue w of
        [] \<Rightarrow> update_heartbeat clock (w\<lparr>wk_pc := Pc_Top\<rparr>)
      | r # rs \<Rightarrow> update_heartbeat clock (w\<lparr>wk_queue := rs, wk_state := Running, wk_pc := Pc_Got r\<rparr>))"

definition loop_track :: "request_metadata \<Rightarrow> worker \<Rightarrow> worker" where
  "loop_track r w = w\<lparr>wk_current := rm_data r, wk_pc := Pc_Processing r\<rparr>"

definition loop_returned :: "int \<Rightarrow> request_metadata \<Rightarrow> worker \<Rightarrow> worker" where
  "loop_returned clock r w = update_heartbeat clock (w\<lparr>wk_pc := Pc_Processed r\<rparr>)"

definition loop_clear :: "worker \<Rightarrow> worker" where
  "loop_clear w = w\<lparr>wk_current := [], wk_pc := Pc_Top\<rparr>"

definition loop_exit :: "int \<Rightarrow> worker \<Rightarrow> worker" where
  "loop_exit clock w = update_heartbeat clock (w\<lparr>wk_state := Exited, wk_pc := Pc_Unwind None\<rparr>)"

definition loop_fault :: "int \<Rightarrow> request_metadata \<Rightarrow> worker \<Rightarrow> worker" where
  "loop_fault clock r w =
     (update_heartbeat clock (w\<lparr>wk_state := Faulted\<rparr>))\<lparr>wk_stop_requested := True, wk_pc := Pc_Unwind (Some r)\<rparr>"

definition loop_unwound :: "request_metadata option \<Rightarrow> worker \<Rightarrow> worker" where
  "loop_unwound ro w = w\<lparr>wk_detached := False, wk_pc := Pc_Done ro\<rparr>"

section \<open>The pool\<close>

text \<open>What the supervisor knows while it replaces a worker.\<close>

record replacement_context =
  rc_old_worker :: "nat option"
  rc_max_attempts_reached :: bool
  rc_attempt_number :: nat
  rc_applied_backoff :: "64 word"

record pool =
  wp_heap :: "worker list"
  wp_workers :: "nat option list"
  wp_ready_list :: "bool list"
  wp_ready_count :: int
  wp_replacement_attempts :: "nat list"
  wp_next_replacement_allowed :: "int list"
  wp_request_timeout :: int
  wp_max_replace_attempts :: nat
  wp_base_replace_backoff :: "64 word"
  wp_max_replace_backoff :: "64 word"
  wp_max_live_detached :: nat
  wp_ready_queue :: "nat list"
  wp_is_shutting_down :: bool
  wp_supervisor_running :: bool
  wp_live_detached :: nat
  wp_clock :: int

definition kMaxRequestRetries :: nat where
  "kMaxRequestRetries = 2"

text \<open>\<open>steady_clock::time_point::min()\<close>.\<close>

definition time_min :: int where
  "time_min = - (2 ^ 63)"

definition resize :: "nat \<Rightarrow> 'a \<Rightarrow> 'a list \<Rightarrow> 'a list" where
  "resize n x xs = take n xs @ replicate (n - length xs) x"

definition new_pool :: "int \<Rightarrow> int \<Rightarrow> nat \<Rightarrow> 64 word \<Rightarrow> 64 word \<Rightarrow> int \<Rightarrow> pool" where
  "new_pool num_workers timeout_param attempts base_backoff max_backoff clock =
     (let n = nat num_workers
      in \<lparr>wp_heap = map (\<lambda>i. new_worker (int i) clock) [0..<n], wp_workers = map Some [0..<n],
          wp_ready_list = replicate n False, wp_ready_count = 0,
          wp_replacement_attempts = replicate n 0, wp_next_replacement_allowed = replicate n time_min,
          wp_request_timeout = (if timeout_param \<le> 0 then 60000 else timeout_param),
          wp_max_replace_attempts = attempts, wp_base_replace_backoff = base_backoff,
          wp_max_replace_backoff = max_backoff, wp_max_live_detached = max 2 n,
          wp_ready_queue = [], wp_is_shutting_down = False, wp_supervisor_running = (num_workers > 0),
          wp_live_detached = 0, wp_clock = clock\<rparr>)"

definition upd_worker :: "nat \<Rightarrow> (worker \<Rightarrow> worker) \<Rightarrow> pool \<Rightarrow> pool" where
  "upd_worker a f p = p\<lparr>wp_heap := (wp_heap p)[a := f (wp_heap p ! a)]\<rparr>"

text \<open>\<open>workers[i].get()\<close>, with the bounds check that guards every use of it.\<close>

definition worker_at :: "pool \<Rightarrow> nat \<Rightarrow> nat option" where
  "worker_at p i = (if i < length (wp_workers p) then wp_workers p ! i else None)"

fun pop_ready :: "pool \<Rightarrow> nat list \<Rightarrow> nat option \<times> nat list" where
  "pop_ready p [] = (None, [])"
| "pop_ready p (i # q) =
     (case worker_at p i of
        Some a \<Rightarrow> if is_ready (wp_heap p ! a) then (Some a, q @ [i]) else pop_ready p q
      | None \<Rightarrow> pop_ready p q)"

text \<open>\<open>get_ready_worker\<close>: when its wait is over, and what it then returns.\<close>

definition ready_wait_over :: "pool \<Rightarrow> bool" where
  "ready_wait_over p \<longleftrightarrow> wp_ready_count p > 0 \<or> wp_is_shutting_down p"

definition get_ready_worker :: "pool \<Rightarrow> nat option \<times> pool" where
  "get_ready_worker p =
     (if wp_is_shutting_down p then (None, p)
      else let (a, q) = pop_ready p (wp_ready_queue p) in (a, p\<lparr>wp_ready_queue := q\<rparr>))"

definition grow_ready_list :: "nat \<Rightarrow> nat \<Rightarrow> pool \<Rightarrow> pool" where
  "grow_ready_list i n p =
     (if i \<ge> length (wp_ready_list p) then p\<lparr>wp_ready_list := resize n False (wp_ready_list p)\<rparr> else p)"

definition grow_attempts :: "nat \<Rightarrow> nat \<Rightarrow> pool \<Rightarrow> pool" where
  "grow_attempts i n p =
     (if i \<ge> length (wp_replacement_attempts p)
      then p\<lparr>wp_replacement_attempts := resize n 0 (wp_replacement_attempts p),
             wp_next_replacement_allowed := resize n time_min (wp_next_replacement_allowed p)\<rparr>
      else p)"

definition set_worker_ready :: "int \<Rightarrow> pool \<Rightarrow> pool" where
  "set_worker_ready worker_id p =
     (if worker_id < 0 then p
      else if worker_id \<ge> int (length (wp_workers p)) then p
      else let i = nat worker_id in
        case wp_workers p ! i of
          None \<Rightarrow> p
        | Some a \<Rightarrow>
            let p1 = grow_attempts i (length (wp_workers p)) (grow_ready_list i (length (wp_workers p)) p)
            in if \<not> wp_ready_list p1 ! i \<and> is_ready (wp_heap p1 ! a)
               then p1\<lparr>wp_ready_list := (wp_ready_list p1)[i := True],
                       wp_ready_count := wp_ready_count p1 + 1,
                       wp_replacement_attempts := (wp_replacement_attempts p1)[i := 0],
                       wp_next_replacement_allowed := (wp_next_replacement_allowed p1)[i := time_min],
                       wp_ready_queue := wp_ready_queue p1 @ [i]\<rparr>
               else p1)"

definition get_available_workers_count :: "pool \<Rightarrow> int" where
  "get_available_workers_count p = wp_ready_count p"

section \<open>Supervision\<close>

text \<open>\<open>monitor_worker_at\<close>: the reason to replace the worker, if any, and whether to detach its thread.\<close>

definition monitor_worker_at :: "pool \<Rightarrow> nat \<Rightarrow> (string \<times> bool) option" where
  "monitor_worker_at p i =
     (if i < length (wp_next_replacement_allowed p) \<and> wp_clock p < wp_next_replacement_allowed p ! i then None
      else case worker_at p i of
        None \<Rightarrow> None
      | Some a \<Rightarrow>
          let w = wp_heap p ! a
          in if wk_state w = Faulted then Some (''fault'', False)
             else if wk_state w = Exited \<and> \<not> is_stop_requested w then Some (''unexpected exit'', False)
             else if wk_state w = Running \<and> wp_request_timeout p > 0 then
               let last_heartbeat = wk_heartbeat_ms w * 1000000
               in if last_heartbeat = time_min \<or> wp_clock p \<le> last_heartbeat then None
                  else if (wp_clock p - last_heartbeat) div 1000000 > wp_request_timeout p
                    then Some (''heartbeat timeout'', True)
                  else None
             else None)"

definition mark_worker_not_ready :: "nat \<Rightarrow> pool \<Rightarrow> bool \<times> pool" where
  "mark_worker_not_ready i p =
     (if i \<ge> length (wp_workers p) then (False, p)
      else let p1 = grow_attempts i (length (wp_workers p)) (grow_ready_list i (length (wp_workers p)) p)
        in if wp_ready_list p1 ! i
           then let p2 = p1\<lparr>wp_ready_list := (wp_ready_list p1)[i := False], wp_ready_count := wp_ready_count p1 - 1\<rparr>
             in if wp_ready_count p1 \<le> 0 then (False, p2\<lparr>wp_ready_count := 0\<rparr>) else (True, p2)
           else (True, p1))"

text \<open>
  The product of a \<open>milliseconds\<close> duration and an unsigned 64-bit factor has an unsigned 64-bit
  representation, in which the comparison with the maximum is made too.
\<close>

definition computed_backoff :: "64 word \<Rightarrow> 64 word \<Rightarrow> nat \<Rightarrow> 64 word" where
  "computed_backoff base maxb attempt =
     (let b = base * push_bit (attempt - 1) 1 in if b > maxb then maxb else b)"

text \<open>The sum of a time point and an unsigned 64-bit duration wraps around and is stored as signed.\<close>

definition backoff_end :: "int \<Rightarrow> 64 word \<Rightarrow> int" where
  "backoff_end clock backoff = sint (word_of_int (clock + 1000000 * uint backoff) :: 64 word)"

definition prepare_worker_replacement :: "nat \<Rightarrow> pool \<Rightarrow> replacement_context \<times> pool" where
  "prepare_worker_replacement i p =
     (if i \<ge> length (wp_workers p)
      then (\<lparr>rc_old_worker = None, rc_max_attempts_reached = False, rc_attempt_number = 0, rc_applied_backoff = 0\<rparr>, p)
      else
        let attempts = wp_replacement_attempts p ! i;
            old = wp_workers p ! i;
            moved = p\<lparr>wp_workers := (wp_workers p)[i := None]\<rparr>
        in if attempts \<ge> wp_max_replace_attempts p
           then (\<lparr>rc_old_worker = old, rc_max_attempts_reached = True, rc_attempt_number = 0, rc_applied_backoff = 0\<rparr>, moved)
           else let attempt = attempts + 1;
                    backoff = computed_backoff (wp_base_replace_backoff p) (wp_max_replace_backoff p) attempt
             in (\<lparr>rc_old_worker = old, rc_max_attempts_reached = False, rc_attempt_number = attempt,
                   rc_applied_backoff = backoff\<rparr>,
                 moved\<lparr>wp_replacement_attempts := (wp_replacement_attempts p)[i := attempt],
                       wp_next_replacement_allowed :=
                         (wp_next_replacement_allowed p)[i := backoff_end (wp_clock p) backoff]\<rparr>))"

text \<open>
  The requests \<open>recover_requests_from_worker\<close> returns, given what it drained and the request the worker
  was processing, and whether it sends a timeout error for that request.
\<close>

definition recovered_requests :: "request_metadata list \<Rightarrow> string \<Rightarrow> bool \<Rightarrow> request_metadata list" where
  "recovered_requests pending current_req detach =
     pending @ (if current_req \<noteq> [] \<and> \<not> detach then [mk_request_metadata current_req 0 []] else [])"

definition sends_timeout_error :: "string \<Rightarrow> bool \<Rightarrow> bool" where
  "sends_timeout_error current_req detach \<longleftrightarrow> current_req \<noteq> [] \<and> detach"

definition force_detach_at :: "nat \<Rightarrow> pool \<Rightarrow> pool" where
  "force_detach_at a p =
     (upd_worker a (force_detach (wp_clock p)) p)
       \<lparr>wp_live_detached := wp_live_detached p + (if wk_joinable (wp_heap p ! a) then 1 else 0)\<rparr>"

definition unwind_at :: "nat \<Rightarrow> request_metadata option \<Rightarrow> pool \<Rightarrow> pool" where
  "unwind_at a ro p =
     (upd_worker a (loop_unwound ro) p)
       \<lparr>wp_live_detached := wp_live_detached p - (if wk_detached (wp_heap p ! a) then 1 else 0)\<rparr>"

text \<open>\<open>enforce_detached_worker_limit\<close>: whether the process exits.\<close>

definition detached_limit_exceeded :: "pool \<Rightarrow> bool" where
  "detached_limit_exceeded p \<longleftrightarrow> wp_live_detached p > wp_max_live_detached p"

definition spawn_replacement_worker :: "nat \<Rightarrow> pool \<Rightarrow> pool" where
  "spawn_replacement_worker i p =
     (let a = length (wp_heap p);
          p1 = p\<lparr>wp_heap := wp_heap p @ [new_worker (int i) (wp_clock p)]\<rparr>;
          p2 = (if i \<ge> length (wp_workers p1) then p1\<lparr>wp_workers := resize (i + 1) None (wp_workers p1)\<rparr> else p1);
          p3 = grow_attempts i (i + 1) (grow_ready_list i (i + 1) p2)
      in p3\<lparr>wp_workers := (wp_workers p3)[i := Some a], wp_ready_list := (wp_ready_list p3)[i := False]\<rparr>)"

text \<open>One round of the loop of \<open>redistribute_requests\<close>: the request to hand out again, if it is not discarded.\<close>

definition retry_request :: "request_metadata \<Rightarrow> request_metadata option" where
  "retry_request r =
     (if rm_retry_count r \<ge> kMaxRequestRetries then None
      else Some (r\<lparr>rm_retry_count := rm_retry_count r + 1\<rparr>))"

end
