(* ===== verification/Worker_Pool.thy ===== *)
theory Worker_Pool
  imports Worker "HOL-Library.Multiset"
begin

text \<open>
  The threads of the worker pool as one transition system: the main thread, which hands requests to
  the pool and shuts it down; the supervisor, which replaces workers; one initializer per started
  worker; and one thread per worker. A step is what a thread does between two points where another
  one can run. The theorems are invariants of every interleaving.
\<close>

section \<open>Threads\<close>

datatype init_pc = Init_Start nat | Init_Idle nat nat | Init_Ready nat

datatype stop_pc = Stop_Begin | Stop_Request worker_state | Stop_Mark worker_state | Stop_Wait

datatype sup_pc =
    Sup_Scan nat
  | Sup_Replace nat bool
  | Sup_Prepare nat bool
  | Sup_Drain nat bool replacement_context
  | Sup_Current nat bool replacement_context "request_metadata list"
  | Sup_Stop nat replacement_context "request_metadata list" stop_pc
  | Sup_Detach nat replacement_context "request_metadata list"
  | Sup_Limit nat replacement_context "request_metadata list"
  | Sup_Spawn nat replacement_context "request_metadata list"
  | Sup_Redistribute nat "request_metadata list"
  | Sup_Each nat "request_metadata list"
  | Sup_Get nat request_metadata "request_metadata list"
  | Sup_Add nat nat request_metadata "request_metadata list"
  | Sup_Ended

datatype main_pc =
    Main_Read
  | Main_Distribute request_metadata
  | Main_Add nat request_metadata
  | Main_Join_Supervisor
  | Main_Join_Initializers
  | Main_Stop nat stop_pc
  | Main_Ended

text \<open>
  The state of the server: the pool, its threads, and what has been observed so far: the requests
  accepted from the client, those whose processing returned, those a timeout error was sent for, those
  discarded after too many retries, and those dropped because no worker was found.
\<close>

record system =
  sy_pool :: pool
  sy_inits :: "init_pc list"
  sy_sup :: sup_pc
  sy_main :: main_pc
  sy_accepted :: "string list"
  sy_served :: "string list"
  sy_timed_out :: "string list"
  sy_discarded :: "string list"
  sy_dropped :: "string list"
  sy_halted :: bool

definition initial_system :: "int \<Rightarrow> int \<Rightarrow> nat \<Rightarrow> 64 word \<Rightarrow> 64 word \<Rightarrow> int \<Rightarrow> system" where
  "initial_system n timeout attempts base maxb clock =
     \<lparr>sy_pool = new_pool n timeout attempts base maxb clock, sy_inits = map Init_Start [0..<nat n],
      sy_sup = (if n > 0 then Sup_Scan 0 else Sup_Ended), sy_main = Main_Read,
      sy_accepted = [], sy_served = [], sy_timed_out = [], sy_discarded = [], sy_dropped = [], sy_halted = False\<rparr>"

abbreviation worker_of :: "system \<Rightarrow> nat \<Rightarrow> worker" where
  "worker_of s a \<equiv> wp_heap (sy_pool s) ! a"

abbreviation clock_of :: "system \<Rightarrow> int" where
  "clock_of s \<equiv> wp_clock (sy_pool s)"

definition on_pool :: "(pool \<Rightarrow> pool) \<Rightarrow> system \<Rightarrow> system" where
  "on_pool f s = s\<lparr>sy_pool := f (sy_pool s)\<rparr>"

definition on_worker :: "nat \<Rightarrow> (worker \<Rightarrow> worker) \<Rightarrow> system \<Rightarrow> system" where
  "on_worker a f s = on_pool (upd_worker a f) s"

text \<open>\<open>Worker::stop\<close> as it is run by the supervisor and at shutdown; it returns at \<^const>\<open>None\<close>.\<close>

inductive stop_step :: "nat \<Rightarrow> stop_pc \<Rightarrow> system \<Rightarrow> stop_pc option \<Rightarrow> system \<Rightarrow> bool" where
  stop_exited: "stop_returns (worker_of s a) \<Longrightarrow> stop_step a Stop_Begin s None s"
| stop_read: "\<not> stop_returns (worker_of s a) \<Longrightarrow>
    stop_step a Stop_Begin s (Some (Stop_Request (wk_state (worker_of s a)))) s"
| stop_requested: "stop_step a (Stop_Request st) s (Some (Stop_Mark st)) (on_worker a stop_request s)"
| stop_marked: "stop_step a (Stop_Mark st) s (Some Stop_Wait) (on_worker a (stop_mark st) s)"
| stop_joins: "stop_wait_over (worker_of s a) \<Longrightarrow> stop_step a Stop_Wait s None (on_worker a stop_joined s)"
| stop_gives_up: "wk_joinable (worker_of s a) \<Longrightarrow> \<not> exit_signalled (worker_of s a) \<Longrightarrow>
    stop_step a Stop_Wait s None (on_worker a stop_timed_out s)"

section \<open>The steps\<close>

text \<open>The thread of the worker at an address, with the two outcomes of \<open>process_request\<close>.\<close>

inductive worker_step :: "nat \<Rightarrow> system \<Rightarrow> system \<Rightarrow> bool" where
  w_wait: "wk_pc (worker_of s a) = Pc_Top \<Longrightarrow> worker_step a s (on_worker a (loop_wait (clock_of s)) s)"
| w_take: "wk_pc (worker_of s a) = Pc_Waiting \<Longrightarrow> wait_over (worker_of s a) \<Longrightarrow>
    worker_step a s (on_worker a (loop_take (clock_of s)) s)"
| w_track: "wk_pc (worker_of s a) = Pc_Got r \<Longrightarrow> worker_step a s (on_worker a (loop_track r) s)"
| w_beat: "wk_pc (worker_of s a) = Pc_Processing r \<Longrightarrow> worker_step a s (on_worker a (update_heartbeat (clock_of s)) s)"
| w_return: "wk_pc (worker_of s a) = Pc_Processing r \<Longrightarrow>
    worker_step a s ((on_worker a (loop_returned (clock_of s) r) s)\<lparr>sy_served := sy_served s @ [rm_data r]\<rparr>)"
| w_throw: "wk_pc (worker_of s a) = Pc_Processing r \<Longrightarrow> worker_step a s (on_worker a (loop_fault (clock_of s) r) s)"
| w_clear: "wk_pc (worker_of s a) = Pc_Processed r \<Longrightarrow> worker_step a s (on_worker a loop_clear s)"
| w_exit: "wk_pc (worker_of s a) = Pc_Left \<Longrightarrow> worker_step a s (on_worker a (loop_exit (clock_of s)) s)"
| w_unwind: "wk_pc (worker_of s a) = Pc_Unwind ro \<Longrightarrow> worker_step a s (on_pool (unwind_at a ro) s)"

text \<open>An initializer thread: \<open>initialize_worker\<close>, where creating the worker thread may fail.\<close>

inductive init_step :: "init_pc \<Rightarrow> system \<Rightarrow> init_pc option \<Rightarrow> system \<Rightarrow> bool" where
  i_start: "worker_at (sy_pool s) i = Some a \<Longrightarrow>
    init_step (Init_Start i) s (Some (Init_Idle i a)) (on_worker a (start_thread (clock_of s)) s)"
| i_fail: "worker_at (sy_pool s) i = Some a \<Longrightarrow>
    init_step (Init_Start i) s None (on_worker a (start_begin (clock_of s)) s)"
| i_idle: "init_step (Init_Idle i a) s (Some (Init_Ready i)) (on_worker a (start_idle (clock_of s)) s)"
| i_ready: "init_step (Init_Ready i) s None (on_pool (set_worker_ready (int i)) s)"

definition next_scan :: "nat \<Rightarrow> system \<Rightarrow> sup_pc" where
  "next_scan i s = (if Suc i < length (wp_workers (sy_pool s)) then Sup_Scan (Suc i) else Sup_Scan 0)"

inductive sup_step :: "system \<Rightarrow> system \<Rightarrow> bool" where
  s_end: "sy_sup s = Sup_Scan i \<Longrightarrow> \<not> wp_supervisor_running (sy_pool s) \<or> wp_is_shutting_down (sy_pool s) \<Longrightarrow>
    sup_step s (s\<lparr>sy_sup := Sup_Ended\<rparr>)"
| s_healthy: "sy_sup s = Sup_Scan i \<Longrightarrow> wp_supervisor_running (sy_pool s) \<Longrightarrow> \<not> wp_is_shutting_down (sy_pool s) \<Longrightarrow>
    monitor_worker_at (sy_pool s) i = None \<Longrightarrow> sup_step s (s\<lparr>sy_sup := next_scan i s\<rparr>)"
| s_replace: "sy_sup s = Sup_Scan i \<Longrightarrow> wp_supervisor_running (sy_pool s) \<Longrightarrow> \<not> wp_is_shutting_down (sy_pool s) \<Longrightarrow>
    monitor_worker_at (sy_pool s) i = Some (reason, detach) \<Longrightarrow> sup_step s (s\<lparr>sy_sup := Sup_Replace i detach\<rparr>)"
| s_shutting: "sy_sup s = Sup_Replace i detach \<Longrightarrow> wp_is_shutting_down (sy_pool s) \<Longrightarrow>
    sup_step s (s\<lparr>sy_sup := next_scan i s\<rparr>)"
| s_mark: "sy_sup s = Sup_Replace i detach \<Longrightarrow> \<not> wp_is_shutting_down (sy_pool s) \<Longrightarrow>
    mark_worker_not_ready i (sy_pool s) = (ok, p) \<Longrightarrow>
    sup_step s (s\<lparr>sy_pool := p, sy_sup := if ok then Sup_Prepare i detach else next_scan i s\<rparr>)"
| s_prepare: "sy_sup s = Sup_Prepare i detach \<Longrightarrow> prepare_worker_replacement i (sy_pool s) = (ctx, p) \<Longrightarrow>
    sup_step s (s\<lparr>sy_pool := p, sy_sup := Sup_Drain i detach ctx\<rparr>)"
| s_no_worker: "sy_sup s = Sup_Drain i detach ctx \<Longrightarrow> rc_old_worker ctx = None \<Longrightarrow>
    sup_step s (s\<lparr>sy_sup := if detach then Sup_Limit i ctx [] else Sup_Spawn i ctx []\<rparr>)"
| s_drain: "sy_sup s = Sup_Drain i detach ctx \<Longrightarrow> rc_old_worker ctx = Some a \<Longrightarrow>
    drain_pending_requests (worker_of s a) = (pending, w) \<Longrightarrow>
    sup_step s ((on_worker a (\<lambda>_. w) s)\<lparr>sy_sup := Sup_Current i detach ctx pending\<rparr>)"
| s_current: "sy_sup s = Sup_Current i detach ctx pending \<Longrightarrow> rc_old_worker ctx = Some a \<Longrightarrow>
    current_req = get_current_request (worker_of s a) \<Longrightarrow> reqs = recovered_requests pending current_req detach \<Longrightarrow>
    sup_step s (s\<lparr>sy_timed_out := sy_timed_out s @ (if sends_timeout_error current_req detach then [current_req] else []),
                 sy_sup := if detach then Sup_Detach i ctx reqs else Sup_Stop i ctx reqs Stop_Begin\<rparr>)"
| s_stop: "sy_sup s = Sup_Stop i ctx reqs pc \<Longrightarrow> rc_old_worker ctx = Some a \<Longrightarrow> stop_step a pc s (Some pc') s' \<Longrightarrow>
    sup_step s (s'\<lparr>sy_sup := Sup_Stop i ctx reqs pc'\<rparr>)"
| s_stopped: "sy_sup s = Sup_Stop i ctx reqs pc \<Longrightarrow> rc_old_worker ctx = Some a \<Longrightarrow> stop_step a pc s None s' \<Longrightarrow>
    sup_step s (s'\<lparr>sy_sup := Sup_Spawn i ctx reqs\<rparr>)"
| s_detach: "sy_sup s = Sup_Detach i ctx reqs \<Longrightarrow> rc_old_worker ctx = Some a \<Longrightarrow>
    sup_step s ((on_pool (force_detach_at a) s)\<lparr>sy_sup := Sup_Limit i ctx reqs\<rparr>)"
| s_limit: "sy_sup s = Sup_Limit i ctx reqs \<Longrightarrow> \<not> detached_limit_exceeded (sy_pool s) \<Longrightarrow>
    sup_step s (s\<lparr>sy_sup := Sup_Spawn i ctx reqs\<rparr>)"
| s_halt: "sy_sup s = Sup_Limit i ctx reqs \<Longrightarrow> detached_limit_exceeded (sy_pool s) \<Longrightarrow>
    sup_step s (s\<lparr>sy_halted := True\<rparr>)"
| s_offline: "sy_sup s = Sup_Spawn i ctx reqs \<Longrightarrow> rc_max_attempts_reached ctx \<Longrightarrow>
    sup_step s (s\<lparr>sy_sup := if reqs \<noteq> [] then Sup_Redistribute i reqs else next_scan i s\<rparr>)"
| s_abandon: "sy_sup s = Sup_Spawn i ctx reqs \<Longrightarrow> \<not> rc_max_attempts_reached ctx \<Longrightarrow> wp_is_shutting_down (sy_pool s) \<Longrightarrow>
    sup_step s (s\<lparr>sy_dropped := sy_dropped s @ map rm_data reqs, sy_sup := next_scan i s\<rparr>)"
| s_spawn: "sy_sup s = Sup_Spawn i ctx reqs \<Longrightarrow> \<not> rc_max_attempts_reached ctx \<Longrightarrow> \<not> wp_is_shutting_down (sy_pool s) \<Longrightarrow>
    sup_step s ((on_pool (spawn_replacement_worker i) s)\<lparr>sy_inits := sy_inits s @ [Init_Start i],
                 sy_sup := if reqs \<noteq> [] then Sup_Redistribute i reqs else next_scan i s\<rparr>)"
| s_no_redistribution: "sy_sup s = Sup_Redistribute i reqs \<Longrightarrow> wp_is_shutting_down (sy_pool s) \<Longrightarrow>
    sup_step s (s\<lparr>sy_dropped := sy_dropped s @ map rm_data reqs, sy_sup := next_scan i s\<rparr>)"
| s_redistribute: "sy_sup s = Sup_Redistribute i reqs \<Longrightarrow> \<not> wp_is_shutting_down (sy_pool s) \<Longrightarrow>
    sup_step s (s\<lparr>sy_sup := Sup_Each i reqs\<rparr>)"
| s_redistributed: "sy_sup s = Sup_Each i [] \<Longrightarrow> sup_step s (s\<lparr>sy_sup := next_scan i s\<rparr>)"
| s_discard: "sy_sup s = Sup_Each i (r # reqs) \<Longrightarrow> retry_request r = None \<Longrightarrow>
    sup_step s (s\<lparr>sy_discarded := sy_discarded s @ [rm_data r], sy_sup := Sup_Each i reqs\<rparr>)"
| s_retry: "sy_sup s = Sup_Each i (r # reqs) \<Longrightarrow> retry_request r = Some r' \<Longrightarrow> \<not> wp_is_shutting_down (sy_pool s) \<Longrightarrow>
    sup_step s (s\<lparr>sy_sup := Sup_Get i r' reqs\<rparr>)"
| s_retry_shutting: "sy_sup s = Sup_Each i (r # reqs) \<Longrightarrow> retry_request r = Some r' \<Longrightarrow> wp_is_shutting_down (sy_pool s) \<Longrightarrow>
    sup_step s (s\<lparr>sy_dropped := sy_dropped s @ [rm_data r], sy_sup := Sup_Each i reqs\<rparr>)"
| s_got: "sy_sup s = Sup_Get i r reqs \<Longrightarrow> ready_wait_over (sy_pool s) \<Longrightarrow> get_ready_worker (sy_pool s) = (Some a, p) \<Longrightarrow>
    sup_step s (s\<lparr>sy_pool := p, sy_sup := Sup_Add i a r reqs\<rparr>)"
| s_got_none: "sy_sup s = Sup_Get i r reqs \<Longrightarrow> ready_wait_over (sy_pool s) \<Longrightarrow> get_ready_worker (sy_pool s) = (None, p) \<Longrightarrow>
    sup_step s (s\<lparr>sy_pool := p, sy_dropped := sy_dropped s @ [rm_data r], sy_sup := Sup_Each i reqs\<rparr>)"
| s_add: "sy_sup s = Sup_Add i a r reqs \<Longrightarrow>
    sup_step s ((on_worker a (add_request r) s)\<lparr>sy_sup := Sup_Each i reqs\<rparr>)"

inductive main_step :: "system \<Rightarrow> system \<Rightarrow> bool" where
  m_accept: "sy_main s = Main_Read \<Longrightarrow> \<not> wp_is_shutting_down (sy_pool s) \<Longrightarrow> d \<noteq> [] \<Longrightarrow>
    main_step s (s\<lparr>sy_accepted := sy_accepted s @ [d], sy_main := Main_Distribute (mk_request_metadata d 0 [])\<rparr>)"
| m_got: "sy_main s = Main_Distribute r \<Longrightarrow> ready_wait_over (sy_pool s) \<Longrightarrow> get_ready_worker (sy_pool s) = (Some a, p) \<Longrightarrow>
    main_step s (s\<lparr>sy_pool := p, sy_main := Main_Add a r\<rparr>)"
| m_got_none: "sy_main s = Main_Distribute r \<Longrightarrow> ready_wait_over (sy_pool s) \<Longrightarrow> get_ready_worker (sy_pool s) = (None, p) \<Longrightarrow>
    main_step s (s\<lparr>sy_pool := p, sy_dropped := sy_dropped s @ [rm_data r], sy_main := Main_Read\<rparr>)"
| m_add: "sy_main s = Main_Add a r \<Longrightarrow>
    main_step s ((on_worker a (add_request r) s)\<lparr>sy_main := Main_Read\<rparr>)"
| m_shutdown: "sy_main s = Main_Read \<Longrightarrow>
    main_step s ((on_pool (\<lambda>p. p\<lparr>wp_is_shutting_down := True, wp_supervisor_running := False\<rparr>) s)
      \<lparr>sy_main := Main_Join_Supervisor\<rparr>)"
| m_supervisor_joined: "sy_main s = Main_Join_Supervisor \<Longrightarrow> sy_sup s = Sup_Ended \<Longrightarrow>
    main_step s (s\<lparr>sy_main := Main_Join_Initializers\<rparr>)"
| m_initializers_joined: "sy_main s = Main_Join_Initializers \<Longrightarrow> sy_inits s = [] \<Longrightarrow>
    main_step s (s\<lparr>sy_main := Main_Stop 0 Stop_Begin\<rparr>)"
| m_stop: "sy_main s = Main_Stop i pc \<Longrightarrow> worker_at (sy_pool s) i = Some a \<Longrightarrow> stop_step a pc s (Some pc') s' \<Longrightarrow>
    main_step s (s'\<lparr>sy_main := Main_Stop i pc'\<rparr>)"
| m_stopped: "sy_main s = Main_Stop i pc \<Longrightarrow> worker_at (sy_pool s) i = Some a \<Longrightarrow> stop_step a pc s None s' \<Longrightarrow>
    main_step s (s'\<lparr>sy_main := Main_Stop (Suc i) Stop_Begin\<rparr>)"
| m_no_worker: "sy_main s = Main_Stop i pc \<Longrightarrow> i < length (wp_workers (sy_pool s)) \<Longrightarrow>
    worker_at (sy_pool s) i = None \<Longrightarrow> main_step s (s\<lparr>sy_main := Main_Stop (Suc i) Stop_Begin\<rparr>)"
| m_end: "sy_main s = Main_Stop i pc \<Longrightarrow> i \<ge> length (wp_workers (sy_pool s)) \<Longrightarrow>
    main_step s (s\<lparr>sy_main := Main_Ended\<rparr>)"

inductive sys_step :: "system \<Rightarrow> system \<Rightarrow> bool" where
  by_worker: "a < length (wp_heap (sy_pool s)) \<Longrightarrow> worker_step a s s' \<Longrightarrow> sys_step s s'"
| by_init: "k < length (sy_inits s) \<Longrightarrow> init_step (sy_inits s ! k) s pc' s' \<Longrightarrow>
    sys_step s (s'\<lparr>sy_inits := take k (sy_inits s) @ (case pc' of None \<Rightarrow> [] | Some pc \<Rightarrow> [pc]) @ drop (Suc k) (sy_inits s)\<rparr>)"
| by_supervisor: "sup_step s s' \<Longrightarrow> sys_step s s'"
| by_main: "main_step s s' \<Longrightarrow> sys_step s s'"
| tick: "c \<ge> clock_of s \<Longrightarrow> sys_step s (on_pool (\<lambda>p. p\<lparr>wp_clock := c\<rparr>) s)"

text \<open>The states the server can be in, over all interleavings, until the process exits.\<close>

inductive reachable :: "system \<Rightarrow> system \<Rightarrow> bool" for s\<^sub>0 where
  reach_start: "reachable s\<^sub>0 s\<^sub>0"
| reach_step: "reachable s\<^sub>0 s \<Longrightarrow> \<not> sy_halted s \<Longrightarrow> sys_step s s' \<Longrightarrow> reachable s\<^sub>0 s'"

text \<open>A property of the start that every step of a reachable state keeps holds in every reachable state.\<close>

locale pool_invariant =
  fixes start :: system and inv :: "system \<Rightarrow> bool"
  assumes inv_start: "inv start"
    and inv_step: "reachable start s \<Longrightarrow> inv s \<Longrightarrow> \<not> sy_halted s \<Longrightarrow> sys_step s s' \<Longrightarrow> inv s'"
begin

lemma holds: "reachable start s \<Longrightarrow> inv s"
  by (induction rule: reachable.induct) (auto intro: inv_start inv_step)

end

end
