(* ===== verification/Worker_Inv.thy ===== *)
theory Worker_Inv
  imports Worker_Pool
begin

text \<open>
  The invariant of the worker pool: the bookkeeping vectors keep their sizes, the ready counter covers
  the workers marked ready, the counter of detached threads is exact, and each thread holds valid
  addresses (a worker the supervisor has taken out is not in the pool, a worker still to be started
  has no thread). Every step of every thread keeps it.
\<close>

section \<open>Bookkeeping\<close>

lemma length_filter_update: "i < length xs \<Longrightarrow>
    length (filter P (xs[i := y])) + (if P (xs ! i) then 1 else 0) = length (filter P xs) + (if P y then 1 else 0)"
proof (induction xs arbitrary: i)
  case (Cons x xs)
  show ?case
  proof (cases i)
    case (Suc j)
    with Cons.IH [of j] Cons.prems show ?thesis by simp
  qed simp
qed simp

lemma filter_pos: "i < length xs \<Longrightarrow> P (xs ! i) \<Longrightarrow> 0 < length (filter P xs)"
  by (metis filter_empty_conv length_greater_0_conv nth_mem)

definition num_ready :: "pool \<Rightarrow> nat" where
  "num_ready p = length (filter (\<lambda>b. b) (wp_ready_list p))"

definition num_detached :: "worker list \<Rightarrow> nat" where
  "num_detached h = length (filter wk_detached h)"

definition pool_inv :: "nat \<Rightarrow> pool \<Rightarrow> bool" where
  "pool_inv n p \<longleftrightarrow>
     length (wp_workers p) = n \<and> length (wp_ready_list p) = n \<and> length (wp_replacement_attempts p) = n \<and>
     length (wp_next_replacement_allowed p) = n \<and> int (num_ready p) \<le> wp_ready_count p \<and>
     (\<forall>k \<in> set (wp_replacement_attempts p). k \<le> wp_max_replace_attempts p) \<and>
     (\<forall>a. Some a \<in> set (wp_workers p) \<longrightarrow> a < length (wp_heap p)) \<and>
     wp_live_detached p = num_detached (wp_heap p)"

lemma pool_invD:
  assumes "pool_inv n p"
  shows "length (wp_workers p) = n" "length (wp_ready_list p) = n" "length (wp_replacement_attempts p) = n"
    "length (wp_next_replacement_allowed p) = n" "int (num_ready p) \<le> wp_ready_count p"
    "\<And>k. k \<in> set (wp_replacement_attempts p) \<Longrightarrow> k \<le> wp_max_replace_attempts p"
    "\<And>a. Some a \<in> set (wp_workers p) \<Longrightarrow> a < length (wp_heap p)"
    "wp_live_detached p = num_detached (wp_heap p)"
  using assms by (simp_all add: pool_inv_def)

lemma grow_id [simp]:
  "i < length (wp_ready_list p) \<Longrightarrow> grow_ready_list i m p = p"
  "i < length (wp_replacement_attempts p) \<Longrightarrow> grow_attempts i m p = p"
  by (simp_all add: grow_ready_list_def grow_attempts_def)

lemma worker_at_Some: "worker_at p i = Some a \<longleftrightarrow> i < length (wp_workers p) \<and> wp_workers p ! i = Some a"
  by (simp add: worker_at_def)

lemma worker_at_heap [dest]: "pool_inv n p \<Longrightarrow> worker_at p i = Some a \<Longrightarrow> a < length (wp_heap p)"
  by (metis worker_at_Some pool_invD(7) nth_mem)

lemma pop_ready_heap: "pool_inv n p \<Longrightarrow> pop_ready p q = (Some a, q') \<Longrightarrow> a < length (wp_heap p)"
  by (induction q) (auto split: option.splits if_splits)

lemma update_subset: "set (xs[i := y]) \<subseteq> insert y (set xs)"
  by (rule set_update_subset_insert)

lemma set_worker_ready_inv [inv_rules]: "pool_inv n p \<Longrightarrow> pool_inv n (set_worker_ready i p)"
  using length_filter_update [of "nat i" "wp_ready_list p" "\<lambda>b. b" True]
  by (auto simp: set_worker_ready_def pool_inv_def num_ready_def Let_def split: option.splits
      dest!: set_mp [OF set_update_subset_insert])

lemma mark_worker_not_ready_inv [inv_rules]:
  assumes "pool_inv n p" and "i < n"
  shows "\<exists>p'. mark_worker_not_ready i p = (True, p') \<and> pool_inv n p' \<and>
     wp_heap p' = wp_heap p \<and> wp_workers p' = wp_workers p \<and> \<not> wp_ready_list p' ! i"
  using assms length_filter_update [of i "wp_ready_list p" "\<lambda>b. b" False] filter_pos [of i "wp_ready_list p" "\<lambda>b. b"]
  by (auto simp: mark_worker_not_ready_def pool_inv_def num_ready_def Let_def)

lemma prepare_inv [inv_rules]:
  "pool_inv n p \<Longrightarrow> prepare_worker_replacement i p = (ctx, p') \<Longrightarrow> pool_inv n p'"
  by (auto simp: prepare_worker_replacement_def pool_inv_def num_ready_def Let_def split: if_splits
      dest!: set_mp [OF set_update_subset_insert])

lemma spawn_inv [inv_rules]:
  assumes "pool_inv n p" and "i < n"
  shows "pool_inv n (spawn_replacement_worker i p)"
  using assms length_filter_update [of i "wp_ready_list p" "\<lambda>b. b" False]
  by (auto simp: spawn_replacement_worker_def pool_inv_def num_ready_def num_detached_def new_worker_def Let_def
      less_Suc_eq split: if_splits dest!: set_mp [OF set_update_subset_insert])

lemma get_ready_worker_inv [inv_rules]:
  "pool_inv n p \<Longrightarrow> get_ready_worker p = (ao, p') \<Longrightarrow> pool_inv n p' \<and> wp_heap p' = wp_heap p \<and> wp_workers p' = wp_workers p"
  by (auto simp: get_ready_worker_def pool_inv_def num_ready_def split: if_splits prod.splits)

lemma upd_worker_inv [inv_rules]:
  assumes "pool_inv n p" and "a < length (wp_heap p)" and "wk_detached (f (wp_heap p ! a)) = wk_detached (wp_heap p ! a)"
  shows "pool_inv n (upd_worker a f p)"
  using assms length_filter_update [of a "wp_heap p" wk_detached "f (wp_heap p ! a)"]
  by (auto simp: upd_worker_def pool_inv_def num_ready_def num_detached_def split: if_splits)

lemma force_detach_inv [inv_rules]:
  assumes "pool_inv n p" and "a < length (wp_heap p)" and "wk_detached (wp_heap p ! a) \<longrightarrow> \<not> wk_joinable (wp_heap p ! a)"
  shows "pool_inv n (force_detach_at a p)"
  using assms length_filter_update [of a "wp_heap p" wk_detached "force_detach (wp_clock p) (wp_heap p ! a)"]
  by (auto simp: force_detach_at_def upd_worker_def force_detach_def update_heartbeat_def pool_inv_def num_ready_def
      num_detached_def Let_def split: if_splits)

lemma unwind_inv [inv_rules]:
  assumes "pool_inv n p" and "a < length (wp_heap p)"
  shows "pool_inv n (unwind_at a ro p)"
  using assms length_filter_update [of a "wp_heap p" wk_detached "loop_unwound ro (wp_heap p ! a)"]
  by (auto simp: unwind_at_def upd_worker_def loop_unwound_def pool_inv_def num_ready_def num_detached_def Let_def split: if_splits)

section \<open>The invariant of the threads\<close>

definition worker_ok :: "worker \<Rightarrow> bool" where
  "worker_ok w \<longleftrightarrow> (wk_detached w \<longrightarrow> \<not> wk_joinable w) \<and> (wk_pc w = Pc_None \<longrightarrow> \<not> wk_joinable w \<and> \<not> wk_detached w)"

definition unstarted :: "worker \<Rightarrow> bool" where
  "unstarted w \<longleftrightarrow> wk_pc w = Pc_None"

text \<open>Which worker the supervisor holds while it replaces the one at an index.\<close>

definition replacing :: "pool \<Rightarrow> nat \<Rightarrow> nat option \<Rightarrow> bool" where
  "replacing p i old \<longleftrightarrow> i < length (wp_workers p) \<and> wp_workers p ! i = None \<and>
     (\<forall>a. old = Some a \<longrightarrow> a < length (wp_heap p) \<and> \<not> unstarted (wp_heap p ! a) \<and> Some a \<notin> set (wp_workers p))"

fun sup_inv :: "sup_pc \<Rightarrow> pool \<Rightarrow> bool" where
  "sup_inv (Sup_Replace i detach) p \<longleftrightarrow> (\<exists>a. worker_at p i = Some a \<and> \<not> unstarted (wp_heap p ! a))"
| "sup_inv (Sup_Prepare i detach) p \<longleftrightarrow> (\<exists>a. worker_at p i = Some a \<and> \<not> unstarted (wp_heap p ! a))"
| "sup_inv (Sup_Drain i detach ctx) p \<longleftrightarrow> replacing p i (rc_old_worker ctx)"
| "sup_inv (Sup_Current i detach ctx reqs) p \<longleftrightarrow> replacing p i (rc_old_worker ctx)"
| "sup_inv (Sup_Stop i ctx reqs pc) p \<longleftrightarrow> replacing p i (rc_old_worker ctx)"
| "sup_inv (Sup_Detach i ctx reqs) p \<longleftrightarrow> replacing p i (rc_old_worker ctx)"
| "sup_inv (Sup_Limit i ctx reqs) p \<longleftrightarrow> replacing p i (rc_old_worker ctx)"
| "sup_inv (Sup_Spawn i ctx reqs) p \<longleftrightarrow> replacing p i (rc_old_worker ctx)"
| "sup_inv (Sup_Add i a r reqs) p \<longleftrightarrow> a < length (wp_heap p)"
| "sup_inv _ p \<longleftrightarrow> True"

fun main_inv :: "system \<Rightarrow> main_pc \<Rightarrow> bool" where
  "main_inv s (Main_Add a r) \<longleftrightarrow> a < length (wp_heap (sy_pool s))"
| "main_inv s Main_Join_Initializers \<longleftrightarrow> sy_sup s = Sup_Ended"
| "main_inv s (Main_Stop i pc) \<longleftrightarrow> sy_sup s = Sup_Ended \<and> sy_inits s = []"
| "main_inv s _ \<longleftrightarrow> True"

text \<open>The indices of the workers that are still to be started.\<close>

definition to_start :: "init_pc list \<Rightarrow> nat list" where
  "to_start pcs = concat (map (\<lambda>pc. case pc of Init_Start i \<Rightarrow> [i] | _ \<Rightarrow> []) pcs)"

definition init_inv :: "system \<Rightarrow> bool" where
  "init_inv s \<longleftrightarrow> distinct (to_start (sy_inits s)) \<and>
     (\<forall>i \<in> set (to_start (sy_inits s)). \<exists>a. worker_at (sy_pool s) i = Some a \<and> unstarted (worker_of s a)) \<and>
     (\<forall>i a. Init_Idle i a \<in> set (sy_inits s) \<longrightarrow> a < length (wp_heap (sy_pool s)) \<and> \<not> unstarted (worker_of s a))"

definition heap_inv :: "system \<Rightarrow> bool" where
  "heap_inv s \<longleftrightarrow> (\<forall>w \<in> set (wp_heap (sy_pool s)). worker_ok w) \<and>
     (\<forall>w \<in> set (wp_heap (sy_pool s)). unstarted w \<longrightarrow> wk_state w = Starting \<or> sy_sup s = Sup_Ended) \<and>
     (\<forall>i j a. worker_at (sy_pool s) i = Some a \<longrightarrow> worker_at (sy_pool s) j = Some a \<longrightarrow> i = j)"

definition sys_inv :: "nat \<Rightarrow> system \<Rightarrow> bool" where
  "sys_inv n s \<longleftrightarrow> pool_inv n (sy_pool s) \<and> heap_inv s \<and> sup_inv (sy_sup s) (sy_pool s) \<and>
     main_inv s (sy_main s) \<and> init_inv s"

lemmas sys_inv_defs = sys_inv_def heap_inv_def init_inv_def

text \<open>What an operation on one worker may change without disturbing the other threads.\<close>

definition local_op :: "(worker \<Rightarrow> worker) \<Rightarrow> worker \<Rightarrow> bool" where
  "local_op f w \<longleftrightarrow> wk_detached (f w) = wk_detached w \<and> (wk_joinable (f w) \<longrightarrow> wk_joinable w) \<and>
     unstarted (f w) = unstarted w \<and> (unstarted w \<longrightarrow> wk_state (f w) = wk_state w)"

lemma upd_worker_simps [simp]:
  "wp_workers (upd_worker a f p) = wp_workers p" "wp_heap (upd_worker a f p) = (wp_heap p)[a := f (wp_heap p ! a)]"
  "wp_clock (upd_worker a f p) = wp_clock p" "worker_at (upd_worker a f p) i = worker_at p i"
  "wp_is_shutting_down (upd_worker a f p) = wp_is_shutting_down p"
  by (simp_all add: upd_worker_def worker_at_def)

lemma nth_unstarted_update:
  "unstarted (f (h ! a)) = unstarted (h ! a) \<Longrightarrow> unstarted (h[a := f (h ! a)] ! b) = unstarted (h ! b)"
  by (cases "a < length h"; cases "a = b") (auto simp: list_update_beyond)

lemma replacing_heap:
  assumes "wp_workers p' = wp_workers p" and "wp_heap p' = (wp_heap p)[a := f (wp_heap p ! a)]"
    and "unstarted (f (wp_heap p ! a)) = unstarted (wp_heap p ! a)"
  shows "replacing p' i old = replacing p i old"
  using assms by (simp add: replacing_def nth_unstarted_update)

lemma sup_inv_heap:
  assumes "wp_workers p' = wp_workers p" and "wp_heap p' = (wp_heap p)[a := f (wp_heap p ! a)]"
    and "unstarted (f (wp_heap p ! a)) = unstarted (wp_heap p ! a)"
  shows "sup_inv pc p' = sup_inv pc p"
proof -
  have "worker_at p' = worker_at p" using assms(1) by (simp add: worker_at_def fun_eq_iff)
  then show ?thesis using assms(2,3) replacing_heap [of p' p a f, OF assms]
    by (cases pc) (simp_all add: nth_unstarted_update)
qed

lemma heap_op_inv:
  assumes "sys_inv n s" and "pool_inv n p'" and "wp_workers p' = wp_workers (sy_pool s)"
    and "wp_heap p' = (wp_heap (sy_pool s))[a := f (worker_of s a)]"
    and "unstarted (f (worker_of s a)) = unstarted (worker_of s a)" and "worker_ok (f (worker_of s a))"
    and "unstarted (worker_of s a) \<Longrightarrow> wk_state (f (worker_of s a)) = Starting \<or> sy_sup s = Sup_Ended"
  shows "sys_inv n (s\<lparr>sy_pool := p'\<rparr>)"
proof -
  have at: "worker_at p' = worker_at (sy_pool s)" using assms(3) by (simp add: worker_at_def fun_eq_iff)
  have main: "main_inv (s\<lparr>sy_pool := p'\<rparr>) pc = main_inv s pc" for pc
    by (cases pc) (simp_all add: assms(4))
  have "heap_inv (s\<lparr>sy_pool := p'\<rparr>)"
    using assms(1,5-7) by (auto simp: sys_inv_def heap_inv_def at assms(4)
        dest!: set_mp [OF set_update_subset_insert])
  moreover have "init_inv (s\<lparr>sy_pool := p'\<rparr>)"
    using assms(1,5) by (simp add: sys_inv_def init_inv_def at assms(4) nth_unstarted_update)
  ultimately show ?thesis
    using assms(1,2) sup_inv_heap [of p' "sy_pool s" a f, OF assms(3-5)] main by (simp add: sys_inv_def)
qed

lemma local_op_inv:
  assumes "sys_inv n s" and "a < length (wp_heap (sy_pool s))" and "local_op f (worker_of s a)"
  shows "sys_inv n (on_worker a f s)"
proof -
  have "worker_ok (worker_of s a)" "unstarted (worker_of s a) \<longrightarrow> wk_state (worker_of s a) = Starting \<or> sy_sup s = Sup_Ended"
    and p: "pool_inv n (sy_pool s)"
    using assms(1,2) by (auto simp: sys_inv_defs)
  then have "worker_ok (f (worker_of s a))" "unstarted (worker_of s a) \<Longrightarrow> wk_state (f (worker_of s a)) = Starting \<or> sy_sup s = Sup_Ended"
    using assms(3) by (auto simp: local_op_def worker_ok_def unstarted_def)
  moreover have "pool_inv n (upd_worker a f (sy_pool s))"
    using upd_worker_inv [OF p assms(2)] assms(3) by (simp add: local_op_def)
  ultimately show ?thesis
    using assms unfolding on_worker_def on_pool_def by (intro heap_op_inv [where f = f and a = a]) (auto simp: local_op_def)
qed

lemma local_ops [simp]:
  "\<not> unstarted w \<Longrightarrow> local_op (loop_wait c) w" "\<not> unstarted w \<Longrightarrow> local_op (loop_take c) w"
  "\<not> unstarted w \<Longrightarrow> local_op (loop_track r) w" "local_op (update_heartbeat c) w"
  "\<not> unstarted w \<Longrightarrow> local_op (loop_returned c r) w" "\<not> unstarted w \<Longrightarrow> local_op (loop_fault c r) w"
  "\<not> unstarted w \<Longrightarrow> local_op loop_clear w" "\<not> unstarted w \<Longrightarrow> local_op (loop_exit c) w"
  "local_op (add_request r) w" "\<not> unstarted w \<Longrightarrow> local_op (start_idle c) w"
  "local_op stop_request w" "\<not> unstarted w \<Longrightarrow> local_op (stop_mark st) w"
  "\<not> unstarted w \<Longrightarrow> local_op stop_joined w" "\<not> unstarted w \<Longrightarrow> local_op stop_timed_out w"
  by (auto simp: local_op_def unstarted_def loop_wait_def loop_take_def loop_track_def update_heartbeat_def
      loop_returned_def loop_fault_def loop_clear_def loop_exit_def add_request_def start_idle_def stop_request_def
      stop_mark_def stop_joined_def stop_timed_out_def split: list.splits)

lemma sys_inv_frame [simp]:
  "sys_inv n (s\<lparr>sy_served := x\<rparr>) = sys_inv n s" "sys_inv n (s\<lparr>sy_timed_out := x\<rparr>) = sys_inv n s"
  "sys_inv n (s\<lparr>sy_discarded := x\<rparr>) = sys_inv n s" "sys_inv n (s\<lparr>sy_dropped := x\<rparr>) = sys_inv n s"
  "sys_inv n (s\<lparr>sy_accepted := x\<rparr>) = sys_inv n s" "sys_inv n (s\<lparr>sy_halted := b\<rparr>) = sys_inv n s"
  by (cases "sy_main s"; simp add: sys_inv_defs)+

lemma pool_inv_clock [simp]: "pool_inv n (p\<lparr>wp_clock := c\<rparr>) = pool_inv n p"
  by (simp add: pool_inv_def num_ready_def)

lemma pool_inv_shutdown [simp]:
  "pool_inv n (p\<lparr>wp_is_shutting_down := b, wp_supervisor_running := b'\<rparr>) = pool_inv n p"
  by (simp add: pool_inv_def num_ready_def)

lemma worker_at_frame [simp]: "worker_at (p\<lparr>wp_clock := c\<rparr>) i = worker_at p i"
  "worker_at (p\<lparr>wp_is_shutting_down := b, wp_supervisor_running := b'\<rparr>) i = worker_at p i"
  "worker_at (p\<lparr>wp_live_detached := k\<rparr>) i = worker_at p i"
  by (simp_all add: worker_at_def)

text \<open>A change of the pool that keeps the workers and the heap.\<close>

lemma sup_inv_cong:
  "wp_workers p' = wp_workers p \<Longrightarrow> wp_heap p' = wp_heap p \<Longrightarrow> sup_inv pc p' = sup_inv pc p"
  by (cases pc) (simp_all add: replacing_def worker_at_def)

lemma same_workers_inv:
  assumes "sys_inv n s" and "pool_inv n p'" and "wp_workers p' = wp_workers (sy_pool s)" and "wp_heap p' = wp_heap (sy_pool s)"
  shows "sys_inv n (s\<lparr>sy_pool := p'\<rparr>)"
proof -
  have "worker_at p' = worker_at (sy_pool s)" using assms(3) by (simp add: worker_at_def fun_eq_iff)
  moreover have "main_inv (s\<lparr>sy_pool := p'\<rparr>) pc = main_inv s pc" for pc by (cases pc) (simp_all add: assms(4))
  ultimately show ?thesis
    using assms sup_inv_cong [OF assms(3,4)] by (simp add: sys_inv_defs)
qed

lemma local_opD: "local_op f w \<Longrightarrow> unstarted (f w) = unstarted w"
  by (simp add: local_op_def)

lemma on_worker_simps [simp]:
  "sy_sup (on_worker a f s) = sy_sup s" "sy_main (on_worker a f s) = sy_main s" "sy_inits (on_worker a f s) = sy_inits s"
  "sy_pool (on_worker a f s) = upd_worker a f (sy_pool s)"
  "sy_accepted (on_worker a f s) = sy_accepted s" "sy_served (on_worker a f s) = sy_served s"
  "sy_discarded (on_worker a f s) = sy_discarded s" "sy_dropped (on_worker a f s) = sy_dropped s"
  "sy_timed_out (on_worker a f s) = sy_timed_out s"
  by (simp_all add: on_worker_def on_pool_def)

text \<open>A step of \<open>stop\<close> changes the flags of that worker only.\<close>

definition flags_only :: "(worker \<Rightarrow> worker) \<Rightarrow> bool" where
  "flags_only f \<longleftrightarrow> (\<forall>w. wk_queue (f w) = wk_queue w \<and> wk_pc (f w) = wk_pc w \<and> wk_current (f w) = wk_current w \<and>
     wk_detached (f w) = wk_detached w \<and> (wk_joinable (f w) \<longrightarrow> wk_joinable w))"

lemma flags_only_simps [simp]:
  "flags_only stop_request" "flags_only (stop_mark st)" "flags_only stop_joined" "flags_only stop_timed_out" "flags_only id"
  by (simp_all add: flags_only_def stop_request_def stop_mark_def stop_joined_def stop_timed_out_def)

lemma flags_only_local: "flags_only f \<Longrightarrow> \<not> unstarted w \<Longrightarrow> local_op f w"
  by (simp add: flags_only_def local_op_def unstarted_def)

lemma on_worker_id [simp]: "on_worker a id s = s"
  by (simp add: on_worker_def on_pool_def upd_worker_def)

lemma stop_step_flags: "stop_step a pc s pc' s' \<Longrightarrow> \<exists>f. flags_only f \<and> s' = on_worker a f s"
  by (induction rule: stop_step.induct) (blast intro: flags_only_simps exI [of _ id] on_worker_id [symmetric])+

lemma stop_step_inv:
  assumes "stop_step a pc s pc' s'" and "sys_inv n s" and "a < length (wp_heap (sy_pool s))" and "\<not> unstarted (worker_of s a)"
  shows "sys_inv n s' \<and> sy_sup s' = sy_sup s \<and> sy_main s' = sy_main s \<and> sy_inits s' = sy_inits s \<and>
    replacing (sy_pool s') i old = replacing (sy_pool s) i old"
proof -
  from stop_step_flags [OF assms(1)] obtain f where f: "flags_only f" "s' = on_worker a f s" by blast
  note l = flags_only_local [OF f(1) assms(4)]
  have "replacing (sy_pool s') i old = replacing (sy_pool s) i old"
    unfolding f(2) by (rule replacing_heap [of _ _ a f]) (simp_all add: local_opD [OF l])
  then show ?thesis using local_op_inv [OF assms(2,3) l] by (simp add: f(2))
qed

lemma sys_inv_sup:
  assumes "sys_inv n s" and "sup_inv pc (sy_pool s)" and "sy_sup s \<noteq> Sup_Ended"
  shows "sys_inv n (s\<lparr>sy_sup := pc\<rparr>)"
  using assms by (cases "sy_main s") (auto simp: sys_inv_defs)

lemma sys_inv_main:
  assumes "sys_inv n s" and "main_inv s pc"
  shows "sys_inv n (s\<lparr>sy_main := pc\<rparr>)"
proof -
  have "main_inv (s\<lparr>sy_main := pc\<rparr>) pc" using assms(2) by (cases pc) simp_all
  with assms(1) show ?thesis by (simp add: sys_inv_defs)
qed

lemma sup_inv_scan [simp]: "sup_inv (next_scan i s) p" "next_scan i s \<noteq> Sup_Ended"
  by (simp_all add: next_scan_def)

lemma worker_step_inv:
  assumes "worker_step a s s'" and "sys_inv n s" and "a < length (wp_heap (sy_pool s))"
  shows "sys_inv n s'"
  using assms(1)
proof cases
  case (w_unwind ro)
  then have "\<not> unstarted (worker_of s a)" by (simp add: unstarted_def)
  moreover have "pool_inv n (unwind_at a ro (sy_pool s))"
    using unwind_inv [OF _ assms(3)] assms(2) by (simp add: sys_inv_def)
  ultimately show ?thesis
    using assms(2) unfolding w_unwind(1) on_pool_def
    by (intro heap_op_inv [where f = "loop_unwound ro" and a = a])
      (auto simp: unwind_at_def unstarted_def loop_unwound_def worker_ok_def)
qed (use assms(2,3) in \<open>auto intro!: local_op_inv local_ops simp: unstarted_def\<close>)

lemma to_start_simps [simp]:
  "to_start [] = []" "to_start (xs @ ys) = to_start xs @ to_start ys"
  "to_start (Init_Start i # xs) = i # to_start xs" "to_start (Init_Idle i a # xs) = to_start xs"
  "to_start (Init_Ready i # xs) = to_start xs"
  by (simp_all add: to_start_def)

lemma set_to_start: "set (to_start xs) = {i. Init_Start i \<in> set xs}"
  by (induction xs) (auto simp: to_start_def split: init_pc.splits)

lemma set_worker_ready_frame [simp]:
  "wp_workers (set_worker_ready i p) = wp_workers p" "wp_heap (set_worker_ready i p) = wp_heap p"
  by (simp_all add: set_worker_ready_def grow_ready_list_def grow_attempts_def Let_def split: option.split)

text \<open>An initializer that ends or moves on, where the worker it still had to start has been started.\<close>

lemma sys_inv_inits:
  assumes "sys_inv n s" and "sy_inits s = us @ pc # vs" and "\<And>i. pc' = Some (Init_Start i) \<Longrightarrow> False"
    and "\<And>i a. pc' = Some (Init_Idle i a) \<Longrightarrow> a < length (wp_heap (sy_pool s)) \<and> \<not> unstarted (worker_of s a)"
  shows "sys_inv n (s\<lparr>sy_inits := us @ (case pc' of None \<Rightarrow> [] | Some q \<Rightarrow> [q]) @ vs\<rparr>)"
proof -
  have "main_inv (s\<lparr>sy_inits := us @ (case pc' of None \<Rightarrow> [] | Some q \<Rightarrow> [q]) @ vs\<rparr>) (sy_main s)"
    using assms(1,2) by (cases "sy_main s") (simp_all add: sys_inv_def)
  moreover have "init_inv (s\<lparr>sy_inits := us @ (case pc' of None \<Rightarrow> [] | Some q \<Rightarrow> [q]) @ vs\<rparr>)"
  proof -
    have d: "distinct (to_start (us @ pc # vs))"
      and st: "\<And>i. Init_Start i \<in> set (us @ pc # vs) \<Longrightarrow> \<exists>a. worker_at (sy_pool s) i = Some a \<and> unstarted (worker_of s a)"
      and id: "\<And>i a. Init_Idle i a \<in> set (us @ pc # vs) \<Longrightarrow> a < length (wp_heap (sy_pool s)) \<and> \<not> unstarted (worker_of s a)"
      using assms(1,2) by (auto simp: sys_inv_def init_inv_def set_to_start)
    have "distinct (to_start us @ to_start vs)" using d by (cases pc) auto
    then have "distinct (to_start (us @ (case pc' of None \<Rightarrow> [] | Some q \<Rightarrow> [q]) @ vs))"
      using assms(3) by (cases pc') (auto simp: to_start_def split: init_pc.splits)
    then show ?thesis
      using st id assms(3,4) by (auto simp: init_inv_def set_to_start split: option.splits)
  qed
  ultimately show ?thesis using assms(1) by (simp add: sys_inv_def heap_inv_def)
qed

lemma replacing_started:
  assumes "unstarted (wp_heap p ! a)" and "wp_workers p' = wp_workers p" and "wp_heap p' = (wp_heap p)[a := w]"
    and "replacing p i old"
  shows "replacing p' i old"
  using assms by (auto simp: replacing_def) (metis nth_list_update_neq)

lemma sup_inv_started:
  assumes "unstarted (wp_heap p ! a)" and "wp_workers p' = wp_workers p" and "wp_heap p' = (wp_heap p)[a := w]"
    and "\<not> unstarted w" and "sup_inv pc p" and "pool_inv n p"
  shows "sup_inv pc p'"
proof -
  have at: "worker_at p' = worker_at p" using assms(2) by (simp add: worker_at_def fun_eq_iff)
  have "\<not> unstarted (wp_heap p ! b) \<Longrightarrow> \<not> unstarted (wp_heap p' ! b)" for b
    using assms(1,3) by (cases "a = b") auto
  then show ?thesis
    using assms(2,3,5) at replacing_started [OF assms(1-3)] by (cases pc) auto
qed

text \<open>Starting the worker of the initializer at hand, which nobody else has started.\<close>

lemma start_inv:
  assumes "sys_inv n s" and "sy_inits s = us @ Init_Start i # vs" and "worker_at (sy_pool s) i = Some a"
  shows "sys_inv n ((on_worker a (start_thread c) s)\<lparr>sy_inits := us @ [Init_Idle i a] @ vs\<rparr>)"
    (is "sys_inv n ?s'")
proof -
  let ?w = "start_thread c (worker_of s a)"
  have inv: "pool_inv n (sy_pool s)" "heap_inv s" "init_inv s" "main_inv s (sy_main s)" "sup_inv (sy_sup s) (sy_pool s)"
    using assms(1) by (simp_all add: sys_inv_def)
  have a: "a < length (wp_heap (sy_pool s))" using inv(1) assms(3) by blast
  have u: "unstarted (worker_of s a)" using inv(3) assms(2,3) by (auto simp: init_inv_def)
  have w: "\<not> unstarted ?w" "wk_detached ?w = wk_detached (worker_of s a)" "worker_ok ?w"
    using inv(2) a u by (auto simp: start_thread_def start_begin_def update_heartbeat_def unstarted_def worker_ok_def heap_inv_def)
  have "pool_inv n (sy_pool ?s')" using upd_worker_inv [OF inv(1) a, of "start_thread c"] w(2) by simp
  moreover have "heap_inv ?s'"
    using inv(2) w by (auto simp: heap_inv_def dest!: set_mp [OF set_update_subset_insert])
  moreover have "sup_inv (sy_sup s) (sy_pool ?s')"
    using sup_inv_started [OF u _ _ w(1) inv(5,1)] by simp
  moreover have "main_inv ?s' (sy_main s)" using inv(4) assms(2) by (cases "sy_main s") simp_all
  moreover have "init_inv ?s'"
  proof -
    have other: "\<exists>b. worker_at (sy_pool s) j = Some b \<and> unstarted ((wp_heap (sy_pool s))[a := ?w] ! b)"
      if "j \<in> set (to_start us) \<union> set (to_start vs)" for j
    proof -
      have "j \<noteq> i" "\<exists>b. worker_at (sy_pool s) j = Some b \<and> unstarted (worker_of s b)"
        using that inv(3) assms(2) by (auto simp: init_inv_def)
      moreover have "b \<noteq> a" if "worker_at (sy_pool s) j = Some b" for b
        using that inv(2) assms(3) \<open>j \<noteq> i\<close> by (auto simp: heap_inv_def)
      ultimately show ?thesis by force
    qed
    have "b < length (wp_heap (sy_pool s)) \<and> \<not> unstarted ((wp_heap (sy_pool s))[a := ?w] ! b)"
      if "Init_Idle j b \<in> set (us @ [Init_Idle i a] @ vs)" for j b
      using that inv(3) assms(2) a w(1) by (cases "b = a") (auto simp: init_inv_def)
    then show ?thesis using inv(3) assms(2) other by (auto simp: init_inv_def)
  qed
  ultimately show ?thesis by (simp add: sys_inv_def)
qed

lemma init_step_inv:
  assumes "init_step pc s pc' s'" and "sys_inv n s" and "sy_inits s = us @ pc # vs"
  shows "sys_inv n (s'\<lparr>sy_inits := us @ (case pc' of None \<Rightarrow> [] | Some q \<Rightarrow> [q]) @ vs\<rparr>)"
  using assms(1)
proof cases
  case (i_start i a)
  with start_inv [OF assms(2), of us i vs a] assms(3) show ?thesis by simp
next
  case (i_fail i a)
  let ?f = "start_begin (clock_of s)"
  have a: "a < length (wp_heap (sy_pool s))" using assms(2) i_fail by (auto simp: sys_inv_def)
  have "\<exists>b. worker_at (sy_pool s) i = Some b \<and> unstarted (worker_of s b)"
    using assms(2,3) i_fail by (auto simp: sys_inv_def init_inv_def)
  with i_fail have "unstarted (worker_of s a)" by simp
  moreover have "wk_state (?f (worker_of s a)) = Starting" by (simp add: start_begin_def update_heartbeat_def)
  moreover have "worker_ok (worker_of s a)" using assms(2) a by (simp add: sys_inv_def heap_inv_def)
  ultimately have "sys_inv n (s\<lparr>sy_pool := upd_worker a ?f (sy_pool s)\<rparr>)"
    using upd_worker_inv [of n "sy_pool s" a ?f] a assms(2)
    by (intro heap_op_inv [where f = ?f and a = a])
      (simp_all add: sys_inv_def start_begin_def update_heartbeat_def unstarted_def worker_ok_def)
  with sys_inv_inits [of n "on_worker a ?f s" us pc vs None] assms(3) i_fail show ?thesis
    by (simp add: on_worker_def on_pool_def)
next
  case (i_idle i a)
  have a: "a < length (wp_heap (sy_pool s))" "\<not> unstarted (worker_of s a)"
    using assms(2,3) i_idle by (auto simp: sys_inv_def init_inv_def)
  from local_op_inv [OF assms(2) a(1)] a(2) have "sys_inv n (on_worker a (start_idle (clock_of s)) s)" by simp
  with sys_inv_inits [of n "on_worker a (start_idle (clock_of s)) s" us pc vs pc'] assms(3) i_idle show ?thesis by simp
next
  case (i_ready i)
  have "sys_inv n (s\<lparr>sy_pool := set_worker_ready (int i) (sy_pool s)\<rparr>)"
    using assms(2) by (intro same_workers_inv) (simp_all add: set_worker_ready_inv sys_inv_def)
  with sys_inv_inits [of n "on_pool (set_worker_ready (int i)) s" us pc vs None] assms(3) i_ready show ?thesis
    by (simp add: on_pool_def)
qed

lemma prepare_frame:
  assumes "prepare_worker_replacement i p = (ctx, p')" and "i < length (wp_workers p)"
  shows "wp_heap p' = wp_heap p" "wp_workers p' = (wp_workers p)[i := None]" "rc_old_worker ctx = wp_workers p ! i"
  using assms by (auto simp: prepare_worker_replacement_def Let_def split: if_splits)

lemma prepare_step_inv:
  assumes "sys_inv n s" and "sy_sup s = Sup_Prepare i detach" and "prepare_worker_replacement i (sy_pool s) = (ctx, p')"
  shows "sys_inv n (s\<lparr>sy_pool := p', sy_sup := Sup_Drain i detach ctx\<rparr>)" (is "sys_inv n ?s'")
proof -
  have inv: "pool_inv n (sy_pool s)" "heap_inv s" "init_inv s" "main_inv s (sy_main s)"
    using assms(1) by (simp_all add: sys_inv_def)
  obtain a where a: "worker_at (sy_pool s) i = Some a" "\<not> unstarted (worker_of s a)"
    using assms(1,2) by (auto simp: sys_inv_def)
  have i: "i < length (wp_workers (sy_pool s))" "wp_workers (sy_pool s) ! i = Some a" using a by (simp_all add: worker_at_Some)
  note f = prepare_frame [OF assms(3) i(1)]
  have at: "worker_at p' j = (if j = i then None else worker_at (sy_pool s) j)" for j
    by (simp add: worker_at_def f(2) nth_list_update)
  have notin: "Some a \<notin> set (wp_workers p')"
  proof
    assume "Some a \<in> set (wp_workers p')"
    then obtain j where j: "j < length (wp_workers p')" "wp_workers p' ! j = Some a" by (auto simp: in_set_conv_nth)
    then have "worker_at p' j = Some a" by (simp add: worker_at_def)
    then have "worker_at (sy_pool s) j = Some a" "j \<noteq> i" using at [of j] by (simp_all split: if_splits)
    with inv(2) a(1) show False by (auto simp: heap_inv_def)
  qed
  have "replacing p' i (rc_old_worker ctx)"
    using f i a inv(1) notin worker_at_heap [OF inv(1) a(1)] by (auto simp: replacing_def)
  moreover have "heap_inv ?s'" using inv(2) assms(2) by (auto simp: heap_inv_def f(1) at split: if_splits)
  moreover have "init_inv ?s'"
  proof -
    have "i \<notin> set (to_start (sy_inits s))" using inv(3) a by (auto simp: init_inv_def)
    then show ?thesis using inv(3) by (auto simp: init_inv_def f(1) at)
  qed
  moreover have "main_inv ?s' (sy_main s)" using inv(4) assms(2) by (cases "sy_main s") (simp_all add: f(1))
  ultimately show ?thesis using prepare_inv [OF inv(1) assms(3)] by (simp add: sys_inv_def)
qed

lemma spawn_frame:
  assumes "pool_inv n p" and "i < n"
  shows "wp_heap (spawn_replacement_worker i p) = wp_heap p @ [new_worker (int i) (wp_clock p)]"
    "wp_workers (spawn_replacement_worker i p) = (wp_workers p)[i := Some (length (wp_heap p))]"
  using assms by (simp_all add: spawn_replacement_worker_def pool_inv_def Let_def)

lemma spawn_step_inv:
  assumes "sys_inv n s" and "sy_sup s = Sup_Spawn i ctx reqs" and "sup_inv pc (spawn_replacement_worker i (sy_pool s))"
  shows "sys_inv n ((on_pool (spawn_replacement_worker i) s)\<lparr>sy_inits := sy_inits s @ [Init_Start i], sy_sup := pc\<rparr>)"
    (is "sys_inv n ?s'")
proof -
  let ?h = "wp_heap (sy_pool s)"
  have inv: "pool_inv n (sy_pool s)" "heap_inv s" "init_inv s" "main_inv s (sy_main s)"
    and i: "i < n" "wp_workers (sy_pool s) ! i = None"
    using assms(1,2) by (auto simp: sys_inv_def replacing_def pool_inv_def)
  note f = spawn_frame [OF inv(1) i(1)]
  have n: "length (wp_workers (sy_pool s)) = n" using inv(1) by (simp add: pool_inv_def)
  have at: "worker_at (spawn_replacement_worker i (sy_pool s)) j =
      (if j = i then Some (length ?h) else worker_at (sy_pool s) j)" for j
    using i n by (simp add: worker_at_def f(2) nth_list_update)
  have lt: "worker_at (sy_pool s) j = Some a \<Longrightarrow> a < length ?h" for j a using inv(1) by blast
  then have fresh: "worker_at (sy_pool s) j \<noteq> Some (length ?h)" for j by blast
  have new: "worker_ok (new_worker k c)" "unstarted (new_worker k c)" "wk_state (new_worker k c) = Starting" for k c
    by (simp_all add: new_worker_def worker_ok_def unstarted_def)
  have "heap_inv ?s'"
    using inv(2) new assms(2) fresh by (auto simp: heap_inv_def on_pool_def f(1) at split: if_splits)
  moreover have "init_inv ?s'"
  proof -
    have "worker_at (sy_pool s) i = None" using i n by (simp add: worker_at_def)
    then have "i \<notin> set (to_start (sy_inits s))" using inv(3) by (auto simp: init_inv_def)
    moreover have "\<exists>a. worker_at (spawn_replacement_worker i (sy_pool s)) j = Some a \<and>
        unstarted ((?h @ [new_worker (int i) (clock_of s)]) ! a)" if "j \<in> set (to_start (sy_inits s))" for j
      using that inv(3) calculation lt by (fastforce simp: init_inv_def at nth_append)
    ultimately show ?thesis using inv(3) new by (auto simp: init_inv_def on_pool_def f(1) at nth_append intro: less_SucI)
  qed
  moreover have "main_inv ?s' (sy_main s)" using inv(4) assms(2) by (cases "sy_main s") (simp_all add: on_pool_def f(1))
  ultimately show ?thesis
    using spawn_inv [OF inv(1) i(1)] assms(3) by (simp add: sys_inv_def on_pool_def)
qed

lemma monitor_started:
  assumes "sys_inv n s" and "monitor_worker_at (sy_pool s) i = Some (reason, detach)" and "sy_sup s \<noteq> Sup_Ended"
  shows "\<exists>a. worker_at (sy_pool s) i = Some a \<and> \<not> unstarted (worker_of s a)"
proof -
  obtain a where a: "worker_at (sy_pool s) i = Some a" "wk_state (worker_of s a) \<noteq> Starting"
    using assms(2) by (auto simp: monitor_worker_at_def Let_def split: if_splits option.splits)
  moreover have "a < length (wp_heap (sy_pool s))" using assms(1) a(1) by (auto simp: sys_inv_def)
  ultimately show ?thesis using assms(1,3) by (auto simp: sys_inv_def heap_inv_def)
qed

lemma detach_step_inv:
  assumes "sys_inv n s" and "a < length (wp_heap (sy_pool s))" and "\<not> unstarted (worker_of s a)"
  shows "sys_inv n (on_pool (force_detach_at a) s) \<and> replacing (force_detach_at a (sy_pool s)) i old = replacing (sy_pool s) i old"
proof -
  let ?f = "force_detach (clock_of s)"
  have ok: "worker_ok (worker_of s a)" "pool_inv n (sy_pool s)" using assms(1,2) by (simp_all add: sys_inv_defs)
  then have "pool_inv n (force_detach_at a (sy_pool s))"
    using force_detach_inv assms(2) by (simp add: worker_ok_def)
  moreover have w: "unstarted (?f w) = unstarted w" "worker_ok w \<Longrightarrow> worker_ok (?f w)" for w
    by (auto simp: unstarted_def force_detach_def update_heartbeat_def worker_ok_def Let_def)
  ultimately have "sys_inv n (s\<lparr>sy_pool := force_detach_at a (sy_pool s)\<rparr>)"
    using assms ok by (intro heap_op_inv [where f = ?f and a = a]) (simp_all add: force_detach_at_def)
  moreover have "replacing (force_detach_at a (sy_pool s)) i old = replacing (sy_pool s) i old"
    by (rule replacing_heap [of _ _ a ?f]) (simp_all add: force_detach_at_def w)
  ultimately show ?thesis by (simp add: on_pool_def)
qed

lemma ready_step_inv:
  assumes "sys_inv n s" and "get_ready_worker (sy_pool s) = (ao, p)"
  shows "sys_inv n (s\<lparr>sy_pool := p\<rparr>)" and "wp_heap p = wp_heap (sy_pool s)"
    and "\<And>a. ao = Some a \<Longrightarrow> a < length (wp_heap p)"
proof -
  have p: "pool_inv n (sy_pool s)" using assms(1) by (simp add: sys_inv_def)
  note g = get_ready_worker_inv [OF p assms(2)]
  then show "sys_inv n (s\<lparr>sy_pool := p\<rparr>)" "wp_heap p = wp_heap (sy_pool s)" using assms(1) same_workers_inv by auto
  show "a < length (wp_heap p)" if "ao = Some a" for a
    using assms(2) that pop_ready_heap [OF p] by (auto simp: get_ready_worker_def split: if_splits prod.splits)
qed

lemma sup_step_inv:
  assumes "sup_step s s'" and "sys_inv n s"
  shows "sys_inv n s'"
proof -
  have sup: "sup_inv (sy_sup s) (sy_pool s)" and pinv: "pool_inv n (sy_pool s)" using assms(2) by (simp_all add: sys_inv_def)
  show ?thesis
    using assms(1)
  proof cases
    case (s_replace i reason detach)
    with monitor_started [OF assms(2) s_replace(5)] show ?thesis by (auto intro: sys_inv_sup [OF assms(2)])
  next
    case (s_mark i detach ok p)
    then obtain a where a: "worker_at (sy_pool s) i = Some a" "\<not> unstarted (worker_of s a)" using sup by auto
    then have "i < n" using pinv by (simp add: worker_at_Some pool_inv_def)
    from mark_worker_not_ready_inv [OF pinv this] s_mark(4)
    have m: "ok" "pool_inv n p" "wp_heap p = wp_heap (sy_pool s)" "wp_workers p = wp_workers (sy_pool s)" by auto
    then have "sys_inv n (s\<lparr>sy_pool := p\<rparr>)" using same_workers_inv [OF assms(2)] by simp
    moreover have "worker_at p i = Some a" using a(1) m(4) by (simp add: worker_at_Some)
    ultimately show ?thesis using sys_inv_sup [of n "s\<lparr>sy_pool := p\<rparr>" "Sup_Prepare i detach"] s_mark a m
      by simp
  next
    case (s_prepare i detach ctx p)
    then show ?thesis using prepare_step_inv [OF assms(2)] by simp
  next
    case (s_drain i detach ctx a pending w)
    then have r: "replacing (sy_pool s) i (Some a)" and a: "a < length (wp_heap (sy_pool s))" "\<not> unstarted (worker_of s a)"
      using sup by (auto simp: replacing_def)
    have l: "local_op (\<lambda>_. w) (worker_of s a)"
      using s_drain(4) by (auto simp: drain_pending_requests_def local_op_def unstarted_def)
    have "replacing (sy_pool (on_worker a (\<lambda>_. w) s)) i (Some a)"
      using r replacing_heap [of _ "sy_pool s" a "\<lambda>_. w"] local_opD [OF l] by simp
    then show ?thesis using sys_inv_sup [OF local_op_inv [OF assms(2) a(1) l]] s_drain by simp
  next
    case (s_current i detach ctx pending a current_req reqs)
    then show ?thesis
      using sys_inv_sup [of n "s\<lparr>sy_timed_out := sy_timed_out s @
        (if sends_timeout_error current_req detach then [current_req] else [])\<rparr>"] assms(2) sup by simp
  next
    case (s_stop i ctx reqs pc a pc' t)
    then have "a < length (wp_heap (sy_pool s))" "\<not> unstarted (worker_of s a)" using sup by (auto simp: replacing_def)
    from stop_step_inv [OF s_stop(4) assms(2) this] s_stop sup show ?thesis
      by (auto intro!: sys_inv_sup)
  next
    case (s_stopped i ctx reqs pc a t)
    then have "a < length (wp_heap (sy_pool s))" "\<not> unstarted (worker_of s a)" using sup by (auto simp: replacing_def)
    from stop_step_inv [OF s_stopped(4) assms(2) this] s_stopped sup show ?thesis
      by (auto intro!: sys_inv_sup)
  next
    case (s_detach i ctx reqs a)
    then have "a < length (wp_heap (sy_pool s))" "\<not> unstarted (worker_of s a)" using sup by (auto simp: replacing_def)
    from detach_step_inv [OF assms(2) this] s_detach sup show ?thesis
      by (auto intro!: sys_inv_sup simp: on_pool_def)
  next
    case (s_spawn i ctx reqs)
    then show ?thesis using spawn_step_inv [OF assms(2)] by simp
  next
    case (s_got i r reqs a p)
    then show ?thesis using ready_step_inv [OF assms(2) s_got(4)] sys_inv_sup [of n "s\<lparr>sy_pool := p\<rparr>"] by simp
  next
    case (s_got_none i r reqs p)
    then show ?thesis
      using ready_step_inv [OF assms(2) s_got_none(4)]
        sys_inv_sup [of n "s\<lparr>sy_pool := p, sy_dropped := sy_dropped s @ [rm_data r]\<rparr>"] by simp
  next
    case (s_add i a r reqs)
    then have "a < length (wp_heap (sy_pool s))" using sup by simp
    from local_op_inv [OF assms(2) this, of "add_request r"] s_add show ?thesis by (auto intro: sys_inv_sup)
  qed (use assms(2) sup in \<open>auto intro!: sys_inv_sup\<close>)
qed

lemma shutdown_stop_inv:
  assumes "stop_step a pc s pc' s'" and "sys_inv n s" and "a < length (wp_heap (sy_pool s))" and "sy_sup s = Sup_Ended"
  shows "sys_inv n s' \<and> sy_sup s' = sy_sup s \<and> sy_inits s' = sy_inits s"
proof -
  from stop_step_flags [OF assms(1)] obtain f where f: "flags_only f" "s' = on_worker a f s" by blast
  have ok: "worker_ok (worker_of s a)" and p: "pool_inv n (sy_pool s)" using assms(2,3) by (simp_all add: sys_inv_defs)
  have "sys_inv n (s\<lparr>sy_pool := upd_worker a f (sy_pool s)\<rparr>)"
    using assms(2,4) f(1) ok upd_worker_inv [OF p assms(3)]
    by (intro heap_op_inv [where f = f and a = a]) (auto simp: flags_only_def unstarted_def worker_ok_def)
  then show ?thesis by (simp add: f(2) on_worker_def on_pool_def)
qed

lemma main_step_inv:
  assumes "main_step s s'" and "sys_inv n s"
  shows "sys_inv n s'"
proof -
  have m: "main_inv s (sy_main s)" and p: "pool_inv n (sy_pool s)" using assms(2) by (simp_all add: sys_inv_def)
  show ?thesis
    using assms(1)
  proof cases
    case (m_accept d)
    then show ?thesis using sys_inv_main [of n "s\<lparr>sy_accepted := sy_accepted s @ [d]\<rparr>"] assms(2) by simp
  next
    case (m_got r a p')
    then show ?thesis using ready_step_inv [OF assms(2) m_got(4)] sys_inv_main [of n "s\<lparr>sy_pool := p'\<rparr>"] by simp
  next
    case (m_got_none r p')
    then show ?thesis
      using ready_step_inv [OF assms(2) m_got_none(4)]
        sys_inv_main [of n "s\<lparr>sy_pool := p', sy_dropped := sy_dropped s @ [rm_data r]\<rparr>"] by simp
  next
    case (m_add a r)
    then have "a < length (wp_heap (sy_pool s))" using m by simp
    from local_op_inv [OF assms(2) this, of "add_request r"] m_add show ?thesis by (auto intro: sys_inv_main)
  next
    case m_shutdown
    have "sys_inv n (s\<lparr>sy_pool := (sy_pool s)\<lparr>wp_is_shutting_down := True, wp_supervisor_running := False\<rparr>\<rparr>)"
      using p by (intro same_workers_inv [OF assms(2)]) simp_all
    then show ?thesis using sys_inv_main m_shutdown by (simp add: on_pool_def)
  next
    case (m_stop i pc a pc' t)
    then have "a < length (wp_heap (sy_pool s))" using p by blast
    from shutdown_stop_inv [OF m_stop(4) assms(2) this] m m_stop show ?thesis by (auto intro: sys_inv_main)
  next
    case (m_stopped i pc a t)
    then have "a < length (wp_heap (sy_pool s))" using p by blast
    from shutdown_stop_inv [OF m_stopped(4) assms(2) this] m m_stopped show ?thesis by (auto intro: sys_inv_main)
  qed (use assms(2) m in \<open>auto intro!: sys_inv_main\<close>)
qed

lemma sys_step_inv:
  assumes "sys_step s s'" and "sys_inv n s"
  shows "sys_inv n s'"
  using assms(1)
proof cases
  case (by_worker a)
  then show ?thesis using worker_step_inv assms(2) by blast
next
  case (by_init k pc' t)
  have "sy_inits s = take k (sy_inits s) @ sy_inits s ! k # drop (Suc k) (sy_inits s)"
    using by_init(2) by (rule id_take_nth_drop)
  from init_step_inv [OF by_init(3) assms(2) this] show ?thesis unfolding by_init(1) .
next
  case (tick c)
  then show ?thesis using same_workers_inv [OF assms(2)] assms(2) by (simp add: on_pool_def sys_inv_def)
qed (use sup_step_inv main_step_inv assms(2) in blast)+

lemma worker_at_new: "worker_at (new_pool n t att b m c) i = (if i < nat n then Some i else None)"
  by (simp add: worker_at_def new_pool_def Let_def)

lemma initial_inv: "sys_inv (nat n) (initial_system n t att b m c)"
proof -
  have "to_start (map Init_Start [0..<k]) = [0..<k]" for k by (induction k) simp_all
  moreover have "filter (\<lambda>b. b) (replicate k False) = []" for k by (induction k) simp_all
  ultimately show ?thesis
    by (auto simp: sys_inv_def initial_system_def heap_inv_def init_inv_def worker_at_new)
      (auto simp: new_pool_def pool_inv_def num_ready_def num_detached_def Let_def filter_empty_conv new_worker_def
        worker_ok_def unstarted_def in_set_conv_nth)
qed

interpretation threads: pool_invariant "initial_system n t att b m c" "sys_inv (nat n)" for n t att b m c
  by unfold_locales (auto intro: initial_inv sys_step_inv)

lemmas reachable_inv = threads.holds

end
