(* ===== verification/Worker_Requests.thy ===== *)
theory Worker_Requests
  imports Worker_Inv
begin

text \<open>
  What happens to requests in the worker pool, over all interleavings of its threads: none vanishes,
  none is invented, retries are bounded, and the number of threads given up is limited.
\<close>

section \<open>No request is lost\<close>

definition data_of :: "request_metadata list \<Rightarrow> string multiset" where
  "data_of rs = mset (map rm_data rs)"

lemma data_of_simps [simp]: "data_of [] = {#}" "data_of (r # rs) = add_mset (rm_data r) (data_of rs)"
  "data_of (rs @ ts) = data_of rs + data_of ts"
  by (simp_all add: data_of_def)

fun held_by_thread :: "worker_pc \<Rightarrow> string multiset" where
  "held_by_thread (Pc_Got r) = {#rm_data r#}"
| "held_by_thread (Pc_Processing r) = {#rm_data r#}"
| "held_by_thread (Pc_Unwind (Some r)) = {#rm_data r#}"
| "held_by_thread (Pc_Done (Some r)) = {#rm_data r#}"
| "held_by_thread _ = {#}"

definition held_by_worker :: "worker \<Rightarrow> string multiset" where
  "held_by_worker w = data_of (wk_queue w) + held_by_thread (wk_pc w)"

fun held_by_supervisor :: "sup_pc \<Rightarrow> string multiset" where
  "held_by_supervisor (Sup_Current i detach ctx reqs) = data_of reqs"
| "held_by_supervisor (Sup_Stop i ctx reqs pc) = data_of reqs"
| "held_by_supervisor (Sup_Detach i ctx reqs) = data_of reqs"
| "held_by_supervisor (Sup_Limit i ctx reqs) = data_of reqs"
| "held_by_supervisor (Sup_Spawn i ctx reqs) = data_of reqs"
| "held_by_supervisor (Sup_Redistribute i reqs) = data_of reqs"
| "held_by_supervisor (Sup_Each i reqs) = data_of reqs"
| "held_by_supervisor (Sup_Get i r reqs) = add_mset (rm_data r) (data_of reqs)"
| "held_by_supervisor (Sup_Add i a r reqs) = add_mset (rm_data r) (data_of reqs)"
| "held_by_supervisor _ = {#}"

fun held_by_main :: "main_pc \<Rightarrow> string multiset" where
  "held_by_main (Main_Distribute r) = {#rm_data r#}"
| "held_by_main (Main_Add a r) = {#rm_data r#}"
| "held_by_main _ = {#}"

definition held_by_heap :: "worker list \<Rightarrow> string multiset" where
  "held_by_heap h = sum_list (map held_by_worker h)"

definition accounted :: "system \<Rightarrow> string multiset" where
  "accounted s = held_by_heap (wp_heap (sy_pool s)) + held_by_supervisor (sy_sup s) + held_by_main (sy_main s) +
     mset (sy_served s) + mset (sy_discarded s) + mset (sy_dropped s)"

lemma held_by_heap_simps [simp]: "held_by_heap [] = {#}" "held_by_heap (w # h) = held_by_worker w + held_by_heap h"
  "held_by_heap (h @ h') = held_by_heap h + held_by_heap h'"
  by (simp_all add: held_by_heap_def)

lemma held_by_heap_update: "a < length h \<Longrightarrow>
    held_by_heap (h[a := w]) + held_by_worker (h ! a) = held_by_heap h + held_by_worker w"
proof (induction h arbitrary: a)
  case (Cons v h)
  show ?case
  proof (cases a)
    case (Suc b)
    with Cons.IH [of b] Cons.prems show ?thesis by (simp add: ac_simps)
  qed (simp add: ac_simps)
qed simp

lemma held_by_heap_same: "a < length h \<Longrightarrow> held_by_worker w = held_by_worker (h ! a) \<Longrightarrow> held_by_heap (h[a := w]) = held_by_heap h"
  using held_by_heap_update [of a h w] by simp

lemma held_by_heap_more: "a < length h \<Longrightarrow> held_by_worker w = held_by_worker (h ! a) + m \<Longrightarrow>
    held_by_heap (h[a := w]) = held_by_heap h + m"
  using held_by_heap_update [of a h w] by (simp add: ac_simps)

lemma held_by_heap_less: "a < length h \<Longrightarrow> held_by_worker (h ! a) = held_by_worker w + m \<Longrightarrow>
    held_by_heap h = held_by_heap (h[a := w]) + m"
  using held_by_heap_update [of a h w] by (simp add: ac_simps)

lemma held_by_worker_flags [simp]: "flags_only f \<Longrightarrow> held_by_worker (f w) = held_by_worker w"
  by (simp add: flags_only_def held_by_worker_def)

lemmas held_defs = held_by_worker_def loop_wait_def loop_take_def loop_track_def update_heartbeat_def
  loop_returned_def loop_fault_def loop_clear_def loop_exit_def loop_unwound_def add_request_def
  start_begin_def start_thread_def start_idle_def force_detach_def new_worker_def

lemma worker_step_accounted:
  assumes "worker_step a s s'" and "a < length (wp_heap (sy_pool s))"
  shows "accounted s' = accounted s \<and> sy_accepted s' = sy_accepted s"
  using assms(1)
proof cases
  case w_take
  then have "held_by_worker (loop_take (clock_of s) (worker_of s a)) = held_by_worker (worker_of s a)"
    by (simp add: held_defs split: list.splits)
  then show ?thesis using w_take assms(2) by (simp add: accounted_def held_by_heap_same)
next
  case (w_return r)
  then have "held_by_worker (worker_of s a) = held_by_worker (loop_returned (clock_of s) r (worker_of s a)) + {#rm_data r#}"
    by (simp add: held_defs)
  from held_by_heap_less [OF assms(2) this] w_return show ?thesis by (simp add: accounted_def)
next
  case (w_unwind ro)
  then show ?thesis using assms(2)
    by (cases ro) (simp_all add: accounted_def held_by_heap_same held_defs on_pool_def unwind_at_def)
qed (use assms(2) in \<open>simp_all add: accounted_def held_by_heap_same held_defs\<close>)

lemma stop_step_accounted:
  assumes "stop_step a pc s pc' s'" and "a < length (wp_heap (sy_pool s))"
  shows "held_by_heap (wp_heap (sy_pool s')) = held_by_heap (wp_heap (sy_pool s)) \<and> sy_accepted s' = sy_accepted s \<and>
    sy_served s' = sy_served s \<and> sy_discarded s' = sy_discarded s \<and> sy_dropped s' = sy_dropped s \<and>
    sy_sup s' = sy_sup s \<and> sy_main s' = sy_main s"
  using stop_step_flags [OF assms(1)] assms(2) by (auto simp: held_by_heap_same)

lemma init_step_accounted:
  assumes "init_step pc s pc' s'" and "pc \<in> set (sy_inits s)" and "sys_inv n s"
  shows "accounted (s'\<lparr>sy_inits := pcs\<rparr>) = accounted s \<and> sy_accepted s' = sy_accepted s"
  using assms(1)
proof cases
  case (i_start i a)
  have "unstarted (worker_of s a)" using assms(2,3) i_start by (auto simp: sys_inv_def init_inv_def set_to_start)
  moreover have "a < length (wp_heap (sy_pool s))" using assms(3) i_start by (auto simp: sys_inv_def)
  ultimately show ?thesis using i_start by (simp add: accounted_def held_by_heap_same held_defs unstarted_def)
next
  case (i_fail i a)
  have "a < length (wp_heap (sy_pool s))" using assms(3) i_fail by (auto simp: sys_inv_def)
  then show ?thesis using i_fail by (simp add: accounted_def held_by_heap_same held_defs)
next
  case (i_idle i a)
  have "a < length (wp_heap (sy_pool s))" using assms(2,3) i_idle by (auto simp: sys_inv_def init_inv_def)
  then show ?thesis using i_idle by (simp add: accounted_def held_by_heap_same held_defs)
qed (simp add: accounted_def on_pool_def)

lemma sup_step_accounted:
  assumes "sup_step s s'" and "sys_inv n s"
  shows "accounted s \<subseteq># accounted s' \<and> sy_accepted s' = sy_accepted s"
proof -
  have sup: "sup_inv (sy_sup s) (sy_pool s)" and p: "pool_inv n (sy_pool s)" using assms(2) by (simp_all add: sys_inv_def)
  have scan [simp]: "held_by_supervisor (next_scan i t) = {#}" for i t by (simp add: next_scan_def)
  show ?thesis
    using assms(1)
  proof cases
    case (s_mark i detach ok p')
    then have "i < n" using sup p by (auto simp: worker_at_Some pool_inv_def)
    from mark_worker_not_ready_inv [OF p this] s_mark show ?thesis by (auto simp: accounted_def)
  next
    case (s_prepare i detach ctx p')
    then have "i < length (wp_workers (sy_pool s))" using sup by (auto simp: worker_at_Some)
    from prepare_frame [OF s_prepare(3) this] s_prepare show ?thesis by (simp add: accounted_def)
  next
    case (s_drain i detach ctx a pending w)
    then have "a < length (wp_heap (sy_pool s))" using sup by (simp add: replacing_def)
    from held_by_heap_less [OF this, of w "data_of pending"] s_drain show ?thesis
      by (auto simp: accounted_def drain_pending_requests_def held_by_worker_def)
  next
    case (s_current i detach ctx pending a current_req reqs)
    then show ?thesis by (simp add: accounted_def recovered_requests_def)
  next
    case (s_stop i ctx reqs pc a pc' t)
    then have "a < length (wp_heap (sy_pool s))" using sup by (simp add: replacing_def)
    from stop_step_accounted [OF s_stop(4) this] s_stop show ?thesis by (simp add: accounted_def)
  next
    case (s_stopped i ctx reqs pc a t)
    then have "a < length (wp_heap (sy_pool s))" using sup by (simp add: replacing_def)
    from stop_step_accounted [OF s_stopped(4) this] s_stopped show ?thesis by (simp add: accounted_def)
  next
    case (s_detach i ctx reqs a)
    then have "a < length (wp_heap (sy_pool s))" using sup by (simp add: replacing_def)
    with s_detach show ?thesis by (simp add: accounted_def on_pool_def force_detach_at_def held_by_heap_same held_defs Let_def)
  next
    case (s_spawn i ctx reqs)
    then have "i < n" using sup p by (simp add: replacing_def pool_inv_def)
    from spawn_frame [OF p this] s_spawn show ?thesis by (simp add: accounted_def on_pool_def held_defs)
  next
    case (s_got i r reqs a p')
    then show ?thesis using ready_step_inv(2) [OF assms(2) s_got(4)] by (simp add: accounted_def)
  next
    case (s_got_none i r reqs p')
    then show ?thesis using ready_step_inv(2) [OF assms(2) s_got_none(4)] by (simp add: accounted_def)
  next
    case (s_add i a r reqs)
    then have "a < length (wp_heap (sy_pool s))" using sup by simp
    from held_by_heap_more [OF this, of "add_request r (worker_of s a)" "{#rm_data r#}"] s_add show ?thesis
      by (simp add: accounted_def held_by_worker_def add_request_def)
  qed (auto simp: accounted_def data_of_def retry_request_def split: if_splits)
qed

lemma main_step_accounted:
  assumes "main_step s s'" and "sys_inv n s" and "mset (sy_accepted s) \<subseteq># accounted s"
  shows "mset (sy_accepted s') \<subseteq># accounted s'"
proof -
  have m: "main_inv s (sy_main s)" and p: "pool_inv n (sy_pool s)" using assms(2) by (simp_all add: sys_inv_def)
  show ?thesis
    using assms(1)
  proof cases
    case (m_accept d)
    then show ?thesis using assms(3) by (simp add: accounted_def mk_request_metadata_def ac_simps)
  next
    case (m_got r a p')
    then show ?thesis using assms(3) ready_step_inv(2) [OF assms(2) m_got(4)] by (simp add: accounted_def)
  next
    case (m_got_none r p')
    then show ?thesis using assms(3) ready_step_inv(2) [OF assms(2) m_got_none(4)] by (simp add: accounted_def)
  next
    case (m_add a r)
    then have "a < length (wp_heap (sy_pool s))" using m by simp
    from held_by_heap_more [OF this, of "add_request r (worker_of s a)" "{#rm_data r#}"] m_add assms(3) show ?thesis
      by (simp add: accounted_def held_by_worker_def add_request_def)
  next
    case (m_stop i pc a pc' t)
    then have "a < length (wp_heap (sy_pool s))" using p by blast
    from stop_step_accounted [OF m_stop(4) this] m_stop assms(3) show ?thesis by (simp add: accounted_def)
  next
    case (m_stopped i pc a t)
    then have "a < length (wp_heap (sy_pool s))" using p by blast
    from stop_step_accounted [OF m_stopped(4) this] m_stopped assms(3) show ?thesis by (simp add: accounted_def)
  qed (use assms(3) in \<open>simp_all add: accounted_def on_pool_def\<close>)
qed

lemma sys_step_accounted:
  assumes "sys_step s s'" and "sys_inv n s" and "mset (sy_accepted s) \<subseteq># accounted s"
  shows "mset (sy_accepted s') \<subseteq># accounted s'"
  using assms(1)
proof cases
  case (by_worker a)
  with worker_step_accounted assms(3) show ?thesis by fastforce
next
  case (by_init k pc' t)
  with init_step_accounted [OF by_init(3) _ assms(2)] assms(3) show ?thesis by simp
next
  case by_supervisor
  with sup_step_accounted [OF _ assms(2)] assms(3) show ?thesis using subset_mset.order_trans by fastforce
next
  case by_main
  with main_step_accounted assms show ?thesis by blast
next
  case (tick c)
  then show ?thesis using assms(3) by (simp add: accounted_def on_pool_def)
qed

lemma initial_accepted [simp]: "sy_accepted (initial_system n t att bk m c) = []"
  by (simp add: initial_system_def)

interpretation ledger: pool_invariant "initial_system n t att b m c" "\<lambda>s. mset (sy_accepted s) \<subseteq># accounted s"
  for n t att b m c
  by unfold_locales (auto intro: sys_step_accounted dest: reachable_inv)


text \<open>
  C11. The bookkeeping of ready workers is never found inconsistent: the counter is at least the number
  of workers marked ready, so \<open>mark_worker_not_ready\<close> succeeds at every index, and no index has more
  replacement attempts than allowed.
\<close>

theorem ready_bookkeeping:
  assumes "reachable (initial_system n timeout attempts base maxb clock) s" and "i < nat n"
  shows "fst (mark_worker_not_ready i (sy_pool s)) \<and> int (num_ready (sy_pool s)) \<le> wp_ready_count (sy_pool s) \<and>
    wp_replacement_attempts (sy_pool s) ! i \<le> wp_max_replace_attempts (sy_pool s)"
proof -
  have p: "pool_inv (nat n) (sy_pool s)" using reachable_inv [OF assms(1)] by (simp add: sys_inv_def)
  from mark_worker_not_ready_inv [OF p assms(2)] p assms(2) show ?thesis by (auto simp: pool_inv_def)
qed

text \<open>
  An initializer thread never dereferences an empty slot: as long as it has not started its worker,
  the pool has a worker at its index, and the thread of that worker does not exist yet.
\<close>

theorem initializer_finds_worker:
  assumes "reachable (initial_system n timeout attempts base maxb clock) s" and "Init_Start i \<in> set (sy_inits s)"
  shows "\<exists>a. worker_at (sy_pool s) i = Some a \<and> wk_pc (worker_of s a) = Pc_None"
  using reachable_inv [OF assms(1)] assms(2) by (auto simp: sys_inv_def init_inv_def set_to_start unstarted_def)

section \<open>Detached threads and retries\<close>

definition at_limit_check :: "system \<Rightarrow> bool" where
  "at_limit_check s \<longleftrightarrow> sy_halted s \<or> (case sy_sup s of Sup_Limit i ctx reqs \<Rightarrow> True | _ \<Rightarrow> False)"

definition detach_inv :: "system \<Rightarrow> bool" where
  "detach_inv s \<longleftrightarrow>
     wp_live_detached (sy_pool s) \<le> wp_max_live_detached (sy_pool s) + (if at_limit_check s then 1 else 0)"

lemma live_frame [simp]:
  "wp_live_detached (upd_worker a f p) = wp_live_detached p" "wp_max_live_detached (upd_worker a f p) = wp_max_live_detached p"
  "wp_live_detached (set_worker_ready i p) = wp_live_detached p"
  "wp_max_live_detached (set_worker_ready i p) = wp_max_live_detached p"
  "wp_live_detached (spawn_replacement_worker j p) = wp_live_detached p"
  "wp_max_live_detached (spawn_replacement_worker j p) = wp_max_live_detached p"
  by (simp_all add: upd_worker_def set_worker_ready_def spawn_replacement_worker_def grow_ready_list_def
      grow_attempts_def Let_def split: option.split)

lemma live_frame_results:
  "mark_worker_not_ready i p = (ok, p') \<Longrightarrow> wp_live_detached p' = wp_live_detached p \<and> wp_max_live_detached p' = wp_max_live_detached p"
  "prepare_worker_replacement i p = (ctx, p') \<Longrightarrow> wp_live_detached p' = wp_live_detached p \<and> wp_max_live_detached p' = wp_max_live_detached p"
  "get_ready_worker p = (ao, p') \<Longrightarrow> wp_live_detached p' = wp_live_detached p \<and> wp_max_live_detached p' = wp_max_live_detached p"
  by (auto simp: mark_worker_not_ready_def prepare_worker_replacement_def get_ready_worker_def grow_ready_list_def
      grow_attempts_def Let_def split: if_splits prod.splits)

lemma on_pool_halted [simp]: "sy_halted (on_pool f s) = sy_halted s" "sy_halted (on_worker a g s) = sy_halted s"
  "sy_sup (on_pool f s) = sy_sup s"
  by (simp_all add: on_pool_def on_worker_def)

lemma next_scan_limit [simp]: "(case next_scan i s of Sup_Limit i ctx reqs \<Rightarrow> True | _ \<Rightarrow> False) = False"
  by (simp add: next_scan_def)

lemma stop_step_frame:
  assumes "stop_step a pc s pc' s'"
  shows "sy_halted s' = sy_halted s" "sy_sup s' = sy_sup s" "wp_live_detached (sy_pool s') = wp_live_detached (sy_pool s)"
    "wp_max_live_detached (sy_pool s') = wp_max_live_detached (sy_pool s)"
  using stop_step_flags [OF assms] by auto

lemma worker_step_detach: "worker_step a s s' \<Longrightarrow> detach_inv s \<Longrightarrow> detach_inv s'"
  by (erule worker_step.cases) (auto simp: detach_inv_def at_limit_check_def on_pool_def unwind_at_def)

lemma init_step_detach: "init_step pc s pc' s' \<Longrightarrow> detach_inv s \<Longrightarrow> detach_inv (s'\<lparr>sy_inits := pcs\<rparr>)"
  by (erule init_step.cases) (auto simp: detach_inv_def at_limit_check_def on_pool_def)

lemma main_step_detach: "main_step s s' \<Longrightarrow> detach_inv s \<Longrightarrow> detach_inv s'"
  by (erule main_step.cases)
    (auto simp: detach_inv_def at_limit_check_def on_pool_def stop_step_frame dest!: live_frame_results(3))

lemma sup_step_detach: "sup_step s s' \<Longrightarrow> \<not> sy_halted s \<Longrightarrow> detach_inv s \<Longrightarrow> detach_inv s'"
  by (erule sup_step.cases)
    (auto simp: detach_inv_def at_limit_check_def on_pool_def force_detach_at_def detached_limit_exceeded_def
      stop_step_frame dest!: live_frame_results split: if_splits)

lemma sys_step_detach:
  assumes "sys_step s s'" and "\<not> sy_halted s" and "detach_inv s"
  shows "detach_inv s'"
  using assms
proof cases
  case (tick c)
  then show ?thesis using assms(3) by (simp add: detach_inv_def at_limit_check_def on_pool_def)
qed (use worker_step_detach init_step_detach sup_step_detach main_step_detach in blast)+

lemma initial_detach: "detach_inv (initial_system n t att b m c)"
  by (simp add: detach_inv_def initial_system_def new_pool_def Let_def)

interpretation detach_limit: pool_invariant "initial_system n t att b m c" detach_inv for n t att b m c
  by unfold_locales (auto intro: initial_detach sys_step_detach)

text \<open>
  The number of force-detached threads that have not unwound is exactly the counter the limit is
  checked against, and it exceeds the limit by at most one, only while the supervisor is about to
  check it; then the process exits.
\<close>

theorem detached_threads_bounded:
  assumes "reachable (initial_system n timeout attempts base maxb clock) s"
  shows "wp_live_detached (sy_pool s) = length (filter wk_detached (wp_heap (sy_pool s))) \<and>
    (if sy_halted s \<or> (\<exists>i ctx reqs. sy_sup s = Sup_Limit i ctx reqs)
     then wp_live_detached (sy_pool s) \<le> wp_max_live_detached (sy_pool s) + 1
     else wp_live_detached (sy_pool s) \<le> wp_max_live_detached (sy_pool s))"
proof -
  have "detach_inv s" by (rule detach_limit.holds [OF assms])
  moreover have "wp_live_detached (sy_pool s) = num_detached (wp_heap (sy_pool s))"
    using reachable_inv [OF assms] by (simp add: sys_inv_def pool_inv_def)
  ultimately show ?thesis
    by (cases "sy_sup s") (auto simp: detach_inv_def at_limit_check_def num_detached_def split: if_splits)
qed

text \<open>Requests in the hands of a worker, the supervisor and the main thread.\<close>

fun thread_request :: "worker_pc \<Rightarrow> request_metadata set" where
  "thread_request (Pc_Got r) = {r}"
| "thread_request (Pc_Processing r) = {r}"
| "thread_request (Pc_Unwind (Some r)) = {r}"
| "thread_request (Pc_Done (Some r)) = {r}"
| "thread_request _ = {}"

fun supervisor_requests :: "sup_pc \<Rightarrow> request_metadata set" where
  "supervisor_requests (Sup_Current i detach ctx reqs) = set reqs"
| "supervisor_requests (Sup_Stop i ctx reqs pc) = set reqs"
| "supervisor_requests (Sup_Detach i ctx reqs) = set reqs"
| "supervisor_requests (Sup_Limit i ctx reqs) = set reqs"
| "supervisor_requests (Sup_Spawn i ctx reqs) = set reqs"
| "supervisor_requests (Sup_Redistribute i reqs) = set reqs"
| "supervisor_requests (Sup_Each i reqs) = set reqs"
| "supervisor_requests (Sup_Get i r reqs) = insert r (set reqs)"
| "supervisor_requests (Sup_Add i a r reqs) = insert r (set reqs)"
| "supervisor_requests _ = {}"

fun main_requests :: "main_pc \<Rightarrow> request_metadata set" where
  "main_requests (Main_Distribute r) = {r}"
| "main_requests (Main_Add a r) = {r}"
| "main_requests _ = {}"

definition genuine :: "string list \<Rightarrow> request_metadata \<Rightarrow> bool" where
  "genuine acc r \<longleftrightarrow> rm_data r \<in> set acc \<and> rm_retry_count r \<le> kMaxRequestRetries"

definition worker_genuine :: "string list \<Rightarrow> worker \<Rightarrow> bool" where
  "worker_genuine acc w \<longleftrightarrow> (\<forall>r \<in> set (wk_queue w) \<union> thread_request (wk_pc w). genuine acc r) \<and>
     (wk_current w = [] \<or> wk_current w \<in> set acc)"

definition genuine_inv :: "system \<Rightarrow> bool" where
  "genuine_inv s \<longleftrightarrow> (\<forall>w \<in> set (wp_heap (sy_pool s)). worker_genuine (sy_accepted s) w) \<and>
     (\<forall>r \<in> supervisor_requests (sy_sup s) \<union> main_requests (sy_main s). genuine (sy_accepted s) r) \<and>
     set (sy_served s @ sy_timed_out s @ sy_discarded s @ sy_dropped s) \<subseteq> set (sy_accepted s)"

lemma genuine_heap_update:
  assumes "\<forall>w \<in> set h. worker_genuine acc w" and "worker_genuine acc v"
  shows "\<forall>w \<in> set (h[a := v]). worker_genuine acc w"
  using assms by (auto dest!: set_mp [OF set_update_subset_insert])

lemma genuine_on_worker:
  assumes "genuine_inv s" and "a < length (wp_heap (sy_pool s))"
    and "worker_genuine (sy_accepted s) (worker_of s a) \<Longrightarrow> worker_genuine (sy_accepted s) (f (worker_of s a))"
  shows "genuine_inv (on_worker a f s)"
proof -
  have "\<forall>w \<in> set (wp_heap (sy_pool s)). worker_genuine (sy_accepted s) w" using assms(1) by (simp add: genuine_inv_def)
  with assms(2,3) have "\<forall>w \<in> set ((wp_heap (sy_pool s))[a := f (worker_of s a)]). worker_genuine (sy_accepted s) w"
    by (intro genuine_heap_update) simp_all
  with assms(1) show ?thesis unfolding genuine_inv_def on_worker_simps upd_worker_simps by blast
qed

lemma thread_request_done [simp]: "thread_request (Pc_Done ro) = thread_request (Pc_Unwind ro)"
  by (cases ro) simp_all

lemma worker_genuine_flags: "flags_only f \<Longrightarrow> worker_genuine acc (f w) = worker_genuine acc w"
  by (simp add: flags_only_def worker_genuine_def)

lemma worker_genuine_ops:
  "worker_genuine acc w \<Longrightarrow> worker_genuine acc (loop_wait c w)" "worker_genuine acc w \<Longrightarrow> worker_genuine acc (loop_take c w)"
  "worker_genuine acc w \<Longrightarrow> wk_pc w = Pc_Got r \<Longrightarrow> worker_genuine acc (loop_track r w)"
  "worker_genuine acc w \<Longrightarrow> worker_genuine acc (update_heartbeat c w)"
  "worker_genuine acc w \<Longrightarrow> worker_genuine acc (loop_returned c r w)"
  "worker_genuine acc w \<Longrightarrow> wk_pc w = Pc_Processing r \<Longrightarrow> worker_genuine acc (loop_fault c r w)"
  "worker_genuine acc w \<Longrightarrow> worker_genuine acc (loop_clear w)" "worker_genuine acc w \<Longrightarrow> worker_genuine acc (loop_exit c w)"
  "worker_genuine acc w \<Longrightarrow> wk_pc w = Pc_Unwind ro \<Longrightarrow> worker_genuine acc (loop_unwound ro w)"
  "worker_genuine acc w \<Longrightarrow> genuine acc r \<Longrightarrow> worker_genuine acc (add_request r w)"
  "worker_genuine acc w \<Longrightarrow> worker_genuine acc (start_begin c w)" "worker_genuine acc w \<Longrightarrow> worker_genuine acc (start_thread c w)"
  "worker_genuine acc w \<Longrightarrow> worker_genuine acc (start_idle c w)" "worker_genuine acc w \<Longrightarrow> worker_genuine acc (force_detach c w)"
  "worker_genuine acc (new_worker i c)"
  by (auto simp: worker_genuine_def held_defs genuine_def Let_def split: list.splits)

lemma genuine_frame:
  assumes "genuine_inv s" and "wp_heap p = wp_heap (sy_pool s)"
  shows "genuine_inv (s\<lparr>sy_pool := p\<rparr>)"
  using assms by (simp add: genuine_inv_def)

lemma worker_step_genuine:
  assumes "worker_step a s s'" and "a < length (wp_heap (sy_pool s))" and "genuine_inv s"
  shows "genuine_inv s'"
  using assms(1)
proof cases
  case (w_return r)
  have "worker_genuine (sy_accepted s) (worker_of s a)" using assms(2,3) by (simp add: genuine_inv_def)
  with w_return have "rm_data r \<in> set (sy_accepted s)" by (simp add: worker_genuine_def genuine_def)
  with w_return genuine_on_worker [OF assms(3,2) worker_genuine_ops(5)] show ?thesis
    by (simp add: genuine_inv_def)
next
  case (w_unwind ro)
  then show ?thesis
    using genuine_on_worker [OF assms(3,2) worker_genuine_ops(9)]
    by (simp add: genuine_inv_def on_pool_def unwind_at_def on_worker_def)
qed (use assms(2,3) in \<open>auto intro!: genuine_on_worker worker_genuine_ops\<close>)

lemma init_step_genuine:
  assumes "init_step pc s pc' s'" and "pc \<in> set (sy_inits s)" and "sys_inv n s" and "genuine_inv s"
  shows "genuine_inv (s'\<lparr>sy_inits := pcs\<rparr>)"
proof -
  have r: "genuine_inv (t\<lparr>sy_inits := pcs\<rparr>) = genuine_inv t" for t by (simp add: genuine_inv_def)
  have heap: "worker_at (sy_pool s) i = Some a \<Longrightarrow> a < length (wp_heap (sy_pool s))" for i a
    using assms(3) by (auto simp: sys_inv_def)
  have "genuine_inv s'"
    using assms(1)
  proof cases
    case (i_idle i a)
    then have "a < length (wp_heap (sy_pool s))" using assms(2,3) by (auto simp: sys_inv_def init_inv_def)
    with i_idle assms(4) show ?thesis by (auto intro!: genuine_on_worker worker_genuine_ops)
  next
    case (i_ready i)
    then show ?thesis using genuine_frame [OF assms(4)] by (simp add: on_pool_def)
  qed (use assms(4) heap in \<open>auto intro!: genuine_on_worker worker_genuine_ops\<close>)
  then show ?thesis by (simp add: r)
qed

lemma stop_step_genuine:
  assumes "stop_step a pc s pc' s'" and "a < length (wp_heap (sy_pool s))" and "genuine_inv s"
  shows "genuine_inv s'"
  using stop_step_flags [OF assms(1)] assms(2,3) by (auto intro!: genuine_on_worker simp: worker_genuine_flags)

lemma genuine_sup:
  assumes "genuine_inv s" and "\<forall>r \<in> supervisor_requests pc. genuine (sy_accepted s) r"
  shows "genuine_inv (s\<lparr>sy_sup := pc\<rparr>)"
  using assms by (auto simp: genuine_inv_def)

lemma genuine_main:
  assumes "genuine_inv s" and "\<forall>r \<in> main_requests pc. genuine (sy_accepted s) r"
  shows "genuine_inv (s\<lparr>sy_main := pc\<rparr>)"
  using assms by (auto simp: genuine_inv_def)

lemma retry_genuine: "retry_request r = Some r' \<Longrightarrow> genuine acc r \<Longrightarrow> genuine acc r'"
  by (auto simp: retry_request_def genuine_def split: if_splits)

lemma recovered_genuine:
  assumes "\<forall>r \<in> set pending. genuine acc r" and "d = [] \<or> d \<in> set acc"
  shows "\<forall>r \<in> set (recovered_requests pending d detach). genuine acc r"
  using assms by (auto simp: recovered_requests_def genuine_def mk_request_metadata_def)

lemma genuine_logs:
  assumes "genuine_inv s"
  shows "d \<in> set (sy_accepted s) \<Longrightarrow> genuine_inv (s\<lparr>sy_discarded := sy_discarded s @ [d]\<rparr>)"
    and "set ds \<subseteq> set (sy_accepted s) \<Longrightarrow> genuine_inv (s\<lparr>sy_dropped := sy_dropped s @ ds\<rparr>)"
    and "set ds \<subseteq> set (sy_accepted s) \<Longrightarrow> genuine_inv (s\<lparr>sy_timed_out := sy_timed_out s @ ds\<rparr>)"
  using assms by (auto simp: genuine_inv_def)

lemma genuine_data: "genuine acc r \<Longrightarrow> rm_data r \<in> set acc"
  by (simp add: genuine_def)

lemma genuine_datas: "\<forall>r \<in> set rs. genuine acc r \<Longrightarrow> set (map rm_data rs) \<subseteq> set acc"
  by (auto simp: genuine_def)

lemma sup_step_genuine:
  assumes "sup_step s s'" and "sys_inv n s" and "genuine_inv s"
  shows "genuine_inv s'"
proof -
  have sup: "sup_inv (sy_sup s) (sy_pool s)" and p: "pool_inv n (sy_pool s)" using assms(2) by (simp_all add: sys_inv_def)
  have g: "\<forall>r \<in> supervisor_requests (sy_sup s). genuine (sy_accepted s) r" using assms(3) by (simp add: genuine_inv_def)
  have scan: "supervisor_requests (next_scan i t) = {}" for i t by (simp add: next_scan_def)
  have w: "worker_genuine (sy_accepted s) (worker_of s a)" if "a < length (wp_heap (sy_pool s))" for a
    using assms(3) that by (simp add: genuine_inv_def)
  show ?thesis
    using assms(1)
  proof cases
    case (s_mark i detach ok p')
    then have "i < n" using sup p by (auto simp: worker_at_Some pool_inv_def)
    from mark_worker_not_ready_inv [OF p this] s_mark have "wp_heap p' = wp_heap (sy_pool s)" by auto
    from genuine_frame [OF assms(3) this] s_mark show ?thesis
      using genuine_sup [of "s\<lparr>sy_pool := p'\<rparr>"] by (simp add: scan)
  next
    case (s_prepare i detach ctx p')
    then have "i < length (wp_workers (sy_pool s))" using sup by (auto simp: worker_at_Some)
    from genuine_frame [OF assms(3) prepare_frame(1) [OF s_prepare(3) this]] s_prepare show ?thesis
      using genuine_sup [of "s\<lparr>sy_pool := p'\<rparr>"] by simp
  next
    case (s_drain i detach ctx a pending v)
    then have a: "a < length (wp_heap (sy_pool s))" using sup by (simp add: replacing_def)
    from s_drain(4) w [OF a] have d: "\<forall>r \<in> set pending. genuine (sy_accepted s) r" "worker_genuine (sy_accepted s) v"
      by (auto simp: drain_pending_requests_def worker_genuine_def)
    from genuine_on_worker [OF assms(3) a, of "\<lambda>_. v"] d s_drain show ?thesis
      by (auto intro!: genuine_sup)
  next
    case (s_current i detach ctx pending a current_req reqs)
    then have "a < length (wp_heap (sy_pool s))" using sup by (simp add: replacing_def)
    from w [OF this] s_current(4) have c: "current_req = [] \<or> current_req \<in> set (sy_accepted s)"
      by (simp add: worker_genuine_def get_current_request_def)
    have "\<forall>r \<in> set reqs. genuine (sy_accepted s) r"
      unfolding s_current(5) using g s_current(2) c by (intro recovered_genuine) simp_all
    moreover have "genuine_inv (s\<lparr>sy_timed_out := sy_timed_out s @ (if sends_timeout_error current_req detach then [current_req] else [])\<rparr>)"
      using c by (intro genuine_logs(3) [OF assms(3)]) (auto simp: sends_timeout_error_def)
    ultimately show ?thesis unfolding s_current(1) by (intro genuine_sup) simp_all
  next
    case (s_stop i ctx reqs pc a pc' t)
    then have "a < length (wp_heap (sy_pool s))" using sup by (simp add: replacing_def)
    from stop_step_genuine [OF s_stop(4) this assms(3)] stop_step_accounted [OF s_stop(4) this] s_stop g show ?thesis
      by (auto intro!: genuine_sup)
  next
    case (s_stopped i ctx reqs pc a t)
    then have "a < length (wp_heap (sy_pool s))" using sup by (simp add: replacing_def)
    from stop_step_genuine [OF s_stopped(4) this assms(3)] stop_step_accounted [OF s_stopped(4) this] s_stopped g show ?thesis
      by (auto intro!: genuine_sup)
  next
    case (s_detach i ctx reqs a)
    then have a: "a < length (wp_heap (sy_pool s))" using sup by (simp add: replacing_def)
    have "genuine_inv (on_worker a (force_detach (clock_of s)) s)"
      by (intro genuine_on_worker [OF assms(3) a] worker_genuine_ops)
    then have "genuine_inv (on_pool (force_detach_at a) s)"
      by (simp add: genuine_inv_def on_pool_def force_detach_at_def)
    with s_detach g show ?thesis by (auto intro!: genuine_sup simp: on_pool_def)
  next
    case (s_spawn i ctx reqs)
    then have "i < n" using sup p by (simp add: replacing_def pool_inv_def)
    from spawn_frame(1) [OF p this] assms(3) have "genuine_inv (on_pool (spawn_replacement_worker i) s)"
      by (auto simp: genuine_inv_def on_pool_def worker_genuine_ops)
    then have "genuine_inv ((on_pool (spawn_replacement_worker i) s)\<lparr>sy_inits := sy_inits s @ [Init_Start i]\<rparr>)"
      by (simp add: genuine_inv_def)
    with s_spawn g show ?thesis by (auto intro!: genuine_sup simp: on_pool_def scan)
  next
    case (s_got i r reqs a p')
    from genuine_frame [OF assms(3) ready_step_inv(2) [OF assms(2) s_got(4)]] s_got g show ?thesis
      using genuine_sup [of "s\<lparr>sy_pool := p'\<rparr>"] by simp
  next
    case (s_got_none i r reqs p')
    from genuine_frame [OF assms(3) ready_step_inv(2) [OF assms(2) s_got_none(4)]] s_got_none g
    have "genuine_inv (s\<lparr>sy_pool := p', sy_dropped := sy_dropped s @ [rm_data r]\<rparr>)"
      using genuine_logs(2) [of "s\<lparr>sy_pool := p'\<rparr>" "[rm_data r]"] by (simp add: genuine_data)
    with s_got_none g show ?thesis using genuine_sup [of "s\<lparr>sy_pool := p', sy_dropped := sy_dropped s @ [rm_data r]\<rparr>"] by simp
  next
    case (s_add i a r reqs)
    then have a: "a < length (wp_heap (sy_pool s))" using sup by simp
    have "genuine_inv (on_worker a (add_request r) s)"
      using g s_add by (intro genuine_on_worker [OF assms(3) a] worker_genuine_ops) simp_all
    with s_add g show ?thesis by (auto intro!: genuine_sup)
  next
    case (s_abandon i ctx reqs)
    with g genuine_logs(2) [OF assms(3) genuine_datas, of reqs] show ?thesis
      by (auto intro!: genuine_sup simp: scan genuine_data)
  next
    case (s_no_redistribution i reqs)
    with g genuine_logs(2) [OF assms(3) genuine_datas, of reqs] show ?thesis
      by (auto intro!: genuine_sup simp: scan genuine_data)
  next
    case (s_discard i r reqs)
    with g genuine_logs(1) [OF assms(3), of "rm_data r"] show ?thesis
      by (auto intro!: genuine_sup simp: genuine_data)
  next
    case (s_retry_shutting i r reqs r')
    with g genuine_logs(2) [OF assms(3), of "[rm_data r]"] show ?thesis
      by (auto intro!: genuine_sup simp: genuine_data)
  next
    case (s_retry i r reqs r')
    with g retry_genuine show ?thesis by (auto intro!: genuine_sup [OF assms(3)])
  next
    case (s_halt i ctx reqs)
    with assms(3) show ?thesis by (simp add: genuine_inv_def)
  qed (use assms(3) g in \<open>auto intro!: genuine_sup simp: scan\<close>)
qed

lemma genuine_mono: "genuine acc r \<Longrightarrow> genuine (acc @ [d]) r" "worker_genuine acc w \<Longrightarrow> worker_genuine (acc @ [d]) w"
  by (auto simp: genuine_def worker_genuine_def)

lemma main_step_genuine:
  assumes "main_step s s'" and "sys_inv n s" and "genuine_inv s"
  shows "genuine_inv s'"
proof -
  have m: "main_inv s (sy_main s)" and p: "pool_inv n (sy_pool s)" using assms(2) by (simp_all add: sys_inv_def)
  have g: "\<forall>r \<in> main_requests (sy_main s). genuine (sy_accepted s) r" using assms(3) by (simp add: genuine_inv_def)
  show ?thesis
    using assms(1)
  proof cases
    case (m_accept d)
    have "genuine_inv (s\<lparr>sy_accepted := sy_accepted s @ [d]\<rparr>)"
      using assms(3) by (auto simp: genuine_inv_def genuine_mono)
    then show ?thesis unfolding m_accept(1)
      using genuine_main [of "s\<lparr>sy_accepted := sy_accepted s @ [d]\<rparr>" "Main_Distribute (mk_request_metadata d 0 [])"]
      by (simp add: genuine_def mk_request_metadata_def)
  next
    case (m_got r a p')
    from genuine_frame [OF assms(3) ready_step_inv(2) [OF assms(2) m_got(4)]] m_got g show ?thesis
      using genuine_main [of "s\<lparr>sy_pool := p'\<rparr>"] by simp
  next
    case (m_got_none r p')
    from genuine_frame [OF assms(3) ready_step_inv(2) [OF assms(2) m_got_none(4)]] m_got_none g
    have "genuine_inv (s\<lparr>sy_pool := p', sy_dropped := sy_dropped s @ [rm_data r]\<rparr>)"
      using genuine_logs(2) [of "s\<lparr>sy_pool := p'\<rparr>" "[rm_data r]"] by (simp add: genuine_data)
    with m_got_none show ?thesis
      using genuine_main [of "s\<lparr>sy_pool := p', sy_dropped := sy_dropped s @ [rm_data r]\<rparr>"] by simp
  next
    case (m_add a r)
    then have a: "a < length (wp_heap (sy_pool s))" using m by simp
    have "genuine_inv (on_worker a (add_request r) s)"
      using g m_add by (intro genuine_on_worker [OF assms(3) a] worker_genuine_ops) simp_all
    with m_add show ?thesis by (auto intro!: genuine_main)
  next
    case m_shutdown
    have "genuine_inv (on_pool (\<lambda>p. p\<lparr>wp_is_shutting_down := True, wp_supervisor_running := False\<rparr>) s)"
      using assms(3) by (simp add: genuine_inv_def on_pool_def)
    with m_shutdown show ?thesis by (auto intro!: genuine_main)
  next
    case (m_stop i pc a pc' t)
    then have "a < length (wp_heap (sy_pool s))" using p by blast
    from stop_step_genuine [OF m_stop(4) this assms(3)] m_stop show ?thesis by (auto intro!: genuine_main)
  next
    case (m_stopped i pc a t)
    then have "a < length (wp_heap (sy_pool s))" using p by blast
    from stop_step_genuine [OF m_stopped(4) this assms(3)] m_stopped show ?thesis by (auto intro!: genuine_main)
  qed (use assms(3) in \<open>auto intro!: genuine_main\<close>)
qed

lemma sys_step_genuine:
  assumes "sys_step s s'" and "sys_inv n s" and "genuine_inv s"
  shows "genuine_inv s'"
  using assms(1)
proof cases
  case (by_init k pc' t)
  then show ?thesis using init_step_genuine [OF by_init(3) _ assms(2,3)] by simp
next
  case (tick c)
  then show ?thesis using assms(3) by (simp add: genuine_inv_def on_pool_def)
qed (use worker_step_genuine sup_step_genuine main_step_genuine assms(2,3) in blast)+

lemma initial_genuine: "genuine_inv (initial_system n t att b m c)"
  by (auto simp: genuine_inv_def initial_system_def new_pool_def Let_def worker_genuine_ops)

interpretation provenance: pool_invariant "initial_system n t att b m c" genuine_inv for n t att b m c
  by unfold_locales (auto intro: initial_genuine sys_step_genuine dest: reachable_inv)


end
