(* ===== verification/Worker_Runs.thy ===== *)
theory Worker_Runs
  imports Worker_Requests
begin

text \<open>
  Concrete schedules of the worker pool, the states they reach, and properties of single operations of
  the pool: round-robin hand-out, replacement delays, and the three cases in which the pool does not do
  what it is meant to.
\<close>

section \<open>Concrete schedules\<close>

text \<open>
  A schedule names the thread that moves next. It leaves out shutdown, failures to create a thread and
  waits that time out, and serves to show that particular states can be reached.
\<close>

datatype move =
    Move_Worker nat | Move_Return nat | Move_Throw nat | Move_Init nat | Move_Supervisor | Move_Accept string | Move_Main
  | Move_Clock int

definition move_worker :: "nat \<Rightarrow> system \<Rightarrow> system option" where
  "move_worker a s =
     (if a \<ge> length (wp_heap (sy_pool s)) then None
      else case wk_pc (worker_of s a) of
        Pc_Top \<Rightarrow> Some (on_worker a (loop_wait (clock_of s)) s)
      | Pc_Waiting \<Rightarrow> if wait_over (worker_of s a) then Some (on_worker a (loop_take (clock_of s)) s) else None
      | Pc_Got r \<Rightarrow> Some (on_worker a (loop_track r) s)
      | Pc_Processed r \<Rightarrow> Some (on_worker a loop_clear s)
      | Pc_Left \<Rightarrow> Some (on_worker a (loop_exit (clock_of s)) s)
      | Pc_Unwind ro \<Rightarrow> Some (on_pool (unwind_at a ro) s)
      | _ \<Rightarrow> None)"

definition move_outcome :: "bool \<Rightarrow> nat \<Rightarrow> system \<Rightarrow> system option" where
  "move_outcome throws a s =
     (if a \<ge> length (wp_heap (sy_pool s)) then None
      else case wk_pc (worker_of s a) of
        Pc_Processing r \<Rightarrow>
          if throws then Some (on_worker a (loop_fault (clock_of s) r) s)
          else Some ((on_worker a (loop_returned (clock_of s) r) s)\<lparr>sy_served := sy_served s @ [rm_data r]\<rparr>)
      | _ \<Rightarrow> None)"

definition move_init :: "nat \<Rightarrow> system \<Rightarrow> system option" where
  "move_init k s =
     (if k \<ge> length (sy_inits s) then None
      else let rest = (\<lambda>pcs. take k (sy_inits s) @ pcs @ drop (Suc k) (sy_inits s))
      in case sy_inits s ! k of
        Init_Start i \<Rightarrow>
          (case worker_at (sy_pool s) i of
             None \<Rightarrow> None
           | Some a \<Rightarrow> Some ((on_worker a (start_thread (clock_of s)) s)\<lparr>sy_inits := rest [Init_Idle i a]\<rparr>))
      | Init_Idle i a \<Rightarrow> Some ((on_worker a (start_idle (clock_of s)) s)\<lparr>sy_inits := rest [Init_Ready i]\<rparr>)
      | Init_Ready i \<Rightarrow> Some ((on_pool (set_worker_ready (int i)) s)\<lparr>sy_inits := rest []\<rparr>))"

definition move_stop :: "nat \<Rightarrow> stop_pc \<Rightarrow> system \<Rightarrow> (stop_pc option \<times> system) option" where
  "move_stop a pc s =
     (case pc of
        Stop_Begin \<Rightarrow> Some (if stop_returns (worker_of s a) then None else Some (Stop_Request (wk_state (worker_of s a))), s)
      | Stop_Request st \<Rightarrow> Some (Some (Stop_Mark st), on_worker a stop_request s)
      | Stop_Mark st \<Rightarrow> Some (Some Stop_Wait, on_worker a (stop_mark st) s)
      | Stop_Wait \<Rightarrow> if stop_wait_over (worker_of s a) then Some (None, on_worker a stop_joined s) else None)"

definition move_scan :: "nat \<Rightarrow> system \<Rightarrow> system option" where
  "move_scan i s =
     (if \<not> wp_supervisor_running (sy_pool s) \<or> wp_is_shutting_down (sy_pool s) then None
      else Some (s\<lparr>sy_sup := case monitor_worker_at (sy_pool s) i of
          None \<Rightarrow> next_scan i s | Some (reason, detach) \<Rightarrow> Sup_Replace i detach\<rparr>))"

definition move_supervisor :: "system \<Rightarrow> system option" where
  "move_supervisor s =
     (if wp_is_shutting_down (sy_pool s) then None
      else case sy_sup s of
        Sup_Scan i \<Rightarrow> move_scan i s
      | Sup_Replace i detach \<Rightarrow>
          (case mark_worker_not_ready i (sy_pool s) of
             (ok, p) \<Rightarrow> Some (s\<lparr>sy_pool := p, sy_sup := if ok then Sup_Prepare i detach else next_scan i s\<rparr>))
      | Sup_Prepare i detach \<Rightarrow>
          (case prepare_worker_replacement i (sy_pool s) of
             (ctx, p) \<Rightarrow> Some (s\<lparr>sy_pool := p, sy_sup := Sup_Drain i detach ctx\<rparr>))
      | Sup_Drain i detach ctx \<Rightarrow>
          (case rc_old_worker ctx of
             None \<Rightarrow> None
           | Some a \<Rightarrow> (case drain_pending_requests (worker_of s a) of
               (pending, w) \<Rightarrow> Some ((on_worker a (\<lambda>_. w) s)\<lparr>sy_sup := Sup_Current i detach ctx pending\<rparr>)))
      | Sup_Current i detach ctx pending \<Rightarrow>
          (case rc_old_worker ctx of
             None \<Rightarrow> None
           | Some a \<Rightarrow>
               let current_req = get_current_request (worker_of s a); reqs = recovered_requests pending current_req detach
               in Some (s\<lparr>sy_timed_out := sy_timed_out s @ (if sends_timeout_error current_req detach then [current_req] else []),
                          sy_sup := if detach then Sup_Detach i ctx reqs else Sup_Stop i ctx reqs Stop_Begin\<rparr>))
      | Sup_Stop i ctx reqs pc \<Rightarrow>
          (case rc_old_worker ctx of
             None \<Rightarrow> None
           | Some a \<Rightarrow>
               (case move_stop a pc s of
                  None \<Rightarrow> None
                | Some (None, s') \<Rightarrow> Some (s'\<lparr>sy_sup := Sup_Spawn i ctx reqs\<rparr>)
                | Some (Some pc', s') \<Rightarrow> Some (s'\<lparr>sy_sup := Sup_Stop i ctx reqs pc'\<rparr>)))
      | Sup_Detach i ctx reqs \<Rightarrow>
          (case rc_old_worker ctx of
             None \<Rightarrow> None
           | Some a \<Rightarrow> Some ((on_pool (force_detach_at a) s)\<lparr>sy_sup := Sup_Limit i ctx reqs\<rparr>))
      | Sup_Limit i ctx reqs \<Rightarrow>
          if detached_limit_exceeded (sy_pool s) then Some (s\<lparr>sy_halted := True\<rparr>) else Some (s\<lparr>sy_sup := Sup_Spawn i ctx reqs\<rparr>)
      | Sup_Spawn i ctx reqs \<Rightarrow>
          if rc_max_attempts_reached ctx
          then Some (s\<lparr>sy_sup := if reqs \<noteq> [] then Sup_Redistribute i reqs else next_scan i s\<rparr>)
          else Some ((on_pool (spawn_replacement_worker i) s)\<lparr>sy_inits := sy_inits s @ [Init_Start i],
                 sy_sup := if reqs \<noteq> [] then Sup_Redistribute i reqs else next_scan i s\<rparr>)
      | Sup_Redistribute i reqs \<Rightarrow> Some (s\<lparr>sy_sup := Sup_Each i reqs\<rparr>)
      | Sup_Each i reqs \<Rightarrow>
          (case reqs of
             [] \<Rightarrow> Some (s\<lparr>sy_sup := next_scan i s\<rparr>)
           | r # rs \<Rightarrow>
               (case retry_request r of
                  None \<Rightarrow> Some (s\<lparr>sy_discarded := sy_discarded s @ [rm_data r], sy_sup := Sup_Each i rs\<rparr>)
                | Some r' \<Rightarrow> Some (s\<lparr>sy_sup := Sup_Get i r' rs\<rparr>)))
      | Sup_Get i r reqs \<Rightarrow>
          if \<not> ready_wait_over (sy_pool s) then None
          else (case get_ready_worker (sy_pool s) of
             (Some a, p) \<Rightarrow> Some (s\<lparr>sy_pool := p, sy_sup := Sup_Add i a r reqs\<rparr>)
           | (None, p) \<Rightarrow> Some (s\<lparr>sy_pool := p, sy_dropped := sy_dropped s @ [rm_data r], sy_sup := Sup_Each i reqs\<rparr>))
      | Sup_Add i a r reqs \<Rightarrow> Some ((on_worker a (add_request r) s)\<lparr>sy_sup := Sup_Each i reqs\<rparr>)
      | Sup_Ended \<Rightarrow> None)"

definition move_main :: "system \<Rightarrow> system option" where
  "move_main s =
     (case sy_main s of
        Main_Distribute r \<Rightarrow>
          if \<not> ready_wait_over (sy_pool s) then None
          else (case get_ready_worker (sy_pool s) of
             (Some a, p) \<Rightarrow> Some (s\<lparr>sy_pool := p, sy_main := Main_Add a r\<rparr>)
           | (None, p) \<Rightarrow> Some (s\<lparr>sy_pool := p, sy_dropped := sy_dropped s @ [rm_data r], sy_main := Main_Read\<rparr>))
      | Main_Add a r \<Rightarrow> Some ((on_worker a (add_request r) s)\<lparr>sy_main := Main_Read\<rparr>)
      | _ \<Rightarrow> None)"

definition move_accept :: "string \<Rightarrow> system \<Rightarrow> system option" where
  "move_accept d s =
     (if sy_main s = Main_Read \<and> \<not> wp_is_shutting_down (sy_pool s) \<and> d \<noteq> []
      then Some (s\<lparr>sy_accepted := sy_accepted s @ [d], sy_main := Main_Distribute (mk_request_metadata d 0 [])\<rparr>)
      else None)"

fun do_move :: "move \<Rightarrow> system \<Rightarrow> system option" where
  "do_move (Move_Worker a) s = move_worker a s"
| "do_move (Move_Return a) s = move_outcome False a s"
| "do_move (Move_Throw a) s = move_outcome True a s"
| "do_move (Move_Init k) s = move_init k s"
| "do_move Move_Supervisor s = move_supervisor s"
| "do_move (Move_Accept d) s = move_accept d s"
| "do_move Move_Main s = move_main s"
| "do_move (Move_Clock c) s = (if c \<ge> clock_of s then Some (on_pool (\<lambda>p. p\<lparr>wp_clock := c\<rparr>) s) else None)"

fun run_moves :: "move list \<Rightarrow> system \<Rightarrow> system option" where
  "run_moves [] s = Some s"
| "run_moves (m # ms) s =
     (if sy_halted s then None else case do_move m s of None \<Rightarrow> None | Some s' \<Rightarrow> run_moves ms s')"

lemma move_worker_step: "move_worker a s = Some s' \<Longrightarrow> sys_step s s'"
  by (auto simp: move_worker_def split: if_splits worker_pc.splits intro!: by_worker [of a] worker_step.intros)

lemma move_outcome_step: "move_outcome b a s = Some s' \<Longrightarrow> sys_step s s'"
  by (auto simp: move_outcome_def split: if_splits worker_pc.splits intro!: by_worker [of a] worker_step.intros)

lemma move_init_step:
  assumes "move_init k s = Some s'"
  shows "sys_step s s'"
proof -
  have k: "k < length (sy_inits s)" using assms by (simp add: move_init_def split: if_splits)
  show ?thesis
  proof (cases "sy_inits s ! k")
    case (Init_Start i)
    with assms k obtain a where "worker_at (sy_pool s) i = Some a"
        "s' = (on_worker a (start_thread (clock_of s)) s)\<lparr>sy_inits := take k (sy_inits s) @ [Init_Idle i a] @ drop (Suc k) (sy_inits s)\<rparr>"
      by (auto simp: move_init_def split: option.splits)
    with by_init [OF k, of "Some (Init_Idle i a)"] Init_Start i_start show ?thesis by simp
  next
    case (Init_Idle i a)
    with assms k by_init [OF k, of "Some (Init_Ready i)"] i_idle show ?thesis by (simp add: move_init_def) blast
  next
    case (Init_Ready i)
    with assms k by_init [OF k, of None] i_ready show ?thesis by (auto simp: move_init_def)
  qed
qed

lemma move_stop_step: "move_stop a pc s = Some (pc', s') \<Longrightarrow> stop_step a pc s pc' s'"
  by (cases pc) (auto simp: move_stop_def split: if_splits intro: stop_step.intros)

lemma move_supervisor_step:
  assumes "move_supervisor s = Some s'"
  shows "sup_step s s'"
proof -
  have d: "\<not> wp_is_shutting_down (sy_pool s)" using assms by (simp add: move_supervisor_def split: if_splits)
  show ?thesis
  proof (cases "sy_sup s")
    case (Sup_Replace i detach)
    obtain ok p where "mark_worker_not_ready i (sy_pool s) = (ok, p)" by fastforce
    with assms d Sup_Replace s_mark [OF Sup_Replace d this] show ?thesis by (simp add: move_supervisor_def)
  next
    case (Sup_Current i detach ctx pending)
    with assms d obtain a where "rc_old_worker ctx = Some a" by (auto simp: move_supervisor_def split: option.splits)
    with assms d Sup_Current s_current [OF Sup_Current this refl refl] show ?thesis
      by (simp add: move_supervisor_def Let_def)
  next
    case (Sup_Spawn i ctx reqs)
    show ?thesis
    proof (cases "rc_max_attempts_reached ctx")
      case True
      with assms d Sup_Spawn s_offline [OF Sup_Spawn True] show ?thesis by (simp add: move_supervisor_def)
    next
      case False
      with assms d Sup_Spawn s_spawn [OF Sup_Spawn False d] show ?thesis by (simp add: move_supervisor_def)
    qed
  next
    case (Sup_Scan i)
    with assms d show ?thesis
      by (auto simp: move_supervisor_def move_scan_def split: if_splits option.splits
          intro: s_healthy s_replace)
  next
    case (Sup_Stop i ctx reqs pc)
    with assms d show ?thesis
      by (auto simp: move_supervisor_def split: option.splits prod.splits dest!: move_stop_step intro: s_stop s_stopped)
  qed (use assms d in \<open>auto simp: move_supervisor_def split: option.splits prod.splits list.splits if_splits
      intro: sup_step.intros\<close>)
qed

lemma move_main_step: "move_main s = Some s' \<Longrightarrow> main_step s s'"
  by (auto simp: move_main_def split: main_pc.splits if_splits option.splits prod.splits intro: main_step.intros)

lemma do_move_step: "do_move m s = Some s' \<Longrightarrow> sys_step s s'"
  by (cases m) (auto simp: move_accept_def split: if_splits intro: move_worker_step move_outcome_step move_init_step
      by_supervisor move_supervisor_step by_main move_main_step m_accept tick)

lemma run_moves_reachable: "run_moves ms s = Some s' \<Longrightarrow> reachable s\<^sub>0 s \<Longrightarrow> reachable s\<^sub>0 s'"
proof (induction ms arbitrary: s)
  case (Cons m ms)
  then obtain t where "\<not> sy_halted s" "do_move m s = Some t" "run_moves ms t = Some s'"
    by (auto split: if_splits option.splits)
  with Cons show ?case using reach_step [OF Cons.prems(2) _ do_move_step] by blast
qed simp

definition one_worker :: system where
  "one_worker = initial_system 1 60000 3 200 5000 0"

text \<open>The worker is started and marked ready, takes a request, and its processing ends with an exception.\<close>

definition crash_schedule :: "move list" where
  "crash_schedule = [Move_Init 0, Move_Worker 0, Move_Init 0, Move_Init 0, Move_Accept ''A'', Move_Main, Move_Main,
     Move_Worker 0, Move_Worker 0, Move_Throw 0]"

definition drop_schedule :: "move list" where
  "drop_schedule = crash_schedule @ [Move_Accept ''B'', Move_Main]"

definition replace_schedule :: "move list" where
  "replace_schedule = crash_schedule @ Move_Worker 0 # replicate 12 Move_Supervisor @ replicate 3 (Move_Init 0)"


lemma run_moves_from:
  assumes "run_moves ms s \<noteq> None"
  shows "reachable s (the (run_moves ms s))"
  using run_moves_reachable [OF _ reach_start, of ms s] assms by auto

text \<open>
  A request can be dropped although the pool is neither shutting down nor out of workers: while a
  worker that has failed is still counted as ready, a request that finds no other worker is discarded
  without any response.
\<close>

theorem request_dropped_silently:
  "\<exists>s. reachable one_worker s \<and> sy_accepted s = [''A'', ''B''] \<and> sy_dropped s = [''B''] \<and>
     \<not> wp_is_shutting_down (sy_pool s) \<and> wp_ready_count (sy_pool s) = 1 \<and> sy_main s = Main_Read"
proof -
  let ?s = "the (run_moves drop_schedule one_worker)"
  have "reachable one_worker ?s" by (rule run_moves_from) code_simp
  moreover have "sy_accepted ?s = [''A'', ''B'']" "sy_dropped ?s = [''B'']" "\<not> wp_is_shutting_down (sy_pool ?s)"
    "wp_ready_count (sy_pool ?s) = 1" "sy_main ?s = Main_Read" by code_simp+
  ultimately show ?thesis by blast
qed

text \<open>
  A worker that is replaced is afterwards twice in the queue of ready workers: the entry of the one
  it replaces is not removed and is valid again, so it gets two turns per round.
\<close>

theorem replaced_worker_queued_twice:
  "\<exists>s. reachable one_worker s \<and> wp_ready_queue (sy_pool s) = [0, 0] \<and> wp_ready_list (sy_pool s) = [True]"
proof -
  let ?s = "the (run_moves replace_schedule one_worker)"
  have "reachable one_worker ?s" by (rule run_moves_from) code_simp
  moreover have "wp_ready_queue (sy_pool ?s) = [0, 0]" "wp_ready_list (sy_pool ?s) = [True]" by code_simp+
  ultimately show ?thesis by blast
qed

lemma replaced_reachable: "reachable (initial_system 1 60000 3 200 5000 0) (the (run_moves replace_schedule one_worker))"
  unfolding one_worker_def [symmetric] by (rule run_moves_from) code_simp


theorem ready_bookkeeping_witness:
  "fst (mark_worker_not_ready 0 (sy_pool (the (run_moves replace_schedule one_worker))))"
  using ready_bookkeeping [OF replaced_reachable, of 0] by simp

theorem initializer_finds_worker_witness:
  "\<exists>a. worker_at (sy_pool one_worker) 0 = Some a \<and> wk_pc (wp_heap (sy_pool one_worker) ! a) = Pc_None"
proof -
  have "Init_Start 0 \<in> set (sy_inits (initial_system 1 60000 3 200 5000 0))" by (simp add: initial_system_def)
  from initializer_finds_worker [OF reach_start this] show ?thesis by (simp add: one_worker_def)
qed

theorem detached_threads_bounded_witness:
  "wp_live_detached (sy_pool (the (run_moves replace_schedule one_worker))) \<le> 3"
proof -
  have "wp_max_live_detached (sy_pool (the (run_moves replace_schedule one_worker))) = 2" by code_simp
  then show ?thesis using detached_threads_bounded [OF replaced_reachable] by (simp split: if_splits)
qed


section \<open>Single operations\<close>

lemma pop_ready_hd:
  "worker_at p i = Some a \<Longrightarrow> is_ready (wp_heap p ! a) \<Longrightarrow> pop_ready p (i # q) = (Some a, q @ [i])"
  by simp

text \<open>The workers that successive calls of \<open>get_ready_worker\<close> hand out.\<close>

fun hand_out :: "nat \<Rightarrow> pool \<Rightarrow> nat option list" where
  "hand_out 0 p = []"
| "hand_out (Suc k) p = (case get_ready_worker p of (a, p') \<Rightarrow> a # hand_out k p')"

text \<open>
  Requests go round-robin: while no worker changes its state, successive calls of
  \<open>get_ready_worker\<close> go through the queue of ready workers in order, again and again.
\<close>

theorem round_robin:
  assumes "\<not> wp_is_shutting_down p" and "wp_ready_queue p = q" and "q \<noteq> []"
    and "\<forall>i \<in> set q. \<exists>a. worker_at p i = Some a \<and> is_ready (wp_heap p ! a)"
  shows "hand_out k p = map (\<lambda>j. worker_at p (q ! (j mod length q))) [0..<k]"
  using assms
proof (induction k arbitrary: p q)
  case (Suc k)
  obtain i rest where q: "q = i # rest" using Suc.prems(3) by (cases q) auto
  obtain a where a: "worker_at p i = Some a" "is_ready (wp_heap p ! a)" using Suc.prems(4) q by auto
  let ?p = "p\<lparr>wp_ready_queue := rest @ [i]\<rparr>"
  have at: "worker_at ?p = worker_at p" by (simp add: worker_at_def fun_eq_iff)
  have g: "get_ready_worker p = (Some a, ?p)"
    using Suc.prems(1,2) q a by (simp add: get_ready_worker_def)
  have IH: "hand_out k ?p = map (\<lambda>j. worker_at ?p ((rest @ [i]) ! (j mod length (rest @ [i])))) [0..<k]"
    using Suc.prems q by (intro Suc.IH) (simp_all add: at)
  have nth: "(rest @ [i]) ! (j mod length (rest @ [i])) = q ! (Suc j mod length q)" for j
  proof -
    have "j mod Suc (length rest) < Suc (length rest)" by simp
    then have "j mod Suc (length rest) \<noteq> length rest \<Longrightarrow> j mod Suc (length rest) < length rest" by linarith
    then show ?thesis unfolding q by (auto simp: mod_Suc nth_append)
  qed
  show ?case
    using a g IH q unfolding at nth by (simp add: map_upt_Suc del: upt_Suc)
qed simp

theorem round_robin_witness:
  "hand_out 3 (sy_pool (the (run_moves replace_schedule one_worker))) = [Some 1, Some 1, Some 1]"
proof -
  let ?p = "sy_pool (the (run_moves replace_schedule one_worker))"
  have q: "\<not> wp_is_shutting_down ?p" "wp_ready_queue ?p = [0, 0]" "worker_at ?p 0 = Some 1" "is_ready (wp_heap ?p ! 1)"
    by code_simp+
  then show ?thesis using round_robin [OF q(1,2), of 3] by (simp add: upt_conv_Cons)
qed

text \<open>
  The delay before a worker may be replaced again doubles with every attempt up to the configured
  maximum, as long as the product fits the 64 bits it is computed in.
\<close>

theorem backoff_doubles:
  assumes "0 < attempt" and "uint base * 2 ^ (attempt - 1) < 2 ^ 64"
  shows "uint (computed_backoff base maxb attempt) = min (uint base * 2 ^ (attempt - 1)) (uint maxb)"
proof -
  let ?n = "uint base * 2 ^ (attempt - 1)"
  have "base * push_bit (attempt - 1) 1 = word_of_int ?n" by (simp add: push_bit_eq_mult)
  then have "uint (base * push_bit (attempt - 1) 1) = ?n mod 2 ^ 64" by (simp only: uint_word_of_int) simp
  also have "\<dots> = ?n" using assms(2) by (intro mod_pos_pos_trivial) simp_all
  finally show ?thesis by (simp add: computed_backoff_def Let_def word_less_def min_def)
qed

theorem backoff_doubles_witness: "uint (computed_backoff 200 5000 3) = 800 \<and> uint (computed_backoff 200 5000 6) = 5000"
  using backoff_doubles [of 3 200 5000] backoff_doubles [of 6 200 5000] by simp

text \<open>
  The check for a worker that has exited unexpectedly never fires: every worker in the state
  exited counts as asked to stop.
\<close>

theorem unexpected_exit_never_reported:
  assumes "monitor_worker_at p i = Some (reason, detach)"
  shows "reason = ''fault'' \<or> reason = ''heartbeat timeout''"
  using assms by (auto simp: monitor_worker_at_def is_stop_requested_def Let_def split: if_splits option.splits)

theorem unexpected_exit_never_reported_witness:
  "\<exists>reason. monitor_worker_at (sy_pool (the (run_moves crash_schedule one_worker))) 0 = Some (reason, False) \<and>
     (reason = ''fault'' \<or> reason = ''heartbeat timeout'')"
proof -
  have "monitor_worker_at (sy_pool (the (run_moves crash_schedule one_worker))) 0 = Some (''fault'', False)" by code_simp
  then show ?thesis using unexpected_exit_never_reported by blast
qed

text \<open>
  The request a failed worker was processing is always handed out again, however often it has
  failed: it is recovered as a new request, so the limit on retries only ever discards the requests
  that waited behind it.
\<close>

theorem failing_request_always_retried:
  assumes "current_req \<noteq> []"
  shows "\<exists>r r'. recovered_requests pending current_req False = pending @ [r] \<and> rm_data r = current_req \<and>
    retry_request r = Some r' \<and> rm_retry_count r' = 1"
  using assms by (simp add: recovered_requests_def mk_request_metadata_def retry_request_def kMaxRequestRetries_def)

theorem failing_request_always_retried_witness:
  "\<exists>r r'. recovered_requests [] (wk_current (wp_heap (sy_pool (the (run_moves crash_schedule one_worker))) ! 0)) False = [r] \<and>
     retry_request r = Some r'"
proof -
  have "wk_current (wp_heap (sy_pool (the (run_moves crash_schedule one_worker))) ! 0) = ''A''" by code_simp
  then show ?thesis using failing_request_always_retried [of "''A''" "[]"] by auto
qed

end
