(* ===== verification/Zjsonm.thy ===== *)
theory Zjsonm
  imports Json_Output
begin

text \<open>
  The JSON services of \<open>native/c/zjsonm.c\<close> and \<open>zjsonm31.h\<close>: each entry point copies the instance
  and its operands to 31-bit storage, calls a z/OS web enablement (HWTJ) service and copies the
  results back. The HWTJ services are parameters, the fields of a record; a parse handle and what the
  services keep behind it is one value of type \<open>'p\<close>, a key handle one of type \<open>'h\<close>.

  What the wrappers own is 31-bit storage, which is explicit here: a block is an address with its
  length, obtained by \<open>storage_obtain31\<close> and given back by \<open>storage_release\<close>.
\<close>

section \<open>Storage\<close>

record storage =
  st_next :: nat
  st_blocks :: "(nat \<times> nat) list"

definition storage_obtain31 :: "nat \<Rightarrow> storage \<Rightarrow> nat \<times> storage" where
  "storage_obtain31 len st =
     (st_next st, st\<lparr>st_next := st_next st + 1, st_blocks := (st_next st, len) # st_blocks st\<rparr>)"

definition storage_release :: "nat \<Rightarrow> nat \<Rightarrow> storage \<Rightarrow> storage" where
  "storage_release len addr st = st\<lparr>st_blocks := remove1 (addr, len) (st_blocks st)\<rparr>"

section \<open>The services\<close>

record ('p, 'h) hwtj =
  hwtj_init :: "int \<times> 'p"
  hwtj_pars :: "'p \<Rightarrow> string \<Rightarrow> int \<times> 'p"
  hwtj_gjst :: "'p \<Rightarrow> 'h \<Rightarrow> int \<times> int"
  hwtj_gval :: "'p \<Rightarrow> 'h \<Rightarrow> int \<times> string"
  hwtj_gnue :: "'p \<Rightarrow> 'h \<Rightarrow> int \<times> int"
  hwtj_gbov :: "'p \<Rightarrow> 'h \<Rightarrow> int \<times> int"
  hwtj_gaen :: "'p \<Rightarrow> 'h \<Rightarrow> int \<Rightarrow> int \<times> 'h"
  hwtj_goen :: "'p \<Rightarrow> 'h \<Rightarrow> int \<Rightarrow> nat \<Rightarrow> int \<times> string \<times> 'h \<times> nat"
  hwtj_cren :: "'p \<Rightarrow> 'h \<Rightarrow> string option \<Rightarrow> string option \<Rightarrow> int \<Rightarrow> int \<times> 'h \<times> 'p"
  hwtj_seri :: "'p \<Rightarrow> nat \<Rightarrow> int \<times> string \<times> nat"
  hwtj_srch :: "'p \<Rightarrow> int \<Rightarrow> string \<Rightarrow> 'h \<Rightarrow> 'h \<Rightarrow> int \<times> 'h"
  hwtj_del :: "'p \<Rightarrow> 'h \<Rightarrow> 'h \<Rightarrow> int \<times> 'p"
  hwtj_genc :: "'p \<Rightarrow> int \<times> int"
  hwtj_term :: "'p \<Rightarrow> int \<times> 'p"
  hwtj_root :: 'h

text \<open>The constants of \<open>zjsontype.h\<close>.\<close>

definition HWTJ_SEARCHTYPE_SHALLOW :: int where "HWTJ_SEARCHTYPE_SHALLOW = 3"
definition HWTJ_OBJECT_TYPE :: int where "HWTJ_OBJECT_TYPE = 1"
definition HWTJ_ARRAY_TYPE :: int where "HWTJ_ARRAY_TYPE = 2"
definition HWTJ_STRING_TYPE :: int where "HWTJ_STRING_TYPE = 3"
definition HWTJ_NUMBER_TYPE :: int where "HWTJ_NUMBER_TYPE = 4"
definition HWTJ_BOOLEAN_TYPE :: int where "HWTJ_BOOLEAN_TYPE = 5"
definition HWTJ_NULL_TYPE :: int where "HWTJ_NULL_TYPE = 6"
definition HWTJ_TRUE :: int where "HWTJ_TRUE = 1"
definition HWTJ_STRINGVALUETYPE :: int where "HWTJ_STRINGVALUETYPE = 3"
definition HWTJ_NUMVALUETYPE :: int where "HWTJ_NUMVALUETYPE = 4"
definition HWTJ_TRUEVALUETYPE :: int where "HWTJ_TRUEVALUETYPE = 5"
definition HWTJ_FALSEVALUETYPE :: int where "HWTJ_FALSEVALUETYPE = 6"
definition HWTJ_NULLVALUETYPE :: int where "HWTJ_NULLVALUETYPE = 7"
definition HWTJ_JSONTEXTVALUETYPE :: int where "HWTJ_JSONTEXTVALUETYPE = 8"
definition HWTJ_BUFFER_TOO_SMALL :: int where "HWTJ_BUFFER_TOO_SMALL = 0x106"

lemmas hwtj_types =
  HWTJ_OBJECT_TYPE_def HWTJ_ARRAY_TYPE_def HWTJ_STRING_TYPE_def HWTJ_NUMBER_TYPE_def HWTJ_BOOLEAN_TYPE_def
  HWTJ_NULL_TYPE_def

text \<open>
  \<open>JSON_INSTANCE\<close>: the handle with its diagnostic area, and the block that holds the parsed text. A
  null pointer is \<^const>\<open>None\<close>.
\<close>

record 'p json_instance =
  ji_handle :: "'p option"
  ji_json :: "nat option"
  ji_json_length :: nat

definition json_instance0 :: "'p json_instance" where
  "json_instance0 = \<lparr>ji_handle = None, ji_json = None, ji_json_length = 0\<rparr>"

definition the_handle :: "'p json_instance \<Rightarrow> 'p" where
  "the_handle i = the (ji_handle i)"

section \<open>The entry points\<close>

definition ZJSMINIT :: "('p, 'h) hwtj \<Rightarrow> 'p json_instance \<Rightarrow> int \<times> 'p json_instance" where
  "ZJSMINIT sv i =
     (let i31 = i;
          (rc, p) = hwtj_init sv
      in (rc, i31\<lparr>ji_handle := Some p\<rparr>))"

text \<open>
  The text is copied to a new block whose address and length are stored in the caller's instance; at
  the end the caller's instance is overwritten with the copy that was taken before.
\<close>

definition ZJSMPARS ::
    "('p, 'h) hwtj \<Rightarrow> string \<Rightarrow> 'p json_instance \<Rightarrow> storage \<Rightarrow> int \<times> 'p json_instance \<times> storage" where
  "ZJSMPARS sv json i st =
     (let i31 = i;
          len = length (c_str json) + 1;
          (addr, st1) = storage_obtain31 len st;
          i' = i\<lparr>ji_json := Some addr, ji_json_length := len\<rparr>;
          (rc, p) = hwtj_pars sv (the_handle i31) (c_str json);
          i31' = i31\<lparr>ji_handle := Some p\<rparr>;
          i'' = i31'
      in (rc, i'', st1))"

definition ZJSMTERM ::
    "('p, 'h) hwtj \<Rightarrow> 'p json_instance \<Rightarrow> storage \<Rightarrow> int \<times> 'p json_instance \<times> storage" where
  "ZJSMTERM sv i st =
     (let (rc, p) = hwtj_term sv (the_handle i);
          i' = i\<lparr>ji_handle := Some p\<rparr>
      in case ji_json i' of
           Some addr \<Rightarrow> (rc, i'\<lparr>ji_json := None, ji_json_length := 0\<rparr>, storage_release (ji_json_length i') addr st)
         | None \<Rightarrow> (rc, i', st))"

text \<open>The queries: the instance comes back as it was.\<close>

definition ZJSNGJST :: "('p, 'h) hwtj \<Rightarrow> 'p json_instance \<Rightarrow> 'h \<Rightarrow> int \<times> int" where
  "ZJSNGJST sv i key = hwtj_gjst sv (the_handle i) key"

definition ZJSMGVAL :: "('p, 'h) hwtj \<Rightarrow> 'p json_instance \<Rightarrow> 'h \<Rightarrow> int \<times> string" where
  "ZJSMGVAL sv i key = hwtj_gval sv (the_handle i) key"

definition ZJSMGNUE :: "('p, 'h) hwtj \<Rightarrow> 'p json_instance \<Rightarrow> 'h \<Rightarrow> int \<times> int" where
  "ZJSMGNUE sv i key = hwtj_gnue sv (the_handle i) key"

definition ZJSMGBOV :: "('p, 'h) hwtj \<Rightarrow> 'p json_instance \<Rightarrow> 'h \<Rightarrow> int \<times> int" where
  "ZJSMGBOV sv i key = hwtj_gbov sv (the_handle i) key"

definition ZJSMGAEN :: "('p, 'h) hwtj \<Rightarrow> 'p json_instance \<Rightarrow> 'h \<Rightarrow> int \<Rightarrow> int \<times> 'h" where
  "ZJSMGAEN sv i key index = hwtj_gaen sv (the_handle i) key index"

definition ZJSMGENC :: "('p, 'h) hwtj \<Rightarrow> 'p json_instance \<Rightarrow> int \<times> int" where
  "ZJSMGENC sv i = hwtj_genc sv (the_handle i)"

text \<open>\<open>ZJSMSENC\<close> returns at once.\<close>

definition ZJSMSENC :: "'p json_instance \<Rightarrow> int \<Rightarrow> int \<times> 'p json_instance" where
  "ZJSMSENC i encoding = (0, i)"

definition ZJSMDEL :: "('p, 'h) hwtj \<Rightarrow> 'h \<Rightarrow> 'h \<Rightarrow> 'p json_instance \<Rightarrow> int \<times> 'p json_instance" where
  "ZJSMDEL sv key val i = (case hwtj_del sv (the_handle i) key val of (rc, p) \<Rightarrow> (rc, i\<lparr>ji_handle := Some p\<rparr>))"

text \<open>The calls that go through a block of their own.\<close>

definition ZJSMGOEN ::
    "('p, 'h) hwtj \<Rightarrow> 'p json_instance \<Rightarrow> 'h \<Rightarrow> int \<Rightarrow> nat \<Rightarrow> storage \<Rightarrow> (int \<times> string \<times> 'h \<times> nat) \<times> storage" where
  "ZJSMGOEN sv i key index key_buffer_length st =
     (let (buf, st1) = (if key_buffer_length > 0
            then (case storage_obtain31 key_buffer_length st of (a, s) \<Rightarrow> (Some a, s)) else (None, st));
          out = hwtj_goen sv (the_handle i) key index key_buffer_length;
          st2 = (case buf of Some a \<Rightarrow> storage_release key_buffer_length a st1 | None \<Rightarrow> st1)
      in (out, st2))"

definition ZJSMSRCH ::
    "('p, 'h) hwtj \<Rightarrow> 'p json_instance \<Rightarrow> int \<Rightarrow> string \<Rightarrow> 'h \<Rightarrow> 'h \<Rightarrow> storage \<Rightarrow> (int \<times> 'h) \<times> storage" where
  "ZJSMSRCH sv i type key object_handle starting_handle st =
     (let len = length (c_str key) + 1;
          (a, st1) = storage_obtain31 len st;
          out = hwtj_srch sv (the_handle i) type (c_str key) object_handle starting_handle
      in (out, storage_release len a st1))"

definition ZJSMSSRC ::
    "('p, 'h) hwtj \<Rightarrow> 'p json_instance \<Rightarrow> string \<Rightarrow> storage \<Rightarrow> (int \<times> 'h) \<times> storage" where
  "ZJSMSSRC sv i key st =
     (let len = length (c_str key) + 1;
          (a, st1) = storage_obtain31 len st;
          out = hwtj_srch sv (the_handle i) HWTJ_SEARCHTYPE_SHALLOW (c_str key) (hwtj_root sv) (hwtj_root sv)
      in (out, storage_release len a st1))"

definition ZJSMSERI ::
    "('p, 'h) hwtj \<Rightarrow> 'p json_instance \<Rightarrow> nat \<Rightarrow> storage \<Rightarrow> (int \<times> string \<times> nat) \<times> storage" where
  "ZJSMSERI sv i buffer_length st =
     (let (a, st1) = storage_obtain31 buffer_length st;
          out = hwtj_seri sv (the_handle i) buffer_length
      in (out, storage_release buffer_length a st1))"

definition PTR_SIZE :: nat where "PTR_SIZE = 4"

definition ZJSMCREN ::
    "('p, 'h) hwtj \<Rightarrow> 'h \<Rightarrow> string option \<Rightarrow> string option \<Rightarrow> int \<Rightarrow> 'p json_instance \<Rightarrow> storage \<Rightarrow>
     int \<times> 'h \<times> 'p json_instance \<times> storage" where
  "ZJSMCREN sv parent entry_name entry_value entry_type i st =
     (let name_len = (case entry_name of Some s \<Rightarrow> length (c_str s) + 1 | None \<Rightarrow> 0);
          (name_block, st1) = storage_obtain31 (name_len + PTR_SIZE) st;
          value_len = (case entry_value of Some s \<Rightarrow> length (c_str s) + 1 | None \<Rightarrow> 0);
          (value_block, st2) = storage_obtain31 (value_len + PTR_SIZE) st1;
          (rc, h, p) = hwtj_cren sv (the_handle i) parent (map_option c_str entry_name) (map_option c_str entry_value) entry_type;
          st3 = storage_release (name_len + PTR_SIZE) name_block st2;
          st4 = storage_release (value_len + PTR_SIZE) value_block st3
      in (rc, h, i\<lparr>ji_handle := Some p\<rparr>, st4))"

section \<open>Storage balance\<close>

text \<open>
  Two storages are alike when the same blocks are allocated; every call but \<^const>\<open>ZJSMPARS\<close> gives
  back what it obtains.
\<close>

lemma ZJSMGOEN_blocks [simp]: "st_blocks (snd (ZJSMGOEN sv i key index n st)) = st_blocks st"
  by (auto simp: ZJSMGOEN_def Let_def storage_obtain31_def storage_release_def split: prod.splits)

lemma ZJSMSRCH_blocks [simp]: "st_blocks (snd (ZJSMSRCH sv i type key h h' st)) = st_blocks st"
  by (auto simp: ZJSMSRCH_def Let_def storage_obtain31_def storage_release_def split: prod.splits)

lemma ZJSMSSRC_blocks [simp]: "st_blocks (snd (ZJSMSSRC sv i key st)) = st_blocks st"
  by (auto simp: ZJSMSSRC_def Let_def storage_obtain31_def storage_release_def split: prod.splits)

lemma ZJSMSERI_blocks [simp]: "st_blocks (snd (ZJSMSERI sv i n st)) = st_blocks st"
  by (auto simp: ZJSMSERI_def Let_def storage_obtain31_def storage_release_def split: prod.splits)

lemma ZJSMCREN_blocks [simp]: "ZJSMCREN sv parent nm val ty i st = (rc, h, i', st') \<Longrightarrow>
    st_blocks st' = st_blocks st \<and> ji_json i' = ji_json i"
  by (auto simp: ZJSMCREN_def Let_def storage_obtain31_def storage_release_def split: prod.splits)

lemma ZJSMTERM_blocks: "ji_json i = None \<Longrightarrow> ZJSMTERM sv i st = (rc, i', st') \<Longrightarrow> st' = st"
  by (auto simp: ZJSMTERM_def Let_def split: prod.splits)

lemma ZJSMPARS_result:
  assumes "ZJSMPARS sv json i st = (rc, i', st')"
  shows "st_blocks st' = (st_next st, length (c_str json) + 1) # st_blocks st" and "ji_json i' = ji_json i"
    and "hwtj_pars sv (the_handle i) (c_str json) = (rc, the_handle i')"
  using assms by (auto simp: ZJSMPARS_def Let_def storage_obtain31_def the_handle_def split: prod.splits)

end
