(* ===== verification/Zjson.thy ===== *)
theory Zjson
  imports Zjsonm
begin

text \<open>
  Reading and writing JSON text, \<open>native/c/zjson.hpp\<close>: escaping of strings, conversion between the
  HWTJ parse tree and \<^typ>\<open>'d json\<close>, indentation. The text itself is read and written by the services
  of \<open>Zjsonm\<close>.

  A \<open>double\<close> is a value of a type parameter \<open>'d\<close>. What the code asks of it are the fields of a record:
  the class of its value, its decimal representations and the conversions the language provides.
\<close>

section \<open>Errors and doubles\<close>

definition invalid_value :: "string \<Rightarrow> json_error" where
  "invalid_value msg = \<lparr>je_kind = InvalidValue, je_message = ''Invalid value: '' @ msg\<rparr>"

definition missing_field :: "string \<Rightarrow> json_error" where
  "missing_field fld = \<lparr>je_kind = MissingField, je_message = ''Missing field: '' @ fld\<rparr>"

definition unknown_field :: "string \<Rightarrow> json_error" where
  "unknown_field fld = \<lparr>je_kind = UnknownField, je_message = ''Unknown field: '' @ fld\<rparr>"

definition invalid_data :: "string \<Rightarrow> json_error" where
  "invalid_data msg = \<lparr>je_kind = InvalidData, je_message = ''Invalid data: '' @ msg\<rparr>"

definition custom_error :: "string \<Rightarrow> json_error" where
  "custom_error msg = \<lparr>je_kind = Custom, je_message = msg\<rparr>"

text \<open>The value of a \<open>double\<close>: not a number, infinite, an integer, or with a fraction; with its sign.\<close>

datatype double_class = Nan | Infinite bool | Integral int | Fractional bool

record 'd dbl_ops =
  dbl_class :: "'d \<Rightarrow> double_class"
  dbl_show :: "'d \<Rightarrow> string"
  dbl_show17 :: "'d \<Rightarrow> string"
  dbl_of_int :: "int \<Rightarrow> 'd"
  dbl_to_int64 :: "'d \<Rightarrow> int"
  dbl_to_uint64 :: "'d \<Rightarrow> int"

fun dbl_negative :: "double_class \<Rightarrow> bool" where
  "dbl_negative Nan = False"
| "dbl_negative (Infinite neg) = neg"
| "dbl_negative (Integral n) = (n < 0)"
| "dbl_negative (Fractional neg) = neg"

text \<open>\<open>value != std::floor(value)\<close>\<close>

fun dbl_not_floor :: "double_class \<Rightarrow> bool" where
  "dbl_not_floor Nan = True"
| "dbl_not_floor (Infinite neg) = False"
| "dbl_not_floor (Integral n) = False"
| "dbl_not_floor (Fractional neg) = True"

definition not_finite :: "'d dbl_ops \<Rightarrow> 'd \<Rightarrow> json_error" where
  "not_finite dbl d = invalid_value (''Number is not finite: '' @ dbl_show dbl d)"

text \<open>
  The bounds are compared after conversion to \<open>double\<close>, where the largest \<open>long long\<close> is rounded up to
  \<open>2 ^ 63\<close> and the largest \<open>unsigned long long\<close> to \<open>2 ^ 64\<close>.
\<close>

fun json_as_int64 :: "'d dbl_ops \<Rightarrow> 'd json \<Rightarrow> json_error + int" where
  "json_as_int64 dbl (JInteger i) = Inr i"
| "json_as_int64 dbl (JDouble d) =
     (if dbl_not_floor (dbl_class dbl d)
      then Inl (invalid_value (''Cannot convert floating-point number '' @ dbl_show dbl d @ '' to int64''))
      else case dbl_class dbl d of
        Integral n \<Rightarrow>
          if n > 2 ^ 63 \<or> n < - (2 ^ 63)
          then Inl (invalid_value (''Number '' @ dbl_show dbl d @ '' overflows long long range''))
          else Inr (dbl_to_int64 dbl d)
      | _ \<Rightarrow> Inl (not_finite dbl d))"
| "json_as_int64 dbl v = Inl (invalid_type ''number'' (type_name v))"

fun json_as_uint64 :: "'d dbl_ops \<Rightarrow> 'd json \<Rightarrow> json_error + int" where
  "json_as_uint64 dbl (JInteger i) =
     (if i < 0 then Inl (invalid_value (''Cannot convert negative number '' @ show_int i @ '' to uint64'')) else Inr i)"
| "json_as_uint64 dbl (JDouble d) =
     (if dbl_negative (dbl_class dbl d)
      then Inl (invalid_value (''Cannot convert negative number '' @ dbl_show dbl d @ '' to uint64''))
      else if dbl_not_floor (dbl_class dbl d)
      then Inl (invalid_value (''Cannot convert floating-point number '' @ dbl_show dbl d @ '' to uint64''))
      else case dbl_class dbl d of
        Integral n \<Rightarrow>
          if n > 2 ^ 64
          then Inl (invalid_value (''Number '' @ dbl_show dbl d @ '' overflows unsigned long long range''))
          else Inr (dbl_to_uint64 dbl d)
      | _ \<Rightarrow> Inl (not_finite dbl d))"
| "json_as_uint64 dbl v = Inl (invalid_type ''number'' (type_name v))"

fun json_as_double :: "'d dbl_ops \<Rightarrow> 'd json \<Rightarrow> json_error + 'd" where
  "json_as_double dbl (JDouble d) =
     (case dbl_class dbl d of
        Nan \<Rightarrow> Inl (not_finite dbl d)
      | Infinite _ \<Rightarrow> Inl (not_finite dbl d)
      | _ \<Rightarrow> Inr d)"
| "json_as_double dbl (JInteger i) = Inr (dbl_of_int dbl i)"
| "json_as_double dbl v = Inl (invalid_type ''number'' (type_name v))"

text \<open>The constructor from \<open>unsigned long long\<close>.\<close>

definition json_of_uint64 :: "'d dbl_ops \<Rightarrow> int \<Rightarrow> 'd json" where
  "json_of_uint64 dbl n = (if n \<le> LLONG_MAX then JInteger n else JDouble (dbl_of_int dbl n))"

section \<open>Strings\<close>

definition named_escapes :: "(char \<times> char) list" where
  "named_escapes = [(DQUOTE, DQUOTE), (BACKSLASH, BACKSLASH), (CHR 0x08, CHR ''b''), (CHR 0x0C, CHR ''f''),
     (NL, CHR ''n''), (CR, CHR ''r''), (TAB, CHR ''t'')]"

definition escape_char :: "char \<Rightarrow> string" where
  "escape_char c =
     (case map_of named_escapes c of
        Some e \<Rightarrow> [BACKSLASH, e]
      | None \<Rightarrow> if iscntrl c then BACKSLASH # ''ufffd'' else [c])"

definition escape_json_string :: "string \<Rightarrow> string" where
  "escape_json_string input = concat (map escape_char input)"

definition named_unescape :: "char \<Rightarrow> char option" where
  "named_unescape e =
     (if e = DQUOTE then Some DQUOTE
      else if e = BACKSLASH then Some BACKSLASH
      else if e = CHR ''/'' then Some CHR ''/''
      else if e = CHR ''b'' then Some CHR 0x08
      else if e = CHR ''f'' then Some CHR 0x0C
      else if e = CHR ''n'' then Some NL
      else if e = CHR ''r'' then Some CR
      else if e = CHR ''t'' then Some TAB
      else None)"

text \<open>
  \<open>strtoul\<close> with base 16 on at most four characters: blanks, a sign, a prefix \<open>0x\<close> before a digit, and
  digits; the value and the number of characters consumed. So few digits never overflow.
\<close>

definition skip_blanks_sign :: "string \<Rightarrow> nat \<times> bool \<times> string" where
  "skip_blanks_sign s =
     (let n = length (takeWhile isspace s) in
      case drop n s of
        [] \<Rightarrow> (n, False, [])
      | c # t \<Rightarrow> if c = CHR ''-'' then (n + 1, True, t) else if c = CHR ''+'' then (n + 1, False, t) else (n, False, c # t))"

definition skip_hex_prefix :: "string \<Rightarrow> nat \<times> string" where
  "skip_hex_prefix s =
     (case s of
        z # x # d # t \<Rightarrow>
          if z = CHR ''0'' \<and> (x = CHR ''x'' \<or> x = CHR ''X'') \<and> digit_of_base 16 d then (2, d # t) else (0, s)
      | _ \<Rightarrow> (0, s))"

definition strtoul_hex :: "string \<Rightarrow> nat \<times> nat" where
  "strtoul_hex s =
     (case skip_blanks_sign s of (n, neg, t) \<Rightarrow>
      case skip_hex_prefix t of (p, u) \<Rightarrow>
        let ds = takeWhile (digit_of_base 16) u; v = digits_value 16 ds in
        if ds = [] then (0, 0)
        else (if neg \<and> v \<noteq> 0 then 2 ^ 64 - v else v, n + p + length ds))"

definition unicode_escape :: "string \<Rightarrow> json_error + char" where
  "unicode_escape hex =
     (case strtoul_hex (c_str hex) of (val, n) \<Rightarrow>
        let valid_hex = (n = 4); c = unebcdic (of_nat val) in
        if valid_hex \<and> val < 256 \<and> iscntrl c
        then Inl (invalid_value (''JSON string contains a disallowed control character escape: '' @ [BACKSLASH] @ ''u'' @ hex))
        else if valid_hex \<and> val < 256 then Inr c
        else Inl (invalid_value (''JSON string contains an unsupported '' @ [BACKSLASH] @ ''u escape: '' @ [BACKSLASH] @ ''u'' @ hex)))"

definition prepend :: "string \<Rightarrow> 'e + string \<Rightarrow> 'e + string" where
  "prepend s r = bind_result r (\<lambda>t. Inr (s @ t))"

lemma prepend_simps [simp]: "prepend s (Inr t) = Inr (s @ t)" "prepend s (Inl e) = Inl e"
  by (simp_all add: prepend_def)

function unescape_json_string :: "string \<Rightarrow> json_error + string" where
  "unescape_json_string [] = Inr []"
| "unescape_json_string [c] = Inr [c]"
| "unescape_json_string (c # e # t) =
     (if c \<noteq> BACKSLASH then prepend [c] (unescape_json_string (e # t))
      else case named_unescape e of
        Some x \<Rightarrow> prepend [x] (unescape_json_string t)
      | None \<Rightarrow>
          if e = CHR ''u'' then
            (if length t \<ge> 4
             then bind_result (unicode_escape (take 4 t)) (\<lambda>x. prepend [x] (unescape_json_string (drop 4 t)))
             else prepend (BACKSLASH # ''u'') (unescape_json_string t))
          else prepend [BACKSLASH, e] (unescape_json_string t))"
  by pat_completeness auto
termination by (relation "measure length") auto

section \<open>From the parse tree\<close>

definition MAX_JSON_DEPTH :: nat where "MAX_JSON_DEPTH = 64"

text \<open>\<open>strtoll\<close> with base 10: the value, saturated, and the number of characters consumed.\<close>

definition strtoll_dec :: "string \<Rightarrow> int \<times> nat" where
  "strtoll_dec s =
     (case skip_blanks_sign s of (n, neg, t) \<Rightarrow>
        let ds = takeWhile (digit_of_base 10) t; v = int (digits_value 10 ds) in
        if ds = [] then (0, 0)
        else (if neg then max (- LLONG_MAX - 1) (- v) else min LLONG_MAX v, n + length ds))"

definition read_number :: "'d fp_ops \<Rightarrow> string \<Rightarrow> json_error + 'd json" where
  "read_number fp s =
     (let malformed = Inl (invalid_value (''Malformed JSON number: '' @ s)) in
      if CHR ''.'' \<in> set s \<or> CHR ''e'' \<in> set s \<or> CHR ''E'' \<in> set s then
        (case fp_strtod fp (c_str s) of (_, d, n) \<Rightarrow>
           if n = 0 \<or> n < length (c_str s) then malformed else Inr (JDouble d))
      else
        (case strtoll_dec (c_str s) of (v, n) \<Rightarrow>
           if n = 0 \<or> n < length (c_str s) then malformed else Inr (JInteger v)))"

fun traverse :: "('a \<Rightarrow> 'e + 'b) \<Rightarrow> 'a list \<Rightarrow> 'e + 'b list" where
  "traverse f [] = Inr []"
| "traverse f (x # xs) = bind_result (f x) (\<lambda>y. bind_result (traverse f xs) (\<lambda>ys. Inr (y # ys)))"

lemma traverse_cong [fundef_cong]:
  "xs = ys \<Longrightarrow> (\<And>x. x \<in> set ys \<Longrightarrow> f x = g x) \<Longrightarrow> traverse f xs = traverse g ys"
  by (induction xs arbitrary: ys) auto

text \<open>The name and the value handle of an object entry, with a larger buffer for a long name.\<close>

definition object_entry ::
    "('p, 'h) hwtj \<Rightarrow> 'p json_instance \<Rightarrow> storage \<Rightarrow> 'h \<Rightarrow> int \<Rightarrow> json_error + string \<times> 'h" where
  "object_entry sv i st key k =
     (let (rc, buf, h, actual_length) = fst (ZJSMGOEN sv i key k 256 st);
          (rc', buf', h', actual_length') =
            (if rc = HWTJ_BUFFER_TOO_SMALL then fst (ZJSMGOEN sv i key k actual_length st)
             else (rc, buf, h, actual_length))
      in if rc' \<noteq> 0 then Inl (custom_error (''Failed to read JSON object field at index '' @ show_int k))
         else Inr (take actual_length' buf', h'))"

text \<open>
  The conversion is total: the depth limit bounds the recursion whatever the services return. The block
  that \<^const>\<open>ZJSMGOEN\<close> obtains is given back within the call, so the storage is not threaded through.
\<close>

function json_handle_to_value ::
    "'d fp_ops \<Rightarrow> ('p, 'h) hwtj \<Rightarrow> 'p json_instance \<Rightarrow> storage \<Rightarrow> 'h \<Rightarrow> nat \<Rightarrow> json_error + 'd json" where
  "json_handle_to_value fp sv i st key depth =
     (if depth \<ge> MAX_JSON_DEPTH
      then Inl (custom_error (''JSON exceeds maximum nesting depth of '' @ show_nat MAX_JSON_DEPTH))
      else case ZJSNGJST sv i key of (rc, type) \<Rightarrow>
        if rc \<noteq> 0 then Inl (custom_error ''Failed to determine JSON value type'')
        else if type = HWTJ_NULL_TYPE then Inr JNull
        else if type = HWTJ_BOOLEAN_TYPE then
          (case ZJSMGBOV sv i key of (rc, b) \<Rightarrow>
             if rc \<noteq> 0 then Inl (custom_error ''Failed to read JSON boolean value'') else Inr (JBool (b = HWTJ_TRUE)))
        else if type = HWTJ_NUMBER_TYPE then
          (case ZJSMGVAL sv i key of (rc, s) \<Rightarrow>
             if rc \<noteq> 0 then Inl (custom_error ''Failed to read JSON number value'') else read_number fp s)
        else if type = HWTJ_STRING_TYPE then
          (case ZJSMGVAL sv i key of (rc, s) \<Rightarrow>
             if rc \<noteq> 0 then Inl (custom_error ''Failed to read JSON string value'')
             else bind_result (unescape_json_string s) (\<lambda>t. Inr (JString t)))
        else if type = HWTJ_ARRAY_TYPE then
          (case ZJSMGNUE sv i key of (rc, n) \<Rightarrow>
             if rc \<noteq> 0 then Inl (custom_error ''Failed to determine JSON array size'')
             else bind_result
               (traverse (\<lambda>k. case ZJSMGAEN sv i key k of (rc, h) \<Rightarrow>
                  if rc \<noteq> 0 then Inl (custom_error (''Failed to read JSON array element at index '' @ show_int k))
                  else json_handle_to_value fp sv i st h (depth + 1)) (map int [0..<nat n]))
               (\<lambda>vs. Inr (JArray vs)))
        else if type = HWTJ_OBJECT_TYPE then
          (case ZJSMGNUE sv i key of (rc, n) \<Rightarrow>
             if rc \<noteq> 0 then Inl (custom_error ''Failed to determine JSON object size'')
             else bind_result
               (traverse (\<lambda>k. bind_result (object_entry sv i st key k) (\<lambda>(name, h).
                  bind_result (json_handle_to_value fp sv i st h (depth + 1)) (\<lambda>v. Inr (name, v)))) (map int [0..<nat n]))
               (\<lambda>kvs. Inr (JObject (map_set_all kvs []))))
        else Inl (custom_error ''Unknown JSON value type encountered during parsing''))"
  by pat_completeness auto
termination by (relation "measure (\<lambda>(_, _, _, _, _, depth). MAX_JSON_DEPTH - depth)") auto

declare json_handle_to_value.simps [simp del]

text \<open>\<open>from_str<Value>\<close>, with the storage it leaves.\<close>

definition from_str ::
    "'d fp_ops \<Rightarrow> ('p, 'h) hwtj \<Rightarrow> string \<Rightarrow> storage \<Rightarrow> (json_error + 'd json) \<times> storage" where
  "from_str fp sv json st =
     (case ZJSMINIT sv json_instance0 of (rc, i) \<Rightarrow>
        if rc \<noteq> 0 then (Inl (custom_error ''Failed to initialize JSON parser''), st)
        else case ZJSMPARS sv json i st of (rc, i1, st1) \<Rightarrow>
          let st2 = snd (snd (ZJSMTERM sv i1 st1)) in
          if rc \<noteq> 0 then (Inl (custom_error ''Failed to parse JSON string''), st2)
          else (json_handle_to_value fp sv i1 st1 (hwtj_root sv) 0, st2))"

text \<open>
  \<open>parse_json_string\<close>, which throws instead. The second component says whether the instance was
  terminated: an error of the conversion is thrown on without a call of \<^const>\<open>ZJSMTERM\<close>.
\<close>

definition hex_rc :: "int \<Rightarrow> string" where
  "hex_rc rc = ''RC: x'' @ [SQUOTE] @ show_hex (nat (rc mod 2 ^ 32)) @ [SQUOTE]"

definition parse_json_string ::
    "'d fp_ops \<Rightarrow> ('p, 'h) hwtj \<Rightarrow> string \<Rightarrow> storage \<Rightarrow> (json_error + 'd json) \<times> bool \<times> storage" where
  "parse_json_string fp sv json st =
     (case ZJSMINIT sv json_instance0 of (rc, i) \<Rightarrow>
        if rc \<noteq> 0 then (Inl (custom_error (''Failed to initialize JSON parser for parsing. '' @ hex_rc rc)), True, st)
        else case ZJSMPARS sv json i st of (rc, i1, st1) \<Rightarrow>
          let st2 = snd (snd (ZJSMTERM sv i1 st1)) in
          if rc \<noteq> 0 then (Inl (custom_error (''Failed to parse JSON string. '' @ hex_rc rc)), True, st2)
          else (case json_handle_to_value fp sv i1 st1 (hwtj_root sv) 0 of
            Inl e \<Rightarrow> (Inl e, False, st1)
          | Inr v \<Rightarrow> (Inr v, True, st2)))"

section \<open>To the parse tree\<close>

text \<open>
  The state while a document is built, the return code of the last call or the error thrown, and the
  loops that stop at a return code that is not zero.
\<close>

type_synonym 'p build = "'p json_instance \<times> storage"

fun each :: "('x \<Rightarrow> 's \<Rightarrow> (json_error + int) \<times> 's) \<Rightarrow> 'x list \<Rightarrow> 's \<Rightarrow> (json_error + int) \<times> 's" where
  "each f [] s = (Inr 0, s)"
| "each f (x # xs) s = (case f x s of (r, s') \<Rightarrow> if r = Inr 0 then each f xs s' else (r, s'))"

lemma each_cong [fundef_cong]:
  "xs = ys \<Longrightarrow> s = t \<Longrightarrow> (\<And>x s. x \<in> set ys \<Longrightarrow> f x s = g x s) \<Longrightarrow> each f xs s = each g ys t"
proof (induction xs arbitrary: ys s t)
  case (Cons x xs)
  then show ?case by (cases "f x s") auto
qed auto

definition create_entry ::
    "('p, 'h) hwtj \<Rightarrow> 'h \<Rightarrow> string \<Rightarrow> string option \<Rightarrow> int \<Rightarrow> 'p build \<Rightarrow> int \<times> 'h \<times> 'p build" where
  "create_entry sv parent entry_name val type s =
     (case ZJSMCREN sv parent (if entry_name = [] then None else Some entry_name) val type (fst s) (snd s) of
        (rc, h, i, st) \<Rightarrow> (rc, h, i, st))"

definition create_leaf ::
    "('p, 'h) hwtj \<Rightarrow> 'h \<Rightarrow> string \<Rightarrow> string option \<Rightarrow> int \<Rightarrow> 'p build \<Rightarrow> (json_error + int) \<times> 'p build" where
  "create_leaf sv parent entry_name val type s =
     (case create_entry sv parent entry_name val type s of (rc, _, s') \<Rightarrow> (Inr rc, s'))"

fun value_to_json_instance ::
    "'d dbl_ops \<Rightarrow> ('p, 'h) hwtj \<Rightarrow> 'h \<Rightarrow> string \<Rightarrow> 'd json \<Rightarrow> 'p build \<Rightarrow> (json_error + int) \<times> 'p build" where
  "value_to_json_instance dbl sv parent name JNull s = create_leaf sv parent name None HWTJ_NULLVALUETYPE s"
| "value_to_json_instance dbl sv parent name (JBool b) s =
     create_leaf sv parent name None (if b then HWTJ_TRUEVALUETYPE else HWTJ_FALSEVALUETYPE) s"
| "value_to_json_instance dbl sv parent name (JInteger i) s =
     create_leaf sv parent name (Some (show_int i)) HWTJ_NUMVALUETYPE s"
| "value_to_json_instance dbl sv parent name (JDouble d) s =
     (case json_as_double dbl (JDouble d) of
        Inl e \<Rightarrow> (Inl e, s)
      | Inr x \<Rightarrow> create_leaf sv parent name (Some (dbl_show17 dbl x)) HWTJ_NUMVALUETYPE s)"
| "value_to_json_instance dbl sv parent name (JString t) s =
     (if t \<noteq> [] then create_leaf sv parent name (Some (escape_json_string t)) HWTJ_STRINGVALUETYPE s
      else create_leaf sv parent name (Some [DQUOTE, DQUOTE]) HWTJ_JSONTEXTVALUETYPE s)"
| "value_to_json_instance dbl sv parent name (JArray a) s =
     (case create_entry sv parent name (Some ''[]'') HWTJ_JSONTEXTVALUETYPE s of (rc, h, s') \<Rightarrow>
        if rc \<noteq> 0 then (Inr rc, s')
        else each (\<lambda>element s. value_to_json_instance dbl sv h [] element s) a s')"
| "value_to_json_instance dbl sv parent name (JObject m) s =
     (case create_entry sv parent name (Some ''{}'') HWTJ_JSONTEXTVALUETYPE s of (rc, h, s') \<Rightarrow>
        if rc \<noteq> 0 then (Inr rc, s')
        else each (\<lambda>(key, val) s. value_to_json_instance dbl sv h key val s) m s')"

text \<open>
  The top level: the message names the property or the index whose call failed. The result has the
  text or the error, whether the instance was terminated, and the storage.
\<close>

fun each_at :: "('x \<Rightarrow> 's \<Rightarrow> (json_error + int) \<times> 's) \<Rightarrow> (nat \<Rightarrow> 'x \<Rightarrow> int \<Rightarrow> json_error) \<Rightarrow> nat \<Rightarrow> 'x list \<Rightarrow> 's \<Rightarrow>
    ((json_error \<times> bool) option) \<times> 's" where
  "each_at f err k [] s = (None, s)"
| "each_at f err k (x # xs) s =
     (case f x s of
        (Inl e, s') \<Rightarrow> (Some (e, False), s')
      | (Inr rc, s') \<Rightarrow> if rc \<noteq> 0 then (Some (err k x rc, True), s') else each_at f err (k + 1) xs s')"

definition serialize_text ::
    "('p, 'h) hwtj \<Rightarrow> 'p build \<Rightarrow> (json_error + string) \<times> bool \<times> storage" where
  "serialize_text sv s =
     (let (i, st) = s;
          (rc, buffer, actual_length) = fst (ZJSMSERI sv i 1 st);
          (rc', buffer', actual_length', msg) =
            (if rc = HWTJ_BUFFER_TOO_SMALL
             then (case fst (ZJSMSERI sv i actual_length st) of (r, b, n) \<Rightarrow>
               (r, b, n, ''Failed to serialize JSON with dynamic buffer. ''))
             else (rc, buffer, actual_length, ''Failed to serialize JSON. ''));
          st' = snd (snd (ZJSMTERM sv i st));
          txt = take actual_length' buffer'
      in if rc' \<noteq> 0 then (Inl (custom_error (msg @ hex_rc rc')), True, st')
         else if txt = [] then (Inl (custom_error ''Serialization resulted in empty string''), True, st')
         else (Inr txt, True, st'))"

definition build_document ::
    "'d dbl_ops \<Rightarrow> ('p, 'h) hwtj \<Rightarrow> 'd json \<Rightarrow> 'p build \<Rightarrow> ((json_error \<times> bool) option) \<times> 'p build" where
  "build_document dbl sv v s =
     (case v of
        JObject m \<Rightarrow>
          each_at (\<lambda>(key, val) s. value_to_json_instance dbl sv (hwtj_root sv) key val s)
            (\<lambda>_ (key, _) rc. custom_error (''Failed to serialize object property '' @ [SQUOTE] @ key @ [SQUOTE] @ ''. '' @ hex_rc rc))
            0 m s
      | JArray a \<Rightarrow>
          each_at (\<lambda>element s. value_to_json_instance dbl sv (hwtj_root sv) [] element s)
            (\<lambda>k _ rc. custom_error (''Failed to serialize array element at index '' @ show_nat k @ ''. '' @ hex_rc rc)) 0 a s
      | _ \<Rightarrow> (None, s))"

definition value_to_json_string ::
    "'d dbl_ops \<Rightarrow> ('p, 'h) hwtj \<Rightarrow> 'd json \<Rightarrow> storage \<Rightarrow> (json_error + string) \<times> bool \<times> storage" where
  "value_to_json_string dbl sv v st =
     (case ZJSMINIT sv json_instance0 of (rc, i) \<Rightarrow>
        if rc \<noteq> 0 then (Inl (custom_error (''Failed to initialize JSON parser. '' @ hex_rc rc)), True, st)
        else if json_is_object v \<or> json_is_array v then
          (case ZJSMPARS sv (if json_is_object v then ''{}'' else ''[]'') i st of (rc, i1, st1) \<Rightarrow>
             if rc \<noteq> 0
             then (Inl (custom_error (''Failed to parse initial JSON container. '' @ hex_rc rc)), True, snd (snd (ZJSMTERM sv i1 st1)))
             else (case build_document dbl sv v (i1, st1) of
               (Some (e, terminated), i2, st2) \<Rightarrow>
                 (Inl e, terminated, if terminated then snd (snd (ZJSMTERM sv i2 st2)) else st2)
             | (None, s) \<Rightarrow> serialize_text sv s))
        else (Inl (custom_error ''Serializing primitive values is not supported''), False, st))"

definition json_to_string :: "'d dbl_ops \<Rightarrow> ('p, 'h) hwtj \<Rightarrow> 'd json \<Rightarrow> json_error + string" where
  "json_to_string dbl sv v = fst (value_to_json_string dbl sv v \<lparr>st_next = 0, st_blocks = []\<rparr>)"

section \<open>Indentation\<close>

text \<open>
  One step of \<open>add_json_indentation\<close>: the text appended, or \<^const>\<open>None\<close> when \<open>append\<close> throws
  \<open>std::length_error\<close> because the indentation is negative.
\<close>

record indent_state =
  is_level :: int
  is_in_string :: bool
  is_escape :: bool

definition append_spaces :: "int \<Rightarrow> string option" where
  "append_spaces n = (if n < 0 then None else Some (replicate (nat n) SPACE))"

definition indent_char :: "int \<Rightarrow> char \<Rightarrow> indent_state \<Rightarrow> (string \<times> indent_state) option" where
  "indent_char spaces ch s =
     (if is_escape s then Some ([ch], s\<lparr>is_escape := False\<rparr>)
      else if ch = BACKSLASH \<and> is_in_string s then Some ([ch], s\<lparr>is_escape := True\<rparr>)
      else if ch = DQUOTE then Some ([ch], s\<lparr>is_in_string := \<not> is_in_string s\<rparr>)
      else if is_in_string s then Some ([ch], s)
      else if ch = CHR ''{'' \<or> ch = CHR ''['' then
        map_option (\<lambda>pad. ([ch, NL] @ pad, s\<lparr>is_level := is_level s + 1\<rparr>)) (append_spaces ((is_level s + 1) * spaces))
      else if ch = CHR ''}'' \<or> ch = CHR '']'' then
        map_option (\<lambda>pad. ([NL] @ pad @ [ch], s\<lparr>is_level := is_level s - 1\<rparr>)) (append_spaces ((is_level s - 1) * spaces))
      else if ch = CHR '','' then map_option (\<lambda>pad. ([ch, NL] @ pad, s)) (append_spaces (is_level s * spaces))
      else if ch = CHR '':'' then Some ([ch, SPACE], s)
      else Some ([ch], s))"

fun indent_all :: "int \<Rightarrow> string \<Rightarrow> indent_state \<Rightarrow> string option" where
  "indent_all spaces [] s = Some []"
| "indent_all spaces (ch # t) s =
     (case indent_char spaces ch s of
        None \<Rightarrow> None
      | Some (out, s') \<Rightarrow> map_option (\<lambda>rest. out @ rest) (indent_all spaces t s'))"

definition indent_state0 :: indent_state where
  "indent_state0 = \<lparr>is_level = 0, is_in_string = False, is_escape = False\<rparr>"

definition add_json_indentation :: "string \<Rightarrow> int \<Rightarrow> string option" where
  "add_json_indentation json_str spaces = indent_all spaces json_str indent_state0"

definition json_to_string_pretty :: "'d dbl_ops \<Rightarrow> ('p, 'h) hwtj \<Rightarrow> 'd json \<Rightarrow> json_error + string" where
  "json_to_string_pretty dbl sv v =
     bind_result (json_to_string dbl sv v) (\<lambda>s.
       case add_json_indentation s 2 of Some r \<Rightarrow> Inr r | None \<Rightarrow> Inl (custom_error ''basic_string''))"

end
