(* ===== verification/Zjson_Text.thy ===== *)
theory Zjson_Text
  imports Zjson Lexer_Print
begin

text \<open>
  What reading and writing JSON text guarantees: strings survive escaping exactly when they have no
  character the escaping replaces, integers survive up to saturation, a document read is at most 64
  levels deep whatever the services return, and indentation changes blanks outside strings only.
  Every parse loses the copy of its text.
\<close>

section \<open>Descriptions\<close>

text \<open>What unescaping says of the replacement character.\<close>

definition unsupported_escape :: json_error where
  "unsupported_escape =
     invalid_value (''JSON string contains an unsupported '' @ [BACKSLASH] @ ''u escape: '' @ [BACKSLASH] @ ''ufffd'')"

text \<open>The nesting depth of a value.\<close>

fun json_depth :: "'d json \<Rightarrow> nat" where
  "json_depth (JArray a) = 1 + Max (insert 0 (set (map json_depth a)))"
| "json_depth (JObject m) = 1 + Max (insert 0 (set (map (\<lambda>(_, v). json_depth v) m)))"
| "json_depth _ = 1"

text \<open>Text without the blanks and line ends outside strings.\<close>

fun compact :: "bool \<Rightarrow> bool \<Rightarrow> string \<Rightarrow> string" where
  "compact in_string esc [] = []"
| "compact in_string esc (c # s) =
     (if esc then c # compact in_string False s
      else if c = BACKSLASH \<and> in_string then c # compact in_string True s
      else if c = DQUOTE then c # compact (\<not> in_string) False s
      else if \<not> in_string \<and> (c = SPACE \<or> c = NL) then compact in_string False s
      else c # compact in_string False s)"

text \<open>No bracket outside a string closes more than was opened.\<close>

fun nested_ok :: "bool \<Rightarrow> bool \<Rightarrow> int \<Rightarrow> string \<Rightarrow> bool" where
  "nested_ok in_string esc level [] = True"
| "nested_ok in_string esc level (c # s) =
     (if esc then nested_ok in_string False level s
      else if c = BACKSLASH \<and> in_string then nested_ok in_string True level s
      else if c = DQUOTE then nested_ok (\<not> in_string) False level s
      else if in_string then nested_ok in_string False level s
      else if c = CHR ''{'' \<or> c = CHR ''['' then nested_ok in_string False (level + 1) s
      else if c = CHR ''}'' \<or> c = CHR '']'' then level \<ge> 1 \<and> nested_ok in_string False (level - 1) s
      else nested_ok in_string False level s)"

text \<open>Services that parse every text as an array with a null in it.\<close>

definition services0 :: "(unit, nat) hwtj" where
  "services0 =
     \<lparr>hwtj_init = (0, ()), hwtj_pars = (\<lambda>_ _. (0, ())),
      hwtj_gjst = (\<lambda>_ h. (0, if h = 0 then HWTJ_ARRAY_TYPE else HWTJ_NULL_TYPE)), hwtj_gval = (\<lambda>_ _. (0, [])),
      hwtj_gnue = (\<lambda>_ _. (0, 1)), hwtj_gbov = (\<lambda>_ _. (0, 0)), hwtj_gaen = (\<lambda>_ _ _. (0, 1)),
      hwtj_goen = (\<lambda>_ _ _ _. (0, [], 1, 0)), hwtj_cren = (\<lambda>_ _ _ _ _. (0, 1, ())), hwtj_seri = (\<lambda>_ _. (0, ''[null]'', 6)),
      hwtj_srch = (\<lambda>_ _ _ _ _. (0, 1)), hwtj_del = (\<lambda>_ _ _. (0, ())), hwtj_genc = (\<lambda>_. (0, 0)), hwtj_term = (\<lambda>_. (0, ())),
      hwtj_root = 0\<rparr>"

definition no_floats :: "unit fp_ops" where
  "no_floats = \<lparr>fp_strtod = (\<lambda>_. (False, (), 0)), fp_show = (\<lambda>_ _. [])\<rparr>"

section \<open>Strings\<close>

lemma unescape_plain: "c \<noteq> BACKSLASH \<Longrightarrow> unescape_json_string (c # s) = prepend [c] (unescape_json_string s)"
  by (cases s) simp_all

lemma unescape_named:
  "named_unescape e = Some x \<Longrightarrow> unescape_json_string (BACKSLASH # e # t) = prepend [x] (unescape_json_string t)"
  by simp

lemma strtoul_fffd: "strtoul_hex (c_str ''fffd'') = (65533, 4)"
  by (simp add: c_str_def strtoul_hex_def skip_blanks_sign_def skip_hex_prefix_def digit_of_base_def digit_value_def
      is_ascii_dec_digit_def char_between_iso isspace_def digits_value_def)

lemma unescape_unescapable: "unescape_json_string (BACKSLASH # ''ufffd'' @ t) = Inl unsupported_escape"
proof -
  have "unicode_escape ''fffd'' = Inl unsupported_escape"
    unfolding unicode_escape_def strtoul_fffd by (simp add: unsupported_escape_def)
  then show ?thesis by (simp add: named_unescape_def)
qed

lemma named_escapes_ok: "list_all (\<lambda>(c, e). named_unescape e = Some c \<and> is_json_safe_text [c]) named_escapes"
  by (simp add: named_escapes_def named_unescape_def is_json_safe_text_def iscntrl_iso)

lemma named_escapes_None:
  "map_of named_escapes c = None \<longleftrightarrow> c \<notin> {DQUOTE, BACKSLASH, CHR 0x08, CHR 0x0C, NL, CR, TAB}"
  by (simp add: map_of_eq_None_iff named_escapes_def)

lemma escape_char_cases:
  obtains (named) e where "escape_char c = [BACKSLASH, e]" "named_unescape e = Some c" "is_json_safe_text [c]"
  | (control) "escape_char c = BACKSLASH # ''ufffd''" "\<not> is_json_safe_text [c]"
  | (plain) "escape_char c = [c]" "c \<noteq> BACKSLASH" "is_json_safe_text [c]"
proof (cases "map_of named_escapes c")
  case (Some e)
  then have "(c, e) \<in> set named_escapes" by (rule map_of_SomeD)
  with named_escapes_ok Some show ?thesis by (intro named [of e]) (auto simp: escape_char_def list_all_iff)
next
  case None
  then have "c \<notin> {DQUOTE, BACKSLASH, CHR 0x08, CHR 0x0C, NL, CR, TAB}" unfolding named_escapes_None .
  with None show ?thesis
    by (cases "iscntrl c") (simp_all add: control plain escape_char_def is_json_safe_text_def)
qed

text \<open>
  C36. What escaping writes, unescaping reads back, exactly for the text that \<open>is_json_safe_text\<close> of the
  result envelope accepts. Any other control character is written as the Unicode replacement
  character, which unescaping refuses.
\<close>

theorem unescape_escape:
  "unescape_json_string (escape_json_string s) =
     (if is_json_safe_text s then Inr s else Inl unsupported_escape)"
proof (induction s)
  case (Cons c s)
  have safe: "is_json_safe_text (c # s) \<longleftrightarrow> is_json_safe_text [c] \<and> is_json_safe_text s"
    by (simp add: is_json_safe_text_def)
  have split: "escape_json_string (c # s) = escape_char c @ escape_json_string s"
    by (simp add: escape_json_string_def)
  show ?case
  proof (cases rule: escape_char_cases [of c])
    case (named e)
    with Cons show ?thesis unfolding safe split by (simp add: unescape_named del: unescape_json_string.simps)
  next
    case control
    then show ?thesis unfolding safe split by (simp add: unescape_unescapable [simplified append.simps] del: unescape_json_string.simps)
  next
    case plain
    with Cons show ?thesis unfolding safe split by (simp add: unescape_plain del: unescape_json_string.simps)
  qed
qed (simp add: escape_json_string_def is_json_safe_text_def)

text \<open>
  A \<open>u\<close> escape below 256 is read as the byte of that number, which is in general not the character it
  names: the escape 0041 of the letter A gives the byte 0x41, a no-break space in IBM-1047.
\<close>

lemma unicode_escape_reads_byte:
  assumes "n < 256" and "\<not> iscntrl (unebcdic (of_nat n))"
  shows "unescape_json_string (BACKSLASH # ''u00'' @ [hex_digit (n div 16), hex_digit (n mod 16)]) = Inr [unebcdic (of_nat n)]"
proof -
  let ?hex = "[CHR ''0'', CHR ''0'', hex_digit (n div 16), hex_digit (n mod 16)]"
  have d: "n div 16 < 16" "n mod 16 < 16" using assms(1) by auto
  note h = hex_digit_value [OF d(1)] hex_digit_value [OF d(2)]
  have hex: "\<forall>c \<in> set ?hex. is_ascii_hex_digit c"
    using h by (simp add: is_ascii_hex_digit_def [of "CHR ''0''"] is_ascii_dec_digit_def char_between_iso)
  then have nz: "\<forall>c \<in> set ?hex. digit_of_base 16 c" using radix_digit_of_base(2) by blast
  have "\<not> is_ascii_hex_digit NUL" by (simp add: is_ascii_hex_digit_def is_ascii_dec_digit_def char_between_iso)
  with hex have "\<forall>c \<in> set ?hex. c \<noteq> NUL" by blast
  then have "c_str ?hex = ?hex" unfolding c_str_def by (rule takeWhile_all)
  moreover have "takeWhile (digit_of_base 16) ?hex = ?hex" using nz by (rule takeWhile_all)
  moreover have "digits_value 16 ?hex = n" using h by (simp add: digits_value_def digit_value_def is_ascii_dec_digit_def char_between_iso)
  ultimately have "strtoul_hex (c_str ?hex) = (n, 4)"
    by (simp add: strtoul_hex_def skip_blanks_sign_def skip_hex_prefix_def isspace_def)
  then have "unicode_escape ?hex = Inr (unebcdic (of_nat n))"
    using assms by (simp add: unicode_escape_def)
  then show ?thesis by (simp add: named_unescape_def)
qed

lemma unicode_escape_A: "unescape_json_string (BACKSLASH # ''u0041'') = Inr [CHR 0xA0]"
proof -
  have "ebcdic (CHR 0xA0) = 65" by (simp add: ebcdic_def ebcdic_code_def ibm1047_def)
  then have "unebcdic 65 = CHR 0xA0" using unebcdic_ebcdic [of "CHR 0xA0"] by simp
  moreover have "\<not> iscntrl (CHR 0xA0)" by (simp add: iscntrl_iso)
  moreover have "[hex_digit (65 div 16), hex_digit (65 mod 16)] = ''41''" by code_simp
  ultimately show ?thesis using unicode_escape_reads_byte [of 65] by (simp del: unescape_json_string.simps)
qed

section \<open>Documents\<close>

lemma traverse_Inr: "traverse f xs = Inr ys \<longleftrightarrow> list_all2 (\<lambda>x y. f x = Inr y) xs ys"
  by (induction xs arbitrary: ys) (auto simp: list_all2_Cons1)

lemma map_set_values: "snd ` set (map_set k v m) \<subseteq> insert v (snd ` set m)"
  by (induction m) (force simp: map_set.simps split: if_splits)+

lemma map_set_all_values: "snd ` set (map_set_all kvs m) \<subseteq> snd ` set kvs \<union> snd ` set m"
proof (induction kvs arbitrary: m)
  case (Cons p kvs)
  obtain k v where "p = (k, v)" by (cases p)
  with Cons [of "map_set k v m"] map_set_values [of k v m] show ?case by auto
qed simp

lemma json_depth_array: "json_depth (JArray a) \<le> Suc n \<longleftrightarrow> (\<forall>v \<in> set a. json_depth v \<le> n)"
  by simp

lemma json_depth_object: "json_depth (JObject m) \<le> Suc n \<longleftrightarrow> (\<forall>v \<in> snd ` set m. json_depth v \<le> n)"
  by (auto simp: case_prod_beta)

lemma read_number_depth: "read_number fp s = Inr v \<Longrightarrow> json_depth v = 1"
  by (auto simp: read_number_def Let_def split: if_splits prod.splits)

lemma list_all2_right: "list_all2 P xs ys \<Longrightarrow> y \<in> set ys \<Longrightarrow> \<exists>x. P x y"
  by (auto simp: list_all2_conv_all_nth in_set_conv_nth)

lemma handle_Inr_cases:
  assumes "json_handle_to_value fp sv i st key depth = Inr v"
  obtains "depth < MAX_JSON_DEPTH" "json_depth v = 1"
  | vs where "depth < MAX_JSON_DEPTH" "v = JArray vs"
      "\<And>w. w \<in> set vs \<Longrightarrow> \<exists>h. json_handle_to_value fp sv i st h (Suc depth) = Inr w"
  | kvs where "depth < MAX_JSON_DEPTH" "v = JObject (map_set_all kvs [])"
      "\<And>w. w \<in> snd ` set kvs \<Longrightarrow> \<exists>h. json_handle_to_value fp sv i st h (Suc depth) = Inr w"
proof -
  have d: "depth < MAX_JSON_DEPTH"
    using assms by (subst (asm) json_handle_to_value.simps) (auto split: if_splits)
  obtain rc type where t: "ZJSNGJST sv i key = (rc, type)" by (cases "ZJSNGJST sv i key")
  note val = assms [unfolded json_handle_to_value.simps [of fp sv i st key depth] t prod.case]
  consider "type = HWTJ_NULL_TYPE" | "type = HWTJ_BOOLEAN_TYPE" | "type = HWTJ_NUMBER_TYPE" | "type = HWTJ_STRING_TYPE"
    | "type = HWTJ_ARRAY_TYPE" | "type = HWTJ_OBJECT_TYPE"
    using val by (auto split: if_splits)
  then show thesis
  proof cases
    case 3
    with val d that(1) show thesis by (auto simp: hwtj_types dest: read_number_depth split: if_splits prod.splits)
  next
    case 5
    with val d obtain ks vs where v: "v = JArray vs" and tr: "list_all2 (\<lambda>k w. (case ZJSMGAEN sv i key k of (rc, h) \<Rightarrow>
        if rc \<noteq> 0 then Inl (custom_error (''Failed to read JSON array element at index '' @ show_int k))
        else json_handle_to_value fp sv i st h (depth + 1)) = Inr w) ks vs"
      by (auto simp: hwtj_types traverse_Inr split: if_splits prod.splits)
    show thesis
    proof (rule that(2) [OF d v])
      fix w
      assume "w \<in> set vs"
      from list_all2_right [OF tr this] obtain k where "(case ZJSMGAEN sv i key k of (rc, h) \<Rightarrow>
          if rc \<noteq> 0 then Inl (custom_error (''Failed to read JSON array element at index '' @ show_int k))
          else json_handle_to_value fp sv i st h (depth + 1)) = Inr w" ..
      then show "\<exists>h. json_handle_to_value fp sv i st h (Suc depth) = Inr w"
        by (cases "ZJSMGAEN sv i key k") (auto split: if_splits)
    qed
  next
    case 6
    with val d obtain ks kvs where v: "v = JObject (map_set_all kvs [])"
      and tr: "list_all2 (\<lambda>k p. bind_result (object_entry sv i st key k) (\<lambda>(name, h).
        bind_result (json_handle_to_value fp sv i st h (depth + 1)) (\<lambda>v. Inr (name, v))) = Inr p) ks kvs"
      by (auto simp: hwtj_types traverse_Inr split: if_splits prod.splits)
    show thesis
      by (rule that(3) [OF d v], erule imageE, drule list_all2_right [OF tr]) (auto split: prod.split_asm)
  qed (use val d that(1) in \<open>auto simp: hwtj_types split: if_splits prod.splits\<close>)
qed

lemma handle_depth:
  "json_handle_to_value fp sv i st key depth = Inr v \<Longrightarrow> json_depth v + depth \<le> MAX_JSON_DEPTH"
proof (induction "MAX_JSON_DEPTH - depth" arbitrary: depth key v rule: less_induct)
  case less
  have IH: "json_depth w \<le> MAX_JSON_DEPTH - Suc depth"
    if "json_handle_to_value fp sv i st h (Suc depth) = Inr w" "depth < MAX_JSON_DEPTH" for h w
  proof -
    have "MAX_JSON_DEPTH - Suc depth < MAX_JSON_DEPTH - depth" using that(2) by simp
    from less.hyps [OF this that(1)] show ?thesis by simp
  qed
  from less.prems show ?case
  proof (cases rule: handle_Inr_cases)
    case (2 vs)
    with IH have "\<forall>w \<in> set vs. json_depth w \<le> MAX_JSON_DEPTH - Suc depth" by blast
    with 2 show ?thesis using json_depth_array [of vs "MAX_JSON_DEPTH - Suc depth"] by (simp del: json_depth.simps)
  next
    case (3 kvs)
    have "json_depth w \<le> MAX_JSON_DEPTH - Suc depth" if "w \<in> snd ` set (map_set_all kvs [])" for w
    proof -
      have "w \<in> snd ` set kvs" using that map_set_all_values [of kvs "[]"] by auto
      with 3(3) IH 3(1) show ?thesis by blast
    qed
    with 3 show ?thesis using json_depth_object [of "map_set_all kvs []" "MAX_JSON_DEPTH - Suc depth"]
      by (simp del: json_depth.simps)
  qed auto
qed

text \<open>A document that was read is at most 64 levels deep, whatever the services return.\<close>

theorem from_str_depth:
  assumes "fst (from_str fp sv json st) = Inr v"
  shows "json_depth v \<le> MAX_JSON_DEPTH"
proof -
  from assms obtain i st' where "json_handle_to_value fp sv i st' (hwtj_root sv) 0 = Inr v"
    by (auto simp: from_str_def Let_def split: prod.splits if_splits)
  from handle_depth [OF this] show ?thesis by simp
qed

lemma services0_reads: "fst (from_str no_floats services0 ''[null]'' st) = Inr (JArray [JNull])"
  by (simp add: from_str_def services0_def ZJSMINIT_def ZJSMPARS_def Let_def storage_obtain31_def
      json_handle_to_value.simps MAX_JSON_DEPTH_def ZJSNGJST_def ZJSMGNUE_def ZJSMGAEN_def hwtj_types split: prod.splits)

theorem from_str_depth_witness: "json_depth (JArray [JNull :: unit json]) \<le> MAX_JSON_DEPTH"
  using from_str_depth [OF services0_reads] .

section \<open>Storage and numbers\<close>

text \<open>
  Every call of \<open>from_str\<close> leaves one block of 31-bit storage allocated, the copy of the text: the
  wrapper of the parse service records it in an instance that it then overwrites.
\<close>

theorem parse_keeps_text_block:
  assumes "fst (hwtj_init sv) = 0"
  shows "st_blocks (snd (from_str fp sv json st)) = (st_next st, length (c_str json) + 1) # st_blocks st"
proof -
  obtain p where i: "ZJSMINIT sv json_instance0 = (0, \<lparr>ji_handle = Some p, ji_json = None, ji_json_length = 0\<rparr>)"
    using assms by (cases "hwtj_init sv") (simp add: ZJSMINIT_def json_instance0_def)
  let ?i = "\<lparr>ji_handle = Some p, ji_json = None, ji_json_length = 0\<rparr>"
  obtain rc i1 st1 where p: "ZJSMPARS sv json ?i st = (rc, i1, st1)" by (cases "ZJSMPARS sv json ?i st")
  obtain rc' i2 st2 where t: "ZJSMTERM sv i1 st1 = (rc', i2, st2)" by (cases "ZJSMTERM sv i1 st1")
  have "ji_json i1 = None" using ZJSMPARS_result(2) [OF p] by simp
  from ZJSMTERM_blocks [OF this t] have "st2 = st1" .
  then show ?thesis
    using ZJSMPARS_result(1) [OF p] by (simp add: from_str_def i p t)
qed

theorem parse_keeps_text_block_witness:
  "st_blocks (snd (from_str no_floats services0 ''{}'' \<lparr>st_next = 0, st_blocks = []\<rparr>)) = [(0, 3)]"
  using parse_keeps_text_block [of services0 no_floats "''{}''" "\<lparr>st_next = 0, st_blocks = []\<rparr>"]
  by (simp add: services0_def c_str_def)

lemma no_blank_sign:
  "s \<noteq> [] \<Longrightarrow> \<forall>c \<in> set s. is_ascii_dec_digit c \<Longrightarrow>
     skip_blanks_sign s = (0, False, s) \<and> skip_blanks_sign (CHR ''-'' # s) = (1, True, s)"
  by (cases s) (auto simp: skip_blanks_sign_def is_ascii_dec_digit_def isspace_def char_between_iso split: list.splits)

text \<open>
  An integer written in decimal is read back, saturated at the bounds of \<open>long long\<close>: a number out of
  range is not an error.
\<close>

theorem integer_text:
  "read_number fp (show_int i) = Inr (JInteger (max (- (2 ^ 63)) (min (2 ^ 63 - 1) i)))"
proof -
  have digits: "\<forall>c \<in> set (show_nat n). is_ascii_dec_digit c" "show_nat n \<noteq> []" "digits_value 10 (show_nat n) = n" for n
    using show_nat_digits [of n] by (auto simp: show_nat.simps [of n] split: if_splits)
  have tw: "takeWhile (digit_of_base 10) (show_nat n) = show_nat n" for n
    using digits(1) radix_digit_of_base(1) by (intro takeWhile_all) blast
  have plain: "c_str s = s" "CHR ''.'' \<notin> set s" "CHR ''e'' \<notin> set s" "CHR ''E'' \<notin> set s"
    if "\<forall>c \<in> set s. is_ascii_dec_digit c \<or> c = CHR ''-''" for s
    using that by (auto simp: c_str_def is_ascii_dec_digit_def char_between_iso intro!: takeWhile_all)
  let ?s = "show_int i"
  have s: "\<forall>c \<in> set ?s. is_ascii_dec_digit c \<or> c = CHR ''-''"
    using digits(1) by (auto simp: show_int_def)
  have "strtoll_dec ?s = (max (- (2 ^ 63)) (min (2 ^ 63 - 1) i), length ?s)"
  proof (cases "i < 0")
    case True
    then show ?thesis
      using no_blank_sign [OF digits(2,1)] digits(2,3) by (simp add: show_int_def strtoll_dec_def tw LLONG_MAX_def)
  next
    case False
    then show ?thesis
      using no_blank_sign [OF digits(2,1)] digits(2,3) by (simp add: show_int_def strtoll_dec_def tw LLONG_MAX_def)
  qed
  moreover have "?s \<noteq> []" using digits(2) by (simp add: show_int_def)
  ultimately show ?thesis
    unfolding read_number_def plain(1) [OF s] using plain(2-4) [OF s] by simp
qed

section \<open>Indentation\<close>

lemma compact_blanks: "compact False False (replicate n SPACE @ t) = compact False False t"
  by (induction n) simp_all

lemma append_spaces_Some: "0 < spaces \<Longrightarrow> append_spaces (n * spaces) = Some pad \<longleftrightarrow> n \<ge> 0 \<and> pad = replicate (nat (n * spaces)) SPACE"
  by (auto simp: append_spaces_def zero_le_mult_iff mult_less_0_iff)

lemma indent_char_compact_bracket:
  assumes "indent_char spaces c s = Some (out, s')" and "0 < spaces" and "\<not> is_escape s" "\<not> is_in_string s"
    and "c \<in> set ''{}[],''"
  shows "compact False False (out @ r) = c # compact (is_in_string s') (is_escape s') r"
    and "compact False False (c # t) = c # compact (is_in_string s') (is_escape s') t"
proof -
  from assms(5) consider "c = CHR ''{''" | "c = CHR ''}''" | "c = CHR ''[''" | "c = CHR '']''" | "c = CHR '',''" by auto
  then show "compact False False (out @ r) = c # compact (is_in_string s') (is_escape s') r"
    by cases (use assms(1-4) in \<open>auto simp: indent_char_def append_spaces_Some compact_blanks\<close>)
  from assms(5) consider "c = CHR ''{''" | "c = CHR ''}''" | "c = CHR ''[''" | "c = CHR '']''" | "c = CHR '',''" by auto
  then show "compact False False (c # t) = c # compact (is_in_string s') (is_escape s') t"
    by cases (use assms(1-4) in \<open>auto simp: indent_char_def append_spaces_Some compact_blanks\<close>)
qed

lemma indent_char_other:
  assumes "\<not> is_escape s" "\<not> is_in_string s" and "c \<notin> set ''{}[],''"
  shows "indent_char spaces c s =
    Some (if c = CHR '':'' then [c, SPACE] else [c], if c = DQUOTE then s\<lparr>is_in_string := True\<rparr> else s)"
  using assms by (simp add: indent_char_def)

lemma indent_char_compact:
  assumes "indent_char spaces c s = Some (out, s')" and "0 < spaces"
    and eq: "compact (is_in_string s') (is_escape s') r = compact (is_in_string s') (is_escape s') t"
  shows "compact (is_in_string s) (is_escape s) (out @ r) = compact (is_in_string s) (is_escape s) (c # t)"
proof (cases "is_escape s \<or> is_in_string s")
  case True
  with assms(1) eq show ?thesis by (auto simp: indent_char_def split: if_splits)
next
  case False
  show ?thesis
  proof (cases "c \<in> set ''{}[],''")
    case True
    with False indent_char_compact_bracket [OF assms(1,2)] eq show ?thesis by (simp del: compact.simps)
  next
    case other: False
    with False assms(1) have "out = (if c = CHR '':'' then [c, SPACE] else [c])"
      "s' = (if c = DQUOTE then s\<lparr>is_in_string := True\<rparr> else s)"
      by (simp_all add: indent_char_other del: set_simps)
    with False eq show ?thesis by (cases "c = CHR '':''"; cases "c = DQUOTE") simp_all
  qed
qed

lemma indent_all_compact:
  "0 < spaces \<Longrightarrow> indent_all spaces t s = Some r \<Longrightarrow>
     compact (is_in_string s) (is_escape s) r = compact (is_in_string s) (is_escape s) t"
proof (induction t arbitrary: s r)
  case (Cons c t)
  from Cons.prems(2) obtain out s' rest where step: "indent_char spaces c s = Some (out, s')"
    and rest: "indent_all spaces t s' = Some rest" and r: "r = out @ rest"
    by (auto split: option.splits)
  show ?case
    unfolding r using Cons.IH [OF Cons.prems(1) rest] by (rule indent_char_compact [OF step Cons.prems(1)])
qed simp

lemma indent_all_returns:
  "0 < spaces \<Longrightarrow> 0 \<le> is_level s \<Longrightarrow>
     (\<exists>r. indent_all spaces t s = Some r) \<longleftrightarrow> nested_ok (is_in_string s) (is_escape s) (is_level s) t"
proof (induction t arbitrary: s)
  case (Cons c t)
  show ?case
    using Cons.prems Cons.IH [of "s\<lparr>is_escape := False\<rparr>"] Cons.IH [of "s\<lparr>is_escape := True\<rparr>"] Cons.IH [of s]
      Cons.IH [of "s\<lparr>is_in_string := \<not> is_in_string s\<rparr>"] Cons.IH [of "s\<lparr>is_level := is_level s + 1\<rparr>"]
      Cons.IH [of "s\<lparr>is_level := is_level s - 1\<rparr>"]
    by (simp add: indent_char_def append_spaces_def zero_le_mult_iff mult_less_0_iff split: option.splits)
qed simp

text \<open>
  Indentation returns exactly for text in which no bracket outside a string closes more than was
  opened, and then it has added only blanks and line ends outside strings.
\<close>

theorem indentation_keeps_text:
  assumes "0 < spaces"
  shows "(\<exists>r. add_json_indentation s spaces = Some r \<and> compact False False r = compact False False s) \<longleftrightarrow>
    nested_ok False False 0 s"
  using indent_all_returns [OF assms, of indent_state0 s] indent_all_compact [OF assms, of s indent_state0]
  by (auto simp: add_json_indentation_def indent_state0_def)

theorem indentation_keeps_text_witness:
  "\<exists>r. add_json_indentation ''{}'' 2 = Some r \<and> compact False False r = compact False False ''{}''"
proof -
  have "nested_ok False False 0 ''{}''" by simp
  then show ?thesis using indentation_keeps_text [of 2 "''{}''"] by simp
qed

end
