(* ===== verification/Zjson_Struct.thy ===== *)
theory Zjson_Struct
  imports Zjson
begin

text \<open>
  Conversion between C++ structures and JSON values, \<open>native/c/zjson.hpp\<close>: the traits for the basic
  types, \<open>std::vector\<close> and \<open>std::optional\<close>, the field descriptors and what the macros
  \<open>ZJSON_DERIVE\<close> and \<open>ZJSON_SERIALIZABLE\<close> generate from them. A structure that lists its fields can be
  read back from what it was written to; the locale \<open>struct_fields\<close> states what the fields must satisfy.
\<close>

section \<open>Names\<close>

datatype case_style =
    CaseNone | Lowercase | Uppercase | PascalCase | CamelCase | SnakeCase | ScreamingSnakeCase | KebabCase
  | ScreamingKebabCase

fun camel_case :: "bool \<Rightarrow> string \<Rightarrow> string" where
  "camel_case capitalize_next [] = []"
| "camel_case capitalize_next (c # cs) =
     (if c = CHR ''_'' then camel_case True cs
      else if capitalize_next then toupper c # camel_case False cs
      else tolower c # camel_case False cs)"

fun transform_name :: "string \<Rightarrow> case_style \<Rightarrow> string" where
  "transform_name name CaseNone = name"
| "transform_name name Lowercase = map tolower name"
| "transform_name name Uppercase = map toupper name"
| "transform_name name SnakeCase = name"
| "transform_name name CamelCase = camel_case False name"
| "transform_name name PascalCase =
     (case camel_case False name of [] \<Rightarrow> [] | c # cs \<Rightarrow> toupper c # cs)"
| "transform_name name ScreamingSnakeCase = map toupper name"
| "transform_name name KebabCase = map (\<lambda>c. if c = CHR ''_'' then CHR ''-'' else tolower c) name"
| "transform_name name ScreamingKebabCase = map (\<lambda>c. if c = CHR ''_'' then CHR ''-'' else toupper c) name"

section \<open>Traits\<close>

text \<open>
  \<open>Serializable<T>\<close> and \<open>Deserializable<T>\<close>, and what \<open>is_optional\<close> and \<open>has_value\<close> say of a value of
  the type.
\<close>

record ('f, 'd) codec =
  cd_ser :: "'f \<Rightarrow> 'd json"
  cd_deser :: "'d json \<Rightarrow> json_error + 'f"
  cd_optional :: bool
  cd_has_value :: "'f \<Rightarrow> bool"
  cd_empty :: 'f

definition bool_codec :: "(bool, 'd) codec" where
  "bool_codec = \<lparr>cd_ser = JBool, cd_deser = json_as_bool, cd_optional = False, cd_has_value = (\<lambda>_. True), cd_empty = False\<rparr>"

definition deserialize_int :: "'d dbl_ops \<Rightarrow> 'd json \<Rightarrow> json_error + int" where
  "deserialize_int dbl v =
     bind_result (json_as_int64 dbl v) (\<lambda>n.
       if n > 2 ^ 31 - 1 \<or> n < - (2 ^ 31) then Inl (invalid_value (''Number '' @ show_int n @ '' overflows int range''))
       else Inr n)"

definition int_codec :: "'d dbl_ops \<Rightarrow> (int, 'd) codec" where
  "int_codec dbl = \<lparr>cd_ser = JInteger, cd_deser = deserialize_int dbl, cd_optional = False, cd_has_value = (\<lambda>_. True), cd_empty = 0\<rparr>"

definition deserialize_uint :: "'d dbl_ops \<Rightarrow> 'd json \<Rightarrow> json_error + int" where
  "deserialize_uint dbl v =
     bind_result (json_as_uint64 dbl v) (\<lambda>n.
       if n > 2 ^ 32 - 1 then Inl (invalid_value (''Number '' @ show_int n @ '' overflows unsigned int range'')) else Inr n)"

definition uint_codec :: "'d dbl_ops \<Rightarrow> (int, 'd) codec" where
  "uint_codec dbl = \<lparr>cd_ser = json_of_uint64 dbl, cd_deser = deserialize_uint dbl, cd_optional = False, cd_has_value = (\<lambda>_. True), cd_empty = 0\<rparr>"

definition int64_codec :: "'d dbl_ops \<Rightarrow> (int, 'd) codec" where
  "int64_codec dbl = \<lparr>cd_ser = JInteger, cd_deser = json_as_int64 dbl, cd_optional = False, cd_has_value = (\<lambda>_. True), cd_empty = 0\<rparr>"

definition uint64_codec :: "'d dbl_ops \<Rightarrow> (int, 'd) codec" where
  "uint64_codec dbl = \<lparr>cd_ser = json_of_uint64 dbl, cd_deser = json_as_uint64 dbl, cd_optional = False, cd_has_value = (\<lambda>_. True), cd_empty = 0\<rparr>"

definition double_codec :: "'d dbl_ops \<Rightarrow> ('d, 'd) codec" where
  "double_codec dbl = \<lparr>cd_ser = JDouble, cd_deser = json_as_double dbl, cd_optional = False, cd_has_value = (\<lambda>_. True), cd_empty = dbl_of_int dbl 0\<rparr>"

definition string_codec :: "(string, 'd) codec" where
  "string_codec = \<lparr>cd_ser = JString, cd_deser = json_as_string, cd_optional = False, cd_has_value = (\<lambda>_. True), cd_empty = []\<rparr>"

definition value_codec :: "('d json, 'd) codec" where
  "value_codec = \<lparr>cd_ser = (\<lambda>v. v), cd_deser = Inr, cd_optional = False, cd_has_value = (\<lambda>_. True), cd_empty = JNull\<rparr>"

definition vector_codec :: "('f, 'd) codec \<Rightarrow> ('f list, 'd) codec" where
  "vector_codec c =
     \<lparr>cd_ser = (\<lambda>xs. JArray (map (cd_ser c) xs)),
      cd_deser = (\<lambda>v. case v of JArray a \<Rightarrow> traverse (cd_deser c) a | _ \<Rightarrow> Inl (invalid_type ''array'' ''other'')),
      cd_optional = False, cd_has_value = (\<lambda>_. True), cd_empty = []\<rparr>"

definition optional_codec :: "('f, 'd) codec \<Rightarrow> ('f option, 'd) codec" where
  "optional_codec c =
     \<lparr>cd_ser = (\<lambda>x. case x of Some y \<Rightarrow> cd_ser c y | None \<Rightarrow> JNull),
      cd_deser = (\<lambda>v. if json_is_null v then Inr None else bind_result (cd_deser c v) (\<lambda>y. Inr (Some y))),
      cd_optional = True, cd_has_value = (\<lambda>x. x \<noteq> None), cd_empty = None\<rparr>"

section \<open>Fields\<close>

text \<open>\<open>zjson::Field\<close>; the member pointer and the traits of its type are the operations on the structure.\<close>

record ('t, 'd) field =
  fl_name :: string
  fl_ser :: "'t \<Rightarrow> 'd json"
  fl_optional :: bool
  fl_has_value :: "'t \<Rightarrow> bool"
  fl_assign :: "'d json \<Rightarrow> 't \<Rightarrow> 't option"
  fl_reset :: "'t \<Rightarrow> 't"
  fl_skip_serializing :: bool
  fl_skip_deserializing :: bool
  fl_skip_if_none :: bool
  fl_flatten :: bool
  fl_rename_to :: string
  fl_default :: "('t \<Rightarrow> 't) option"

definition mk_field :: "string \<Rightarrow> ('t \<Rightarrow> 'f) \<Rightarrow> ('f \<Rightarrow> 't \<Rightarrow> 't) \<Rightarrow> ('f, 'd) codec \<Rightarrow> ('t, 'd) field" where
  "mk_field name member_get member_set c =
     \<lparr>fl_name = name, fl_ser = (\<lambda>obj. cd_ser c (member_get obj)), fl_optional = cd_optional c,
      fl_has_value = (\<lambda>obj. cd_has_value c (member_get obj)),
      fl_assign = (\<lambda>v obj. case cd_deser c v of Inl _ \<Rightarrow> None | Inr x \<Rightarrow> Some (member_set x obj)),
      fl_reset = member_set (cd_empty c), fl_skip_serializing = False, fl_skip_deserializing = False,
      fl_skip_if_none = False, fl_flatten = False, fl_rename_to = [], fl_default = None\<rparr>"

definition field_rename :: "string \<Rightarrow> ('t, 'd) field \<Rightarrow> ('t, 'd) field" where
  "field_rename n f = f\<lparr>fl_rename_to := n\<rparr>"

definition field_skip :: "('t, 'd) field \<Rightarrow> ('t, 'd) field" where
  "field_skip f = f\<lparr>fl_skip_serializing := True, fl_skip_deserializing := True\<rparr>"

definition skip_serializing_field :: "('t, 'd) field \<Rightarrow> ('t, 'd) field" where
  "skip_serializing_field f = f\<lparr>fl_skip_serializing := True\<rparr>"

definition skip_deserializing_field :: "('t, 'd) field \<Rightarrow> ('t, 'd) field" where
  "skip_deserializing_field f = f\<lparr>fl_skip_deserializing := True\<rparr>"

definition with_default :: "('t \<Rightarrow> 't) \<Rightarrow> ('t, 'd) field \<Rightarrow> ('t, 'd) field" where
  "with_default g f = f\<lparr>fl_default := Some g\<rparr>"

definition skip_serializing_if_none :: "('t, 'd) field \<Rightarrow> ('t, 'd) field" where
  "skip_serializing_if_none f = f\<lparr>fl_skip_if_none := True\<rparr>"

definition field_flatten :: "('t, 'd) field \<Rightarrow> ('t, 'd) field" where
  "field_flatten f = f\<lparr>fl_flatten := True\<rparr>"

definition get_serialized_name :: "case_style \<Rightarrow> ('t, 'd) field \<Rightarrow> string" where
  "get_serialized_name style f =
     (if fl_rename_to f \<noteq> [] then fl_rename_to f
      else if style = CaseNone then fl_name f
      else transform_name (fl_name f) style)"

section \<open>Structures\<close>

fun add_flattened :: "(string \<times> 'd json) list \<Rightarrow> 'd json \<Rightarrow> json_error + 'd json" where
  "add_flattened [] result = Inr result"
| "add_flattened ((key, val) # kvs) result =
     (case result of
        JObject m \<Rightarrow>
          if map_has m key
          then Inl (invalid_data (''Field name collision during flattening: '' @ [SQUOTE] @ key @ [SQUOTE] @
                 '' already exists in parent struct''))
          else bind_result (json_add_to_object key val result) (add_flattened kvs)
      | _ \<Rightarrow> bind_result (json_add_to_object key val result) (add_flattened kvs))"

definition serialize_field :: "case_style \<Rightarrow> 't \<Rightarrow> 'd json \<Rightarrow> ('t, 'd) field \<Rightarrow> json_error + 'd json" where
  "serialize_field style obj result f =
     (if fl_skip_serializing f then Inr result
      else if fl_flatten f \<and> json_is_object (fl_ser f obj) then
        bind_result (json_as_object (fl_ser f obj)) (\<lambda>kvs. add_flattened kvs result)
      else if fl_optional f \<and> \<not> fl_has_value f obj \<and> fl_skip_if_none f then Inr result
      else json_add_to_object (get_serialized_name style f) (fl_ser f obj) result)"

definition deserialize_field :: "case_style \<Rightarrow> (string \<times> 'd json) list \<Rightarrow> ('t, 'd) field \<Rightarrow> 't \<Rightarrow> 't option" where
  "deserialize_field style object f obj =
     (if fl_skip_deserializing f then Some obj
      else if fl_flatten f then fl_assign f (JObject (map_set_all object [])) obj
      else case map_find object (get_serialized_name style f) of
        None \<Rightarrow>
          (case fl_default f of
             Some g \<Rightarrow> Some (g obj)
           | None \<Rightarrow> if fl_optional f then Some (fl_reset f obj) else None)
      | Some v \<Rightarrow> fl_assign f v obj)"

fun serialize_fields :: "case_style \<Rightarrow> 't \<Rightarrow> 'd json \<Rightarrow> ('t, 'd) field list \<Rightarrow> json_error + 'd json" where
  "serialize_fields style obj result [] = Inr result"
| "serialize_fields style obj result (f # fs) =
     bind_result (serialize_field style obj result f) (\<lambda>r. serialize_fields style obj r fs)"

fun deserialize_fields :: "case_style \<Rightarrow> (string \<times> 'd json) list \<Rightarrow> ('t, 'd) field list \<Rightarrow> 't \<Rightarrow> 't option" where
  "deserialize_fields style object [] obj = Some obj"
| "deserialize_fields style object (f # fs) obj =
     Option.bind (deserialize_field style object f obj) (deserialize_fields style object fs)"

definition validate_no_unknown_fields :: "case_style \<Rightarrow> (string \<times> 'd json) list \<Rightarrow> ('t, 'd) field list \<Rightarrow> json_error + bool" where
  "validate_no_unknown_fields style object fs =
     (if list_ex fl_flatten fs then Inr True
      else case List.find (\<lambda>(key, _). key \<notin> get_serialized_name style ` set fs) object of
        Some (key, _) \<Rightarrow> Inl (unknown_field key)
      | None \<Rightarrow> Inr True)"

definition struct_serialize :: "case_style \<Rightarrow> ('t, 'd) field list \<Rightarrow> 't \<Rightarrow> json_error + 'd json" where
  "struct_serialize style fs obj = serialize_fields style obj (JObject []) fs"

definition struct_deserialize :: "case_style \<Rightarrow> bool \<Rightarrow> ('t, 'd) field list \<Rightarrow> 't \<Rightarrow> 'd json \<Rightarrow> json_error + 't" where
  "struct_deserialize style deny_unknown fs obj0 v =
     (case v of
        JObject m \<Rightarrow>
          (case deserialize_fields style m fs obj0 of
             None \<Rightarrow> Inl (invalid_data ''Failed to deserialize fields'')
           | Some obj \<Rightarrow>
               if deny_unknown then bind_result (validate_no_unknown_fields style m fs) (\<lambda>_. Inr obj) else Inr obj)
      | _ \<Rightarrow> Inl (invalid_type ''object'' ''other''))"

section \<open>Reading back what was written\<close>

text \<open>The values a trait can read back.\<close>

definition codec_inverse :: "('f, 'd) codec \<Rightarrow> 'f \<Rightarrow> bool" where
  "codec_inverse c x \<longleftrightarrow> cd_deser c (cd_ser c x) = Inr x"

lemma codec_inverse_basic [simp]:
  "codec_inverse bool_codec b" "codec_inverse string_codec s" "codec_inverse value_codec v" "codec_inverse (int64_codec dbl) i"
  by (simp_all add: codec_inverse_def bool_codec_def string_codec_def value_codec_def int64_codec_def)

lemma codec_inverse_int [simp]: "codec_inverse (int_codec dbl) i \<longleftrightarrow> - (2 ^ 31) \<le> i \<and> i < 2 ^ 31"
  by (auto simp: codec_inverse_def int_codec_def deserialize_int_def)

lemma codec_inverse_vector: "list_all (codec_inverse c) xs \<Longrightarrow> codec_inverse (vector_codec c) xs"
  by (induction xs) (simp_all add: codec_inverse_def vector_codec_def)

lemma codec_inverse_optional [simp]:
  "codec_inverse (optional_codec c) x \<longleftrightarrow> (\<forall>y. x = Some y \<longrightarrow> codec_inverse c y \<and> \<not> json_is_null (cd_ser c y))"
  by (cases x) (auto simp: codec_inverse_def optional_codec_def)

text \<open>
  The fields of a structure, as \<open>ZJSON_DERIVE\<close> lists them: distinct names, no attribute but
  \<open>skip_serializing_if_none\<close>, each field restores its member, and together they restore the structure.
\<close>

locale struct_fields =
  fixes style :: case_style
    and fields :: "('t, 'd) field list"
    and valid :: "'t \<Rightarrow> bool"
    and copy :: "string \<Rightarrow> 't \<Rightarrow> 't \<Rightarrow> 't"
  assumes names: "distinct (map (get_serialized_name style) fields)"
    and plain: "f \<in> set fields \<Longrightarrow> \<not> fl_skip_serializing f \<and> \<not> fl_skip_deserializing f \<and> \<not> fl_flatten f \<and> fl_default f = None"
    and assign: "f \<in> set fields \<Longrightarrow> valid obj \<Longrightarrow> fl_assign f (fl_ser f obj) r = Some (copy (fl_name f) obj r)"
    and reset: "f \<in> set fields \<Longrightarrow> \<not> fl_has_value f obj \<Longrightarrow> fl_reset f r = copy (fl_name f) obj r"
    and complete: "fold (\<lambda>f r. copy (fl_name f) obj r) fields r = obj"
begin

definition written :: "'t \<Rightarrow> ('t, 'd) field \<Rightarrow> bool" where
  "written obj f \<longleftrightarrow> \<not> (fl_optional f \<and> \<not> fl_has_value f obj \<and> fl_skip_if_none f)"

lemma serialize_fields_object:
  "set fs \<subseteq> set fields \<Longrightarrow>
     serialize_fields style obj (JObject m) fs =
       Inr (JObject (map_set_all (map (\<lambda>f. (get_serialized_name style f, fl_ser f obj)) (filter (written obj) fs)) m))"
proof (induction fs arbitrary: m)
  case (Cons f fs)
  then have "serialize_field style obj (JObject m) f =
      Inr (JObject (if written obj f then map_set (get_serialized_name style f) (fl_ser f obj) m else m))"
    using plain [of f] by (auto simp: serialize_field_def written_def)
  with Cons show ?case by simp
qed simp

lemma find_written:
  assumes "f \<in> set fields"
  shows "map_find (map_set_all (map (\<lambda>f. (get_serialized_name style f, fl_ser f obj)) (filter (written obj) fields)) [])
      (get_serialized_name style f) = (if written obj f then Some (fl_ser f obj) else None)"
proof -
  let ?kvs = "map (\<lambda>f. (get_serialized_name style f, fl_ser f obj)) (filter (written obj) fields)"
  have keys: "map fst ?kvs = map (get_serialized_name style) (filter (written obj) fields)" by simp
  have "distinct (map fst ?kvs)" unfolding keys using names by (rule distinct_map_filter)
  moreover have "(get_serialized_name style f, fl_ser f obj) \<in> set ?kvs" if "written obj f" using assms that by auto
  moreover have "get_serialized_name style f \<notin> set (map fst ?kvs)" if "\<not> written obj f"
  proof
    assume "get_serialized_name style f \<in> set (map fst ?kvs)"
    then obtain g where "g \<in> set fields" "written obj g" "get_serialized_name style g = get_serialized_name style f"
      unfolding keys by auto
    with names assms that show False by (metis distinct_map inj_onD)
  qed
  ultimately show ?thesis
    by (auto simp: map_find_set_all_distinct map_find_set_all_notin simp del: set_map)
qed

lemma deserialize_written:
  assumes "valid obj"
    and "\<And>f. f \<in> set fs \<Longrightarrow> map_find m (get_serialized_name style f) = (if written obj f then Some (fl_ser f obj) else None)"
    and "set fs \<subseteq> set fields"
  shows "deserialize_fields style m fs r = Some (fold (\<lambda>f r. copy (fl_name f) obj r) fs r)"
  using assms(2,3)
proof (induction fs arbitrary: r)
  case (Cons f fs)
  have "deserialize_field style m f r = Some (copy (fl_name f) obj r)"
    using Cons.prems plain [of f] assign [OF _ assms(1), of f] reset [of f obj r]
    by (auto simp: deserialize_field_def written_def)
  with Cons show ?case by simp
qed simp

theorem roundtrip:
  assumes "valid obj"
  shows "bind_result (struct_serialize style fields obj) (struct_deserialize style False fields r) = Inr obj"
  using deserialize_written [OF assms, of fields] find_written complete
  by (simp add: struct_serialize_def struct_deserialize_def serialize_fields_object)

end

end
