(* ===== verification/Validator.thy ===== *)
theory Validator
  imports Json_Output
begin

text \<open>
  Schema validation of JSON-RPC parameters and results, \<open>native/c/server/validator.hpp\<close> and
  \<open>validator.cpp\<close>, and its equivalence with a description of the values a schema admits.
\<close>

section \<open>Schemas\<close>

datatype field_type = TYPE_BOOL | TYPE_NUMBER | TYPE_STRING | TYPE_ARRAY | TYPE_OBJECT | TYPE_ANY

text \<open>A null \<open>nested_schema\<close> pointer is \<^const>\<open>None\<close>; the field count is the length of the list.\<close>

datatype field_descriptor =
  FieldDescriptor (fd_name: string) (fd_type: field_type) (fd_required: bool) (fd_array_element_type: field_type)
    (fd_nested_schema: "field_descriptor list option")

datatype validation_result = Validation_Success | Validation_Error string

section \<open>Validation\<close>

fun check_type :: "'d json \<Rightarrow> field_type \<Rightarrow> bool" where
  "check_type v TYPE_BOOL = json_is_bool v"
| "check_type v TYPE_NUMBER = (json_is_integer v \<or> json_is_double v)"
| "check_type v TYPE_STRING = json_is_string v"
| "check_type v TYPE_ARRAY = json_is_array v"
| "check_type v TYPE_OBJECT = json_is_object v"
| "check_type v TYPE_ANY = True"

fun field_type_name :: "field_type \<Rightarrow> string" where
  "field_type_name TYPE_BOOL = ''boolean''"
| "field_type_name TYPE_NUMBER = ''number''"
| "field_type_name TYPE_STRING = ''string''"
| "field_type_name TYPE_ARRAY = ''array''"
| "field_type_name TYPE_OBJECT = ''object''"
| "field_type_name TYPE_ANY = ''any''"

fun actual_type_name :: "'d json \<Rightarrow> string" where
  "actual_type_name JNull = ''null''"
| "actual_type_name (JBool b) = ''boolean''"
| "actual_type_name (JInteger i) = ''number''"
| "actual_type_name (JDouble d) = ''number''"
| "actual_type_name (JString s) = ''string''"
| "actual_type_name (JArray a) = ''array''"
| "actual_type_name (JObject m) = ''object''"

definition get_field_path :: "string \<Rightarrow> string \<Rightarrow> string" where
  "get_field_path parent_field name = (if parent_field = [] then name else parent_field @ ''.'' @ name)"

definition wrong_type :: "string \<Rightarrow> field_type \<Rightarrow> 'd json \<Rightarrow> validation_result" where
  "wrong_type path t v = Validation_Error (''Field '' @ [SQUOTE] @ path @ [SQUOTE] @ '' has wrong type. Expected '' @
     field_type_name t @ '', got '' @ actual_type_name v)"

definition too_deep :: validation_result where
  "too_deep = Validation_Error ''Nested schemas beyond 1 level deep are not supported''"

text \<open>The check for unknown fields at the end: the first key, in order, that no field of the schema has.\<close>

definition check_unknown :: "bool \<Rightarrow> string \<Rightarrow> field_descriptor list \<Rightarrow> (string \<times> 'd json) list \<Rightarrow> validation_result" where
  "check_unknown allow_unknown_fields parent_field schema obj =
     (if allow_unknown_fields then Validation_Success
      else case List.find (\<lambda>(k, _). k \<notin> fd_name ` set schema) obj of
        None \<Rightarrow> Validation_Success
      | Some (k, _) \<Rightarrow> Validation_Error (''Unknown field: '' @ get_field_path parent_field k))"

definition and_then :: "validation_result \<Rightarrow> validation_result \<Rightarrow> validation_result" where
  "and_then r r' = (case r of Validation_Success \<Rightarrow> r' | Validation_Error m \<Rightarrow> Validation_Error m)"

lemma and_then_cong [fundef_cong]:
  "r = s \<Longrightarrow> (s = Validation_Success \<Longrightarrow> r' = s') \<Longrightarrow> and_then r r' = and_then s s'"
  by (cases s) (simp_all add: and_then_def)

lemma and_then_simps [simp]:
  "and_then Validation_Success r = r" "and_then (Validation_Error m) r = Validation_Error m"
  "and_then r s = Validation_Success \<longleftrightarrow> r = Validation_Success \<and> s = Validation_Success"
  by (cases r; simp add: and_then_def)+

text \<open>
  The loop over the fields of the schema. The recursive calls of \<open>validate_schema\<close> for a nested object
  and for the first element of an array are written out: the value, an object by then, goes through the
  same loop and the check for unknown fields.
\<close>

fun validate_fields ::
    "bool \<Rightarrow> string \<Rightarrow> (string \<times> 'd json) list \<Rightarrow> field_descriptor list \<Rightarrow> validation_result" where
  "validate_fields allow parent_field obj [] = Validation_Success"
| "validate_fields allow parent_field obj (FieldDescriptor name ty required elem nested # fs) =
     and_then
       (case map_find obj name of
          None \<Rightarrow> if required then Validation_Error (''Missing required field: '' @ get_field_path parent_field name)
                 else Validation_Success
        | Some v \<Rightarrow>
            if json_is_null v \<and> \<not> required then Validation_Success
            else if \<not> check_type v ty then wrong_type (get_field_path parent_field name) ty v
            else and_then
              (if ty = TYPE_OBJECT then
                 (case nested of
                    None \<Rightarrow> Validation_Success
                  | Some ns \<Rightarrow>
                      if parent_field \<noteq> [] then too_deep
                      else (case v of
                         JObject o' \<Rightarrow> and_then (validate_fields allow name o' ns) (check_unknown allow name ns o')
                       | _ \<Rightarrow> Validation_Error ''Parameters must be an object''))
               else Validation_Success)
              (if ty = TYPE_ARRAY \<and> elem \<noteq> TYPE_ANY then
                 (case v of
                    JArray (w # ws) \<Rightarrow>
                      if \<not> check_type w elem then wrong_type (get_field_path parent_field name @ ''[0]'') elem w
                      else if elem = TYPE_OBJECT then
                        (case nested of
                           None \<Rightarrow> Validation_Success
                         | Some ns \<Rightarrow>
                             if parent_field \<noteq> [] then too_deep
                             else (case w of
                                JObject o' \<Rightarrow>
                                  and_then (validate_fields allow (name @ ''[0]'') o' ns) (check_unknown allow (name @ ''[0]'') ns o')
                              | _ \<Rightarrow> Validation_Error ''Parameters must be an object''))
                      else Validation_Success
                  | _ \<Rightarrow> Validation_Success)
               else Validation_Success))
       (validate_fields allow parent_field obj fs)"

definition validate_schema :: "'d json \<Rightarrow> field_descriptor list \<Rightarrow> bool \<Rightarrow> string \<Rightarrow> validation_result" where
  "validate_schema params schema allow_unknown_fields parent_field =
     (case params of
        JObject obj \<Rightarrow>
          and_then (validate_fields allow_unknown_fields parent_field obj schema)
            (check_unknown allow_unknown_fields parent_field schema obj)
      | _ \<Rightarrow> Validation_Error ''Parameters must be an object'')"

section \<open>What a schema admits\<close>

text \<open>
  The values a field admits: null if it is optional, else a value of its type, with a nested object, or
  the first element of an array of objects, as its schema says.
\<close>

fun admits :: "bool \<Rightarrow> field_descriptor \<Rightarrow> 'd json \<Rightarrow> bool" where
  "admits allow (FieldDescriptor name ty required elem nested) v \<longleftrightarrow>
     json_is_null v \<and> \<not> required \<or>
     check_type v ty \<and>
     (ty = TYPE_ARRAY \<and> elem \<noteq> TYPE_ANY \<longrightarrow> (\<forall>w ws. v = JArray (w # ws) \<longrightarrow> check_type w elem)) \<and>
     (\<forall>ns obj. nested = Some ns \<longrightarrow>
        ty = TYPE_OBJECT \<and> v = JObject obj \<or> ty = TYPE_ARRAY \<and> elem = TYPE_OBJECT \<and> (\<exists>ws. v = JArray (JObject obj # ws)) \<longrightarrow>
        (\<forall>f \<in> set ns. case map_find obj (fd_name f) of None \<Rightarrow> \<not> fd_required f | Some w \<Rightarrow> admits allow f w) \<and>
        (allow \<or> fst ` set obj \<subseteq> fd_name ` set ns))"

definition admits_object :: "bool \<Rightarrow> field_descriptor list \<Rightarrow> (string \<times> 'd json) list \<Rightarrow> bool" where
  "admits_object allow schema obj \<longleftrightarrow>
     (\<forall>f \<in> set schema. case map_find obj (fd_name f) of None \<Rightarrow> \<not> fd_required f | Some v \<Rightarrow> admits allow f v) \<and>
     (allow \<or> fst ` set obj \<subseteq> fd_name ` set schema)"

text \<open>Schemas as the registration macros are used: named fields, nested at most once.\<close>

definition flat :: "field_descriptor list \<Rightarrow> bool" where
  "flat schema \<longleftrightarrow> (\<forall>f \<in> set schema. fd_nested_schema f = None)"

definition schema_ok :: "field_descriptor list \<Rightarrow> bool" where
  "schema_ok schema \<longleftrightarrow>
     (\<forall>f \<in> set schema. fd_name f \<noteq> [] \<and> (case fd_nested_schema f of None \<Rightarrow> True | Some ns \<Rightarrow> flat ns))"

text \<open>The request schema of a listing: a required string and an optional number.\<close>

definition list_schema :: "field_descriptor list" where
  "list_schema = [FieldDescriptor ''pattern'' TYPE_STRING True TYPE_ANY None, FieldDescriptor ''maxItems'' TYPE_NUMBER False TYPE_ANY None]"

lemma check_unknown_success:
  "check_unknown allow parent schema obj = Validation_Success \<longleftrightarrow> allow \<or> fst ` set obj \<subseteq> fd_name ` set schema"
proof -
  have "List.find (\<lambda>(k, _). k \<notin> fd_name ` set schema) obj = None \<longleftrightarrow> fst ` set obj \<subseteq> fd_name ` set schema"
    by (auto simp: find_None_iff)
  then show ?thesis
    by (auto simp: check_unknown_def split: option.splits prod.splits)
qed

lemma wrong_type_not_success [simp]: "wrong_type p t v \<noteq> Validation_Success" "too_deep \<noteq> Validation_Success"
  by (simp_all add: wrong_type_def too_deep_def)

lemma check_type_cases:
  "check_type v TYPE_OBJECT \<longleftrightarrow> (\<exists>obj. v = JObject obj)" "check_type v TYPE_ARRAY \<longleftrightarrow> (\<exists>ws. v = JArray ws)"
  by (cases v; simp)+

lemma validate_flat:
  "flat fs \<Longrightarrow> validate_fields allow parent obj fs = Validation_Success \<longleftrightarrow>
     (\<forall>f \<in> set fs. case map_find obj (fd_name f) of None \<Rightarrow> \<not> fd_required f | Some v \<Rightarrow> admits allow f v)"
proof (induction fs)
  case (Cons f fs)
  obtain name ty required elem nested where f: "f = FieldDescriptor name ty required elem nested" by (cases f)
  have "flat fs" "nested = None" using Cons.prems by (simp_all add: flat_def f)
  with Cons.IH show ?case
    by (auto simp: f check_type_cases split: option.splits json.splits list.splits if_splits)
qed simp

lemma validate_nested:
  assumes "flat ns"
  shows "and_then (validate_fields allow parent obj ns) (check_unknown allow parent ns obj) = Validation_Success \<longleftrightarrow>
    admits_object allow ns obj"
  by (simp add: validate_flat [OF assms] check_unknown_success admits_object_def)

lemma admits_nested:
  "admits allow (FieldDescriptor name ty required elem (Some ns)) v \<longleftrightarrow>
     json_is_null v \<and> \<not> required \<or>
     check_type v ty \<and>
     (ty = TYPE_ARRAY \<and> elem \<noteq> TYPE_ANY \<longrightarrow> (\<forall>w ws. v = JArray (w # ws) \<longrightarrow> check_type w elem)) \<and>
     (\<forall>obj. ty = TYPE_OBJECT \<and> v = JObject obj \<longrightarrow> admits_object allow ns obj) \<and>
     (\<forall>obj ws. ty = TYPE_ARRAY \<and> elem = TYPE_OBJECT \<and> v = JArray (JObject obj # ws) \<longrightarrow> admits_object allow ns obj)"
  unfolding admits.simps admits_object_def [symmetric] by auto

lemma and_then_right: "and_then r Validation_Success = r"
  by (cases r) simp_all

lemma validate_field_nested:
  assumes "flat ns" and "name \<noteq> []"
  shows "validate_fields allow [] obj [FieldDescriptor name ty required elem (Some ns)] = Validation_Success \<longleftrightarrow>
    (case map_find obj name of None \<Rightarrow> \<not> required | Some v \<Rightarrow> admits allow (FieldDescriptor name ty required elem (Some ns)) v)"
proof (cases "map_find obj name")
  case (Some v)
  note n = validate_nested [OF assms(1)]
  consider (obj) o' where "ty = TYPE_OBJECT" "v = JObject o'" | (arr) w ws where "ty = TYPE_ARRAY" "v = JArray (w # ws)"
    | (other) "ty = TYPE_OBJECT \<longrightarrow> \<not> json_is_object v" "ty = TYPE_ARRAY \<longrightarrow> \<not> json_is_array v \<or> v = JArray []"
    by (cases v; cases ty; auto; metis list.exhaust)
  then show ?thesis
  proof cases
    case obj
    with Some n [of allow name o'] assms(2) show ?thesis
      by (simp add: admits_nested and_then_right del: admits.simps and_then_simps(3))
  next
    case arr
    show ?thesis
    proof (cases w)
      case (JObject o')
      with arr Some n [of allow "name @ ''[0]''" o'] assms(2) show ?thesis
        by (cases elem) (simp_all add: admits_nested and_then_right del: admits.simps and_then_simps(3))
    qed (use arr Some assms(2) in \<open>cases elem; simp add: admits_nested del: admits.simps\<close>)+
  next
    case other
    with Some assms(2) show ?thesis
      by (cases v; cases ty) (auto simp: admits_nested simp del: admits.simps)
  qed
qed simp

lemma validate_fields_Cons:
  "validate_fields allow parent obj (f # fs) = and_then (validate_fields allow parent obj [f]) (validate_fields allow parent obj fs)"
  by (cases f) (simp add: and_then_def split: validation_result.split)

lemma validate_fields_success:
  "schema_ok fs \<Longrightarrow> validate_fields allow [] obj fs = Validation_Success \<longleftrightarrow>
     (\<forall>f \<in> set fs. case map_find obj (fd_name f) of None \<Rightarrow> \<not> fd_required f | Some v \<Rightarrow> admits allow f v)"
proof (induction fs)
  case (Cons f fs)
  obtain name ty required elem nested where f: "f = FieldDescriptor name ty required elem nested" by (cases f)
  have "validate_fields allow [] obj [f] = Validation_Success \<longleftrightarrow>
      (case map_find obj (fd_name f) of None \<Rightarrow> \<not> fd_required f | Some v \<Rightarrow> admits allow f v)"
  proof (cases nested)
    case None
    then have "flat [f]" by (simp add: flat_def f)
    from validate_flat [OF this, of allow "[]" obj] show ?thesis by (simp only: list.set ball_simps simp_thms)
  next
    case (Some ns)
    with Cons.prems have "flat ns" "name \<noteq> []" by (simp_all add: schema_ok_def f)
    then show ?thesis unfolding f field_descriptor.sel Some by (rule validate_field_nested)
  qed
  moreover have "schema_ok fs" using Cons.prems by (simp add: schema_ok_def)
  ultimately show ?case using Cons.IH unfolding validate_fields_Cons [of _ _ _ f fs] by simp
qed simp

text \<open>
  C6. A value passes validation exactly when it is an object in which every field the schema names is
  present unless optional and admitted, and which has no field the schema does not name unless unknown
  fields are allowed. The limit on nesting never rejects a schema that is nested once.
\<close>

theorem validate_schema_exact:
  assumes "schema_ok schema"
  shows "validate_schema v schema allow [] = Validation_Success \<longleftrightarrow>
    (\<exists>obj. v = JObject obj \<and> admits_object allow schema obj)"
proof (cases v)
  case (JObject obj)
  then show ?thesis
    by (simp add: validate_schema_def check_unknown_success admits_object_def validate_fields_success [OF assms])
qed (simp_all add: validate_schema_def)

theorem validate_schema_exact_witness:
  "admits_object False list_schema [(''pattern'', JString ''A'' :: unit json)] \<and>
   \<not> admits_object False list_schema [(''pattern'', JBool True :: unit json)]"
proof -
  have "schema_ok list_schema" by (simp add: schema_ok_def list_schema_def)
  note exact = validate_schema_exact [OF this]
  have "validate_schema (JObject [(''pattern'', JString ''A'' :: unit json)]) list_schema False [] = Validation_Success"
    "validate_schema (JObject [(''pattern'', JBool True :: unit json)]) list_schema False [] \<noteq> Validation_Success"
    by code_simp+
  then show ?thesis unfolding exact by simp
qed

end
