(* ===== verification/Rpc.thy ===== *)
theory Rpc
  imports Zjson_Struct Validator
begin

text \<open>
  The JSON-RPC server of \<open>native/c/server\<close>: the messages (\<open>rpcio.hpp\<close>), the context a handler works on
  (\<open>rpcio.cpp\<close>), the transforms of a command (\<open>builder.cpp\<close>), the table of commands (\<open>dispatcher.cpp\<close>)
  and the processing of a request (\<open>rpc_server.cpp\<close>).

  What the process has written and which system calls it made is kept in a record that every operation
  returns updated. The handlers are parameters; a handler returns a code or throws. The JSON and file
  system services and the environment are the fields of a record \<open>rpc_env\<close>. Locks are not needed: each
  access to shared state is one step, and \<open>Rpc_Server\<close> considers the steps in any order.
\<close>

section \<open>Messages\<close>

definition PARSE_ERROR :: int where "PARSE_ERROR = -32700"
definition METHOD_NOT_FOUND :: int where "METHOD_NOT_FOUND = -32601"
definition INVALID_PARAMS :: int where "INVALID_PARAMS = -32602"
definition INTERNAL_ERROR :: int where "INTERNAL_ERROR = -32603"
definition REQUEST_TIMEOUT :: int where "REQUEST_TIMEOUT = -32001"

record 'd rpc_notification =
  nt_jsonrpc :: string
  nt_method :: string
  nt_params :: "'d json option"

record 'd rpc_request = "'d rpc_notification" +
  rq_id :: int

record 'd error_details =
  ed_code :: int
  ed_message :: string
  ed_data :: "'d json option"

record 'd rpc_response =
  rs_jsonrpc :: string
  rs_result :: "'d json option"
  rs_error :: "'d error_details option"
  rs_id :: "int option"

definition notification_fields :: "('d rpc_notification, 'd) field list" where
  "notification_fields =
     [mk_field ''jsonrpc'' nt_jsonrpc (\<lambda>x r. r\<lparr>nt_jsonrpc := x\<rparr>) string_codec,
      mk_field ''method'' nt_method (\<lambda>x r. r\<lparr>nt_method := x\<rparr>) string_codec,
      mk_field ''params'' nt_params (\<lambda>x r. r\<lparr>nt_params := x\<rparr>) (optional_codec value_codec)]"

definition request_fields :: "'d dbl_ops \<Rightarrow> ('d rpc_request, 'd) field list" where
  "request_fields dbl =
     [mk_field ''jsonrpc'' nt_jsonrpc (\<lambda>x r. r\<lparr>nt_jsonrpc := x\<rparr>) string_codec,
      mk_field ''method'' nt_method (\<lambda>x r. r\<lparr>nt_method := x\<rparr>) string_codec,
      mk_field ''params'' nt_params (\<lambda>x r. r\<lparr>nt_params := x\<rparr>) (optional_codec value_codec),
      mk_field ''id'' rq_id (\<lambda>x r. r\<lparr>rq_id := x\<rparr>) (int_codec dbl)]"

definition error_fields :: "'d dbl_ops \<Rightarrow> ('d error_details, 'd) field list" where
  "error_fields dbl =
     [mk_field ''code'' ed_code (\<lambda>x r. r\<lparr>ed_code := x\<rparr>) (int_codec dbl),
      mk_field ''message'' ed_message (\<lambda>x r. r\<lparr>ed_message := x\<rparr>) string_codec,
      mk_field ''data'' ed_data (\<lambda>x r. r\<lparr>ed_data := x\<rparr>) (optional_codec value_codec)]"

definition request0 :: "'d rpc_request" where
  "request0 = \<lparr>nt_jsonrpc = [], nt_method = [], nt_params = None, rq_id = 0\<rparr>"

definition error0 :: "'d error_details" where
  "error0 = \<lparr>ed_code = 0, ed_message = [], ed_data = None\<rparr>"

definition response0 :: "'d rpc_response" where
  "response0 = \<lparr>rs_jsonrpc = [], rs_result = None, rs_error = None, rs_id = None\<rparr>"

text \<open>
  The traits the macro generates for \<open>ErrorDetails\<close>. Writing its fields into an object does not fail, so
  the value for a failure is never used.
\<close>

definition error_codec :: "'d dbl_ops \<Rightarrow> ('d error_details, 'd) codec" where
  "error_codec dbl =
     \<lparr>cd_ser = (\<lambda>e. case struct_serialize CaseNone (error_fields dbl) e of Inr v \<Rightarrow> v | Inl _ \<Rightarrow> JNull),
      cd_deser = struct_deserialize CaseNone False (error_fields dbl) error0,
      cd_optional = False, cd_has_value = (\<lambda>_. True), cd_empty = error0\<rparr>"

definition response_fields :: "'d dbl_ops \<Rightarrow> ('d rpc_response, 'd) field list" where
  "response_fields dbl =
     [mk_field ''jsonrpc'' rs_jsonrpc (\<lambda>x r. r\<lparr>rs_jsonrpc := x\<rparr>) string_codec,
      skip_serializing_if_none (mk_field ''result'' rs_result (\<lambda>x r. r\<lparr>rs_result := x\<rparr>) (optional_codec value_codec)),
      skip_serializing_if_none (mk_field ''error'' rs_error (\<lambda>x r. r\<lparr>rs_error := x\<rparr>) (optional_codec (error_codec dbl))),
      mk_field ''id'' rs_id (\<lambda>x r. r\<lparr>rs_id := x\<rparr>) (optional_codec (int_codec dbl))]"

definition rpc_response_to_json :: "'d dbl_ops \<Rightarrow> 'd rpc_response \<Rightarrow> 'd json" where
  "rpc_response_to_json dbl r =
     (case struct_serialize CaseNone (response_fields dbl) r of Inr v \<Rightarrow> v | Inl _ \<Rightarrow> JObject [])"

definition error_details_to_json :: "'d dbl_ops \<Rightarrow> 'd error_details \<Rightarrow> 'd json" where
  "error_details_to_json dbl e =
     (case struct_serialize CaseNone (error_fields dbl) e of Inr v \<Rightarrow> v | Inl _ \<Rightarrow> JObject [])"

section \<open>Environment and state\<close>

record ('p, 'h, 'd) rpc_env =
  re_services :: "('p, 'h) hwtj"
  re_fp :: "'d fp_ops"
  re_dbl :: "'d dbl_ops"
  re_tmpdir :: "string option"
  re_euid :: nat
  re_pid :: nat
  re_unlink :: "string \<Rightarrow> int"
  re_mkfifo :: "string \<Rightarrow> int"

definition ENOENT :: int where "ENOENT = 129"

datatype os_call = Unlink string | Mkfifo string

text \<open>
  The lines written to the two streams, in order and with the stream they went to; the system calls made;
  the identifiers of abandoned requests, as a set and in the order in which they were added.
\<close>

datatype out_stream = Cout | Cerr

record rpc_world =
  rw_output :: "(out_stream \<times> string) list"
  rw_os :: "os_call list"
  rw_abandoned_ids :: "int set"
  rw_abandoned_order :: "int list"

definition env_parse :: "('p, 'h, 'd) rpc_env \<Rightarrow> string \<Rightarrow> json_error + 'd json" where
  "env_parse e s = fst (from_str (re_fp e) (re_services e) s \<lparr>st_next = 0, st_blocks = []\<rparr>)"

definition parse_request :: "('p, 'h, 'd) rpc_env \<Rightarrow> string \<Rightarrow> json_error + 'd rpc_request" where
  "parse_request e s =
     bind_result (env_parse e s) (struct_deserialize CaseNone False (request_fields (re_dbl e)) request0)"

text \<open>\<open>parse_rpc_request\<close> and \<open>parse_rpc_request_from_json\<close>.\<close>

definition parse_rpc_request :: "('p, 'h, 'd) rpc_env \<Rightarrow> 'd json \<Rightarrow> 'd rpc_request result" where
  "parse_rpc_request e json =
     (if \<not> json_is_object json then Inl (Runtime_error ''JSON-RPC request must be an object'')
      else case struct_deserialize CaseNone False (request_fields (re_dbl e)) request0 json of
        Inl err \<Rightarrow> Inl (Runtime_error (''Failed to parse RPC request: '' @ je_message err))
      | Inr r \<Rightarrow> Inr r)"

definition env_print :: "('p, 'h, 'd) rpc_env \<Rightarrow> 'd json \<Rightarrow> json_error + string" where
  "env_print e v = json_to_string (re_dbl e) (re_services e) v"

definition serialize_json :: "('p, 'h, 'd) rpc_env \<Rightarrow> 'd json \<Rightarrow> bool \<Rightarrow> string result" where
  "serialize_json e v prettify =
     (case (if prettify then json_to_string_pretty (re_dbl e) (re_services e) v else env_print e v) of
        Inl err \<Rightarrow> Inl (Runtime_error (''Failed to serialize JSON: '' @ je_message err))
      | Inr s \<Rightarrow> Inr s)"

definition write_line :: "out_stream \<Rightarrow> string \<Rightarrow> rpc_world \<Rightarrow> rpc_world" where
  "write_line os s w = w\<lparr>rw_output := rw_output w @ [(os, s)]\<rparr>"

definition send_notification :: "('p, 'h, 'd) rpc_env \<Rightarrow> 'd rpc_notification \<Rightarrow> rpc_world \<Rightarrow> unit result \<times> rpc_world" where
  "send_notification e n w =
     (case struct_serialize CaseNone notification_fields n of
        Inl err \<Rightarrow> (Inl (Runtime_error (je_message err)), w)
      | Inr v \<Rightarrow>
          (case serialize_json e v False of
             Inl x \<Rightarrow> (Inl x, w)
           | Inr s \<Rightarrow> (Inr (), write_line Cout s w)))"

section \<open>The context of a request\<close>

record 'd middleware =
  mw_io :: "'d io"
  mw_command_path :: string
  mw_input :: string
  mw_pending :: "'d rpc_notification option"
  mw_large_data :: "string smap"

definition LARGE_DATA_THRESHOLD :: nat where
  "LARGE_DATA_THRESHOLD = 16 * 1024 * 1024"

definition mk_middleware :: "string \<Rightarrow> 'd argument_map \<Rightarrow> 'd middleware" where
  "mk_middleware command_path args =
     \<lparr>mw_io = io.truncate (mk_invocation_context
        \<lparr>ctx_command_path = command_path, ctx_args = args, ctx_passthrough_args = [], ctx_in_stream = True,
         ctx_out_stream = True, ctx_err_stream = True\<rparr>),
      mw_command_path = command_path, mw_input = [], mw_pending = None, mw_large_data = []\<rparr>"

definition set_input_content :: "string \<Rightarrow> 'd middleware \<Rightarrow> 'd middleware" where
  "set_input_content content ctx = ctx\<lparr>mw_input := content\<rparr>"

definition get_output_content :: "'d middleware \<Rightarrow> string" where
  "get_output_content ctx = io_out_text (mw_io ctx)"

definition get_error_content :: "'d middleware \<Rightarrow> string" where
  "get_error_content ctx = io_err_text (mw_io ctx)"

definition mw_args :: "'d middleware \<Rightarrow> 'd argument_map" where
  "mw_args ctx = io_args (mw_io ctx)"

definition set_args :: "'d argument_map \<Rightarrow> 'd middleware \<Rightarrow> 'd middleware" where
  "set_args a ctx = ctx\<lparr>mw_io := (mw_io ctx)\<lparr>io_args := a\<rparr>\<rparr>"

definition mw_errln :: "string \<Rightarrow> 'd middleware \<Rightarrow> 'd middleware" where
  "mw_errln s ctx = ctx\<lparr>mw_io := io_errln (Some s) (mw_io ctx)\<rparr>"

definition mw_err :: "string \<Rightarrow> 'd middleware \<Rightarrow> 'd middleware" where
  "mw_err s ctx = ctx\<lparr>mw_io := io_err (Some s) (mw_io ctx)\<rparr>"

definition set_pending_notification :: "'d rpc_notification \<Rightarrow> 'd middleware \<Rightarrow> 'd middleware" where
  "set_pending_notification n ctx = ctx\<lparr>mw_pending := Some n\<rparr>"

definition store_large_data :: "string \<Rightarrow> string \<Rightarrow> 'd middleware \<Rightarrow> 'd middleware" where
  "store_large_data field_name data ctx = ctx\<lparr>mw_large_data := map_set field_name data (mw_large_data ctx)\<rparr>"

text \<open>\<open>set_content_len\<close>; a pending notification is sent and then forgotten.\<close>

definition mw_set_content_len ::
    "('p, 'h, 'd) rpc_env \<Rightarrow> nat \<Rightarrow> 'd middleware \<Rightarrow> rpc_world \<Rightarrow> unit result \<times> 'd middleware \<times> rpc_world" where
  "mw_set_content_len e n ctx w =
     (let ctx1 = ctx\<lparr>mw_io := io_set_content_len n (mw_io ctx)\<rparr> in
      case mw_pending ctx1 of
        None \<Rightarrow> (Inr (), ctx1, w)
      | Some nt \<Rightarrow>
          let with_len = (case nt_params nt of
                 None \<Rightarrow> Inr nt
               | Some p \<Rightarrow> bind_result (json_add_to_object ''contentLen'' (json_of_uint64 (re_dbl e) (int n)) p)
                   (\<lambda>p'. Inr (nt\<lparr>nt_params := Some p'\<rparr>)))
          in (case with_len of
               Inl err \<Rightarrow> (Inl (Runtime_error (je_message err)), ctx1, w)
             | Inr nt' \<Rightarrow>
                 let ctx2 = ctx1\<lparr>mw_pending := Some nt'\<rparr> in
                 (case send_notification e nt' w of
                    (Inl x, w') \<Rightarrow> (Inl x, ctx2, w')
                  | (Inr _, w') \<Rightarrow> (Inr (), ctx2\<lparr>mw_pending := None\<rparr>, w'))))"

end
