(* ===== verification/Dispatcher.thy ===== *)
theory Dispatcher
  imports Rpc
begin

text \<open>
  The commands of the JSON-RPC server, \<open>native/c/server/builder.cpp\<close> and \<open>dispatcher.cpp\<close>: the builder
  with its transforms, their effect before and after the handler runs, and the table of commands.
\<close>

section \<open>Builders\<close>

datatype fifo_mode = GET | PUT

text \<open>\<open>ArgTransform\<close>: each kind with the members its constructor sets.\<close>

datatype 'd arg_transform =
    RenameArg string string
  | SetDefault string "'d argument"
  | WriteStdin string bool
  | ReadStdout string bool
  | HandleFifo string string fifo_mode bool
  | FlattenObj string

text \<open>How a handler ends: it returns, throws a \<open>std::exception\<close> or throws something else.\<close>

datatype outcome = Returned int | Threw string | Threw_other

type_synonym 'd handler = "'d middleware \<Rightarrow> rpc_world \<Rightarrow> outcome \<times> 'd middleware \<times> rpc_world"

record 'd command_builder =
  cb_handler :: "'d handler option"
  cb_transforms :: "'d arg_transform list"
  cb_request_schema :: "field_descriptor list option"
  cb_response_schema :: "field_descriptor list option"

definition mk_builder :: "'d handler option \<Rightarrow> 'd command_builder" where
  "mk_builder h = \<lparr>cb_handler = h, cb_transforms = [], cb_request_schema = None, cb_response_schema = None\<rparr>"

definition add_transform :: "'d arg_transform \<Rightarrow> 'd command_builder \<Rightarrow> 'd command_builder" where
  "add_transform t b = b\<lparr>cb_transforms := cb_transforms b @ [t]\<rparr>"

definition rename_arg :: "string \<Rightarrow> string \<Rightarrow> 'd command_builder \<Rightarrow> 'd command_builder" where
  "rename_arg src dst b = add_transform (RenameArg src dst) b"

definition set_default :: "string \<Rightarrow> 'd value_kind \<Rightarrow> 'd command_builder \<Rightarrow> 'd command_builder" where
  "set_default arg_name v b = add_transform (SetDefault arg_name (mk_argument v)) b"

definition handle_fifo :: "string \<Rightarrow> string \<Rightarrow> fifo_mode \<Rightarrow> bool \<Rightarrow> 'd command_builder \<Rightarrow> 'd command_builder" where
  "handle_fifo rpc_id_param arg_name mode defer_arg b = add_transform (HandleFifo rpc_id_param arg_name mode defer_arg) b"

definition read_stdout :: "string \<Rightarrow> bool \<Rightarrow> 'd command_builder \<Rightarrow> 'd command_builder" where
  "read_stdout arg_name b64_encode b = add_transform (ReadStdout arg_name b64_encode) b"

definition write_stdin :: "string \<Rightarrow> bool \<Rightarrow> 'd command_builder \<Rightarrow> 'd command_builder" where
  "write_stdin arg_name b64_decode b = add_transform (WriteStdin arg_name b64_decode) b"

definition flatten_obj :: "string \<Rightarrow> 'd command_builder \<Rightarrow> 'd command_builder" where
  "flatten_obj arg_name b = add_transform (FlattenObj arg_name) b"

definition builder_validate ::
    "field_descriptor list \<Rightarrow> field_descriptor list \<Rightarrow> 'd command_builder \<Rightarrow> 'd command_builder" where
  "builder_validate request response b = b\<lparr>cb_request_schema := Some request, cb_response_schema := Some response\<rparr>"

section \<open>Input transforms\<close>

definition camel_case_to_kebab_case :: "string \<Rightarrow> string" where
  "camel_case_to_kebab_case input =
     concat (map (\<lambda>(i, c). if isupper c then (if i > 0 then ''-'' else []) @ [tolower c] else [c])
       (zip [0..<length input] input))"

definition map_erase :: "string \<Rightarrow> 'v smap \<Rightarrow> 'v smap" where
  "map_erase k m = filter (\<lambda>(k', _). k' \<noteq> k) m"

definition transform_rename :: "string \<Rightarrow> string \<Rightarrow> 'd middleware \<Rightarrow> 'd middleware" where
  "transform_rename src dst ctx =
     (let kebab_name = camel_case_to_kebab_case src in
      case map_find (mw_args ctx) kebab_name of
        None \<Rightarrow> ctx
      | Some v \<Rightarrow> set_args (map_set dst v (map_erase kebab_name (mw_args ctx))) ctx)"

definition transform_default :: "string \<Rightarrow> 'd argument \<Rightarrow> 'd middleware \<Rightarrow> 'd middleware" where
  "transform_default arg_name v ctx =
     (if map_has (mw_args ctx) arg_name then ctx else set_args (map_set arg_name v (mw_args ctx)) ctx)"

text \<open>\<open>zbase64::decode\<close> on strings.\<close>

definition base64_decode_string :: "string \<Rightarrow> string result" where
  "base64_decode_string s = bind_result (decode (map ebcdic s)) (\<lambda>out. Inr (map unebcdic out))"

definition transform_stdin :: "string \<Rightarrow> bool \<Rightarrow> 'd middleware \<Rightarrow> 'd middleware" where
  "transform_stdin arg_name base64 ctx =
     (case map_find (mw_args ctx) arg_name of
        None \<Rightarrow> ctx
      | Some a \<Rightarrow>
          let data = get_string_value a [] in
          (case (if base64 then base64_decode_string data else Inr data) of
             Inl x \<Rightarrow> mw_errln (''Failed to process WriteStdin transform: '' @ exn_what x) ctx
           | Inr d \<Rightarrow> set_args (map_erase arg_name (mw_args ctx)) (set_input_content d ctx)))"

text \<open>The conversion of a property; arrays, objects and null are left out.\<close>

definition argument_of_json :: "'d dbl_ops \<Rightarrow> 'd json \<Rightarrow> json_error + 'd argument option" where
  "argument_of_json dbl v =
     (case v of
        JBool b \<Rightarrow> Inr (Some (mk_argument (ValueBool b)))
      | JInteger i \<Rightarrow> Inr (Some (mk_argument (ValueInt i)))
      | JDouble d \<Rightarrow> bind_result (json_as_double dbl (JDouble d)) (\<lambda>x. Inr (Some (mk_argument (ValueDouble x))))
      | JString s \<Rightarrow> Inr (Some (mk_argument (ValueString s)))
      | _ \<Rightarrow> Inr None)"

text \<open>The loop over the properties; an exception leaves the arguments assigned so far.\<close>

fun flatten_into :: "'d dbl_ops \<Rightarrow> (string \<times> 'd json) list \<Rightarrow> 'd argument_map \<Rightarrow> json_error option \<times> 'd argument_map" where
  "flatten_into dbl [] args = (None, args)"
| "flatten_into dbl ((key, v) # kvs) args =
     (case argument_of_json dbl v of
        Inl e \<Rightarrow> (Some e, args)
      | Inr None \<Rightarrow> flatten_into dbl kvs args
      | Inr (Some a) \<Rightarrow> flatten_into dbl kvs (map_set key a args))"

definition transform_flatten :: "('p, 'h, 'd) rpc_env \<Rightarrow> string \<Rightarrow> 'd middleware \<Rightarrow> 'd middleware" where
  "transform_flatten e arg_name ctx =
     (case map_find (mw_args ctx) arg_name of
        None \<Rightarrow> ctx
      | Some a \<Rightarrow>
          (case env_parse e (get_string_value a []) of
             Inl err \<Rightarrow> mw_errln (''Failed to parse JSON for FlattenObj transform: '' @ je_message err) ctx
           | Inr (JObject m) \<Rightarrow>
               (case flatten_into (re_dbl e) m (mw_args ctx) of
                  (Some err, args) \<Rightarrow> mw_errln (''Failed to process FlattenObj transform: '' @ je_message err) (set_args args ctx)
                | (None, args) \<Rightarrow> set_args (map_erase arg_name args) ctx)
           | Inr _ \<Rightarrow> mw_errln ''FlattenObj transform requires a JSON object'' ctx))"

definition pipe_path :: "('p, 'h, 'd) rpc_env \<Rightarrow> int \<Rightarrow> string" where
  "pipe_path e stream_id =
     (case re_tmpdir e of None \<Rightarrow> ''/tmp'' | Some d \<Rightarrow> if c_str d = [] then ''/tmp'' else c_str d) @
     ''/zowex_'' @ show_nat (re_euid e) @ ''_'' @ show_nat (re_pid e) @ ''_'' @ show_int stream_id @ ''_fifo''"

text \<open>\<open>static_cast<int>\<close> of a \<open>long long\<close>.\<close>

definition int32 :: "int \<Rightarrow> int" where
  "int32 n = (n + 2 ^ 31) mod 2 ^ 32 - 2 ^ 31"

definition fifo_notification :: "int \<Rightarrow> string \<Rightarrow> fifo_mode \<Rightarrow> 'd rpc_notification" where
  "fifo_notification stream_id path mode =
     \<lparr>nt_jsonrpc = ''2.0'', nt_method = (if mode = GET then ''receiveStream'' else ''sendStream''),
      nt_params = Some (JObject (map_set ''pipePath'' (JString path) (map_set ''id'' (JInteger (int32 stream_id)) [])))\<rparr>"

definition log_call :: "os_call \<Rightarrow> rpc_world \<Rightarrow> rpc_world" where
  "log_call c w = w\<lparr>rw_os := rw_os w @ [c]\<rparr>"

definition transform_fifo ::
    "('p, 'h, 'd) rpc_env \<Rightarrow> string \<Rightarrow> string \<Rightarrow> fifo_mode \<Rightarrow> bool \<Rightarrow> 'd middleware \<Rightarrow> rpc_world \<Rightarrow> 'd middleware \<times> rpc_world" where
  "transform_fifo e rpc_id_param arg_name mode defer_arg ctx w =
     (case map_find (mw_args ctx) rpc_id_param of
        None \<Rightarrow> (ctx, w)
      | Some a \<Rightarrow>
          (case get_int a of
             None \<Rightarrow> (mw_errln ''HandleFifo: RPC ID argument is not an integer'' ctx, w)
           | Some stream_id \<Rightarrow>
               let path = pipe_path e stream_id;
                   unlinked = re_unlink e path;
                   w1 = log_call (Unlink path) w
               in if unlinked \<noteq> 0 \<and> unlinked \<noteq> ENOENT
                  then (mw_errln (''Failed to delete existing FIFO pipe: '' @ path @ '', errno: '' @ show_int unlinked) ctx, w1)
                  else let made = re_mkfifo e path; w2 = log_call (Mkfifo path) w1 in
                    if made \<noteq> 0
                    then (mw_errln (''Failed to create FIFO pipe: '' @ path @ '', errno: '' @ show_int made) ctx, w2)
                    else let ctx1 = set_args (map_set arg_name (mk_argument (ValueString path)) (mw_args ctx)) ctx;
                             nt = fifo_notification stream_id path mode
                         in if defer_arg then (set_pending_notification nt ctx1, w2)
                            else (case send_notification e nt w2 of
                                    (Inl x, w3) \<Rightarrow> (mw_errln (''Failed to process HandleFifo transform: '' @ exn_what x) ctx1, w3)
                                  | (Inr _, w3) \<Rightarrow> (ctx1, w3))))"

fun apply_input_transform ::
    "('p, 'h, 'd) rpc_env \<Rightarrow> 'd arg_transform \<Rightarrow> 'd middleware \<times> rpc_world \<Rightarrow> 'd middleware \<times> rpc_world" where
  "apply_input_transform e (RenameArg src dst) (ctx, w) = (transform_rename src dst ctx, w)"
| "apply_input_transform e (SetDefault n v) (ctx, w) = (transform_default n v ctx, w)"
| "apply_input_transform e (WriteStdin n b) (ctx, w) = (transform_stdin n b ctx, w)"
| "apply_input_transform e (FlattenObj n) (ctx, w) = (transform_flatten e n ctx, w)"
| "apply_input_transform e (HandleFifo r n m d) (ctx, w) = transform_fifo e r n m d ctx w"
| "apply_input_transform e (ReadStdout n b) (ctx, w) = (ctx, w)"

definition apply_input_transforms ::
    "('p, 'h, 'd) rpc_env \<Rightarrow> 'd command_builder \<Rightarrow> 'd middleware \<times> rpc_world \<Rightarrow> 'd middleware \<times> rpc_world" where
  "apply_input_transforms e b s = fold (apply_input_transform e) (cb_transforms b) s"

section \<open>Output transforms\<close>

definition set_object :: "'d ast option \<Rightarrow> 'd middleware \<Rightarrow> 'd middleware" where
  "set_object n ctx = ctx\<lparr>mw_io := io_set_object n (mw_io ctx)\<rparr>"

definition object_set :: "string \<Rightarrow> string \<Rightarrow> 'd middleware \<Rightarrow> 'd middleware" where
  "object_set key s ctx =
     (case io_object (mw_io ctx) of
        Some (AstObject ob) \<Rightarrow> set_object (Some (AstObject (map_set key (Some (AstString s)) ob))) ctx
      | _ \<Rightarrow> ctx)"

definition transform_stdout :: "string \<Rightarrow> bool \<Rightarrow> 'd middleware \<Rightarrow> 'd middleware" where
  "transform_stdout arg_name base64 ctx =
     (let data = (if base64 then base64_encode_string (get_output_content ctx) else get_output_content ctx) in
      if length data \<ge> LARGE_DATA_THRESHOLD
      then (let ctx1 = object_set arg_name [] (store_large_data arg_name data ctx)
            in ctx1\<lparr>mw_io := (mw_io ctx1)\<lparr>io_out_text := []\<rparr>\<rparr>)
      else object_set arg_name data ctx)"

fun apply_output_transform ::
    "'d arg_transform \<Rightarrow> 'd middleware \<times> rpc_world \<Rightarrow> 'd middleware \<times> rpc_world" where
  "apply_output_transform (ReadStdout n b) (ctx, w) = (transform_stdout n b ctx, w)"
| "apply_output_transform (HandleFifo r n m d) (ctx, w) =
     (case map_find (mw_args ctx) n of
        None \<Rightarrow> (ctx, w)
      | Some a \<Rightarrow> (ctx, log_call (Unlink (get_string_value a [])) w))"
| "apply_output_transform _ (ctx, w) = (ctx, w)"

definition ensure_object :: "'d middleware \<Rightarrow> 'd middleware" where
  "ensure_object ctx = (if io_object (mw_io ctx) = None then set_object (Some (AstObject [])) ctx else ctx)"

definition apply_output_transforms ::
    "'d command_builder \<Rightarrow> 'd middleware \<times> rpc_world \<Rightarrow> 'd middleware \<times> rpc_world" where
  "apply_output_transforms b s =
     (case s of (ctx, w) \<Rightarrow>
        let ctx1 = ensure_object ctx in
        (case io_object (mw_io ctx1) of
           Some (AstObject ob) \<Rightarrow> fold apply_output_transform (cb_transforms b) (ctx1, w)
         | _ \<Rightarrow> (ctx1, w)))"

section \<open>The table of commands\<close>

type_synonym 'd dispatcher = "'d command_builder smap"

definition register_command :: "string \<Rightarrow> 'd command_builder \<Rightarrow> 'd dispatcher \<Rightarrow> bool \<times> 'd dispatcher" where
  "register_command command_name b m =
     (if command_name = [] \<or> cb_handler b = None then (False, m)
      else if map_has m command_name then (False, m)
      else (True, map_set command_name b m))"

definition has_command :: "'d dispatcher \<Rightarrow> string \<Rightarrow> bool" where
  "has_command m command_name \<longleftrightarrow> map_has m command_name"

definition get_registered_commands :: "'d dispatcher \<Rightarrow> string list" where
  "get_registered_commands m = fold key_insert (map fst m) []"

definition unregister_command :: "string \<Rightarrow> 'd dispatcher \<Rightarrow> bool \<times> 'd dispatcher" where
  "unregister_command command_name m =
     (if map_has m command_name then (True, map_erase command_name m) else (False, m))"

definition dispatcher_clear :: "'d dispatcher \<Rightarrow> 'd dispatcher" where
  "dispatcher_clear m = []"

definition dispatch ::
    "('p, 'h, 'd) rpc_env \<Rightarrow> 'd dispatcher \<Rightarrow> string \<Rightarrow> 'd middleware \<times> rpc_world \<Rightarrow> int \<times> 'd middleware \<times> rpc_world" where
  "dispatch e m command_name s =
     (let (ctx, w) = s in
        case map_find m command_name of
          None \<Rightarrow> (METHOD_NOT_FOUND, mw_errln (''Command not found: '' @ command_name) ctx, w)
        | Some b \<Rightarrow>
            (case cb_handler b of
               None \<Rightarrow> (INTERNAL_ERROR, mw_errln ''Invalid command handler'' ctx, w)
             | Some handler \<Rightarrow>
                 (case apply_input_transforms e b (ctx, w) of (ctx1, w1) \<Rightarrow>
                    (case handler ctx1 w1 of
                       (Returned rc, ctx2, w2) \<Rightarrow> (rc, apply_output_transforms b (ctx2, w2))
                     | (Threw what, ctx2, w2) \<Rightarrow> (INTERNAL_ERROR, mw_errln what (mw_err ''Command execution failed: '' ctx2), w2)
                     | (Threw_other, ctx2, w2) \<Rightarrow> (INTERNAL_ERROR, mw_errln ''Command execution failed with unknown error'' ctx2, w2)))))"

end
