(* ===== verification/Rpc_Server.thy ===== *)
theory Rpc_Server
  imports Dispatcher
begin

text \<open>
  The processing of a JSON-RPC request, \<open>native/c/server/rpc_server.cpp\<close>: parsing, validation, the
  conversion of parameters to arguments, dispatch, the response, and the list of requests that were
  answered with a timeout and whose late response is discarded.
\<close>

section \<open>Abandoned requests\<close>

definition kMaxAbandonedIds :: nat where "kMaxAbandonedIds = 64"

definition is_abandoned :: "int \<Rightarrow> rpc_world \<Rightarrow> bool" where
  "is_abandoned request_id w \<longleftrightarrow> (if request_id < 0 then False else request_id \<in> rw_abandoned_ids w)"

definition clear_abandoned :: "int \<Rightarrow> rpc_world \<Rightarrow> rpc_world" where
  "clear_abandoned request_id w =
     (if request_id < 0 then w
      else if request_id \<notin> rw_abandoned_ids w then w
      else w\<lparr>rw_abandoned_ids := rw_abandoned_ids w - {request_id},
             rw_abandoned_order := remove1 request_id (rw_abandoned_order w)\<rparr>)"

text \<open>The loop that drops the oldest identifiers.\<close>

fun trim_abandoned :: "int list \<Rightarrow> int set \<Rightarrow> int set \<times> int list" where
  "trim_abandoned [] ids = (ids, [])"
| "trim_abandoned (i # order) ids =
     (if length (i # order) > kMaxAbandonedIds then trim_abandoned order (ids - {i}) else (ids, i # order))"

definition mark_abandoned :: "int \<Rightarrow> rpc_world \<Rightarrow> rpc_world" where
  "mark_abandoned request_id w =
     (if request_id < 0 then w
      else if request_id \<in> rw_abandoned_ids w then w
      else case trim_abandoned (rw_abandoned_order w @ [request_id]) (insert request_id (rw_abandoned_ids w)) of
        (ids, order) \<Rightarrow> w\<lparr>rw_abandoned_ids := ids, rw_abandoned_order := order\<rparr>)"

section \<open>Responses\<close>

fun find_substring :: "string \<Rightarrow> string \<Rightarrow> nat option" where
  "find_substring pat s =
     (if take (length pat) s = pat then Some 0
      else case s of [] \<Rightarrow> None | _ # t \<Rightarrow> map_option Suc (find_substring pat t))"

declare find_substring.simps [simp del]

definition add_large_data_to_json :: "string \<Rightarrow> string \<times> string \<Rightarrow> string" where
  "add_large_data_to_json json p =
     (case p of (field_name, data) \<Rightarrow>
        let search_pattern = [DQUOTE] @ field_name @ [DQUOTE] @ '':'' @ [DQUOTE, DQUOTE] in
        (case find_substring search_pattern json of
           None \<Rightarrow> json
         | Some pos \<Rightarrow>
             take pos json @ ([DQUOTE] @ field_name @ [DQUOTE] @ '':'' @ [DQUOTE] @ data @ [DQUOTE]) @
             drop (pos + length search_pattern) json))"

text \<open>
  An error that carries data that is not a string is serialized for the log as well, which can throw.
\<close>

definition print_response ::
    "('p, 'h, 'd) rpc_env \<Rightarrow> 'd rpc_response \<Rightarrow> string smap \<Rightarrow> rpc_world \<Rightarrow> unit result \<times> rpc_world" where
  "print_response e r large w =
     (if (case rs_id r of Some i \<Rightarrow> is_abandoned i w | None \<Rightarrow> False) then (Inr (), w)
      else
        let logged = (case rs_error r of
               None \<Rightarrow> Inr []
             | Some err \<Rightarrow>
                 (case ed_data err of
                    None \<Rightarrow> Inr []
                  | Some (JString s) \<Rightarrow> Inr s
                  | Some v \<Rightarrow> serialize_json e v False))
        in (case logged of
              Inl x \<Rightarrow> (Inl x, w)
            | Inr _ \<Rightarrow>
                (case serialize_json e (rpc_response_to_json (re_dbl e) r) False of
                   Inl x \<Rightarrow> (Inl x, w)
                 | Inr s \<Rightarrow>
                     (Inr (), write_line (if rs_error r = None then Cout else Cerr) (foldl add_large_data_to_json s large) w))))"

definition error_response :: "int \<Rightarrow> int \<Rightarrow> string \<Rightarrow> 'd json option \<Rightarrow> 'd rpc_response" where
  "error_response request_id code message data =
     \<lparr>rs_jsonrpc = ''2.0'', rs_result = None, rs_error = Some \<lparr>ed_code = code, ed_message = message, ed_data = data\<rparr>,
      rs_id = (if request_id = -1 then None else Some request_id)\<rparr>"

definition print_error ::
    "('p, 'h, 'd) rpc_env \<Rightarrow> int \<Rightarrow> int \<Rightarrow> string \<Rightarrow> 'd json option \<Rightarrow> rpc_world \<Rightarrow> unit result \<times> rpc_world" where
  "print_error e request_id code message data w = print_response e (error_response request_id code message data) [] w"

section \<open>Requests\<close>

definition process_error_output :: "string \<Rightarrow> string \<times> string" where
  "process_error_output error_output =
     (case find_index (\<lambda>c. c = NL) error_output of
        Some newline_pos \<Rightarrow> (take newline_pos error_output, drop (newline_pos + 1) error_output)
      | None \<Rightarrow> (error_output, []))"

definition validate_json_with_schema :: "'d dispatcher \<Rightarrow> string \<Rightarrow> 'd json \<Rightarrow> bool \<Rightarrow> validation_result" where
  "validate_json_with_schema m method data is_request =
     (case map_find m method of
        None \<Rightarrow> Validation_Success
      | Some b \<Rightarrow>
          (case (if is_request then cb_request_schema b else cb_response_schema b) of
             None \<Rightarrow> Validation_Success
           | Some schema \<Rightarrow> validate_schema data schema is_request []))"

text \<open>A parameter that is null, an array or an object becomes its text, or the empty string.\<close>

definition param_argument :: "('p, 'h, 'd) rpc_env \<Rightarrow> 'd json \<Rightarrow> json_error + 'd argument" where
  "param_argument e v =
     (case v of
        JBool b \<Rightarrow> Inr (mk_argument (ValueBool b))
      | JInteger i \<Rightarrow> Inr (mk_argument (ValueInt i))
      | JDouble d \<Rightarrow> bind_result (json_as_double (re_dbl e) (JDouble d)) (\<lambda>x. Inr (mk_argument (ValueDouble x)))
      | JString s \<Rightarrow> Inr (mk_argument (ValueString s))
      | _ \<Rightarrow> Inr (mk_argument (ValueString (case env_print e v of Inr s \<Rightarrow> s | Inl _ \<Rightarrow> []))))"

fun params_into :: "('p, 'h, 'd) rpc_env \<Rightarrow> (string \<times> 'd json) list \<Rightarrow> 'd argument_map \<Rightarrow> json_error + 'd argument_map" where
  "params_into e [] args = Inr args"
| "params_into e ((key, v) # kvs) args =
     bind_result (param_argument e v) (\<lambda>a. params_into e kvs (map_set (camel_case_to_kebab_case key) a args))"

definition convert_json_params_to_argument_map :: "('p, 'h, 'd) rpc_env \<Rightarrow> 'd json \<Rightarrow> 'd argument_map result" where
  "convert_json_params_to_argument_map e params =
     (case params of
        JObject m \<Rightarrow> (case params_into e m [] of Inl err \<Rightarrow> Inl (Runtime_error (je_message err)) | Inr a \<Rightarrow> Inr a)
      | _ \<Rightarrow> Inl (Runtime_error ''Invalid parameters - must be an object''))"

definition convert_output_to_json :: "('p, 'h, 'd) rpc_env \<Rightarrow> string \<Rightarrow> 'd json" where
  "convert_output_to_json e output =
     (if output \<noteq> [] then (case env_parse e output of Inr v \<Rightarrow> v | Inl _ \<Rightarrow> JString output) else JObject [])"

text \<open>The branch for a return code that is not zero.\<close>

definition report_failure ::
    "('p, 'h, 'd) rpc_env \<Rightarrow> 'd rpc_request \<Rightarrow> int \<Rightarrow> 'd middleware \<Rightarrow> rpc_world \<Rightarrow> unit result \<times> rpc_world" where
  "report_failure e rq rc ctx w =
     (case process_error_output (get_error_content ctx) of (message, data) \<Rightarrow>
        let message' = (if message = [] then ''Command execution failed ('' @ nt_method rq @ '')'' else message) in
        (case io_object (mw_io ctx) of
           Some n \<Rightarrow>
             let n' = (case n of
                    AstObject ob \<Rightarrow> if data \<noteq> [] then AstObject (map_set ''details'' (Some (AstString data)) ob) else n
                  | _ \<Rightarrow> n)
             in print_error e (rq_id rq) rc message' (Some (ast_to_json (Some n'))) w
         | None \<Rightarrow> print_error e (rq_id rq) rc message' (if data = [] then None else Some (JString data)) w))"

text \<open>The branch for success.\<close>

definition success_response :: "int \<Rightarrow> 'd json \<Rightarrow> 'd rpc_response" where
  "success_response i v = \<lparr>rs_jsonrpc = ''2.0'', rs_result = Some v, rs_error = None, rs_id = Some i\<rparr>"

definition result_json :: "('p, 'h, 'd) rpc_env \<Rightarrow> 'd middleware \<Rightarrow> json_error + 'd json" where
  "result_json e ctx =
     json_add_to_object ''success'' (JBool (get_error_content ctx = []))
       (case io_object (mw_io ctx) of
          Some n \<Rightarrow> ast_to_json (Some n)
        | None \<Rightarrow> convert_output_to_json e (get_output_content ctx))"

definition report_success ::
    "('p, 'h, 'd) rpc_env \<Rightarrow> 'd dispatcher \<Rightarrow> 'd rpc_request \<Rightarrow> 'd middleware \<Rightarrow> rpc_world \<Rightarrow> unit result \<times> rpc_world" where
  "report_success e m rq ctx w =
     (case result_json e ctx of
        Inl err \<Rightarrow> (Inl (Runtime_error (je_message err)), w)
      | Inr v \<Rightarrow>
          (case validate_json_with_schema m (nt_method rq) v False of
             Validation_Error msg \<Rightarrow>
               print_error e (rq_id rq) INTERNAL_ERROR (''Response validation failed ('' @ nt_method rq @ '')'') (Some (JString msg)) w
           | Validation_Success \<Rightarrow> print_response e (success_response (rq_id rq) v) (mw_large_data ctx) w))"

text \<open>From the conversion of the parameters on.\<close>

definition run_request ::
    "('p, 'h, 'd) rpc_env \<Rightarrow> 'd dispatcher \<Rightarrow> 'd rpc_request \<Rightarrow> rpc_world \<Rightarrow> unit result \<times> rpc_world" where
  "run_request e m rq w =
     (case (case nt_params rq of None \<Rightarrow> Inr [] | Some p \<Rightarrow> convert_json_params_to_argument_map e p) of
        Inl x \<Rightarrow> (Inl x, w)
      | Inr args \<Rightarrow>
          (case dispatch e m (nt_method rq) (mk_middleware (nt_method rq) args, w) of
             (rc, ctx, w') \<Rightarrow> if rc \<noteq> 0 then report_failure e rq rc ctx w' else report_success e m rq ctx w'))"

text \<open>The body of the \<open>try\<close> block after a successful parse.\<close>

definition handle_request ::
    "('p, 'h, 'd) rpc_env \<Rightarrow> 'd dispatcher \<Rightarrow> 'd rpc_request \<Rightarrow> rpc_world \<Rightarrow> unit result \<times> rpc_world" where
  "handle_request e m rq w =
     (let w1 = clear_abandoned (rq_id rq) w in
      if \<not> has_command m (nt_method rq)
      then print_error e (rq_id rq) METHOD_NOT_FOUND (''Unrecognized command '' @ nt_method rq) None w1
      else case (case nt_params rq of None \<Rightarrow> Validation_Success | Some p \<Rightarrow> validate_json_with_schema m (nt_method rq) p True) of
        Validation_Error msg \<Rightarrow>
          print_error e (rq_id rq) INVALID_PARAMS (''Request validation failed ('' @ nt_method rq @ '')'') (Some (JString msg)) w1
      | Validation_Success \<Rightarrow> run_request e m rq w1)"

definition parse_failure :: "('p, 'h, 'd) rpc_env \<Rightarrow> string \<Rightarrow> rpc_world \<Rightarrow> unit result \<times> rpc_world" where
  "parse_failure e msg w = print_error e (-1) PARSE_ERROR ''Failed to parse command request'' (Some (JString msg)) w"

text \<open>
  An exception of the body is reported like a parse error; an exception of that report leaves
  \<open>process_request\<close>.
\<close>

definition process_request ::
    "('p, 'h, 'd) rpc_env \<Rightarrow> 'd dispatcher \<Rightarrow> string \<Rightarrow> rpc_world \<Rightarrow> unit result \<times> rpc_world" where
  "process_request e m request_data w =
     (case (case parse_request e request_data of
              Inl err \<Rightarrow> parse_failure e (je_message err) w
            | Inr rq \<Rightarrow> handle_request e m rq w) of
        (Inl x, w') \<Rightarrow> parse_failure e (exn_what x) w'
      | (Inr u, w') \<Rightarrow> (Inr u, w'))"

text \<open>The answer to a request that timed out.\<close>

definition timeout_id_method :: "('p, 'h, 'd) rpc_env \<Rightarrow> string \<Rightarrow> int \<times> string" where
  "timeout_id_method e request_data =
     (case env_parse e request_data of
        Inr (JObject m) \<Rightarrow>
          ((case map_find m ''id'' of Some (JInteger i) \<Rightarrow> int32 i | _ \<Rightarrow> -1),
           (case map_find m ''method'' of Some (JString s) \<Rightarrow> s | _ \<Rightarrow> ''unknown''))
      | _ \<Rightarrow> (-1, ''unknown''))"

definition send_timeout_error ::
    "('p, 'h, 'd) rpc_env \<Rightarrow> string \<Rightarrow> int \<Rightarrow> rpc_world \<Rightarrow> unit result \<times> rpc_world" where
  "send_timeout_error e request_data timeout_ms w =
     (case timeout_id_method e request_data of (request_id, method) \<Rightarrow>
        (case print_error e request_id REQUEST_TIMEOUT
            (''Request timed out after '' @ show_int timeout_ms @ '' ms (method: '' @ method @ '')'') None w of
           (Inl x, w1) \<Rightarrow> (Inl x, w1)
         | (Inr u, w1) \<Rightarrow> (Inr u, mark_abandoned request_id w1)))"

end
