(* ===== verification/Rpc_Props.thy ===== *)
theory Rpc_Props
  imports Rpc_Server
begin

text \<open>
  What the JSON-RPC server guarantees: messages can be read back (instances of the locale
  \<open>struct_fields\<close>), the abandoned identifiers are a bounded memory (locale \<open>recent_ids\<close>) that keeps late
  responses from the client, every request is answered once, and how parameters and results are passed.
\<close>

section \<open>Messages read back\<close>

definition notification_copy :: "string \<Rightarrow> 'd rpc_notification \<Rightarrow> 'd rpc_notification \<Rightarrow> 'd rpc_notification" where
  "notification_copy n r s =
     (if n = ''jsonrpc'' then s\<lparr>nt_jsonrpc := nt_jsonrpc r\<rparr>
      else if n = ''method'' then s\<lparr>nt_method := nt_method r\<rparr>
      else s\<lparr>nt_params := nt_params r\<rparr>)"

definition request_copy :: "string \<Rightarrow> 'd rpc_request \<Rightarrow> 'd rpc_request \<Rightarrow> 'd rpc_request" where
  "request_copy n r s =
     (if n = ''jsonrpc'' then s\<lparr>nt_jsonrpc := nt_jsonrpc r\<rparr>
      else if n = ''method'' then s\<lparr>nt_method := nt_method r\<rparr>
      else if n = ''params'' then s\<lparr>nt_params := nt_params r\<rparr>
      else s\<lparr>rq_id := rq_id r\<rparr>)"

definition error_copy :: "string \<Rightarrow> 'd error_details \<Rightarrow> 'd error_details \<Rightarrow> 'd error_details" where
  "error_copy n r s =
     (if n = ''code'' then s\<lparr>ed_code := ed_code r\<rparr>
      else if n = ''message'' then s\<lparr>ed_message := ed_message r\<rparr>
      else s\<lparr>ed_data := ed_data r\<rparr>)"

definition response_copy :: "string \<Rightarrow> 'd rpc_response \<Rightarrow> 'd rpc_response \<Rightarrow> 'd rpc_response" where
  "response_copy n r s =
     (if n = ''jsonrpc'' then s\<lparr>rs_jsonrpc := rs_jsonrpc r\<rparr>
      else if n = ''result'' then s\<lparr>rs_result := rs_result r\<rparr>
      else if n = ''error'' then s\<lparr>rs_error := rs_error r\<rparr>
      else s\<lparr>rs_id := rs_id r\<rparr>)"

text \<open>An \<open>int\<close>, and optional data that is not an explicit null, which is read as no value.\<close>

definition int_range :: "int \<Rightarrow> bool" where "int_range i \<longleftrightarrow> - (2 ^ 31) \<le> i \<and> i < 2 ^ 31"
definition not_null :: "'d json option \<Rightarrow> bool" where "not_null p \<longleftrightarrow> (\<forall>v. p = Some v \<longrightarrow> \<not> json_is_null v)"

definition request_valid :: "'d rpc_request \<Rightarrow> bool" where
  "request_valid r \<longleftrightarrow> int_range (rq_id r) \<and> not_null (nt_params r)"

definition error_valid :: "'d error_details \<Rightarrow> bool" where
  "error_valid r \<longleftrightarrow> int_range (ed_code r) \<and> not_null (ed_data r)"

definition response_valid :: "'d rpc_response \<Rightarrow> bool" where
  "response_valid r \<longleftrightarrow> not_null (rs_result r) \<and> (\<forall>e. rs_error r = Some e \<longrightarrow> error_valid e) \<and>
     (\<forall>i. rs_id r = Some i \<longrightarrow> int_range i)"

lemmas codec_defs = string_codec_def value_codec_def int_codec_def optional_codec_def deserialize_int_def

interpretation notification: struct_fields CaseNone notification_fields "\<lambda>r. not_null (nt_params r)" notification_copy
  by unfold_locales
    (auto simp: notification_fields_def mk_field_def get_serialized_name_def notification_copy_def codec_defs not_null_def
      split: option.splits)

interpretation request: struct_fields CaseNone "request_fields dbl" request_valid request_copy for dbl
  by unfold_locales
    (auto simp: request_fields_def mk_field_def get_serialized_name_def request_copy_def codec_defs not_null_def
      request_valid_def int_range_def split: option.splits)

interpretation error: struct_fields CaseNone "error_fields dbl" error_valid error_copy for dbl
  by unfold_locales
    (auto simp: error_fields_def mk_field_def get_serialized_name_def error_copy_def codec_defs not_null_def
      error_valid_def int_range_def split: option.splits)

lemma error_codec_inverse: "error_valid e \<Longrightarrow> cd_deser (error_codec dbl) (cd_ser (error_codec dbl) e) = Inr e"
  and error_codec_object: "\<not> json_is_null (cd_ser (error_codec dbl) e)"
proof -
  obtain m where m: "struct_serialize CaseNone (error_fields dbl) e = Inr (JObject m)"
    unfolding struct_serialize_def using error.serialize_fields_object [OF order_refl] by blast
  then show "\<not> json_is_null (cd_ser (error_codec dbl) e)" by (simp add: error_codec_def)
  show "cd_deser (error_codec dbl) (cd_ser (error_codec dbl) e) = Inr e" if "error_valid e"
    using error.roundtrip [OF that, of dbl error0] m by (simp add: error_codec_def)
qed

interpretation response: struct_fields CaseNone "response_fields dbl" response_valid response_copy for dbl
  by unfold_locales
    (auto simp: response_fields_def mk_field_def skip_serializing_if_none_def get_serialized_name_def response_copy_def
      codec_defs not_null_def response_valid_def int_range_def error_codec_inverse error_codec_object split: option.splits)

text \<open>
  C35. A request survives the trip through its JSON object: what \<open>to_value\<close> writes, \<open>from_value\<close> reads back,
  for every identifier in the range of \<open>int\<close> and parameters that are not an explicit null; and so does
  every response, whose absent result or error is left out and whose absent identifier is null.
\<close>

theorem rpc_messages_roundtrip:
  assumes "request_valid rq" and "response_valid rs"
  shows "bind_result (struct_serialize CaseNone (request_fields dbl) rq)
        (struct_deserialize CaseNone False (request_fields dbl) request0) = Inr rq \<and>
      struct_deserialize CaseNone False (response_fields dbl) response0 (rpc_response_to_json dbl rs) = Inr rs"
proof -
  obtain m where "struct_serialize CaseNone (response_fields dbl) rs = Inr (JObject m)"
    unfolding struct_serialize_def using response.serialize_fields_object [OF order_refl] by blast
  with response.roundtrip [OF assms(2), of dbl response0] request.roundtrip [OF assms(1), of dbl request0]
  show ?thesis by (simp add: rpc_response_to_json_def)
qed

definition request1 :: "unit rpc_request" where
  "request1 = \<lparr>nt_jsonrpc = ''2.0'', nt_method = ''ping'', nt_params = None, rq_id = 7\<rparr>"

definition dbl0 :: "unit dbl_ops" where
  "dbl0 = \<lparr>dbl_class = (\<lambda>_. Integral 0), dbl_show = (\<lambda>_. []), dbl_show17 = (\<lambda>_. []), dbl_of_int = (\<lambda>_. ()),
     dbl_to_int64 = (\<lambda>_. 0), dbl_to_uint64 = (\<lambda>_. 0)\<rparr>"

theorem rpc_messages_roundtrip_witness:
  "struct_deserialize CaseNone False (response_fields dbl0) response0 (rpc_response_to_json dbl0 (success_response 7 (JBool True)))
     = Inr (success_response 7 (JBool True)) \<and> request_valid request1"
proof -
  have "request_valid request1" "response_valid (success_response 7 (JBool True :: unit json))"
    by (simp_all add: request_valid_def request1_def response_valid_def success_response_def int_range_def not_null_def)
  from rpc_messages_roundtrip [OF this, of dbl0] this(1) show ?thesis by blast
qed

section \<open>Abandoned requests\<close>

definition abandoned_inv :: "rpc_world \<Rightarrow> bool" where
  "abandoned_inv w \<longleftrightarrow>
     rw_abandoned_ids w = set (rw_abandoned_order w) \<and> distinct (rw_abandoned_order w) \<and>
     length (rw_abandoned_order w) \<le> kMaxAbandonedIds \<and> (\<forall>i \<in> set (rw_abandoned_order w). 0 \<le> i)"

lemma trim_abandoned_drop:
  "distinct order \<Longrightarrow> ids = set order \<Longrightarrow>
     trim_abandoned order ids = (set (drop (length order - kMaxAbandonedIds) order), drop (length order - kMaxAbandonedIds) order)"
proof (induction order arbitrary: ids)
  case (Cons i order)
  show ?case
  proof (cases "length (i # order) > kMaxAbandonedIds")
    case True
    moreover have "insert i (set order) - {i} = set order" using Cons.prems(1) by auto
    moreover have "drop (length (i # order) - kMaxAbandonedIds) (i # order) = drop (length order - kMaxAbandonedIds) order"
      using True by (simp add: Suc_diff_le)
    ultimately show ?thesis using Cons by simp
  next
    case False
    with Cons.prems show ?thesis by simp
  qed
qed simp

text \<open>
  What the server relies on: a memory of the identifiers marked last, up to a limit, from which an
  identifier can be removed again.
\<close>

locale recent_ids =
  fixes order :: "'s \<Rightarrow> int list"
    and mark :: "int \<Rightarrow> 's \<Rightarrow> 's"
    and clear :: "int \<Rightarrow> 's \<Rightarrow> 's"
    and member :: "int \<Rightarrow> 's \<Rightarrow> bool"
    and inv :: "'s \<Rightarrow> bool"
    and limit :: nat
  assumes limit: "0 < limit"
    and bounded: "inv s \<Longrightarrow> distinct (order s) \<and> length (order s) \<le> limit"
    and member: "inv s \<Longrightarrow> member i s \<longleftrightarrow> i \<in> set (order s)"
    and mark: "inv s \<Longrightarrow> order (mark i s) =
      (if i < 0 \<or> i \<in> set (order s) then order s else drop (Suc (length (order s)) - limit) (order s @ [i]))"
    and clear: "inv s \<Longrightarrow> order (clear i s) = remove1 i (order s)"
    and inv_mark: "inv s \<Longrightarrow> inv (mark i s)"
    and inv_clear: "inv s \<Longrightarrow> inv (clear i s)"
begin

lemma inv_fold_mark: "inv s \<Longrightarrow> inv (fold mark js s)"
  by (induction js arbitrary: s) (simp_all add: inv_mark)

lemma member_mark: "inv s \<Longrightarrow> 0 \<le> i \<Longrightarrow> member i (mark i s)"
  using limit bounded [of s] by (auto simp: member inv_mark mark)

lemma not_member_clear: "inv s \<Longrightarrow> \<not> member i (clear i s)"
  using bounded [of s] by (simp add: member inv_clear clear)

lemma remembered_from:
  "inv s \<Longrightarrow> order s = xs @ i # ys \<Longrightarrow> length ys + length js < limit \<Longrightarrow> member i (fold mark js s)"
proof (induction js arbitrary: s xs ys)
  case (Cons j js)
  show ?case
  proof (cases "j < 0 \<or> j \<in> set (order s)")
    case True
    with Cons.prems Cons.IH [of "mark j s" xs ys] show ?thesis by (simp add: mark inv_mark)
  next
    case False
    let ?k = "Suc (length (order s)) - limit"
    have "?k \<le> length xs" using bounded [OF Cons.prems(1)] Cons.prems(2,3) by simp
    then have "order (mark j s) = drop ?k xs @ i # (ys @ [j])"
      using False Cons.prems(1,2) by (simp add: mark)
    with Cons.prems Cons.IH [of "mark j s" "drop ?k xs" "ys @ [j]"] show ?thesis by (simp add: inv_mark)
  qed
qed (simp add: member)

lemma remembered:
  assumes "inv s" "0 \<le> i" "\<not> member i s" "length js < limit"
  shows "member i (fold mark js (mark i s))"
proof -
  let ?k = "Suc (length (order s)) - limit"
  have "?k \<le> length (order s)" using limit by simp
  then have "order (mark i s) = drop ?k (order s) @ i # []"
    using assms by (simp add: mark member)
  from remembered_from [OF inv_mark [OF assms(1)] this] assms(4) show ?thesis by simp
qed

end

lemma mark_abandoned_order:
  assumes "abandoned_inv w"
  shows "rw_abandoned_order (mark_abandoned i w) =
      (if i < 0 \<or> i \<in> set (rw_abandoned_order w) then rw_abandoned_order w
       else drop (Suc (length (rw_abandoned_order w)) - kMaxAbandonedIds) (rw_abandoned_order w @ [i]))"
    and "abandoned_inv (mark_abandoned i w)"
proof -
  have w: "rw_abandoned_ids w = set (rw_abandoned_order w)" "distinct (rw_abandoned_order w)"
    "length (rw_abandoned_order w) \<le> kMaxAbandonedIds" "\<forall>i \<in> set (rw_abandoned_order w). 0 \<le> i"
    using assms by (simp_all add: abandoned_inv_def)
  have t: "trim_abandoned (rw_abandoned_order w @ [i]) (insert i (rw_abandoned_ids w)) =
      (set (drop (Suc (length (rw_abandoned_order w)) - kMaxAbandonedIds) (rw_abandoned_order w @ [i])),
       drop (Suc (length (rw_abandoned_order w)) - kMaxAbandonedIds) (rw_abandoned_order w @ [i]))"
    if "i \<notin> set (rw_abandoned_order w)"
    using that w by (subst trim_abandoned_drop) simp_all
  show "rw_abandoned_order (mark_abandoned i w) =
      (if i < 0 \<or> i \<in> set (rw_abandoned_order w) then rw_abandoned_order w
       else drop (Suc (length (rw_abandoned_order w)) - kMaxAbandonedIds) (rw_abandoned_order w @ [i]))"
    using t w(1) by (simp add: mark_abandoned_def)
  show "abandoned_inv (mark_abandoned i w)"
  proof (cases "i < 0 \<or> i \<in> set (rw_abandoned_order w)")
    case True
    then have "mark_abandoned i w = w" using w(1) by (auto simp: mark_abandoned_def)
    with assms show ?thesis by simp
  next
    case False
    let ?o = "drop (Suc (length (rw_abandoned_order w)) - kMaxAbandonedIds) (rw_abandoned_order w @ [i])"
    have "distinct ?o" using False w(2) by (intro distinct_drop) simp
    moreover have "set ?o \<subseteq> insert i (set (rw_abandoned_order w))" using set_drop_subset [of "Suc (length (rw_abandoned_order w)) - kMaxAbandonedIds" "rw_abandoned_order w @ [i]"]
      by (simp del: drop_append)
    moreover have "length ?o \<le> kMaxAbandonedIds" by simp
    ultimately show ?thesis
      using False t w by (auto simp: mark_abandoned_def abandoned_inv_def)
  qed
qed

lemma clear_abandoned_order:
  assumes "abandoned_inv w"
  shows "rw_abandoned_order (clear_abandoned i w) = remove1 i (rw_abandoned_order w)" and "abandoned_inv (clear_abandoned i w)"
  using assms
  by (auto simp: clear_abandoned_def abandoned_inv_def length_remove1 remove1_idem
      dest: notin_set_remove1 in_set_remove1 [THEN iffD1, rotated])

interpretation abandoned: recent_ids rw_abandoned_order mark_abandoned clear_abandoned is_abandoned abandoned_inv kMaxAbandonedIds
proof unfold_locales
  show "0 < kMaxAbandonedIds" by (simp add: kMaxAbandonedIds_def)
  show "distinct (rw_abandoned_order w) \<and> length (rw_abandoned_order w) \<le> kMaxAbandonedIds" if "abandoned_inv w" for w
    using that by (simp add: abandoned_inv_def)
  show "is_abandoned i w \<longleftrightarrow> i \<in> set (rw_abandoned_order w)" if "abandoned_inv w" for w i
    using that by (auto simp: abandoned_inv_def is_abandoned_def)
qed (rule mark_abandoned_order clear_abandoned_order; assumption)+

definition ring_spec :: "int \<Rightarrow> bool \<Rightarrow> int list \<Rightarrow> int list" where
  "ring_spec i timed_out ids =
     (if timed_out then (if i < 0 \<or> i \<in> set ids then ids else drop (Suc (length ids) - 64) (ids @ [i]))
      else remove1 i ids)"

definition abandoned_step :: "int \<times> bool \<Rightarrow> rpc_world \<Rightarrow> rpc_world" where
  "abandoned_step ev = (if snd ev then mark_abandoned (fst ev) else clear_abandoned (fst ev))"

lemma abandoned_step_order:
  assumes "abandoned_inv w"
  shows "rw_abandoned_order (abandoned_step ev w) = ring_spec (fst ev) (snd ev) (rw_abandoned_order w)"
    and "abandoned_inv (abandoned_step ev w)"
  using assms by (simp_all add: abandoned_step_def ring_spec_def abandoned.mark abandoned.clear abandoned.inv_mark
      abandoned.inv_clear kMaxAbandonedIds_def)

lemma abandoned_steps_order:
  "abandoned_inv w \<Longrightarrow>
     abandoned_inv (fold abandoned_step evs w) \<and>
     rw_abandoned_order (fold abandoned_step evs w) = fold (\<lambda>ev. ring_spec (fst ev) (snd ev)) evs (rw_abandoned_order w)"
  by (induction evs arbitrary: w) (simp_all add: abandoned_step_order)

text \<open>
  C8. The set and the queue of abandoned identifiers implement one bounded memory: after any sequence of
  timeouts and newly received requests, an identifier counts as abandoned exactly when it is among the
  at most 64 identifiers that timed out last and were not received again since.
\<close>

theorem abandoned_refines:
  assumes "rw_abandoned_ids w = {}" and "rw_abandoned_order w = []"
  shows "(is_abandoned i (fold abandoned_step evs w) \<longleftrightarrow> i \<in> set (fold (\<lambda>ev. ring_spec (fst ev) (snd ev)) evs [])) \<and>
    card (rw_abandoned_ids (fold abandoned_step evs w)) \<le> 64"
proof -
  have "abandoned_inv w" using assms by (simp add: abandoned_inv_def)
  from abandoned_steps_order [OF this, of evs] assms have inv: "abandoned_inv (fold abandoned_step evs w)"
    and order: "rw_abandoned_order (fold abandoned_step evs w) = fold (\<lambda>ev. ring_spec (fst ev) (snd ev)) evs []"
    by simp_all
  have "card (rw_abandoned_ids (fold abandoned_step evs w)) \<le> 64"
    using inv card_length [of "rw_abandoned_order (fold abandoned_step evs w)"]
    by (simp add: abandoned_inv_def kMaxAbandonedIds_def)
  with abandoned.member [OF inv, of i] order show ?thesis by simp
qed

definition world0 :: rpc_world where
  "world0 = \<lparr>rw_output = [], rw_os = [], rw_abandoned_ids = {}, rw_abandoned_order = []\<rparr>"

theorem abandoned_refines_witness:
  "is_abandoned 3 (fold abandoned_step [(3, True), (5, True)] world0) \<and>
   \<not> is_abandoned 3 (fold abandoned_step [(3, True), (3, False)] world0)"
proof -
  have "rw_abandoned_ids world0 = {}" "rw_abandoned_order world0 = []" by (simp_all add: world0_def)
  note refines = abandoned_refines [OF this]
  show ?thesis
    using refines [of 3 "[(3, True), (5, True)]"] refines [of 3 "[(3, True), (3, False)]"] by (simp add: ring_spec_def)
qed

lemma print_response_abandoned:
  "print_response e r large w = (x, w') \<Longrightarrow>
     rw_abandoned_ids w' = rw_abandoned_ids w \<and> rw_abandoned_order w' = rw_abandoned_order w"
  by (auto simp: print_response_def write_line_def Let_def split: if_splits sum.splits option.splits)

lemma same_abandoned:
  assumes "rw_abandoned_ids w' = rw_abandoned_ids w" "rw_abandoned_order w' = rw_abandoned_order w"
  shows "abandoned_inv w' = abandoned_inv w" "is_abandoned i w' = is_abandoned i w"
  using assms by (simp_all add: abandoned_inv_def is_abandoned_def)


section \<open>One response per request\<close>

text \<open>A response to a request: with its identifier, and either a result or an error.\<close>

definition responds_to :: "'d rpc_request \<Rightarrow> 'd rpc_response \<Rightarrow> bool" where
  "responds_to rq r \<longleftrightarrow>
     rs_id r = (if rs_error r \<noteq> None \<and> rq_id rq = -1 then None else Some (rq_id rq)) \<and>
     (rs_result r = None \<longleftrightarrow> rs_error r \<noteq> None)"

lemma responds_to_error [simp]: "responds_to rq (error_response (rq_id rq) code message data)"
  by (simp add: responds_to_def error_response_def)

lemma responds_to_success [simp]: "responds_to rq (success_response (rq_id rq) v)"
  by (simp add: responds_to_def success_response_def)

lemma print_error_responds:
  "print_error e (rq_id rq) code message data w = (x, w') \<Longrightarrow> \<exists>r large. responds_to rq r \<and> print_response e r large w = (x, w')"
  unfolding print_error_def using responds_to_error by blast

lemma report_failure_responds:
  assumes "report_failure e rq rc ctx w = (x, w')"
  shows "\<exists>r large. responds_to rq r \<and> print_response e r large w = (x, w')"
proof -
  have "\<exists>message data. print_error e (rq_id rq) rc message data w = (x, w')"
    using assms unfolding report_failure_def Let_def by (auto split: prod.splits option.splits)
  with print_error_responds show ?thesis by blast
qed

lemma report_success_responds:
  assumes "report_success e m rq ctx w = (Inr u, w')"
  shows "\<exists>r large. responds_to rq r \<and> print_response e r large w = (Inr u, w')"
proof -
  from assms consider (err) "\<exists>code msg data. print_error e (rq_id rq) code msg data w = (Inr u, w')"
    | (ok) v where "print_response e (success_response (rq_id rq) v) (mw_large_data ctx) w = (Inr u, w')"
    unfolding report_success_def by (auto split: sum.splits validation_result.splits)
  then show ?thesis
  proof cases
    case (ok v)
    then show ?thesis using responds_to_success by blast
  qed (use print_error_responds in blast)+
qed

text \<open>The states in which the response is decided on: before the handler runs, or after it.\<close>

definition decided :: "('p, 'h, 'd) rpc_env \<Rightarrow> 'd dispatcher \<Rightarrow> 'd rpc_request \<Rightarrow> rpc_world \<Rightarrow> rpc_world \<Rightarrow> bool" where
  "decided e m rq w w1 \<longleftrightarrow>
     w1 = clear_abandoned (rq_id rq) w \<or>
     (\<exists>args rc ctx. dispatch e m (nt_method rq) (mk_middleware (nt_method rq) args, clear_abandoned (rq_id rq) w) = (rc, ctx, w1))"

lemma run_request_responds:
  assumes "run_request e m rq (clear_abandoned (rq_id rq) w) = (Inr u, w')"
  shows "\<exists>r large w1. responds_to rq r \<and> decided e m rq w w1 \<and> print_response e r large w1 = (Inr u, w')"
proof -
  from assms obtain args rc ctx w1 where
    d: "dispatch e m (nt_method rq) (mk_middleware (nt_method rq) args, clear_abandoned (rq_id rq) w) = (rc, ctx, w1)"
    and rep: "(if rc \<noteq> 0 then report_failure e rq rc ctx w1 else report_success e m rq ctx w1) = (Inr u, w')"
    by (auto simp: run_request_def split: sum.splits prod.splits)
  have "decided e m rq w w1" using d by (auto simp: decided_def)
  with rep report_failure_responds report_success_responds show ?thesis by (metis (no_types, lifting))
qed

lemma handle_request_responds:
  assumes "handle_request e m rq w = (Inr u, w')"
  shows "\<exists>r large w1. responds_to rq r \<and> decided e m rq w w1 \<and> print_response e r large w1 = (Inr u, w')"
proof -
  have start: "decided e m rq w (clear_abandoned (rq_id rq) w)" by (simp add: decided_def)
  show ?thesis
    using assms run_request_responds [of e m rq w u w'] start
    unfolding handle_request_def print_error_def Let_def
    by (auto split: if_splits validation_result.splits) (metis responds_to_error)+
qed

lemma print_response_line:
  assumes "print_response e r large w = (Inr u, w')"
  shows "w' = w \<and> (\<exists>i. rs_id r = Some i \<and> is_abandoned i w) \<or>
    (\<exists>s. rw_output w' = rw_output w @ [(if rs_error r = None then Cout else Cerr, s)])"
  using assms
  by (auto simp: print_response_def write_line_def Let_def split: if_splits sum.splits option.splits)


section \<open>Parameters\<close>

lemma params_into_notin:
  "params_into e kvs args = Inr args' \<Longrightarrow> n \<notin> (camel_case_to_kebab_case \<circ> fst) ` set kvs \<Longrightarrow> map_find args' n = map_find args n"
  by (induction kvs arbitrary: args) auto

lemma params_into_find:
  "params_into e kvs args = Inr args' \<Longrightarrow> distinct (map (camel_case_to_kebab_case \<circ> fst) kvs) \<Longrightarrow> (k, v) \<in> set kvs \<Longrightarrow>
     \<exists>a. param_argument e v = Inr a \<and> map_find args' (camel_case_to_kebab_case k) = Some a"
proof (induction kvs arbitrary: args)
  case (Cons p kvs)
  obtain k' v' where p: "p = (k', v')" by (cases p)
  from Cons.prems(1) obtain a where a: "param_argument e v' = Inr a"
    and rest: "params_into e kvs (map_set (camel_case_to_kebab_case k') a args) = Inr args'" by (auto simp: p)
  show ?case
  proof (cases "(k, v) = p")
    case True
    then have "map_find args' (camel_case_to_kebab_case k') = Some a"
      using params_into_notin [OF rest, of "camel_case_to_kebab_case k'"] Cons.prems(2) by (force simp: p)
    with True a show ?thesis by (simp add: p)
  qed (use Cons.IH [OF rest] Cons.prems in auto)
qed simp

lemma print_null: "\<exists>err. env_print e JNull = Inl err"
  by (auto simp: env_print_def json_to_string_def value_to_json_string_def split: prod.splits)

text \<open>
  A parameter that is null reaches the handler as an empty string, not as an absent argument, so the
  default the command sets for it does not apply.
\<close>

theorem null_param_suppresses_default:
  assumes "convert_json_params_to_argument_map e (JObject m) = Inr args"
    and "distinct (map (camel_case_to_kebab_case \<circ> fst) m)" and "(k, JNull) \<in> set m"
  shows "map_find args (camel_case_to_kebab_case k) = Some (mk_argument (ValueString [])) \<and>
    transform_default (camel_case_to_kebab_case k) v (mk_middleware method args) = mk_middleware method args"
proof -
  from assms(1) have "params_into e m [] = Inr args"
    by (auto simp: convert_json_params_to_argument_map_def split: sum.splits)
  from params_into_find [OF this assms(2,3)] print_null [of e]
  have f: "map_find args (camel_case_to_kebab_case k) = Some (mk_argument (ValueString []))"
    by (auto simp: param_argument_def)
  moreover have "mw_args (mk_middleware method args) = args"
    by (simp add: mw_args_def mk_middleware_def mk_invocation_context_def io.defs)
  ultimately show ?thesis by (simp add: transform_default_def map_has_def)
qed

section \<open>Results\<close>

lemma output_transform_object:
  "io_object (mw_io (fst s)) \<noteq> None \<Longrightarrow> io_object (mw_io (fst (apply_output_transform t s))) \<noteq> None"
  by (cases "(t, s)" rule: apply_output_transform.cases)
    (auto simp: transform_stdout_def Let_def object_set_def set_object_def io_set_object_def store_large_data_def
      split: option.splits ast.splits)

lemma output_transforms_fold:
  "io_object (mw_io (fst s)) \<noteq> None \<Longrightarrow> io_object (mw_io (fst (fold apply_output_transform ts s))) \<noteq> None"
proof (induction ts arbitrary: s)
  case (Cons t ts)
  from Cons.IH [OF output_transform_object [OF Cons.prems]] show ?case by simp
qed simp

lemma output_transforms_object: "io_object (mw_io (fst (apply_output_transforms b s))) \<noteq> None"
proof -
  obtain ctx w where s: "s = (ctx, w)" by (cases s)
  have "io_object (mw_io (ensure_object ctx)) \<noteq> None"
    by (simp add: ensure_object_def set_object_def io_set_object_def)
  with output_transforms_fold [of "(ensure_object ctx, w)"] show ?thesis
    by (auto simp: apply_output_transforms_def s Let_def split: option.splits ast.splits)
qed

text \<open>A command that succeeded always has an object: the fallback to the output text is never taken.\<close>

lemma dispatch_success_object:
  assumes "dispatch e m c s = (0, ctx, w')"
  shows "io_object (mw_io ctx) \<noteq> None" and "result_json e ctx = json_add_to_object ''success'' (JBool (get_error_content ctx = [])) (ast_to_json (io_object (mw_io ctx)))"
proof -
  from assms obtain b s' where "apply_output_transforms b s' = (ctx, w')"
    by (auto simp: dispatch_def METHOD_NOT_FOUND_def INTERNAL_ERROR_def split: prod.splits option.splits outcome.splits)
  with output_transforms_object [of b s'] show obj: "io_object (mw_io ctx) \<noteq> None" by (metis fst_conv)
  then show "result_json e ctx = json_add_to_object ''success'' (JBool (get_error_content ctx = [])) (ast_to_json (io_object (mw_io ctx)))"
    by (auto simp: result_json_def)
qed

text \<open>
  Parameters that are not an object, for a command without a request schema: the exception is reported as
  a parse error without an identifier, so the client cannot match it to its request.
\<close>

lemma non_object_params_lose_id:
  assumes "parse_request e request_data = Inr rq" and "nt_params rq = Some p" and "\<not> json_is_object p"
    and "map_find m (nt_method rq) = Some b" and "cb_request_schema b = None"
  shows "process_request e m request_data w =
    parse_failure e ''Invalid parameters - must be an object'' (clear_abandoned (rq_id rq) w)"
proof -
  have "convert_json_params_to_argument_map e p = Inl (Runtime_error ''Invalid parameters - must be an object'')"
    using assms(3) by (cases p) (simp_all add: convert_json_params_to_argument_map_def)
  then have "handle_request e m rq w = (Inl (Runtime_error ''Invalid parameters - must be an object''), clear_abandoned (rq_id rq) w)"
    using assms(2,4,5) by (simp add: handle_request_def run_request_def has_command_def map_has_def validate_json_with_schema_def)
  with assms(1) show ?thesis by (simp add: process_request_def)
qed

text \<open>A result that is not an object, which a handler may set, is lost in the same way.\<close>

lemma non_object_result_loses_id:
  assumes "dispatch e m (nt_method rq) s = (0, ctx, w')" and "io_object (mw_io ctx) = Some (AstArray a)"
  shows "report_success e m rq ctx w = (Inl (Runtime_error (je_message (invalid_type ''object'' ''other''))), w)"
  using dispatch_success_object(2) [OF assms(1)] assms(2) by (simp add: report_success_def)

section \<open>Standard input and output\<close>

lemma base64_decode_encode: "base64_decode_string (base64_encode_string s) = Inr s"
  by (simp add: base64_decode_string_def decode_base64_string o_def)

text \<open>Uploaded data in Base64 reaches the handler's standard input as it was, and is no argument any more.\<close>

lemma stdin_roundtrip:
  assumes "map_find (mw_args ctx) n = Some (mk_argument (ValueString (base64_encode_string d)))"
  shows "mw_input (transform_stdin n True ctx) = d \<and> map_find (mw_args (transform_stdin n True ctx)) n = None"
proof -
  have "map_find (map_erase n xs) n = None" for xs :: "(string \<times> 'a argument) list" by (induction xs) (auto simp: map_erase_def)
  then show ?thesis
    using assms by (simp add: transform_stdin_def get_string_value_def get_string_def mk_argument_def base64_decode_encode
        set_args_def set_input_content_def mw_args_def)
qed

section \<open>A concrete environment\<close>

text \<open>Services that read every text as a request \<open>ping\<close> with the identifier 7, and write every document as \<open>{}\<close>.\<close>

definition services1 :: "(unit, nat) hwtj" where
  "services1 =
     \<lparr>hwtj_init = (0, ()), hwtj_pars = (\<lambda>_ _. (0, ())),
      hwtj_gjst = (\<lambda>_ h. (0, if h = 0 then HWTJ_OBJECT_TYPE else if h = 1 then HWTJ_NUMBER_TYPE else HWTJ_STRING_TYPE)),
      hwtj_gval = (\<lambda>_ h. (0, if h = 1 then ''7'' else if h = 2 then ''2.0'' else ''ping'')),
      hwtj_gnue = (\<lambda>_ _. (0, 3)), hwtj_gbov = (\<lambda>_ _. (0, 0)), hwtj_gaen = (\<lambda>_ _ _. (0, 1)),
      hwtj_goen = (\<lambda>_ _ k _. if k = 0 then (0, ''id'', 1, 2) else if k = 1 then (0, ''jsonrpc'', 2, 7) else (0, ''method'', 3, 6)),
      hwtj_cren = (\<lambda>_ _ _ _ _. (0, 1, ())), hwtj_seri = (\<lambda>_ _. (0, ''{}'', 2)),
      hwtj_srch = (\<lambda>_ _ _ _ _. (0, 1)), hwtj_del = (\<lambda>_ _ _. (0, ())), hwtj_genc = (\<lambda>_. (0, 0)), hwtj_term = (\<lambda>_. (0, ())),
      hwtj_root = 0\<rparr>"

definition env1 :: "(unit, nat, unit) rpc_env" where
  "env1 = \<lparr>re_services = services1, re_fp = \<lparr>fp_strtod = (\<lambda>_. (False, (), 0)), fp_show = (\<lambda>_ _. [])\<rparr>, re_dbl = dbl0,
     re_tmpdir = None, re_euid = 0, re_pid = 1, re_unlink = (\<lambda>_. 0), re_mkfifo = (\<lambda>_. 0)\<rparr>"

lemma services1_sel:
  "hwtj_init services1 = (0, ())" "hwtj_pars services1 p t = (0, ())" "hwtj_cren services1 p h nm val ty = (0, 1, ())"
  "hwtj_seri services1 p n = (0, ''{}'', 2)" "hwtj_root services1 = 0" "hwtj_gnue services1 p h = (0, 3)"
  "hwtj_gjst services1 p 0 = (0, HWTJ_OBJECT_TYPE)"
  by (simp_all add: services1_def)

text \<open>A command that does nothing and succeeds.\<close>

definition ping_command :: "unit command_builder" where
  "ping_command = mk_builder (Some (\<lambda>ctx w. (Returned 0, ctx, w)))"

lemma read_seven: "read_number fp ''7'' = Inr (JInteger 7)"
  by (simp add: read_number_def c_str_def strtoll_dec_def skip_blanks_sign_def isspace_def digit_of_base_def digit_value_def
      is_ascii_dec_digit_def char_between_iso digits_value_def LLONG_MAX_def)

lemma services1_handle [simp]:
  "d < 64 \<Longrightarrow> h \<noteq> 0 \<Longrightarrow> json_handle_to_value fp services1 i st h d =
     Inr (if h = 1 then JInteger 7 else if h = 2 then JString ''2.0'' else JString ''ping'')"
  by (subst json_handle_to_value.simps)
    (simp add: services1_def ZJSNGJST_def ZJSMGVAL_def hwtj_types MAX_JSON_DEPTH_def read_seven)

lemma services1_entry [simp]:
  "object_entry services1 i st key k =
     Inr (if k = 0 then (''id'', 1) else if k = 1 then (''jsonrpc'', 2) else (''method'', 3))"
  by (simp add: object_entry_def services1_def ZJSMGOEN_def storage_obtain31_def Let_def HWTJ_BUFFER_TOO_SMALL_def)

lemma services1_root [simp]:
  "json_handle_to_value fp services1 i st 0 0 =
     Inr (JObject [(''id'', JInteger 7), (''jsonrpc'', JString ''2.0''), (''method'', JString ''ping'')])"
proof -
  have "map int [0..<3] = [0, 1, 2]" by (simp add: upt_rec)
  moreover have "string_less ''id'' ''jsonrpc''" "string_less ''jsonrpc'' ''method''" "string_less ''id'' ''method''"
    by (simp_all add: ebcdic_code_def ibm1047_def)
  ultimately show ?thesis
    by (subst json_handle_to_value.simps)
      (simp add: ZJSNGJST_def ZJSMGNUE_def hwtj_types MAX_JSON_DEPTH_def services1_sel map_set.simps)
qed

lemma env1_parse: "env_parse env1 s = Inr (JObject [(''id'', JInteger 7), (''jsonrpc'', JString ''2.0''), (''method'', JString ''ping'')])"
  by (simp add: env_parse_def env1_def from_str_def ZJSMINIT_def ZJSMPARS_def Let_def storage_obtain31_def
      services1_sel)

lemma deserialize_mk_field:
  "deserialize_field CaseNone object (mk_field n g st c) r =
     (case map_find object n of
        None \<Rightarrow> if cd_optional c then Some (st (cd_empty c) r) else None
      | Some v \<Rightarrow> (case cd_deser c v of Inl _ \<Rightarrow> None | Inr x \<Rightarrow> Some (st x r)))"
  by (simp add: deserialize_field_def mk_field_def get_serialized_name_def split: option.splits)

lemma codec_facts:
  "cd_deser string_codec (JString x) = Inr x" "cd_deser (int_codec dbl) (JInteger 7) = Inr 7"
  "cd_optional (optional_codec c) = True" "cd_empty (optional_codec c) = None"
  by (simp_all add: string_codec_def int_codec_def deserialize_int_def optional_codec_def)

lemma json_request1:
  "struct_deserialize CaseNone False (request_fields dbl0) request0
     (JObject [(''id'', JInteger 7), (''jsonrpc'', JString ''2.0''), (''method'', JString ''ping'')]) = Inr request1"
proof -
  let ?m = "[(''id'', JInteger 7), (''jsonrpc'', JString ''2.0''), (''method'', JString ''ping'')] :: (string \<times> unit json) list"
  have f: "map_find ?m ''id'' = Some (JInteger 7)" "map_find ?m ''jsonrpc'' = Some (JString ''2.0'')"
    "map_find ?m ''method'' = Some (JString ''ping'')" "map_find ?m ''params'' = None" by simp_all
  show ?thesis
    unfolding struct_deserialize_def request_fields_def json.case deserialize_fields.simps deserialize_mk_field f option.case codec_facts
      sum.case if_True Option.bind.simps if_False request0_def request1_def by simp
qed

lemma env1_request: "parse_request env1 s = Inr request1"
  unfolding parse_request_def env1_parse by (simp only: bind_result.simps env1_def rpc_env.simps json_request1)

lemma services1_cren: "\<exists>h s'. create_entry services1 parent nm val ty s = (0, h, s')"
  unfolding create_entry_def ZJSMCREN_def Let_def services1_sel storage_obtain31_def prod.case by blast

lemma each_zero: "(\<And>x s. x \<in> set xs \<Longrightarrow> fst (f x s) = Inr 0) \<Longrightarrow> fst (each f xs s) = Inr 0"
proof (induction xs arbitrary: s)
  case (Cons x xs)
  have "fst (f x s) = Inr 0" using Cons.prems by simp
  with Cons show ?case by (cases "f x s") simp
qed simp

lemma services1_builds: "fst (value_to_json_instance dbl0 services1 parent nm v s) = Inr 0"
proof (induction v arbitrary: parent nm s)
  case (JArray a)
  obtain h s' where "create_entry services1 parent nm (Some ''[]'') HWTJ_JSONTEXTVALUETYPE s = (0, h, s')" using services1_cren by blast
  with JArray show ?case by (simp add: each_zero)
next
  case (JObject m)
  obtain h s' where "create_entry services1 parent nm (Some ''{}'') HWTJ_JSONTEXTVALUETYPE s = (0, h, s')" using services1_cren by blast
  with JObject show ?case by (auto intro!: each_zero split: prod.splits)
next
  case JNull
  show ?case using services1_cren [of parent nm None HWTJ_NULLVALUETYPE s] by (auto simp: create_leaf_def)
next
  case (JBool b)
  show ?case using services1_cren [of parent nm None "if b then HWTJ_TRUEVALUETYPE else HWTJ_FALSEVALUETYPE" s]
    by (auto simp: create_leaf_def)
next
  case (JInteger i)
  show ?case using services1_cren [of parent nm "Some (show_int i)" HWTJ_NUMVALUETYPE s] by (auto simp: create_leaf_def)
next
  case (JDouble d)
  show ?case using services1_cren [of parent nm "Some []" HWTJ_NUMVALUETYPE s] by (auto simp: create_leaf_def dbl0_def)
next
  case (JString t)
  show ?case
    using services1_cren [of parent nm "Some (escape_json_string t)" HWTJ_STRINGVALUETYPE s]
      services1_cren [of parent nm "Some [DQUOTE, DQUOTE]" HWTJ_JSONTEXTVALUETYPE s]
    by (auto simp: create_leaf_def)
qed

lemma each_at_none: "(\<And>x s. x \<in> set xs \<Longrightarrow> fst (f x s) = Inr 0) \<Longrightarrow> fst (each_at f err k xs s) = None"
proof (induction xs arbitrary: s k)
  case (Cons x xs)
  have "fst (f x s) = Inr 0" using Cons.prems by simp
  with Cons show ?case by (cases "f x s") simp
qed simp

lemma env1_print: "env_print env1 (JObject m) = Inr ''{}''"
proof -
  have "fst (build_document dbl0 services1 (JObject m) s) = None" for s
    unfolding build_document_def by (auto intro!: each_at_none simp: services1_builds)
  moreover have "fst (serialize_text services1 s) = Inr ''{}''" for s
    by (cases s) (simp add: serialize_text_def services1_sel ZJSMSERI_def Let_def storage_obtain31_def HWTJ_BUFFER_TOO_SMALL_def)
  ultimately show ?thesis
    by (simp add: env_print_def json_to_string_def value_to_json_string_def env1_def ZJSMINIT_def ZJSMPARS_def Let_def storage_obtain31_def
        services1_sel split: prod.splits option.splits)
      (metis fst_conv option.distinct(1))
qed

lemma rpc_response_object: "\<exists>m. rpc_response_to_json dbl r = JObject m"
  unfolding rpc_response_to_json_def struct_serialize_def response.serialize_fields_object [OF order_refl] by simp

lemma env1_serialize: "serialize_json env1 (rpc_response_to_json dbl r) False = Inr ''{}''"
proof -
  obtain m where "rpc_response_to_json dbl r = JObject m" using rpc_response_object by blast
  then show ?thesis by (simp add: serialize_json_def env1_print)
qed



theorem null_param_suppresses_default_witness:
  "\<exists>args. map_find args ''max-items'' = Some (mk_argument (ValueString [])) \<and>
     transform_default ''max-items'' (mk_argument (ValueInt 100)) (mk_middleware ''list'' args) = mk_middleware ''list'' args \<and>
     convert_json_params_to_argument_map env1 (JObject [(''maxItems'', JNull)]) = Inr args"
proof -
  have k: "camel_case_to_kebab_case ''maxItems'' = ''max-items''" by code_simp
  obtain args where c: "convert_json_params_to_argument_map env1 (JObject [(''maxItems'', JNull)]) = Inr args"
    by (simp add: convert_json_params_to_argument_map_def param_argument_def)
  from null_param_suppresses_default [OF this, of "''maxItems''"] c show ?thesis unfolding k by simp
qed

end
