(* ===== verification/Zut.thy ===== *)
theory Zut
  imports Lexer_Print
begin

text \<open>
  The utilities of \<open>zut.cpp\<close> and \<open>zut.hpp\<close> that the other parts share: trimming, the Adler-32
  checksum that serves as e-tag, hexadecimal texts, the environment of spawned programs, the DD
  lists of the copy utilities and the tracker of truncated lines.

  The checksum works on bytes, everything else on strings of the execution character set. A C string
  is a list without the terminating NUL. The service \<open>bpxwdyn\<close> is a parameter.
\<close>

unbundle bit_operations_syntax

section \<open>Trimming and small texts\<close>

definition zut_strip_final_newline :: "string \<Rightarrow> string" where
  "zut_strip_final_newline input = (if input \<noteq> [] \<and> last input = NL then butlast input else input)"

definition zut_rtrim :: "string \<Rightarrow> string \<Rightarrow> string" where
  "zut_rtrim t s = rev (dropWhile (\<lambda>c. c \<in> set t) (rev s))"

definition zut_ltrim :: "string \<Rightarrow> string \<Rightarrow> string" where
  "zut_ltrim t s = dropWhile (\<lambda>c. c \<in> set t) s"

definition zut_trim :: "string \<Rightarrow> string \<Rightarrow> string" where
  "zut_trim t s = zut_ltrim t (zut_rtrim t s)"

text \<open>\<open>zut_format_as_csv\<close> trims its fields in place: the text and the fields as they are left.\<close>

fun zut_format_as_csv :: "string list \<Rightarrow> string \<times> string list" where
  "zut_format_as_csv [] = ([], [])"
| "zut_format_as_csv [f] = (let f' = zut_trim '' '' f in (f', [f']))"
| "zut_format_as_csv (f # g # fs) =
     (let f' = zut_trim '' '' f;
          (formatted, fields) = zut_format_as_csv (g # fs)
      in (f' @ '','' @ formatted, f' # fields))"

definition zut_get_hex_char :: "32 word \<Rightarrow> char" where
  "zut_get_hex_char num = ''0123456789ABCDEF'' ! unat (num AND 0xF)"

text \<open>\<open>snprintf\<close> with \<open>%02x\<close>.\<close>

definition format_02x :: "byte \<Rightarrow> string" where
  "format_02x b = [hex_digit (unat b div 16), hex_digit (unat b mod 16)]"

fun zut_print_string_as_bytes :: "byte list \<Rightarrow> string" where
  "zut_print_string_as_bytes [] = [NL]"
| "zut_print_string_as_bytes [b] = format_02x b @ [NL]"
| "zut_print_string_as_bytes (b # c # bs) = format_02x b @ '' '' @ zut_print_string_as_bytes (c # bs)"

text \<open>
  \<open>strtoul\<close> in base 16: leading blanks, a sign, an optional \<open>0x\<close> that a digit follows, then digits;
  no digit gives 0, an overflow the greatest value, a minus sign the negation modulo \<open>2 ^ 64\<close>.
\<close>

definition strtoul_digits :: "string \<Rightarrow> nat" where
  "strtoul_digits s =
     digits_value 16 (takeWhile is_ascii_hex_digit
       (case s of
          c # d # e # _ \<Rightarrow>
            if c = CHR ''0'' \<and> (d = CHR ''x'' \<or> d = CHR ''X'') \<and> is_ascii_hex_digit e
            then drop 2 s else s
        | _ \<Rightarrow> s))"

definition strtoul16 :: "string \<Rightarrow> 64 word" where
  "strtoul16 s =
     (let t = dropWhile isspace s;
          negative = (t \<noteq> [] \<and> hd t = CHR ''-'');
          u = (if t \<noteq> [] \<and> (hd t = CHR ''-'' \<or> hd t = CHR ''+'') then tl t else t);
          n = strtoul_digits u
      in if 2 ^ 64 \<le> n then - 1 else if negative then - of_nat n else of_nat n)"

fun contents_loop :: "string \<Rightarrow> byte list" where
  "contents_loop [] = []"
| "contents_loop [c] = [ucast (strtoul16 [c])]"
| "contents_loop (c # d # s) = ucast (strtoul16 [c, d]) # contents_loop s"

definition zut_get_contents_as_bytes :: "string \<Rightarrow> byte list" where
  "zut_get_contents_as_bytes hex_string =
     (if length hex_string mod 2 \<noteq> 0 then [] else contents_loop hex_string)"

definition zut_build_etag :: "64 word \<Rightarrow> 64 word \<Rightarrow> string" where
  "zut_build_etag mtime byte_size = show_hex (unat mtime) @ ''-'' @ show_hex (unat byte_size)"

section \<open>The Adler-32 checksum\<close>

record adler32_state =
  adler_a :: "32 word"
  adler_b :: "32 word"

definition adler_init :: adler32_state where
  "adler_init = \<lparr> adler_a = 1, adler_b = 0 \<rparr>"

definition MOD_ADLER :: "32 word" where
  "MOD_ADLER = 65521"

definition adler_byte :: "adler32_state \<Rightarrow> byte \<Rightarrow> adler32_state" where
  "adler_byte s d = (let a = adler_a s + ucast d in \<lparr> adler_a = a, adler_b = adler_b s + a \<rparr>)"

definition adler_reduce :: "adler32_state \<Rightarrow> adler32_state" where
  "adler_reduce s = \<lparr> adler_a = adler_a s mod MOD_ADLER, adler_b = adler_b s mod MOD_ADLER \<rparr>"

text \<open>The first loop takes blocks of 16 bytes and reduces after each.\<close>

function adler_blocks :: "byte list \<Rightarrow> nat \<Rightarrow> adler32_state \<Rightarrow> adler32_state \<times> nat" where
  "adler_blocks data i s =
     (if i + 16 \<le> length data
      then adler_blocks data (i + 16) (adler_reduce (foldl adler_byte s (take 16 (drop i data))))
      else (s, i))"
  by auto
termination by (relation "measure (\<lambda>(data, i, s). length data - i)") auto

declare adler_blocks.simps [simp del]

definition zut_adler32_update :: "adler32_state \<Rightarrow> byte list \<Rightarrow> adler32_state" where
  "zut_adler32_update s data =
     (let (s', i) = adler_blocks data 0 s in adler_reduce (foldl adler_byte s' (drop i data)))"

definition zut_adler32_finalize :: "adler32_state \<Rightarrow> 32 word" where
  "zut_adler32_finalize s = push_bit 16 (adler_b s) OR adler_a s"

definition zut_calc_adler32_checksum :: "byte list \<Rightarrow> 32 word" where
  "zut_calc_adler32_checksum input = zut_adler32_finalize (zut_adler32_update adler_init input)"

section \<open>The environment of spawned programs\<close>

definition ZUT_NOSHAREAS_COMMANDS :: "string list" where
  "ZUT_NOSHAREAS_COMMANDS = [''newgrp'', ''su'', ''sg'', ''zoa'']"

definition shell_blank :: "char \<Rightarrow> bool" where
  "shell_blank c \<longleftrightarrow> c = SPACE \<or> c = TAB \<or> c = NL"

definition basename :: "string \<Rightarrow> string" where
  "basename token = rev (takeWhile (\<lambda>c. c \<noteq> CHR ''/'') (rev token))"

text \<open>
  The loop of \<open>zut_private_command_requires_noshareas\<close>; the argument is the text from \<open>pos\<close> on,
  empty when \<open>pos\<close> is the end or \<open>npos\<close>.
\<close>

lemma next_token_shorter:
  "s \<noteq> [] \<Longrightarrow> length (dropWhile shell_blank (dropWhile (\<lambda>c. \<not> shell_blank c) s)) < length s"
proof (cases s)
  case (Cons c t)
  have "length (dropWhile shell_blank (dropWhile (\<lambda>c. \<not> shell_blank c) t)) \<le> length t"
    by (rule order_trans [OF length_dropWhile_le length_dropWhile_le])
  moreover have "length (dropWhile shell_blank t) \<le> length t"
    by (rule length_dropWhile_le)
  ultimately show ?thesis
    using Cons by simp
qed simp

function noshareas_loop :: "string \<Rightarrow> bool" where
  "noshareas_loop s =
     (if s = [] then False
      else let token = takeWhile (\<lambda>c. \<not> shell_blank c) s;
               after = dropWhile shell_blank (dropWhile (\<lambda>c. \<not> shell_blank c) s)
           in if token = [] then noshareas_loop after
              else if CHR ''='' \<in> set token \<and> hd token \<noteq> CHR ''='' then noshareas_loop after
              else basename token \<in> set ZUT_NOSHAREAS_COMMANDS)"
  by auto
termination
  by (relation "measure length") (simp_all add: next_token_shorter)

declare noshareas_loop.simps [simp del]

definition zut_private_command_requires_noshareas :: "string \<Rightarrow> bool" where
  "zut_private_command_requires_noshareas command = noshareas_loop (dropWhile shell_blank command)"

definition bpx_shareas :: "string \<Rightarrow> bool" where
  "bpx_shareas entry \<longleftrightarrow> take 13 entry = ''_BPX_SHAREAS=''"

text \<open>\<open>environ\<close> and the result are lists without the terminating null pointer.\<close>

definition zut_private_build_env :: "string list \<Rightarrow> string \<Rightarrow> string list" where
  "zut_private_build_env environ command =
     (let use_noshareas = zut_private_command_requires_noshareas command;
          env = [e \<leftarrow> environ. \<not> (bpx_shareas e \<and> use_noshareas)];
          has_bpx_shareas = (\<exists>e \<in> set environ. bpx_shareas e)
      in if \<not> use_noshareas \<and> \<not> has_bpx_shareas then env @ [''_BPX_SHAREAS=YES''] else env)"

section \<open>DD lists of the copy utilities\<close>

definition zut_set_dd_with_padding :: "string option \<Rightarrow> string" where
  "zut_set_dd_with_padding ddname =
     (case ddname of
        Some n \<Rightarrow> if n \<noteq> [] then take 8 n @ replicate (8 - length n) SPACE else replicate 8 NUL
      | None \<Rightarrow> replicate 8 NUL)"

record alt_dds =
  alt_sysin :: string
  alt_sysprint :: string
  alt_sysut1 :: string
  alt_sysut2 :: string
  alt_sysut3 :: "string option"
  alt_sysut4 :: "string option"

record dd_list =
  total_length :: nat
  dd_sysin :: string
  dd_sysprint :: string
  dd_sysut1 :: string
  dd_sysut2 :: string
  dd_sysut3 :: string
  dd_sysut4 :: string

definition zut_build_dfsmsdfp_dds_options :: "dd_list \<Rightarrow> alt_dds \<Rightarrow> dd_list" where
  "zut_build_dfsmsdfp_dds_options l alt =
     (let l1 = l\<lparr> dd_sysin := zut_set_dd_with_padding (Some (alt_sysin alt)),
                  dd_sysprint := zut_set_dd_with_padding (Some (alt_sysprint alt)),
                  dd_sysut1 := zut_set_dd_with_padding (Some (alt_sysut1 alt)),
                  dd_sysut2 := zut_set_dd_with_padding (Some (alt_sysut2 alt)) \<rparr>;
          (l2, len2) = (case alt_sysut3 alt of
                          Some n \<Rightarrow> (l1\<lparr> dd_sysut3 := zut_set_dd_with_padding (Some n) \<rparr>, 80)
                        | None \<Rightarrow> (l1, 72));
          (l3, len3) = (case alt_sysut4 alt of
                          Some n \<Rightarrow> (l2\<lparr> dd_sysut4 := zut_set_dd_with_padding (Some n) \<rparr>, 88)
                        | None \<Rightarrow> (l2, len2))
      in l3\<lparr> total_length := len3 \<rparr>)"

section \<open>Diagnostics\<close>

text \<open>
  The fields of \<open>ZDIAG\<close> the modelled code uses. \<open>e_msg_len\<close> is separate from the text: it is reset and
  restored on its own. \<open>ZDIAG_SET_MSG\<close> cuts the text at 255 characters.
\<close>

record zdiag =
  service_name :: string
  detail_rc :: int
  service_rc :: int
  e_msg :: string
  e_msg_len :: nat

definition zdiag_init :: zdiag where
  "zdiag_init = \<lparr> service_name = [], detail_rc = 0, service_rc = 0, e_msg = [], e_msg_len = 0 \<rparr>"

definition set_msg :: "string \<Rightarrow> zdiag \<Rightarrow> zdiag" where
  "set_msg m d = d\<lparr> e_msg := take 255 m, e_msg_len := min 255 (length m) \<rparr>"

text \<open>\<open>DiagMsgGuard\<close>: what follows keeps its effect on the codes, not on the message.\<close>

definition restore_msg :: "zdiag \<Rightarrow> zdiag \<Rightarrow> zdiag" where
  "restore_msg saved d = d\<lparr> e_msg := e_msg saved, e_msg_len := e_msg_len saved \<rparr>"

definition RTNCD_SUCCESS :: int where "RTNCD_SUCCESS = 0"
definition RTNCD_WARNING :: int where "RTNCD_WARNING = 1"
definition RTNCD_FAILURE :: int where "RTNCD_FAILURE = - 1"
definition ZUT_RTNCD_SERVICE_FAILURE :: int where "ZUT_RTNCD_SERVICE_FAILURE = - 2"

lemmas rtncd_defs = RTNCD_SUCCESS_def RTNCD_WARNING_def RTNCD_FAILURE_def

section \<open>Dynamic allocation\<close>

text \<open>
  The metal-C entry \<open>ZUTWDYN\<close>: the command and whether a DD name or a data set name is asked for; the
  return code, the reason, the response and the two names.
\<close>

record wdyn_response =
  wdyn_rc :: int
  wdyn_code :: "32 word"
  wdyn_resp :: string
  wdyn_ddname :: string
  wdyn_dsname :: string

datatype wdyn_want = Want_none | Want_ddname | Want_dsname

type_synonym 'w wdyn = "'w \<Rightarrow> string \<Rightarrow> wdyn_want \<Rightarrow> 'w \<times> wdyn_response"

text \<open>
  \<open>zut_bpxwdyn_common\<close>, with the references of the caller as the default of the response. A command
  that does not fit into the parameter is refused before the service is called.
\<close>

definition RET_ARG_MAX_LEN :: nat where "RET_ARG_MAX_LEN = 260"

definition zut_bpxwdyn_common ::
    "'w wdyn \<Rightarrow> 'w \<Rightarrow> string \<Rightarrow> 32 word \<Rightarrow> string \<Rightarrow> string \<Rightarrow> string \<Rightarrow> 'w \<times> wdyn_response" where
  "zut_bpxwdyn_common ZUTWDYN w parm code resp ddname dsname =
     (if RET_ARG_MAX_LEN \<le> length parm
      then (w, \<lparr> wdyn_rc = RTNCD_FAILURE, wdyn_code = code, wdyn_resp = resp, wdyn_ddname = ddname, wdyn_dsname = dsname \<rparr>)
      else let want = (if ddname = ''RTDDN'' then Want_ddname
                       else if dsname = ''RTDSN'' then Want_dsname else Want_none);
               (w', r) = ZUTWDYN w parm want
           in (w', r\<lparr> wdyn_ddname := if want = Want_ddname then wdyn_ddname r else ddname,
                      wdyn_dsname := if want = Want_dsname then wdyn_dsname r else dsname \<rparr>))"

definition zut_bpxwdyn :: "'w wdyn \<Rightarrow> 'w \<Rightarrow> string \<Rightarrow> 32 word \<Rightarrow> string \<Rightarrow> 'w \<times> wdyn_response" where
  "zut_bpxwdyn ZUTWDYN w parm code resp = zut_bpxwdyn_common ZUTWDYN w parm code resp [] []"

definition zut_bpxwdyn_rtdd :: "'w wdyn \<Rightarrow> 'w \<Rightarrow> string \<Rightarrow> 32 word \<Rightarrow> string \<Rightarrow> 'w \<times> wdyn_response" where
  "zut_bpxwdyn_rtdd ZUTWDYN w parm code resp = zut_bpxwdyn_common ZUTWDYN w parm code resp ''RTDDN'' []"

definition zut_bpxwdyn_rtdsn :: "'w wdyn \<Rightarrow> 'w \<Rightarrow> string \<Rightarrow> 32 word \<Rightarrow> string \<Rightarrow> 'w \<times> wdyn_response" where
  "zut_bpxwdyn_rtdsn ZUTWDYN w parm code resp = zut_bpxwdyn_common ZUTWDYN w parm code resp [] ''RTDSN''"

fun loop_dynalloc_from ::
    "'w wdyn \<Rightarrow> 'w \<Rightarrow> zdiag \<Rightarrow> string list \<Rightarrow> 32 word \<Rightarrow> string \<Rightarrow> 'w \<times> zdiag \<times> int" where
  "loop_dynalloc_from ZUTWDYN w d [] code resp = (w, d, 0)"
| "loop_dynalloc_from ZUTWDYN w d (alloc # rest) code resp =
     (let (w', r) = zut_bpxwdyn ZUTWDYN w alloc code resp
      in if wdyn_rc r \<noteq> 0
         then (w', set_msg (''bpxwdyn failed with '' @ [SQUOTE] @ ''bpxwdyn'' @ [SQUOTE] @ '' rc: '' @ [SQUOTE]
                            @ show_int (wdyn_rc r) @ [SQUOTE] @ '', emsg: '' @ [SQUOTE] @ wdyn_resp r @ [SQUOTE])
                     (d\<lparr> detail_rc := ZUT_RTNCD_SERVICE_FAILURE, service_rc := wdyn_rc r,
                         service_name := ''bpxwdyn'' \<rparr>), RTNCD_FAILURE)
         else loop_dynalloc_from ZUTWDYN w' d rest (wdyn_code r) (wdyn_resp r))"

definition zut_loop_dynalloc :: "'w wdyn \<Rightarrow> 'w \<Rightarrow> zdiag \<Rightarrow> string list \<Rightarrow> 'w \<times> zdiag \<times> int" where
  "zut_loop_dynalloc ZUTWDYN w d allocs = loop_dynalloc_from ZUTWDYN w d allocs 0 []"

text \<open>\<open>find\<close> of a string: the first position of the pattern.\<close>

fun find_text :: "string \<Rightarrow> string \<Rightarrow> nat option" where
  "find_text pat [] = (if pat = [] then Some 0 else None)"
| "find_text pat (c # s) =
     (if take (length pat) (c # s) = pat then Some 0 else map_option Suc (find_text pat s))"

definition free_command :: "string \<Rightarrow> string option" where
  "free_command entry =
     (case find_text ''dd('' entry of
        None \<Rightarrow> None
      | Some dd_start \<Rightarrow>
          (case find_index (\<lambda>c. c = CHR '')'') (drop (dd_start + 3) entry) of
             None \<Rightarrow> None
           | Some k \<Rightarrow> Some (''free '' @ take (k + 4) (drop dd_start entry))))"

fun free_commands :: "string list \<Rightarrow> string + string list" where
  "free_commands [] = Inr []"
| "free_commands (e # es) =
     (case free_command e of
        None \<Rightarrow> Inl e
      | Some c \<Rightarrow> (case free_commands es of Inl b \<Rightarrow> Inl b | Inr cs \<Rightarrow> Inr (c # cs)))"

definition zut_free_dynalloc_dds :: "'w wdyn \<Rightarrow> 'w \<Rightarrow> zdiag \<Rightarrow> string list \<Rightarrow> 'w \<times> zdiag \<times> int" where
  "zut_free_dynalloc_dds ZUTWDYN w d entries =
     (case free_commands entries of
        Inl e \<Rightarrow> (w, set_msg (''Invalid format in DD alloc string: '' @ e) d, RTNCD_FAILURE)
      | Inr cs \<Rightarrow> zut_loop_dynalloc ZUTWDYN w d cs)"

end
