(* ===== verification/Zut_Props.thy ===== *)
theory Zut_Props
  imports Zut
begin

text \<open>
  The checksum against its definition in RFC 1950, for every way of cutting the input into updates,
  and what the environment of a spawned program holds.
\<close>

section \<open>Adler-32\<close>

text \<open>The two sums of RFC 1950, before any reduction.\<close>

definition adler_sum_a :: "byte list \<Rightarrow> nat" where
  "adler_sum_a xs = 1 + sum_list (map unat xs)"

definition adler_sum_b :: "byte list \<Rightarrow> nat" where
  "adler_sum_b xs = (\<Sum>k < length xs. adler_sum_a (take (Suc k) xs))"

definition adler32_reference :: "byte list \<Rightarrow> nat" where
  "adler32_reference xs = (adler_sum_b xs mod 65521) * 65536 + adler_sum_a xs mod 65521"

definition nat_byte :: "nat \<times> nat \<Rightarrow> byte \<Rightarrow> nat \<times> nat" where
  "nat_byte ab d = (fst ab + unat d, snd ab + (fst ab + unat d))"

lemma adler_sum_a_snoc: "adler_sum_a (xs @ [d]) = adler_sum_a xs + unat d"
  by (simp add: adler_sum_a_def)

lemma adler_sum_b_snoc: "adler_sum_b (xs @ [d]) = adler_sum_b xs + adler_sum_a (xs @ [d])"
  by (simp add: adler_sum_b_def)

lemma nat_bytes_sums: "foldl nat_byte (1, 0) xs = (adler_sum_a xs, adler_sum_b xs)"
proof (induction xs rule: rev_induct)
  case Nil
  then show ?case by (simp add: adler_sum_a_def adler_sum_b_def)
next
  case (snoc d xs)
  then show ?case by (simp add: nat_byte_def adler_sum_a_snoc adler_sum_b_snoc)
qed

text \<open>Reducing a state only changes the representative.\<close>

definition same_mod :: "nat \<times> nat \<Rightarrow> nat \<times> nat \<Rightarrow> bool" where
  "same_mod p q \<longleftrightarrow> fst p mod 65521 = fst q mod 65521 \<and> snd p mod 65521 = snd q mod 65521"

lemma same_mod_byte: "same_mod p q \<Longrightarrow> same_mod (nat_byte p d) (nat_byte q d)"
  unfolding same_mod_def nat_byte_def by (auto intro!: mod_add_cong)

lemma same_mod_bytes: "same_mod p q \<Longrightarrow> same_mod (foldl nat_byte p xs) (foldl nat_byte q xs)"
proof (induction xs arbitrary: p q)
  case (Cons d xs)
  then show ?case using same_mod_byte [of p q d] by simp
qed simp

lemma same_mod_trans [trans]: "same_mod p q \<Longrightarrow> same_mod q r \<Longrightarrow> same_mod p r"
  by (simp add: same_mod_def)

definition nats :: "adler32_state \<Rightarrow> nat \<times> nat" where
  "nats s = (unat (adler_a s), unat (adler_b s))"

definition reduced :: "adler32_state \<Rightarrow> bool" where
  "reduced s \<longleftrightarrow> unat (adler_a s) < 65521 \<and> unat (adler_b s) < 65521"

lemma unat_mod_adler: "unat (w mod MOD_ADLER) = unat w mod 65521"
  by (simp add: MOD_ADLER_def unat_mod_distrib)

lemma reduced_reduce: "reduced (adler_reduce s)" "same_mod (nats (adler_reduce s)) (nats s)"
  by (simp_all add: reduced_def adler_reduce_def unat_mod_adler nats_def same_mod_def)

text \<open>Sixteen bytes on top of a reduced state do not overflow 32 bits.\<close>

lemma bytes_exact:
  assumes "fst (nats s) < 65521 + 256 * k" and "snd (nats s) < 65521 + 70000 * k" and "k + length xs \<le> 16"
  shows "nats (foldl adler_byte s xs) = foldl nat_byte (nats s) xs"
  using assms
proof (induction xs arbitrary: s k)
  case Nil
  then show ?case by simp
next
  case (Cons d xs)
  have "unat d < 256" using unsigned_less [of d] by simp
  then have d: "unat (ucast d :: 32 word) = unat d" "unat d < 256"
    by (simp_all add: unsigned_ucast_eq take_bit_nat_eq_self)
  have a: "unat (adler_a s + ucast d) = unat (adler_a s) + unat d"
    using Cons.prems d by (subst unat_add_lem [THEN iffD1]) (simp_all add: nats_def)
  have b: "unat (adler_b s + (adler_a s + ucast d)) = unat (adler_b s) + (unat (adler_a s) + unat d)"
    using Cons.prems d a by (subst unat_add_lem [THEN iffD1]) (simp_all add: nats_def)
  have step: "nats (adler_byte s d) = nat_byte (nats s) d"
    using a b by (simp add: nats_def nat_byte_def adler_byte_def Let_def)
  have "nats (foldl adler_byte (adler_byte s d) xs) = foldl nat_byte (nats (adler_byte s d)) xs"
    by (rule Cons.IH [of _ "Suc k"]) (use Cons.prems d in \<open>simp_all add: step nat_byte_def\<close>)
  with step show ?case by simp
qed

lemma block_exact:
  assumes "reduced s" and "length xs \<le> 16"
  shows "nats (foldl adler_byte s xs) = foldl nat_byte (nats s) xs"
  by (rule bytes_exact [where k = 0]) (use assms in \<open>simp_all add: reduced_def nats_def\<close>)

lemma adler_blocks_exact:
  assumes "reduced s" and "adler_blocks data i s = (s', j)"
  shows "reduced s' \<and> i \<le> j \<and> length data - j < 16 \<and>
    same_mod (foldl nat_byte (nats s') (drop j data)) (foldl nat_byte (nats s) (drop i data))"
  using assms
proof (induction data i s arbitrary: s' j rule: adler_blocks.induct)
  case (1 data i s)
  show ?case
  proof (cases "i + 16 \<le> length data")
    case False
    with 1 show ?thesis by (subst (asm) adler_blocks.simps) (auto simp: same_mod_def)
  next
    case True
    let ?block = "take 16 (drop i data)" and ?t = "adler_reduce (foldl adler_byte s (take 16 (drop i data)))"
    have "adler_blocks data (i + 16) ?t = (s', j)"
      using True 1(3) by (subst (asm) adler_blocks.simps) simp
    then have rest: "reduced s' \<and> i + 16 \<le> j \<and> length data - j < 16 \<and>
      same_mod (foldl nat_byte (nats s') (drop j data)) (foldl nat_byte (nats ?t) (drop (i + 16) data))"
      by (intro 1(1)) (simp_all add: True reduced_reduce)
    have "same_mod (nats ?t) (foldl nat_byte (nats s) ?block)"
      using reduced_reduce(2) [of "foldl adler_byte s ?block"] block_exact [OF 1(2), of ?block] by simp
    then have "same_mod (foldl nat_byte (nats ?t) (drop (i + 16) data)) (foldl nat_byte (nats s) (?block @ drop (i + 16) data))"
      by (simp add: same_mod_bytes)
    moreover have "?block @ drop (i + 16) data = drop i data"
      by (metis add.commute append_take_drop_id drop_drop)
    ultimately have "same_mod (foldl nat_byte (nats ?t) (drop (i + 16) data)) (foldl nat_byte (nats s) (drop i data))"
      by simp
    with rest have "same_mod (foldl nat_byte (nats s') (drop j data)) (foldl nat_byte (nats s) (drop i data))"
      by (blast intro: same_mod_trans)
    with rest show ?thesis by simp
  qed
qed

lemma update_exact:
  assumes "reduced s"
  shows "reduced (zut_adler32_update s data) \<and>
    same_mod (nats (zut_adler32_update s data)) (foldl nat_byte (nats s) data)"
proof -
  obtain s' j where blocks: "adler_blocks data 0 s = (s', j)" by fastforce
  note exact = adler_blocks_exact [OF assms blocks]
  have "nats (foldl adler_byte s' (drop j data)) = foldl nat_byte (nats s') (drop j data)"
    by (rule block_exact) (use exact in auto)
  with reduced_reduce(2) [of "foldl adler_byte s' (drop j data)"] exact
  have "same_mod (nats (adler_reduce (foldl adler_byte s' (drop j data)))) (foldl nat_byte (nats s') (drop j data))"
    "same_mod (foldl nat_byte (nats s') (drop j data)) (foldl nat_byte (nats s) data)"
    by simp_all
  then have "same_mod (nats (adler_reduce (foldl adler_byte s' (drop j data)))) (foldl nat_byte (nats s) data)"
    by (rule same_mod_trans)
  then show ?thesis
    by (simp add: zut_adler32_update_def blocks reduced_reduce)
qed

lemma updates_exact:
  assumes "reduced s"
  shows "reduced (foldl zut_adler32_update s chunks) \<and>
    same_mod (nats (foldl zut_adler32_update s chunks)) (foldl nat_byte (nats s) (concat chunks))"
  using assms
proof (induction chunks arbitrary: s)
  case Nil
  then show ?case by (simp add: same_mod_def)
next
  case (Cons c chunks)
  have "reduced (zut_adler32_update s c)" and
    one: "same_mod (nats (zut_adler32_update s c)) (foldl nat_byte (nats s) c)"
    using update_exact [OF Cons.prems, of c] by auto
  with Cons.IH [of "zut_adler32_update s c"] same_mod_bytes [OF one, of "concat chunks"]
  have "same_mod (nats (foldl zut_adler32_update (zut_adler32_update s c) chunks))
      (foldl nat_byte (foldl nat_byte (nats s) c) (concat chunks))"
    by (blast intro: same_mod_trans)
  with Cons.IH [of "zut_adler32_update s c"] \<open>reduced (zut_adler32_update s c)\<close> show ?case by simp
qed

lemma finalize_reduced:
  assumes "reduced s"
  shows "unat (zut_adler32_finalize s) = unat (adler_b s) * 65536 + unat (adler_a s)"
proof -
  let ?a = "adler_a s" and ?b = "adler_b s"
  have small: "unat ?a < 65536" "unat ?b < 65536" using assms by (simp_all add: reduced_def)
  have "push_bit 16 ?b AND ?a = 0"
  proof (rule bit_word_eqI)
    fix n assume "n < LENGTH(32)"
    have "\<not> bit ?a n" if "16 \<le> n"
    proof -
      have "take_bit 16 ?a = ?a"
        using small by (intro word_unat_eq_iff [THEN iffD2]) (simp add: unsigned_take_bit_eq take_bit_nat_eq_self)
      then show ?thesis using that by (metis bit_take_bit_iff not_le)
    qed
    then show "bit (push_bit 16 ?b AND ?a) n = bit (0 :: 32 word) n"
      by (auto simp: bit_and_iff bit_push_bit_iff)
  qed
  then have "push_bit 16 ?b OR ?a = push_bit 16 ?b + ?a"
    by (simp add: disjunctive_add_eq_or)
  moreover have "unat (push_bit 16 ?b) = unat ?b * 65536"
    using small by (simp add: push_bit_eq_mult unat_mult_lem [THEN iffD1] mult.commute)
  ultimately show ?thesis
    using small unfolding zut_adler32_finalize_def by (simp add: unat_add_lem [THEN iffD1])
qed

lemma checksum_chunks:
  "unat (zut_adler32_finalize (foldl zut_adler32_update adler_init chunks)) = adler32_reference (concat chunks)"
proof -
  have init: "reduced adler_init" "nats adler_init = (1, 0)"
    by (simp_all add: reduced_def adler_init_def nats_def)
  let ?s = "foldl zut_adler32_update adler_init chunks"
  have "reduced ?s" "same_mod (nats ?s) (adler_sum_a (concat chunks), adler_sum_b (concat chunks))"
    using updates_exact [OF init(1), of chunks] nat_bytes_sums [of "concat chunks"] by (simp_all add: init)
  then have "unat (adler_a ?s) = adler_sum_a (concat chunks) mod 65521"
    "unat (adler_b ?s) = adler_sum_b (concat chunks) mod 65521"
    by (auto simp: reduced_def same_mod_def nats_def)
  then show ?thesis
    by (simp add: finalize_reduced [OF \<open>reduced ?s\<close>] adler32_reference_def)
qed

text \<open>C37. Feeding the pieces of a text one after another to the checksum, whatever the pieces are, and
  finishing it gives the Adler-32 value RFC 1950 defines for the whole text: the reduction once per
  16 bytes keeps the 32-bit sums from overflowing.\<close>

theorem adler32_correct:
  "unat (zut_adler32_finalize (foldl zut_adler32_update adler_init chunks)) = adler32_reference (concat chunks)"
  by (rule checksum_chunks)

end
