(* ===== verification/Zds_Text.thy ===== *)
theory Zds_Text
  imports Zut
begin

text \<open>
  The pure parts of \<open>zds.cpp\<close> that deal with names, formats and lines of text: record formats and
  the record length that is left for the text, member names and wildcards, the tracker of truncated
  lines of \<open>zut.hpp\<close>, and the conversion of blank lines and form feeds into ASA control characters.

  Names are strings; the contents of data sets are lists of bytes.
\<close>

unbundle bit_operations_syntax

section \<open>Record formats\<close>

text \<open>The bits of \<open>DCBRECFM\<close> and of \<open>fldata_t\<close> the code reads.\<close>

definition dcbrecv :: byte where "dcbrecv = 0x40"
definition dcbrecu :: byte where "dcbrecu = 0xC0"
definition dcbrecbr :: byte where "dcbrecbr = 0x10"
definition dcbrecca :: byte where "dcbrecca = 0x04"

definition get_effective_lrecl :: "byte \<Rightarrow> int \<Rightarrow> int" where
  "get_effective_lrecl dcbrecfm dcblrecl =
     (let lrecl = (if dcbrecfm AND dcbrecv \<noteq> 0 then dcblrecl - 4 else dcblrecl)
      in if dcbrecfm AND dcbrecca \<noteq> 0 then lrecl - 1 else lrecl)"

record fldata =
  recfmF :: bool
  recfmV :: bool
  recfmU :: bool
  recfmBlk :: bool
  recfmB :: bool
  recfmS :: bool
  recfmASA :: bool
  recfmM :: bool

definition zds_get_recfm :: "fldata \<Rightarrow> string" where
  "zds_get_recfm fi =
     (let blocked = recfmBlk fi \<or> recfmB fi;
          controls = (if recfmASA fi then ''A'' else []) @ (if recfmM fi then ''M'' else [])
      in if recfmF fi
         then (if blocked then (if recfmS fi then ''FBS'' else ''FB'') else ''F'') @ controls
         else if recfmV fi
         then (if blocked then (if recfmS fi then ''VBS'' else ''VB'') else ''V'') @ controls
         else ''U'')"

record dscb_attributes =
  at_recfm :: string
  at_lrecl :: int
  at_blksize :: int
  at_is_asa :: bool

definition dscb_attributes_init :: dscb_attributes where
  "dscb_attributes_init = \<lparr> at_recfm = [], at_lrecl = 0, at_blksize = 0, at_is_asa = False \<rparr>"

definition zds_build_text_write_flags :: "dscb_attributes \<Rightarrow> string" where
  "zds_build_text_write_flags attrs =
     (if at_recfm attrs = [] then ''w,recfm=*''
      else ''w,recfm='' @ at_recfm attrs
        @ (if 0 < at_lrecl attrs then '',lrecl='' @ show_int (at_lrecl attrs) else [])
        @ (if 0 < at_blksize attrs then '',blksize='' @ show_int (at_blksize attrs) else []))"

definition get_effective_lrecl_from_attrs :: "dscb_attributes \<Rightarrow> int" where
  "get_effective_lrecl_from_attrs attrs =
     (let lrecl = (if CHR ''V'' \<in> set (at_recfm attrs) then at_lrecl attrs - 4 else at_lrecl attrs)
      in if at_is_asa attrs then lrecl - 1 else lrecl)"

definition zds_write_recfm_unsupported :: "string \<Rightarrow> bool \<Rightarrow> bool" where
  "zds_write_recfm_unsupported recfm include_standard \<longleftrightarrow>
     recfm = ''U'' \<or> (include_standard \<and> CHR ''S'' \<in> set recfm)"

section \<open>Names\<close>

definition national :: "char \<Rightarrow> bool" where
  "national c \<longleftrightarrow> c = CHR ''#'' \<or> c = CHR ''@'' \<or> c = CHR ''$''"

definition zds_is_valid_member_name :: "string \<Rightarrow> bool" where
  "zds_is_valid_member_name name \<longleftrightarrow>
     \<not> (8 < length name \<or> name = []) \<and> (isalpha (hd name) \<or> national (hd name))
     \<and> list_all (\<lambda>c. isalnum c \<or> national c) (tl name)"

definition zds_has_member :: "string \<Rightarrow> bool" where
  "zds_has_member dsn =
     (case (find_index (\<lambda>c. c = CHR ''('') dsn, find_index (\<lambda>c. c = CHR '')'') dsn) of
        (Some i, Some j) \<Rightarrow> i < j
      | _ \<Rightarrow> False)"

definition zds_get_base_dsn :: "string \<Rightarrow> string" where
  "zds_get_base_dsn dsn =
     (case find_index (\<lambda>c. c = CHR ''('') dsn of Some i \<Rightarrow> take i dsn | None \<Rightarrow> dsn)"

text \<open>The two names \<open>zds_get_type_info\<close> takes a data set name apart into.\<close>

definition split_dsn :: "string \<Rightarrow> string \<times> string" where
  "split_dsn dsn =
     (let (base, member) =
        (case find_index (\<lambda>c. c = CHR ''('') dsn of
           None \<Rightarrow> (dsn, [])
         | Some i \<Rightarrow>
             (take i dsn,
              case find_index (\<lambda>c. c = CHR '')'') (drop i dsn) of
                None \<Rightarrow> []
              | Some k \<Rightarrow> if 1 < k then take (k - 1) (drop (i + 1) dsn) else []))
      in (map toupper (zut_trim '' '' base), map toupper (zut_trim '' '' member)))"

text \<open>
  \<open>is_match\<close>: the pointers are the rest of the texts, the null byte is the end of the list; the
  result is the rest of the pattern when the string is used up, and \<open>None\<close> for an early \<open>false\<close>.
  \<open>star\<close> holds \<open>star_p\<close> and \<open>star_s\<close>.
\<close>

partial_function (option) match_loop ::
    "string \<Rightarrow> string \<Rightarrow> (string \<times> string) option \<Rightarrow> string option option" where
  "match_loop s p star =
     (if s = [] then Some (Some p)
      else if p \<noteq> [] \<and> (hd p = CHR ''?'' \<or> hd p = hd s) then match_loop (tl s) (tl p) star
      else if p \<noteq> [] \<and> hd p = CHR ''*'' then match_loop s (tl p) (Some (p, s))
      else (case star of
              Some (star_p, star_s) \<Rightarrow> match_loop (tl star_s) (tl star_p) (Some (star_p, tl star_s))
            | None \<Rightarrow> Some None))"

definition is_match :: "string \<Rightarrow> string \<Rightarrow> bool option" where
  "is_match s p =
     map_option (\<lambda>r. case r of None \<Rightarrow> False | Some q \<Rightarrow> dropWhile (\<lambda>c. c = CHR ''*'') q = [])
       (match_loop s p None)"

section \<open>The tracker of truncated lines\<close>

record truncation_tracker =
  tt_count :: int
  range_start :: int
  range_end :: int
  lines_str :: string

definition truncation_init :: truncation_tracker where
  "truncation_init = \<lparr> tt_count = 0, range_start = - 1, range_end = - 1, lines_str = [] \<rparr>"

definition flush_range :: "truncation_tracker \<Rightarrow> truncation_tracker" where
  "flush_range t =
     (if range_start t = - 1 then t
      else t\<lparr> lines_str := lines_str t @ (if lines_str t \<noteq> [] then '', '' else [])
                @ (if range_start t = range_end t then show_int (range_start t)
                   else show_int (range_start t) @ ''-'' @ show_int (range_end t)),
              range_start := - 1, range_end := - 1 \<rparr>)"

definition add_line :: "int \<Rightarrow> truncation_tracker \<Rightarrow> truncation_tracker" where
  "add_line line_num t0 =
     (let t = t0\<lparr> tt_count := tt_count t0 + 1 \<rparr>
      in if range_start t = - 1 then t\<lparr> range_start := line_num, range_end := line_num \<rparr>
         else if line_num = range_end t + 1 then t\<lparr> range_end := line_num \<rparr>
         else (flush_range t)\<lparr> range_start := line_num, range_end := line_num \<rparr>)"

definition get_warning_message :: "truncation_tracker \<Rightarrow> string" where
  "get_warning_message t = show_int (tt_count t) @ '' line(s) truncated to fit LRECL: '' @ lines_str t"

text \<open>\<open>static_cast<int>\<close> of a size.\<close>

definition int_of_size :: "nat \<Rightarrow> int" where
  "int_of_size n = sint (of_nat n :: 32 word)"

definition CR_CHAR :: byte where "CR_CHAR = 0x0D"
definition FF_CHAR :: byte where "FF_CHAR = 0x0C"

definition strip_cr :: "byte list \<Rightarrow> byte list" where
  "strip_cr line = (if line \<noteq> [] \<and> last line = CR_CHAR then butlast line else line)"

text \<open>
  The loops of \<open>scan_for_truncated_lines\<close>; the first argument list is the data from \<open>pos\<close> on.
\<close>

function scan_lines ::
    "byte \<Rightarrow> int \<Rightarrow> byte list \<Rightarrow> int \<Rightarrow> truncation_tracker \<Rightarrow> byte list \<times> int \<times> truncation_tracker" where
  "scan_lines newline_char max_len data line_num t =
     (case find_index (\<lambda>b. b = newline_char) data of
        None \<Rightarrow> (data, line_num, t)
      | Some k \<Rightarrow>
          scan_lines newline_char max_len (drop (Suc k) data) (line_num + 1)
            (if max_len < int_of_size (length (strip_cr (take k data))) then add_line (line_num + 1) t else t))"
  by pat_completeness auto
termination
  by (relation "measure (\<lambda>(_, _, data, _, _). length data)") (auto simp: find_index_Some)

declare scan_lines.simps [simp del]

definition scan_rest :: "int \<Rightarrow> byte list \<times> int \<times> truncation_tracker \<Rightarrow> int \<times> truncation_tracker" where
  "scan_rest max_len st =
     (let (data, line_num, t) = st
      in if data \<noteq> []
         then (line_num + 1, if max_len < int_of_size (length (strip_cr data)) then add_line (line_num + 1) t else t)
         else (line_num, t))"

definition scan_for_truncated_lines ::
    "byte list \<Rightarrow> int \<Rightarrow> byte \<Rightarrow> truncation_tracker \<Rightarrow> truncation_tracker" where
  "scan_for_truncated_lines data max_len newline_char t =
     flush_range (snd (scan_rest max_len (scan_lines newline_char max_len data 0 t)))"

section \<open>ASA control characters\<close>

definition ASA_TRIPLE_SPACE_LINES :: int where "ASA_TRIPLE_SPACE_LINES = 3"

record asa_state =
  blank_count :: int
  is_first_line :: bool

definition asa_init :: asa_state where
  "asa_init = \<lparr> blank_count = 0, is_first_line = True \<rparr>"

definition has_overflow_blanks :: "asa_state \<Rightarrow> bool \<times> asa_state" where
  "has_overflow_blanks st =
     (if ASA_TRIPLE_SPACE_LINES \<le> blank_count st
      then (True, st\<lparr> blank_count := blank_count st - ASA_TRIPLE_SPACE_LINES \<rparr>) else (False, st))"

function overflow_loop :: "asa_state \<Rightarrow> nat \<Rightarrow> asa_state \<times> nat" where
  "overflow_loop st overflow_records =
     (case has_overflow_blanks st of
        (True, st') \<Rightarrow> overflow_loop st' (overflow_records + 1)
      | (False, st') \<Rightarrow> (st', overflow_records))"
  by pat_completeness auto
termination
  by (relation "measure (\<lambda>(st, _). nat (blank_count st))")
    (auto simp: has_overflow_blanks_def ASA_TRIPLE_SPACE_LINES_def split: if_splits)

declare overflow_loop.simps [simp del]

definition get_asa_char_and_reset :: "bool \<Rightarrow> asa_state \<Rightarrow> byte \<times> asa_state" where
  "get_asa_char_and_reset has_formfeed st =
     (ebcdic (if has_formfeed then CHR ''1''
              else if blank_count st = 1 then CHR ''0''
              else if blank_count st = 2 then CHR ''-'' else SPACE),
      st\<lparr> blank_count := 0, is_first_line := False \<rparr>)"

text \<open>\<open>process_line_internal\<close>: whether the line is skipped, whether it had a form feed, and the line.\<close>

definition process_line_internal :: "byte list \<Rightarrow> asa_state \<Rightarrow> (bool \<times> bool \<times> byte list) \<times> asa_state" where
  "process_line_internal line st =
     (let has_formfeed = (line \<noteq> [] \<and> hd line = FF_CHAR);
          line' = (if has_formfeed then tl line else line)
      in if line' = [] \<and> \<not> has_formfeed
         then ((True, has_formfeed, line'), st\<lparr> blank_count := blank_count st + 1 \<rparr>)
         else ((False, has_formfeed, line'), st))"

record prepare_result =
  skip_line :: bool
  overflow_records :: nat
  asa_char :: byte

definition prepare_line :: "byte list \<Rightarrow> asa_state \<Rightarrow> prepare_result \<times> byte list \<times> asa_state" where
  "prepare_line line st =
     (case process_line_internal line st of
        ((True, _, line'), st') \<Rightarrow> (\<lparr> skip_line = True, overflow_records = 0, asa_char = 0 \<rparr>, line', st')
      | ((False, has_formfeed, line'), st') \<Rightarrow>
          (let (st'', n) = overflow_loop st' 0;
               (c, st3) = get_asa_char_and_reset has_formfeed st''
           in (\<lparr> skip_line = False, overflow_records = n, asa_char = c \<rparr>, line', st3)))"

section \<open>Packed times\<close>

definition packed_digits :: "byte \<Rightarrow> nat" where
  "packed_digits b = (unat b div 16) * 10 + unat b mod 16"

definition format_02d :: "nat \<Rightarrow> string" where
  "format_02d n = (if n < 10 then CHR ''0'' # show_nat n else show_nat n)"

definition parse_packed_time :: "byte \<Rightarrow> byte \<Rightarrow> byte \<Rightarrow> string" where
  "parse_packed_time hours_byte minutes_byte seconds_byte =
     (let hh = packed_digits hours_byte; mm = packed_digits minutes_byte; ss = packed_digits seconds_byte
      in if hours_byte = 0 \<and> minutes_byte = 0 \<and> seconds_byte = 0 then []
         else if 23 < hh \<or> 59 < mm \<or> 59 < ss then []
         else format_02d hh @ '':'' @ format_02d mm @ '':'' @ format_02d ss)"

end
