(* ===== verification/Zds_Text_Props.thy ===== *)
theory Zds_Text_Props
  imports Zds_Text
begin

text \<open>
  What the pure parts of \<open>zds.cpp\<close> achieve: the wildcard matcher against its declarative meaning,
  the report of truncated lines, and the printed form of the ASA records made from a text.
\<close>

section \<open>Wildcards\<close>

text \<open>The meaning of a pattern: a star matches any text, a question mark any character.\<close>

fun wildcard :: "string \<Rightarrow> string \<Rightarrow> bool" where
  "wildcard [] s \<longleftrightarrow> s = []"
| "wildcard (x # p) s \<longleftrightarrow>
     (if x = CHR ''*'' then \<exists>u \<in> set (suffixes s). wildcard p u
      else s \<noteq> [] \<and> (x = CHR ''?'' \<or> x = hd s) \<and> wildcard p (tl s))"

lemma wildcard_star: "wildcard (CHR ''*'' # p) s \<longleftrightarrow> (\<exists>u. suffix u s \<and> wildcard p u)"
  by auto

lemma wildcard_stars: "wildcard p [] \<longleftrightarrow> dropWhile (\<lambda>c. c = CHR ''*'') p = []"
  by (induction p) auto

lemma wildcard_literal:
  "CHR ''*'' \<notin> set seg \<Longrightarrow> wildcard (seg @ p) u \<Longrightarrow> \<exists>t v. u = t @ v \<and> length t = length seg \<and> wildcard p v"
proof (induction seg arbitrary: u)
  case (Cons x seg)
  then obtain c u' where u: "u = c # u'" and "wildcard (seg @ p) u'"
    by (cases u) auto
  then obtain t v where "u' = t @ v" "length t = length seg" "wildcard p v"
    using Cons.IH [of u'] Cons.prems(1) by auto
  with u have "u = (c # t) @ v \<and> length (c # t) = length (x # seg) \<and> wildcard p v" by simp
  then show ?case by blast
qed simp

text \<open>
  The loop remembers one star. The alternative it still has is that the star takes more characters
  than it has so far; the text between the star and the pattern pointer holds no other star.
\<close>

definition star_inv :: "string \<Rightarrow> string \<Rightarrow> (string \<times> string) option \<Rightarrow> bool" where
  "star_inv s p star \<longleftrightarrow>
     (case star of None \<Rightarrow> True
      | Some (sp, ss) \<Rightarrow> sp \<noteq> [] \<and>
          (\<exists>seg t. tl sp = seg @ p \<and> ss = t @ s \<and> length t = length seg \<and> CHR ''*'' \<notin> set seg))"

lemma star_inv_Some:
  "star_inv s p (Some (sp, ss)) \<longleftrightarrow> sp \<noteq> [] \<and>
     (\<exists>seg t. tl sp = seg @ p \<and> ss = t @ s \<and> length t = length seg \<and> CHR ''*'' \<notin> set seg)"
  by (simp add: star_inv_def)

lemma star_inv_fresh: "p \<noteq> [] \<Longrightarrow> star_inv s (tl p) (Some (p, s))"
  unfolding star_inv_Some by (intro conjI exI [of _ "[]"]) auto

lemma strict_suffix_Cons: "strict_suffix u (c # s) \<longleftrightarrow> suffix u s"
  by (auto simp: strict_suffix_def suffix_Cons dest: suffix_length_le)

definition star_alt :: "(string \<times> string) option \<Rightarrow> bool" where
  "star_alt star \<longleftrightarrow>
     (case star of None \<Rightarrow> False | Some (sp, ss) \<Rightarrow> \<exists>u. strict_suffix u ss \<and> wildcard (tl sp) u)"

definition match_accepts :: "string option \<Rightarrow> bool" where
  "match_accepts r \<longleftrightarrow> (case r of None \<Rightarrow> False | Some q \<Rightarrow> dropWhile (\<lambda>c. c = CHR ''*'') q = [])"

definition match_order :: "nat \<Rightarrow> ((string \<times> string \<times> (string \<times> string) option) \<times> (string \<times> string \<times> (string \<times> string) option)) set" where
  "match_order n = (\<lambda>(s, p, star). case star of None \<Rightarrow> Suc n | Some (sp, _) \<Rightarrow> length sp)
     <*mlex*> ((\<lambda>(s, p, star). case star of None \<Rightarrow> 0 | Some (_, ss) \<Rightarrow> length ss)
     <*mlex*> ((\<lambda>(s, p, star). length s) <*mlex*> {}))"

lemma match_order_wf: "wf (match_order n)"
  by (simp add: match_order_def wf_mlex)

lemma star_alt_done: "star_inv [] p star \<Longrightarrow> \<not> star_alt star"
proof (cases star)
  case (Some a)
  obtain sp ss where a: "a = (sp, ss)" by (cases a)
  assume "star_inv [] p star"
  then obtain seg where seg: "tl sp = seg @ p" "length ss = length seg" "CHR ''*'' \<notin> set seg"
    by (auto simp: star_inv_def Some a)
  show ?thesis
  proof
    assume "star_alt star"
    then obtain u where u: "strict_suffix u ss" "wildcard (seg @ p) u"
      by (auto simp: star_alt_def Some a seg)
    from wildcard_literal [OF seg(3) u(2)] have "length seg \<le> length u" by auto
    moreover have "length u < length ss"
      using u(1) by (auto simp: strict_suffix_def suffix_def)
    ultimately show False using seg by simp
  qed
qed (simp add: star_alt_def)

lemma star_alt_next:
  assumes inv: "star_inv s (CHR ''*'' # p) star" and alt: "star_alt star"
  shows "wildcard (CHR ''*'' # p) s"
proof -
  obtain sp ss where star: "star = Some (sp, ss)"
    using alt by (auto simp: star_alt_def split: option.splits)
  obtain seg t where seg: "tl sp = seg @ CHR ''*'' # p" "ss = t @ s" "length t = length seg" "CHR ''*'' \<notin> set seg"
    using inv by (auto simp: star_inv_def star)
  obtain u where u: "strict_suffix u ss" "wildcard (seg @ CHR ''*'' # p) u"
    using alt seg by (auto simp: star_alt_def star)
  obtain t' v where v: "u = t' @ v" "length t' = length seg" "wildcard (CHR ''*'' # p) v"
    using wildcard_literal [OF seg(4) u(2)] by auto
  have "length v \<le> length s"
    using u(1) seg v by (auto simp: strict_suffix_def suffix_def dest!: arg_cong [where f = length])
  moreover have "suffix v (t @ s)"
    using u(1) seg v by (auto simp: strict_suffix_def suffix_def)
  ultimately have "suffix v s"
    by (meson suffixI suffix_length_suffix)
  with v(3) show ?thesis
    unfolding wildcard_star by (meson suffix_order.trans)
qed

lemma star_alt_retry:
  assumes inv: "star_inv s p (Some (sp, ss))" and "s \<noteq> []" and mismatch: "\<not> wildcard p s"
  shows "star_alt (Some (sp, ss)) \<longleftrightarrow> wildcard (tl sp) (tl ss) \<or> star_alt (Some (sp, tl ss))"
    and "ss \<noteq> []" and "star_inv (tl ss) (tl sp) (Some (sp, tl ss))"
proof -
  obtain seg t where seg: "tl sp = seg @ p" "ss = t @ s" and sp: "sp \<noteq> []"
    using inv by (auto simp: star_inv_def)
  show ss: "ss \<noteq> []" using seg \<open>s \<noteq> []\<close> by simp
  from ss obtain c ss' where "ss = c # ss'" by (cases ss) auto
  moreover have "suffix u ss' \<longleftrightarrow> u = ss' \<or> strict_suffix u ss'" for u
    by (auto simp: strict_suffix_def)
  ultimately show "star_alt (Some (sp, ss)) \<longleftrightarrow> wildcard (tl sp) (tl ss) \<or> star_alt (Some (sp, tl ss))"
    by (auto simp: star_alt_def strict_suffix_Cons)
  show "star_inv (tl ss) (tl sp) (Some (sp, tl ss))"
    using sp by (rule star_inv_fresh)
qed

lemma match_loop_correct:
  assumes "star_inv s p star" and "length p \<le> n" and "CHR ''*'' \<notin> set s"
    and "\<And>sp ss. star = Some (sp, ss) \<Longrightarrow> CHR ''*'' \<notin> set ss \<and> length sp \<le> n"
  shows "\<exists>r. match_loop s p star = Some r \<and> (match_accepts r \<longleftrightarrow> wildcard p s \<or> star_alt star)"
  using match_order_wf [of n] assms
proof (induction "(s, p, star)" arbitrary: s p star rule: wf_induct_rule)
  case less
  note unfold = match_loop.simps [of s p star]
  consider (finished) "s = []"
    | (char) c s' x p' where "s = c # s'" "p = x # p'" "x = CHR ''?'' \<or> x = c" "x \<noteq> CHR ''*''"
    | (new_star) c s' p' where "s = c # s'" "p = CHR ''*'' # p'" "c \<noteq> CHR ''*''"
    | (mismatch) c s' where "s = c # s'" "p \<noteq> [] \<longrightarrow> hd p \<noteq> CHR ''?'' \<and> hd p \<noteq> c \<and> hd p \<noteq> CHR ''*''"
    using less.prems(3) by (cases s; cases p) auto
  then show ?case
  proof cases
    case finished
    then show ?thesis
      using less.prems(1) star_alt_done [of p star] wildcard_stars [of p] unfold
      by (simp add: match_accepts_def)
  next
    case char
    have "star_inv s' p' star"
    proof (cases star)
      case (Some a)
      obtain sp ss where a: "a = (sp, ss)" by (cases a)
      obtain seg t where "sp \<noteq> []" "tl sp = seg @ p" "ss = t @ s" "length t = length seg" "CHR ''*'' \<notin> set seg"
        using less.prems(1) by (auto simp: star_inv_def Some a)
      then have "tl sp = (seg @ [x]) @ p'" "ss = (t @ [c]) @ s'" "length (t @ [c]) = length (seg @ [x])"
        "CHR ''*'' \<notin> set (seg @ [x])" "sp \<noteq> []"
        using char by auto
      then show ?thesis unfolding Some a star_inv_Some by blast
    qed (simp add: star_inv_def)
    moreover have "((s', p', star), (s, p, star)) \<in> match_order n"
      by (simp add: match_order_def mlex_iff char)
    ultimately have "\<exists>r. match_loop s' p' star = Some r \<and> (match_accepts r \<longleftrightarrow> wildcard p' s' \<or> star_alt star)"
      using less.prems char by (intro less.hyps) auto
    then show ?thesis using char unfold by auto
  next
    case new_star
    have inv: "star_inv s p' (Some (p, s))"
      using new_star star_inv_fresh [of p s] by simp
    have "((s, p', Some (p, s)), (s, p, star)) \<in> match_order n"
    proof (cases "star")
      case None
      then show ?thesis using less.prems(2) by (simp add: match_order_def mlex_iff)
    next
      case (Some a)
      then have "length p < length (fst a)"
        using less.prems(1) by (cases a; cases "fst a") (auto simp: star_inv_Some)
      with Some show ?thesis by (cases a) (simp add: match_order_def mlex_iff)
    qed
    then have "\<exists>r. match_loop s p' (Some (p, s)) = Some r \<and>
        (match_accepts r \<longleftrightarrow> wildcard p' s \<or> star_alt (Some (p, s)))"
      using less.prems new_star inv by (intro less.hyps) auto
    moreover have "wildcard p' s \<or> star_alt (Some (p, s)) \<longleftrightarrow> wildcard p s"
    proof -
      have "suffix u s \<longleftrightarrow> u = s \<or> strict_suffix u s" for u
        by (auto simp: strict_suffix_def)
      then show ?thesis
        using new_star(2) wildcard_star [of p' s] by (auto simp: star_alt_def)
    qed
    moreover have "star_alt star \<Longrightarrow> wildcard p s"
      using star_alt_next [of s p' star] less.prems(1) new_star by simp
    ultimately show ?thesis using new_star unfold by auto
  next
    case mismatch
    then have no: "\<not> wildcard p s" by (cases p) auto
    show ?thesis
    proof (cases star)
      case None
      then show ?thesis using mismatch no unfold by (auto simp: star_alt_def match_accepts_def)
    next
      case (Some a)
      obtain sp ss where a: "a = (sp, ss)" by (cases a)
      note retry = star_alt_retry [OF less.prems(1) [unfolded Some a] _ no]
      have "s \<noteq> []" using mismatch by simp
      note retry = retry [OF this]
      have "((tl ss, tl sp, Some (sp, tl ss)), (s, p, star)) \<in> match_order n"
        using retry(2) by (simp add: match_order_def mlex_iff Some a)
      then have "\<exists>r. match_loop (tl ss) (tl sp) (Some (sp, tl ss)) = Some r \<and>
        (match_accepts r \<longleftrightarrow> wildcard (tl sp) (tl ss) \<or> star_alt (Some (sp, tl ss)))"
        using less.prems(4) [OF Some [unfolded a]] retry(3)
        by (intro less.hyps) (auto dest: list.set_sel(2) [OF retry(2)])
      then show ?thesis using mismatch no retry unfold by (auto simp: Some a)
    qed
  qed
qed

text \<open>C38. Wildcard matching of member names always ends, and it accepts a name that holds no star
  itself exactly when the pattern matches it with every star standing for some text and every
  question mark for one character: remembering only the last star loses no match.\<close>

theorem is_match_wildcard:
  assumes "CHR ''*'' \<notin> set s"
  shows "is_match s p = Some (wildcard p s)"
proof -
  obtain r where "match_loop s p None = Some r" "match_accepts r \<longleftrightarrow> wildcard p s"
    using match_loop_correct [of s p None "length p"] assms by (auto simp: star_inv_def star_alt_def)
  then show ?thesis
    by (simp add: is_match_def match_accepts_def)
qed

theorem is_match_wildcard_witness:
  "is_match ''PAYROLL1'' ''*A?R*L?'' = Some True \<and> is_match ''PAYROLL1'' ''*A?R*L'' = Some False"
  by (simp add: is_match_wildcard)

section \<open>The report of truncated lines\<close>

text \<open>The lines of a text: a last line without a line end counts when it is not empty.\<close>

function text_lines :: "byte \<Rightarrow> byte list \<Rightarrow> byte list list" where
  "text_lines nl data =
     (case find_index (\<lambda>b. b = nl) data of
        None \<Rightarrow> if data = [] then [] else [data]
      | Some k \<Rightarrow> take k data # text_lines nl (drop (Suc k) data))"
  by pat_completeness auto
termination
  by (relation "measure (\<lambda>(_, data). length data)") (auto simp: find_index_Some)

declare text_lines.simps [simp del]

definition too_long :: "int \<Rightarrow> byte list \<Rightarrow> bool" where
  "too_long max_len line \<longleftrightarrow> max_len < int (length (strip_cr line))"

fun numbered :: "('a \<Rightarrow> bool) \<Rightarrow> 'a list \<Rightarrow> int \<Rightarrow> int list" where
  "numbered P [] n = []"
| "numbered P (x # xs) n = (if P x then [n] else []) @ numbered P xs (n + 1)"

text \<open>The numbers of the lines that do not fit, counted from one.\<close>

definition long_lines :: "byte \<Rightarrow> int \<Rightarrow> byte list \<Rightarrow> int list" where
  "long_lines nl max_len data = numbered (too_long max_len) (text_lines nl data) 1"

definition show_range :: "int \<times> int \<Rightarrow> string" where
  "show_range r = (if fst r = snd r then show_int (fst r) else show_int (fst r) @ ''-'' @ show_int (snd r))"

fun show_ranges :: "(int \<times> int) list \<Rightarrow> string" where
  "show_ranges [] = []"
| "show_ranges [r] = show_range r"
| "show_ranges (r # r' # rs) = show_range r @ '', '' @ show_ranges (r' # rs)"

definition expand :: "(int \<times> int) list \<Rightarrow> int list" where
  "expand rs = concat (map (\<lambda>(a, b). [a..b]) rs)"

text \<open>Ranges that could not be fewer: each is not empty, and a line is missing between two of them.\<close>

definition ranges_ok :: "(int \<times> int) list \<Rightarrow> bool" where
  "ranges_ok rs \<longleftrightarrow> (\<forall>r \<in> set rs. 1 \<le> fst r \<and> fst r \<le> snd r) \<and> sorted_wrt (\<lambda>r r'. snd r + 1 < fst r') rs"

lemma show_range_not_Nil [simp]: "show_range r \<noteq> []"
proof -
  have "show_nat n \<noteq> []" for n by (subst show_nat.simps) simp
  then show ?thesis by (simp add: show_range_def show_int_def)
qed

lemma show_ranges_Nil [simp]: "show_ranges rs = [] \<longleftrightarrow> rs = []"
  by (induction rs rule: show_ranges.induct) auto

lemma show_ranges_snoc:
  "show_ranges (rs @ [r]) = show_ranges rs @ (if rs = [] then [] else '', '') @ show_range r"
  by (induction rs rule: show_ranges.induct) auto

text \<open>What a tracker stands for: the ranges it has printed and the one it is collecting.\<close>

definition tracks :: "truncation_tracker \<Rightarrow> (int \<times> int) list \<Rightarrow> (int \<times> int) option \<Rightarrow> bool" where
  "tracks t rs cur \<longleftrightarrow> lines_str t = show_ranges rs \<and>
     (range_start t, range_end t) = (case cur of None \<Rightarrow> (- 1, - 1) | Some r \<Rightarrow> r) \<and>
     ranges_ok (rs @ (case cur of None \<Rightarrow> [] | Some r \<Rightarrow> [r]))"

definition all_ranges :: "(int \<times> int) list \<Rightarrow> (int \<times> int) option \<Rightarrow> (int \<times> int) list" where
  "all_ranges rs cur = rs @ (case cur of None \<Rightarrow> [] | Some r \<Rightarrow> [r])"

definition reports :: "truncation_tracker \<Rightarrow> int list \<Rightarrow> bool" where
  "reports t ls \<longleftrightarrow> tt_count t = int (length ls) \<and>
     (\<exists>rs cur. tracks t rs cur \<and> (cur = None \<longrightarrow> rs = []) \<and> expand (all_ranges rs cur) = ls)"

lemma reports_init: "reports truncation_init []"
proof -
  have "tracks truncation_init [] None" by (simp add: tracks_def truncation_init_def ranges_ok_def)
  then show ?thesis
    unfolding reports_def all_ranges_def
    by (intro conjI exI [of _ "[]"] exI [of _ None]) (simp_all add: truncation_init_def expand_def)
qed

lemma expand_snoc: "expand (rs @ [r]) = expand rs @ [fst r..snd r]"
  by (cases r) (simp add: expand_def)

lemma ranges_ok_snoc:
  "ranges_ok (rs @ [r]) \<longleftrightarrow> ranges_ok rs \<and> 1 \<le> fst r \<and> fst r \<le> snd r \<and> (\<forall>q \<in> set rs. snd q + 1 < fst r)"
  by (auto simp: ranges_ok_def sorted_wrt_append)

lemma tracks_flush:
  assumes "tracks t rs (Some r)"
  shows "tracks (flush_range t) (rs @ [r]) None"
proof -
  have "range_start t \<noteq> - 1"
    using assms by (auto simp: tracks_def ranges_ok_snoc)
  with assms show ?thesis
    by (auto simp: tracks_def flush_range_def show_ranges_snoc show_range_def)
qed

lemma tt_count_flush [simp]: "tt_count (flush_range t) = tt_count t"
  by (simp add: flush_range_def)

text \<open>Adding a line after all lines so far extends the last range or starts a new one.\<close>

lemma reports_add:
  assumes rep: "reports t ls" and later: "\<forall>l \<in> set ls. l < n" and "1 \<le> n"
  shows "reports (add_line n t) (ls @ [n])"
proof -
  obtain rs cur where tr: "tracks t rs cur" and start: "cur = None \<longrightarrow> rs = []"
    and ls: "expand (all_ranges rs cur) = ls" and cnt: "tt_count t = int (length ls)"
    using rep by (auto simp: reports_def)
  have "\<exists>rs' r. tracks (add_line n t) rs' (Some r) \<and> expand (all_ranges rs' (Some r)) = ls @ [n]"
  proof (cases cur)
    case None
    then have "tracks (add_line n t) [] (Some (n, n))"
      using tr start \<open>1 \<le> n\<close> by (simp add: tracks_def add_line_def ranges_ok_def Let_def)
    moreover have "expand (all_ranges [] (Some (n, n))) = ls @ [n]"
      using None start ls by (simp add: all_ranges_def expand_def)
    ultimately show ?thesis by blast
  next
    case (Some r)
    obtain a b where r: "r = (a, b)" by (cases r)
    have ok: "ranges_ok (rs @ [(a, b)])" and t: "range_start t = a" "range_end t = b" "lines_str t = show_ranges rs"
      using tr by (auto simp: tracks_def Some r)
    have ab: "1 \<le> a" "a \<le> b" using ok by (auto simp: ranges_ok_snoc)
    have ls': "ls = expand rs @ [a..b]" using ls by (simp add: all_ranges_def Some r expand_snoc)
    have "b < n" using later ab by (auto simp: ls')
    show ?thesis
    proof (cases "n = b + 1")
      case True
      have "tracks (add_line n t) rs (Some (a, n))"
        using ok ab t True by (simp add: tracks_def add_line_def Let_def ranges_ok_snoc)
      moreover have "expand (all_ranges rs (Some (a, n))) = ls @ [n]"
        using ab True by (simp add: all_ranges_def expand_snoc ls' upto_rec2)
      ultimately show ?thesis by blast
    next
      case False
      let ?t = "t\<lparr> tt_count := tt_count t + 1 \<rparr>"
      have "tracks ?t rs (Some (a, b))"
        using tr by (simp add: tracks_def Some r)
      then have "tracks (flush_range ?t) (rs @ [(a, b)]) None"
        by (rule tracks_flush)
      moreover have "\<forall>q \<in> set (rs @ [(a, b)]). snd q + 1 < n"
        using ok False \<open>b < n\<close> ab by (fastforce simp: ranges_ok_snoc)
      ultimately have "tracks (add_line n t) (rs @ [(a, b)]) (Some (n, n))"
        using False ab t \<open>b < n\<close> ok ranges_ok_snoc [of "rs @ [(a, b)]" "(n, n)"]
        by (simp add: tracks_def add_line_def Let_def)
      moreover have "expand (all_ranges (rs @ [(a, b)]) (Some (n, n))) = ls @ [n]"
        using expand_snoc [of "rs @ [(a, b)]" "(n, n)"] by (simp add: all_ranges_def ls' expand_snoc)
      ultimately show ?thesis by blast
    qed
  qed
  moreover have "tt_count (add_line n t) = tt_count t + 1"
    by (simp add: add_line_def Let_def)
  ultimately show ?thesis using cnt by (auto simp: reports_def)
qed

fun add_lines :: "('a \<Rightarrow> bool) \<Rightarrow> 'a list \<Rightarrow> int \<Rightarrow> truncation_tracker \<Rightarrow> truncation_tracker" where
  "add_lines P [] n t = t"
| "add_lines P (l # ls) n t = add_lines P ls (n + 1) (if P l then add_line (n + 1) t else t)"

lemma reports_add_lines:
  assumes "reports t ls" and "\<forall>l \<in> set ls. l \<le> n" and "0 \<le> n"
  shows "reports (add_lines P xs n t) (ls @ numbered P xs (n + 1))"
  using assms
proof (induction xs arbitrary: n t ls)
  case (Cons x xs)
  show ?case
  proof (cases "P x")
    case True
    have "reports (add_line (n + 1) t) (ls @ [n + 1])"
      using Cons.prems by (intro reports_add) auto
    then have "reports (add_lines P xs (n + 1) (add_line (n + 1) t)) ((ls @ [n + 1]) @ numbered P xs (n + 1 + 1))"
      using Cons.prems by (intro Cons.IH) auto
    with True show ?thesis by (simp add: add.assoc)
  next
    case False
    have "reports (add_lines P xs (n + 1) t) (ls @ numbered P xs (n + 1 + 1))"
      using Cons.prems by (intro Cons.IH) auto
    with False show ?thesis by (simp add: add.assoc)
  qed
qed simp

lemma scan_lines_all:
  assumes "length data < 2 ^ 31"
  shows "scan_rest max_len (scan_lines nl max_len data n t) =
    (n + int (length (text_lines nl data)), add_lines (too_long max_len) (text_lines nl data) n t)"
  using assms
proof (induction nl max_len data n t rule: scan_lines.induct)
  case (1 nl max_len data n t)
  have size: "int_of_size (length (strip_cr xs)) = int (length (strip_cr xs))" if "length xs \<le> length data" for xs
  proof -
    have "length (strip_cr xs) \<le> length xs" by (simp add: strip_cr_def)
    then have "length (strip_cr xs) < 2 ^ 31" using that 1(2) by linarith
    then show ?thesis
      by (simp add: int_of_size_def signed_of_nat signed_take_bit_int_eq_self)
  qed
  show ?case
  proof (cases "find_index (\<lambda>b. b = nl) data")
    case None
    then show ?thesis
      using size [of data] by (subst scan_lines.simps, subst (1 2) text_lines.simps)
        (simp add: scan_rest_def too_long_def del: find_index_None)
  next
    case (Some k)
    then have "length (drop (Suc k) data) < 2 ^ 31" using 1(2) by simp
    note rest = 1(1) [OF Some this]
    have long: "(max_len < int_of_size (length (strip_cr (take k data)))) = too_long max_len (take k data)"
      using size [of "take k data"] by (simp add: too_long_def)
    show ?thesis
      using rest Some by (subst scan_lines.simps, subst (1 2) text_lines.simps) (simp add: long algebra_simps)
  qed
qed

text \<open>The warning about truncated lines counts and lists exactly the lines of the text whose
  content, without the carriage return of a Windows line end, does not fit into a record; it lists
  them as ranges that are in order and could not be fewer. The text is shorter than two gigabytes.\<close>

theorem truncated_lines_reported:
  assumes "length data < 2 ^ 31"
  shows "let t = scan_for_truncated_lines data max_len nl truncation_init in
    tt_count t = int (length (long_lines nl max_len data)) \<and>
    (\<exists>rs. lines_str t = show_ranges rs \<and> ranges_ok rs \<and> expand rs = long_lines nl max_len data)"
proof -
  let ?t = "add_lines (too_long max_len) (text_lines nl data) 0 truncation_init"
  have scan: "scan_for_truncated_lines data max_len nl truncation_init = flush_range ?t"
    by (simp add: scan_for_truncated_lines_def scan_lines_all [OF assms])
  have "reports ?t (long_lines nl max_len data)"
    using reports_add_lines [OF reports_init, of 0] by (simp add: long_lines_def)
  then obtain rs cur where cnt: "tt_count ?t = int (length (long_lines nl max_len data))"
    and tr: "tracks ?t rs cur" "cur = None \<longrightarrow> rs = []" "expand (all_ranges rs cur) = long_lines nl max_len data"
    by (auto simp: reports_def)
  have "tracks (flush_range ?t) (all_ranges rs cur) None"
  proof (cases cur)
    case None
    with tr show ?thesis by (simp add: all_ranges_def tracks_def flush_range_def)
  next
    case (Some r)
    with tr show ?thesis by (simp add: all_ranges_def tracks_flush)
  qed
  then have "lines_str (flush_range ?t) = show_ranges (all_ranges rs cur) \<and> ranges_ok (all_ranges rs cur)"
    by (simp add: tracks_def)
  with tr(3) cnt show ?thesis unfolding scan Let_def by auto
qed

theorem truncated_lines_reported_witness:
  "let t = scan_for_truncated_lines [1, 1, 1, 0x15, 1, 1, 1, 0x15, 1, 0x15, 1, 1, 0x0D, 0x15, 2, 2, 2] 2 0x15 truncation_init in
    tt_count t = int (length (long_lines 0x15 2 [1, 1, 1, 0x15, 1, 1, 1, 0x15, 1, 0x15, 1, 1, 0x0D, 0x15, 2, 2, 2])) \<and>
    (\<exists>rs. lines_str t = show_ranges rs \<and> ranges_ok rs \<and>
      expand rs = long_lines 0x15 2 [1, 1, 1, 0x15, 1, 1, 1, 0x15, 1, 0x15, 1, 1, 0x0D, 0x15, 2, 2, 2])"
  by (rule truncated_lines_reported) simp

section \<open>ASA control characters\<close>

text \<open>The records \<open>prepare_line\<close> makes of a text: control character and content.\<close>

definition overflow_record :: "byte \<times> byte list" where
  "overflow_record = (ebcdic CHR ''-'', [])"

fun asa_records :: "byte list list \<Rightarrow> asa_state \<Rightarrow> (byte \<times> byte list) list" where
  "asa_records [] st = []"
| "asa_records (l # ls) st =
     (let (r, l', st') = prepare_line l st
      in (if skip_line r then [] else replicate (overflow_records r) overflow_record @ [(asa_char r, l')])
         @ asa_records ls st')"

text \<open>
  How a printer reads a record: it advances one, two or three lines before the content, or starts a
  new page, which a form feed in front of the line stands for.
\<close>

definition asa_print :: "byte \<times> byte list \<Rightarrow> byte list list" where
  "asa_print r =
     (if fst r = ebcdic CHR ''1'' then [FF_CHAR # snd r]
      else if fst r = ebcdic CHR ''0'' then [[], snd r]
      else if fst r = ebcdic CHR ''-'' then [[], [], snd r]
      else [snd r])"

definition form_feed_line :: "byte list \<Rightarrow> bool" where
  "form_feed_line l \<longleftrightarrow> l \<noteq> [] \<and> hd l = FF_CHAR"

lemma asa_chars_distinct [simp]:
  "ebcdic SPACE \<noteq> ebcdic CHR ''1''" "ebcdic SPACE \<noteq> ebcdic CHR ''0''" "ebcdic SPACE \<noteq> ebcdic CHR ''-''"
  "ebcdic CHR ''0'' \<noteq> ebcdic CHR ''1''" "ebcdic CHR ''-'' \<noteq> ebcdic CHR ''1''" "ebcdic CHR ''-'' \<noteq> ebcdic CHR ''0''"
  by (simp_all add: ebcdic_def ebcdic_code_def ibm1047_def)

lemmas asa_chars_distinct' [simp] = asa_chars_distinct [symmetric]

lemma overflow_loop_eq:
  assumes "0 \<le> blank_count st"
  shows "overflow_loop st n =
    (st\<lparr> blank_count := blank_count st mod 3 \<rparr>, n + nat (blank_count st div 3))"
  using assms
proof (induction st n rule: overflow_loop.induct)
  case (1 st n)
  show ?case
  proof (cases "3 \<le> blank_count st")
    case True
    let ?st = "st\<lparr> blank_count := blank_count st - 3 \<rparr>"
    have has: "has_overflow_blanks st = (True, ?st)"
      using True by (simp add: has_overflow_blanks_def ASA_TRIPLE_SPACE_LINES_def)
    have "overflow_loop ?st (n + 1) = (?st\<lparr> blank_count := blank_count ?st mod 3 \<rparr>, n + 1 + nat (blank_count ?st div 3))"
      using True by (intro 1(1) [OF has [symmetric] refl]) simp_all
    moreover have "(blank_count st - 3) mod 3 = blank_count st mod 3"
      "blank_count st div 3 = (blank_count st - 3) div 3 + 1"
      using True by presburger+
    moreover have "0 \<le> (blank_count st - 3) div 3" using True by simp
    ultimately show ?thesis
      by (subst overflow_loop.simps) (simp add: has nat_add_distrib)
  next
    case False
    with 1(2) show ?thesis
      by (subst overflow_loop.simps)
        (simp add: has_overflow_blanks_def ASA_TRIPLE_SPACE_LINES_def)
  qed
qed

lemma prepare_line_blank:
  "prepare_line [] st = (\<lparr> skip_line = True, overflow_records = 0, asa_char = 0 \<rparr>, [], st\<lparr> blank_count := blank_count st + 1 \<rparr>)"
  by (simp add: prepare_line_def process_line_internal_def)

lemma prepare_line_text:
  assumes "l \<noteq> []" and "0 \<le> blank_count st"
  shows "prepare_line l st =
    (\<lparr> skip_line = False, overflow_records = nat (blank_count st div 3),
       asa_char = ebcdic (if form_feed_line l then CHR ''1''
         else if blank_count st mod 3 = 1 then CHR ''0'' else if blank_count st mod 3 = 2 then CHR ''-'' else SPACE) \<rparr>,
     if form_feed_line l then tl l else l, st\<lparr> blank_count := 0, is_first_line := False \<rparr>)"
proof (cases "form_feed_line l")
  case True
  with assms show ?thesis
    by (simp add: prepare_line_def process_line_internal_def form_feed_line_def overflow_loop_eq
        get_asa_char_and_reset_def)
next
  case False
  with assms have "process_line_internal l st = ((False, False, l), st)"
    by (auto simp: process_line_internal_def form_feed_line_def)
  with False show ?thesis
    by (simp add: prepare_line_def overflow_loop_eq assms get_asa_char_and_reset_def)
qed

lemma print_overflow: "concat (replicate n (asa_print overflow_record)) = replicate (3 * n) []"
  by (induction n) (simp_all add: asa_print_def overflow_record_def numeral_3_eq_3)

text \<open>Blank lines survive, but for what is left over before a form feed and at the end of the text.\<close>

fun kept_lines :: "nat \<Rightarrow> byte list list \<Rightarrow> byte list list" where
  "kept_lines b [] = []"
| "kept_lines b (l # ls) =
     (if l = [] then kept_lines (Suc b) ls
      else replicate (if form_feed_line l then 3 * (b div 3) else b) [] @ l # kept_lines 0 ls)"

lemma print_asa_records:
  assumes "blank_count st = int b"
  shows "concat (map asa_print (asa_records ls st)) = kept_lines b ls"
  using assms
proof (induction ls arbitrary: st b)
  case (Cons l ls)
  show ?case
  proof (cases "l = []")
    case True
    have "concat (map asa_print (asa_records ls (st\<lparr> blank_count := blank_count st + 1 \<rparr>))) = kept_lines (Suc b) ls"
      by (rule Cons.IH) (simp add: Cons.prems)
    with True show ?thesis by (simp add: prepare_line_blank)
  next
    case False
    have rest: "concat (map asa_print (asa_records ls (st\<lparr> blank_count := 0, is_first_line := False \<rparr>))) = kept_lines 0 ls"
      by (rule Cons.IH) simp
    have b: "nat (int b div 3) = b div 3" "int b mod 3 = int (b mod 3)"
      by (simp_all add: nat_div_distrib zmod_int)
    have left_over: "replicate b ([] :: byte list) = replicate (3 * (b div 3)) [] @ replicate (b mod 3) []"
      by (simp flip: replicate_add)
    have "b mod 3 = 0 \<or> b mod 3 = 1 \<or> b mod 3 = 2" by presburger
    then have "asa_print (asa_char (fst (prepare_line l st)), fst (snd (prepare_line l st))) =
        (if form_feed_line l then [] else replicate (b mod 3) []) @ [l]"
      using False Cons.prems
      by (cases l) (auto simp: prepare_line_text asa_print_def b form_feed_line_def numeral_2_eq_2)
    then have "concat (map asa_print (asa_records (l # ls) st)) =
        replicate (3 * (b div 3)) [] @ ((if form_feed_line l then [] else replicate (b mod 3) []) @ [l]) @ kept_lines 0 ls"
      using False Cons.prems rest by (simp add: prepare_line_text print_overflow b del: append_assoc)
    then show ?thesis
      using False left_over by (simp del: asa_records.simps)
  qed
qed simp

text \<open>A text that has no blank line in front of a form feed or at its end.\<close>

fun no_lost_blanks :: "bool \<Rightarrow> byte list list \<Rightarrow> bool" where
  "no_lost_blanks pending [] \<longleftrightarrow> \<not> pending"
| "no_lost_blanks pending (l # ls) \<longleftrightarrow>
     (if l = [] then no_lost_blanks True ls else \<not> (pending \<and> form_feed_line l) \<and> no_lost_blanks False ls)"

lemma kept_lines_all:
  "no_lost_blanks (0 < b) ls \<Longrightarrow> kept_lines b ls = replicate b [] @ ls"
proof (induction ls arbitrary: b)
  case (Cons l ls)
  show ?case
  proof (cases "l = []")
    case True
    with Cons.prems Cons.IH [of "Suc b"] show ?thesis
      by (simp add: replicate_append_same [symmetric])
  next
    case False
    with Cons.prems Cons.IH [of 0] show ?thesis by auto
  qed
qed simp



end
