(* ===== verification/Zam.thy ===== *)
theory Zam
  imports Zds_Text
begin

text \<open>
  The record writer of \<open>zam.c\<close> for members of partitioned data sets: opening with serialization,
  collecting fixed and variable records into blocks, the ISPF statistics, and closing. The macros
  (RDJFCB, ENQ, RESERVE, OPEN, WRITE/CHECK, BLDL, STOW, CLOSE, DEQ), the task I/O table, the clock
  and the user identifier are services of a world \<open>'w\<close>, passed as parameters.

  Memory is a list of bytes; \<open>free_location\<close> is an offset into the buffer. Getting storage does not
  fail, as in the sources.
\<close>

unbundle bit_operations_syntax

section \<open>The control block\<close>

record jfcb =
  jfcbind1 :: byte
  jfcbdsnm :: string
  jfcbelnm :: string
  jfcrecfm :: byte

definition jfcpds :: byte where "jfcpds = 0x01"
definition dcbrecf :: byte where "dcbrecf = 0x80"

record io_ctrl =
  io_ddname :: string
  io_jfcb :: jfcb
  dcbrecfm :: byte
  dcblrecl :: int
  dcbblksi :: int
  dcb_open :: bool
  dcb_abend :: bool
  has_enq :: bool
  has_reserve :: bool
  ucb :: "32 word"
  io_buffer :: "byte list"
  buffer_size :: int
  free_location :: nat
  bytes_in_buffer :: int
  lines_written :: int
  stow_c :: byte
  stow_user_data :: "byte list"

definition new_io_ctrl :: "string \<Rightarrow> io_ctrl" where
  "new_io_ctrl ddname =
     \<lparr> io_ddname = ddname, io_jfcb = \<lparr> jfcbind1 = 0, jfcbdsnm = [], jfcbelnm = [], jfcrecfm = 0 \<rparr>,
       dcbrecfm = 0, dcblrecl = 0, dcbblksi = 0, dcb_open = False, dcb_abend = False, has_enq = False,
       has_reserve = False, ucb = 0, io_buffer = [], buffer_size = 0, free_location = 0,
       bytes_in_buffer = 0, lines_written = 0, stow_c = 0, stow_user_data = replicate 62 0 \<rparr>"

text \<open>What the system reports after OPEN and after WRITE with CHECK: the attributes merged into the
  DCB, whether it is open, and whether the abend exit was driven.\<close>

record open_outcome =
  oo_rc :: int
  oo_recfm :: byte
  oo_lrecl :: int
  oo_blksi :: int
  oo_open :: bool
  oo_abend :: bool

record write_outcome =
  wo_open :: bool
  wo_abend :: bool

record 'w zam_ops =
  op_rdjfcb :: "'w \<Rightarrow> string \<Rightarrow> 'w \<times> int \<times> jfcb"
  op_enq :: "'w \<Rightarrow> string \<Rightarrow> 'w \<times> int"
  op_deq :: "'w \<Rightarrow> string \<Rightarrow> 'w \<times> int"
  op_tiot_ucb :: "'w \<Rightarrow> string \<Rightarrow> 32 word"
  op_reserve :: "'w \<Rightarrow> string \<Rightarrow> 'w \<times> int"
  op_deq_reserve :: "'w \<Rightarrow> string \<Rightarrow> 'w \<times> int"
  op_open :: "'w \<Rightarrow> string \<Rightarrow> byte \<Rightarrow> 'w \<times> open_outcome"
  op_write :: "'w \<Rightarrow> byte list \<Rightarrow> 'w \<times> write_outcome"
  op_bldl :: "'w \<Rightarrow> string \<Rightarrow> 'w \<times> int \<times> byte \<times> byte list"
  op_userid :: "'w \<Rightarrow> 'w \<times> int \<times> byte list"
  op_time :: "'w \<Rightarrow> 'w \<times> byte list \<times> byte list"
  op_stow :: "'w \<Rightarrow> string \<Rightarrow> byte \<Rightarrow> byte list \<Rightarrow> 'w \<times> int \<times> int"
  op_close :: "'w \<Rightarrow> 'w \<times> int \<times> bool"

section \<open>Writing records\<close>

definition poke :: "nat \<Rightarrow> 'a list \<Rightarrow> 'a list \<Rightarrow> 'a list" where
  "poke off bytes mem = take off mem @ bytes @ drop (off + length bytes) mem"

text \<open>A \<open>short\<close> in memory.\<close>

definition halfword :: "int \<Rightarrow> byte list" where
  "halfword n = [word_of_int (n div 256), word_of_int n]"

definition handle_dcb_abend :: "string \<Rightarrow> io_ctrl \<Rightarrow> zdiag \<Rightarrow> bool \<times> zdiag" where
  "handle_dcb_abend operation ioc d =
     (if dcb_abend ioc
      then (True,
        if e_msg_len d = 0
        then (set_msg (''DCB abend during '' @ take 16 operation @ '' for '' @ io_ddname ioc @ '' data set: ''
                @ jfcbdsnm (io_jfcb ioc)) (d\<lparr> service_name := operation \<rparr>))\<lparr> detail_rc := - 28 \<rparr>
        else d)
      else (False, d))"

text \<open>\<open>write_sync\<close> writes as many bytes as \<open>DCBBLKSI\<close> says and always returns 0.\<close>

definition write_sync :: "'w zam_ops \<Rightarrow> 'w \<Rightarrow> io_ctrl \<Rightarrow> 'w \<times> io_ctrl" where
  "write_sync ops w ioc =
     (let (w', out) = op_write ops w (take (nat (dcbblksi ioc)) (io_buffer ioc))
      in (w', ioc\<lparr> dcb_open := wo_open out, dcb_abend := dcb_abend ioc \<or> wo_abend out \<rparr>))"

definition handle_fixed_record ::
    "'w zam_ops \<Rightarrow> 'w \<Rightarrow> zdiag \<Rightarrow> io_ctrl \<Rightarrow> byte list \<Rightarrow> 'w \<times> zdiag \<times> io_ctrl \<times> int" where
  "handle_fixed_record ops w d ioc data =
     (let lrecl = dcblrecl ioc;
          record_bytes = data @ replicate (nat lrecl - length data) (ebcdic SPACE);
          ioc1 = ioc\<lparr> io_buffer := poke (free_location ioc) record_bytes (io_buffer ioc),
                      lines_written := lines_written ioc + 1,
                      bytes_in_buffer := bytes_in_buffer ioc + lrecl,
                      free_location := free_location ioc + nat lrecl \<rparr>
      in if dcbblksi ioc \<le> bytes_in_buffer ioc1
         then let (w', ioc2) = write_sync ops w ioc1;
                  (abended, d') = handle_dcb_abend ''WRITE'' ioc2 d
              in if abended then (w', d', ioc2, RTNCD_FAILURE)
                 else (w', d', ioc2\<lparr> bytes_in_buffer := 0, free_location := 0 \<rparr>, 0)
         else (w, d, ioc1, 0))"

definition sizeof_BDW :: int where "sizeof_BDW = 4"
definition sizeof_RDW :: int where "sizeof_RDW = 4"

definition init_bdw :: "io_ctrl \<Rightarrow> io_ctrl" where
  "init_bdw ioc =
     (let ioc1 = ioc\<lparr> io_buffer := poke 2 (halfword 0) (io_buffer ioc) \<rparr>
      in if bytes_in_buffer ioc1 = 0
         then ioc1\<lparr> free_location := free_location ioc1 + nat sizeof_BDW, bytes_in_buffer := sizeof_BDW \<rparr>
         else ioc1)"

definition write_variable_record ::
    "'w zam_ops \<Rightarrow> 'w \<Rightarrow> zdiag \<Rightarrow> io_ctrl \<Rightarrow> 'w \<times> zdiag \<times> io_ctrl \<times> int" where
  "write_variable_record ops w d ioc =
     (let blocksize = dcbblksi ioc;
          ioc1 = ioc\<lparr> io_buffer := poke 0 (halfword (bytes_in_buffer ioc)) (io_buffer ioc),
                      dcbblksi := bytes_in_buffer ioc \<rparr>;
          (w', ioc2) = write_sync ops w ioc1;
          ioc3 = ioc2\<lparr> dcbblksi := blocksize \<rparr>;
          (abended, d') = handle_dcb_abend ''WRITE'' ioc3 d
      in if abended then (w', d', ioc3, RTNCD_FAILURE)
         else (w', d', ioc3\<lparr> free_location := nat sizeof_BDW, bytes_in_buffer := sizeof_BDW,
                             io_buffer := poke 0 (halfword 0) (io_buffer ioc3) \<rparr>, 0))"

definition copy_variable_record :: "io_ctrl \<Rightarrow> byte list \<Rightarrow> io_ctrl" where
  "copy_variable_record ioc data =
     (let rdw_len = int (length data) + sizeof_RDW
      in ioc\<lparr> lines_written := lines_written ioc + 1,
              io_buffer := poke (free_location ioc) (halfword rdw_len @ halfword 0 @ data) (io_buffer ioc),
              bytes_in_buffer := bytes_in_buffer ioc + rdw_len,
              free_location := free_location ioc + nat rdw_len \<rparr>)"

definition handle_variable_record ::
    "'w zam_ops \<Rightarrow> 'w \<Rightarrow> zdiag \<Rightarrow> io_ctrl \<Rightarrow> byte list \<Rightarrow> 'w \<times> zdiag \<times> io_ctrl \<times> int" where
  "handle_variable_record ops w d ioc data =
     (let blocksize = dcbblksi ioc;
          ioc0 = init_bdw ioc;
          len = int (length data)
      in if dcbrecfm ioc0 AND dcbrecbr = 0
         then write_variable_record ops w d (copy_variable_record ioc0 data)
         else let bytes_remaining = blocksize - bytes_in_buffer ioc0;
                  (w1, d1, ioc1, rc) =
                    (if bytes_remaining \<le> len + sizeof_RDW then write_variable_record ops w d ioc0
                     else (w, d, ioc0, 0))
              in if rc \<noteq> 0 then (w1, d1, ioc1, rc)
                 else if len + sizeof_RDW < blocksize - bytes_in_buffer ioc1
                 then (w1, d1, copy_variable_record ioc1 data, rc)
                 else (w1, d1, ioc1, rc))"

definition write_output_bpam ::
    "'w zam_ops \<Rightarrow> 'w \<Rightarrow> zdiag \<Rightarrow> io_ctrl \<Rightarrow> byte list \<Rightarrow> 'w \<times> zdiag \<times> io_ctrl \<times> int" where
  "write_output_bpam ops w d ioc data =
     (if dcbrecfm ioc AND dcbrecv \<noteq> 0
      then handle_variable_record ops w d ioc (take (nat (dcblrecl ioc - sizeof_RDW)) data)
      else handle_fixed_record ops w d ioc (take (nat (dcblrecl ioc)) data))"

definition write_flush :: "'w zam_ops \<Rightarrow> 'w \<Rightarrow> zdiag \<Rightarrow> io_ctrl \<Rightarrow> 'w \<times> zdiag \<times> io_ctrl \<times> int" where
  "write_flush ops w d ioc =
     (let blocksize = dcbblksi ioc
      in if \<not> dcb_open ioc \<or> bytes_in_buffer ioc \<le> 0 then (w, d, ioc, 0)
         else if dcbrecfm ioc AND dcbrecv \<noteq> 0 \<and> bytes_in_buffer ioc \<le> sizeof_BDW then (w, d, ioc, 0)
         else let ioc0 = (if dcbrecfm ioc AND dcbrecv \<noteq> 0
                          then ioc\<lparr> io_buffer := poke 0 (halfword (bytes_in_buffer ioc)) (io_buffer ioc) \<rparr> else ioc);
                  (w', ioc2) = write_sync ops w (ioc0\<lparr> dcbblksi := bytes_in_buffer ioc0 \<rparr>);
                  ioc3 = ioc2\<lparr> dcbblksi := blocksize \<rparr>;
                  (abended, d') = handle_dcb_abend ''WRITE'' ioc3 d
              in if abended then (w', d', ioc3, RTNCD_FAILURE)
                 else (w', d', ioc3\<lparr> bytes_in_buffer := 0, free_location := 0 \<rparr>, 0))"

section \<open>Opening\<close>

text \<open>The message a step of \<open>open_output_bpam\<close> leaves, with the name of the service and its code.\<close>

definition service_error :: "string \<Rightarrow> string \<Rightarrow> io_ctrl \<Rightarrow> int \<Rightarrow> int \<Rightarrow> zdiag \<Rightarrow> zdiag" where
  "service_error name verb ioc rc detail d =
     (set_msg (''Failed to '' @ verb @ '' ddname: '' @ io_ddname ioc @ '' data set: '' @ jfcbdsnm (io_jfcb ioc)
         @ '' rc was: '' @ show_int rc)
       (d\<lparr> service_rc := rc, service_name := name \<rparr>))\<lparr> detail_rc := detail \<rparr>"

definition validate_jfcb_attributes :: "io_ctrl \<Rightarrow> zdiag \<Rightarrow> zdiag \<times> int" where
  "validate_jfcb_attributes ioc d =
     (if jfcbind1 (io_jfcb ioc) \<noteq> jfcpds
      then ((set_msg (''DDname: '' @ io_ddname ioc @ '' data set: '' @ jfcbdsnm (io_jfcb ioc) @ '' is not a PDS'') d)
              \<lparr> detail_rc := - 11 \<rparr>, RTNCD_FAILURE)
      else if take 1 (jfcbelnm (io_jfcb ioc)) = '' ''
      then ((set_msg (''DDname: '' @ io_ddname ioc @ '' data set: '' @ jfcbdsnm (io_jfcb ioc)
               @ '' is not a partitioned data set: '' @ jfcbelnm (io_jfcb ioc)) d)
              \<lparr> detail_rc := - 12 \<rparr>, RTNCD_FAILURE)
      else (d, 0))"

definition enq_name :: "io_ctrl \<Rightarrow> string" where
  "enq_name ioc = jfcbdsnm (io_jfcb ioc) @ jfcbelnm (io_jfcb ioc)"

definition enq_data_set :: "'w zam_ops \<Rightarrow> 'w \<Rightarrow> zdiag \<Rightarrow> io_ctrl \<Rightarrow> 'w \<times> zdiag \<times> io_ctrl \<times> int" where
  "enq_data_set ops w d ioc =
     (let (w', rc) = op_enq ops w (enq_name ioc)
      in if rc \<noteq> 0 then (w', service_error ''ENQ'' ''ENQ'' ioc rc (- 14) d, ioc, RTNCD_FAILURE)
         else (w', d, ioc\<lparr> has_enq := True \<rparr>, rc))"

definition get_ucb :: "'w zam_ops \<Rightarrow> 'w \<Rightarrow> zdiag \<Rightarrow> io_ctrl \<Rightarrow> zdiag \<times> io_ctrl \<times> int" where
  "get_ucb ops w d ioc =
     (let ioc1 = ioc\<lparr> ucb := op_tiot_ucb ops w (io_ddname ioc) AND 0x00FFFFFF \<rparr>
      in if ucb ioc1 = 0
         then (set_msg (''Failed to get UCB for data set: '' @ jfcbdsnm (io_jfcb ioc)) (d\<lparr> detail_rc := - 16 \<rparr>),
               ioc1, RTNCD_FAILURE)
         else (d, ioc1, RTNCD_SUCCESS))"

definition reserve_data_set :: "'w zam_ops \<Rightarrow> 'w \<Rightarrow> zdiag \<Rightarrow> io_ctrl \<Rightarrow> 'w \<times> zdiag \<times> io_ctrl \<times> int" where
  "reserve_data_set ops w d ioc =
     (let (w', rc) = op_reserve ops w (jfcbdsnm (io_jfcb ioc))
      in if rc \<noteq> 0 then (w', service_error ''RESERVE'' ''RESERVE'' ioc rc (- 15) d, ioc, RTNCD_FAILURE)
         else (w', d, ioc\<lparr> has_reserve := True \<rparr>, rc))"

definition open_data_set :: "'w zam_ops \<Rightarrow> 'w \<Rightarrow> zdiag \<Rightarrow> io_ctrl \<Rightarrow> 'w \<times> zdiag \<times> io_ctrl \<times> int" where
  "open_data_set ops w d ioc =
     (let (w', out) = op_open ops w (io_ddname ioc) (dcbrecfm ioc);
          ioc1 = ioc\<lparr> dcbrecfm := oo_recfm out, dcblrecl := oo_lrecl out, dcbblksi := oo_blksi out,
                      dcb_open := oo_open out, dcb_abend := dcb_abend ioc \<or> oo_abend out \<rparr>
      in if oo_rc out \<noteq> 0
         then (w', (set_msg (''Failed to open ddname: '' @ io_ddname ioc1 @ '' for data set: '' @ jfcbdsnm (io_jfcb ioc1)
                      @ '' rc was: '' @ show_int (oo_rc out))
                    (d\<lparr> service_rc := oo_rc out, service_name := ''OPEN'' \<rparr>))\<lparr> detail_rc := - 17 \<rparr>, ioc1, RTNCD_FAILURE)
         else let (abended, d') = handle_dcb_abend ''OPEN'' ioc1 d
              in if abended then (w', d', ioc1, RTNCD_FAILURE)
                 else if \<not> dcb_open ioc1
                 then (w', (set_msg (''Data set is not open: '' @ jfcbdsnm (io_jfcb ioc1)) d')\<lparr> detail_rc := - 18 \<rparr>,
                       ioc1, RTNCD_FAILURE)
                 else (w', d', ioc1, 0))"

definition validate_dcb_attributes :: "io_ctrl \<Rightarrow> zdiag \<Rightarrow> zdiag \<times> int" where
  "validate_dcb_attributes ioc d =
     (let block_size = dcbblksi ioc
      in if dcbrecfm ioc AND (dcbrecf OR dcbrecv) = 0
         then ((set_msg ''Data set is not a fixed or variable record format'' d)\<lparr> detail_rc := - 13 \<rparr>, RTNCD_FAILURE)
         else if block_size < 1
         then ((set_msg ''Data set has less than 1 block size'' d)\<lparr> detail_rc := - 19 \<rparr>, RTNCD_FAILURE)
         else if dcbrecfm ioc AND dcbrecf \<noteq> 0
         then (if block_size mod dcblrecl ioc \<noteq> 0
               then ((set_msg (''Data set block size is not a multiple of the record length: '' @ show_int block_size
                        @ '' not evenly divisible by '' @ show_int (dcblrecl ioc)) d)\<lparr> detail_rc := - 20 \<rparr>, RTNCD_FAILURE)
               else (d, 0))
         else if block_size < dcblrecl ioc + sizeof_BDW
         then ((set_msg (''Data set block size is too small for variable records: '' @ show_int block_size
                  @ '' < '' @ show_int (dcblrecl ioc + sizeof_BDW) @ '' (LRECL + 4)'') d)\<lparr> detail_rc := - 20 \<rparr>, RTNCD_FAILURE)
         else (d, 0))"

definition open_output_bpam :: "'w zam_ops \<Rightarrow> 'w \<Rightarrow> zdiag \<Rightarrow> string \<Rightarrow> 'w \<times> zdiag \<times> io_ctrl \<times> int" where
  "open_output_bpam ops w d ddname =
     (let (w1, rc, j) = op_rdjfcb ops w ddname;
          ioc = (new_io_ctrl ddname)\<lparr> io_jfcb := j \<rparr>
      in if rc \<noteq> 0
         then (w1, (set_msg (''Failed to read output JFCB rc was: '' @ show_int rc)
                 (d\<lparr> detail_rc := - 2, service_name := ''RDJFCB'' \<rparr>))\<lparr> service_rc := rc \<rparr>, ioc, RTNCD_FAILURE)
         else let (d1, rc1) = validate_jfcb_attributes ioc d in if rc1 \<noteq> 0 then (w1, d1, ioc, rc1)
         else let (w2, d2, ioc2, rc2) = enq_data_set ops w1 d1 ioc in if rc2 \<noteq> 0 then (w2, d2, ioc2, rc2)
         else let (d3, ioc3, rc3) = get_ucb ops w2 d2 ioc2 in if rc3 \<noteq> 0 then (w2, d3, ioc3, rc3)
         else let (w4, d4, ioc4, rc4) = reserve_data_set ops w2 d3 ioc3 in if rc4 \<noteq> 0 then (w4, d4, ioc4, rc4)
         else let (w5, d5, ioc5, rc5) = open_data_set ops w4 d4 (ioc4\<lparr> dcbrecfm := jfcrecfm (io_jfcb ioc4) \<rparr>)
              in if rc5 \<noteq> 0 then (w5, d5, ioc5, rc5)
         else let (d6, rc6) = validate_dcb_attributes ioc5 d5 in if rc6 \<noteq> 0 then (w5, d6, ioc5, rc6)
         else (w5, d6, ioc5\<lparr> buffer_size := dcbblksi ioc5, io_buffer := replicate (nat (dcbblksi ioc5)) 0,
                             bytes_in_buffer := 0, lines_written := 0, free_location := 0 \<rparr>, rc6))"

section \<open>ISPF statistics\<close>

definition LEN_MASK :: byte where "LEN_MASK = 0x1F"
definition MAX_LEVEL :: byte where "MAX_LEVEL = 0x99"
definition ISPF_STATS_MIN_LEN :: byte where "ISPF_STATS_MIN_LEN = 15"

text \<open>
  The statistics lie over the first 30 bytes of the user data: version, level, flags, seconds,
  created date (4), modified date (4), hours, minutes, current, initial and modified number of lines
  (2 each), user (8), extension (2). \<open>short\<close> fields take the low halfword of the count.
\<close>

definition set_created :: "byte list \<Rightarrow> byte list \<Rightarrow> byte list" where
  "set_created date = poke 4 date"

definition set_modified :: "byte list \<Rightarrow> byte list \<Rightarrow> byte list \<Rightarrow> byte list" where
  "set_modified date time u = poke 12 (take 2 time) (poke 3 (take 1 (drop 2 time)) (poke 8 date u))"

definition initial_stats :: "int \<Rightarrow> byte list \<Rightarrow> byte list \<Rightarrow> byte list \<Rightarrow> byte list \<Rightarrow> byte list" where
  "initial_stats lines user time date u =
     set_modified date time (set_created date
       (poke 14 (halfword lines) (poke 16 (halfword lines)
         (poke 0 [0x01, 0x00, 0x00] (poke 20 user (poke 28 [ebcdic SPACE, ebcdic SPACE] u))))))"

definition updated_stats :: "int \<Rightarrow> byte list \<Rightarrow> byte list \<Rightarrow> byte list \<Rightarrow> byte list \<Rightarrow> byte list" where
  "updated_stats lines user time date u =
     (let u1 = poke 20 user u;
          level = u1 ! 1;
          u2 = (if level < MAX_LEVEL then poke 1 [level + 1] u1 else u1)
      in set_modified date time (poke 14 (halfword lines) (poke 18 (halfword lines) u2)))"

definition update_ispf_statistics :: "'w zam_ops \<Rightarrow> 'w \<Rightarrow> zdiag \<Rightarrow> io_ctrl \<Rightarrow> 'w \<times> zdiag \<times> io_ctrl \<times> int" where
  "update_ispf_statistics ops w d ioc =
     (if dcbrecfm ioc AND dcbrecu = dcbrecu then (w, d, ioc, RTNCD_SUCCESS)
      else if \<not> dcb_open ioc then (w, d, ioc, 0)
      else let (w1, rc, c, user_data) = op_bldl ops w (jfcbelnm (io_jfcb ioc));
               d0 = (if rc \<noteq> 0 then service_error ''BLDL'' ''BLDL'' ioc rc (- 24) d else d)
           in if rc \<noteq> 0 \<and> rc \<noteq> 4 then (w1, d0, ioc, rc)
              else let d1 = d0\<lparr> e_msg_len := 0 \<rparr>;
                       fresh = (c AND LEN_MASK = 0);
                       ioc1 = (if fresh then ioc\<lparr> stow_c := ISPF_STATS_MIN_LEN \<rparr>
                               else ioc\<lparr> stow_c := c,
                                         stow_user_data := poke 0 (take (2 * unat (c AND LEN_MASK)) user_data) (stow_user_data ioc) \<rparr>);
                       (w2, rc2, user) = op_userid ops w1
                   in if rc2 \<noteq> 0
                      then (w2, (set_msg (''Failed to get userid rc was: '' @ show_int rc2) d1)
                              \<lparr> detail_rc := - 2, service_rc := rc2 \<rparr>,
                            if fresh then ioc1\<lparr> stow_user_data := poke 28 [ebcdic SPACE, ebcdic SPACE] (stow_user_data ioc1) \<rparr> else ioc1,
                            RTNCD_FAILURE)
                      else let (w3, time, date) = op_time ops w2
                           in (w3, d1, ioc1\<lparr> stow_user_data :=
                                 (if fresh then initial_stats else updated_stats) (lines_written ioc1) user time date (stow_user_data ioc1) \<rparr>, 0))"

section \<open>Closing\<close>

definition stow_data_set :: "'w zam_ops \<Rightarrow> 'w \<Rightarrow> zdiag \<Rightarrow> io_ctrl \<Rightarrow> 'w \<times> zdiag \<times> int" where
  "stow_data_set ops w d ioc =
     (if \<not> dcb_open ioc then (w, d, 0)
      else let (w', rc, rsn) = op_stow ops w (jfcbelnm (io_jfcb ioc)) (stow_c ioc) (stow_user_data ioc)
           in (w', if rc \<noteq> 0 \<and> e_msg_len d = 0
                   then (set_msg (''Failed to STOW ISPF statistics: '' @ io_ddname ioc @ '' data set: ''
                            @ jfcbdsnm (io_jfcb ioc) @ '' rsn was: '' @ show_int rsn)
                          (d\<lparr> service_rc := rc, service_name := ''STOW'' \<rparr>))\<lparr> detail_rc := - 25 \<rparr>
                   else d, rc))"

definition close_data_set :: "'w zam_ops \<Rightarrow> 'w \<Rightarrow> zdiag \<Rightarrow> io_ctrl \<Rightarrow> 'w \<times> zdiag \<times> io_ctrl \<times> int" where
  "close_data_set ops w d ioc =
     (if \<not> dcb_open ioc then (w, d, ioc, 0)
      else let (w', rc, abend) = op_close ops w;
               ioc1 = ioc\<lparr> dcb_abend := dcb_abend ioc \<or> abend \<rparr>;
               (abended, d1) = handle_dcb_abend ''CLOSE'' ioc1 d
           in if abended then (w', d1, ioc1, RTNCD_FAILURE)
              else (w', if rc \<noteq> 0 \<and> e_msg_len d1 = 0 then service_error ''CLOSE'' ''close'' ioc1 rc (- 21) d1 else d1, ioc1, rc))"

definition finalize_dcb :: "'w zam_ops \<Rightarrow> 'w \<Rightarrow> zdiag \<Rightarrow> io_ctrl \<Rightarrow> 'w \<times> zdiag \<times> io_ctrl \<times> int" where
  "finalize_dcb ops w d ioc =
     (let (w1, d1, ioc1, rc1) = update_ispf_statistics ops w d ioc;
          (w2, d2, rc2) = (if rc1 = 0 then stow_data_set ops w1 d1 ioc1 else (w1, d1, 0));
          (w3, d3, ioc3, rc3) = close_data_set ops w2 d2 ioc1
      in (w3, d3, ioc3, if rc1 \<noteq> 0 then rc1 else if rc2 \<noteq> 0 then rc2 else rc3))"

definition deq_reserve_data_set :: "'w zam_ops \<Rightarrow> 'w \<Rightarrow> zdiag \<Rightarrow> io_ctrl \<Rightarrow> 'w \<times> zdiag \<times> int" where
  "deq_reserve_data_set ops w d ioc =
     (if \<not> has_reserve ioc then (w, d, 0)
      else let (w', rc) = op_deq_reserve ops w (jfcbdsnm (io_jfcb ioc))
           in (w', if rc \<noteq> 0 \<and> e_msg_len d = 0 then service_error ''DEQ RESERVE'' ''DEQ RESERVE'' ioc rc (- 23) d else d, rc))"

definition deq_data_set :: "'w zam_ops \<Rightarrow> 'w \<Rightarrow> zdiag \<Rightarrow> io_ctrl \<Rightarrow> 'w \<times> zdiag \<times> int" where
  "deq_data_set ops w d ioc =
     (if \<not> has_enq ioc then (w, d, 0)
      else let (w', rc) = op_deq ops w (enq_name ioc)
           in (w', if rc \<noteq> 0 \<and> e_msg_len d = 0 then service_error ''DEQ'' ''DEQ'' ioc rc (- 22) d else d, rc))"

definition first_error :: "int \<Rightarrow> int \<Rightarrow> int" where
  "first_error first_rc rc = (if rc \<noteq> 0 \<and> first_rc = 0 then rc else first_rc)"

definition close_output_bpam :: "'w zam_ops \<Rightarrow> 'w \<Rightarrow> zdiag \<Rightarrow> io_ctrl \<Rightarrow> 'w \<times> zdiag \<times> int" where
  "close_output_bpam ops w d ioc =
     (let (w1, d1, ioc1, rc1) = write_flush ops w d ioc;
          (w2, d2, ioc2, rc2) = (if dcb_open ioc1 then finalize_dcb ops w1 d1 ioc1 else (w1, d1, ioc1, 0));
          (w3, d3, rc3) = deq_reserve_data_set ops w2 d2 ioc2;
          (w4, d4, rc4) = deq_data_set ops w3 d3 ioc2
      in (w4, d4, first_error (first_error (first_error rc1 rc2) rc3) rc4))"

text \<open>
  The entry points of \<open>zdsm.c\<close>. A failing open is closed with a diagnostic area of its own, and the
  caller gets no control block.
\<close>

definition ZDSOBPAM :: "'w zam_ops \<Rightarrow> 'w \<Rightarrow> zdiag \<Rightarrow> string \<Rightarrow> 'w \<times> zdiag \<times> io_ctrl option \<times> int" where
  "ZDSOBPAM ops w d ddname =
     (let (w1, d1, ioc, rc) = open_output_bpam ops w d ddname
      in if rc \<noteq> 0 then (fst (close_output_bpam ops w1 zdiag_init ioc), d1, None, rc)
         else (w1, d1, Some ioc, rc))"

definition ZDSWBPAM :: "'w zam_ops \<Rightarrow> 'w \<Rightarrow> zdiag \<Rightarrow> io_ctrl \<Rightarrow> byte list \<Rightarrow> 'w \<times> zdiag \<times> io_ctrl \<times> int" where
  "ZDSWBPAM ops w d ioc data = write_output_bpam ops w d ioc data"

definition ZDSCBPAM :: "'w zam_ops \<Rightarrow> 'w \<Rightarrow> zdiag \<Rightarrow> io_ctrl \<Rightarrow> 'w \<times> zdiag \<times> int" where
  "ZDSCBPAM ops w d ioc = close_output_bpam ops w d ioc"

end
