(* ===== verification/Zam_Props.thy ===== *)
theory Zam_Props
  imports Zam
begin

text \<open>
  What the record writer of \<open>zam.c\<close> guarantees: the records can be read back from the blocks, up to
  the record that fills a block completely, which is lost; and every serialization it obtains is
  released on every path.
\<close>

unbundle bit_operations_syntax

section \<open>Reading blocks\<close>

definition halfword_value :: "byte list \<Rightarrow> nat" where
  "halfword_value b = unat (b ! 0) * 256 + unat (b ! 1)"

definition rdw :: "byte list \<Rightarrow> byte list" where
  "rdw r = halfword (int (length r) + 4) @ halfword 0 @ r"

text \<open>The records of a block without its descriptor word, by their record descriptor words.\<close>

function rdw_records :: "byte list \<Rightarrow> byte list list option" where
  "rdw_records b =
     (if b = [] then Some []
      else if length b < 4 \<or> halfword_value b < 4 \<or> length b < halfword_value b then None
      else map_option ((#) (take (halfword_value b - 4) (drop 4 b))) (rdw_records (drop (halfword_value b) b)))"
  by auto
termination
  by (relation "measure length") auto

declare rdw_records.simps [simp del]

definition variable_records :: "byte list \<Rightarrow> byte list list option" where
  "variable_records block =
     (if length block < 4 \<or> halfword_value block \<noteq> length block then None else rdw_records (drop 4 block))"

fun fixed_records :: "nat \<Rightarrow> nat \<Rightarrow> byte list \<Rightarrow> byte list list" where
  "fixed_records lrecl 0 block = []"
| "fixed_records lrecl (Suc n) block = take lrecl block # fixed_records lrecl n (drop lrecl block)"

definition block_records :: "io_ctrl \<Rightarrow> byte list \<Rightarrow> byte list list option" where
  "block_records ioc block =
     (if dcbrecfm ioc AND dcbrecv \<noteq> 0 then variable_records block
      else Some (fixed_records (nat (dcblrecl ioc)) (length block div nat (dcblrecl ioc)) block))"

text \<open>All records of a sequence of blocks.\<close>

fun read_blocks :: "io_ctrl \<Rightarrow> byte list list \<Rightarrow> byte list list option" where
  "read_blocks ioc [] = Some []"
| "read_blocks ioc (b # bs) =
     (case block_records ioc b of None \<Rightarrow> None
      | Some rs \<Rightarrow> map_option ((@) rs) (read_blocks ioc bs))"

text \<open>The record a text becomes: cut to the record length, and padded where that is fixed.\<close>

definition stored_record :: "io_ctrl \<Rightarrow> byte list \<Rightarrow> byte list" where
  "stored_record ioc data =
     (if dcbrecfm ioc AND dcbrecv \<noteq> 0 then take (nat (dcblrecl ioc - 4)) data
      else take (nat (dcblrecl ioc)) data @ replicate (nat (dcblrecl ioc) - length data) (ebcdic SPACE))"

fun write_records :: "'w zam_ops \<Rightarrow> 'w \<Rightarrow> zdiag \<Rightarrow> io_ctrl \<Rightarrow> byte list list \<Rightarrow> 'w \<times> zdiag \<times> io_ctrl \<times> int" where
  "write_records ops w d ioc [] = (w, d, ioc, 0)"
| "write_records ops w d ioc (r # rs) =
     (let (w', d', ioc', rc) = write_output_bpam ops w d ioc r
      in if rc \<noteq> 0 then (w', d', ioc', rc) else write_records ops w' d' ioc' rs)"

lemma halfword_value_halfword:
  assumes "0 \<le> n" and "n < 65536"
  shows "halfword_value (halfword n @ xs) = nat n"
proof -
  have hi: "n div 256 mod 256 = n div 256" using assms by simp
  have bytes: "unat (word_of_int k :: byte) = nat (k mod 256)" for k
    by (simp add: unsigned_of_int take_bit_eq_mod)
  have "halfword_value (halfword n @ xs) = nat (n div 256) * 256 + nat (n mod 256)"
    by (simp add: halfword_value_def halfword_def bytes hi)
  also have "\<dots> = nat (n div 256 * 256 + n mod 256)"
    using assms by (subst nat_add_distrib) (simp_all add: nat_mult_distrib)
  finally show ?thesis by simp
qed

lemma length_halfword [simp]: "length (halfword n) = 2"
  by (simp add: halfword_def)

lemma length_rdw [simp]: "length (rdw r) = length r + 4"
  by (simp add: rdw_def)

lemma rdw_records_Cons:
  assumes "length r + 4 < 65536"
  shows "rdw_records (rdw r @ b) = map_option ((#) r) (rdw_records b)"
proof -
  have "halfword_value (rdw r @ b) = length r + 4"
    using halfword_value_halfword [of "int (length r) + 4" "halfword 0 @ r @ b"] assms by (simp add: rdw_def)
  moreover have "take (length r) (drop 4 (rdw r @ b)) = r" by (simp add: rdw_def)
  moreover have "drop (length r + 4) (rdw r @ b) = b" by simp
  moreover have "rdw r \<noteq> []" by (simp add: rdw_def halfword_def)
  ultimately show ?thesis
    by (subst rdw_records.simps) simp
qed

definition block_of :: "byte list list \<Rightarrow> byte list" where
  "block_of rs = halfword (4 + int (length (concat (map rdw rs)))) @ halfword 0 @ concat (map rdw rs)"

lemma variable_records_block_of:
  assumes "length (block_of rs) < 65536"
  shows "variable_records (block_of rs) = Some rs"
proof -
  have "rdw_records (concat (map rdw rs)) = Some rs"
    using assms
  proof (induction rs)
    case Nil
    then show ?case by (simp add: rdw_records.simps)
  next
    case (Cons r rs)
    then have "length r + 4 < 65536" "length (block_of rs) < 65536" by (simp_all add: block_of_def)
    with Cons.IH show ?case by (simp add: rdw_records_Cons)
  qed
  moreover have "halfword_value (block_of rs) = length (block_of rs)"
    using halfword_value_halfword [of "4 + int (length (concat (map rdw rs)))" "halfword 0 @ concat (map rdw rs)"] assms
    by (simp add: block_of_def)
  ultimately show ?thesis by (simp add: variable_records_def block_of_def)
qed

lemma fixed_records_concat:
  "\<forall>r \<in> set rs. length r = n \<Longrightarrow> fixed_records n (length rs) (concat rs) = rs"
  by (induction rs) auto

lemma length_concat_same: "\<forall>r \<in> set rs. length r = n \<Longrightarrow> length (concat rs) = length rs * n"
  by (induction rs) auto

lemma read_blocks_append:
  "read_blocks ioc (bs @ cs) =
     (case read_blocks ioc bs of None \<Rightarrow> None | Some rs \<Rightarrow> map_option ((@) rs) (read_blocks ioc cs))"
proof (induction bs)
  case Nil
  show ?case by (cases "read_blocks ioc cs") simp_all
next
  case (Cons b bs)
  then show ?case
    by (cases "block_records ioc b"; cases "read_blocks ioc bs"; cases "read_blocks ioc cs") simp_all
qed

section \<open>Filling the buffer\<close>

lemma poke_append: "length c = length b \<Longrightarrow> poke (length a) b (a @ c @ d) = a @ b @ d"
  by (simp add: poke_def)

lemma poke_front: "length c = length b \<Longrightarrow> poke 0 b (c @ d) = b @ d"
  by (simp add: poke_def)

text \<open>The buffer of variable records: descriptor word, the collected records, anything.\<close>

definition collects_variable :: "io_ctrl \<Rightarrow> byte list list \<Rightarrow> bool" where
  "collects_variable ioc rs \<longleftrightarrow>
     bytes_in_buffer ioc = 4 + int (length (concat (map rdw rs))) \<and> free_location ioc = nat (bytes_in_buffer ioc) \<and>
     (\<exists>x y. length x = 2 \<and> io_buffer ioc = x @ halfword 0 @ concat (map rdw rs) @ y)"

lemma collects_variableI:
  "io_buffer ioc = x @ halfword 0 @ concat (map rdw rs) @ y \<Longrightarrow> length x = 2 \<Longrightarrow>
   bytes_in_buffer ioc = 4 + int (length (concat (map rdw rs))) \<Longrightarrow> free_location ioc = nat (bytes_in_buffer ioc) \<Longrightarrow>
   collects_variable ioc rs"
  unfolding collects_variable_def by blast

lemma collects_variableE:
  assumes "collects_variable ioc rs"
  obtains x y where "io_buffer ioc = x @ halfword 0 @ concat (map rdw rs) @ y" "length x = 2"
    "bytes_in_buffer ioc = 4 + int (length (concat (map rdw rs)))" "free_location ioc = 4 + length (concat (map rdw rs))"
  using assms unfolding collects_variable_def by (auto simp: nat_add_distrib)

definition variable_ready :: "io_ctrl \<Rightarrow> byte list list \<Rightarrow> bool" where
  "variable_ready ioc rs \<longleftrightarrow>
     (bytes_in_buffer ioc = 0 \<and> free_location ioc = 0 \<and> rs = []) \<or> collects_variable ioc rs"

definition open_device :: "io_ctrl \<Rightarrow> bool" where
  "open_device ioc \<longleftrightarrow> dcb_open ioc \<and> \<not> dcb_abend ioc \<and> length (io_buffer ioc) = nat (dcbblksi ioc)"

definition same_geometry :: "io_ctrl \<Rightarrow> io_ctrl \<Rightarrow> bool" where
  "same_geometry ioc ioc' \<longleftrightarrow> dcbrecfm ioc' = dcbrecfm ioc \<and> dcblrecl ioc' = dcblrecl ioc \<and> dcbblksi ioc' = dcbblksi ioc"

text \<open>A device that takes every block: \<open>blocks w\<close> is what was written so far.\<close>

definition block_device :: "('w \<Rightarrow> byte list list) \<Rightarrow> 'w zam_ops \<Rightarrow> bool" where
  "block_device blocks ops \<longleftrightarrow>
     (\<forall>w b. blocks (fst (op_write ops w b)) = blocks w @ [b] \<and>
            snd (op_write ops w b) = \<lparr> wo_open = True, wo_abend = False \<rparr>)"

lemma init_bdw_ready:
  assumes "variable_ready ioc rs" and "open_device ioc" and "8 \<le> dcbblksi ioc"
  shows "collects_variable (init_bdw ioc) rs \<and> open_device (init_bdw ioc) \<and> same_geometry ioc (init_bdw ioc) \<and>
    lines_written (init_bdw ioc) = lines_written ioc"
proof (cases "bytes_in_buffer ioc = 0")
  case True
  then have rs: "rs = []" "free_location ioc = 0"
    using assms(1) by (auto simp: variable_ready_def collects_variable_def)
  have len: "4 \<le> length (io_buffer ioc)" using assms by (simp add: open_device_def)
  have "io_buffer ioc = take 2 (io_buffer ioc) @ take 2 (drop 2 (io_buffer ioc)) @ drop 4 (io_buffer ioc)"
    by (metis append_take_drop_id drop_drop numeral_Bit0)
  moreover have "length (take 2 (io_buffer ioc)) = 2" "length (take 2 (drop 2 (io_buffer ioc))) = length (halfword 0)"
    using len by simp_all
  ultimately have buf: "poke 2 (halfword 0) (io_buffer ioc) = take 2 (io_buffer ioc) @ halfword 0 @ drop 4 (io_buffer ioc)"
    by (metis poke_append)
  have init: "init_bdw ioc = ioc\<lparr> io_buffer := poke 2 (halfword 0) (io_buffer ioc), free_location := 4, bytes_in_buffer := 4 \<rparr>"
    using True rs by (simp add: init_bdw_def Let_def sizeof_BDW_def)
  have "collects_variable (init_bdw ioc) rs"
    by (rule collects_variableI [where x = "take 2 (io_buffer ioc)" and y = "drop 4 (io_buffer ioc)"])
      (use len rs in \<open>simp_all add: init buf\<close>)
  moreover have "open_device (init_bdw ioc)"
    using assms(2) len by (simp add: open_device_def init buf)
  ultimately show ?thesis by (simp add: same_geometry_def init)
next
  case False
  then have c: "collects_variable ioc rs" using assms(1) by (simp add: variable_ready_def)
  then obtain x y where xy: "io_buffer ioc = x @ halfword 0 @ concat (map rdw rs) @ y" "length x = 2"
    by (rule collects_variableE)
  have "poke 2 (halfword 0) (io_buffer ioc) = io_buffer ioc"
    using xy poke_append [of "halfword 0" "halfword 0" x "concat (map rdw rs) @ y"] by simp
  with False c assms show ?thesis
    by (simp add: init_bdw_def Let_def same_geometry_def open_device_def)
qed

lemma copy_variable_ready:
  assumes c: "collects_variable ioc rs" and o: "open_device ioc"
    and room: "bytes_in_buffer ioc + int (length data) + 4 \<le> dcbblksi ioc"
  shows "collects_variable (copy_variable_record ioc data) (rs @ [data]) \<and> open_device (copy_variable_record ioc data) \<and>
    same_geometry ioc (copy_variable_record ioc data) \<and>
    lines_written (copy_variable_record ioc data) = lines_written ioc + 1"
proof -
  obtain x y where xy: "io_buffer ioc = x @ halfword 0 @ concat (map rdw rs) @ y" "length x = 2"
    and n: "bytes_in_buffer ioc = 4 + int (length (concat (map rdw rs)))" "free_location ioc = 4 + length (concat (map rdw rs))"
    using c by (rule collects_variableE)
  let ?a = "x @ halfword 0 @ concat (map rdw rs)"
  have a: "length ?a = free_location ioc" using n xy by simp
  have "length (io_buffer ioc) = 4 + length (concat (map rdw rs)) + length y"
    using xy by simp
  then have y: "length data + 4 \<le> length y"
    using room o n unfolding open_device_def by linarith
  then have "length (take (length data + 4) y) = length (rdw data)" by simp
  from poke_append [OF this, of ?a "drop (length data + 4) y"]
  have buf: "poke (free_location ioc) (rdw data) (io_buffer ioc) = ?a @ rdw data @ drop (length data + 4) y"
    using xy a by simp
  have copy: "copy_variable_record ioc data = ioc\<lparr> lines_written := lines_written ioc + 1,
      io_buffer := ?a @ rdw data @ drop (length data + 4) y,
      bytes_in_buffer := 4 + int (length (concat (map rdw (rs @ [data])))),
      free_location := 4 + length (concat (map rdw (rs @ [data]))) \<rparr>"
    using buf n by (simp add: copy_variable_record_def Let_def sizeof_RDW_def rdw_def [symmetric] nat_add_distrib)
  have "collects_variable (copy_variable_record ioc data) (rs @ [data])"
    by (rule collects_variableI [where x = x and y = "drop (length data + 4) y"]) (use xy in \<open>simp_all add: copy\<close>)
  moreover have "open_device (copy_variable_record ioc data)"
    using o xy y by (simp add: open_device_def copy)
  ultimately show ?thesis by (simp add: same_geometry_def copy)
qed

lemma write_variable_ready:
  assumes c: "collects_variable ioc rs" and o: "open_device ioc" and dev: "block_device blocks ops"
  shows "\<exists>w' ioc'. write_variable_record ops w d ioc = (w', d, ioc', 0) \<and> blocks w' = blocks w @ [block_of rs] \<and>
    collects_variable ioc' [] \<and> open_device ioc' \<and> same_geometry ioc ioc' \<and> lines_written ioc' = lines_written ioc"
proof -
  obtain x y where xy: "io_buffer ioc = x @ halfword 0 @ concat (map rdw rs) @ y" "length x = 2"
    and n: "bytes_in_buffer ioc = 4 + int (length (concat (map rdw rs)))"
    using c by (rule collects_variableE)
  let ?n = "bytes_in_buffer ioc" and ?tail = "concat (map rdw rs) @ y"
  have buf: "poke 0 (halfword ?n) (io_buffer ioc) = halfword ?n @ halfword 0 @ ?tail"
    using xy poke_front [of x "halfword ?n"] by simp
  have block: "take (nat ?n) (halfword ?n @ halfword 0 @ ?tail) = block_of rs"
    using n by (simp add: block_of_def nat_add_distrib)
  let ?out = "op_write ops w (block_of rs)"
  have out: "snd ?out = \<lparr> wo_open = True, wo_abend = False \<rparr>" "blocks (fst ?out) = blocks w @ [block_of rs]"
    using dev by (simp_all add: block_device_def)
  let ?ioc = "ioc\<lparr> io_buffer := halfword 0 @ halfword 0 @ ?tail, free_location := 4, bytes_in_buffer := 4 \<rparr>"
  have "write_variable_record ops w d ioc = (fst ?out, d, ?ioc, 0)"
    using o out poke_front [of "halfword ?n" "halfword 0" "halfword 0 @ ?tail"]
    by (simp add: write_variable_record_def Let_def write_sync_def buf block handle_dcb_abend_def split_beta
        open_device_def sizeof_BDW_def del: take_append)
  moreover have "collects_variable ?ioc []"
    by (rule collects_variableI [where x = "halfword 0" and y = ?tail]) simp_all
  moreover have "open_device ?ioc"
    using o xy by (simp add: open_device_def)
  ultimately show ?thesis
    using out by (intro exI [of _ "fst ?out"] exI [of _ ?ioc]) (simp add: same_geometry_def)
qed

section \<open>Records survive blocking\<close>

text \<open>
  A valid geometry as \<open>validate_dcb_attributes\<close> accepts it, with the bounds of the system, and the
  records that do not fill a block of variable records completely.
\<close>

definition geometry :: "io_ctrl \<Rightarrow> bool" where
  "geometry ioc \<longleftrightarrow> dcbblksi ioc \<le> 32760 \<and>
     (if dcbrecfm ioc AND dcbrecv \<noteq> 0 then 4 \<le> dcblrecl ioc \<and> dcblrecl ioc + 4 \<le> dcbblksi ioc
      else 0 < dcblrecl ioc \<and> 0 < dcbblksi ioc \<and> dcblrecl ioc dvd dcbblksi ioc)"

definition leaves_room :: "io_ctrl \<Rightarrow> byte list \<Rightarrow> bool" where
  "leaves_room ioc data \<longleftrightarrow>
     (dcbrecfm ioc AND dcbrecv \<noteq> 0 \<and> dcbrecfm ioc AND dcbrecbr \<noteq> 0 \<longrightarrow>
      int (length (stored_record ioc data)) + 8 < dcbblksi ioc)"

text \<open>The buffer holds the records \<open>pending\<close>.\<close>

definition collects_fixed :: "io_ctrl \<Rightarrow> byte list list \<Rightarrow> bool" where
  "collects_fixed ioc rs \<longleftrightarrow>
     (\<forall>r \<in> set rs. int (length r) = dcblrecl ioc) \<and> bytes_in_buffer ioc = int (length (concat rs)) \<and>
     free_location ioc = length (concat rs) \<and> bytes_in_buffer ioc < dcbblksi ioc \<and>
     (\<exists>y. io_buffer ioc = concat rs @ y)"

definition holds :: "io_ctrl \<Rightarrow> byte list list \<Rightarrow> bool" where
  "holds ioc pending \<longleftrightarrow> open_device ioc \<and> geometry ioc \<and>
     (if dcbrecfm ioc AND dcbrecv \<noteq> 0
      then variable_ready ioc pending \<and> bytes_in_buffer ioc \<le> dcbblksi ioc \<and>
           (dcbrecfm ioc AND dcbrecbr = 0 \<longrightarrow> pending = [])
      else collects_fixed ioc pending)"

lemma block_records_block_of:
  assumes "dcbrecfm ioc AND dcbrecv \<noteq> 0" and "int (length (block_of rs)) \<le> 32760"
  shows "read_blocks ioc [block_of rs] = Some rs"
  using assms variable_records_block_of [of rs] by (simp add: block_records_def)

lemma length_block_of: "collects_variable ioc rs \<Longrightarrow> int (length (block_of rs)) = bytes_in_buffer ioc"
  by (simp add: collects_variable_def block_of_def)

lemma same_geometry_trans: "same_geometry a b \<Longrightarrow> same_geometry b c \<Longrightarrow> same_geometry a c"
  by (simp add: same_geometry_def)

lemma geometry_same: "same_geometry a b \<Longrightarrow> geometry b = geometry a"
  by (simp add: same_geometry_def geometry_def)

lemma variable_record_step:
  assumes dev: "block_device blocks ops" and h: "holds ioc pending" and v: "dcbrecfm ioc AND dcbrecv \<noteq> 0"
    and fits: "int (length data) \<le> dcblrecl ioc - 4"
    and room: "dcbrecfm ioc AND dcbrecbr \<noteq> 0 \<longrightarrow> int (length data) + 8 < dcbblksi ioc"
  shows "\<exists>w' ioc' new done_rs pending'. handle_variable_record ops w d ioc data = (w', d, ioc', 0) \<and>
    blocks w' = blocks w @ new \<and> read_blocks ioc new = Some done_rs \<and> done_rs @ pending' = pending @ [data] \<and>
    holds ioc' pending' \<and> same_geometry ioc ioc' \<and> lines_written ioc' = lines_written ioc + 1"
proof -
  let ?i = "init_bdw ioc"
  have g: "8 \<le> dcbblksi ioc" "dcbblksi ioc \<le> 32760" "dcblrecl ioc + 4 \<le> dcbblksi ioc"
    using h v by (auto simp: holds_def geometry_def)
  have ready: "variable_ready ioc pending" "open_device ioc" and bound: "bytes_in_buffer ioc \<le> dcbblksi ioc"
    using h v by (auto simp: holds_def)
  have i: "collects_variable ?i pending" "open_device ?i" "same_geometry ioc ?i" "lines_written ?i = lines_written ioc"
    using init_bdw_ready [OF ready g(1)] by auto
  have attrs: "dcbrecfm ?i = dcbrecfm ioc" "dcblrecl ?i = dcblrecl ioc" "dcbblksi ?i = dcbblksi ioc"
    using i(3) by (simp_all add: same_geometry_def)
  have ibound: "bytes_in_buffer ?i \<le> dcbblksi ioc"
    using bound g(1) by (simp add: init_bdw_def Let_def sizeof_BDW_def)
  have holdsI: "holds ioc' rs" if "collects_variable ioc' rs" "open_device ioc'" "same_geometry ioc ioc'"
    "bytes_in_buffer ioc' \<le> dcbblksi ioc" "dcbrecfm ioc AND dcbrecbr = 0 \<longrightarrow> rs = []" for ioc' rs
    using that h v geometry_same [OF that(3)]
    by (simp add: holds_def variable_ready_def) (simp add: same_geometry_def)
  have bytes: "bytes_in_buffer ioc' = 4 + int (length (concat (map rdw rs)))" if "collects_variable ioc' rs" for ioc' rs
    using that by (simp add: collects_variable_def)
  show ?thesis
  proof (cases "dcbrecfm ioc AND dcbrecbr = 0")
    case True
    then have "pending = []" using h v by (simp add: holds_def)
    let ?c = "copy_variable_record ?i data"
    have four: "bytes_in_buffer ?i = 4" using bytes [OF i(1)] \<open>pending = []\<close> by simp
    have c: "collects_variable ?c [data]" "open_device ?c" "same_geometry ?i ?c" "lines_written ?c = lines_written ioc + 1"
      using copy_variable_ready [OF i(1,2), of data] fits g four attrs i(4) \<open>pending = []\<close> by auto
    obtain w' ioc' where w: "write_variable_record ops w d ?c = (w', d, ioc', 0)" "blocks w' = blocks w @ [block_of [data]]"
      and ioc': "collects_variable ioc' []" "open_device ioc'" "same_geometry ?c ioc'" "lines_written ioc' = lines_written ?c"
      using write_variable_ready [OF c(1,2) dev, of w d] by blast
    have same: "same_geometry ioc ioc'"
      using i(3) c(3) ioc'(3) by (blast intro: same_geometry_trans)
    have "handle_variable_record ops w d ioc data = (w', d, ioc', 0)"
      using True w(1) attrs by (simp add: handle_variable_record_def Let_def)
    moreover have "read_blocks ioc [block_of [data]] = Some [data]"
      using length_block_of [OF c(1)] bytes [OF c(1)] fits g by (intro block_records_block_of [OF v]) simp
    moreover have "holds ioc' []"
      by (rule holdsI [OF ioc'(1,2) same]) (use bytes [OF ioc'(1)] g in simp_all)
    ultimately show ?thesis
      using w(2) \<open>pending = []\<close> ioc'(4) c(4) same
      by (intro exI [of _ w'] exI [of _ ioc'] exI [of _ "[block_of [data]]"] exI [of _ "[data]"] exI [of _ "[]"]) simp
  next
    case blocked: False
    then have len: "int (length data) + 8 < dcbblksi ioc" using room by simp
    show ?thesis
    proof (cases "dcbblksi ioc - bytes_in_buffer ?i \<le> int (length data) + 4")
      case True
      obtain w' ioc1 where w: "write_variable_record ops w d ?i = (w', d, ioc1, 0)" "blocks w' = blocks w @ [block_of pending]"
        and ioc1: "collects_variable ioc1 []" "open_device ioc1" "same_geometry ?i ioc1" "lines_written ioc1 = lines_written ?i"
        using write_variable_ready [OF i(1,2) dev, of w d] by blast
      have blk: "dcbblksi ioc1 = dcbblksi ioc" using ioc1(3) attrs by (simp add: same_geometry_def)
      have four: "bytes_in_buffer ioc1 = 4" using bytes [OF ioc1(1)] by simp
      let ?c = "copy_variable_record ioc1 data"
      have c: "collects_variable ?c [data]" "open_device ?c" "same_geometry ioc1 ?c" "lines_written ?c = lines_written ioc1 + 1"
        using copy_variable_ready [OF ioc1(1,2), of data] len four blk by auto
      have same: "same_geometry ioc ?c"
        using i(3) ioc1(3) c(3) by (blast intro: same_geometry_trans)
      have "handle_variable_record ops w d ioc data = (w', d, ?c, 0)"
        using blocked True w(1) attrs four len blk
        by (simp add: handle_variable_record_def Let_def sizeof_RDW_def)
      moreover have "read_blocks ioc [block_of pending] = Some pending"
        using length_block_of [OF i(1)] ibound g by (intro block_records_block_of [OF v]) simp
      moreover have "holds ?c [data]"
        by (rule holdsI [OF c(1,2) same]) (use bytes [OF c(1)] len blocked in simp_all)
      ultimately show ?thesis
        using w(2) ioc1(4) c(4) i(4) same
        by (intro exI [of _ w'] exI [of _ ?c] exI [of _ "[block_of pending]"] exI [of _ pending] exI [of _ "[data]"]) simp
    next
      case False
      let ?c = "copy_variable_record ?i data"
      have c: "collects_variable ?c (pending @ [data])" "open_device ?c" "same_geometry ?i ?c"
        "lines_written ?c = lines_written ?i + 1"
        using copy_variable_ready [OF i(1,2), of data] False attrs by auto
      have same: "same_geometry ioc ?c"
        using i(3) c(3) by (blast intro: same_geometry_trans)
      have "handle_variable_record ops w d ioc data = (w, d, ?c, 0)"
        using blocked False attrs by (simp add: handle_variable_record_def Let_def sizeof_RDW_def)
      moreover have "holds ?c (pending @ [data])"
        by (rule holdsI [OF c(1,2) same]) (use bytes [OF c(1)] bytes [OF i(1)] False blocked in simp_all)
      ultimately show ?thesis
        using c(4) i(4) same
        by (intro exI [of _ w] exI [of _ ?c] exI [of _ "[]"] exI [of _ "[]"] exI [of _ "pending @ [data]"]) simp
    qed
  qed
qed

lemma fixed_record_step:
  assumes dev: "block_device blocks ops" and h: "holds ioc pending" and f: "dcbrecfm ioc AND dcbrecv = 0"
    and fits: "int (length data) \<le> dcblrecl ioc"
  defines "r \<equiv> data @ replicate (nat (dcblrecl ioc) - length data) (ebcdic SPACE)"
  shows "\<exists>w' ioc' new done_rs pending'. handle_fixed_record ops w d ioc data = (w', d, ioc', 0) \<and>
    blocks w' = blocks w @ new \<and> read_blocks ioc new = Some done_rs \<and> done_rs @ pending' = pending @ [r] \<and>
    holds ioc' pending' \<and> same_geometry ioc ioc' \<and> lines_written ioc' = lines_written ioc + 1"
proof -
  let ?l = "dcblrecl ioc" and ?b = "dcbblksi ioc"
  have g: "0 < ?l" "0 < ?b" "?l dvd ?b" and o: "open_device ioc"
    using h f by (auto simp: holds_def geometry_def)
  obtain y where y: "io_buffer ioc = concat pending @ y"
    and lens': "\<forall>q \<in> set pending. int (length q) = ?l"
    and n: "bytes_in_buffer ioc = int (length (concat pending))" "free_location ioc = length (concat pending)"
      "int (length (concat pending)) < ?b"
    using h f by (auto simp: holds_def collects_fixed_def)
  have lens: "\<forall>q \<in> set pending. length q = nat ?l" using lens' by (metis nat_int)
  have r: "length r = nat ?l" using fits by (simp add: r_def)
  have all: "\<forall>q \<in> set (pending @ [r]). length q = nat ?l" using lens r by simp
  have len: "length (concat pending) = length pending * nat ?l"
    using lens by (rule length_concat_same)
  have total: "int (length (concat (pending @ [r]))) \<le> ?b"
  proof -
    obtain k where k: "?b = ?l * k" using g(3) by (rule dvdE)
    have "int (length pending) * ?l < k * ?l"
      using n(3) len g(1) k by (simp add: mult.commute)
    then have "(int (length pending) + 1) * ?l \<le> k * ?l"
      using g(1) by (intro mult_right_mono) simp_all
    then show ?thesis using r len g(1) k by (simp add: algebra_simps)
  qed
  have "length (io_buffer ioc) = length (concat pending) + length y" using y by simp
  moreover have "int (length (concat (pending @ [r]))) = int (length (concat pending)) + ?l"
    using r g(1) by simp
  ultimately have ylen: "nat ?l \<le> length y"
    using total o g(1) unfolding open_device_def by linarith
  then have "length (take (nat ?l) y) = length r" using r by simp
  from poke_append [OF this, of "concat pending" "drop (nat ?l) y"]
  have buf: "poke (free_location ioc) r (io_buffer ioc) = concat (pending @ [r]) @ drop (nat ?l) y"
    using y n by simp
  let ?i = "ioc\<lparr> io_buffer := concat (pending @ [r]) @ drop (nat ?l) y, lines_written := lines_written ioc + 1,
    bytes_in_buffer := int (length (concat (pending @ [r]))), free_location := length (concat (pending @ [r])) \<rparr>"
  have i: "ioc\<lparr> io_buffer := poke (free_location ioc) r (io_buffer ioc), lines_written := lines_written ioc + 1,
      bytes_in_buffer := bytes_in_buffer ioc + ?l, free_location := free_location ioc + nat ?l \<rparr> = ?i"
    unfolding buf using n r g(1) by simp
  have unfold: "handle_fixed_record ops w d ioc data =
      (if ?b \<le> bytes_in_buffer ?i
       then let (w', ioc2) = write_sync ops w ?i; (abended, d') = handle_dcb_abend ''WRITE'' ioc2 d
            in if abended then (w', d', ioc2, RTNCD_FAILURE)
               else (w', d', ioc2\<lparr> bytes_in_buffer := 0, free_location := 0 \<rparr>, 0)
       else (w, d, ?i, 0))"
    unfolding handle_fixed_record_def Let_def r_def [symmetric] i ..
  have open_i: "open_device ?i"
    using o y r ylen by (simp add: open_device_def)
  show ?thesis
  proof (cases "?b \<le> int (length (concat (pending @ [r])))")
    case True
    with total have full: "length (concat (pending @ [r])) = nat ?b" by linarith
    let ?block = "concat (pending @ [r])"
    have block: "take (nat ?b) (io_buffer ?i) = ?block" using full by simp
    let ?out = "op_write ops w ?block"
    have out: "snd ?out = \<lparr> wo_open = True, wo_abend = False \<rparr>" "blocks (fst ?out) = blocks w @ [?block]"
      using dev by (simp_all add: block_device_def)
    let ?j = "?i\<lparr> bytes_in_buffer := 0, free_location := 0 \<rparr>"
    have "write_sync ops w ?i = (fst ?out, ?i)"
      using out(1) open_i block by (simp add: write_sync_def split_beta open_device_def del: take_append)
    then have "handle_fixed_record ops w d ioc data = (fst ?out, d, ?j, 0)"
      using True o unfolding unfold by (simp add: handle_dcb_abend_def open_device_def del: concat_append)
    moreover have "read_blocks ioc [?block] = Some (pending @ [r])"
    proof -
      have "length ?block div nat ?l = length (pending @ [r])"
        using length_concat_same [OF all] g(1) by simp
      then show ?thesis
        using f fixed_records_concat [OF all] by (simp add: block_records_def del: concat_append)
    qed
    moreover have "holds ?j []"
      using h f open_i g by (simp add: holds_def geometry_def collects_fixed_def open_device_def)
    ultimately show ?thesis
      using out(2)
      by (intro exI [of _ "fst ?out"] exI [of _ ?j] exI [of _ "[?block]"] exI [of _ "pending @ [r]"] exI [of _ "[]"])
        (simp add: same_geometry_def)
  next
    case False
    then have "handle_fixed_record ops w d ioc data = (w, d, ?i, 0)"
      unfolding unfold by (simp del: concat_append)
    moreover have "holds ?i (pending @ [r])"
      using h f open_i False all g(1) by (simp add: holds_def geometry_def collects_fixed_def)
    ultimately show ?thesis
      by (intro exI [of _ w] exI [of _ ?i] exI [of _ "[]"] exI [of _ "[]"] exI [of _ "pending @ [r]"])
        (simp add: same_geometry_def)
  qed
qed

lemma record_step:
  assumes dev: "block_device blocks ops" and h: "holds ioc pending" and room: "leaves_room ioc data"
  shows "\<exists>w' ioc' new done_rs pending'. write_output_bpam ops w d ioc data = (w', d, ioc', 0) \<and>
    blocks w' = blocks w @ new \<and> read_blocks ioc new = Some done_rs \<and>
    done_rs @ pending' = pending @ [stored_record ioc data] \<and>
    holds ioc' pending' \<and> same_geometry ioc ioc' \<and> lines_written ioc' = lines_written ioc + 1"
proof (cases "dcbrecfm ioc AND dcbrecv = 0")
  case True
  have g: "0 < dcblrecl ioc" using h True by (simp add: holds_def geometry_def)
  have "length (take (nat (dcblrecl ioc)) data) \<le> nat (dcblrecl ioc)" by simp
  then have fits: "int (length (take (nat (dcblrecl ioc)) data)) \<le> dcblrecl ioc"
    using g by linarith
  have "stored_record ioc data = take (nat (dcblrecl ioc)) data @
      replicate (nat (dcblrecl ioc) - length (take (nat (dcblrecl ioc)) data)) (ebcdic SPACE)"
    using True by (simp add: stored_record_def min_def)
  with fixed_record_step [OF dev h True fits, of w d] show ?thesis
    using True by (simp add: write_output_bpam_def)
next
  case False
  have g: "4 \<le> dcblrecl ioc" using h False by (simp add: holds_def geometry_def)
  let ?data = "take (nat (dcblrecl ioc - 4)) data"
  have "length ?data \<le> nat (dcblrecl ioc - 4)" by simp
  then have "int (length ?data) \<le> dcblrecl ioc - 4" using g by linarith
  moreover have "dcbrecfm ioc AND dcbrecbr \<noteq> 0 \<longrightarrow> int (length ?data) + 8 < dcbblksi ioc"
    using room False by (simp add: leaves_room_def stored_record_def)
  moreover have "stored_record ioc data = ?data" using False by (simp add: stored_record_def)
  ultimately show ?thesis
    using variable_record_step [OF dev h False, of ?data w d] False
    by (simp add: write_output_bpam_def sizeof_RDW_def)
qed

lemma same_geometry_reads:
  assumes "same_geometry ioc ioc'"
  shows "read_blocks ioc' = read_blocks ioc" "stored_record ioc' = stored_record ioc" "leaves_room ioc' = leaves_room ioc"
proof -
  have "block_records ioc' = block_records ioc"
    using assms by (simp add: fun_eq_iff block_records_def same_geometry_def)
  then have "read_blocks ioc' bs = read_blocks ioc bs" for bs
    by (induction bs) (simp_all split: option.split)
  then show "read_blocks ioc' = read_blocks ioc" ..
  show "stored_record ioc' = stored_record ioc"
    using assms by (simp add: fun_eq_iff stored_record_def same_geometry_def)
  then show "leaves_room ioc' = leaves_room ioc"
    using assms by (simp add: fun_eq_iff leaves_room_def same_geometry_def)
qed

lemma records_step:
  assumes dev: "block_device blocks ops" and h: "holds ioc pending" and room: "\<forall>r \<in> set rs. leaves_room ioc r"
  shows "\<exists>w' ioc' new done_rs pending'. write_records ops w d ioc rs = (w', d, ioc', 0) \<and>
    blocks w' = blocks w @ new \<and> read_blocks ioc new = Some done_rs \<and>
    done_rs @ pending' = pending @ map (stored_record ioc) rs \<and>
    holds ioc' pending' \<and> same_geometry ioc ioc' \<and> lines_written ioc' = lines_written ioc + int (length rs)"
  using h room
proof (induction rs arbitrary: w ioc pending)
  case Nil
  then show ?case by (auto simp: same_geometry_def intro!: exI [of _ "[]"] exI [of _ pending])
next
  case (Cons r rs)
  obtain w1 ioc1 new1 done1 p1 where one: "write_output_bpam ops w d ioc r = (w1, d, ioc1, 0)"
    "blocks w1 = blocks w @ new1" "read_blocks ioc new1 = Some done1" "done1 @ p1 = pending @ [stored_record ioc r]"
    "holds ioc1 p1" "same_geometry ioc ioc1" "lines_written ioc1 = lines_written ioc + 1"
    using record_step [OF dev Cons.prems(1), of r w d] Cons.prems(2) by auto
  note same = same_geometry_reads [OF one(6)]
  obtain w2 ioc2 new2 done2 p2 where rest: "write_records ops w1 d ioc1 rs = (w2, d, ioc2, 0)"
    "blocks w2 = blocks w1 @ new2" "read_blocks ioc new2 = Some done2" "done2 @ p2 = p1 @ map (stored_record ioc) rs"
    "holds ioc2 p2" "same_geometry ioc1 ioc2" "lines_written ioc2 = lines_written ioc1 + int (length rs)"
    using Cons.IH [OF one(5), of w1] Cons.prems(2) by (auto simp: same)
  have "(done1 @ done2) @ p2 = pending @ map (stored_record ioc) (r # rs)"
    using one(4) rest(4) by (metis append.assoc append_Cons append_Nil list.simps(9))
  moreover have "read_blocks ioc (new1 @ new2) = Some (done1 @ done2)"
    using one(3) rest(3) by (simp add: read_blocks_append)
  ultimately show ?case
    using one rest same_geometry_trans [OF one(6) rest(6)]
    by (intro exI [of _ w2] exI [of _ ioc2] exI [of _ "new1 @ new2"] exI [of _ "done1 @ done2"] exI [of _ p2]) simp
qed

lemma flush_step:
  assumes dev: "block_device blocks ops" and h: "holds ioc pending"
  shows "\<exists>w' ioc' new. write_flush ops w d ioc = (w', d, ioc', 0) \<and>
    blocks w' = blocks w @ new \<and> read_blocks ioc new = Some pending"
proof -
  have o: "dcb_open ioc" "\<not> dcb_abend ioc" using h by (simp_all add: holds_def open_device_def)
  have dev': "snd (op_write ops w b) = \<lparr> wo_open = True, wo_abend = False \<rparr>"
    "blocks (fst (op_write ops w b)) = blocks w @ [b]" for b
    using dev by (simp_all add: block_device_def)
  show ?thesis
  proof (cases "dcbrecfm ioc AND dcbrecv = 0")
    case True
    then obtain y where c: "\<forall>r \<in> set pending. int (length r) = dcblrecl ioc"
      "bytes_in_buffer ioc = int (length (concat pending))" "io_buffer ioc = concat pending @ y" and g: "0 < dcblrecl ioc"
      using h by (auto simp: holds_def collects_fixed_def geometry_def)
    have lens: "\<forall>r \<in> set pending. length r = nat (dcblrecl ioc)" using c(1) by (metis nat_int)
    show ?thesis
    proof (cases "pending = []")
      case empty: True
      then have "write_flush ops w d ioc = (w, d, ioc, 0)"
        using c by (simp add: write_flush_def)
      then show ?thesis using empty by (intro exI [of _ w] exI [of _ ioc] exI [of _ "[]"]) simp
    next
      case False
      then have "0 < length (concat pending)"
        using length_concat_same [OF lens] g by simp
      then have nz: "\<not> bytes_in_buffer ioc \<le> 0" using c(2) by linarith
      have block: "take (nat (bytes_in_buffer ioc)) (io_buffer ioc) = concat pending" using c by simp
      have "\<exists>ioc'. write_flush ops w d ioc = (fst (op_write ops w (concat pending)), d, ioc', 0)"
        using o True nz dev' by (simp add: write_flush_def write_sync_def split_beta handle_dcb_abend_def Let_def block)
      moreover have "read_blocks ioc [concat pending] = Some pending"
        using True fixed_records_concat [OF lens] length_concat_same [OF lens] g by (simp add: block_records_def)
      ultimately show ?thesis using dev'(2) by blast
    qed
  next
    case v: False
    then have ready: "variable_ready ioc pending" "bytes_in_buffer ioc \<le> 32760"
      using h by (auto simp: holds_def geometry_def)
    show ?thesis
    proof (cases "bytes_in_buffer ioc \<le> 4")
      case True
      have "pending = []"
      proof (rule ccontr)
        assume "pending \<noteq> []"
        then obtain r rs where p: "pending = r # rs" by (cases pending) auto
        with ready True show False
          by (auto simp: variable_ready_def collects_variable_def)
      qed
      moreover have "write_flush ops w d ioc = (w, d, ioc, 0)"
        using True v by (simp add: write_flush_def sizeof_BDW_def Let_def)
      ultimately show ?thesis by (intro exI [of _ w] exI [of _ ioc] exI [of _ "[]"]) simp
    next
      case False
      then have c: "collects_variable ioc pending" using ready by (auto simp: variable_ready_def)
      then obtain x y where xy: "io_buffer ioc = x @ halfword 0 @ concat (map rdw pending) @ y" "length x = 2"
        and n: "bytes_in_buffer ioc = 4 + int (length (concat (map rdw pending)))"
        by (rule collects_variableE)
      let ?n = "bytes_in_buffer ioc"
      have buf: "poke 0 (halfword ?n) (io_buffer ioc) = halfword ?n @ halfword 0 @ concat (map rdw pending) @ y"
        using xy poke_front [of x "halfword ?n"] by simp
      have block: "take (nat ?n) (halfword ?n @ halfword 0 @ concat (map rdw pending) @ y) = block_of pending"
        using n by (simp add: block_of_def nat_add_distrib)
      have "\<exists>ioc'. write_flush ops w d ioc = (fst (op_write ops w (block_of pending)), d, ioc', 0)"
        using o dev' False v
        by (simp add: write_flush_def write_sync_def split_beta handle_dcb_abend_def Let_def sizeof_BDW_def buf block del: take_append)
      moreover have "read_blocks ioc [block_of pending] = Some pending"
        using length_block_of [OF c] ready(2) v by (intro block_records_block_of) simp_all
      ultimately show ?thesis using dev'(2) by blast
    qed
  qed
qed

text \<open>The state \<open>open_output_bpam\<close> leaves behind.\<close>

definition fresh_buffer :: "io_ctrl \<Rightarrow> bool" where
  "fresh_buffer ioc \<longleftrightarrow> open_device ioc \<and> geometry ioc \<and> bytes_in_buffer ioc = 0 \<and> free_location ioc = 0 \<and> lines_written ioc = 0"

lemma fresh_holds: "fresh_buffer ioc \<Longrightarrow> holds ioc []"
  by (auto simp: fresh_buffer_def holds_def variable_ready_def collects_fixed_def geometry_def)


text \<open>A record of variable blocked format that fills a block completely, which the record length
  allows when the block size is just the record length and the block descriptor word, is neither
  written nor kept in the buffer nor counted, and the call reports success.\<close>

theorem full_record_dropped:
  assumes dev: "block_device blocks ops" and h: "holds ioc pending"
    and v: "dcbrecfm ioc AND dcbrecv \<noteq> 0" "dcbrecfm ioc AND dcbrecbr \<noteq> 0"
    and full: "dcbblksi ioc = dcblrecl ioc + 4" and len: "int (length data) = dcblrecl ioc - 4"
  shows "\<exists>w' ioc'. write_output_bpam ops w d ioc data = (w', d, ioc', 0) \<and>
    blocks w' = blocks w @ [block_of pending] \<and> holds ioc' [] \<and> lines_written ioc' = lines_written ioc"
proof -
  let ?i = "init_bdw ioc"
  have ready: "variable_ready ioc pending" "open_device ioc" and g: "8 \<le> dcbblksi ioc"
    using h v by (auto simp: holds_def geometry_def)
  have i: "collects_variable ?i pending" "open_device ?i" "same_geometry ioc ?i" "lines_written ?i = lines_written ioc"
    using init_bdw_ready [OF ready g] by auto
  obtain w' ioc1 where w: "write_variable_record ops w d ?i = (w', d, ioc1, 0)" "blocks w' = blocks w @ [block_of pending]"
    and ioc1: "collects_variable ioc1 []" "open_device ioc1" "same_geometry ?i ioc1" "lines_written ioc1 = lines_written ?i"
    using write_variable_ready [OF i(1,2) dev, of w d] by blast
  have same: "same_geometry ioc ioc1" using i(3) ioc1(3) by (rule same_geometry_trans)
  have four: "bytes_in_buffer ioc1 = 4" "4 \<le> bytes_in_buffer ?i"
    using ioc1(1) i(1) by (simp_all add: collects_variable_def)
  have "take (nat (dcblrecl ioc - 4)) data = data" using len by simp
  then have "write_output_bpam ops w d ioc data = (w', d, ioc1, 0)"
    using v full len w(1) four i(3) same
    by (simp add: write_output_bpam_def handle_variable_record_def Let_def sizeof_RDW_def same_geometry_def)
  moreover have "holds ioc1 []"
    using ioc1 same h v g four geometry_same [OF same]
    by (simp add: holds_def variable_ready_def) (simp add: same_geometry_def)
  ultimately show ?thesis using w(2) ioc1(4) i(4) by (intro exI [of _ w'] exI [of _ ioc1]) simp
qed

text \<open>A device that only remembers its blocks, for evaluation.\<close>

definition tape :: "byte list list zam_ops" where
  "tape = \<lparr> op_rdjfcb = \<lambda>w n. (w, 0, \<lparr> jfcbind1 = jfcpds, jfcbdsnm = ''USER.TEXT'', jfcbelnm = ''MEMBER  '', jfcrecfm = 0x50 \<rparr>),
     op_enq = \<lambda>w n. (w, 0), op_deq = \<lambda>w n. (w, 0), op_tiot_ucb = \<lambda>w n. 1,
     op_reserve = \<lambda>w n. (w, 0), op_deq_reserve = \<lambda>w n. (w, 0),
     op_open = \<lambda>w n recfm. (w, \<lparr> oo_rc = 0, oo_recfm = recfm, oo_lrecl = 12, oo_blksi = 24, oo_open = True, oo_abend = False \<rparr>),
     op_write = \<lambda>w b. (w @ [b], \<lparr> wo_open = True, wo_abend = False \<rparr>),
     op_bldl = \<lambda>w n. (w, 4, 0, []), op_userid = \<lambda>w. (w, 0, replicate 8 0), op_time = \<lambda>w. (w, [1, 2, 3], [0, 1, 2, 3]),
     op_stow = \<lambda>w n c u. (w, 0, 0), op_close = \<lambda>w. (w, 0, False) \<rparr>"

definition tape_control :: "byte \<Rightarrow> int \<Rightarrow> int \<Rightarrow> io_ctrl" where
  "tape_control recfm lrecl blksi =
     (new_io_ctrl ''DD1'')\<lparr> dcbrecfm := recfm, dcblrecl := lrecl, dcbblksi := blksi, dcb_open := True,
        io_buffer := replicate (nat blksi) 0 \<rparr>"

lemma tape_device: "block_device id tape"
  by (simp add: block_device_def tape_def)

lemma tape_fresh: "geometry (tape_control recfm lrecl blksi) \<Longrightarrow> fresh_buffer (tape_control recfm lrecl blksi)"
  by (simp add: fresh_buffer_def open_device_def tape_control_def new_io_ctrl_def)


theorem full_record_dropped_witness:
  "\<exists>w' ioc'. write_output_bpam tape [] zdiag_init (tape_control 0x50 12 16) [1, 2, 3, 4, 5, 6, 7, 8] = (w', zdiag_init, ioc', 0) \<and>
    id w' = id [] @ [block_of []] \<and> holds ioc' [] \<and> lines_written ioc' = lines_written (tape_control 0x50 12 16)"
proof (rule full_record_dropped [OF tape_device])
  have "geometry (tape_control 0x50 12 16)"
    by (simp add: geometry_def tape_control_def new_io_ctrl_def dcbrecv_def)
  then show "holds (tape_control 0x50 12 16) []"
    by (rule fresh_holds [OF tape_fresh])
qed (simp_all add: tape_control_def new_io_ctrl_def dcbrecv_def dcbrecbr_def)

section \<open>Serialization is released\<close>

datatype lock_event = Enq string | Deq string | Reserve string | Deq_reserve string

text \<open>Any services, with a log of what was obtained and released.\<close>

definition keep_log :: "('w \<Rightarrow> 'w \<times> 'r) \<Rightarrow> 'w \<times> lock_event list \<Rightarrow> ('w \<times> lock_event list) \<times> 'r" where
  "keep_log f wl = (let (w', r) = f (fst wl) in ((w', snd wl), r))"

definition log_when :: "lock_event \<Rightarrow> (int \<Rightarrow> bool) \<Rightarrow> ('w \<Rightarrow> 'w \<times> int) \<Rightarrow> 'w \<times> lock_event list \<Rightarrow> ('w \<times> lock_event list) \<times> int" where
  "log_when e P f wl = (let (w', r) = f (fst wl) in ((w', snd wl @ (if P r then [e] else [])), r))"

definition logged :: "'w zam_ops \<Rightarrow> ('w \<times> lock_event list) zam_ops" where
  "logged ops = \<lparr> op_rdjfcb = \<lambda>w n. keep_log (\<lambda>w. op_rdjfcb ops w n) w,
     op_enq = \<lambda>w n. log_when (Enq n) (\<lambda>rc. rc = 0) (\<lambda>w. op_enq ops w n) w,
     op_deq = \<lambda>w n. log_when (Deq n) (\<lambda>rc. True) (\<lambda>w. op_deq ops w n) w,
     op_tiot_ucb = \<lambda>w n. op_tiot_ucb ops (fst w) n,
     op_reserve = \<lambda>w n. log_when (Reserve n) (\<lambda>rc. rc = 0) (\<lambda>w. op_reserve ops w n) w,
     op_deq_reserve = \<lambda>w n. log_when (Deq_reserve n) (\<lambda>rc. True) (\<lambda>w. op_deq_reserve ops w n) w,
     op_open = \<lambda>w n recfm. keep_log (\<lambda>w. op_open ops w n recfm) w,
     op_write = \<lambda>w b. keep_log (\<lambda>w. op_write ops w b) w,
     op_bldl = \<lambda>w n. keep_log (\<lambda>w. op_bldl ops w n) w,
     op_userid = keep_log (op_userid ops), op_time = keep_log (op_time ops),
     op_stow = \<lambda>w n c u. keep_log (\<lambda>w. op_stow ops w n c u) w,
     op_close = keep_log (op_close ops) \<rparr>"

text \<open>The events a control block still has to answer for.\<close>

definition obtained :: "io_ctrl \<Rightarrow> lock_event list" where
  "obtained ioc = (if has_enq ioc then [Enq (enq_name ioc)] else []) @
     (if has_reserve ioc then [Reserve (jfcbdsnm (io_jfcb ioc))] else [])"

definition released :: "io_ctrl \<Rightarrow> lock_event list" where
  "released ioc = (if has_reserve ioc then [Deq_reserve (jfcbdsnm (io_jfcb ioc))] else []) @
     (if has_enq ioc then [Deq (enq_name ioc)] else [])"

definition same_locks :: "io_ctrl \<Rightarrow> io_ctrl \<Rightarrow> bool" where
  "same_locks ioc ioc' \<longleftrightarrow> has_enq ioc' = has_enq ioc \<and> has_reserve ioc' = has_reserve ioc \<and> io_jfcb ioc' = io_jfcb ioc"

lemma logged_quiet [simp]:
  "snd (fst (op_rdjfcb (logged ops) w n)) = snd w" "snd (fst (op_open (logged ops) w n recfm)) = snd w"
  "snd (fst (op_write (logged ops) w b)) = snd w" "snd (fst (op_bldl (logged ops) w n)) = snd w"
  "snd (fst (op_userid (logged ops) w)) = snd w" "snd (fst (op_time (logged ops) w)) = snd w"
  "snd (fst (op_stow (logged ops) w n c u)) = snd w" "snd (fst (op_close (logged ops) w)) = snd w"
  by (simp_all add: logged_def keep_log_def split_beta Let_def)

lemma logged_locks [simp]:
  "snd (fst (op_enq (logged ops) w n)) = snd w @ (if snd (op_enq (logged ops) w n) = 0 then [Enq n] else [])"
  "snd (fst (op_deq (logged ops) w n)) = snd w @ [Deq n]"
  "snd (fst (op_reserve (logged ops) w n)) = snd w @ (if snd (op_reserve (logged ops) w n) = 0 then [Reserve n] else [])"
  "snd (fst (op_deq_reserve (logged ops) w n)) = snd w @ [Deq_reserve n]"
  by (simp_all add: logged_def log_when_def split_beta Let_def)

lemma same_locks_obtained: "same_locks a b \<Longrightarrow> obtained b = obtained a \<and> released b = released a"
  by (simp add: same_locks_def obtained_def released_def enq_name_def)

text \<open>An operation that touches neither the log nor the locks.\<close>

definition quiet :: "'w \<times> lock_event list \<Rightarrow> io_ctrl \<Rightarrow> ('w \<times> lock_event list) \<times> zdiag \<times> io_ctrl \<times> int \<Rightarrow> bool" where
  "quiet w ioc res \<longleftrightarrow> snd (fst res) = snd w \<and> same_locks ioc (fst (snd (snd res)))"

lemma write_sync_quiet [simp]:
  "snd (fst (write_sync (logged ops) w ioc)) = snd w"
  "has_enq (snd (write_sync ops' w' ioc)) = has_enq ioc" "has_reserve (snd (write_sync ops' w' ioc)) = has_reserve ioc"
  "io_jfcb (snd (write_sync ops' w' ioc)) = io_jfcb ioc"
  by (simp_all add: write_sync_def split_beta Let_def)

lemma quiet_fixed: "quiet w ioc (handle_fixed_record (logged ops) w d ioc data)"
  by (simp add: quiet_def same_locks_def handle_fixed_record_def Let_def split_beta)

lemma quiet_write_variable: "quiet w ioc (write_variable_record (logged ops) w d ioc)"
  by (simp add: quiet_def same_locks_def write_variable_record_def Let_def split_beta)

lemma same_locks_init: "same_locks ioc (init_bdw ioc)"
  by (simp add: same_locks_def init_bdw_def Let_def)

lemma same_locks_copy: "same_locks ioc (copy_variable_record ioc data)"
  by (simp add: same_locks_def copy_variable_record_def Let_def)

lemma same_locks_trans: "same_locks a b \<Longrightarrow> same_locks b c \<Longrightarrow> same_locks a c"
  by (simp add: same_locks_def)

lemma quiet_variable: "quiet w ioc (handle_variable_record (logged ops) w d ioc data)"
proof -
  let ?i = "init_bdw ioc"
  obtain w1 d1 ioc1 rc1 where out: "write_variable_record (logged ops) w d ?i = (w1, d1, ioc1, rc1)"
    by (cases "write_variable_record (logged ops) w d ?i") auto
  have full: "snd w1 = snd w" "same_locks ioc ioc1"
    using quiet_write_variable [of w ?i ops d] out same_locks_trans [OF same_locks_init] by (auto simp: quiet_def)
  have alone: "quiet w ioc (write_variable_record (logged ops) w d (copy_variable_record ?i data))"
    using quiet_write_variable [of w "copy_variable_record ?i data" ops d]
      same_locks_trans [OF same_locks_trans [OF same_locks_init same_locks_copy]] by (auto simp: quiet_def)
  have kept: "same_locks ioc (copy_variable_record ioc1 data)" "same_locks ioc (copy_variable_record ?i data)"
    using same_locks_trans [OF full(2) same_locks_copy] same_locks_trans [OF same_locks_init same_locks_copy] by auto
  show ?thesis
    using alone full kept same_locks_init [of ioc]
    by (simp add: handle_variable_record_def out Let_def) (simp add: quiet_def)
qed

lemma quiet_write: "quiet w ioc (write_output_bpam (logged ops) w d ioc data)"
  by (simp add: write_output_bpam_def quiet_fixed quiet_variable)

lemma quiet_writes: "quiet w ioc (write_records (logged ops) w d ioc rs)"
proof (induction rs arbitrary: w d ioc)
  case Nil
  show ?case by (simp add: quiet_def same_locks_def)
next
  case (Cons r rs)
  obtain w' d' ioc' rc where one: "write_output_bpam (logged ops) w d ioc r = (w', d', ioc', rc)"
    by (cases "write_output_bpam (logged ops) w d ioc r") auto
  have "quiet w ioc (w', d', ioc', rc)" using quiet_write [of w ioc ops d r] one by simp
  with Cons.IH [of w' ioc' d'] one show ?case
    by (auto simp: quiet_def intro: same_locks_trans)
qed

lemma quiet_flush: "quiet w ioc (write_flush (logged ops) w d ioc)"
  by (simp add: quiet_def same_locks_def write_flush_def Let_def split_beta)

lemma quiet_statistics: "quiet w ioc (update_ispf_statistics (logged ops) w d ioc)"
  by (simp add: quiet_def same_locks_def update_ispf_statistics_def Let_def split_beta)

lemma quiet_stow: "snd (fst (stow_data_set (logged ops) w d ioc)) = snd w"
  by (simp add: stow_data_set_def Let_def split_beta)

lemma quiet_close: "quiet w ioc (close_data_set (logged ops) w d ioc)"
  by (simp add: quiet_def same_locks_def close_data_set_def Let_def split_beta)

lemma quiet_finalize: "quiet w ioc (finalize_dcb (logged ops) w d ioc)"
proof -
  obtain w1 d1 ioc1 rc1 where s: "update_ispf_statistics (logged ops) w d ioc = (w1, d1, ioc1, rc1)"
    by (cases "update_ispf_statistics (logged ops) w d ioc") auto
  have one: "snd w1 = snd w" "same_locks ioc ioc1"
    using quiet_statistics [of w ioc ops d] s by (auto simp: quiet_def)
  obtain w2 d2 rc2 where st: "(if rc1 = 0 then stow_data_set (logged ops) w1 d1 ioc1 else (w1, d1, 0)) = (w2, d2, rc2)"
    by (cases "(if rc1 = 0 then stow_data_set (logged ops) w1 d1 ioc1 else (w1, d1, 0))") auto
  have two: "snd w2 = snd w1"
    using st quiet_stow [of ops w1 d1 ioc1] by (auto split: if_splits)
  obtain w3 d3 ioc3 rc3 where cl: "close_data_set (logged ops) w2 d2 ioc1 = (w3, d3, ioc3, rc3)"
    by (cases "close_data_set (logged ops) w2 d2 ioc1") auto
  have three: "snd w3 = snd w2" "same_locks ioc1 ioc3"
    using quiet_close [of w2 ioc1 ops d2] cl by (auto simp: quiet_def)
  show ?thesis
    using one two three same_locks_trans [OF one(2) three(2)]
    by (simp add: finalize_dcb_def s st cl quiet_def)
qed

text \<open>Closing releases what the control block has, in the reverse order, on every path.\<close>

lemma close_releases: "snd (fst (close_output_bpam (logged ops) w d ioc)) = snd w @ released ioc"
proof -
  obtain w1 d1 ioc1 rc1 where f: "write_flush (logged ops) w d ioc = (w1, d1, ioc1, rc1)"
    by (cases "write_flush (logged ops) w d ioc") auto
  have one: "quiet w ioc (w1, d1, ioc1, rc1)" using quiet_flush [of w ioc ops d] f by simp
  define fin where "fin = (if dcb_open ioc1 then finalize_dcb (logged ops) w1 d1 ioc1 else (w1, d1, ioc1, 0))"
  have "quiet w1 ioc1 fin"
    using quiet_finalize [of w1 ioc1 ops d1] by (simp add: fin_def quiet_def same_locks_def)
  moreover obtain w2 d2 ioc2 rc2 where fin: "fin = (w2, d2, ioc2, rc2)" by (cases fin) auto
  ultimately have two: "snd w2 = snd w" "same_locks ioc ioc2"
    using one by (auto simp: quiet_def intro: same_locks_trans)
  have "close_output_bpam (logged ops) w d ioc =
      (let (w3, d3, rc3) = deq_reserve_data_set (logged ops) w2 d2 ioc2;
           (w4, d4, rc4) = deq_data_set (logged ops) w3 d3 ioc2
       in (w4, d4, first_error (first_error (first_error rc1 rc2) rc3) rc4))"
    using fin unfolding fin_def by (simp add: close_output_bpam_def f)
  then show ?thesis
    using two by (simp add: deq_reserve_data_set_def deq_data_set_def Let_def split_beta released_def same_locks_def enq_name_def)
qed

text \<open>The steps of opening: what each adds to the log is what the control block then has.\<close>

definition accounts :: "lock_event list \<Rightarrow> ('w \<times> lock_event list) \<Rightarrow> io_ctrl \<Rightarrow> bool" where
  "accounts l0 w ioc \<longleftrightarrow> snd w = l0 @ obtained ioc \<and> (has_reserve ioc \<longrightarrow> has_enq ioc)"

lemma accounts_same: "accounts l0 w ioc \<Longrightarrow> same_locks ioc ioc' \<Longrightarrow> snd w' = snd w \<Longrightarrow> accounts l0 w' ioc'"
  using same_locks_obtained [of ioc ioc'] by (simp add: accounts_def same_locks_def)

lemma enq_accounts:
  assumes "enq_data_set (logged ops) w d ioc = (w', d', ioc', rc)" and "accounts l0 w ioc" and "\<not> has_enq ioc"
  shows "accounts l0 w' ioc' \<and> has_reserve ioc' = has_reserve ioc \<and> has_enq ioc' = (rc = 0)"
  using assms by (auto simp: enq_data_set_def Let_def split_beta accounts_def obtained_def enq_name_def RTNCD_FAILURE_def split: if_splits)

lemma reserve_accounts:
  assumes "reserve_data_set (logged ops) w d ioc = (w', d', ioc', rc)" and "accounts l0 w ioc" and "has_enq ioc" and "\<not> has_reserve ioc"
  shows "accounts l0 w' ioc'"
  using assms by (auto simp: reserve_data_set_def Let_def split_beta accounts_def obtained_def enq_name_def split: if_splits)

lemma ucb_same: "get_ucb ops w d ioc = (d', ioc', rc) \<Longrightarrow> same_locks ioc ioc'"
  by (auto simp: get_ucb_def Let_def same_locks_def split: if_splits)

lemma open_same: "quiet w ioc (open_data_set (logged ops) w d ioc)"
  by (simp add: quiet_def same_locks_def open_data_set_def Let_def split_beta)

lemma opening_accounts:
  assumes "open_output_bpam (logged ops) w d ddname = (w', d', ioc, rc)"
  shows "accounts (snd w) w' ioc"
proof -
  obtain w1 rc0 j where jf: "op_rdjfcb (logged ops) w ddname = (w1, rc0, j)"
    by (cases "op_rdjfcb (logged ops) w ddname") auto
  let ?i = "(new_io_ctrl ddname)\<lparr> io_jfcb := j \<rparr>"
  have "snd w1 = snd w" using logged_quiet(1) [of ops w ddname] jf by simp
  then have start: "accounts (snd w) w1 ?i" by (simp add: accounts_def obtained_def new_io_ctrl_def)
  have none: "\<not> has_enq ?i" "\<not> has_reserve ?i" by (simp_all add: new_io_ctrl_def)
  obtain d1 rc1 where va: "validate_jfcb_attributes ?i d = (d1, rc1)" by (cases "validate_jfcb_attributes ?i d") auto
  obtain w2 d2 ioc2 rc2 where en: "enq_data_set (logged ops) w1 d1 ?i = (w2, d2, ioc2, rc2)"
    by (cases "enq_data_set (logged ops) w1 d1 ?i") auto
  have two: "accounts (snd w) w2 ioc2" "\<not> has_reserve ioc2" "has_enq ioc2 = (rc2 = 0)"
    using enq_accounts [OF en start none(1)] none(2) by auto
  obtain d3 ioc3 rc3 where uc: "get_ucb (logged ops) w2 d2 ioc2 = (d3, ioc3, rc3)"
    by (cases "get_ucb (logged ops) w2 d2 ioc2") auto
  have three: "accounts (snd w) w2 ioc3" "has_enq ioc3 = has_enq ioc2" "\<not> has_reserve ioc3"
    using accounts_same [OF two(1) ucb_same [OF uc], of w2] ucb_same [OF uc] two(2) by (simp_all add: same_locks_def)
  obtain w4 d4 ioc4 rc4 where re: "reserve_data_set (logged ops) w2 d3 ioc3 = (w4, d4, ioc4, rc4)"
    by (cases "reserve_data_set (logged ops) w2 d3 ioc3") auto
  have four: "accounts (snd w) w4 ioc4" if "rc2 = 0"
    using reserve_accounts [OF re three(1)] three two(3) that by simp
  let ?i4 = "ioc4\<lparr> dcbrecfm := jfcrecfm (io_jfcb ioc4) \<rparr>"
  obtain w5 d5 ioc5 rc5 where op: "open_data_set (logged ops) w4 d4 ?i4 = (w5, d5, ioc5, rc5)"
    by (cases "open_data_set (logged ops) w4 d4 ?i4") auto
  have five: "accounts (snd w) w5 ioc5" if "rc2 = 0"
    using accounts_same [OF four [OF that], of ioc5 w5] open_same [of w4 ?i4 ops d4] op by (simp add: quiet_def same_locks_def)
  then have six: "accounts (snd w) w5 (ioc5\<lparr> buffer_size := b, io_buffer := m, bytes_in_buffer := 0, lines_written := 0, free_location := 0 \<rparr>)"
    if "rc2 = 0" for b m
    using accounts_same that by (simp add: accounts_def obtained_def enq_name_def)
  obtain d6 rc6 where vd: "validate_dcb_attributes ioc5 d5 = (d6, rc6)" by (cases "validate_dcb_attributes ioc5 d5") auto
  show ?thesis
    using assms start two(1) three(1) four five six
    unfolding open_output_bpam_def jf va en uc re op vd Let_def prod.case
    by (auto split: if_splits)
qed

text \<open>One use of the writer by a caller: open, write records, close. Nothing is written after a failing
  open, and the result of a write is the caller's to look at.\<close>

definition bpam_session :: "'w zam_ops \<Rightarrow> 'w \<Rightarrow> zdiag \<Rightarrow> string \<Rightarrow> byte list list \<Rightarrow> 'w \<times> zdiag \<times> int" where
  "bpam_session ops w d ddname rs =
     (case ZDSOBPAM ops w d ddname of
        (w1, d1, None, rc) \<Rightarrow> (w1, d1, rc)
      | (w1, d1, Some ioc, rc) \<Rightarrow>
          (let (w2, d2, ioc2, rc2) = write_records ops w1 d1 ioc rs;
               (w3, d3, rc3) = ZDSCBPAM ops w2 d2 ioc2
           in (w3, d3, first_error rc2 rc3)))"

lemma session_log:
  assumes "bpam_session (logged ops) w d ddname rs = (w', d', rc)"
  shows "\<exists>ioc. snd w' = snd w @ obtained ioc @ released ioc \<and> (has_reserve ioc \<longrightarrow> has_enq ioc)"
proof -
  obtain w1 d1 ioc rc1 where o: "open_output_bpam (logged ops) w d ddname = (w1, d1, ioc, rc1)"
    by (cases "open_output_bpam (logged ops) w d ddname") auto
  have opened: "snd w1 = snd w @ obtained ioc" "has_reserve ioc \<longrightarrow> has_enq ioc"
    using opening_accounts [OF o] by (auto simp: accounts_def)
  have "snd w' = snd w @ obtained ioc @ released ioc"
  proof (cases "rc1 = 0")
    case False
    then have "w' = fst (close_output_bpam (logged ops) w1 zdiag_init ioc)"
      using assms by (simp add: bpam_session_def ZDSOBPAM_def o)
    then show ?thesis using close_releases [of ops w1 zdiag_init ioc] opened(1) by simp
  next
    case True
    obtain w2 d2 ioc2 rc2 where wr: "write_records (logged ops) w1 d1 ioc rs = (w2, d2, ioc2, rc2)"
      by (cases "write_records (logged ops) w1 d1 ioc rs") auto
    have "snd w2 = snd w1" "same_locks ioc ioc2" using quiet_writes [of w1 ioc ops d1 rs] wr by (auto simp: quiet_def)
    moreover have "w' = fst (close_output_bpam (logged ops) w2 d2 ioc2)"
      using assms True by (simp add: bpam_session_def ZDSOBPAM_def ZDSCBPAM_def o wr split_beta Let_def)
    ultimately show ?thesis
      using close_releases [of ops w2 d2 ioc2] same_locks_obtained [of ioc ioc2] opened(1) by simp
  qed
  with opened(2) show ?thesis by blast
qed

text \<open>C17. Whatever the system services answer, and wherever opening, writing or closing fails, a
  use of the record writer releases the serialization it obtained and only that, in the reverse order:
  it obtains nothing, or the member's name, or the member's name and then the reserve of the volume.\<close>

theorem serialization_released:
  "\<exists>n r. snd (fst (bpam_session (logged ops) (w, []) d ddname rs)) \<in>
     {[], [Enq n, Deq n], [Enq n, Reserve r, Deq_reserve r, Deq n]}"
proof -
  obtain w' d' rc where s: "bpam_session (logged ops) (w, []) d ddname rs = (w', d', rc)"
    by (cases "bpam_session (logged ops) (w, []) d ddname rs") auto
  obtain ioc where "snd w' = obtained ioc @ released ioc" "has_reserve ioc \<longrightarrow> has_enq ioc"
    using session_log [OF s] by auto
  then show ?thesis
    unfolding s fst_conv
    by (intro exI [of _ "enq_name ioc"] exI [of _ "jfcbdsnm (io_jfcb ioc)"])
      (cases "has_enq ioc"; cases "has_reserve ioc"; simp add: obtained_def released_def)
qed

text \<open>A data set that was open in another format is not written to, but closing after the rejected
  open still puts the member into the directory: the statistics of the empty member replace those of
  the one that was there.\<close>

definition member_stows :: "(string \<times> byte list) list zam_ops" where
  "member_stows = \<lparr> op_rdjfcb = \<lambda>w n. (w, 0, \<lparr> jfcbind1 = jfcpds, jfcbdsnm = ''USER.LOAD'', jfcbelnm = ''MEMBER  '', jfcrecfm = 0 \<rparr>),
     op_enq = \<lambda>w n. (w, 0), op_deq = \<lambda>w n. (w, 0), op_tiot_ucb = \<lambda>w n. 1,
     op_reserve = \<lambda>w n. (w, 0), op_deq_reserve = \<lambda>w n. (w, 0),
     op_open = \<lambda>w n recfm. (w, \<lparr> oo_rc = 0, oo_recfm = 0x50, oo_lrecl = 80, oo_blksi = 80, oo_open = True, oo_abend = False \<rparr>),
     op_write = \<lambda>w b. (w, \<lparr> wo_open = True, wo_abend = False \<rparr>),
     op_bldl = \<lambda>w n. (w, 4, 0, []), op_userid = \<lambda>w. (w, 0, replicate 8 0), op_time = \<lambda>w. (w, [1, 2, 3], [0, 1, 2, 3]),
     op_stow = \<lambda>w n c u. (w @ [(n, take 4 (drop 14 u))], 0, 0), op_close = \<lambda>w. (w, 0, False) \<rparr>"

lemma rejected_open_stows:
  "case bpam_session member_stows [] zdiag_init ''DD1'' [[1, 2, 3]] of (w, d, rc) \<Rightarrow>
     rc = RTNCD_FAILURE \<and> w = [(''MEMBER  '', [0, 0, 0, 0])]"
  by code_simp

end
