(* ===== verification/Zut_Encode.thy ===== *)
theory Zut_Encode
  imports Zut
begin

text \<open>
  Code page conversion (\<open>zut.cpp\<close>, \<open>ZEncode\<close> of \<open>ztype.h\<close>). The system's \<open>iconv\<close> is a parameter: a
  descriptor has a state \<open>'c\<close> (the shift state of the encoding), a conversion takes the bytes and the
  room in the output buffer and tells the return code, \<open>errno\<close>, the number of bytes not converted and
  the bytes written.
\<close>

datatype data_type = eDataTypeText | eDataTypeBinary

record zencode =
  codepage :: string
  source_codepage :: string
  data_type :: data_type

definition sizeof_codepage :: nat where "sizeof_codepage = 16"

text \<open>The options pointer may be null. The source code page is left alone.\<close>

definition zut_prepare_encoding :: "string \<Rightarrow> zencode option \<Rightarrow> bool \<times> zencode option" where
  "zut_prepare_encoding encoding_value opts =
     (case opts of
        None \<Rightarrow> (False, opts)
      | Some e \<Rightarrow>
          if encoding_value = [] then (False, opts)
          else if length encoding_value < sizeof_codepage
          then (True, Some (e\<lparr> codepage := encoding_value,
                  data_type := if encoding_value = ''binary'' then eDataTypeBinary else eDataTypeText \<rparr>))
          else (False, opts))"

record iconv_out =
  ic_rc :: int
  ic_errno :: int
  ic_left :: nat
  ic_bytes :: "byte list"

record 'c iconv_ops =
  iconv_open :: "string \<Rightarrow> string \<Rightarrow> 'c option"
  iconv :: "'c \<Rightarrow> byte list \<Rightarrow> nat \<Rightarrow> 'c \<times> iconv_out"
  iconv_flush :: "'c \<Rightarrow> nat \<Rightarrow> 'c \<times> iconv_out"

text \<open>A return code as \<open>%zu\<close> prints it.\<close>

definition show_size :: "int \<Rightarrow> string" where
  "show_size n = show_nat (nat (n mod 2 ^ 64))"

definition iconv_error :: "string \<Rightarrow> iconv_out \<Rightarrow> zdiag \<Rightarrow> zdiag" where
  "iconv_error what r d = set_msg (what @ ''. rc='' @ show_size (ic_rc r) @ '',errno='' @ show_int (ic_errno r)) d"

text \<open>\<open>zut_iconv\<close>: the descriptor, the bytes written, the diagnostics and the return code.\<close>

definition zut_iconv ::
    "'c iconv_ops \<Rightarrow> 'c \<Rightarrow> byte list \<Rightarrow> nat \<Rightarrow> zdiag \<Rightarrow> bool \<Rightarrow> 'c \<times> byte list \<times> zdiag \<times> int" where
  "zut_iconv ops cd input max_output_size d flush_state =
     (let (cd1, r) = iconv ops cd input max_output_size
      in if ic_rc r = - 1
         then (cd1, ic_bytes r, iconv_error ''[zut_iconv] Error when converting characters'' r d, - 1)
         else if ic_left r \<noteq> 0
         then (cd1, ic_bytes r, iconv_error ''[zut_iconv] Failed to convert all input bytes'' r d, - 1)
         else if flush_state
         then let (cd2, f) = iconv_flush ops cd1 (max_output_size - length (ic_bytes r))
              in if ic_rc f = - 1
                 then (cd2, ic_bytes r @ ic_bytes f, iconv_error ''[zut_iconv] Error flushing shift state'' f d, - 1)
                 else (cd2, ic_bytes r @ ic_bytes f, d, ic_rc r)
         else (cd1, ic_bytes r, d, ic_rc r))"

definition zut_iconv_flush :: "'c iconv_ops \<Rightarrow> 'c \<Rightarrow> zdiag \<Rightarrow> 'c \<times> byte list \<times> zdiag" where
  "zut_iconv_flush ops cd d =
     (let (cd', f) = iconv_flush ops cd 16
      in if ic_rc f = - 1
         then (cd', [], iconv_error ''[zut_iconv_flush] Error flushing shift state'' f d)
         else (cd', ic_bytes f, d))"

text \<open>
  The two overloads of \<open>zut_encode\<close> that open a descriptor (the one for strings and the one for
  buffers do the same), and the two that use an open one. A conversion error is an exception with the
  message of the diagnostic area; a converter that cannot be opened gives an empty result.
\<close>

definition zut_encode ::
    "'c iconv_ops \<Rightarrow> byte list \<Rightarrow> string \<Rightarrow> string \<Rightarrow> zdiag \<Rightarrow> zdiag \<times> byte list result" where
  "zut_encode ops input from_encoding to_encoding d =
     (if from_encoding = to_encoding then (d, Inr input)
      else case iconv_open ops to_encoding from_encoding of
        None \<Rightarrow> (set_msg (''Cannot open converter from '' @ from_encoding @ '' to '' @ to_encoding) d, Inr [])
      | Some cd \<Rightarrow>
          (let (_, out, d', rc) = zut_iconv ops cd input (length input * 4) d True
           in (d', if rc = - 1 then Inl (Runtime_error (e_msg d')) else Inr out)))"

definition zut_encode_cd ::
    "'c iconv_ops \<Rightarrow> 'c \<Rightarrow> byte list \<Rightarrow> zdiag \<Rightarrow> bool \<Rightarrow> 'c \<times> zdiag \<times> byte list result" where
  "zut_encode_cd ops cd input d flush_state =
     (let (cd', out, d', rc) = zut_iconv ops cd input (length input * 4 + 16) d flush_state
      in (cd', d', if rc = - 1 then Inl (Runtime_error (e_msg d')) else Inr out))"

end
