(* ===== verification/Zds_Write.thy ===== *)
theory Zds_Write
  imports Zam Zut_Encode Base64 Json_Output
begin

text \<open>
  Reading and writing data sets (\<open>zds.cpp\<close>): options and their resolution, the encoding of lines, the
  sequential writers over the C library, the member writers over the record writer of \<open>Zam\<close>, buffered
  and streamed, and the entry points with the e-tag check.

  The world \<open>'w\<close> holds the files and the system; its services are parameters: the record writer's
  services, dynamic allocation, the catalog (\<open>zds_list_data_sets\<close>, which is a client of the catalog
  search interface), the streams of the C library, and the input pipe, which gives the chunks that
  \<open>fread\<close> returns. A text is the list of its bytes.
\<close>

unbundle bit_operations_syntax

record zds =
  diag :: zdiag
  encoding_opts :: zencode
  z_ddname :: string
  etag :: string
  dynalloc :: bool

record ds_entry =
  en_recfm :: string
  en_lrecl :: int
  en_blksize :: int

datatype pipe_result =
    Pipe_no_open int
  | Pipe_no_stream
  | Pipe_chunks "byte list list"

record 'w zds_ops =
  zo_zam :: "'w zam_ops"
  zo_wdyn :: "'w wdyn"
  zo_data_sets :: "'w \<Rightarrow> string \<Rightarrow> 'w \<times> int \<times> ds_entry list"
  zo_fopen :: "'w \<Rightarrow> string \<Rightarrow> string \<Rightarrow> 'w \<times> bool"
  zo_fread :: "'w \<Rightarrow> nat \<Rightarrow> 'w \<times> byte list list"
  zo_fwrite :: "'w \<Rightarrow> byte list \<Rightarrow> 'w \<times> nat"
  zo_fflush :: "'w \<Rightarrow> 'w \<times> int"
  zo_fclose :: "'w \<Rightarrow> 'w"
  zo_pipe :: "string \<Rightarrow> pipe_result"
  zo_heartbeat :: "'w \<Rightarrow> 'w"

definition zds_message :: "string \<Rightarrow> zds \<Rightarrow> zds" where
  "zds_message m z = z\<lparr> diag := set_msg m (diag z) \<rparr>"

definition quoted_name :: "string \<Rightarrow> string" where
  "quoted_name s = SQUOTE # s @ [SQUOTE]"

section \<open>Options\<close>

definition zds_use_codepage :: "zds \<Rightarrow> bool" where
  "zds_use_codepage z \<longleftrightarrow> data_type (encoding_opts z) = eDataTypeText \<and> codepage (encoding_opts z) \<noteq> []"

record ds_opts =
  o_ddname :: string
  o_dsname :: string
  o_is_asa :: bool

definition base_name :: "string \<Rightarrow> string" where
  "base_name dsn = takeWhile (\<lambda>c. c \<noteq> CHR ''('') dsn"

definition zds_get_dscb_attributes :: "'w zds_ops \<Rightarrow> 'w \<Rightarrow> string \<Rightarrow> 'w \<times> dscb_attributes" where
  "zds_get_dscb_attributes ops w dsn =
     (let (w', rc, datasets) = zo_data_sets ops w (base_name dsn)
      in (w', case datasets of
                [] \<Rightarrow> dscb_attributes_init
              | e # _ \<Rightarrow> if rc \<noteq> RTNCD_SUCCESS then dscb_attributes_init
                  else \<lparr> at_recfm = en_recfm e, at_lrecl = en_lrecl e, at_blksize = en_blksize e,
                         at_is_asa = (CHR ''A'' \<in> set (en_recfm e)) \<rparr>))"

definition zds_resolve_dsname :: "ds_opts \<Rightarrow> string" where
  "zds_resolve_dsname opts =
     (if o_ddname opts \<noteq> [] then ''//DD:'' @ o_ddname opts else ''//'' @ quoted_name (o_dsname opts))"

definition zds_resolve_dscb :: "'w zds_ops \<Rightarrow> 'w \<Rightarrow> ds_opts \<Rightarrow> 'w \<times> dscb_attributes" where
  "zds_resolve_dscb ops w opts =
     (let (w', attrs) = (if o_dsname opts = [] then (w, dscb_attributes_init)
                         else zds_get_dscb_attributes ops w (o_dsname opts))
      in (w', if at_recfm attrs = [] then attrs\<lparr> at_is_asa := o_is_asa opts \<rparr> else attrs))"

definition zds_resolve_write_target :: "ds_opts \<Rightarrow> string" where
  "zds_resolve_write_target opts =
     (if o_ddname opts \<noteq> [] then ''DD:'' @ o_ddname opts else ''//'' @ quoted_name (o_dsname opts))"

text \<open>\<open>zds_validate_write_opts\<close> and \<open>zds_validate_read_opts\<close>; the pointer to \<open>ZDS\<close> may be null.\<close>

definition zds_validate_opts :: "string \<Rightarrow> string \<Rightarrow> zds option \<Rightarrow> ds_opts \<Rightarrow> (zds \<times> int) result" where
  "zds_validate_opts kind caller zp opts =
     (case zp of
        None \<Rightarrow> Inl (Invalid_argument (caller @ '': valid ZDS pointer is required in '' @ kind @ ''.zds''))
      | Some z \<Rightarrow>
          Inr (if o_dsname opts = [] \<and> o_ddname opts = []
               then (zds_message ''Either a dsname or ddname must be provided'' z, RTNCD_FAILURE)
               else (z, RTNCD_SUCCESS)))"

definition zds_dataset_exists :: "'w zds_ops \<Rightarrow> 'w \<Rightarrow> string \<Rightarrow> 'w \<times> bool" where
  "zds_dataset_exists ops w dsn =
     (let (w', opened) = zo_fopen ops w (''//'' @ quoted_name (base_name dsn)) ''r''
      in (if opened then zo_fclose ops w' else w', opened))"

section \<open>Reading\<close>

definition rtrim_bytes :: "byte list \<Rightarrow> byte list" where
  "rtrim_bytes bs = rev (dropWhile (\<lambda>b. b = ebcdic SPACE) (rev bs))"

text \<open>ASA records lose their trailing blanks and get a line end each; other data is appended as read.\<close>

fun append_records :: "byte list list \<Rightarrow> bool \<Rightarrow> byte list \<Rightarrow> byte list" where
  "append_records [] first_record response = (if first_record then response else response @ [ebcdic NL])"
| "append_records (r # rs) first_record response =
     append_records rs False (response @ (if first_record then [] else [ebcdic NL]) @ rtrim_bytes r)"

definition source_encoding_of :: "zds \<Rightarrow> string" where
  "source_encoding_of z =
     (if source_codepage (encoding_opts z) \<noteq> [] then source_codepage (encoding_opts z) else ''UTF-8'')"

definition read_flags :: "zds \<Rightarrow> bool \<Rightarrow> string" where
  "read_flags z is_asa =
     (if data_type (encoding_opts z) = eDataTypeBinary then ''rb''
      else if is_asa then ''rb,type=record'' else ''r'')"

definition zds_read ::
    "'w zds_ops \<Rightarrow> 'c iconv_ops \<Rightarrow> 'w \<Rightarrow> zds option \<Rightarrow> ds_opts \<Rightarrow> ('w \<times> zds \<times> byte list \<times> int) result" where
  "zds_read ops ic w zp opts =
     bind_result (zds_validate_opts ''ZDSReadOpts'' ''zds_read'' zp opts) (\<lambda>(z, vrc).
     if vrc \<noteq> RTNCD_SUCCESS then Inr (w, z, [], vrc)
     else let dsname = zds_resolve_dsname opts;
              (w1, attrs) = zds_resolve_dscb ops w opts;
              is_asa = (at_is_asa attrs \<and> data_type (encoding_opts z) \<noteq> eDataTypeBinary);
              (w2, opened) = zo_fopen ops w1 dsname (read_flags z is_asa)
          in if \<not> opened
             then Inr (w2, zds_message (''Could not open handle to '' @ (if o_ddname opts \<noteq> [] then ''DD'' else ''data set'')
                         @ '' '' @ quoted_name dsname) z, [], RTNCD_FAILURE)
             else let lrecl = (if 0 < at_lrecl attrs then nat (at_lrecl attrs) else 32760);
                      (w3, parts) = zo_fread ops w2 (if is_asa then lrecl else 4096);
                      response = (if is_asa then append_records parts True [] else concat parts);
                      w4 = zo_fclose ops w3
                  in if response \<noteq> [] \<and> zds_use_codepage z
                     then case zut_encode ic response (codepage (encoding_opts z)) (source_encoding_of z) (diag z) of
                            (d, Inl _) \<Rightarrow>
                              Inr (w4, zds_message (''Failed to convert input data from '' @ codepage (encoding_opts z)
                                     @ '' to '' @ source_encoding_of z) (z\<lparr> diag := d \<rparr>), response, RTNCD_FAILURE)
                          | (d, Inr temp) \<Rightarrow> Inr (w4, z\<lparr> diag := d \<rparr>, if temp \<noteq> [] then temp else response, 0)
                     else Inr (w4, z, response, 0))"

section \<open>Encoding of what is written\<close>

record encoding_setup =
  has_encoding :: bool
  es_codepage :: string
  source_encoding :: string
  newline_char :: byte

definition get_newline_char :: "'c iconv_ops \<Rightarrow> string \<Rightarrow> zdiag \<Rightarrow> zdiag \<times> byte" where
  "get_newline_char ic encoding d =
     (if encoding = [] then (d, ebcdic NL)
      else case zut_encode ic [ebcdic NL] ''IBM-1047'' encoding d of
        (d', Inr (b # _)) \<Rightarrow> (d', b)
      | (d', _) \<Rightarrow> (d', ebcdic NL))"

text \<open>\<open>setup_encoding\<close> always succeeds.\<close>

definition setup_encoding :: "'c iconv_ops \<Rightarrow> zds \<Rightarrow> zds \<times> encoding_setup" where
  "setup_encoding ic z =
     (let enc = zds_use_codepage z;
          (d, nl) = get_newline_char ic (if enc then source_encoding_of z else []) (diag z)
      in (z\<lparr> diag := d \<rparr>,
          \<lparr> has_encoding = enc, es_codepage = codepage (encoding_opts z),
             source_encoding = source_encoding_of z, newline_char = nl \<rparr>))"

definition open_iconv :: "'c iconv_ops \<Rightarrow> encoding_setup \<Rightarrow> 'c option" where
  "open_iconv ic setup =
     (if has_encoding setup then iconv_open ic (es_codepage setup) (source_encoding setup) else None)"

definition validate_iconv_setup :: "encoding_setup \<Rightarrow> 'c option \<Rightarrow> zds \<Rightarrow> zds \<times> int" where
  "validate_iconv_setup setup cd z =
     (if has_encoding setup \<and> cd = None
      then (zds_message (''Cannot open converter from '' @ source_encoding setup @ '' to '' @ es_codepage setup) z, RTNCD_FAILURE)
      else (z, RTNCD_SUCCESS))"

definition convert_error :: "encoding_setup \<Rightarrow> zdiag \<Rightarrow> zdiag" where
  "convert_error setup d =
     set_msg (''Failed to convert input data from '' @ source_encoding setup @ '' to '' @ es_codepage setup) d"

text \<open>\<open>encode_chunk_if_needed\<close> and \<open>encode_line_if_needed\<close> differ in flushing the shift state. The
  descriptor was validated before.\<close>

definition encode_if_needed ::
    "'c iconv_ops \<Rightarrow> encoding_setup \<Rightarrow> bool \<Rightarrow> 'c option \<Rightarrow> byte list \<Rightarrow> zdiag \<Rightarrow> 'c option \<times> zdiag \<times> byte list \<times> int" where
  "encode_if_needed ic setup flush cd line d =
     (if \<not> has_encoding setup then (cd, d, line, RTNCD_SUCCESS)
      else case cd of
        None \<Rightarrow> (cd, convert_error setup d, line, RTNCD_FAILURE)
      | Some c \<Rightarrow>
          (case zut_encode_cd ic c line d flush of
             (c', d', Inl _) \<Rightarrow> (Some c', convert_error setup d', line, RTNCD_FAILURE)
           | (c', d', Inr line') \<Rightarrow> (Some c', d', line', RTNCD_SUCCESS)))"

definition encode_chunk_if_needed ::
    "'c iconv_ops \<Rightarrow> encoding_setup \<Rightarrow> 'c option \<Rightarrow> byte list \<Rightarrow> zdiag \<Rightarrow> 'c option \<times> zdiag \<times> byte list \<times> int" where
  "encode_chunk_if_needed ic setup = encode_if_needed ic setup False"

definition encode_line_if_needed ::
    "'c iconv_ops \<Rightarrow> encoding_setup \<Rightarrow> 'c option \<Rightarrow> byte list \<Rightarrow> zdiag \<Rightarrow> 'c option \<times> zdiag \<times> byte list \<times> int" where
  "encode_line_if_needed ic setup = encode_if_needed ic setup True"

definition flush_encoding_state ::
    "'c iconv_ops \<Rightarrow> encoding_setup \<Rightarrow> 'c option \<Rightarrow> zdiag \<Rightarrow> zdiag \<times> byte list \<times> int" where
  "flush_encoding_state ic setup cd d =
     (case cd of
        Some c \<Rightarrow>
          if \<not> has_encoding setup then (d, [], RTNCD_SUCCESS)
          else let (_, flush_buffer, d') = zut_iconv_flush ic c d
               in (d', flush_buffer, if flush_buffer = [] \<and> 0 < e_msg_len d' then RTNCD_FAILURE else RTNCD_SUCCESS)
      | None \<Rightarrow> (d, [], RTNCD_SUCCESS))"

definition ZDS_RSNCD_TRUNCATION_WARNING :: int where "ZDS_RSNCD_TRUNCATION_WARNING = - 3"

definition handle_truncation_result :: "zds \<Rightarrow> int \<Rightarrow> truncation_tracker \<Rightarrow> zds \<times> int" where
  "handle_truncation_result z write_rc truncation =
     (if write_rc \<noteq> RTNCD_SUCCESS then (z, write_rc)
      else if 0 < tt_count truncation
      then (z\<lparr> diag := (set_msg (get_warning_message truncation) (diag z))\<lparr> detail_rc := ZDS_RSNCD_TRUNCATION_WARNING \<rparr> \<rparr>,
            RTNCD_WARNING)
      else (z, RTNCD_SUCCESS))"

section \<open>Sequential data sets\<close>

definition write_flags :: "zds \<Rightarrow> dscb_attributes \<Rightarrow> string" where
  "write_flags z attrs =
     (if data_type (encoding_opts z) = eDataTypeBinary then ''wb'' else zds_build_text_write_flags attrs)"

definition zds_write_sequential ::
    "'w zds_ops \<Rightarrow> 'c iconv_ops \<Rightarrow> 'w \<Rightarrow> zds \<Rightarrow> string \<Rightarrow> byte list \<Rightarrow> dscb_attributes \<Rightarrow> 'w \<times> zds \<times> int" where
  "zds_write_sequential ops ic w z0 dsname data attrs =
     (let (z, setup) = setup_encoding ic z0;
          isTextMode = (data_type (encoding_opts z) \<noteq> eDataTypeBinary);
          (w1, opened) = zo_fopen ops w dsname (write_flags z attrs)
      in if \<not> opened then (w1, zds_message (''Could not open dsn '' @ quoted_name dsname) z, RTNCD_FAILURE)
         else if data = [] then (case handle_truncation_result z RTNCD_SUCCESS truncation_init of (z', rc) \<Rightarrow> (zo_fclose ops w1, z', rc))
         else case (if has_encoding setup then zut_encode ic data (source_encoding setup) (es_codepage setup) (diag z)
                    else (diag z, Inr data)) of
                (d, Inl _) \<Rightarrow> (zo_fclose ops w1, z\<lparr> diag := convert_error setup d \<rparr>, RTNCD_FAILURE)
              | (d, Inr temp) \<Rightarrow>
                  (let z1 = z\<lparr> diag := d \<rparr>;
                       truncation = (if isTextMode \<and> 0 < at_lrecl attrs \<and> temp \<noteq> []
                                     then scan_for_truncated_lines temp (get_effective_lrecl_from_attrs attrs)
                                            (newline_char setup) truncation_init
                                     else truncation_init);
                       (w2, bytes_written) = zo_fwrite ops w1 temp;
                       w3 = zo_fclose ops w2
                   in if bytes_written \<noteq> length temp
                      then (w3, zds_message (''Failed to write all contents to '' @ quoted_name dsname
                              @ '' (possibly out of space)'') z1, RTNCD_FAILURE)
                      else (case handle_truncation_result z1 RTNCD_SUCCESS truncation of (z', rc) \<Rightarrow> (w3, z', rc))))"

text \<open>\<open>%44.44s\<close>.\<close>

definition pad_44 :: "string \<Rightarrow> string" where
  "pad_44 s = (let t = take 44 s in replicate (44 - length t) SPACE @ t)"

text \<open>Failures of the input pipe.\<close>

definition pipe_message :: "pipe_result \<Rightarrow> string \<Rightarrow> string" where
  "pipe_message p pipe =
     (case p of
        Pipe_no_open errno \<Rightarrow> ''open() failed on input pipe '' @ quoted_name pipe @ '', errno '' @ show_int errno
      | _ \<Rightarrow> ''Could not open input pipe '' @ quoted_name pipe)"

text \<open>
  The loop of the streamed writer over the chunks: the descriptor, the bytes the decoder left over, the
  line number, the tracker and the partial line go from one to the next. It ends early with an
  exception of the decoder, with a return code, or with a failed write.
\<close>

record 'c stream_state =
  ss_cd :: "'c option"
  ss_left_over :: "byte list"
  ss_content_len :: nat
  ss_line_num :: int
  ss_truncation :: truncation_tracker
  ss_line_buffer :: "byte list"
  ss_write_failed :: bool

fun stream_file_chunks ::
    "'w zds_ops \<Rightarrow> 'c iconv_ops \<Rightarrow> encoding_setup \<Rightarrow> bool \<Rightarrow> int \<Rightarrow> 'w \<Rightarrow> zdiag \<Rightarrow> byte list list \<Rightarrow> 'c stream_state
      \<Rightarrow> 'w \<times> zdiag \<times> 'c stream_state \<times> int result" where
  "stream_file_chunks ops ic setup check max_len w d [] st = (w, d, st, Inr RTNCD_SUCCESS)"
| "stream_file_chunks ops ic setup check max_len w d (c # cs) st =
     (let w1 = zo_heartbeat ops w
      in case decode_stream c (Some (ss_left_over st)) of
           (Inl e, _) \<Rightarrow> (w1, d, st, Inl e)
         | (Inr decoded, left_over) \<Rightarrow>
             (let st1 = st\<lparr> ss_left_over := the left_over, ss_content_len := ss_content_len st + length decoded \<rparr>;
                  (cd, d1, chunk, rc) = encode_chunk_if_needed ic setup (ss_cd st1) decoded d;
                  st2 = st1\<lparr> ss_cd := cd \<rparr>
              in if rc \<noteq> RTNCD_SUCCESS then (w1, d1, st2, Inr rc)
                 else let (rest, num, t) = (if check then scan_lines (newline_char setup) max_len (ss_line_buffer st2 @ chunk)
                                                          (ss_line_num st2) (ss_truncation st2)
                                            else (ss_line_buffer st2, ss_line_num st2, ss_truncation st2));
                          st3 = st2\<lparr> ss_line_buffer := rest, ss_line_num := num, ss_truncation := t \<rparr>;
                          (w2, bytes_written) = zo_fwrite ops w1 chunk
                      in if bytes_written \<noteq> length chunk
                         then (w2, d1, st3\<lparr> ss_write_failed := True \<rparr>, Inr RTNCD_SUCCESS)
                         else stream_file_chunks ops ic setup check max_len w2 d1 cs st3))"

definition zds_write_sequential_streamed ::
    "'w zds_ops \<Rightarrow> 'c iconv_ops \<Rightarrow> 'w \<Rightarrow> zds \<Rightarrow> string \<Rightarrow> string \<Rightarrow> nat \<Rightarrow> dscb_attributes
      \<Rightarrow> 'w \<times> zds \<times> nat \<times> int result" where
  "zds_write_sequential_streamed ops ic w z0 dsname pipe content_len attrs =
     (let (z, setup) = setup_encoding ic z0;
          max_len = get_effective_lrecl_from_attrs attrs;
          check = (data_type (encoding_opts z) \<noteq> eDataTypeBinary \<and> 0 < at_lrecl attrs);
          (w1, opened) = zo_fopen ops w dsname (write_flags z attrs)
      in if \<not> opened
         then (w1, zds_message (''Could not open dsn '' @ quoted_name dsname) z, content_len, Inr RTNCD_FAILURE)
         else case zo_pipe ops pipe of
           Pipe_chunks chunks \<Rightarrow>
             (let cd = open_iconv ic setup;
                  (z1, iconv_rc) = validate_iconv_setup setup cd z
              in if iconv_rc \<noteq> RTNCD_SUCCESS then (zo_fclose ops w1, z1, content_len, Inr iconv_rc)
                 else let (w2, d, st, res) = stream_file_chunks ops ic setup check max_len w1 (diag z1) chunks
                            \<lparr> ss_cd = cd, ss_left_over = [], ss_content_len = content_len, ss_line_num = 0,
                               ss_truncation = truncation_init, ss_line_buffer = [], ss_write_failed = False \<rparr>;
                          z2 = z1\<lparr> diag := d \<rparr>
                      in case res of
                           Inl e \<Rightarrow> (zo_fclose ops w2, z2, ss_content_len st, Inl e)
                         | Inr rc \<Rightarrow>
                             if rc \<noteq> RTNCD_SUCCESS then (zo_fclose ops w2, z2, ss_content_len st, Inr rc)
                             else let truncation = flush_range
                                        (if check then snd (scan_rest max_len (ss_line_buffer st, ss_line_num st, ss_truncation st))
                                         else ss_truncation st);
                                      (d', flush_buffer, frc) = flush_encoding_state ic setup (ss_cd st) (diag z2);
                                      z3 = z2\<lparr> diag := d' \<rparr>
                                  in if frc \<noteq> RTNCD_SUCCESS then (zo_fclose ops w2, z3, ss_content_len st, Inr frc)
                                     else let (w3, n) = (if flush_buffer \<noteq> [] then zo_fwrite ops w2 flush_buffer else (w2, 0));
                                              (w4, flush_rc) = zo_fflush ops w3;
                                              w5 = zo_fclose ops w4
                                          in if ss_write_failed st \<or> n \<noteq> length flush_buffer \<or> flush_rc \<noteq> 0
                                             then (w5, zds_message (''Failed to write to '' @ quoted_name (pad_44 dsname)
                                                     @ '' (possibly out of space)'') z3, ss_content_len st, Inr RTNCD_FAILURE)
                                             else (case handle_truncation_result z3 RTNCD_SUCCESS truncation of
                                                     (z', rc') \<Rightarrow> (w5, z', ss_content_len st, Inr rc')))
         | p \<Rightarrow> (zo_fclose ops w1, zds_message (pipe_message p pipe) z, content_len, Inr RTNCD_FAILURE))"

section \<open>Members: opening, records, closing\<close>

definition format_08X :: "32 word \<Rightarrow> string" where
  "format_08X n = map (\<lambda>i. zut_get_hex_char (drop_bit (4 * i) n)) [7, 6, 5, 4, 3, 2, 1, 0]"

text \<open>\<open>strncpy\<close> stops at a null character and fills with them.\<close>

definition zut_uppercase_pad_truncate :: "string \<Rightarrow> nat \<Rightarrow> string" where
  "zut_uppercase_pad_truncate source len =
     (let s = take len (map toupper source);
          t = takeWhile (\<lambda>c. c \<noteq> NUL) s
      in t @ replicate (length s - length t) NUL @ replicate (len - length s) SPACE)"

definition sizeof_ddname :: nat where "sizeof_ddname = 8"

definition alloc_cmd :: "string \<Rightarrow> string" where
  "alloc_cmd dsname = ''ALLOC DA('' @ quoted_name dsname @ '') SHR''"

definition zds_open_output_bpam ::
    "'w zds_ops \<Rightarrow> 'w \<Rightarrow> zds \<Rightarrow> string \<Rightarrow> 'w \<times> zds \<times> io_ctrl option \<times> int" where
  "zds_open_output_bpam ops w z dsname =
     (let (w1, r) = zut_bpxwdyn_rtdd (zo_wdyn ops) w (alloc_cmd dsname) 0 []
      in if wdyn_rc r \<noteq> 0
         then (w1, z\<lparr> diag := (set_msg (''Failed to allocate with code '' @ quoted_name (format_08X (wdyn_code r))
                       @ '' on data set '' @ quoted_name dsname @ '': '' @ wdyn_resp r)
                     (diag z\<lparr> service_name := ''BPXWDYN'' \<rparr>))
                  \<lparr> detail_rc := ZUT_RTNCD_SERVICE_FAILURE, service_rc := sint (wdyn_code r) \<rparr> \<rparr>, None, RTNCD_FAILURE)
         else let z1 = z\<lparr> dynalloc := True, z_ddname := zut_uppercase_pad_truncate (wdyn_ddname r) sizeof_ddname \<rparr>;
                  (w2, d2, ioc, rc) = ZDSOBPAM (zo_zam ops) w1 (diag z1) (z_ddname z1)
              in if rc \<noteq> 0
                 then let (w3, d3, _) = zut_loop_dynalloc (zo_wdyn ops) w2 d2 [''FREE DD('' @ wdyn_ddname r @ '')'']
                      in (w3, z1\<lparr> diag := restore_msg d2 d3 \<rparr>, ioc, rc)
                 else (w2, z1\<lparr> diag := d2 \<rparr>, ioc, RTNCD_SUCCESS))"

text \<open>A control character of 0 stands for none.\<close>

definition zds_write_output_bpam ::
    "'w zds_ops \<Rightarrow> 'w \<Rightarrow> zds \<Rightarrow> io_ctrl \<Rightarrow> byte list \<Rightarrow> byte \<Rightarrow> 'w \<times> zds \<times> io_ctrl \<times> int" where
  "zds_write_output_bpam ops w z ioc data asa =
     (let payload = (if asa \<noteq> 0 then asa # data else data);
          (w', d, ioc', rc) = ZDSWBPAM (zo_zam ops) w (diag z) ioc payload;
          z' = z\<lparr> diag := d \<rparr>
      in if rc \<noteq> 0 \<and> e_msg_len d = 0
         then (w', zds_message (''Failed to write output to BPAM: '' @ map unebcdic (take 20 data) @ ''... (''
                 @ show_nat (length payload) @ '' bytes)'') z', ioc', RTNCD_FAILURE)
         else (w', z', ioc', rc))"

text \<open>The return code of freeing the DD name is kept in a variable of its own, which hides the other.\<close>

definition zds_close_output_bpam :: "'w zds_ops \<Rightarrow> 'w \<Rightarrow> zds \<Rightarrow> io_ctrl option \<Rightarrow> 'w \<times> zds \<times> int" where
  "zds_close_output_bpam ops w z ioc =
     (let (w1, d1, rc) = (case ioc of
             None \<Rightarrow> (w, set_msg ''IO_CTRL is NULL'' (diag z\<lparr> detail_rc := RTNCD_WARNING \<rparr>), RTNCD_WARNING)
           | Some i \<Rightarrow> ZDSCBPAM (zo_zam ops) w (diag z) i)
      in if \<not> dynalloc z
         then (w1, z\<lparr> diag := if e_msg_len d1 = 0
                  then set_msg ''Data set was not dynamically allocated'' (d1\<lparr> detail_rc := RTNCD_WARNING \<rparr>) else d1 \<rparr>, rc)
         else let (w2, r) = zut_bpxwdyn (zo_wdyn ops) w1 (''FREE DD('' @ z_ddname z @ '')'') 0 []
              in (w2, z\<lparr> diag := if wdyn_rc r \<noteq> 0 \<and> e_msg_len d1 = 0
                       then set_msg (''Failed to free with code '' @ quoted_name (format_08X (wdyn_code r)) @ '' on DD ''
                              @ quoted_name (z_ddname z) @ '': '' @ wdyn_resp r)
                            (d1\<lparr> detail_rc := ZUT_RTNCD_SERVICE_FAILURE, service_rc := sint (wdyn_code r) \<rparr>)
                       else d1 \<rparr>, rc))"

text \<open>Giving up with a return code: the member is closed; in some places a guard keeps the message.\<close>

definition close_failed :: "'w zds_ops \<Rightarrow> 'w \<Rightarrow> zds \<Rightarrow> io_ctrl \<Rightarrow> int \<Rightarrow> 'w \<times> zds \<times> int" where
  "close_failed ops w z ioc rc = (let (w', z', _) = zds_close_output_bpam ops w z (Some ioc) in (w', z', rc))"

definition close_guarded :: "'w zds_ops \<Rightarrow> 'w \<Rightarrow> zds \<Rightarrow> io_ctrl \<Rightarrow> int \<Rightarrow> 'w \<times> zds \<times> int" where
  "close_guarded ops w z ioc rc =
     (let (w', z', _) = zds_close_output_bpam ops w z (Some ioc) in (w', z'\<lparr> diag := restore_msg (diag z) (diag z') \<rparr>, rc))"

text \<open>The end both member writers share.\<close>

definition finish_member ::
    "'w zds_ops \<Rightarrow> 'w \<Rightarrow> zds \<Rightarrow> io_ctrl \<Rightarrow> truncation_tracker \<Rightarrow> 'w \<times> zds \<times> int" where
  "finish_member ops w z ioc truncation =
     (let (w', z', rc) = zds_close_output_bpam ops w z (Some ioc);
          (z'', rc') = handle_truncation_result z' rc (flush_range truncation)
      in (w', z'', rc'))"

section \<open>Members: lines\<close>

text \<open>What the loops over the lines carry from one to the next.\<close>

record 'c line_state =
  ls_cd :: "'c option"
  ls_asa :: asa_state
  ls_num :: int
  ls_truncation :: truncation_tracker

definition line_state_init :: "'c option \<Rightarrow> 'c line_state" where
  "line_state_init cd = \<lparr> ls_cd = cd, ls_asa = asa_init, ls_num = 0, ls_truncation = truncation_init \<rparr>"

definition asa_prepare :: "bool \<Rightarrow> byte list \<Rightarrow> 'c line_state \<Rightarrow> prepare_result \<times> byte list \<times> 'c line_state" where
  "asa_prepare is_asa line st =
     (if is_asa then (let (r, line', asa) = prepare_line line (ls_asa st) in (r, line', st\<lparr> ls_asa := asa \<rparr>))
      else (\<lparr> skip_line = False, overflow_records = 0, asa_char = 0 \<rparr>, line, st))"

text \<open>Numbering, encoding and checking a line; \<open>extra\<close> tells that a control character is counted.\<close>

definition encode_numbered ::
    "'c iconv_ops \<Rightarrow> encoding_setup \<Rightarrow> int \<Rightarrow> bool \<Rightarrow> zdiag \<Rightarrow> byte list \<Rightarrow> 'c line_state
      \<Rightarrow> zdiag \<times> byte list \<times> 'c line_state \<times> int" where
  "encode_numbered ic setup max_len extra d line st =
     (let num = ls_num st + 1;
          (cd, d', line', rc) = encode_line_if_needed ic setup (ls_cd st) line d;
          st1 = st\<lparr> ls_num := num, ls_cd := cd \<rparr>
      in if rc \<noteq> RTNCD_SUCCESS then (d', line', st1, rc)
         else (d', line',
               if max_len < int_of_size (length line' + (if extra then 1 else 0))
               then st1\<lparr> ls_truncation := add_line num (ls_truncation st1) \<rparr> else st1,
               RTNCD_SUCCESS))"

record processed_line =
  pl_line :: "byte list"
  pl_asa_char :: byte
  pl_skip_line :: bool
  pl_overflow_records :: nat

definition processed_line_init :: processed_line where
  "processed_line_init = \<lparr> pl_line = [], pl_asa_char = 0, pl_skip_line = False, pl_overflow_records = 0 \<rparr>"

definition process_bpam_trailing_line ::
    "'c iconv_ops \<Rightarrow> encoding_setup \<Rightarrow> bool \<Rightarrow> int \<Rightarrow> zdiag \<Rightarrow> byte list \<Rightarrow> 'c line_state
      \<Rightarrow> zdiag \<times> processed_line \<times> 'c line_state \<times> int" where
  "process_bpam_trailing_line ic setup is_asa max_len d line_content st =
     (let line = strip_cr line_content; skipped = processed_line_init\<lparr> pl_skip_line := True \<rparr>
      in if line = [] then (d, skipped, st, RTNCD_SUCCESS)
         else let (r, line1, st1) = asa_prepare is_asa line st
              in if skip_line r then (d, skipped, st1, RTNCD_SUCCESS)
                 else let result = processed_line_init\<lparr> pl_overflow_records := overflow_records r, pl_asa_char := asa_char r \<rparr>;
                          (d', line2, st2, rc) = encode_numbered ic setup max_len (is_asa \<and> asa_char r \<noteq> 0) d line1 st1
                      in if rc \<noteq> RTNCD_SUCCESS then (d', result, st2, rc)
                         else (d', result\<lparr> pl_line := line2 \<rparr>, st2, RTNCD_SUCCESS))"

definition overflow_lines :: "nat \<Rightarrow> (byte list \<times> byte) list" where
  "overflow_lines n = replicate n ([], ebcdic (CHR ''-''))"

section \<open>Members: the buffered writer\<close>

text \<open>The loop over the lines; the data is the text from \<open>pos\<close> on.\<close>

function collect_lines ::
    "'c iconv_ops \<Rightarrow> encoding_setup \<Rightarrow> bool \<Rightarrow> int \<Rightarrow> zdiag \<Rightarrow> byte list \<Rightarrow> 'c line_state \<Rightarrow> (byte list \<times> byte) list
      \<Rightarrow> zdiag \<times> byte list \<times> 'c line_state \<times> (byte list \<times> byte) list \<times> int" where
  "collect_lines ic setup is_asa max_len d data st out =
     (case find_index (\<lambda>b. b = newline_char setup) data of
        None \<Rightarrow> (d, data, st, out, RTNCD_SUCCESS)
      | Some k \<Rightarrow>
          (let rest = drop (Suc k) data; (r, line, st1) = asa_prepare is_asa (strip_cr (take k data)) st
           in if skip_line r then collect_lines ic setup is_asa max_len d rest st1 out
              else let (d', line', st2, rc) = encode_numbered ic setup max_len is_asa d line st1
                   in if rc \<noteq> RTNCD_SUCCESS then (d', rest, st2, out, rc)
                      else collect_lines ic setup is_asa max_len d' rest st2
                             (out @ overflow_lines (overflow_records r) @ [(line', asa_char r)])))"
  by pat_completeness auto
termination
  by (relation "measure (\<lambda>(_, _, _, _, _, data, _, _). length data)") (auto simp: find_index_Some)

declare collect_lines.simps [simp del]

definition collect_all ::
    "'c iconv_ops \<Rightarrow> encoding_setup \<Rightarrow> bool \<Rightarrow> int \<Rightarrow> zdiag \<Rightarrow> byte list \<Rightarrow> 'c line_state
      \<Rightarrow> zdiag \<times> 'c line_state \<times> (byte list \<times> byte) list \<times> int" where
  "collect_all ic setup is_asa max_len d data st =
     (let (d1, rest, st1, out, rc) = collect_lines ic setup is_asa max_len d data st []
      in if rc \<noteq> RTNCD_SUCCESS then (d1, st1, out, rc)
         else if rest = [] then (d1, st1, out, RTNCD_SUCCESS)
         else let (d2, p, st2, rc2) = process_bpam_trailing_line ic setup is_asa max_len d1 rest st1
              in if rc2 \<noteq> RTNCD_SUCCESS then (d2, st2, out, rc2)
                 else if pl_skip_line p then (d2, st2, out, RTNCD_SUCCESS)
                 else (d2, st2, out @ overflow_lines (pl_overflow_records p) @ [(pl_line p, pl_asa_char p)], RTNCD_SUCCESS))"

fun write_lines ::
    "'w zds_ops \<Rightarrow> 'w \<Rightarrow> zds \<Rightarrow> io_ctrl \<Rightarrow> (byte list \<times> byte) list \<Rightarrow> 'w \<times> zds \<times> io_ctrl \<times> int" where
  "write_lines ops w z ioc [] = (w, z, ioc, RTNCD_SUCCESS)"
| "write_lines ops w z ioc ((line, asa) # rest) =
     (let (w', z', ioc', rc) = zds_write_output_bpam ops w z ioc line asa
      in if rc \<noteq> RTNCD_SUCCESS then (w', z', ioc', rc) else write_lines ops w' z' ioc' rest)"

definition is_asa_member :: "io_ctrl \<Rightarrow> bool" where
  "is_asa_member ioc \<longleftrightarrow> dcbrecfm ioc AND dcbrecca \<noteq> 0"

definition zds_write_member_bpam ::
    "'w zds_ops \<Rightarrow> 'c iconv_ops \<Rightarrow> 'w \<Rightarrow> zds \<Rightarrow> string \<Rightarrow> byte list \<Rightarrow> 'w \<times> zds \<times> int" where
  "zds_write_member_bpam ops ic w z0 dsn data =
     (let (w1, z1, iocp, rc1) = zds_open_output_bpam ops w z0 dsn
      in case iocp of
           None \<Rightarrow> (w1, z1, rc1)
         | Some ioc \<Rightarrow>
             (let (z2, setup) = setup_encoding ic z1;
                  cd = open_iconv ic setup;
                  (z3, rc3) = validate_iconv_setup setup cd z2
              in if rc3 \<noteq> RTNCD_SUCCESS then close_failed ops w1 z3 ioc rc3
                 else let (d4, st, rows, rc4) = collect_all ic setup (is_asa_member ioc)
                            (get_effective_lrecl (dcbrecfm ioc) (dcblrecl ioc)) (diag z3) data (line_state_init cd);
                          z4 = z3\<lparr> diag := d4 \<rparr>
                      in if rc4 \<noteq> RTNCD_SUCCESS then close_failed ops w1 z4 ioc rc4
                         else let (w5, z5, ioc5, rc5) = write_lines ops w1 z4 ioc rows
                              in if rc5 \<noteq> RTNCD_SUCCESS then close_guarded ops w5 z5 ioc5 rc5
                                 else finish_member ops w5 z5 ioc5 (ls_truncation st)))"

section \<open>Members: the streamed writer\<close>

text \<open>\<open>write_asa_overflow_records\<close> passes the control character as the data of the record.\<close>

fun write_asa_overflow_records ::
    "'w zds_ops \<Rightarrow> 'w \<Rightarrow> zds \<Rightarrow> io_ctrl \<Rightarrow> nat \<Rightarrow> 'w \<times> zds \<times> io_ctrl \<times> int" where
  "write_asa_overflow_records ops w z ioc 0 = (w, z, ioc, RTNCD_SUCCESS)"
| "write_asa_overflow_records ops w z ioc (Suc n) =
     (let (w', z', ioc', rc) = zds_write_output_bpam ops w z ioc [ebcdic (CHR ''-'')] 0
      in if rc \<noteq> RTNCD_SUCCESS then (w', z', ioc', rc) else write_asa_overflow_records ops w' z' ioc' n)"

definition write_prev_line ::
    "'w zds_ops \<Rightarrow> 'w \<Rightarrow> zds \<Rightarrow> io_ctrl \<Rightarrow> (byte list \<times> byte) option \<Rightarrow> 'w \<times> zds \<times> io_ctrl \<times> int" where
  "write_prev_line ops w z ioc prev =
     (case prev of None \<Rightarrow> (w, z, ioc, RTNCD_SUCCESS) | Some (line, asa) \<Rightarrow> zds_write_output_bpam ops w z ioc line asa)"

text \<open>A line of the stream: \<open>Inl\<close> is a return of the function, with the member closed.\<close>

function stream_lines ::
    "'w zds_ops \<Rightarrow> 'c iconv_ops \<Rightarrow> encoding_setup \<Rightarrow> bool \<Rightarrow> int \<Rightarrow> 'w \<Rightarrow> zds \<Rightarrow> io_ctrl \<Rightarrow> 'c line_state
      \<Rightarrow> (byte list \<times> byte) option \<Rightarrow> byte list
      \<Rightarrow> ('w \<times> zds \<times> int) + ('w \<times> zds \<times> io_ctrl \<times> 'c line_state \<times> (byte list \<times> byte) option \<times> byte list)" where
  "stream_lines ops ic setup is_asa max_len w z ioc st prev data =
     (case find_index (\<lambda>b. b = newline_char setup) data of
        None \<Rightarrow> Inr (w, z, ioc, st, prev, data)
      | Some k \<Rightarrow>
          (let rest = drop (Suc k) data; (r, line, st1) = asa_prepare is_asa (strip_cr (take k data)) st
           in if skip_line r then stream_lines ops ic setup is_asa max_len w z ioc st1 prev rest
              else let (w1, z1, ioc1, rc1) = write_asa_overflow_records ops w z ioc (overflow_records r)
              in if rc1 \<noteq> RTNCD_SUCCESS then Inl (close_failed ops w1 z1 ioc1 rc1)
              else let (d2, line', st2, rc2) = encode_numbered ic setup max_len is_asa (diag z1) line st1;
                       z2 = z1\<lparr> diag := d2 \<rparr>
              in if rc2 \<noteq> RTNCD_SUCCESS then Inl (close_failed ops w1 z2 ioc1 rc2)
              else let (w3, z3, ioc3, rc3) = write_prev_line ops w1 z2 ioc1 prev
              in if rc3 \<noteq> RTNCD_SUCCESS then Inl (close_guarded ops w3 z3 ioc3 rc3)
              else stream_lines ops ic setup is_asa max_len w3 z3 ioc3 st2 (Some (line', asa_char r)) rest))"
  by pat_completeness auto
termination
  by (relation "measure (\<lambda>(_, _, _, _, _, _, _, _, _, _, data). length data)") (auto simp: find_index_Some)

declare stream_lines.simps [simp del]

text \<open>The loop over the chunks. An exception of the decoder leaves the function with the member open.\<close>

fun stream_member_chunks ::
    "'w zds_ops \<Rightarrow> 'c iconv_ops \<Rightarrow> encoding_setup \<Rightarrow> bool \<Rightarrow> int \<Rightarrow> 'w \<Rightarrow> zds \<Rightarrow> io_ctrl \<Rightarrow> 'c line_state
      \<Rightarrow> (byte list \<times> byte) option \<Rightarrow> byte list \<Rightarrow> byte list \<Rightarrow> nat \<Rightarrow> byte list list
      \<Rightarrow> ('w \<times> zds \<times> nat \<times> int result)
        + ('w \<times> zds \<times> io_ctrl \<times> 'c line_state \<times> (byte list \<times> byte) option \<times> byte list \<times> nat)" where
  "stream_member_chunks ops ic setup is_asa max_len w z ioc st prev line_buffer left_over content_len [] =
     Inr (w, z, ioc, st, prev, line_buffer, content_len)"
| "stream_member_chunks ops ic setup is_asa max_len w z ioc st prev line_buffer left_over content_len (c # cs) =
     (let w1 = zo_heartbeat ops w
      in case decode_stream c (Some left_over) of
           (Inl e, _) \<Rightarrow> Inl (w1, z, content_len, Inl e)
         | (Inr decoded, left_over') \<Rightarrow>
             (case stream_lines ops ic setup is_asa max_len w1 z ioc st prev (line_buffer @ decoded) of
                Inl (w2, z2, rc) \<Rightarrow> Inl (w2, z2, content_len + length decoded, Inr rc)
              | Inr (w2, z2, ioc2, st2, prev2, rest) \<Rightarrow>
                  stream_member_chunks ops ic setup is_asa max_len w2 z2 ioc2 st2 prev2 rest (the left_over')
                    (content_len + length decoded) cs))"

text \<open>What follows the loop: the line without a line end, the line that was held back, and the end.\<close>

definition stream_trailing ::
    "'w zds_ops \<Rightarrow> 'c iconv_ops \<Rightarrow> encoding_setup \<Rightarrow> bool \<Rightarrow> int \<Rightarrow> 'w \<Rightarrow> zds \<Rightarrow> io_ctrl \<Rightarrow> 'c line_state
      \<Rightarrow> (byte list \<times> byte) option \<Rightarrow> byte list
      \<Rightarrow> ('w \<times> zds \<times> int) + ('w \<times> zds \<times> io_ctrl \<times> 'c line_state \<times> (byte list \<times> byte) option)" where
  "stream_trailing ops ic setup is_asa max_len w z ioc st prev line_buffer =
     (if line_buffer = [] then Inr (w, z, ioc, st, prev)
      else let (d1, p, st1, rc1) = process_bpam_trailing_line ic setup is_asa max_len (diag z) line_buffer st;
               z1 = z\<lparr> diag := d1 \<rparr>
           in if rc1 \<noteq> RTNCD_SUCCESS then Inl (close_failed ops w z1 ioc rc1)
              else if pl_skip_line p then Inr (w, z1, ioc, st1, prev)
              else let (w2, z2, ioc2, rc2) = write_asa_overflow_records ops w z1 ioc (pl_overflow_records p)
                   in if rc2 \<noteq> RTNCD_SUCCESS then Inl (close_failed ops w2 z2 ioc2 rc2)
                      else let (w3, z3, ioc3, rc3) = write_prev_line ops w2 z2 ioc2 prev
                           in if rc3 \<noteq> RTNCD_SUCCESS then Inl (close_guarded ops w3 z3 ioc3 rc3)
                              else Inr (w3, z3, ioc3, st1, Some (pl_line p, pl_asa_char p)))"

definition stream_end :: "'w zds_ops \<Rightarrow> 'w \<Rightarrow> zds \<Rightarrow> io_ctrl \<Rightarrow> 'c line_state \<Rightarrow> (byte list \<times> byte) option \<Rightarrow> 'w \<times> zds \<times> int" where
  "stream_end ops w z ioc st prev =
     (let (w1, z1, ioc1, rc1) = write_prev_line ops w z ioc prev
      in if rc1 \<noteq> RTNCD_SUCCESS then close_guarded ops w1 z1 ioc1 rc1
         else finish_member ops w1 z1 ioc1 (ls_truncation st))"

definition zds_write_member_bpam_streamed ::
    "'w zds_ops \<Rightarrow> 'c iconv_ops \<Rightarrow> 'w \<Rightarrow> zds \<Rightarrow> string \<Rightarrow> string \<Rightarrow> nat \<Rightarrow> 'w \<times> zds \<times> nat \<times> int result" where
  "zds_write_member_bpam_streamed ops ic w z0 dsn pipe content_len =
     (let (w1, z1, iocp, rc1) = zds_open_output_bpam ops w z0 dsn
      in case iocp of
           None \<Rightarrow> (w1, z1, content_len, Inr rc1)
         | Some ioc \<Rightarrow>
             (case zo_pipe ops pipe of
                Pipe_chunks chunks \<Rightarrow>
                  (let (z2, setup) = setup_encoding ic z1;
                       cd = open_iconv ic setup;
                       (z3, rc3) = validate_iconv_setup setup cd z2;
                       is_asa = is_asa_member ioc;
                       max_len = get_effective_lrecl (dcbrecfm ioc) (dcblrecl ioc)
                   in if rc3 \<noteq> RTNCD_SUCCESS then (case close_failed ops w1 z3 ioc rc3 of (w', z', rc) \<Rightarrow> (w', z', content_len, Inr rc))
                      else case stream_member_chunks ops ic setup is_asa max_len w1 z3 ioc (line_state_init cd) None [] []
                                  content_len chunks of
                             Inl result \<Rightarrow> result
                           | Inr (w4, z4, ioc4, st4, prev4, rest, n) \<Rightarrow>
                               (case stream_trailing ops ic setup is_asa max_len w4 z4 ioc4 st4 prev4 rest of
                                  Inl (w', z', rc) \<Rightarrow> (w', z', n, Inr rc)
                                | Inr (w5, z5, ioc5, st5, prev5) \<Rightarrow>
                                    (case stream_end ops w5 z5 ioc5 st5 prev5 of (w', z', rc) \<Rightarrow> (w', z', n, Inr rc))))
              | p \<Rightarrow> (case close_failed ops w1 (zds_message (pipe_message p pipe) z1) ioc RTNCD_FAILURE of
                        (w', z', rc) \<Rightarrow> (w', z', content_len, Inr rc))))"

section \<open>Entry points\<close>

text \<open>The \<open>ZDS\<close> the contents are read with for the comparison.\<close>

definition etag_zds :: "zds \<Rightarrow> bool \<Rightarrow> zds" where
  "etag_zds z has_enc =
     \<lparr> diag = zdiag_init,
        encoding_opts = (if has_enc then encoding_opts z
                         else \<lparr> codepage = [], source_codepage = [], data_type = eDataTypeText \<rparr>),
        z_ddname = replicate 8 NUL, etag = [], dynalloc = False \<rparr>"

definition dsn_opts :: "string \<Rightarrow> ds_opts" where
  "dsn_opts dsn = \<lparr> o_ddname = [], o_dsname = dsn, o_is_asa = False \<rparr>"

definition zds_validate_etag ::
    "'w zds_ops \<Rightarrow> 'c iconv_ops \<Rightarrow> 'w \<Rightarrow> zds \<Rightarrow> string \<Rightarrow> bool \<Rightarrow> ('w \<times> zds \<times> int) result" where
  "zds_validate_etag ops ic w z dsn has_enc =
     (bind_result (zds_read ops ic w (Some (etag_zds z has_enc)) (dsn_opts dsn))
           (\<lambda>(w', rz, current_contents, read_rc).
              if read_rc \<noteq> 0
              then Inr (w', zds_message (''Failed to read contents of data set for e-tag comparison: ''
                              @ take 127 (e_msg (diag rz))) z, RTNCD_FAILURE)
              else let given_etag = strtoul16 (etag z);
                       new_etag = zut_calc_adler32_checksum current_contents
                   in if given_etag \<noteq> ucast new_etag
                      then Inr (w', zds_message (''Etag mismatch: expected '' @ show_hex (unat given_etag) @ '', actual ''
                                      @ show_hex (unat new_etag)) z, RTNCD_FAILURE)
                      else Inr (w', z, RTNCD_SUCCESS)))"

definition validate_dataset_exists :: "'w zds_ops \<Rightarrow> 'w \<Rightarrow> zds \<Rightarrow> string \<Rightarrow> 'w \<times> zds \<times> int" where
  "validate_dataset_exists ops w z dsn =
     (let (w', exists) = zds_dataset_exists ops w dsn
      in if \<not> exists then (w', zds_message (''Could not access '' @ quoted_name dsn) z, RTNCD_FAILURE)
         else (w', z, RTNCD_SUCCESS))"

definition ZDS_RTNCD_UNSUPPORTED_RECFM :: int where "ZDS_RTNCD_UNSUPPORTED_RECFM = - 13"

definition validate_write_recfm :: "zds \<Rightarrow> dscb_attributes \<Rightarrow> bool \<Rightarrow> zds \<times> int" where
  "validate_write_recfm z attrs is_member =
     (if zds_write_recfm_unsupported (at_recfm attrs) (\<not> is_member)
      then (z\<lparr> diag := (set_msg (''Writing to RECFM='' @ at_recfm attrs @ '' data sets is not supported'') (diag z))
                 \<lparr> detail_rc := ZDS_RTNCD_UNSUPPORTED_RECFM \<rparr> \<rparr>, RTNCD_FAILURE)
      else (z, RTNCD_SUCCESS))"

definition validate_etag_if_present ::
    "'w zds_ops \<Rightarrow> 'c iconv_ops \<Rightarrow> 'w \<Rightarrow> zds \<Rightarrow> string \<Rightarrow> bool \<Rightarrow> ('w \<times> zds \<times> int) result" where
  "validate_etag_if_present ops ic w z dsn has_enc =
     (if etag z = [] then Inr (w, z, RTNCD_SUCCESS)
      else bind_result (zds_validate_etag ops ic w z dsn has_enc)
             (\<lambda>(w', z', rc). Inr (w', z', if rc \<noteq> 0 then RTNCD_FAILURE else RTNCD_SUCCESS)))"

text \<open>The checks before a data set is written, which both entry points make in the same order.\<close>

definition write_checks ::
    "'w zds_ops \<Rightarrow> 'c iconv_ops \<Rightarrow> 'w \<Rightarrow> zds \<Rightarrow> string \<Rightarrow> ('w \<times> zds \<times> dscb_attributes \<times> int) result" where
  "write_checks ops ic w z dsn =
     (let (w1, z1, rc1) = validate_dataset_exists ops w z dsn
      in if rc1 \<noteq> RTNCD_SUCCESS then Inr (w1, z1, dscb_attributes_init, rc1)
         else let (w2, attrs) = zds_get_dscb_attributes ops w1 dsn;
                  (z2, rc2) = validate_write_recfm z1 attrs (zds_has_member dsn)
              in if rc2 \<noteq> RTNCD_SUCCESS then Inr (w2, z2, attrs, rc2)
                 else bind_result (validate_etag_if_present ops ic w2 z2 dsn (zds_use_codepage z2))
                        (\<lambda>(w3, z3, rc3). Inr (w3, z3, attrs, rc3)))"

text \<open>The new e-tag, from the contents as they are read back.\<close>

definition refresh_etag ::
    "'w zds_ops \<Rightarrow> 'c iconv_ops \<Rightarrow> 'w \<Rightarrow> zds \<Rightarrow> string \<Rightarrow> int \<Rightarrow> ('w \<times> zds \<times> int) result" where
  "refresh_etag ops ic w z dsn rc =
     (if rc = RTNCD_FAILURE then Inr (w, z, rc)
      else bind_result (zds_read ops ic w (Some z) (dsn_opts dsn))
             (\<lambda>(w', z', saved_contents, read_rc).
                if read_rc \<noteq> 0 then Inr (w', z', RTNCD_FAILURE)
                else Inr (w', z'\<lparr> etag := show_hex (unat (zut_calc_adler32_checksum saved_contents)) \<rparr>, rc)))"

definition clear_ddname :: "zds \<Rightarrow> zds" where
  "clear_ddname z = z\<lparr> z_ddname := replicate sizeof_ddname NUL \<rparr>"

definition zds_write ::
    "'w zds_ops \<Rightarrow> 'c iconv_ops \<Rightarrow> 'w \<Rightarrow> zds option \<Rightarrow> ds_opts \<Rightarrow> byte list \<Rightarrow> ('w \<times> zds \<times> int) result" where
  "zds_write ops ic w zp opts data =
     bind_result (zds_validate_opts ''ZDSWriteOpts'' ''zds_write'' zp opts) (\<lambda>(z, vrc).
     if vrc \<noteq> RTNCD_SUCCESS then Inr (w, z, vrc)
     else if o_ddname opts \<noteq> []
     then Inr (zds_write_sequential ops ic w z (zds_resolve_write_target opts) data dscb_attributes_init)
     else bind_result (write_checks ops ic w z (o_dsname opts)) (\<lambda>(w1, z1, attrs, rc1).
       if rc1 \<noteq> RTNCD_SUCCESS then Inr (w1, z1, rc1)
       else let (w2, z2, rc2) =
              (if zds_has_member (o_dsname opts)
               then (case zds_write_member_bpam ops ic w1 z1 (o_dsname opts) data of (w', z', rc) \<Rightarrow> (w', clear_ddname z', rc))
               else zds_write_sequential ops ic w1 z1 (zds_resolve_write_target opts) data attrs)
            in refresh_etag ops ic w2 z2 (o_dsname opts) rc2))"

text \<open>The streamed entry point: the pointer to the length may be null, and the decoder may throw.\<close>

definition zds_write_streamed ::
    "'w zds_ops \<Rightarrow> 'c iconv_ops \<Rightarrow> 'w \<Rightarrow> zds option \<Rightarrow> ds_opts \<Rightarrow> string \<Rightarrow> nat option
      \<Rightarrow> ('w \<times> zds \<times> nat option \<times> int result) result" where
  "zds_write_streamed ops ic w zp opts pipe content_len =
     bind_result (zds_validate_opts ''ZDSWriteOpts'' ''zds_write_streamed'' zp opts) (\<lambda>(z, vrc).
     if vrc \<noteq> RTNCD_SUCCESS then Inr (w, z, content_len, Inr vrc)
     else case content_len of
       None \<Rightarrow> Inr (w, zds_message ''content_len must be a valid size_t pointer'' z, None, Inr RTNCD_FAILURE)
     | Some n \<Rightarrow>
         if o_ddname opts \<noteq> []
         then Inr (case zds_write_sequential_streamed ops ic w z (zds_resolve_write_target opts) pipe n dscb_attributes_init of
                     (w', z', n', res) \<Rightarrow> (w', z', Some n', res))
         else bind_result (write_checks ops ic w z (o_dsname opts)) (\<lambda>(w1, z1, attrs, rc1).
           if rc1 \<noteq> RTNCD_SUCCESS then Inr (w1, z1, Some n, Inr rc1)
           else let (w2, z2, n2, res2) =
                  (if zds_has_member (o_dsname opts)
                   then (case zds_write_member_bpam_streamed ops ic w1 z1 (o_dsname opts) pipe n of
                           (w', z', n', Inr rc) \<Rightarrow> (w', clear_ddname z', n', Inr rc)
                         | (w', z', n', Inl e) \<Rightarrow> (w', z', n', Inl e))
                   else zds_write_sequential_streamed ops ic w1 z1 (zds_resolve_write_target opts) pipe n attrs)
                in case res2 of
                     Inl e \<Rightarrow> Inr (w2, z2, Some n2, Inl e)
                   | Inr rc2 \<Rightarrow>
                       bind_result (refresh_etag ops ic w2 z2 (o_dsname opts) rc2)
                         (\<lambda>(w3, z3, rc3). Inr (w3, z3, Some n2, Inr rc3))))"

end
