(* ===== verification/Zds_Write_Props.thy ===== *)
theory Zds_Write_Props
  imports Zds_Write Zds_Text_Props Zam_Props
begin

text \<open>
  Properties of writing data sets: the streamed member writer does what the buffered one does, what a
  member holds after a write, what happens when a conversion fails, the e-tag check, and the
  serialization of members across every end of a write.
\<close>

unbundle bit_operations_syntax

section \<open>Diagnostics of operations that succeed\<close>

lemma zut_iconv_success: "zut_iconv ic c line n d fl = (c', out, d', rc) \<Longrightarrow> rc \<noteq> - 1 \<Longrightarrow> d' = d"
  by (auto simp: zut_iconv_def Let_def split: prod.splits if_splits)

lemma encode_line_success:
  "encode_line_if_needed ic setup cd line d = (cd', d', line', 0) \<Longrightarrow> d' = d"
  by (auto simp: encode_line_if_needed_def encode_if_needed_def zut_encode_cd_def rtncd_defs Let_def
      split: if_splits option.splits prod.splits dest: zut_iconv_success)

lemma encode_numbered_success:
  "encode_numbered ic setup max_len extra d line st = (d', line', st', 0) \<Longrightarrow> d' = d"
  by (auto simp: encode_numbered_def Let_def rtncd_defs split: prod.splits if_splits dest: encode_line_success)

lemma abend_success: "handle_dcb_abend what ioc d = (False, d') \<Longrightarrow> d' = d"
  by (auto simp: handle_dcb_abend_def split: if_splits)

lemma write_variable_success: "write_variable_record ops w d ioc = (w', d', ioc', 0) \<Longrightarrow> d' = d"
  by (auto simp: write_variable_record_def Let_def rtncd_defs split: prod.splits if_splits dest: abend_success)

lemma write_output_success: "write_output_bpam ops w d ioc line = (w', d', ioc', 0) \<Longrightarrow> d' = d"
  by (auto simp: write_output_bpam_def handle_fixed_record_def handle_variable_record_def Let_def rtncd_defs
      split: prod.splits if_splits dest: abend_success write_variable_success)

lemma zds_write_output_success:
  "zds_write_output_bpam ops w z ioc line asa = (w', z', ioc', 0) \<Longrightarrow> z' = z"
  by (auto simp: zds_write_output_bpam_def ZDSWBPAM_def Let_def rtncd_defs split: prod.splits if_splits
      dest: write_output_success)

lemma write_lines_success: "write_lines ops w z ioc rows = (w', z', ioc', 0) \<Longrightarrow> z' = z"
proof (induction rows arbitrary: w z ioc)
  case (Cons row rows)
  then show ?case
    by (cases row) (auto simp: Let_def rtncd_defs split: prod.splits if_splits dest: zds_write_output_success)
qed (simp add: rtncd_defs)

lemma write_lines_append:
  "write_lines ops w z ioc (as @ bs) =
    (case write_lines ops w z ioc as of
       (w', z', ioc', rc) \<Rightarrow> if rc \<noteq> RTNCD_SUCCESS then (w', z', ioc', rc) else write_lines ops w' z' ioc' bs)"
  by (induction as arbitrary: w z ioc) (auto simp: Let_def split: prod.split)

section \<open>Streamed and buffered member writes\<close>

lemma asa_prepare_plain [simp]:
  "asa_prepare False line st = (\<lparr> skip_line = False, overflow_records = 0, asa_char = 0 \<rparr>, line, st)"
  by (simp add: asa_prepare_def)

lemma overflow_none [simp]: "overflow_lines 0 = []" by (simp add: overflow_lines_def)

lemma collect_lines_none:
  "newline_char setup \<notin> set data \<Longrightarrow> collect_lines ic setup asa max_len d data st out = (d, data, st, out, RTNCD_SUCCESS)"
  using find_index_None [of "\<lambda>b. b = newline_char setup" data]
  by (subst collect_lines.simps) (auto simp del: find_index_None)

text \<open>The rows of the loop do not depend on the rows before, and text can be given in pieces.\<close>

lemma collect_lines_out:
  "collect_lines ic setup asa max_len d data st out =
    (case collect_lines ic setup asa max_len d data st [] of (d', rest, st', rows, rc) \<Rightarrow> (d', rest, st', out @ rows, rc))"
proof (induction "length data" arbitrary: data d st out rule: less_induct)
  case less
  show ?case
  proof (cases "find_index (\<lambda>b. b = newline_char setup) data")
    case None
    then show ?thesis by (subst (1 2) collect_lines.simps) (simp del: find_index_None)
  next
    case (Some k)
    then have "k < length data" by (simp add: find_index_Some)
    then have shorter: "length (drop (Suc k) data) < length data" by simp
    obtain r line st1 where p: "asa_prepare asa (strip_cr (take k data)) st = (r, line, st1)"
      by (cases "asa_prepare asa (strip_cr (take k data)) st") auto
    obtain d2 line' st2 rc where e: "encode_numbered ic setup max_len asa d line st1 = (d2, line', st2, rc)"
      by (cases "encode_numbered ic setup max_len asa d line st1") auto
    let ?new = "overflow_lines (overflow_records r) @ [(line', asa_char r)]"
    have step: "collect_lines ic setup asa max_len d data st o' =
        (if skip_line r then collect_lines ic setup asa max_len d (drop (Suc k) data) st1 o'
         else if rc \<noteq> RTNCD_SUCCESS then (d2, drop (Suc k) data, st2, o', rc)
         else collect_lines ic setup asa max_len d2 (drop (Suc k) data) st2 (o' @ ?new))" for o'
      by (subst collect_lines.simps) (simp add: Some p e Let_def)
    show ?thesis
      unfolding step
      using less.hyps [OF shorter, of d st1 out] less.hyps [OF shorter, of d2 st2 "out @ ?new"]
        less.hyps [OF shorter, of d2 st2 ?new]
      by (simp split: prod.split)
  qed
qed

text \<open>The rows that are written when \<open>prev\<close> is held back, and the one that is then held back.\<close>

definition prev_rows :: "(byte list \<times> byte) option \<Rightarrow> (byte list \<times> byte) list" where
  "prev_rows prev = (case prev of None \<Rightarrow> [] | Some r \<Rightarrow> [r])"

definition held :: "'a list \<Rightarrow> 'a option" where
  "held rows = (if rows = [] then None else Some (last rows))"

lemma prev_rows_simps [simp]: "prev_rows None = []" "prev_rows (Some r) = [r]"
  by (simp_all add: prev_rows_def)

lemma prev_rows_held [simp]: "butlast rows @ prev_rows (held rows) = rows"
  by (simp add: prev_rows_def held_def)

lemma held_prev_rows [simp]: "held (prev_rows prev) = prev"
  by (simp add: prev_rows_def held_def split: option.split)

lemma write_prev_line_rows: "write_prev_line ops w z ioc prev = write_lines ops w z ioc (prev_rows prev)"
proof (cases prev)
  case None
  then show ?thesis by (simp add: write_prev_line_def)
next
  case (Some r)
  obtain line asa where "r = (line, asa)" by (cases r)
  then show ?thesis
    using Some by (cases "zds_write_output_bpam ops w z ioc line asa") (simp add: write_prev_line_def rtncd_defs)
qed

lemma collect_lines_step:
  assumes "find_index (\<lambda>b. b = newline_char setup) data = Some k"
    and "collect_lines ic setup False max_len d data st [] = (d', rest, st', rows, 0)"
  shows "\<exists>line st1 rows'. encode_numbered ic setup max_len False d (strip_cr (take k data)) st = (d, line, st1, 0) \<and>
    collect_lines ic setup False max_len d (drop (Suc k) data) st1 [] = (d', rest, st', rows', 0) \<and> rows = (line, 0) # rows'"
proof -
  obtain d2 line st1 rc where e: "encode_numbered ic setup max_len False d (strip_cr (take k data)) st = (d2, line, st1, rc)"
    by (cases "encode_numbered ic setup max_len False d (strip_cr (take k data)) st") auto
  have "collect_lines ic setup False max_len d data st [] =
      (if rc \<noteq> RTNCD_SUCCESS then (d2, drop (Suc k) data, st1, [], rc)
       else collect_lines ic setup False max_len d2 (drop (Suc k) data) st1 [(line, 0)])"
    by (subst collect_lines.simps) (simp add: assms(1) e Let_def)
  with assms(2) have rc: "rc = 0"
    and more: "collect_lines ic setup False max_len d2 (drop (Suc k) data) st1 [(line, 0)] = (d', rest, st', rows, 0)"
    by (auto simp: rtncd_defs split: if_splits)
  have d: "d2 = d" using encode_numbered_success e rc by blast
  obtain e3 rest3 st3 rows3 rc3 where c: "collect_lines ic setup False max_len d (drop (Suc k) data) st1 [] = (e3, rest3, st3, rows3, rc3)"
    by (cases "collect_lines ic setup False max_len d (drop (Suc k) data) st1 []") auto
  then show ?thesis
    using more collect_lines_out [of ic "setup" False max_len d "drop (Suc k) data" st1 "[(line, 0)]"] e rc d by auto
qed

lemma stream_lines_eq:
  assumes "collect_lines ic setup False max_len (diag z) data st [] = (d', rest, st', rows, 0)"
  shows "stream_lines ops ic setup False max_len w z ioc st prev data =
    (case write_lines ops w z ioc (butlast (prev_rows prev @ rows)) of (w', z', ioc', rc) \<Rightarrow>
       if rc \<noteq> RTNCD_SUCCESS then Inl (close_guarded ops w' z' ioc' rc)
       else Inr (w', z', ioc', st', held (prev_rows prev @ rows), rest))"
  using assms
proof (induction "length data" arbitrary: data w ioc st prev rows rule: less_induct)
  case less
  show ?case
  proof (cases "find_index (\<lambda>b. b = newline_char setup) data")
    case None
    then have "rest = data" "st' = st" "rows = []"
      using less.prems by (subst (asm) collect_lines.simps, simp del: find_index_None)+
    then show ?thesis
      by (subst stream_lines.simps) (simp add: None prev_rows_def held_def del: find_index_None split: option.split)
  next
    case (Some k)
    then have "k < length data" by (simp add: find_index_Some)
    then have shorter: "length (drop (Suc k) data) < length data" by simp
    obtain line st1 rows' where e: "encode_numbered ic setup max_len False (diag z) (strip_cr (take k data)) st = (diag z, line, st1, 0)"
      and more: "collect_lines ic setup False max_len (diag z) (drop (Suc k) data) st1 [] = (d', rest, st', rows', 0)"
      and rows: "rows = (line, 0) # rows'"
      using collect_lines_step [OF Some less.prems] by blast
    obtain w1 z1 ioc1 rc1 where wp: "write_prev_line ops w z ioc prev = (w1, z1, ioc1, rc1)"
      by (cases "write_prev_line ops w z ioc prev") auto
    have all: "butlast (prev_rows prev @ rows) = prev_rows prev @ butlast (prev_rows (Some (line, 0)) @ rows')"
      "held (prev_rows prev @ rows) = held (prev_rows (Some (line, 0)) @ rows')"
      by (simp_all add: rows butlast_append held_def)
    have z: "z1 = z" if "rc1 = RTNCD_SUCCESS"
      using wp that write_lines_success [of ops w z ioc "prev_rows prev" w1 z1 ioc1]
      by (simp add: write_prev_line_rows RTNCD_SUCCESS_def)
    have "stream_lines ops ic setup False max_len w z ioc st prev data =
        (if rc1 \<noteq> RTNCD_SUCCESS then Inl (close_guarded ops w1 z1 ioc1 rc1)
         else stream_lines ops ic setup False max_len w1 z ioc1 st1 (Some (line, 0)) (drop (Suc k) data))"
      using z by (subst stream_lines.simps) (simp add: Some e wp Let_def rtncd_defs)
    then show ?thesis
      using less.hyps [OF shorter more, of w1 ioc1 "Some (line, 0)"] wp z
      by (simp add: all write_lines_append write_prev_line_rows split: prod.split)
  qed
qed

text \<open>The lines of a text that comes in two pieces.\<close>

lemma collect_lines_stepI:
  assumes "find_index (\<lambda>b. b = newline_char setup) data = Some k"
    and "encode_numbered ic setup max_len False d (strip_cr (take k data)) st = (d, line, st1, 0)"
    and "collect_lines ic setup False max_len d (drop (Suc k) data) st1 [] = (d', rest, st', rows, 0)"
  shows "collect_lines ic setup False max_len d data st [] = (d', rest, st', (line, 0) # rows, 0)"
  using assms(3) collect_lines_out [of ic "setup" False max_len d "drop (Suc k) data" st1 "[(line, 0)]"]
  by (subst collect_lines.simps) (simp add: assms(1,2) Let_def rtncd_defs)

lemma find_index_append: "find_index P xs = Some k \<Longrightarrow> find_index P (xs @ ys) = Some k"
  by (induction xs arbitrary: k) (auto split: if_splits)

lemma collect_lines_split:
  assumes "collect_lines ic setup False max_len d (data @ further) st [] = (d', rest, st', rows, 0)"
  shows "\<exists>rest1 st1 rows1 rows2. collect_lines ic setup False max_len d data st [] = (d, rest1, st1, rows1, 0) \<and>
    newline_char setup \<notin> set rest1 \<and>
    collect_lines ic setup False max_len d (rest1 @ further) st1 [] = (d', rest, st', rows2, 0) \<and> rows = rows1 @ rows2"
  using assms
proof (induction "length data" arbitrary: data st rows rule: less_induct)
  case less
  show ?case
  proof (cases "find_index (\<lambda>b. b = newline_char setup) data")
    case None
    then have "newline_char setup \<notin> set data" by auto
    then show ?thesis using less.prems collect_lines_none by (force simp: rtncd_defs)
  next
    case (Some k)
    then have k: "k < length data" by (simp add: find_index_Some)
    then have shorter: "length (drop (Suc k) data) < length data" by simp
    obtain line st1 rows' where e: "encode_numbered ic setup max_len False d (strip_cr (take k data)) st = (d, line, st1, 0)"
      and tail: "collect_lines ic setup False max_len d (drop (Suc k) data @ further) st1 [] = (d', rest, st', rows', 0)"
      and rows: "rows = (line, 0) # rows'"
      using collect_lines_step [OF find_index_append [OF Some] less.prems] k by auto
    obtain rest1 st2 rows1 rows2 where IH: "collect_lines ic setup False max_len d (drop (Suc k) data) st1 [] = (d, rest1, st2, rows1, 0)"
      "newline_char setup \<notin> set rest1" "collect_lines ic setup False max_len d (rest1 @ further) st2 [] = (d', rest, st', rows2, 0)"
      "rows' = rows1 @ rows2"
      using less.hyps [OF shorter tail] by blast
    show ?thesis
      using collect_lines_stepI [OF Some e IH(1)] IH(2,3,4) rows by force
  qed
qed

text \<open>Chunks: what the decoder makes of them goes through the loop.\<close>

lemma decode_stream_keeps: "\<exists>r lo. decode_stream c (Some left_over) = (r, Some lo)"
  by (cases left_over) (auto simp: decode_stream_def split_leftover_def store_leftover_def load_leftover_def Let_def split: if_splits)

lemma stream_member_chunks_eq:
  assumes "decode_chunks chunks left_over = Inr (decoded, unread)"
    and "collect_lines ic setup False max_len (diag z) (buffer @ decoded) st [] = (d', rest, st', rows, 0)"
    and "newline_char setup \<notin> set buffer" and "zo_heartbeat ops = (\<lambda>w. w)"
  shows "\<exists>m. stream_member_chunks ops ic setup False max_len w z ioc st prev buffer left_over n chunks =
    (case write_lines ops w z ioc (butlast (prev_rows prev @ rows)) of (w', z', ioc', rc) \<Rightarrow>
       if rc \<noteq> RTNCD_SUCCESS then (case close_guarded ops w' z' ioc' rc of (w'', z'', rc') \<Rightarrow> Inl (w'', z'', m, Inr rc'))
       else Inr (w', z', ioc', st', held (prev_rows prev @ rows), rest, n + length decoded))"
  using assms(1-3)
proof (induction chunks arbitrary: w ioc st prev buffer left_over n decoded rows)
  case Nil
  then have d: "decoded = []" and c: "(diag z, buffer, st, [], 0) = (d', rest, st', rows, 0)"
    using collect_lines_none [of "setup" buffer ic False max_len "diag z" st "[]"] by (auto simp: rtncd_defs)
  then show ?case by (auto simp: prev_rows_def held_def split: option.split)
next
  case (Cons c cs)
  obtain r lo where ds: "decode_stream c (Some left_over) = (r, Some lo)" using decode_stream_keeps by blast
  obtain out where r: "r = Inr out" using Cons.prems(1) ds by (cases r) auto
  obtain decoded' where rest_chunks: "decode_chunks cs lo = Inr (decoded', unread)" and dec: "decoded = out @ decoded'"
    using Cons.prems(1) ds r by auto
  obtain rest1 st1 rows1 rows2 where one: "collect_lines ic setup False max_len (diag z) (buffer @ out) st [] = (diag z, rest1, st1, rows1, 0)"
    "newline_char setup \<notin> set rest1" and two: "collect_lines ic setup False max_len (diag z) (rest1 @ decoded') st1 [] = (d', rest, st', rows2, 0)"
    and rows: "rows = rows1 @ rows2"
    using collect_lines_split [of ic "setup" max_len "diag z" "buffer @ out" decoded' st] Cons.prems(2) dec by auto
  obtain w1 z1 ioc1 rc1 where wr: "write_lines ops w z ioc (butlast (prev_rows prev @ rows1)) = (w1, z1, ioc1, rc1)"
    by (cases "write_lines ops w z ioc (butlast (prev_rows prev @ rows1))") auto
  let ?prev = "held (prev_rows prev @ rows1)"
  have step: "stream_member_chunks ops ic setup False max_len w z ioc st prev buffer left_over n (c # cs) =
      (if rc1 \<noteq> RTNCD_SUCCESS
       then (case close_guarded ops w1 z1 ioc1 rc1 of (w'', z'', rc') \<Rightarrow> Inl (w'', z'', n + length out, Inr rc'))
       else stream_member_chunks ops ic setup False max_len w1 z1 ioc1 st1 ?prev rest1 lo (n + length out) cs)"
    using stream_lines_eq [OF one(1), of ops w ioc prev] wr by (simp add: ds r assms(4) split: prod.split)
  have all: "butlast (prev_rows prev @ rows) = butlast (prev_rows prev @ rows1) @ butlast (prev_rows ?prev @ rows2)"
    "held (prev_rows prev @ rows) = held (prev_rows ?prev @ rows2)"
    by (cases "prev_rows prev @ rows1 = []"; simp add: rows held_def butlast_append; fail)+
  have len: "n + length decoded = n + length out + length decoded'" by (simp add: dec)
  show ?case
  proof (cases "rc1 = RTNCD_SUCCESS")
    case False
    then show ?thesis using wr unfolding step all by (auto simp: write_lines_append split: prod.split)
  next
    case True
    then have "z1 = z" using write_lines_success wr by (auto simp: rtncd_defs)
    then show ?thesis
      using Cons.IH [OF rest_chunks two one(2), of w1 ioc1 ?prev "n + length out"] True wr
      unfolding step all len by (auto simp: write_lines_append)
  qed
qed

text \<open>The end of the stream.\<close>

lemma trailing_success:
  "process_bpam_trailing_line ic setup False max_len d line st = (d', p, st', 0) \<Longrightarrow>
    d' = d \<and> pl_overflow_records p = 0"
  by (auto simp: process_bpam_trailing_line_def processed_line_init_def Let_def rtncd_defs
      split: if_splits prod.splits dest: encode_numbered_success)

definition write_rows ::
    "'w zds_ops \<Rightarrow> 'w \<Rightarrow> zds \<Rightarrow> io_ctrl \<Rightarrow> (byte list \<times> byte) list \<Rightarrow> truncation_tracker \<Rightarrow> 'w \<times> zds \<times> int" where
  "write_rows ops w z ioc rows truncation =
     (let (w', z', ioc', rc) = write_lines ops w z ioc rows
      in if rc \<noteq> RTNCD_SUCCESS then close_guarded ops w' z' ioc' rc else finish_member ops w' z' ioc' truncation)"

lemma stream_end_rows: "stream_end ops w z ioc st prev = write_rows ops w z ioc (prev_rows prev) (ls_truncation st)"
  by (simp add: stream_end_def write_rows_def write_prev_line_rows)

lemma write_rows_append:
  assumes "write_lines ops w z ioc as = (w', z', ioc', rc)"
  shows "write_rows ops w z ioc (as @ bs) t =
    (if rc \<noteq> RTNCD_SUCCESS then close_guarded ops w' z' ioc' rc else write_rows ops w' z' ioc' bs t)"
  using assms by (simp add: write_rows_def write_lines_append split: prod.split)

lemma stream_trailing_eq:
  assumes "collect_all ic setup False max_len (diag z) data st = (d', st', rows, 0)"
    and "collect_lines ic setup False max_len (diag z) data st [] = (diag z, rest, st1, rows1, 0)"
  shows "(case stream_trailing ops ic setup False max_len w1 z ioc1 st1 (held rows1) rest of
      Inl res \<Rightarrow> res
    | Inr (w2, z2, ioc2, st2, prev2) \<Rightarrow> stream_end ops w2 z2 ioc2 st2 prev2) =
    write_rows ops w1 z ioc1 (drop (length (butlast rows1)) rows) (ls_truncation st')"
proof -
  have keep: "drop (length (butlast rows1)) rows1 = prev_rows (held rows1)"
    by (metis append_eq_conv_conj prev_rows_held)
  have keep3: "drop (length rows1 - Suc 0) rows1 = prev_rows (held rows1)" using keep by simp
  show ?thesis
  proof (cases "rest = []")
    case True
    then have "rows = rows1" "st' = st1"
      using assms by (auto simp: collect_all_def rtncd_defs)
    then show ?thesis using True keep by (simp add: stream_trailing_def stream_end_rows)
  next
    case False
    obtain d2 p st2 rc2 where t: "process_bpam_trailing_line ic setup False max_len (diag z) rest st1 = (d2, p, st2, rc2)"
      by (cases "process_bpam_trailing_line ic setup False max_len (diag z) rest st1") auto
    have "rc2 = 0" using assms False t by (auto simp: collect_all_def rtncd_defs split: if_splits)
    with t have p: "d2 = diag z" "pl_overflow_records p = 0" using trailing_success by blast+
    have st: "st' = st2" and rows: "rows = rows1 @ (if pl_skip_line p then [] else [(pl_line p, pl_asa_char p)])"
      using assms False t p \<open>rc2 = 0\<close> by (auto simp: collect_all_def rtncd_defs split: if_splits)
    show ?thesis
    proof (cases "pl_skip_line p")
      case True
      then show ?thesis
        using False t p \<open>rc2 = 0\<close> st rows keep by (simp add: stream_trailing_def stream_end_rows rtncd_defs)
    next
      case kept: False
      obtain w2 z2 ioc2 rc where wr: "write_lines ops w1 z ioc1 (prev_rows (held rows1)) = (w2, z2, ioc2, rc)"
        by (cases "write_lines ops w1 z ioc1 (prev_rows (held rows1))") auto
      show ?thesis
        using False t p \<open>rc2 = 0\<close> st rows kept wr
        by (simp add: stream_trailing_def stream_end_rows write_prev_line_rows keep3 write_rows_append [OF wr] RTNCD_SUCCESS_def split: prod.split)
    qed
  qed
qed

text \<open>The opened member, and what has to hold of it.\<close>

definition member_opens :: "'w zds_ops \<Rightarrow> 'w \<Rightarrow> zds \<Rightarrow> string \<Rightarrow> (zds \<Rightarrow> io_ctrl \<Rightarrow> bool) \<Rightarrow> bool" where
  "member_opens ops w z dsn P =
     (case zds_open_output_bpam ops w z dsn of (_, z1, Some ioc, _) \<Rightarrow> P z1 ioc | _ \<Rightarrow> True)"

definition lines_convert :: "'c iconv_ops \<Rightarrow> byte list \<Rightarrow> zds \<Rightarrow> io_ctrl \<Rightarrow> bool" where
  "lines_convert ic data z ioc =
     (let (z', setup) = setup_encoding ic z; cd = open_iconv ic setup;
          (_, _, _, rc) = collect_all ic setup (is_asa_member ioc) (get_effective_lrecl (dcbrecfm ioc) (dcblrecl ioc))
             (diag z') data (line_state_init cd)
      in validate_iconv_setup setup cd z' = (z', RTNCD_SUCCESS) \<longrightarrow> rc = RTNCD_SUCCESS)"

lemma collect_all_lines:
  assumes "collect_all ic setup False max_len d data st = (d', st', rows, 0)"
  shows "\<exists>rest st1 rows1 rows2. collect_lines ic setup False max_len d data st [] = (d, rest, st1, rows1, 0) \<and>
    d' = d \<and> rows = rows1 @ rows2"
proof -
  obtain d1 rest st1 rows1 rc where c: "collect_lines ic setup False max_len d data st [] = (d1, rest, st1, rows1, rc)"
    by (cases "collect_lines ic setup False max_len d data st []") auto
  then have rc: "rc = 0" using assms by (auto simp: collect_all_def rtncd_defs split: if_splits)
  then have "d1 = d" using collect_lines_split [of ic "setup" max_len d data "[]" st] c by auto
  then show ?thesis
    using assms c rc trailing_success [of ic "setup" max_len d rest st1]
    by (auto simp: collect_all_def rtncd_defs Let_def split: if_splits prod.splits)
qed

lemma validated: "validate_iconv_setup setup cd z = (z', 0) \<Longrightarrow> z' = z"
  by (auto simp: validate_iconv_setup_def rtncd_defs split: if_splits)


text \<open>A system that allocates every data set, writes members to a tape, and has one pipe and no code pages.\<close>

definition tape_system :: "byte list list \<Rightarrow> byte list list zds_ops" where
  "tape_system chunks = \<lparr> zo_zam = tape,
     zo_wdyn = \<lambda>w cmd want. (w, \<lparr> wdyn_rc = 0, wdyn_code = 0, wdyn_resp = [], wdyn_ddname = ''SYS00001'', wdyn_dsname = [] \<rparr>),
     zo_data_sets = \<lambda>w dsn. (w, 0, [\<lparr> en_recfm = ''VB'', en_lrecl = 12, en_blksize = 24 \<rparr>]),
     zo_fopen = \<lambda>w n flags. (w, True), zo_fread = \<lambda>w n. (w, w), zo_fwrite = \<lambda>w b. (w @ [b], length b),
     zo_fflush = \<lambda>w. (w, 0), zo_fclose = \<lambda>w. w, zo_pipe = \<lambda>p. Pipe_chunks chunks, zo_heartbeat = \<lambda>w. w \<rparr>"

definition no_code_pages :: "unit iconv_ops" where
  "no_code_pages = \<lparr> iconv_open = \<lambda>to_code from_code. None,
     iconv = \<lambda>c b n. (c, \<lparr> ic_rc = 0, ic_errno = 0, ic_left = 0, ic_bytes = b \<rparr>),
     iconv_flush = \<lambda>c n. (c, \<lparr> ic_rc = 0, ic_errno = 0, ic_left = 0, ic_bytes = [] \<rparr>) \<rparr>"

definition zds_init :: zds where
  "zds_init = \<lparr> diag = zdiag_init, encoding_opts = \<lparr> codepage = [], source_codepage = [], data_type = eDataTypeText \<rparr>,
     z_ddname = replicate 8 NUL, etag = [], dynalloc = False \<rparr>"

lemma decoded_whole: "decode_chunks [encode data] [] = Inr (data, [])"
proof -
  have "length (encode data) mod 4 = 0" by (simp add: encode_eq_spec length_spec)
  then have "dec.whole (concat [encode data]) = encode data" "dec.rest (concat [encode data]) = []"
    by (simp_all add: dec.whole_def dec.rest_def)
  then show ?thesis by (simp only: decode_chunks_concat) (simp add: decode_encode_inv)
qed


section \<open>What a member holds after a write\<close>

text \<open>Without a code page and without control characters the rows are the lines of the text.\<close>

definition plain_rows :: "byte list list \<Rightarrow> (byte list \<times> byte) list" where
  "plain_rows ls = map (\<lambda>l. (strip_cr l, 0)) ls"

lemma encode_numbered_plain:
  "\<not> has_encoding setup \<Longrightarrow> \<exists>st'. encode_numbered ic setup max_len extra d line st = (d, line, st', 0)"
  by (simp add: encode_numbered_def encode_line_if_needed_def encode_if_needed_def rtncd_defs Let_def)

lemma collect_all_plain:
  assumes "\<not> has_encoding setup" and "data = [] \<or> last data \<noteq> CR_CHAR"
  shows "\<exists>st'. collect_all ic setup False max_len d data st = (d, st', plain_rows (text_lines (newline_char setup) data), 0)"
  using assms(2)
proof (induction "length data" arbitrary: data st rule: less_induct)
  case less
  show ?case
  proof (cases "find_index (\<lambda>b. b = newline_char setup) data")
    case None
    obtain st1 where e: "encode_numbered ic setup max_len False d data st = (d, data, st1, 0)"
      using encode_numbered_plain [OF assms(1)] by blast
    have "strip_cr data = data" using less.prems by (auto simp: strip_cr_def)
    moreover have "collect_lines ic setup False max_len d data st [] = (d, data, st, [], 0)"
      using None collect_lines_none [of "setup" data ic False max_len d st "[]"] by (auto simp: rtncd_defs)
    moreover have "text_lines (newline_char setup) data = (if data = [] then [] else [data])"
      using None by (subst text_lines.simps) (simp del: find_index_None)
    ultimately show ?thesis
      using e by (simp add: collect_all_def process_bpam_trailing_line_def processed_line_init_def plain_rows_def
          overflow_lines_def rtncd_defs)
  next
    case (Some k)
    then have k: "k < length data" by (simp add: find_index_Some)
    then have shorter: "length (drop (Suc k) data) < length data" by simp
    have ends: "drop (Suc k) data = [] \<or> last (drop (Suc k) data) \<noteq> CR_CHAR"
      using less.prems by (cases "Suc k < length data") auto
    obtain st1 where e: "encode_numbered ic setup max_len False d (strip_cr (take k data)) st = (d, strip_cr (take k data), st1, 0)"
      using encode_numbered_plain [OF assms(1)] by blast
    obtain st' where IH: "collect_all ic setup False max_len d (drop (Suc k) data) st1 =
        (d, st', plain_rows (text_lines (newline_char setup) (drop (Suc k) data)), 0)"
      using less.hyps [OF shorter ends] by blast
    obtain rest st2 rows1 rows2 where c: "collect_lines ic setup False max_len d (drop (Suc k) data) st1 [] = (d, rest, st2, rows1, 0)"
      using collect_all_lines [OF IH] by blast
    show ?thesis
      using IH collect_lines_stepI [OF Some e c] c Some
      by (subst text_lines.simps) (auto simp: collect_all_def plain_rows_def rtncd_defs Let_def split: if_splits prod.splits)
  qed
qed

lemma write_lines_records:
  assumes "write_records (zo_zam ops) w (diag z) ioc ls = (w', d', ioc', 0)"
  shows "write_lines ops w z ioc (map (\<lambda>l. (l, 0)) ls) = (w', z, ioc', 0)"
  using assms
proof (induction ls arbitrary: w ioc)
  case Nil
  then show ?case by (simp add: rtncd_defs)
next
  case (Cons l ls)
  obtain w1 d1 ioc1 rc1 where one: "write_output_bpam (zo_zam ops) w (diag z) ioc l = (w1, d1, ioc1, rc1)"
    by (cases "write_output_bpam (zo_zam ops) w (diag z) ioc l") auto
  then have rc: "rc1 = 0" and tail: "write_records (zo_zam ops) w1 d1 ioc1 ls = (w', d', ioc', 0)"
    using Cons.prems by (auto split: if_splits)
  have d: "d1 = diag z" using write_output_success one unfolding rc by fast
  have "zds_write_output_bpam ops w z ioc l 0 = (w1, z, ioc1, 0)"
    using one rc d by (simp add: zds_write_output_bpam_def ZDSWBPAM_def)
  then show ?case using Cons.IH tail d by (simp add: rtncd_defs)
qed

text \<open>Services that are no WRITE leave the blocks alone.\<close>

definition keeps_blocks :: "('w \<Rightarrow> byte list list) \<Rightarrow> 'w zds_ops \<Rightarrow> bool" where
  "keeps_blocks blocks ops \<longleftrightarrow>
     (\<forall>w. (\<forall>n. blocks (fst (op_rdjfcb (zo_zam ops) w n)) = blocks w) \<and>
       (\<forall>n. blocks (fst (op_enq (zo_zam ops) w n)) = blocks w) \<and>
       (\<forall>n. blocks (fst (op_deq (zo_zam ops) w n)) = blocks w) \<and>
       (\<forall>n. blocks (fst (op_reserve (zo_zam ops) w n)) = blocks w) \<and>
       (\<forall>n. blocks (fst (op_deq_reserve (zo_zam ops) w n)) = blocks w) \<and>
       (\<forall>n recfm. blocks (fst (op_open (zo_zam ops) w n recfm)) = blocks w) \<and>
       (\<forall>n. blocks (fst (op_bldl (zo_zam ops) w n)) = blocks w) \<and>
       blocks (fst (op_userid (zo_zam ops) w)) = blocks w \<and> blocks (fst (op_time (zo_zam ops) w)) = blocks w \<and>
       (\<forall>n c u. blocks (fst (op_stow (zo_zam ops) w n c u)) = blocks w) \<and>
       blocks (fst (op_close (zo_zam ops) w)) = blocks w \<and>
       (\<forall>cmd want. blocks (fst (zo_wdyn ops w cmd want)) = blocks w))"

lemma keeps_blocksD:
  assumes "keeps_blocks blocks ops"
  shows "blocks (fst (op_rdjfcb (zo_zam ops) w n)) = blocks w" "blocks (fst (op_enq (zo_zam ops) w n)) = blocks w"
    "blocks (fst (op_deq (zo_zam ops) w n)) = blocks w" "blocks (fst (op_reserve (zo_zam ops) w n)) = blocks w"
    "blocks (fst (op_deq_reserve (zo_zam ops) w n)) = blocks w" "blocks (fst (op_open (zo_zam ops) w n recfm)) = blocks w"
    "blocks (fst (op_bldl (zo_zam ops) w n)) = blocks w" "blocks (fst (op_userid (zo_zam ops) w)) = blocks w"
    "blocks (fst (op_time (zo_zam ops) w)) = blocks w" "blocks (fst (op_stow (zo_zam ops) w n c u)) = blocks w"
    "blocks (fst (op_close (zo_zam ops) w)) = blocks w" "blocks (fst (zo_wdyn ops w cmd want)) = blocks w"
  using assms by (simp_all add: keeps_blocks_def)

lemma bpxwdyn_keeps:
  "keeps_blocks blocks ops \<Longrightarrow> blocks (fst (zut_bpxwdyn_common (zo_wdyn ops) w parm code resp ddname dsname)) = blocks w"
  by (simp add: zut_bpxwdyn_common_def Let_def split_beta keeps_blocksD)

lemma finalize_keeps:
  assumes "keeps_blocks blocks ops"
  shows "blocks (fst (finalize_dcb (zo_zam ops) w d ioc)) = blocks w"
proof -
  note keep = keeps_blocksD [OF assms]
  obtain w1 d1 ioc1 rc1 where s: "update_ispf_statistics (zo_zam ops) w d ioc = (w1, d1, ioc1, rc1)"
    by (cases "update_ispf_statistics (zo_zam ops) w d ioc") auto
  have "blocks (fst (update_ispf_statistics (zo_zam ops) w d ioc)) = blocks w"
    by (simp add: update_ispf_statistics_def Let_def split_beta keep)
  then have one: "blocks w1 = blocks w" using s by simp
  have two: "blocks (fst (stow_data_set (zo_zam ops) w1 d1 ioc1)) = blocks w1"
    by (simp add: stow_data_set_def Let_def split_beta keep)
  have three: "blocks (fst (close_data_set (zo_zam ops) w' d' ioc')) = blocks w'" for w' d' ioc'
    by (simp add: close_data_set_def Let_def split_beta keep)
  show ?thesis
    using one two three by (simp add: finalize_dcb_def s split_beta Let_def)
qed

lemma member_closed:
  assumes dev: "block_device blocks (zo_zam ops)" and keep: "keeps_blocks blocks ops" and h: "holds ioc pending"
  shows "\<exists>new. blocks (fst (zds_close_output_bpam ops w z (Some ioc))) = blocks w @ new \<and> read_blocks ioc new = Some pending"
proof -
  obtain w1 ioc1 new where f: "write_flush (zo_zam ops) w (diag z) ioc = (w1, diag z, ioc1, 0)"
    and new: "blocks w1 = blocks w @ new" "read_blocks ioc new = Some pending"
    using flush_step [OF dev h] by blast
  have deq: "blocks (fst (deq_data_set (zo_zam ops) w' d' ioc')) = blocks w'"
    "blocks (fst (deq_reserve_data_set (zo_zam ops) w' d' ioc')) = blocks w'" for w' d' ioc'
    by (simp_all add: deq_data_set_def deq_reserve_data_set_def Let_def split_beta keeps_blocksD [OF keep])
  have "blocks (fst (close_output_bpam (zo_zam ops) w (diag z) ioc)) = blocks w1"
    using deq by (simp add: close_output_bpam_def f split_beta Let_def finalize_keeps [OF keep])
  then have "blocks (fst (zds_close_output_bpam ops w z (Some ioc))) = blocks w1"
    by (simp add: zds_close_output_bpam_def ZDSCBPAM_def zut_bpxwdyn_def split_beta Let_def bpxwdyn_keeps [OF keep])
  with new show ?thesis by auto
qed

lemma finish_member_world: "fst (finish_member ops w z ioc t) = fst (zds_close_output_bpam ops w z (Some ioc))"
  by (simp add: finish_member_def split_beta Let_def)

lemma open_keeps_options: "zds_open_output_bpam ops w z dsn = (w1, z1, ioc, rc) \<Longrightarrow> encoding_opts z1 = encoding_opts z"
  by (auto simp: zds_open_output_bpam_def Let_def split: if_splits prod.splits)

text \<open>The buffer is empty after a successful open.\<close>

lemma opened_fresh:
  assumes "open_output_bpam zam w d ddname = (w', d', ioc, 0)" and "geometry ioc"
  shows "fresh_buffer ioc"
proof -
  have opened: "dcb_open i \<and> \<not> dcb_abend i" if "open_data_set zam w d i0 = (w', d', i, 0)" for w d i0 w' d' i
    using that by (auto simp: open_data_set_def handle_dcb_abend_def Let_def rtncd_defs split: if_splits prod.splits)
  show ?thesis
    using assms
    by (auto simp: open_output_bpam_def fresh_buffer_def open_device_def Let_def rtncd_defs dest: opened
        split: if_splits prod.splits)
qed

lemma zds_open_fresh:
  assumes "zds_open_output_bpam ops w z dsn = (w1, z1, Some ioc, rc)" and "geometry ioc"
  shows "fresh_buffer ioc"
  using assms by (auto simp: zds_open_output_bpam_def ZDSOBPAM_def Let_def dest: opened_fresh split: if_splits prod.splits)


lemma tape_system_device: "block_device id (zo_zam (tape_system chunks))"
  by (simp add: tape_system_def tape_device)

lemma tape_system_keeps: "keeps_blocks id (tape_system chunks)"
  by (simp add: keeps_blocks_def tape_system_def tape_def)

lemma tape_system_opens:
  "case zds_open_output_bpam (tape_system chunks) [] zds_init ''USER.TEXT(MEMBER)'' of
     (w1, z1, Some ioc, rc1) \<Rightarrow> w1 = [] \<and> geometry ioc \<and> dcbrecfm ioc = 0x50 \<and> dcblrecl ioc = 12 \<and> dcbblksi ioc = 24
   | _ \<Rightarrow> False"
  by code_simp


section \<open>Conversions that fail\<close>

text \<open>When a line of the text does not convert, the buffered member writer has written no record,
  but it has already opened the member and closes it, as if it had been given an empty text: the error is
  returned, and the old contents are gone.\<close>

theorem failed_conversion_empties_member:
  assumes dev: "block_device blocks (zo_zam ops)" and keep: "keeps_blocks blocks ops"
    and opened: "zds_open_output_bpam ops w z dsn = (w1, z1, Some ioc, rc1)" "geometry ioc"
    and "setup_encoding ic z1 = (z2, setup)" and "iconv_open ic (es_codepage setup) (source_encoding setup) = Some cd"
    and "has_encoding setup"
    and fails: "collect_all ic setup (is_asa_member ioc) (get_effective_lrecl (dcbrecfm ioc) (dcblrecl ioc)) (diag z2) data
      (line_state_init (Some cd)) = (d, st, rows, rc)" "rc \<noteq> RTNCD_SUCCESS"
  shows "\<exists>z'. zds_write_member_bpam ops ic w z dsn data = close_failed ops w1 z' ioc rc \<and>
    (\<exists>new. blocks (fst (close_failed ops w1 z' ioc rc)) = blocks w1 @ new \<and> read_blocks ioc new = Some [])"
proof -
  have h: "holds ioc []" by (rule fresh_holds [OF zds_open_fresh [OF opened]])
  have "zds_write_member_bpam ops ic w z dsn data = close_failed ops w1 (z2\<lparr> diag := d \<rparr>) ioc rc"
    using assms(5-9) by (simp add: zds_write_member_bpam_def opened(1) open_iconv_def validate_iconv_setup_def Let_def)
  moreover have "fst (close_failed ops w1 z' ioc rc) = fst (zds_close_output_bpam ops w1 z' (Some ioc))" for z'
    by (simp add: close_failed_def split_beta Let_def)
  ultimately show ?thesis
    using member_closed [OF dev keep h, of w1 "z2\<lparr> diag := d \<rparr>"] by auto
qed

text \<open>A code page that the system does not know makes the sequential writer replace the data set by
  an empty one and report success.\<close>

theorem unknown_code_page_empties_data_set:
  assumes "zds_use_codepage z" and "codepage (encoding_opts z) \<noteq> source_encoding_of z"
    and "iconv_open ic (codepage (encoding_opts z)) (source_encoding_of z) = None"
    and "zo_fopen ops w dsname (write_flags z attrs) = (w1, True)" and "zo_fwrite ops w1 [] = (w2, 0)" and "data \<noteq> []"
  shows "\<exists>z'. zds_write_sequential ops ic w z dsname data attrs = (zo_fclose ops w2, z', RTNCD_SUCCESS)"
proof -
  obtain d nl where nl: "get_newline_char ic (source_encoding_of z) (diag z) = (d, nl)"
    by (cases "get_newline_char ic (source_encoding_of z) (diag z)") auto
  have "zut_encode ic data (source_encoding_of z) (codepage (encoding_opts z)) d =
      (set_msg (''Cannot open converter from '' @ source_encoding_of z @ '' to '' @ codepage (encoding_opts z)) d, Inr [])"
    using assms(2,3) by (simp add: zut_encode_def)
  moreover have "write_flags (z\<lparr> diag := d \<rparr>) attrs = write_flags z attrs" by (simp add: write_flags_def)
  ultimately show ?thesis
    using assms by (simp add: zds_write_sequential_def setup_encoding_def nl Let_def handle_truncation_result_def
        truncation_init_def rtncd_defs)
qed

section \<open>The e-tag\<close>

text \<open>Opening for reading, reading, closing and looking into the catalog leave the files alone.\<close>

definition reading_keeps :: "('w \<Rightarrow> 'x) \<Rightarrow> 'w zds_ops \<Rightarrow> bool" where
  "reading_keeps files ops \<longleftrightarrow>
     (\<forall>w. (\<forall>dsn. files (fst (zo_data_sets ops w dsn)) = files w) \<and>
       (\<forall>n. \<forall>flags \<in> {''r'', ''rb'', ''rb,type=record''}. files (fst (zo_fopen ops w n flags)) = files w) \<and>
       (\<forall>n. files (fst (zo_fread ops w n)) = files w) \<and> files (zo_fclose ops w) = files w)"

lemma reading_keepsD:
  assumes "reading_keeps files ops"
  shows "files (fst (zo_data_sets ops w dsn)) = files w" "files (fst (zo_fopen ops w n (read_flags z asa))) = files w"
    "files (fst (zo_fopen ops w n ''r'')) = files w" "files (fst (zo_fread ops w m)) = files w" "files (zo_fclose ops w) = files w"
  using assms by (auto simp: reading_keeps_def read_flags_def)

lemma attributes_keep: "reading_keeps files ops \<Longrightarrow> files (fst (zds_get_dscb_attributes ops w dsn)) = files w"
  by (simp add: zds_get_dscb_attributes_def split_beta Let_def reading_keepsD)

lemma resolve_keeps: "reading_keeps files ops \<Longrightarrow> files (fst (zds_resolve_dscb ops w opts)) = files w"
  by (simp add: zds_resolve_dscb_def split_beta Let_def attributes_keep)

lemma zds_read_keeps:
  assumes "reading_keeps files ops" and "zds_read ops ic w zp opts = Inr (w', z', contents, rc)"
  shows "files w' = files w"
proof -
  obtain z vrc where v: "zds_validate_opts ''ZDSReadOpts'' ''zds_read'' zp opts = Inr (z, vrc)"
    using assms(2) by (auto simp: zds_read_def)
  obtain w1 attrs where r: "zds_resolve_dscb ops w opts = (w1, attrs)" by (cases "zds_resolve_dscb ops w opts")
  let ?asa = "at_is_asa attrs \<and> data_type (encoding_opts z) \<noteq> eDataTypeBinary"
  obtain w2 opened where f: "zo_fopen ops w1 (zds_resolve_dsname opts) (read_flags z ?asa) = (w2, opened)"
    by (cases "zo_fopen ops w1 (zds_resolve_dsname opts) (read_flags z ?asa)")
  let ?n = "if ?asa then if 0 < at_lrecl attrs then nat (at_lrecl attrs) else 32760 else 4096"
  obtain w3 parts where p: "zo_fread ops w2 ?n = (w3, parts)" by (cases "zo_fread ops w2 ?n")
  have "files w1 = files w" "files w2 = files w1" "files w3 = files w2" "files (zo_fclose ops w3) = files w3"
    using resolve_keeps [OF assms(1), of w opts] r reading_keepsD [OF assms(1)] f p by (metis fst_conv)+
  moreover have "w' \<in> {w, w2, zo_fclose ops w3}"
    using assms(2) unfolding zds_read_def v
    by (auto simp: r f p Let_def split: if_splits prod.splits sum.splits)
  ultimately show ?thesis by auto
qed

definition etag_matches :: "'w zds_ops \<Rightarrow> 'c iconv_ops \<Rightarrow> ('w \<Rightarrow> 'x) \<Rightarrow> 'w \<Rightarrow> zds \<Rightarrow> string \<Rightarrow> bool" where
  "etag_matches ops ic files w z dsn \<longleftrightarrow>
     (\<exists>w1 w2 rz contents. files w1 = files w \<and>
        zds_read ops ic w1 (Some (etag_zds z (zds_use_codepage z))) (dsn_opts dsn) = Inr (w2, rz, contents, 0) \<and>
        strtoul16 (etag z) = ucast (zut_calc_adler32_checksum contents))"

lemma write_checks_etag:
  assumes keep: "reading_keeps files ops" and checks: "write_checks ops ic w z dsn = Inr (w', z', attrs, rc)"
  shows "files w' = files w \<and> (rc = RTNCD_SUCCESS \<and> etag z \<noteq> [] \<longrightarrow> etag_matches ops ic files w z dsn)"
proof -
  obtain w1 z1 rc1 where e: "validate_dataset_exists ops w z dsn = (w1, z1, rc1)"
    by (cases "validate_dataset_exists ops w z dsn") auto
  have w1: "files w1 = files w"
    using e reading_keepsD [OF keep]
    by (auto simp: validate_dataset_exists_def zds_dataset_exists_def Let_def split: if_splits prod.splits)
      (metis fst_conv)+
  show ?thesis
  proof (cases "rc1 = RTNCD_SUCCESS")
    case False
    then show ?thesis using checks w1 by (auto simp: write_checks_def e)
  next
    case True
    then have z1: "z1 = z" using e by (auto simp: validate_dataset_exists_def rtncd_defs split: if_splits prod.splits)
    obtain w2 at where a: "zds_get_dscb_attributes ops w1 dsn = (w2, at)" by (cases "zds_get_dscb_attributes ops w1 dsn")
    have w2: "files w2 = files w" using attributes_keep [OF keep, of w1 dsn] a w1 by simp
    obtain z2 rc2 where r: "validate_write_recfm z at (zds_has_member dsn) = (z2, rc2)"
      by (cases "validate_write_recfm z at (zds_has_member dsn)")
    show ?thesis
    proof (cases "rc2 = RTNCD_SUCCESS")
      case False
      then show ?thesis using checks w2 True by (auto simp: write_checks_def e a r z1)
    next
      case ok: True
      then have z2: "z2 = z" using r by (auto simp: validate_write_recfm_def rtncd_defs split: if_splits)
      have c: "bind_result (validate_etag_if_present ops ic w2 z dsn (zds_use_codepage z)) (\<lambda>(w3, z3, rc3). Inr (w3, z3, at, rc3))
          = Inr (w', z', attrs, rc)"
        using checks True ok by (simp add: write_checks_def e a r z1 z2)
      show ?thesis
      proof (cases "etag z = []")
        case True
        then show ?thesis using c w2 by (auto simp: validate_etag_if_present_def)
      next
        case False
        then obtain w3 rz contents rrc where rd: "zds_read ops ic w2 (Some (etag_zds z (zds_use_codepage z))) (dsn_opts dsn) = Inr (w3, rz, contents, rrc)"
          using c by (auto simp: validate_etag_if_present_def zds_validate_etag_def)
        have "w' = w3" "rc = RTNCD_SUCCESS \<Longrightarrow> rrc = 0 \<and> strtoul16 (etag z) = ucast (zut_calc_adler32_checksum contents)"
          using c False by (auto simp: validate_etag_if_present_def zds_validate_etag_def rd rtncd_defs Let_def split: if_splits)
        then show ?thesis
          using rd w2 zds_read_keeps [OF keep rd] unfolding etag_matches_def by auto
      qed
    qed
  qed
qed


section \<open>Serialization of members\<close>

text \<open>Allocation and the progress callback obtain and release nothing.\<close>

definition log_quiet :: "('w \<times> lock_event list) zds_ops \<Rightarrow> bool" where
  "log_quiet ops \<longleftrightarrow> (\<exists>base. zo_zam ops = logged base) \<and> (\<forall>w. snd (zo_heartbeat ops w) = snd w) \<and>
     (\<forall>w cmd want. snd (fst (zo_wdyn ops w cmd want)) = snd w)"

lemma open_success_locks:
  assumes "open_output_bpam zam w d ddname = (w', d', ioc, 0)"
  shows "has_enq ioc \<and> has_reserve ioc"
proof -
  have enq: "has_enq i" if "enq_data_set zam w d i0 = (w', d', i, 0)" for w d i0 w' d' i
    using that by (auto simp: enq_data_set_def rtncd_defs Let_def split: if_splits prod.splits)
  have res: "has_enq i = has_enq i0 \<and> has_reserve i" if "reserve_data_set zam w d i0 = (w', d', i, 0)" for w d i0 w' d' i
    using that by (auto simp: reserve_data_set_def rtncd_defs Let_def split: if_splits prod.splits)
  have op: "has_enq i = has_enq i0 \<and> has_reserve i = has_reserve i0" if "open_data_set zam w d i0 = (w', d', i, rc)" for w d i0 w' d' i rc
    using that by (auto simp: open_data_set_def Let_def split: if_splits prod.splits)
  show ?thesis
    using assms
    by (auto simp: open_output_bpam_def Let_def same_locks_def rtncd_defs dest!: enq res op ucb_same split: if_splits prod.splits)
qed

lemma log_quietE:
  assumes "log_quiet ops"
  obtains base where "zo_zam ops = logged base"
  using assms by (auto simp: log_quiet_def)

lemma log_quietD:
  assumes "log_quiet ops"
  shows "snd (zo_heartbeat ops w) = snd w" "snd (fst (zo_wdyn ops w cmd want)) = snd w"
  using assms unfolding log_quiet_def by blast+

lemma bpxwdyn_quiet: "log_quiet ops \<Longrightarrow> snd (fst (zut_bpxwdyn_common (zo_wdyn ops) w parm code resp ddname dsname)) = snd w"
  by (simp add: zut_bpxwdyn_common_def Let_def split_beta log_quietD)

lemma loop_dynalloc_quiet: "log_quiet ops \<Longrightarrow> snd (fst (loop_dynalloc_from (zo_wdyn ops) w d allocs code resp)) = snd w"
  by (induction allocs arbitrary: w d code resp) (simp_all add: Let_def split_beta zut_bpxwdyn_def bpxwdyn_quiet)

text \<open>The state \<open>(w', ioc')\<close> has the log and the locks of \<open>(w, ioc)\<close>.\<close>

definition same_log :: "'w \<times> lock_event list \<Rightarrow> io_ctrl \<Rightarrow> 'w \<times> lock_event list \<Rightarrow> io_ctrl \<Rightarrow> bool" where
  "same_log w ioc w' ioc' \<longleftrightarrow> snd w' = snd w \<and> same_locks ioc ioc'"

lemma same_log_refl [simp]: "same_log w ioc w ioc"
  by (simp add: same_log_def same_locks_def)

lemma same_log_trans: "same_log w ioc w1 ioc1 \<Longrightarrow> same_log w1 ioc1 w2 ioc2 \<Longrightarrow> same_log w ioc w2 ioc2"
  by (auto simp: same_log_def intro: same_locks_trans)

lemma same_log_released: "same_log w ioc w' ioc' \<Longrightarrow> snd w' @ released ioc' = snd w @ released ioc"
  using same_locks_obtained by (simp add: same_log_def)

lemma write_output_log:
  assumes "log_quiet ops" and "zds_write_output_bpam ops w z ioc line asa = (w', z', ioc', rc)"
  shows "same_log w ioc w' ioc'"
proof -
  obtain base where base: "zo_zam ops = logged base" using assms(1) by (rule log_quietE)
  show ?thesis
    using assms(2) quiet_write [of w ioc base "diag z" "if asa \<noteq> 0 then asa # line else line"]
    by (auto simp: zds_write_output_bpam_def ZDSWBPAM_def base quiet_def same_log_def Let_def split: prod.splits if_splits)
qed

lemma overflow_log:
  "log_quiet ops \<Longrightarrow> write_asa_overflow_records ops w z ioc n = (w', z', ioc', rc) \<Longrightarrow> same_log w ioc w' ioc'"
proof (induction n arbitrary: w z ioc)
  case (Suc n)
  then show ?case
    by (auto simp: Let_def split: prod.splits if_splits dest!: write_output_log intro: same_log_trans)
qed simp

lemma prev_line_log:
  "log_quiet ops \<Longrightarrow> write_prev_line ops w z ioc prev = (w', z', ioc', rc) \<Longrightarrow> same_log w ioc w' ioc'"
  by (auto simp: write_prev_line_def split: option.splits dest: write_output_log)

lemma close_log:
  assumes "log_quiet ops"
  shows "snd (fst (zds_close_output_bpam ops w z (Some ioc))) = snd w @ released ioc"
proof -
  obtain base where base: "zo_zam ops = logged base" using assms by (rule log_quietE)
  show ?thesis
    by (simp add: zds_close_output_bpam_def ZDSCBPAM_def base zut_bpxwdyn_def split_beta Let_def bpxwdyn_quiet [OF assms] close_releases)
qed

lemma ends_log:
  assumes "log_quiet ops"
  shows "snd (fst (close_failed ops w z ioc rc)) = snd w @ released ioc"
    "snd (fst (close_guarded ops w z ioc rc)) = snd w @ released ioc"
    "snd (fst (finish_member ops w z ioc t)) = snd w @ released ioc"
  using close_log [OF assms] by (simp_all add: close_failed_def close_guarded_def finish_member_def split_beta Let_def)

text \<open>A function that returned released the locks, one that goes on has them.\<close>

definition stream_log :: "'w \<times> lock_event list \<Rightarrow> io_ctrl \<Rightarrow>
    (('w \<times> lock_event list) \<times> 'r) + (('w \<times> lock_event list) \<times> zds \<times> io_ctrl \<times> 's) \<Rightarrow> bool" where
  "stream_log w ioc res =
     (case res of Inl r \<Rightarrow> snd (fst r) = snd w @ released ioc | Inr r \<Rightarrow> same_log w ioc (fst r) (fst (snd (snd r))))"

lemma stream_log_simps [simp]:
  "stream_log w ioc (Inl r) \<longleftrightarrow> snd (fst r) = snd w @ released ioc"
  "stream_log w ioc (Inr r') \<longleftrightarrow> same_log w ioc (fst r') (fst (snd (snd r')))"
  by (simp_all add: stream_log_def)

lemma stream_log_trans: "same_log w ioc w1 ioc1 \<Longrightarrow> stream_log w1 ioc1 res \<Longrightarrow> stream_log w ioc res"
  using same_log_released [of w ioc w1 ioc1] by (cases res) (auto intro: same_log_trans)

lemma stream_lines_log:
  assumes "log_quiet ops"
  shows "stream_log w ioc (stream_lines ops ic setup asa max_len w z ioc st prev data)"
proof (induction "length data" arbitrary: data w z ioc st prev rule: less_induct)
  case less
  show ?case
  proof (cases "find_index (\<lambda>b. b = newline_char setup) data")
    case None
    then show ?thesis by (subst stream_lines.simps) (simp del: find_index_None)
  next
    case (Some k)
    then have "k < length data" by (simp add: find_index_Some)
    then have shorter: "length (drop (Suc k) data) < length data" by simp
    obtain r line st1 where p: "asa_prepare asa (strip_cr (take k data)) st = (r, line, st1)"
      by (cases "asa_prepare asa (strip_cr (take k data)) st") auto
    obtain w1 z1 ioc1 rc1 where ov: "write_asa_overflow_records ops w z ioc (overflow_records r) = (w1, z1, ioc1, rc1)"
      by (cases "write_asa_overflow_records ops w z ioc (overflow_records r)") auto
    obtain d2 line' st2 rc2 where e: "encode_numbered ic setup max_len asa (diag z1) line st1 = (d2, line', st2, rc2)"
      by (cases "encode_numbered ic setup max_len asa (diag z1) line st1") auto
    obtain w3 z3 ioc3 rc3 where pr: "write_prev_line ops w1 (z1\<lparr> diag := d2 \<rparr>) ioc1 prev = (w3, z3, ioc3, rc3)"
      by (cases "write_prev_line ops w1 (z1\<lparr> diag := d2 \<rparr>) ioc1 prev") auto
    have one: "same_log w ioc w1 ioc1" and two: "same_log w ioc w3 ioc3"
      using overflow_log [OF assms ov] prev_line_log [OF assms pr] by (auto intro: same_log_trans)
    have step: "stream_lines ops ic setup asa max_len w z ioc st prev data =
        (if skip_line r then stream_lines ops ic setup asa max_len w z ioc st1 prev (drop (Suc k) data)
         else if rc1 \<noteq> RTNCD_SUCCESS then Inl (close_failed ops w1 z1 ioc1 rc1)
         else if rc2 \<noteq> RTNCD_SUCCESS then Inl (close_failed ops w1 (z1\<lparr> diag := d2 \<rparr>) ioc1 rc2)
         else if rc3 \<noteq> RTNCD_SUCCESS then Inl (close_guarded ops w3 z3 ioc3 rc3)
         else stream_lines ops ic setup asa max_len w3 z3 ioc3 st2 (Some (line', asa_char r)) (drop (Suc k) data))"
      by (subst stream_lines.simps) (simp add: Some p ov e pr Let_def)
    show ?thesis
      unfolding step
      using less.hyps [OF shorter] stream_log_trans [OF two less.hyps [OF shorter]]
      by (simp add: ends_log [OF assms] same_log_released [OF one] same_log_released [OF two])
  qed
qed

lemma stream_member_chunks_log:
  assumes "log_quiet ops"
  shows "case stream_member_chunks ops ic es asa max_len w z ioc st prev buffer left_over n chunks of
      Inl (w', z', n', Inl e) \<Rightarrow> snd w' = snd w
    | Inl (w', z', n', Inr rc) \<Rightarrow> snd w' = snd w @ released ioc
    | Inr (w', z', ioc', rest) \<Rightarrow> same_log w ioc w' ioc'"
proof (induction chunks arbitrary: w z ioc st prev buffer left_over n)
  case (Cons c cs)
  obtain r lo where d: "decode_stream c (Some left_over) = (r, lo)" by (cases "decode_stream c (Some left_over)")
  have beat: "snd (zo_heartbeat ops w) = snd w" by (rule log_quietD [OF assms])
  show ?case
  proof (cases r)
    case (Inl e)
    then show ?thesis using d beat by simp
  next
    case (Inr out)
    let ?res = "stream_lines ops ic es asa max_len (zo_heartbeat ops w) z ioc st prev (buffer @ out)"
    have log: "stream_log (zo_heartbeat ops w) ioc ?res" by (rule stream_lines_log [OF assms])
    show ?thesis
    proof (cases ?res)
      case (Inl x)
      then show ?thesis using d Inr log beat by (cases x) simp
    next
      case (Inr y)
      obtain w2 z2 ioc2 st2 prev2 rest where y: "y = (w2, z2, ioc2, st2, prev2, rest)" by (cases y) auto
      have same: "same_log w ioc w2 ioc2" using log beat Inr y by (simp add: same_log_def)
      show ?thesis
        using Cons.IH [where w = w2 and z = z2 and ioc = ioc2 and st = st2 and prev = prev2 and buffer = rest
            and left_over = "the lo" and n = "n + length out"] d \<open>r = Inr out\<close> Inr y
          same same_log_released [OF same] same_log_trans [OF same]
        by (auto simp: same_log_def split: sum.splits)
    qed
  qed
qed simp

lemma stream_trailing_log:
  assumes "log_quiet ops"
  shows "stream_log w ioc (stream_trailing ops ic setup asa max_len w z ioc st prev line_buffer)"
proof (cases "line_buffer = []")
  case True
  then show ?thesis by (simp add: stream_trailing_def)
next
  case False
  obtain d1 p st1 rc1 where t: "process_bpam_trailing_line ic setup asa max_len (diag z) line_buffer st = (d1, p, st1, rc1)"
    by (cases "process_bpam_trailing_line ic setup asa max_len (diag z) line_buffer st") auto
  obtain w2 z2 ioc2 rc2 where ov: "write_asa_overflow_records ops w (z\<lparr> diag := d1 \<rparr>) ioc (pl_overflow_records p) = (w2, z2, ioc2, rc2)"
    by (cases "write_asa_overflow_records ops w (z\<lparr> diag := d1 \<rparr>) ioc (pl_overflow_records p)") auto
  obtain w3 z3 ioc3 rc3 where pr: "write_prev_line ops w2 z2 ioc2 prev = (w3, z3, ioc3, rc3)"
    by (cases "write_prev_line ops w2 z2 ioc2 prev") auto
  have one: "same_log w ioc w2 ioc2" and two: "same_log w ioc w3 ioc3"
    using overflow_log [OF assms ov] prev_line_log [OF assms pr] by (auto intro: same_log_trans)
  show ?thesis
    using False two by (simp add: stream_trailing_def t ov pr Let_def ends_log [OF assms] same_log_released [OF one] same_log_released [OF two])
qed

lemma stream_end_log:
  assumes "log_quiet ops"
  shows "snd (fst (stream_end ops w z ioc st prev)) = snd w @ released ioc"
proof -
  obtain w1 z1 ioc1 rc1 where pr: "write_prev_line ops w z ioc prev = (w1, z1, ioc1, rc1)"
    by (cases "write_prev_line ops w z ioc prev") auto
  show ?thesis
    using same_log_released [OF prev_line_log [OF assms pr]] by (simp add: stream_end_def pr ends_log [OF assms])
qed

text \<open>Opening.\<close>

lemma open_log:
  assumes "log_quiet ops" and "zds_open_output_bpam ops w z dsn = (w', z', iocp, rc)"
  shows "case iocp of
      None \<Rightarrow> \<exists>ioc. snd w' = snd w @ obtained ioc @ released ioc \<and> (has_reserve ioc \<longrightarrow> has_enq ioc)
    | Some ioc \<Rightarrow> snd w' = snd w @ obtained ioc \<and> has_enq ioc \<and> has_reserve ioc"
proof -
  obtain base where base: "zo_zam ops = logged base" using assms(1) by (rule log_quietE)
  obtain w1 r where al: "zut_bpxwdyn_rtdd (zo_wdyn ops) w (alloc_cmd dsn) 0 [] = (w1, r)"
    by (cases "zut_bpxwdyn_rtdd (zo_wdyn ops) w (alloc_cmd dsn) 0 []")
  have w1: "snd w1 = snd w"
    using bpxwdyn_quiet [OF assms(1)] al unfolding zut_bpxwdyn_rtdd_def by (metis fst_conv)
  show ?thesis
  proof (cases "wdyn_rc r = 0")
    case False
    then have "iocp = None" "w' = w1" using assms(2) by (auto simp: zds_open_output_bpam_def al Let_def)
    then show ?thesis using w1 by (auto simp: obtained_def released_def new_io_ctrl_def intro!: exI [of _ "new_io_ctrl []"])
  next
    case True
    define dd where "dd = zut_uppercase_pad_truncate (wdyn_ddname r) sizeof_ddname"
    obtain w2 d2 ioc rc2 where o: "open_output_bpam (logged base) w1 (diag z) dd = (w2, d2, ioc, rc2)"
      by (cases "open_output_bpam (logged base) w1 (diag z) dd") auto
    have acc: "snd w2 = snd w @ obtained ioc" "has_reserve ioc \<longrightarrow> has_enq ioc"
      using opening_accounts [OF o] w1 by (auto simp: accounts_def)
    let ?z = "z\<lparr> dynalloc := True, z_ddname := dd \<rparr>"
    have z: "ZDSOBPAM (zo_zam ops) w1 (diag ?z) (z_ddname ?z) =
        (if rc2 \<noteq> 0 then (fst (close_output_bpam (logged base) w2 zdiag_init ioc), d2, None, rc2) else (w2, d2, Some ioc, rc2))"
      using o by (simp add: ZDSOBPAM_def base)
    show ?thesis
    proof (cases "rc2 = 0")
      case True
      have "has_enq ioc \<and> has_reserve ioc"
        using open_success_locks [OF o [unfolded True]] .
      moreover have "iocp = Some ioc \<and> w' = w2"
        using assms(2) z [unfolded dd_def] True \<open>wdyn_rc r = 0\<close> unfolding zds_open_output_bpam_def al Let_def by simp
      ultimately show ?thesis using acc by simp
    next
      case False
      let ?w3 = "fst (close_output_bpam (logged base) w2 zdiag_init ioc)"
      obtain w4 d4 rc4 where lp: "zut_loop_dynalloc (zo_wdyn ops) ?w3 d2 [''FREE DD('' @ wdyn_ddname r @ '')''] = (w4, d4, rc4)"
        by (cases "zut_loop_dynalloc (zo_wdyn ops) ?w3 d2 [''FREE DD('' @ wdyn_ddname r @ '')'']") auto
      have "snd ?w3 = snd w @ obtained ioc @ released ioc"
        using close_releases [of base w2 zdiag_init ioc] acc(1) by simp
      moreover have "snd w4 = snd ?w3"
        using loop_dynalloc_quiet [OF assms(1)] lp unfolding zut_loop_dynalloc_def by (metis fst_conv)
      moreover have "iocp = None \<and> w' = w4"
        using assms(2) z [unfolded dd_def] False \<open>wdyn_rc r = 0\<close> lp
        unfolding zds_open_output_bpam_def al Let_def by (simp del: append.simps)
      ultimately show ?thesis using acc(2) by auto
    qed
  qed
qed

text \<open>The ways out of the streamed writer once the member is open.\<close>

definition ended :: "'w \<times> lock_event list \<Rightarrow> io_ctrl \<Rightarrow> ('w \<times> lock_event list) \<times> zds \<times> nat \<times> int result \<Rightarrow> bool" where
  "ended w ioc out =
     (case out of
        (w', _, _, Inr rc) \<Rightarrow> snd w' = snd w @ released ioc
      | (w', _, _, Inl e) \<Rightarrow> snd w' = snd w)"

lemma ended_simps [simp]:
  "ended w ioc (w', z', n', Inr rc) \<longleftrightarrow> snd w' = snd w @ released ioc"
  "ended w ioc (w', z', n', Inl e) \<longleftrightarrow> snd w' = snd w"
  by (simp_all add: ended_def)

lemma ended_return: "snd (fst res) = snd w @ released ioc \<Longrightarrow> ended w ioc (case res of (w', z', rc) \<Rightarrow> (w', z', n, Inr rc))"
  by (cases res) simp

lemma member_stream_ended:
  assumes "log_quiet ops"
  shows "ended w ioc
    (case stream_member_chunks ops ic setup asa max_len w z ioc st None [] [] n chunks of
       Inl result \<Rightarrow> result
     | Inr (w4, z4, ioc4, st4, prev4, rest, n) \<Rightarrow>
         (case stream_trailing ops ic setup asa max_len w4 z4 ioc4 st4 prev4 rest of
            Inl (w', z', rc) \<Rightarrow> (w', z', n, Inr rc)
          | Inr (w5, z5, ioc5, st5, prev5) \<Rightarrow>
              (case stream_end ops w5 z5 ioc5 st5 prev5 of (w', z', rc) \<Rightarrow> (w', z', n, Inr rc))))"
proof (cases "stream_member_chunks ops ic setup asa max_len w z ioc st None [] [] n chunks")
  case (Inl result)
  then show ?thesis
    using stream_member_chunks_log [OF assms, where ic = ic and es = "setup" and asa = asa and max_len = max_len and w = w and z = z
        and ioc = ioc and st = st and prev = None and buffer = "[]" and left_over = "[]" and n = n and chunks = chunks]
    by (auto simp: ended_def split: prod.splits sum.splits)
next
  case (Inr y)
  obtain w4 z4 ioc4 st4 prev4 rest n4 where y: "y = (w4, z4, ioc4, st4, prev4, rest, n4)" by (cases y) auto
  have same: "same_log w ioc w4 ioc4"
    using stream_member_chunks_log [OF assms, where ic = ic and es = "setup" and asa = asa and max_len = max_len and w = w and z = z
        and ioc = ioc and st = st and prev = None and buffer = "[]" and left_over = "[]" and n = n and chunks = chunks] Inr y by simp
  have log: "stream_log w ioc (stream_trailing ops ic setup asa max_len w4 z4 ioc4 st4 prev4 rest)"
    using stream_trailing_log [OF assms] stream_log_trans [OF same] by blast
  show ?thesis
  proof (cases "stream_trailing ops ic setup asa max_len w4 z4 ioc4 st4 prev4 rest")
    case (Inl r)
    then show ?thesis using Inr y log by (cases r) simp
  next
    case (Inr r)
    obtain w5 z5 ioc5 st5 prev5 where r: "r = (w5, z5, ioc5, st5, prev5)" by (cases r) auto
    have "snd (fst (stream_end ops w5 z5 ioc5 st5 prev5)) = snd w @ released ioc"
      using same_log_released [of w ioc w5 ioc5] log Inr r by (simp add: stream_end_log [OF assms])
    from ended_return [OF this] show ?thesis
      using \<open>stream_member_chunks _ _ _ _ _ _ _ _ _ _ _ _ _ _ = Inr y\<close> y Inr r by simp
  qed
qed

text \<open>C40. Whatever the services answer, a streamed member write that returns has released the
  serialization it obtained, in the reverse order. If the decoder throws on a malformed chunk, the member
  stays open: its name and the volume remain reserved.\<close>

theorem streamed_write_serialization:
  assumes "log_quiet ops" and "zds_write_member_bpam_streamed ops ic w z dsn pipe n = (w', z', n', res)"
  shows "\<exists>new. snd w' = snd w @ new \<and>
    (case res of
       Inr rc \<Rightarrow> \<exists>m r. new \<in> {[], [Enq m, Deq m], [Enq m, Reserve r, Deq_reserve r, Deq m]}
     | Inl e \<Rightarrow> \<exists>m r. new = [Enq m, Reserve r])"
proof -
  obtain w1 z1 iocp rc1 where o: "zds_open_output_bpam ops w z dsn = (w1, z1, iocp, rc1)"
    by (cases "zds_open_output_bpam ops w z dsn") auto
  have balanced: "\<exists>m r. obtained ioc @ released ioc \<in> {[], [Enq m, Deq m], [Enq m, Reserve r, Deq_reserve r, Deq m]}"
    if "has_reserve ioc \<longrightarrow> has_enq ioc" for ioc
    using that by (intro exI [of _ "enq_name ioc"] exI [of _ "jfcbdsnm (io_jfcb ioc)"])
      (auto simp: obtained_def released_def)
  show ?thesis
  proof (cases iocp)
    case None
    then obtain ioc where "snd w1 = snd w @ obtained ioc @ released ioc" "has_reserve ioc \<longrightarrow> has_enq ioc"
      using open_log [OF assms(1) o] by auto
    moreover have "w' = w1 \<and> res = Inr rc1"
      using assms(2) None by (simp add: zds_write_member_bpam_streamed_def o)
    ultimately show ?thesis using balanced by auto
  next
    case (Some ioc)
    have w1: "snd w1 = snd w @ obtained ioc" and locks: "has_enq ioc" "has_reserve ioc"
      using open_log [OF assms(1) o] Some by auto
    have ob: "obtained ioc = [Enq (enq_name ioc), Reserve (jfcbdsnm (io_jfcb ioc))]" using locks by (simp add: obtained_def)
    have "ended w1 ioc (zds_write_member_bpam_streamed ops ic w z dsn pipe n)"
    proof (cases "zo_pipe ops pipe")
      case (Pipe_chunks chunks)
      obtain z2 "setup" where s: "setup_encoding ic z1 = (z2, setup)" by (cases "setup_encoding ic z1") auto
      obtain z3 rc3 where v: "validate_iconv_setup setup (open_iconv ic setup) z2 = (z3, rc3)"
        by (cases "validate_iconv_setup setup (open_iconv ic setup) z2") auto
      show ?thesis
        using ended_return [OF ends_log(1) [OF assms(1), where w = w1 and z = z3 and ioc = ioc and rc = rc3], of n]
        by (simp add: zds_write_member_bpam_streamed_def o Some Pipe_chunks s v Let_def member_stream_ended [OF assms(1)])
    qed (simp_all add: zds_write_member_bpam_streamed_def o Some Let_def ended_return [OF ends_log(1) [OF assms(1)]])
    then show ?thesis using balanced [of ioc] assms(2) locks w1 ob by (cases res) auto
  qed
qed

text \<open>Concrete systems for the hypotheses: one with the log, whose pipe delivers one malformed chunk,
  and code pages in which no text converts.\<close>

definition logged_system :: "byte list list \<Rightarrow> (byte list list \<times> lock_event list) zds_ops" where
  "logged_system chunks = \<lparr> zo_zam = logged tape,
     zo_wdyn = \<lambda>w cmd want. (w, \<lparr> wdyn_rc = 0, wdyn_code = 0, wdyn_resp = [], wdyn_ddname = ''SYS00001'', wdyn_dsname = [] \<rparr>),
     zo_data_sets = \<lambda>w dsn. (w, 0, []), zo_fopen = \<lambda>w n flags. (w, True), zo_fread = \<lambda>w n. (w, []),
     zo_fwrite = \<lambda>w b. (w, length b), zo_fflush = \<lambda>w. (w, 0), zo_fclose = \<lambda>w. w,
     zo_pipe = \<lambda>p. Pipe_chunks chunks, zo_heartbeat = \<lambda>w. w \<rparr>"

lemma malformed_chunk_throws:
  "case zds_write_member_bpam_streamed (logged_system [[1, 1, 1, 1]]) no_code_pages ([], []) zds_init ''USER.TEXT(M)'' ''/p'' 0 of
     (w', z', n', res) \<Rightarrow> (case res of Inl e \<Rightarrow> True | Inr rc \<Rightarrow> False)"
  by code_simp

theorem streamed_write_serialization_witness:
  "\<exists>m r. snd (fst (zds_write_member_bpam_streamed (logged_system [[1, 1, 1, 1]]) no_code_pages ([], []) zds_init ''USER.TEXT(M)'' ''/p'' 0))
     = [Enq m, Reserve r]"
proof -
  have quiet: "log_quiet (logged_system [[1, 1, 1, 1]])" by (auto simp: log_quiet_def logged_system_def)
  obtain w' z' n' res where run: "zds_write_member_bpam_streamed (logged_system [[1, 1, 1, 1]]) no_code_pages ([], []) zds_init
      ''USER.TEXT(M)'' ''/p'' 0 = (w', z', n', res)"
    by (cases "zds_write_member_bpam_streamed (logged_system [[1, 1, 1, 1]]) no_code_pages ([], []) zds_init ''USER.TEXT(M)'' ''/p'' 0")
  then obtain e where "res = Inl e" using malformed_chunk_throws by (cases res) auto
  then show ?thesis using streamed_write_serialization [OF quiet run] run by auto
qed

definition failing_code_pages :: "unit iconv_ops" where
  "failing_code_pages = \<lparr> iconv_open = \<lambda>to_code from_code. Some (),
     iconv = \<lambda>c b n. (c, \<lparr> ic_rc = 0, ic_errno = 0, ic_left = length b, ic_bytes = [] \<rparr>),
     iconv_flush = \<lambda>c n. (c, \<lparr> ic_rc = 0, ic_errno = 0, ic_left = 0, ic_bytes = [] \<rparr>) \<rparr>"

definition zds_coded :: zds where
  "zds_coded = zds_init\<lparr> encoding_opts := \<lparr> codepage = ''IBM-037'', source_codepage = [], data_type = eDataTypeText \<rparr> \<rparr>"

lemma failing_conversion:
  "case zds_open_output_bpam (tape_system []) [] zds_coded ''USER.TEXT(M)'' of
     (w1, z1, Some ioc, rc1) \<Rightarrow> w1 = [] \<and> geometry ioc \<and>
       (case setup_encoding failing_code_pages z1 of (z2, setup) \<Rightarrow> has_encoding setup \<and>
          (case collect_all failing_code_pages setup (is_asa_member ioc) (get_effective_lrecl (dcbrecfm ioc) (dcblrecl ioc)) (diag z2)
             [0xC1] (line_state_init (Some ())) of (d, st, rows, rc) \<Rightarrow> rc = - 1))
   | _ \<Rightarrow> False"
  by code_simp

theorem failed_conversion_empties_member_witness:
  "\<exists>z' ioc. zds_write_member_bpam (tape_system []) failing_code_pages [] zds_coded ''USER.TEXT(M)'' [0xC1]
       = close_failed (tape_system []) [] z' ioc (- 1) \<and>
     (\<exists>new. id (fst (close_failed (tape_system []) [] z' ioc (- 1))) = id [] @ new \<and> read_blocks ioc new = Some [])"
proof -
  obtain w1 z1 ioc rc1 where o: "zds_open_output_bpam (tape_system []) [] zds_coded ''USER.TEXT(M)'' = (w1, z1, Some ioc, rc1)"
    and g: "w1 = []" "geometry ioc"
    using failing_conversion
    by (cases "zds_open_output_bpam (tape_system []) [] zds_coded ''USER.TEXT(M)''")
      (auto split: option.splits prod.splits; fail)+
  obtain z2 "setup" where s: "setup_encoding failing_code_pages z1 = (z2, setup)" by (cases "setup_encoding failing_code_pages z1")
  obtain d st rows rc where c: "collect_all failing_code_pages setup (is_asa_member ioc) (get_effective_lrecl (dcbrecfm ioc) (dcblrecl ioc))
      (diag z2) [0xC1] (line_state_init (Some ())) = (d, st, rows, rc)"
    by (cases "collect_all failing_code_pages setup (is_asa_member ioc) (get_effective_lrecl (dcbrecfm ioc) (dcblrecl ioc))
      (diag z2) [0xC1] (line_state_init (Some ()))") auto
  have rc: "rc = - 1" "has_encoding setup" using failing_conversion o s c by simp_all
  show ?thesis
    using failed_conversion_empties_member [OF tape_system_device tape_system_keeps o g(2) s _ rc(2) c] rc(1) g(1)
    by (auto simp: failing_code_pages_def rtncd_defs)
qed

theorem unknown_code_page_empties_data_set_witness:
  "\<exists>z'. zds_write_sequential (tape_system []) no_code_pages [] zds_coded ''//DD:OUT'' [0xC1] dscb_attributes_init
     = ([[]], z', RTNCD_SUCCESS)"
  using unknown_code_page_empties_data_set [of zds_coded no_code_pages "tape_system []" "[]" "''//DD:OUT''" dscb_attributes_init "[]" "[[]]" "[0xC1]"]
  by (simp add: zds_coded_def zds_init_def zds_use_codepage_def source_encoding_of_def no_code_pages_def tape_system_def)

definition zds_tagged :: zds where
  "zds_tagged = zds_init\<lparr> etag := ''2'' \<rparr>"

lemma tagged_checksum: "strtoul16 (etag zds_tagged) \<noteq> ucast (zut_calc_adler32_checksum [])"
proof -
  have "strtoul_digits ''2'' = 2" "dropWhile isspace ''2'' = ''2''" by code_simp+
  then have "strtoul16 ''2'' = 2" by (simp add: strtoul16_def)
  moreover have "zut_calc_adler32_checksum [] = 1"
    by (simp add: zut_calc_adler32_checksum_def zut_adler32_update_def zut_adler32_finalize_def adler_blocks.simps
        adler_reduce_def adler_init_def MOD_ADLER_def)
  ultimately show ?thesis by (simp add: zds_tagged_def)
qed

lemma empty_contents:
  "case zds_read (tape_system []) no_code_pages [] (Some (etag_zds zds_tagged (zds_use_codepage zds_tagged))) (dsn_opts ''USER.TEXT'') of
     Inr (w, z, contents, rc) \<Rightarrow> contents = [] | Inl _ \<Rightarrow> False"
  by (simp add: zds_read_def zds_validate_opts_def dsn_opts_def zds_resolve_dscb_def zds_get_dscb_attributes_def
      tape_system_def etag_zds_def zds_tagged_def zds_init_def zds_use_codepage_def read_flags_def rtncd_defs Let_def)

text \<open>No exception once there is a \<open>ZDS\<close>.\<close>

lemma isl_bind: "isl (bind_result m f) \<longleftrightarrow> isl m \<or> isl (f (projr m))"
  by (cases m) auto

lemma zds_read_returns: "\<not> isl (zds_read ops ic w (Some z) opts)"
proof -
  have bind: "\<not> isl m \<Longrightarrow> (\<And>x. \<not> isl (f x)) \<Longrightarrow> \<not> isl (bind_result m f)" for m :: "(zds \<times> int) result" and f :: "_ \<Rightarrow> 'q result"
    by (simp add: isl_bind)
  show ?thesis
    unfolding zds_read_def by (rule bind) (simp_all add: zds_validate_opts_def Let_def split_beta split: sum.split)
qed

lemma write_checks_returns: "\<not> isl (write_checks ops ic w z dsn)"
  by (simp add: write_checks_def validate_etag_if_present_def zds_validate_etag_def isl_bind zds_read_returns Let_def split_beta)

lemma zds_write_returns: "\<not> isl (zds_write ops ic w (Some z) opts data)"
proof -
  have "\<not> isl (refresh_etag ops ic w z dsn rc)" for w z dsn rc
    by (simp add: refresh_etag_def isl_bind zds_read_returns split_beta)
  then show ?thesis
    by (simp add: zds_write_def isl_bind write_checks_returns zds_validate_opts_def Let_def split_beta)
qed


text \<open>With control characters the streamed writer departs from the buffered one: the records for three
  blank lines are written before the line that precedes them, which is still held back.\<close>

definition asa_tape :: "byte list list zam_ops" where
  "asa_tape = tape\<lparr> op_open := \<lambda>w n recfm. (w, \<lparr> oo_rc = 0, oo_recfm = 0x84, oo_lrecl = 3, oo_blksi = 3, oo_open = True, oo_abend = False \<rparr>) \<rparr>"

lemma asa_buffered:
  "fst (zds_write_member_bpam ((tape_system [])\<lparr> zo_zam := asa_tape \<rparr>) no_code_pages [] zds_init ''USER.LIST(M)''
     [0xC1, 0x15, 0x15, 0x15, 0x15, 0xC2, 0x15]) = [[0x40, 0xC1, 0x40], [0x60, 0x40, 0x40], [0x40, 0xC2, 0x40]]"
  by code_simp

lemma asa_streamed:
  "case zds_open_output_bpam ((tape_system [])\<lparr> zo_zam := asa_tape \<rparr>) [] zds_init ''USER.LIST(M)'' of
     (w1, z1, Some ioc, rc) \<Rightarrow>
       (case stream_lines ((tape_system [])\<lparr> zo_zam := asa_tape \<rparr>) no_code_pages (snd (setup_encoding no_code_pages z1)) True 2
          w1 z1 ioc (line_state_init None) None [0xC1, 0x15, 0x15, 0x15, 0x15, 0xC2, 0x15] of
          Inr (w', z', ioc', st', prev', rest) \<Rightarrow> w' = [[0x60, 0x40, 0x40], [0x40, 0xC1, 0x40]] \<and> prev' = Some ([0xC2], 0x40)
        | Inl _ \<Rightarrow> False)
   | _ \<Rightarrow> False"
  by code_simp

end
