(* ===== verification/Zds_Dscb.thy ===== *)
theory Zds_Dscb
  imports Zds_Text
begin

text \<open>
  The attributes of a data set (\<open>zds.cpp\<close>): what the format-1 DSCB of the volume says of its
  organization, record format, space and dates, and the fields of the catalog.
\<close>

unbundle bit_operations_syntax

section \<open>The control block and the entry\<close>

text \<open>The fields of \<open>DSCBFormat1\<close> that are read; character arrays are lists of bytes.\<close>

record dscb1 =
  ds1credt :: "byte list"
  ds1expdt :: "byte list"
  ds1noepv :: byte
  ds1flag1 :: byte
  ds1refd :: "byte list"
  ds1smsfg :: byte
  ds1scext :: "byte list"
  ds1dsorg :: "16 word"
  ds1recfm :: byte
  ds1blkl :: "byte list"
  ds1lrecl :: "byte list"
  ds1scalo :: "byte list"
  ds1lstar :: "byte list"
  ds1ttthi :: byte
  ds1exnts :: "byte list"

record zds_entry =
  e_name :: string
  alloc :: int
  allocx :: int
  blksize :: int
  cdate :: string
  dataclass :: string
  devtype :: "16 word"
  dsorg :: string
  dsntype :: string
  edate :: string
  encrypted :: bool
  lrecl :: int
  mgmtclass :: string
  migrated :: bool
  multivolume :: bool
  primary :: int
  rdate :: string
  e_recfm :: string
  secondary :: int
  spacu :: string
  storclass :: string
  usedp :: int
  usedx :: int
  volser :: string
  volsers :: "string list"

definition zds_entry_init :: zds_entry where
  "zds_entry_init = \<lparr> e_name = [], alloc = 0, allocx = 0, blksize = 0, cdate = [], dataclass = [], devtype = 0,
     dsorg = [], dsntype = [], edate = [], encrypted = False, lrecl = 0, mgmtclass = [], migrated = False,
     multivolume = False, primary = 0, rdate = [], e_recfm = [], secondary = 0, spacu = [], storclass = [],
     usedp = 0, usedx = 0, volser = [], volsers = [] \<rparr>"

definition be16 :: "byte list \<Rightarrow> int" where
  "be16 bs = uint (bs ! 0) * 256 + uint (bs ! 1)"

section \<open>Organization and record format\<close>

definition DS1DSGPS_MASK :: "16 word" where "DS1DSGPS_MASK = 0x4000"
definition DS1DSGDA_MASK :: "16 word" where "DS1DSGDA_MASK = 0x2000"
definition DS1DSGPO_MASK :: "16 word" where "DS1DSGPO_MASK = 0x0200"
definition DS1DSGU_MASK :: "16 word" where "DS1DSGU_MASK = 0x0100"
definition DS1ACBM_MASK :: "16 word" where "DS1ACBM_MASK = 0x0008"
definition DS1PDSE_MASK :: byte where "DS1PDSE_MASK = 0x10"
definition DS1ENCRP_MASK :: byte where "DS1ENCRP_MASK = 0x04"

definition load_dsorg_from_dscb :: "dscb1 \<Rightarrow> string \<Rightarrow> string" where
  "load_dsorg_from_dscb d org =
     (let org1 = (if ds1dsorg d AND DS1DSGPS_MASK \<noteq> 0 then ''PS''
                  else if ds1dsorg d AND DS1DSGDA_MASK \<noteq> 0 then ''DA''
                  else if ds1dsorg d AND DS1DSGPO_MASK \<noteq> 0 then ''PO''
                  else if ds1dsorg d AND DS1ACBM_MASK \<noteq> 0 then ''VS'' else org);
          org2 = (if ds1dsorg d AND DS1DSGU_MASK \<noteq> 0 then org1 @ ''U'' else org1)
      in if org2 = [] then ''--'' else org2)"

text \<open>The test before \<open>S\<close> reads \<open>recfm[0]\<close> of a pointer to a string, which is the whole string.\<close>

definition load_recfm_from_dscb :: "dscb1 \<Rightarrow> string \<Rightarrow> string" where
  "load_recfm_from_dscb d recfm =
     (let bits = ds1recfm d AND 0xC0;
          r1 = (if bits = 0x80 then ''F'' else if bits = 0x40 then ''V'' else if bits = 0xC0 then ''U'' else recfm);
          r2 = (if ds1recfm d AND 0x10 \<noteq> 0 then r1 @ ''B'' else r1);
          r3 = (if ds1recfm d AND 0x08 \<noteq> 0 \<and> r2 \<noteq> ''U'' then r2 @ ''S'' else r2);
          r4 = (if ds1recfm d AND 0x04 \<noteq> 0 then r3 @ ''A'' else r3);
          r5 = (if ds1recfm d AND 0x02 \<noteq> 0 then r4 @ ''M'' else r4)
      in if r5 = [] then ''U'' else r5)"

section \<open>Dates\<close>

definition days_in_month :: "int list" where
  "days_in_month = [31, 28, 31, 30, 31, 30, 31, 31, 30, 31, 30, 31]"

definition is_leap :: "int \<Rightarrow> bool" where
  "is_leap year \<longleftrightarrow> year mod 4 = 0 \<and> year mod 100 \<noteq> 0 \<or> year mod 400 = 0"

text \<open>The loop over the months, from index \<open>i\<close>: the month and the day.\<close>

function month_loop :: "bool \<Rightarrow> nat \<Rightarrow> int \<Rightarrow> int \<Rightarrow> int \<times> int" where
  "month_loop leap i month day =
     (if i < 12 \<and> days_in_month ! i < day
      then month_loop leap (Suc i) (month + 1) (day - (if i = 1 \<and> leap then 29 else days_in_month ! i))
      else (month, day))"
  by pat_completeness auto
termination by (relation "measure (\<lambda>(_, i, _, _). 12 - i)") auto

declare month_loop.simps [simp del]

definition pad_zeros :: "nat \<Rightarrow> string \<Rightarrow> string" where
  "pad_zeros width s = replicate (width - length s) (CHR ''0'') @ s"

definition load_date_from_dscb :: "byte list \<Rightarrow> bool \<Rightarrow> string" where
  "load_date_from_dscb date_in is_expiration_date =
     (let year_offset = date_in ! 0; day_high = date_in ! 1; day_low = date_in ! 2
      in if year_offset = 0 \<and> day_high = 0 \<and> day_low = 0 then []
         else let year = 1900 + uint year_offset;
                  day_of_year = uint day_high * 256 + uint day_low
              in if is_expiration_date \<and> year = 1999 \<and> day_of_year = 365 then []
                 else let (month, day) = month_loop (is_leap year) 0 1 day_of_year
                      in pad_zeros 4 (show_int year) @ ''/'' @ pad_zeros 2 (show_int month) @ ''/'' @ pad_zeros 2 (show_int day))"

section \<open>Extents\<close>

definition ucb_to_devtype :: "byte \<Rightarrow> 16 word" where
  "ucb_to_devtype ucb_byte =
     (if ucb_byte = 0x0E then 0x3380 else if ucb_byte = 0x0F then 0x3390 else if ucb_byte = 0x04 then 0x9345 else 0)"

definition parse_cchh_cylinder :: "byte list \<Rightarrow> 32 word" where
  "parse_cchh_cylinder cchh =
     (let cyl_low = (push_bit 8 (ucast (cchh ! 0)) OR ucast (cchh ! 1)) :: 16 word;
          cyl_high = (push_bit 4 (ucast (cchh ! 2)) OR ucast (drop_bit 4 (cchh ! 3))) AND 0x0FFF :: 16 word
      in push_bit 16 (ucast cyl_high) OR ucast cyl_low)"

definition TRACKS_PER_CYLINDER :: int where "TRACKS_PER_CYLINDER = 15"

definition get_bytes_per_track :: "16 word \<Rightarrow> int" where
  "get_bytes_per_track dt = (if dt = 0x3380 then 47476 else if dt = 0x9345 then 46456 else 56664)"

definition extent_head :: "byte \<Rightarrow> 32 word" where
  "extent_head b = ucast (b AND 0x0F)"

text \<open>The sum is computed in unsigned 32-bit arithmetic and returned as an \<open>int\<close>.\<close>

definition calculate_extent_tracks :: "byte list \<Rightarrow> int" where
  "calculate_extent_tracks extent =
     (let lower_cyl = parse_cchh_cylinder (drop 2 extent); upper_cyl = parse_cchh_cylinder (drop 6 extent);
          lower_head = extent_head (extent ! 5); upper_head = extent_head (extent ! 9)
      in if upper_cyl < lower_cyl then 0
         else sint ((upper_cyl - lower_cyl) * of_int TRACKS_PER_CYLINDER + (upper_head - lower_head) + 1))"

definition nth_extent :: "dscb1 \<Rightarrow> nat \<Rightarrow> byte list" where
  "nth_extent d i = drop (10 * i) (ds1exnts d)"

section \<open>Space\<close>

definition space_type :: "dscb1 \<Rightarrow> byte" where
  "space_type d = drop_bit 6 (ds1scalo d ! 0 AND 0xC0)"

definition load_spacu_from_dscb :: "dscb1 \<Rightarrow> zds_entry \<Rightarrow> zds_entry" where
  "load_spacu_from_dscb d entry =
     (let scal1 = ds1scalo d ! 0; dspac = space_type d; scxtf = ds1scext d ! 0
      in entry\<lparr> spacu :=
           if dspac = 3 then ''CYLINDERS''
           else if dspac = 2 then (if scal1 AND 0x10 \<noteq> 0 then ''BYTES'' else ''TRACKS'')
           else if dspac = 1 then ''BLOCKS''
           else if scal1 AND 0x20 \<noteq> 0
           then (if scxtf AND 0x40 \<noteq> 0 then ''MEGABYTES'' else if scxtf AND 0x20 \<noteq> 0 then ''KILOBYTES''
                 else if scxtf AND 0x10 \<noteq> 0 then ''BYTES'' else ''TRACKS'')
           else ''BYTES'' \<rparr>)"

text \<open>The difference of the cylinders is computed in unsigned arithmetic.\<close>

definition load_primary_secondary_from_dscb :: "dscb1 \<Rightarrow> zds_entry \<Rightarrow> zds_entry" where
  "load_primary_secondary_from_dscb d entry =
     (let first_extent = nth_extent d 0;
          scal3 = uint (ds1scalo d ! 1) * 65536 + uint (ds1scalo d ! 2) * 256 + uint (ds1scalo d ! 3);
          prim = (if ds1noepv d > 0
                  then (if space_type d = 3
                        then uint (parse_cchh_cylinder (drop 6 first_extent) - parse_cchh_cylinder (drop 2 first_extent) + 1)
                        else calculate_extent_tracks first_extent)
                  else 0);
          scxtf = ds1scext d ! 0; scxtv = be16 (drop 1 (ds1scext d));
          secd = (if spacu entry = ''BYTES''
                  then (if scxtf AND 0x08 \<noteq> 0 then scxtv * 256 else if scxtf AND 0x04 \<noteq> 0 then scxtv * 65536 else scxtv)
                  else scal3)
      in entry\<lparr> primary := prim, secondary := secd \<rparr>)"

definition load_general_attrs_from_dscb :: "dscb1 \<Rightarrow> zds_entry \<Rightarrow> zds_entry" where
  "load_general_attrs_from_dscb d entry =
     (let e1 = load_spacu_from_dscb d (entry\<lparr> dsorg := load_dsorg_from_dscb d (dsorg entry) \<rparr>);
          e2 = (if ds1dsorg d AND DS1ACBM_MASK \<noteq> 0
                then e1\<lparr> blksize := - 1, lrecl := - 1, e_recfm := [] \<rparr>
                else e1\<lparr> e_recfm := load_recfm_from_dscb d (e_recfm e1), blksize := be16 (ds1blkl d), lrecl := be16 (ds1lrecl d) \<rparr>);
          is_partitioned = (ds1dsorg d AND DS1DSGPO_MASK \<noteq> 0);
          is_pdse = (ds1smsfg d AND DS1PDSE_MASK \<noteq> 0);
          e3 = e2\<lparr> dsntype := if is_partitioned \<and> is_pdse then ''LIBRARY'' else if is_partitioned then ''PDS'' else [],
                   encrypted := (ds1flag1 d AND DS1ENCRP_MASK \<noteq> 0) \<rparr>
      in load_primary_secondary_from_dscb d e3)"

text \<open>The loop over the three extents of the block: the totals in cylinders and in tracks.\<close>

fun sum_extents :: "dscb1 \<Rightarrow> nat list \<Rightarrow> int \<times> int \<Rightarrow> int \<times> int" where
  "sum_extents d [] totals = totals"
| "sum_extents d (i # is) (total_cylinders, total_tracks) =
     (let extent = nth_extent d i; lower_cyl = parse_cchh_cylinder (drop 2 extent); upper_cyl = parse_cchh_cylinder (drop 6 extent)
      in if extent ! 0 = 0 then (total_cylinders, total_tracks)
         else sum_extents d is
                (if lower_cyl \<le> upper_cyl
                 then (total_cylinders + sint (upper_cyl - lower_cyl + 1), total_tracks + calculate_extent_tracks extent)
                 else (total_cylinders, total_tracks)))"

definition base_bytes_per_track :: "zds_entry \<Rightarrow> int" where
  "base_bytes_per_track entry =
     (let blocks_per_track = get_bytes_per_track (devtype entry) div blksize entry
      in (if blocks_per_track \<le> 0 then 1 else blocks_per_track) * blksize entry)"

definition load_alloc_attrs_from_dscb :: "dscb1 \<Rightarrow> zds_entry \<Rightarrow> zds_entry" where
  "load_alloc_attrs_from_dscb d entry =
     (let (total_cylinders, total_tracks) = sum_extents d [0, 1, 2] (0, 0);
          e1 = entry\<lparr> allocx := uint (ds1noepv d),
                      alloc := if space_type d = 3 then total_cylinders else total_tracks \<rparr>
      in if spacu e1 = ''BYTES'' \<and> 0 < blksize e1
         then e1\<lparr> alloc := if 0 < alloc e1 then alloc e1 * base_bytes_per_track e1 else alloc e1,
                  primary := if 0 < primary e1 then primary e1 * base_bytes_per_track e1 else primary e1 \<rparr>
         else e1)"

text \<open>The extent that holds the last used track, or 0 when the three extents do not reach it. The track
  is unsigned, so the total is compared as an unsigned number.\<close>

fun used_extents :: "dscb1 \<Rightarrow> int \<Rightarrow> nat list \<Rightarrow> int \<Rightarrow> int" where
  "used_extents d last_used_track [] cumulative_tracks = 0"
| "used_extents d last_used_track (i # is) cumulative_tracks =
     (let extent = nth_extent d i; cumulative' = cumulative_tracks + calculate_extent_tracks extent
      in if extent ! 0 = 0 then 0
         else if last_used_track \<le> uint (word_of_int cumulative' :: 32 word) then int i + 1
         else used_extents d last_used_track is cumulative')"

definition last_used_track :: "dscb1 \<Rightarrow> int" where
  "last_used_track d =
     be16 (ds1lstar d) + (if ds1flag1 d AND 0x10 \<noteq> 0 then uint (ds1ttthi d) * 65536 else 0)"

text \<open>
  The percentage is a double quotient cut to an \<open>int\<close>. The dividend is below \<open>2 ^ 31\<close>, so rounding
  the quotient cannot reach the next integer, and integer division is exact here. C divides towards
  zero; the operands are positive where it is used.
\<close>

definition load_used_attrs_from_dscb :: "dscb1 \<Rightarrow> zds_entry \<Rightarrow> zds_entry" where
  "load_used_attrs_from_dscb d entry =
     (if ds1dsorg d AND DS1DSGDA_MASK \<noteq> 0 \<or> ds1dsorg d AND DS1ACBM_MASK \<noteq> 0 \<or> ds1smsfg d AND DS1PDSE_MASK \<noteq> 0
      then entry\<lparr> usedp := - 1, usedx := - 1 \<rparr>
      else let last_used = last_used_track d
           in if last_used = 0 \<and> blksize entry = 0 then entry\<lparr> usedp := 0, usedx := 0 \<rparr>
              else let used = last_used + 1;
                       e1 = entry\<lparr> usedp := used, usedx := used_extents d last_used [0, 1, 2] 0 \<rparr>
                   in if 0 < alloc e1
                      then let alloc_value =
                             (if spacu e1 = ''BYTES'' \<and> 0 < blksize e1 then alloc e1 div base_bytes_per_track e1
                              else if space_type d = 3 then alloc e1 * TRACKS_PER_CYLINDER else alloc e1);
                               percentage = (100 * used) div alloc_value
                           in e1\<lparr> usedp := if 100 < percentage then 100 else percentage \<rparr>
                      else e1\<lparr> usedp := - 1 \<rparr>)"

definition load_date_attrs_from_dscb :: "dscb1 \<Rightarrow> zds_entry \<Rightarrow> zds_entry" where
  "load_date_attrs_from_dscb d entry =
     entry\<lparr> cdate := load_date_from_dscb (ds1credt d) False, edate := load_date_from_dscb (ds1expdt d) True,
            rdate := load_date_from_dscb (ds1refd d) False \<rparr>"

text \<open>\<open>zds_get_attrs_from_dscb\<close>, with the answer of \<open>ZDSDSCB1\<close> as an option.\<close>

definition zds_get_attrs_from_dscb :: "dscb1 option \<Rightarrow> zds_entry \<Rightarrow> zds_entry" where
  "zds_get_attrs_from_dscb answer entry =
     (case answer of
        Some d \<Rightarrow>
          load_date_attrs_from_dscb d (load_used_attrs_from_dscb d
            (load_alloc_attrs_from_dscb d (load_general_attrs_from_dscb d entry)))
      | None \<Rightarrow> entry\<lparr> alloc := - 1, allocx := - 1, blksize := - 1, lrecl := - 1, primary := - 1, secondary := - 1,
                       usedp := - 1, usedx := - 1 \<rparr>)"

end
