(* ===== verification/Zds_Dscb_Props.thy ===== *)
theory Zds_Dscb_Props
  imports Zds_Dscb
begin

text \<open>
  Properties of the attributes: dates name the day they count to, with the exception of one day; extents
  count their tracks; used space stays within its bounds.
\<close>

unbundle bit_operations_syntax

section \<open>Dates\<close>

definition month_days :: "bool \<Rightarrow> nat \<Rightarrow> int" where
  "month_days leap m = (if m = 2 \<and> leap then 29 else days_in_month ! (m - 1))"

text \<open>The days of the year before month \<open>m\<close>.\<close>

fun days_before :: "bool \<Rightarrow> nat \<Rightarrow> int" where
  "days_before leap 0 = 0"
| "days_before leap (Suc 0) = 0"
| "days_before leap (Suc (Suc m)) = days_before leap (Suc m) + month_days leap (Suc m)"

lemma month_days_positive: "m \<in> {1..12} \<Longrightarrow> 0 < month_days leap m"
proof -
  have "\<forall>m \<in> set [1..<13]. 0 < days_in_month ! (m - 1)" by code_simp
  moreover assume "m \<in> {1..12}"
  then have "m \<in> set [1..<13]" by auto
  ultimately show ?thesis by (simp add: month_days_def)
qed

lemma month_loop_spec:
  assumes "i \<le> 12" and "month = int i + 1"
    and "0 < day \<or> (leap \<and> i = 2 \<and> day = 0)"
  shows "\<exists>m d. month_loop leap i month day = (int m, d) \<and> Suc i \<le> m \<and> m \<le> 13 \<and>
    days_before leap m + d = days_before leap (Suc i) + day \<and> (m \<le> 12 \<longrightarrow> d \<le> days_in_month ! (m - 1)) \<and>
    (0 < d \<or> leap \<and> m = 3 \<and> d = 0)"
  using assms
proof (induction "12 - i" arbitrary: i month day)
  case 0
  then have "i = 12" by simp
  then show ?case using 0 by (subst month_loop.simps) (auto intro!: exI [of _ 13])
next
  case (Suc k)
  then have i: "i < 12" by simp
  let ?d = "if i = 1 \<and> leap then 29 else days_in_month ! i"
  show ?case
  proof (cases "days_in_month ! i < day")
    case False
    then have "month_loop leap i month day = (int (Suc i), day)" using Suc.prems by (subst month_loop.simps) simp
    then show ?thesis using False i Suc.prems by (intro exI [of _ "Suc i"] exI [of _ day]) auto
  next
    case True
    have step: "month_loop leap i month day = month_loop leap (Suc i) (month + 1) (day - ?d)"
      using True i by (subst month_loop.simps) simp
    have d: "month_days leap (Suc i) = ?d" by (simp add: month_days_def)
    have "0 < day - ?d \<or> (leap \<and> Suc i = 2 \<and> day - ?d = 0)"
      using True by (cases "i = 1 \<and> leap") (auto simp: days_in_month_def)
    then obtain m e where "month_loop leap (Suc i) (month + 1) (day - ?d) = (int m, e)" "Suc (Suc i) \<le> m" "m \<le> 13"
      "days_before leap m + e = days_before leap (Suc (Suc i)) + (day - ?d)" "m \<le> 12 \<longrightarrow> e \<le> days_in_month ! (m - 1)"
      "0 < e \<or> leap \<and> m = 3 \<and> e = 0"
      using Suc.hyps(1) [of "Suc i" "month + 1" "day - ?d"] Suc.hyps(2) Suc.prems i by force
    then show ?thesis unfolding step by (intro exI [of _ m] exI [of _ e]) (simp add: d)
  qed
qed

lemma days_in_year: "days_before leap 13 = (if leap then 366 else 365)"
  by (simp add: month_days_def days_in_month_def numeral_eq_Suc)

lemma february: "days_before leap 3 = (if leap then 60 else 59)"
  by (simp add: month_days_def days_in_month_def numeral_eq_Suc)

definition show_date :: "int \<Rightarrow> nat \<Rightarrow> int \<Rightarrow> string" where
  "show_date year m d = pad_zeros 4 (show_int year) @ ''/'' @ pad_zeros 2 (show_int (int m)) @ ''/'' @ pad_zeros 2 (show_int d)"

text \<open>A day count within its year is shown as the month and day it counts to, and as a date that
  exists, except for the last day of February in a leap year, which is shown as day 0 of March.\<close>

theorem date_names_day:
  assumes "n = uint day_high * 256 + uint day_low" and "year = 1900 + uint year_offset"
    and "1 \<le> n" and "n \<le> (if is_leap year then 366 else 365)"
  shows "\<exists>m d. load_date_from_dscb [year_offset, day_high, day_low] False = show_date year m d \<and>
    1 \<le> m \<and> m \<le> 12 \<and> days_before (is_leap year) m + d = n \<and>
    (1 \<le> d \<and> d \<le> month_days (is_leap year) m \<longleftrightarrow> \<not> (is_leap year \<and> n = 60))"
proof -
  let ?leap = "is_leap year"
  obtain m d where loop: "month_loop ?leap 0 1 n = (int m, d)" "1 \<le> m" "m \<le> 13" "days_before ?leap m + d = n"
    "m \<le> 12 \<longrightarrow> d \<le> days_in_month ! (m - 1)" "0 < d \<or> ?leap \<and> m = 3 \<and> d = 0"
    using month_loop_spec [of 0 1 n ?leap] assms(3) by auto
  have "m \<noteq> 13" using loop(4,6) assms(4) days_in_year [of ?leap] by auto
  with loop(3) have m: "m \<le> 12" by simp
  have days: "days_in_month ! (m - 1) \<le> month_days ?leap m"
    by (simp add: month_days_def days_in_month_def)
  have "?leap \<and> n = 60 \<longleftrightarrow> d = 0"
  proof
    assume sixty: "?leap \<and> n = 60"
    then have "month_loop ?leap 0 1 n = (3, 0)"
      by (simp add: month_loop.simps days_in_month_def)
    then show "d = 0" using loop(1) by simp
  qed (use loop(4,6) february [of ?leap] in auto)
  moreover have "load_date_from_dscb [year_offset, day_high, day_low] False = show_date year m d"
    using loop(1) assms(1-3) by (auto simp: load_date_from_dscb_def show_date_def Let_def)
  ultimately show ?thesis using loop m days by (intro exI [of _ m] exI [of _ d]) auto
qed

theorem date_names_day_witness:
  "\<exists>m d. load_date_from_dscb [124, 0, 60] False = show_date 2024 m d \<and> 1 \<le> m \<and> m \<le> 12 \<and>
     days_before (is_leap 2024) m + d = 60 \<and> \<not> (1 \<le> d \<and> d \<le> month_days (is_leap 2024) m)"
  using date_names_day [of 60 0 60 2024 124] by (simp add: is_leap_def)

section \<open>Extents\<close>

text \<open>A track address: 28 bits of cylinder, the high ones in the second halfword, and 4 of head.\<close>

definition cylinder :: "byte list \<Rightarrow> int" where
  "cylinder a = (uint (a ! 2) * 16 + uint (a ! 3) div 16) * 65536 + uint (a ! 0) * 256 + uint (a ! 1)"

definition track_number :: "byte list \<Rightarrow> int" where
  "track_number a = cylinder a * 15 + uint (a ! 3) mod 16"

lemma byte_bounds: "0 \<le> uint (b :: byte)" "uint (b :: byte) < 256"
  using unsigned_less [of b, where ?'a = int] by simp_all

lemma or_halves:
  fixes a b :: "'a::len word"
  assumes "uint a mod 2 ^ n = 0" and "uint b < 2 ^ n"
  shows "uint (a OR b) = uint a + uint b"
proof -
  have "take_bit n (uint a) = 0" "take_bit n (uint b) = uint b"
    using assms by (simp_all add: take_bit_eq_mod take_bit_int_eq_self)
  then have "\<not> (bit (uint a) i \<and> bit (uint b) i)" for i
    by (metis bit_0 bit_take_bit_iff linorder_not_less bit_0_eq bot_apply bot_bool_def)
  then have "and (uint a) (uint b) = 0" by (intro bit_eqI) (auto simp: bit_and_iff)
  then show ?thesis by (simp add: unsigned_or_eq disjunctive_add_eq_or)
qed

lemma uint_push:
  fixes b :: byte
  shows "uint (push_bit n (ucast b) :: 'a::len word) = take_bit LENGTH('a) (uint b * 2 ^ n)"
  by (simp add: unsigned_push_bit_eq unsigned_ucast_eq push_bit_eq_mult [of n "take_bit LENGTH('a) (uint b)"])
    (simp add: take_bit_eq_mod mod_mult_left_eq)

lemma uint_wide: "LENGTH('b) \<le> LENGTH('a) \<Longrightarrow> uint (ucast (b :: 'b::len word) :: 'a::len word) = uint b"
  by (simp add: unsigned_ucast_eq take_bit_int_eq_self order_less_le_trans [OF unsigned_less])

lemma join_halves:
  fixes hi lo :: "16 word"
  shows "uint (push_bit 16 (ucast hi) OR ucast lo :: 32 word) = uint hi * 65536 + uint lo"
proof -
  have lo: "uint lo < 65536" and hi: "0 \<le> uint hi" "uint hi < 65536"
    using unsigned_less [of lo, where ?'a = int] unsigned_less [of hi, where ?'a = int] by simp_all
  have "uint (push_bit 16 (ucast hi) :: 32 word) = take_bit 32 (push_bit 16 (uint hi))"
    by (simp add: unsigned_push_bit_eq uint_wide)
  also have "\<dots> = uint hi * 65536"
    using hi by (simp add: push_bit_eq_mult [of 16 "uint hi"] take_bit_int_eq_self)
  finally have high: "uint (push_bit 16 (ucast hi) :: 32 word) = uint hi * 65536" .
  have "uint (push_bit 16 (ucast hi) OR ucast lo :: 32 word) = uint (push_bit 16 (ucast hi) :: 32 word) + uint (ucast lo :: 32 word)"
  proof (rule or_halves)
    show "uint (push_bit 16 (ucast hi) :: 32 word) mod 2 ^ 16 = 0" by (simp only: high) simp
    show "uint (ucast lo :: 32 word) < 2 ^ 16" using lo by (simp add: uint_wide)
  qed
  then show ?thesis by (simp only: high) (simp add: uint_wide)
qed

lemma cylinder_parsed: "uint (parse_cchh_cylinder a) = cylinder a"
proof -
  note b = byte_bounds [of "a ! 0"] byte_bounds [of "a ! 1"] byte_bounds [of "a ! 2"] byte_bounds [of "a ! 3"]
  have low: "uint (push_bit 8 (ucast (a ! 0)) OR ucast (a ! 1) :: 16 word) = uint (a ! 0) * 256 + uint (a ! 1)"
    using b by (subst or_halves [of _ 8]) (simp_all add: uint_push uint_wide take_bit_eq_mod)
  have drop: "uint (drop_bit 4 (a ! 3)) = uint (a ! 3) div 16"
    using b by (simp add: unsigned_drop_bit_eq drop_bit_eq_div [of 4 "uint (a ! 3)"] take_bit_eq_mod)
  have high: "uint ((push_bit 4 (ucast (a ! 2)) OR ucast (drop_bit 4 (a ! 3))) AND 0x0FFF :: 16 word) = uint (a ! 2) * 16 + uint (a ! 3) div 16"
  proof -
    have "uint (push_bit 4 (ucast (a ! 2)) OR ucast (drop_bit 4 (a ! 3)) :: 16 word) = uint (a ! 2) * 16 + uint (a ! 3) div 16"
      using b by (subst or_halves [of _ 4]) (simp_all add: uint_push uint_wide take_bit_eq_mod drop)
    moreover have "uint (0x0FFF :: 16 word) = mask 12" by (simp add: mask_eq_exp_minus_1)
    moreover have "take_bit 12 (uint (a ! 2) * 16 + uint (a ! 3) div 16) = uint (a ! 2) * 16 + uint (a ! 3) div 16"
    proof (rule take_bit_int_eq_self)
      show "0 \<le> uint (a ! 2) * 16 + uint (a ! 3) div 16" using b by linarith
      have "uint (a ! 2) * 16 + uint (a ! 3) div 16 < 4096" using b by linarith
      then show "uint (a ! 2) * 16 + uint (a ! 3) div 16 < 2 ^ 12" by simp
    qed
    ultimately show ?thesis by (simp only: unsigned_and_eq flip: take_bit_eq_mask)
  qed
  show ?thesis unfolding parse_cchh_cylinder_def cylinder_def Let_def
    by (simp only: join_halves low high)
qed

lemma head_value: "uint (extent_head b) = uint b mod 16"
proof -
  have "(mask 4 :: int) = 15" by (simp add: mask_eq_exp_minus_1)
  then have "uint b AND 15 = uint b mod 16" using take_bit_eq_mask [of 4 "uint b"] by (simp add: take_bit_eq_mod)
  then show ?thesis by (simp add: extent_head_def uint_wide unsigned_and_eq)
qed

text \<open>An extent whose last cylinder is not before its first counts the tracks from its first address
  to its last, both included.\<close>

theorem extent_counts_tracks:
  assumes "lower = drop 2 extent" and "upper = drop 6 extent" and "10 \<le> length extent"
    and "cylinder lower \<le> cylinder upper" and "\<bar>track_number upper - track_number lower + 1\<bar> < 2 ^ 31"
  shows "calculate_extent_tracks extent = track_number upper - track_number lower + 1"
proof -
  have heads: "extent ! 5 = lower ! 3" "extent ! 9 = upper ! 3" using assms(1-3) by simp_all
  have order: "\<not> parse_cchh_cylinder upper < parse_cchh_cylinder lower"
    using assms(4) by (simp add: word_less_def cylinder_parsed)
  let ?w = "(parse_cchh_cylinder upper - parse_cchh_cylinder lower) * of_int TRACKS_PER_CYLINDER
    + (extent_head (upper ! 3) - extent_head (lower ! 3)) + 1"
  let ?n = "track_number upper - track_number lower + 1"
  have "?w = word_of_int ((cylinder upper - cylinder lower) * 15 + (uint (upper ! 3) mod 16 - uint (lower ! 3) mod 16) + 1)"
    by (simp add: TRACKS_PER_CYLINDER_def wi_hom_syms flip: cylinder_parsed head_value)
  also have "\<dots> = word_of_int ?n" by (simp add: track_number_def algebra_simps)
  finally have "sint ?w = signed_take_bit 31 ?n" by (simp only: signed_of_int) simp
  also have "\<dots> = ?n" using assms(5) by (intro signed_take_bit_int_eq_self) simp_all
  finally have "sint ?w = ?n" .
  then show ?thesis using order assms(1,2) heads by (simp add: calculate_extent_tracks_def)
qed

theorem extent_counts_tracks_witness:
  "calculate_extent_tracks [1, 0, 0, 2, 0, 5, 0, 3, 0, 4] = track_number [0, 3, 0, 4] - track_number [0, 2, 0, 5] + 1"
  using extent_counts_tracks [of "[0, 2, 0, 5, 0, 3, 0, 4]" "[1, 0, 0, 2, 0, 5, 0, 3, 0, 4]" "[0, 3, 0, 4]"]
  by (simp add: cylinder_def track_number_def)

section \<open>Space\<close>

definition used_share :: "zds_entry \<Rightarrow> bool" where
  "used_share e \<longleftrightarrow> - 1 \<le> usedp e \<and> usedp e \<le> 100 \<and> - 1 \<le> usedx e \<and> usedx e \<le> 3"

lemma used_extents_bounds:
  "\<forall>i \<in> set is. i < 3 \<Longrightarrow> 0 \<le> used_extents d t is c \<and> used_extents d t is c \<le> 3"
  by (induction d t "is" c rule: used_extents.induct) (auto simp: Let_def)

lemma last_used_track_nonneg: "0 \<le> last_used_track d"
  by (simp add: last_used_track_def be16_def)

lemma div_nonneg: "0 \<le> a \<Longrightarrow> 0 \<le> b \<Longrightarrow> 0 \<le> a div (b :: int)"
  by (cases "b = 0") (simp_all add: pos_imp_zdiv_nonneg_iff)

lemma load_used_bounds: "used_share (load_used_attrs_from_dscb d e)"
proof -
  note bounds = used_extents_bounds [of "[0, 1, 2]" d "last_used_track d" 0] last_used_track_nonneg [of d]
  have percent: "- 1 \<le> (100 * last_used_track d + 100) div k" if "0 \<le> k" for k
  proof -
    have "0 \<le> (100 * last_used_track d + 100) div k" using that bounds by (intro div_nonneg) simp_all
    then show ?thesis by linarith
  qed
  have tracks: "0 \<le> alloc e div base_bytes_per_track f" if "0 < alloc e" and "0 < blksize f" for f
    using that by (intro div_nonneg) (simp_all add: base_bytes_per_track_def Let_def)
  show ?thesis using bounds
    by (auto simp: used_share_def load_used_attrs_from_dscb_def Let_def TRACKS_PER_CYLINDER_def
        intro!: percent tracks simp del: used_extents.simps)
qed

text \<open>C30. Whatever the volume answers, the share of used space lies between 0 and 100 percent, or is -1 for
  unknown, and the used extents between 0 and 3, or -1.\<close>

theorem used_space_bounds: "used_share (zds_get_attrs_from_dscb answer entry)"
proof (cases answer)
  case None
  then show ?thesis by (simp add: zds_get_attrs_from_dscb_def used_share_def)
next
  case (Some d)
  have "used_share (load_date_attrs_from_dscb d e) = used_share e" for e
    by (simp add: load_date_attrs_from_dscb_def used_share_def)
  then show ?thesis using Some load_used_bounds by (simp add: zds_get_attrs_from_dscb_def)
qed

text \<open>Track numbers count from 0: when the first extent is exactly full and one more track of the next
  extent is used, one extent is still reported.\<close>

lemma first_track_of_next_extent:
  assumes "nth_extent d 0 ! 0 \<noteq> 0" and "t = calculate_extent_tracks (nth_extent d 0)" and "0 \<le> t" and "t < 2 ^ 32"
  shows "used_extents d t [0, 1, 2] 0 = 1"
  using assms by (simp add: Let_def uint_word_of_int_eq take_bit_int_eq_self)

text \<open>A record format of spanned undefined blocks gets the \<open>S\<close>, which the test before it means to suppress.\<close>

lemma undefined_blocked_spanned: "ds1recfm d = 0xD8 \<Longrightarrow> load_recfm_from_dscb d r = ''UBS''"
  by (simp add: load_recfm_from_dscb_def)

end
