(* ===== verification/Zds_Members.thy ===== *)
theory Zds_Members
  imports Zds_Dscb Zds_Write
begin

text \<open>
  The members of a partitioned data set (\<open>zds.cpp\<close>): the blocks of its directory, the entries in them
  and the ISPF statistics that an entry carries.
\<close>

unbundle bit_operations_syntax

section \<open>Members and statistics\<close>

record zds_mem =
  m_name :: string
  m_vers :: int
  m_mod :: int
  m_c4date :: string
  m_m4date :: string
  m_mtime :: string
  m_cnorc :: int
  m_inorc :: int
  m_mnorc :: int
  m_user :: string
  m_sclm :: bool
  m_stats_valid :: bool

definition zds_mem_init :: zds_mem where
  "zds_mem_init = \<lparr> m_name = [], m_vers = 0, m_mod = 0, m_c4date = [], m_m4date = [], m_mtime = [], m_cnorc = 0,
     m_inorc = 0, m_mnorc = 0, m_user = [], m_sclm = False, m_stats_valid = False \<rparr>"

text \<open>The fields of \<open>ISPF_STATS\<close>, by their offsets in the user data; a count of lines is a \<open>short\<close>.\<close>

definition ispf_version :: "byte list \<Rightarrow> byte" where "ispf_version u = u ! 0"
definition ispf_level :: "byte list \<Rightarrow> byte" where "ispf_level u = u ! 1"
definition ispf_flags :: "byte list \<Rightarrow> byte" where "ispf_flags u = u ! 2"
definition ispf_created :: "byte list \<Rightarrow> byte list" where "ispf_created u = take 4 (drop 4 u)"
definition ispf_modified :: "byte list \<Rightarrow> byte list" where "ispf_modified u = take 4 (drop 8 u)"
definition ispf_extended :: "byte list \<Rightarrow> byte list" where "ispf_extended u = take 2 (drop 28 u)"

definition signed_half :: "byte list \<Rightarrow> int" where
  "signed_half bs = (if 2 ^ 15 \<le> be16 bs then be16 bs - 2 ^ 16 else be16 bs)"

text \<open>Text of a buffer: the bytes up to a NUL.\<close>

definition buffer_text :: "byte list \<Rightarrow> string" where
  "buffer_text bs = map unebcdic (takeWhile (\<lambda>b. b \<noteq> 0) bs)"

definition sizeof_ISPF_STATS :: nat where "sizeof_ISPF_STATS = 30"

definition is_valid_ispf_stats :: "byte list \<Rightarrow> nat \<Rightarrow> bool" where
  "is_valid_ispf_stats stats user_data_len =
     (let is_extended = (ispf_flags stats AND 0x20 \<noteq> 0)
      in if 0x01 < ispf_created stats ! 0 \<or> 0x01 < ispf_modified stats ! 0 then False
         else \<not> is_extended \<and> user_data_len = 30 \<and> ispf_extended stats = [ebcdic SPACE, ebcdic SPACE]
           \<or> is_extended \<and> user_data_len = 40)"

text \<open>The text \<open>zut_convert_date\<close> leaves, from the answer of \<open>ZUTCVTD\<close>.\<close>

definition zut_convert_date :: "(byte list \<Rightarrow> string option) \<Rightarrow> byte list \<Rightarrow> string" where
  "zut_convert_date ZUTCVTD date = (case ZUTCVTD date of Some s \<Rightarrow> s | None \<Rightarrow> [])"

definition load_stats :: "(byte list \<Rightarrow> string option) \<Rightarrow> byte list \<Rightarrow> nat \<Rightarrow> zds_mem \<Rightarrow> zds_mem" where
  "load_stats ZUTCVTD stats user_data_len mem =
     (if is_valid_ispf_stats stats user_data_len
      then mem\<lparr> m_stats_valid := True, m_vers := uint (ispf_version stats), m_mod := uint (ispf_level stats),
             m_sclm := (ispf_flags stats AND 0x80 \<noteq> 0),
             m_c4date := zut_convert_date ZUTCVTD (ispf_created stats),
             m_m4date := zut_convert_date ZUTCVTD (ispf_modified stats),
             m_mtime := parse_packed_time (stats ! 12) (stats ! 13) (stats ! 3),
             m_cnorc := signed_half (drop 14 stats), m_inorc := signed_half (drop 16 stats),
             m_mnorc := signed_half (drop 18 stats), m_user := buffer_text (take 8 (drop 20 stats)) \<rparr>
      else mem\<lparr> m_stats_valid := False \<rparr>)"

section \<open>A directory block\<close>

definition RECLEN :: nat where "RECLEN = 254"
definition sizeof_RECORD_ENTRY :: nat where "sizeof_RECORD_ENTRY = 12"

text \<open>The name ends at its first blank, because every blank is replaced by a NUL.\<close>

definition entry_name :: "byte list \<Rightarrow> string" where
  "entry_name bs = map unebcdic (takeWhile (\<lambda>b. b \<noteq> 0 \<and> b \<noteq> ebcdic SPACE) (take 8 bs))"

record list_options =
  lo_max_entries :: int
  lo_pattern :: string
  lo_show_attributes :: bool
  lo_ZUTCVTD :: "byte list \<Rightarrow> string option"

text \<open>A pattern that is empty matches; matching is given as an option because it is a loop.\<close>

definition selects :: "list_options \<Rightarrow> string \<Rightarrow> bool option" where
  "selects lo name = (if lo_pattern lo = [] then Some True else is_match name (map toupper (lo_pattern lo)))"

definition member_of_entry :: "list_options \<Rightarrow> nat \<Rightarrow> byte list \<Rightarrow> nat \<Rightarrow> zds_mem" where
  "member_of_entry lo count block i =
     (let entry = drop i block;
          user_data_len = unat (entry ! 11 AND 0x1F) * 2;
          mem = zds_mem_init\<lparr> m_name := entry_name entry \<rparr>
      in if lo_show_attributes lo \<and> sizeof_ISPF_STATS \<le> user_data_len
           \<and> i + sizeof_RECORD_ENTRY + user_data_len \<le> count
         then load_stats (lo_ZUTCVTD lo) (drop sizeof_RECORD_ENTRY entry) user_data_len mem
         else mem)"

datatype dir_result =
    Dir_more int "zds_mem list"
  | Dir_maxed "zds_mem list"

text \<open>The loop over the entries of a block, from offset \<open>i\<close>.\<close>

function dir_entries :: "list_options \<Rightarrow> nat \<Rightarrow> byte list \<Rightarrow> nat \<Rightarrow> int \<Rightarrow> zds_mem list \<Rightarrow> dir_result option" where
  "dir_entries lo count block i total_entries members =
     (if count \<le> i then Some (Dir_more total_entries members)
      else if count < i + sizeof_RECORD_ENTRY then Some (Dir_more total_entries members)
      else if take 8 (drop i block) = replicate 8 0xFF then Some (Dir_more total_entries members)
      else let len = sizeof_RECORD_ENTRY + unat (block ! (i + 11) AND 0x1F) * 2
           in case selects lo (entry_name (drop i block)) of
                None \<Rightarrow> None
              | Some selected \<Rightarrow>
                  if selected \<and> lo_max_entries lo < total_entries + 1 then Some (Dir_maxed members)
                  else let total' = (if selected then total_entries + 1 else total_entries);
                           members' = (if selected then members @ [member_of_entry lo count block i] else members)
                       in if i + len \<le> count \<and> count - (i + len) < sizeof_RECORD_ENTRY
                          then Some (Dir_more total' members')
                          else dir_entries lo count block (i + len) total' members')"
  by pat_completeness auto
termination by (relation "measure (\<lambda>(lo, count, block, i, total, members). count - i)") (auto simp: sizeof_RECORD_ENTRY_def)

declare dir_entries.simps [simp del]

section \<open>The directory\<close>

text \<open>
  The directory is opened with its name quoted; the answer is the blocks of 256 bytes that \<open>fread\<close>
  returns, or the error number, its text and the system code of the abend.
\<close>

record open_error =
  oe_errno :: int
  oe_strerror :: string
  oe_abend_code :: nat

definition EABEND :: int where "EABEND = 92"

definition format_03X :: "nat \<Rightarrow> string" where
  "format_03X n = pad_zeros 3 (map toupper (show_hex n))"

definition open_error_message :: "string \<Rightarrow> open_error \<Rightarrow> string" where
  "open_error_message dsn e =
     (let text = ''Could not list members for '' @ quoted_name dsn @ '': '' @ oe_strerror e @ '' (errno '' @ show_int (oe_errno e) @ '')''
      in if oe_errno e = EABEND
         then (if oe_abend_code e = 0x913
               then ''Insufficient permissions for opening data set '' @ quoted_name dsn @ '' (S913 abend)''
               else text @ '' abend code S'' @ format_03X (oe_abend_code e))
         else text)"

definition corrupt_message :: "string \<Rightarrow> nat \<Rightarrow> string" where
  "corrupt_message dsn count =
     ''Corrupt PDS directory block encountered for '' @ quoted_name dsn @ '': used-count '' @ show_nat count @
     '' exceeds '' @ show_nat RECLEN @ '' bytes; results may be incomplete''"

definition maxed_message :: "int \<Rightarrow> string" where
  "maxed_message max_entries = ''Reached maximum returned members requested '' @ show_int max_entries"

definition ZDS_RSNCD_MAXED_ENTRIES_REACHED :: int where "ZDS_RSNCD_MAXED_ENTRIES_REACHED = - 1"

text \<open>The loop over the blocks: the diagnostics, the members and the return code.\<close>

fun dir_blocks ::
    "list_options \<Rightarrow> string \<Rightarrow> zdiag \<Rightarrow> byte list list \<Rightarrow> bool \<Rightarrow> int \<Rightarrow> zds_mem list \<Rightarrow> (zdiag \<times> zds_mem list \<times> int) option" where
  "dir_blocks lo dsn d [] corrupt total_entries members =
     Some (d, members, if corrupt then RTNCD_WARNING else RTNCD_SUCCESS)"
| "dir_blocks lo dsn d (b # bs) corrupt total_entries members =
     (let used = nat (be16 b);
          over = RECLEN < used;
          d1 = (if over \<and> \<not> corrupt
                then (set_msg (corrupt_message dsn used) d)\<lparr> detail_rc := ZDS_RSNCD_TRUNCATION_WARNING \<rparr> else d)
      in case dir_entries lo (if over then RECLEN else used) (drop 2 b) 0 total_entries members of
           None \<Rightarrow> None
         | Some (Dir_maxed members') \<Rightarrow>
             Some ((set_msg (maxed_message (lo_max_entries lo)) d1)\<lparr> detail_rc := ZDS_RSNCD_MAXED_ENTRIES_REACHED \<rparr>,
                   members', RTNCD_WARNING)
         | Some (Dir_more total' members') \<Rightarrow> dir_blocks lo dsn d1 bs (corrupt \<or> over) total' members')"

definition ZDS_DEFAULT_MAX_MEMBER_ENTRIES :: int where "ZDS_DEFAULT_MAX_MEMBER_ENTRIES = 5000"

definition zds_list_members ::
    "(string \<Rightarrow> open_error + byte list list) \<Rightarrow> list_options \<Rightarrow> zdiag \<Rightarrow> string \<Rightarrow> zds_mem list \<Rightarrow> (zdiag \<times> zds_mem list \<times> int) option" where
  "zds_list_members fopen lo d dsn members =
     (let lo1 = (if lo_max_entries lo = 0 then lo\<lparr> lo_max_entries := ZDS_DEFAULT_MAX_MEMBER_ENTRIES \<rparr> else lo)
      in case fopen (''//'' @ quoted_name dsn) of
           Inl e \<Rightarrow> Some (set_msg (open_error_message dsn e) d, members, RTNCD_FAILURE)
         | Inr blocks \<Rightarrow> dir_blocks lo1 dsn d blocks False 0 members)"

end
