(* ===== verification/Zds_Members_Props.thy ===== *)
theory Zds_Members_Props
  imports Zds_Members Zds_Text_Props
begin

text \<open>
  The list of members is the selection of the directory's entries, in order and up to the limit, and
  the statistics that a new member is stored with are read back, with line counts as signed halfwords.
\<close>

unbundle bit_operations_syntax

section \<open>Entries of a directory\<close>

record dir_entry =
  de_name :: "byte list"
  de_ttr :: "byte list"
  de_info :: byte
  de_data :: "byte list"

definition entry_ok :: "dir_entry \<Rightarrow> bool" where
  "entry_ok e \<longleftrightarrow> length (de_name e) = 8 \<and> de_name e \<noteq> replicate 8 0xFF \<and> length (de_ttr e) = 3 \<and>
     length (de_data e) = unat (de_info e AND 0x1F) * 2"

definition entry_bytes :: "dir_entry \<Rightarrow> byte list" where
  "entry_bytes e = de_name e @ de_ttr e @ [de_info e] @ de_data e"

definition all_bytes :: "dir_entry list \<Rightarrow> byte list" where
  "all_bytes es = concat (map entry_bytes es)"

text \<open>The entries of a block, and after them the end of the used bytes, with or without the two bytes
  of the count, or the end marker.\<close>

definition block_holds :: "byte list \<Rightarrow> dir_entry list \<Rightarrow> bool" where
  "block_holds b es \<longleftrightarrow>
     (\<exists>tail. drop 2 b = all_bytes es @ tail \<and> (\<forall>e \<in> set es. entry_ok e) \<and> nat (be16 b) \<le> RECLEN \<and>
        length (all_bytes es) \<le> nat (be16 b) \<and>
        (nat (be16 b) < length (all_bytes es) + sizeof_RECORD_ENTRY \<or> take 8 tail = replicate 8 0xFF))"

definition listed :: "list_options \<Rightarrow> dir_entry \<Rightarrow> bool" where
  "listed lo e \<longleftrightarrow> lo_pattern lo = [] \<or> wildcard (map toupper (lo_pattern lo)) (entry_name (de_name e))"

definition listed_member :: "list_options \<Rightarrow> dir_entry \<Rightarrow> zds_mem" where
  "listed_member lo e =
     (let mem = zds_mem_init\<lparr> m_name := entry_name (de_name e) \<rparr>
      in if lo_show_attributes lo \<and> sizeof_ISPF_STATS \<le> length (de_data e)
         then load_stats (lo_ZUTCVTD lo) (de_data e) (length (de_data e)) mem else mem)"

definition plain_name :: "dir_entry \<Rightarrow> bool" where
  "plain_name e \<longleftrightarrow> CHR ''*'' \<notin> set (entry_name (de_name e))"

lemma length_entry_bytes: "entry_ok e \<Longrightarrow> length (entry_bytes e) = sizeof_RECORD_ENTRY + unat (de_info e AND 0x1F) * 2"
  by (simp add: entry_ok_def entry_bytes_def sizeof_RECORD_ENTRY_def)

lemma all_bytes_simps [simp]: "all_bytes [] = []" "all_bytes (e # es) = entry_bytes e @ all_bytes es"
  by (simp_all add: all_bytes_def)

lemma selects_listed: "plain_name e \<Longrightarrow> selects lo (entry_name (de_name e)) = Some (listed lo e)"
  by (simp add: selects_def listed_def plain_name_def is_match_wildcard)

text \<open>What the loop finds at the offset of an entry.\<close>

lemma entry_name_take: "entry_name (bs @ rest) = entry_name bs" if "length bs = 8"
  using that by (simp add: entry_name_def)

lemma load_stats_append:
  assumes "30 \<le> length u"
  shows "load_stats cv (u @ rest) l m = load_stats cv u l m"
proof -
  have "is_valid_ispf_stats (u @ rest) l = is_valid_ispf_stats u l"
    using assms by (simp add: is_valid_ispf_stats_def ispf_flags_def ispf_created_def ispf_modified_def ispf_extended_def nth_append)
  moreover have "signed_half (drop k (u @ rest)) = signed_half (drop k u)" if "k \<le> 18" for k
  proof -
    have "Suc 0 < length u - k" "k < length u" using assms that by linarith+
    then show ?thesis by (simp add: signed_half_def be16_def nth_append)
  qed
  moreover have "u \<noteq> []" using assms by auto
  ultimately show ?thesis
    using assms by (simp add: load_stats_def ispf_flags_def ispf_created_def ispf_modified_def ispf_version_def ispf_level_def nth_append)
qed

lemma at_entry:
  assumes "entry_ok e" and "block = pre @ entry_bytes e @ rest" and "i = length pre"
  shows "take 8 (drop i block) = de_name e" and "block ! (i + 11) = de_info e"
    and "entry_name (drop i block) = entry_name (de_name e)"
    and "drop (i + 12) block = de_data e @ rest"
    and "i + 12 + length (de_data e) \<le> count \<Longrightarrow> member_of_entry lo count block i = listed_member lo e"
proof -
  note e = assms(1) [unfolded entry_ok_def]
  have d: "drop i block = de_name e @ de_ttr e @ de_info e # de_data e @ rest"
    using assms(2,3) by (simp add: entry_bytes_def)
  show "take 8 (drop i block) = de_name e" using d e by simp
  show "block ! (i + 11) = de_info e" using assms(2,3) e by (simp add: entry_bytes_def nth_append)
  show n: "entry_name (drop i block) = entry_name (de_name e)" using d e by (simp add: entry_name_take)
  show data: "drop (i + 12) block = de_data e @ rest" using assms(2,3) e by (simp add: entry_bytes_def)
  show "member_of_entry lo count block i = listed_member lo e" if fits: "i + 12 + length (de_data e) \<le> count"
  proof -
    have info: "drop i block ! 11 = de_info e" using d e by (simp add: nth_append)
    have "drop 12 (drop i block) = de_data e @ rest" using data by (simp add: add.commute)
    then show ?thesis using fits e
      unfolding member_of_entry_def listed_member_def Let_def sizeof_RECORD_ENTRY_def info n
      by (simp add: load_stats_append sizeof_ISPF_STATS_def)
  qed
qed

section \<open>The list\<close>

definition dir_outcome :: "list_options \<Rightarrow> dir_entry list \<Rightarrow> int \<Rightarrow> zds_mem list \<Rightarrow> dir_result" where
  "dir_outcome lo es count0 members =
     (let found = map (listed_member lo) (filter (listed lo) es)
      in if count0 + int (length found) \<le> lo_max_entries lo then Dir_more (count0 + int (length found)) (members @ found)
         else Dir_maxed (members @ take (nat (lo_max_entries lo - count0)) found))"

lemma dir_entries_spec:
  assumes "\<forall>e \<in> set es. entry_ok e \<and> plain_name e" and "count0 \<le> lo_max_entries lo"
    and "block = pre @ all_bytes es @ tail" and "i = length pre" and "i + length (all_bytes es) \<le> count"
    and "count < i + length (all_bytes es) + sizeof_RECORD_ENTRY \<or> take 8 tail = replicate 8 0xFF"
  shows "dir_entries lo count block i count0 members = Some (dir_outcome lo es count0 members)"
  using assms
proof (induction es arbitrary: pre i count0 members)
  case Nil
  then show ?case by (subst dir_entries.simps) (auto simp: dir_outcome_def)
next
  case (Cons e es)
  note at = at_entry [of e block pre "all_bytes es @ tail" i]
  have e: "entry_ok e" and block: "block = pre @ entry_bytes e @ all_bytes es @ tail" using Cons.prems by simp_all
  let ?len = "sizeof_RECORD_ENTRY + unat (de_info e AND 0x1F) * 2"
  have len: "length (entry_bytes e) = ?len" by (rule length_entry_bytes [OF e])
  have fits: "i + ?len + length (all_bytes es) \<le> count" using Cons.prems(5) len by simp
  then have member: "member_of_entry lo count block i = listed_member lo e"
    using at(5) [OF e block Cons.prems(4), of count lo] e by (simp add: entry_ok_def sizeof_RECORD_ENTRY_def)
  let ?count = "if listed lo e then count0 + 1 else count0"
  let ?members = "if listed lo e then members @ [listed_member lo e] else members"
  have sel: "selects lo (entry_name (drop i block)) = Some (listed lo e)"
    using selects_listed [of e lo] at(3) [OF e block Cons.prems(4)] Cons.prems(1) by simp
  have step: "dir_entries lo count block i count0 members =
     (if listed lo e \<and> lo_max_entries lo < count0 + 1 then Some (Dir_maxed members)
      else if count - (i + ?len) < sizeof_RECORD_ENTRY then Some (Dir_more ?count ?members)
      else dir_entries lo count block (i + ?len) ?count ?members)"
    using fits sel member at(1,2) [OF e block Cons.prems(4)] e
    by (subst dir_entries.simps) (simp add: entry_ok_def sizeof_RECORD_ENTRY_def Let_def)
  show ?case
  proof (cases "listed lo e \<and> lo_max_entries lo < count0 + 1")
    case True
    then show ?thesis using step Cons.prems(2) by (simp add: dir_outcome_def)
  next
    case False
    then have bound: "?count \<le> lo_max_entries lo" using Cons.prems(2) by auto
    have outcome: "dir_outcome lo es ?count ?members = dir_outcome lo (e # es) count0 members"
      using bound by (auto simp: dir_outcome_def Let_def nat_diff_distrib' take_Cons' simp flip: diff_diff_eq)
    show ?thesis
    proof (cases "count - (i + ?len) < sizeof_RECORD_ENTRY")
      case small: True
      have "es = []"
      proof (rule ccontr)
        assume "es \<noteq> []"
        then obtain f fs where "es = f # fs" by (cases es) auto
        then have "sizeof_RECORD_ENTRY \<le> length (all_bytes es)" using Cons.prems(1) length_entry_bytes [of f] by simp
        then show False using small fits by simp
      qed
      then have "dir_outcome lo es ?count ?members = Dir_more ?count ?members" using bound by (simp add: dir_outcome_def)
      then show ?thesis unfolding outcome using False small by (simp only: step if_False if_True)
    next
      case large: False
      have "dir_entries lo count block (i + ?len) ?count ?members = Some (dir_outcome lo es ?count ?members)"
        by (rule Cons.IH [where pre = "pre @ entry_bytes e"]) (use Cons.prems bound len fits in auto)
      then show ?thesis unfolding outcome using False large by (simp only: step if_False)
    qed
  qed
qed

text \<open>What a directory of entries lists as, when no name contains an asterisk.\<close>

definition effective_max :: "list_options \<Rightarrow> int" where
  "effective_max lo = (if lo_max_entries lo = 0 then ZDS_DEFAULT_MAX_MEMBER_ENTRIES else lo_max_entries lo)"

definition maxed_diag :: "int \<Rightarrow> zdiag \<Rightarrow> zdiag" where
  "maxed_diag limit d = (set_msg (maxed_message limit) d)\<lparr> detail_rc := ZDS_RSNCD_MAXED_ENTRIES_REACHED \<rparr>"

lemma dir_blocks_spec:
  assumes "list_all2 block_holds blocks ess" and "\<forall>e \<in> set (concat ess). plain_name e"
    and "n \<le> lo_max_entries lo"
  shows "dir_blocks lo dsn d blocks False n members =
    Some (case dir_outcome lo (concat ess) n members of
        Dir_more n' members' \<Rightarrow> (d, members', RTNCD_SUCCESS)
      | Dir_maxed members' \<Rightarrow> (maxed_diag (lo_max_entries lo) d, members', RTNCD_WARNING))"
  using assms
proof (induction arbitrary: n members rule: list_all2_induct)
  case Nil
  then show ?case by (simp add: dir_outcome_def)
next
  case (Cons b blocks es ess)
  obtain tail where b: "drop 2 b = all_bytes es @ tail" "\<forall>e \<in> set es. entry_ok e" "nat (be16 b) \<le> RECLEN"
    "length (all_bytes es) \<le> nat (be16 b)"
    "nat (be16 b) < length (all_bytes es) + sizeof_RECORD_ENTRY \<or> take 8 tail = replicate 8 0xFF"
    using Cons.hyps(1) unfolding block_holds_def by blast
  have inner: "dir_entries lo (nat (be16 b)) (drop 2 b) 0 n members = Some (dir_outcome lo es n members)"
    by (rule dir_entries_spec [where pre = "[]" and tail = tail]) (use b Cons.prems in simp_all)
  let ?found = "map (listed_member lo) (filter (listed lo) es)"
  let ?rest = "map (listed_member lo) (filter (listed lo) (concat ess))"
  have whole: "dir_outcome lo (concat (es # ess)) n members =
      (if n + int (length ?found) \<le> lo_max_entries lo
       then dir_outcome lo (concat ess) (n + int (length ?found)) (members @ ?found)
       else Dir_maxed (members @ take (nat (lo_max_entries lo - n)) ?found))"
  proof -
    have "nat (m - n) - k = nat (m - (n + int k))" for m k by arith
    then show ?thesis by (auto simp: dir_outcome_def Let_def)
  qed
  show ?case
  proof (cases "n + int (length ?found) \<le> lo_max_entries lo")
    case True
    then have "dir_outcome lo es n members = Dir_more (n + int (length ?found)) (members @ ?found)"
      by (simp add: dir_outcome_def)
    then show ?thesis using inner b(3) True Cons.IH [of "n + int (length ?found)" "members @ ?found"] Cons.prems whole
      by (simp add: Let_def del: length_map)
  next
    case False
    then have "dir_outcome lo es n members = Dir_maxed (members @ take (nat (lo_max_entries lo - n)) ?found)"
      by (simp add: dir_outcome_def)
    then show ?thesis using inner b(3) False whole by (simp add: Let_def maxed_diag_def del: length_map)
  qed
qed

text \<open>C27. Listing a directory gives the entries that the pattern selects, in the order of the directory, with
  their statistics, and success; when there are more than the limit, the first ones and a warning.\<close>

theorem list_members_exact:
  assumes "list_all2 block_holds blocks ess" and "\<forall>e \<in> set (concat ess). plain_name e"
    and "found = map (listed_member lo) (filter (listed lo) (concat ess))" and "0 \<le> lo_max_entries lo"
  shows "zds_list_members (\<lambda>_. Inr blocks) lo d dsn [] =
    Some (if int (length found) \<le> effective_max lo then (d, found, RTNCD_SUCCESS)
          else (maxed_diag (effective_max lo) d, take (nat (effective_max lo)) found, RTNCD_WARNING))"
proof -
  let ?lo = "if lo_max_entries lo = 0 then lo\<lparr> lo_max_entries := ZDS_DEFAULT_MAX_MEMBER_ENTRIES \<rparr> else lo"
  have same: "listed ?lo = listed lo" "listed_member ?lo = listed_member lo" "lo_max_entries ?lo = effective_max lo"
    by (auto simp: listed_def listed_member_def effective_max_def Let_def fun_eq_iff)
  have "0 \<le> lo_max_entries ?lo" using assms(4) by (auto simp: ZDS_DEFAULT_MAX_MEMBER_ENTRIES_def)
  from dir_blocks_spec [OF assms(1,2) this, of dsn d "[]"] show ?thesis
    unfolding zds_list_members_def Let_def by (simp add: same dir_outcome_def assms(3) Let_def del: length_map)
qed

definition pad_name :: "string \<Rightarrow> byte list" where
  "pad_name s = map ebcdic (s @ replicate (8 - length s) SPACE)"

definition sample_directory :: "dir_entry list list" where
  "sample_directory =
     [[\<lparr> de_name = pad_name ''ALPHA'', de_ttr = [0, 0, 1], de_info = 0, de_data = [] \<rparr>,
       \<lparr> de_name = pad_name ''BETA'', de_ttr = [0, 0, 2], de_info = 1, de_data = [7, 7] \<rparr>],
      [\<lparr> de_name = pad_name ''GAMMA'', de_ttr = [0, 0, 3], de_info = 0, de_data = [] \<rparr>]]"

definition sample_block :: "dir_entry list \<Rightarrow> byte list \<Rightarrow> byte list" where
  "sample_block es tail = (let bs = all_bytes es @ tail in halfword (int (length bs)) @ bs @ replicate (RECLEN - length bs) 0)"

definition sample_options :: "int \<Rightarrow> list_options" where
  "sample_options limit = \<lparr> lo_max_entries = limit, lo_pattern = ''*a'', lo_show_attributes = True, lo_ZUTCVTD = (\<lambda>_. None) \<rparr>"

lemma be16_halfword: "be16 (halfword n @ bs) = n mod 65536"
proof -
  have "uint (word_of_int k :: byte) = k mod 256" for k
    by (simp add: unsigned_of_int take_bit_eq_mod)
  then show ?thesis using zmod_zmult2_eq [of 256 n 256] by (simp add: be16_def halfword_def)
qed

lemma drop_halfword: "drop 2 (halfword n @ bs) = bs"
  by (simp add: halfword_def)

lemma ebcdic_eq: "ebcdic c = ebcdic d \<longleftrightarrow> c = d"
  by (metis unebcdic_ebcdic)

lemma ebcdic_zero: "ebcdic c = 0 \<longleftrightarrow> c = CHR 0x00"
proof -
  have "ebcdic (CHR 0x00) = 0" by (simp add: ebcdic_def ebcdic_code_def ibm1047_def)
  then show ?thesis by (metis unebcdic_ebcdic)
qed

lemma length_pad_name [simp]: "length s \<le> 8 \<Longrightarrow> length (pad_name s) = 8"
  by (simp add: pad_name_def)

lemma entry_name_pad:
  assumes "length s \<le> 8" and "\<forall>c \<in> set s. c \<noteq> CHR 0x00 \<and> c \<noteq> SPACE"
  shows "entry_name (pad_name s) = s"
proof -
  have "takeWhile (\<lambda>c. c \<noteq> CHR 0x00 \<and> c \<noteq> SPACE) (s @ replicate n SPACE) = s" for n
    using assms(2) by (simp add: takeWhile_append takeWhile_replicate)
  then show ?thesis using assms(1)
    by (simp add: entry_name_def pad_name_def takeWhile_map comp_def ebcdic_eq ebcdic_zero flip: map_append map_replicate)
qed

lemma pad_name_not_end: "ebcdic c \<noteq> 0xFF \<Longrightarrow> pad_name (c # s) \<noteq> replicate 8 0xFF"
  using replicate_Suc [of 7 "0xFF :: byte"] by (simp add: pad_name_def numeral_eq_Suc)

lemma sample_codes: "ebcdic CHR ''A'' = 193" "ebcdic CHR ''B'' = 194" "ebcdic CHR ''G'' = 199"
  by (simp_all add: ebcdic_def ebcdic_code_def ibm1047_def)

lemma sample_block_holds:
  assumes "\<forall>e \<in> set es. entry_ok e" and "length (all_bytes es @ tail) \<le> RECLEN"
    and "tail = [] \<or> take 8 tail = replicate 8 0xFF"
  shows "block_holds (sample_block es tail) es"
  unfolding block_holds_def sample_block_def Let_def drop_halfword
  using assms by (intro exI [of _ "tail @ replicate (RECLEN - length (all_bytes es @ tail)) 0"])
    (auto simp: be16_halfword RECLEN_def sizeof_RECORD_ENTRY_def)

lemma sample_blocks:
  "list_all2 block_holds [sample_block (sample_directory ! 0) [], sample_block (sample_directory ! 1) (replicate 12 0xFF)] sample_directory"
proof -
  have "\<forall>e \<in> set (concat sample_directory). entry_ok e"
    by (simp add: sample_directory_def entry_ok_def pad_name_not_end sample_codes)
  then show ?thesis
    by (simp add: sample_directory_def sample_block_holds entry_bytes_def RECLEN_def)
qed

lemma sample_names: "e \<in> set (concat sample_directory) \<Longrightarrow> entry_name (de_name e) \<in> {''ALPHA'', ''BETA'', ''GAMMA''}"
  by (auto simp: sample_directory_def entry_name_pad)

lemma sample_listed: "listed (sample_options n) e" if "e \<in> set (concat sample_directory)"
proof -
  have "map toupper ''*a'' = ''*A''" by code_simp
  then show ?thesis using sample_names [OF that] by (auto simp: listed_def sample_options_def)
qed

theorem list_members_exact_witness:
  "map_option (\<lambda>(d, ms, rc). (map m_name ms, rc)) (zds_list_members
      (\<lambda>_. Inr [sample_block (sample_directory ! 0) [], sample_block (sample_directory ! 1) (replicate 12 0xFF)])
      (sample_options 2) zdiag_init ''IBMUSER.PDS'' []) = Some ([''ALPHA'', ''BETA''], RTNCD_WARNING)"
proof -
  have plain: "\<forall>e \<in> set (concat sample_directory). plain_name e"
    using sample_names by (fastforce simp: plain_name_def)
  have all: "filter (listed (sample_options 2)) (concat sample_directory) = concat sample_directory"
    using sample_listed by (simp add: filter_id_conv)
  have m: "m_name (listed_member (sample_options 2) e) = entry_name (de_name e)" for e
    by (simp add: listed_member_def load_stats_def zds_mem_init_def Let_def)
  have names: "map m_name (take 2 (map (listed_member (sample_options 2)) (concat sample_directory))) = [''ALPHA'', ''BETA'']"
    by (simp add: sample_directory_def m entry_name_pad)
  have "length (concat sample_directory) = 3" by (simp add: sample_directory_def)
  moreover have "lo_max_entries (sample_options 2) = 2" by (simp add: sample_options_def)
  moreover have "effective_max (sample_options 2) = 2" by (simp add: effective_max_def sample_options_def)
  ultimately show ?thesis
    using list_members_exact [OF sample_blocks plain refl, of "sample_options 2" zdiag_init "''IBMUSER.PDS''"] names
    by (simp add: all del: length_concat)
qed

section \<open>Statistics of a new member\<close>

lemma signed_half_halfword: "signed_half (halfword n @ bs) = sint (word_of_int n :: 16 word)"
proof -
  define r where "r = n mod 65536"
  have r: "0 \<le> r" "r < 65536" by (simp_all add: r_def)
  have "sint (word_of_int n :: 16 word) = (n + 32768) mod 65536 - 32768"
    by (simp add: signed_of_int signed_take_bit_eq_take_bit_shift take_bit_eq_mod)
  also have "(n + 32768) mod 65536 = (r + 32768) mod 65536" by (simp add: r_def mod_add_left_eq)
  also have "\<dots> = (if 32768 \<le> r then r - 32768 else r + 32768)"
  proof (cases "32768 \<le> r")
    case True
    have "(r + 32768) mod 65536 = (r - 32768 + 65536) mod 65536" by (simp add: algebra_simps)
    also have "\<dots> = r - 32768" using True r by (simp only: mod_add_self2) simp
    finally show ?thesis using True by simp
  qed (use r in simp)
  finally show ?thesis by (simp add: signed_half_def be16_halfword flip: r_def)
qed

text \<open>C29. The statistics that a new member is stored with are valid and read back: version 1, level 0, the user, and
  the number of lines as a signed halfword, which is the number written up to 32767 and wrong above.\<close>

theorem new_member_statistics:
  assumes "length user = 8" and "length date = 4" and "length time = 4" and "date ! 0 \<le> 1" and "0 \<le> lines"
    and "stats = initial_stats lines user time date (replicate 62 0)"
    and "mem = load_stats cv (take 30 stats) 30 zds_mem_init"
  shows "m_stats_valid mem \<and> m_vers mem = 1 \<and> m_mod mem = 0 \<and> m_user mem = buffer_text user \<and>
    m_c4date mem = zut_convert_date cv date \<and> m_m4date mem = zut_convert_date cv date \<and>
    m_cnorc mem = sint (word_of_int lines :: 16 word) \<and> (m_cnorc mem = lines \<longleftrightarrow> lines < 32768)"
proof -
  obtain d0 d1 d2 d3 where date: "date = [d0, d1, d2, d3]" using assms(2) by (auto simp: length_Suc_conv numeral_eq_Suc)
  obtain t0 t1 t2 t3 where time: "time = [t0, t1, t2, t3]" using assms(3) by (auto simp: length_Suc_conv numeral_eq_Suc)
  obtain u0 u1 u2 u3 u4 u5 u6 u7 where user: "user = [u0, u1, u2, u3, u4, u5, u6, u7]"
    using assms(1) by (auto simp: length_Suc_conv numeral_eq_Suc)
  have zeros: "replicate 62 (0 :: byte) = replicate 30 0 @ replicate 32 0" by (simp flip: replicate_add)
  have zeros30: "replicate 30 (0 :: byte) = [0, 0, 0, 0, 0, 0, 0, 0, 0, 0, 0, 0, 0, 0, 0, 0, 0, 0, 0, 0, 0, 0, 0, 0, 0, 0, 0, 0, 0, 0]"
    by code_simp
  have stats: "take 30 stats = [0x01, 0x00, 0x00, t2, d0, d1, d2, d3, d0, d1, d2, d3, t0, t1] @ halfword lines @ halfword lines @
      [0, 0] @ user @ [ebcdic SPACE, ebcdic SPACE]"
    unfolding assms(6) by (simp add: initial_stats_def set_modified_def set_created_def poke_def halfword_def date time user
        zeros zeros30)
  have d0: "d0 \<le> 1" using assms(4) date by simp
  have cnorc: "signed_half (halfword lines @ bs) = sint (word_of_int lines :: 16 word)" for bs
    by (rule signed_half_halfword)
  have mem: "mem = zds_mem_init\<lparr> m_stats_valid := True, m_vers := 1, m_mod := 0, m_sclm := False,
      m_c4date := zut_convert_date cv date, m_m4date := zut_convert_date cv date,
      m_mtime := parse_packed_time t0 t1 t2, m_cnorc := sint (word_of_int lines :: 16 word),
      m_inorc := sint (word_of_int lines :: 16 word), m_mnorc := 0, m_user := buffer_text user \<rparr>"
    unfolding assms(7) stats load_stats_def is_valid_ispf_stats_def Let_def
    using d0 date user cnorc
    by (simp add: halfword_def ispf_flags_def ispf_created_def ispf_modified_def ispf_extended_def ispf_version_def
        ispf_level_def signed_half_def be16_def not_less zds_mem_init_def)
  have "sint (word_of_int lines :: 16 word) = lines \<longleftrightarrow> lines < 32768"
    using assms(5) sint_less [of "word_of_int lines :: 16 word"]
    by (auto simp: signed_of_int intro!: signed_take_bit_int_eq_self)
  then show ?thesis by (simp add: mem)
qed

theorem new_member_statistics_witness:
  "\<exists>mem. mem = load_stats (\<lambda>_. None) (take 30 (initial_stats 40000 (map ebcdic ''IBMUSER '') [0x12, 0x30, 0, 0] [1, 0x24, 0x06, 0x0F] (replicate 62 0)))
      30 zds_mem_init \<and> m_stats_valid mem \<and> m_cnorc mem = - 25536"
  using new_member_statistics [of "map ebcdic ''IBMUSER ''" "[1, 0x24, 0x06, 0x0F]" "[0x12, 0x30, 0, 0]" 40000, OF _ _ _ _ _ refl refl, of "\<lambda>_. None"]
  by (simp add: signed_of_int signed_take_bit_eq_take_bit_shift take_bit_eq_mod)

end
