(* ===== verification/Zds_Catalog.thy ===== *)
theory Zds_Catalog
  imports Zds_Write Zds_Members
begin

text \<open>
  The catalog (\<open>zds_list_data_sets\<close> of \<open>zds.cpp\<close>, \<open>ZDSCSI00\<close> and \<open>ZDSDSCB1\<close> of \<open>zdsm.c\<close>): the catalog
  search interface fills a work area with records of catalogs and entries, which are parsed byte by
  byte; a flag asks to call it again. The attributes of an entry come from the fields of its record
  and from the control blocks of its volume. The search interface, OBTAIN and the substitution of
  symbols are parameters.
\<close>

unbundle bit_operations_syntax

section \<open>Services\<close>

text \<open>The selection criteria: the name in 44 characters, the names of the fields, and the resume flag; the size of
  the work area. The area that is filled: the number of fields, the size used with the header, the
  bytes from the first catalog on, and the resume flag.\<close>

record csi_selection =
  csifiltk :: string
  csifldnm :: "string list"
  csiresum :: byte
  total_size :: int

record csi_area =
  number_fields :: int
  used_size :: int
  area_bytes :: "byte list"
  area_resum :: byte

record 'w csi_ops =
  ci_malloc31 :: bool
  ci_load :: "'w \<Rightarrow> 'w \<times> bool"
  ci_search :: "'w \<Rightarrow> csi_selection \<Rightarrow> 'w \<times> int \<times> int \<times> csi_area"
  ci_delete :: "'w \<Rightarrow> 'w"
  ci_obtain :: "'w \<Rightarrow> string \<Rightarrow> string \<Rightarrow> 'w \<times> int \<times> byte list"
  ci_workarea :: string
  ci_symbol :: "string \<Rightarrow> int \<times> string"

definition MAX_DS_LENGTH :: nat where "MAX_DS_LENGTH = 44"
definition MAX_VOLSER_LENGTH :: nat where "MAX_VOLSER_LENGTH = 6"
definition CSI_FIELD_COUNT :: nat where "CSI_FIELD_COUNT = 5"
definition ZDS_DEFAULT_BUFFER_SIZE :: int where "ZDS_DEFAULT_BUFFER_SIZE = 8096"
definition ZDS_DEFAULT_MAX_ENTRIES :: int where "ZDS_DEFAULT_MAX_ENTRIES = 1000"

text \<open>The flag is set in one direction only while the listing runs: whether the module is loaded.\<close>

definition format_04x :: "int \<Rightarrow> string" where
  "format_04x n = pad_zeros 4 (show_hex (nat (n mod 2 ^ 32)))"

definition ZDSCSI00 :: "'w csi_ops \<Rightarrow> 'w \<Rightarrow> zdiag \<Rightarrow> bool \<Rightarrow> csi_selection \<Rightarrow> 'w \<times> zdiag \<times> bool \<times> int \<times> csi_area option" where
  "ZDSCSI00 ci w d loaded sel =
     (let (w1, csi) = (if loaded then (w, True) else ci_load ci w)
      in if \<not> csi then (w1, (set_msg ''Load failure for IGGCSI00'' (d\<lparr> service_name := ''LOAD'' \<rparr>))\<lparr> detail_rc := - 2 \<rparr>, False, RTNCD_FAILURE, None)
         else let (w2, rc, rsn, area) = ci_search ci w1 sel
              in if rc \<noteq> 0
                 then (w2, (set_msg (''IGGCSI00 rc was: '' @ quoted_name (show_int rc) @ '', rsn was: '' @ quoted_name (format_04x rsn))
                             (d\<lparr> service_name := ''IGGCSI00'' \<rparr>))\<lparr> service_rc := rc, detail_rc := - 2 \<rparr>, True, RTNCD_FAILURE, None)
                 else (w2, d, True, rc, Some area))"

definition ZDSDEL :: "'w csi_ops \<Rightarrow> 'w \<Rightarrow> bool \<Rightarrow> 'w" where
  "ZDSDEL ci w loaded = (if loaded then ci_delete ci w else w)"

section \<open>The control block of a data set\<close>

definition MAX_DSCBS :: nat where "MAX_DSCBS = 12"
definition sizeof_DSCBFormat1 :: nat where "sizeof_DSCBFormat1 = 97"
definition sizeof_IndexableDSCBFormat1 :: nat where "sizeof_IndexableDSCBFormat1 = 44 + sizeof_DSCBFormat1"

definition bytes_at :: "nat \<Rightarrow> nat \<Rightarrow> byte list \<Rightarrow> byte list" where
  "bytes_at offset n bs = take n (drop offset bs)"

definition dscb1_of_bytes :: "byte list \<Rightarrow> dscb1" where
  "dscb1_of_bytes bs =
     \<lparr> ds1credt = bytes_at 9 3 bs, ds1expdt = bytes_at 12 3 bs, ds1noepv = bs ! 15, ds1flag1 = bs ! 17, ds1refd = bytes_at 31 3 bs,
       ds1smsfg = bs ! 34, ds1scext = bytes_at 35 3 bs, ds1dsorg = word_of_int (be16 (bytes_at 38 2 bs)), ds1recfm = bs ! 40,
       ds1blkl = bytes_at 42 2 bs, ds1lrecl = bytes_at 44 2 bs, ds1scalo = bytes_at 50 4 bs, ds1lstar = bytes_at 54 3 bs,
       ds1ttthi = bs ! 60, ds1exnts = bytes_at 61 30 bs \<rparr>"

text \<open>The search for a block of format 1 or 8 among the blocks of the work area. The blocks are one byte shorter than
  the structure the offsets are computed from.\<close>

fun find_dscb :: "byte list \<Rightarrow> nat list \<Rightarrow> dscb1 option" where
  "find_dscb workarea [] = None"
| "find_dscb workarea (i # is) =
     (let block = drop (i * (sizeof_IndexableDSCBFormat1 - 1)) workarea
      in if block ! 0 = ebcdic CHR ''1'' \<or> block ! 0 = ebcdic CHR ''8'' then Some (dscb1_of_bytes block) else find_dscb workarea is)"

definition pad_to :: "nat \<Rightarrow> string \<Rightarrow> string" where
  "pad_to n s = take n s @ replicate (n - length s) SPACE"

definition ZDSDSCB1 :: "'w csi_ops \<Rightarrow> 'w \<Rightarrow> zdiag \<Rightarrow> string \<Rightarrow> string \<Rightarrow> 'w \<times> zdiag \<times> dscb1 option" where
  "ZDSDSCB1 ci w d dsn vol =
     (let (w1, rc, workarea) = ci_obtain ci w (pad_to MAX_DS_LENGTH (c_str dsn)) (pad_to MAX_VOLSER_LENGTH (c_str vol))
      in if rc \<noteq> 0
         then (w1, (set_msg (''OBTAIN SVC failed for '' @ take 44 (c_str dsn) @ '' on '' @ take 6 (c_str vol) @ '' with rc='' @ show_int rc
                      @ '', workarea_ptr='' @ ci_workarea ci) (d\<lparr> service_name := ''OBTAIN'' \<rparr>))\<lparr> service_rc := rc, detail_rc := - 2 \<rparr>, None)
         else (case find_dscb workarea [0..<MAX_DSCBS - 1] of
                 Some b \<Rightarrow> (w1, d, Some b)
               | None \<Rightarrow> (w1, (set_msg (''Could not find Format-1 or Format-8 DSCB, OBTAIN rc='' @ show_int rc @ '', sizeof(dscb)=''
                           @ show_int (int sizeof_IndexableDSCBFormat1)) (d\<lparr> service_name := ''OBTAIN'' \<rparr>))\<lparr> detail_rc := - 9 \<rparr>, None)))"

section \<open>Records of the work area\<close>

definition sizeof_CSI_HEADER :: int where "sizeof_CSI_HEADER = 14"
definition sizeof_CSI_CATALOG :: int where "sizeof_CSI_CATALOG = 50"
definition sizeof_CSI_FIELD :: int where "sizeof_CSI_FIELD = 28"
definition sizeof_CSI_ENTRY :: int where "sizeof_CSI_ENTRY = 46 + sizeof_CSI_FIELD"
definition CATALOG_TYPE :: byte where "CATALOG_TYPE = 0xF0"
definition ERROR_CONDITION :: byte where "ERROR_CONDITION = 0xF8"
definition DATA_NOT_COMPLETE :: byte where "DATA_NOT_COMPLETE = 0x20"
definition NO_ENTRY :: byte where "NO_ENTRY = 0x40"
definition ENTRY_ERROR :: byte where "ENTRY_ERROR = 0x40"
definition NOT_FOUND :: byte where "NOT_FOUND = 0x00"

definition be32s :: "byte list \<Rightarrow> int" where
  "be32s bs = sint ((push_bit 24 (ucast (bs ! 0)) OR push_bit 16 (ucast (bs ! 1)) OR push_bit 8 (ucast (bs ! 2)) OR ucast (bs ! 3)) :: 32 word)"

definition rec_flag :: "byte list \<Rightarrow> byte" where "rec_flag r = r ! 0"
definition rec_type :: "byte list \<Rightarrow> byte" where "rec_type r = r ! 1"
definition rec_name :: "byte list \<Rightarrow> string" where "rec_name r = buffer_text (take 44 (drop 2 r))"
definition rec_total_len :: "byte list \<Rightarrow> int" where "rec_total_len r = be32s (drop 46 r)"
definition rec_field_len :: "byte list \<Rightarrow> nat \<Rightarrow> int" where "rec_field_len r i = be32s (drop (54 + 4 * i) r)"
definition rec_data :: "byte list \<Rightarrow> byte list" where "rec_data r = drop 74 r"

text \<open>The types that are handled, and the larger set of types that the interface knows.\<close>

definition supported_type :: "byte \<Rightarrow> bool" where
  "supported_type t \<longleftrightarrow> t \<in> ebcdic ` set ''ACDIBHXRG''"

section \<open>Fields of an entry\<close>

definition SYMBOL_SIZE :: nat where "SYMBOL_SIZE = 128"

definition zut_substitute_symbol :: "bool \<Rightarrow> (string \<Rightarrow> int \<times> string) \<Rightarrow> string \<Rightarrow> string \<Rightarrow> int \<times> string" where
  "zut_substitute_symbol malloc31 symbol pattern result =
     (if \<not> malloc31 then (RTNCD_FAILURE, result)
      else if SYMBOL_SIZE \<le> length pattern then (RTNCD_FAILURE, result)
      else let (rc, output) = symbol (c_str pattern)
           in if RTNCD_SUCCESS \<noteq> rc then (rc, result) else (RTNCD_SUCCESS, result @ c_str (take (SYMBOL_SIZE - 1) output)))"

text \<open>The length is converted to an unsigned number by the division by a \<open>size_t\<close>; the texts of the volumes keep
  their null characters.\<close>

definition num_volumes :: "int \<Rightarrow> int" where
  "num_volumes field_len = sint (word_of_int (uint (word_of_int field_len :: 64 word) div 6) :: 32 word)"

definition load_volsers_from_catalog :: "'w csi_ops \<Rightarrow> byte list \<Rightarrow> int \<Rightarrow> int \<Rightarrow> zds_entry \<Rightarrow> int \<times> zds_entry" where
  "load_volsers_from_catalog ci data field_len csi_offset entry =
     (let n = num_volumes field_len;
          vols = filter (\<lambda>v. v \<noteq> [])
            (map (\<lambda>i. zut_rtrim '' '' (map unebcdic (bytes_at (nat csi_offset + i * MAX_VOLSER_LENGTH) MAX_VOLSER_LENGTH data))) [0..<nat n]);
          vols0 = volsers entry @ vols;
          e1 = entry\<lparr> multivolume := (1 < n), volsers := vols0, volser := if vols0 = [] then ''------'' else vols0 ! 0 \<rparr>;
          e2 = (if c_str (volser e1) = ''******''
                then (case zut_substitute_symbol (ci_malloc31 ci) (ci_symbol ci) ''&SYSR1'' [] of
                        (rc, val) \<Rightarrow> if rc = 0 then e1\<lparr> volser := val, volsers := map (\<lambda>v. if v = ''******'' then val else v) (volsers e1) \<rparr>
                                    else e1)
                else e1)
      in (csi_offset + field_len, e2))"

definition load_devtype_from_catalog :: "byte list \<Rightarrow> int \<Rightarrow> int \<Rightarrow> 16 word \<Rightarrow> int \<times> 16 word" where
  "load_devtype_from_catalog data field_len csi_offset attr =
     (csi_offset + field_len,
      if 4 \<le> field_len
      then let bytes = bytes_at (nat csi_offset) 4 data
           in if bytes \<noteq> [0, 0, 0, 0] then ucb_to_devtype (bytes ! 3) else 0x3390
      else attr)"

definition load_storage_attr_from_catalog :: "byte list \<Rightarrow> int \<Rightarrow> int \<Rightarrow> int \<times> string" where
  "load_storage_attr_from_catalog data field_len csi_offset =
     (csi_offset + field_len,
      if 2 < field_len
      then let actual_len = be16 (bytes_at (nat csi_offset) 2 data)
           in if 0 < actual_len \<and> actual_len \<le> field_len - 2
              then map unebcdic (bytes_at (nat csi_offset + 2) (nat actual_len) data) else []
      else [])"

text \<open>After the fields: the control block unless the data set is migrated, and what the type says.\<close>

definition typed_entry :: "byte \<Rightarrow> zds_entry \<Rightarrow> zds_entry" where
  "typed_entry t e =
     (if t = ebcdic CHR ''A'' then e
      else if t = ebcdic CHR ''B'' then e\<lparr> volser := ''??????'' \<rparr>
      else if t = ebcdic CHR ''C'' then e\<lparr> dsorg := ''VS'', volser := ''*VSAM*'' \<rparr>
      else if t = ebcdic CHR ''D'' \<or> t = ebcdic CHR ''I'' then e\<lparr> dsorg := ''VS'' \<rparr>
      else if t = ebcdic CHR ''G'' then e\<lparr> volser := ''*AIX *'' \<rparr>
      else if t = ebcdic CHR ''R'' then e\<lparr> volser := ''*PATH*'' \<rparr>
      else if t = ebcdic CHR ''H'' then e
      else e\<lparr> dsorg := ''--'', volser := ''*ALIAS'' \<rparr>)"

definition catalog_fields :: "'w csi_ops \<Rightarrow> byte list \<Rightarrow> zds_entry \<Rightarrow> zds_entry" where
  "catalog_fields ci r e0 =
     (let (off1, e1) = load_volsers_from_catalog ci (rec_data r) (rec_field_len r 0) 0 e0;
          e2 = (if volser e1 = ''MIGRAT'' \<or> volser e1 = ''ARCIVE'' then e1\<lparr> migrated := True, e_recfm := ''U'' \<rparr> else e1\<lparr> migrated := False \<rparr>);
          (off2, dt) = load_devtype_from_catalog (rec_data r) (rec_field_len r 1) off1 (devtype e2);
          (off3, dc) = load_storage_attr_from_catalog (rec_data r) (rec_field_len r 2) off2;
          (off4, mc) = load_storage_attr_from_catalog (rec_data r) (rec_field_len r 3) off3;
          (_, sc) = load_storage_attr_from_catalog (rec_data r) (rec_field_len r 4) off4
      in e2\<lparr> devtype := dt, dataclass := dc, mgmtclass := mc, storclass := sc \<rparr>)"

definition entry_attributes :: "'w csi_ops \<Rightarrow> 'w \<Rightarrow> zdiag \<Rightarrow> byte list \<Rightarrow> zds_entry \<Rightarrow> 'w \<times> zdiag \<times> zds_entry" where
  "entry_attributes ci w d r e0 =
     (let e1 = catalog_fields ci r e0;
          (w1, d1, e2) = (if migrated e1 then (w, d, e1)
                          else case ZDSDSCB1 ci w d (e_name e1) (volser e1) of
                                 (w', d', answer) \<Rightarrow> (w', d', zds_get_attrs_from_dscb answer e1));
          e3 = typed_entry (rec_type r) e2
      in (w1, d1, if volser e2 \<noteq> volser e3 then e3\<lparr> volsers := [volser e3] \<rparr> else e3))"

section \<open>The listing\<close>

record 'w catalog_state =
  cs_world :: 'w
  cs_diag :: zdiag
  cs_found :: bool
  cs_list :: "zds_entry list"

definition catalog_error :: "int \<Rightarrow> int \<Rightarrow> string \<Rightarrow> zdiag \<Rightarrow> zdiag" where
  "catalog_error detail service m d = set_msg m (d\<lparr> detail_rc := detail, service_rc := service \<rparr>)"

definition format_x :: "byte \<Rightarrow> string" where
  "format_x b = show_hex (unat b)"

text \<open>A record: the number of bytes to go on, or the return code of the listing. The number of entries is
  compared as an unsigned number.\<close>

definition csi_record :: "'w csi_ops \<Rightarrow> bool \<Rightarrow> int \<Rightarrow> byte list \<Rightarrow> 'w catalog_state \<Rightarrow> 'w catalog_state \<times> (int + int)" where
  "csi_record ci show_attributes max_entries r s =
     (let stop = (\<lambda>detail service m rc. (s\<lparr> cs_diag := catalog_error detail service m (cs_diag s) \<rparr>, Inl rc))
      in if rec_type r = CATALOG_TYPE
         then if rec_flag r = ERROR_CONDITION \<or> DATA_NOT_COMPLETE AND rec_flag r \<noteq> 0
              then stop (- 10) (- 6) (''Unexpected catalog flag '' @ quoted_name (format_x (rec_flag r)) @ '' '') RTNCD_FAILURE
              else (if NO_ENTRY AND rec_flag r \<noteq> 0 then s else s\<lparr> cs_found := True \<rparr>, Inr sizeof_CSI_CATALOG)
         else if rec_flag r = ENTRY_ERROR
         then stop (- 2) (- 7) (''Unexpected entry flag '' @ quoted_name (format_x (rec_flag r)) @ '' '') RTNCD_FAILURE
         else if rec_type r = NOT_FOUND
         then stop (- 5) (- 7) (''No entry found '' @ quoted_name (format_x (rec_type r)) @ '' '') RTNCD_FAILURE
         else if \<not> supported_type (rec_type r)
         then stop (- 2) (- 8) (''Unsupported entry type '' @ quoted_name (format_x (rec_type r)) @ '' '') RTNCD_FAILURE
         else let e0 = zds_entry_init\<lparr> e_name := rec_name r \<rparr>;
                  (w1, d1, e1) = (if show_attributes then entry_attributes ci (cs_world s) (cs_diag s) r e0 else (cs_world s, cs_diag s, e0));
                  s1 = s\<lparr> cs_world := w1, cs_diag := d1 \<rparr>
              in if uint (word_of_int max_entries :: 64 word) < int (length (cs_list s)) + 1
                 then (s1\<lparr> cs_diag := (set_msg (''Reached maximum returned records requested '' @ show_int max_entries) d1)
                                         \<lparr> detail_rc := ZDS_RSNCD_MAXED_ENTRIES_REACHED \<rparr> \<rparr>, Inl RTNCD_WARNING)
                 else (s1\<lparr> cs_list := cs_list s @ [e1] \<rparr>, Inr (sizeof_CSI_ENTRY - sizeof_CSI_FIELD + rec_total_len r)))"

text \<open>The records of a work area. A length that is not positive would be read again and again.\<close>

partial_function (option) csi_records ::
    "'w csi_ops \<Rightarrow> bool \<Rightarrow> int \<Rightarrow> byte list \<Rightarrow> int \<Rightarrow> int \<Rightarrow> 'w catalog_state \<Rightarrow> ('w catalog_state \<times> int option) option" where
  "csi_records ci show_attributes max_entries area p work_area_total s =
     (if work_area_total \<le> 0 then Some (s, None)
      else case csi_record ci show_attributes max_entries (drop (nat p) area) s of
             (s', Inl rc) \<Rightarrow> Some (s', Some rc)
           | (s', Inr n) \<Rightarrow> csi_records ci show_attributes max_entries area (p + n) (work_area_total - n) s')"

text \<open>The calls of the search interface. The module is unloaded at the end, whatever the end is.\<close>

partial_function (option) csi_calls ::
    "'w csi_ops \<Rightarrow> bool \<Rightarrow> int \<Rightarrow> csi_selection \<Rightarrow> bool \<Rightarrow> 'w catalog_state \<Rightarrow> ('w catalog_state \<times> int option) option" where
  "csi_calls ci show_attributes max_entries sel loaded s =
     (let (w1, d1, loaded1, rc, area) = ZDSCSI00 ci (cs_world s) (cs_diag s) loaded sel;
          s1 = s\<lparr> cs_world := w1, cs_diag := d1 \<rparr>;
          ended = (\<lambda>s. s\<lparr> cs_world := ZDSDEL ci (cs_world s) loaded1 \<rparr>)
      in case area of
           None \<Rightarrow> Some (ended s1, Some RTNCD_FAILURE)
         | Some a \<Rightarrow>
             let returned = number_fields a - 1; requested = int (length (csifldnm sel))
             in if returned \<noteq> requested
                then Some (let s2 = ended s1
                           in s2\<lparr> cs_diag := (set_msg (''Unexpected work area field response preset len '' @ show_int returned
                                    @ '' and return len '' @ show_int requested @ '' are not equal'') (cs_diag s2))\<lparr> detail_rc := - 9 \<rparr> \<rparr>,
                           Some RTNCD_FAILURE)
                else (case csi_records ci show_attributes max_entries (area_bytes a) 0 (used_size a - sizeof_CSI_HEADER) s1 of
                        None \<Rightarrow> None
                      | Some (s2, Some rc2) \<Rightarrow> Some (ended s2, Some rc2)
                      | Some (s2, None) \<Rightarrow>
                          if area_resum a = ebcdic CHR ''Y''
                          then csi_calls ci show_attributes max_entries (sel\<lparr> csiresum := area_resum a \<rparr>) loaded1 s2
                          else Some (ended s2, None)))"

definition catalog_field_names :: "string list" where
  "catalog_field_names = [''VOLSER'', ''DEVTYP'', ''DATACLAS'', ''MGMTCLAS'', ''STORCLAS'']"

text \<open>The limits of the block are set to their defaults when they are 0; the result has them too.\<close>

record list_limits =
  ll_buffer_size :: int
  ll_max_entries :: int

definition set_limits :: "list_limits \<Rightarrow> list_limits" where
  "set_limits l = \<lparr> ll_buffer_size = if ll_buffer_size l = 0 then ZDS_DEFAULT_BUFFER_SIZE else ll_buffer_size l,
     ll_max_entries = if ll_max_entries l = 0 then ZDS_DEFAULT_MAX_ENTRIES else ll_max_entries l \<rparr>"

definition sizeof_CSIFIELD :: int where "sizeof_CSIFIELD = 162"
definition ZDS_RSNCD_NOT_FOUND :: int where "ZDS_RSNCD_NOT_FOUND = - 2"
definition MIN_BUFFER_FIXED :: int where "MIN_BUFFER_FIXED = 1024"

definition min_buffer_size :: "nat \<Rightarrow> int" where
  "min_buffer_size number_of_fields = MIN_BUFFER_FIXED + (sizeof_CSIFIELD + int number_of_fields * 8)"

definition zds_list_data_sets ::
    "'w csi_ops \<Rightarrow> 'w \<Rightarrow> zdiag \<Rightarrow> list_limits \<Rightarrow> string \<Rightarrow> zds_entry list \<Rightarrow> bool \<Rightarrow> ('w \<times> zdiag \<times> zds_entry list \<times> int) option" where
  "zds_list_data_sets ci w d limits0 dsn datasets show_attributes =
     (let fields = (if show_attributes then catalog_field_names else []);
          limits = set_limits limits0; min_size = min_buffer_size (length fields)
      in if ll_buffer_size limits < min_size
         then Some (w, set_msg (''Minimum buffer size required is '' @ show_int min_size @ '' but '' @ show_int (ll_buffer_size limits)
                      @ '' was provided'') (d\<lparr> detail_rc := - 4 \<rparr>), datasets, RTNCD_FAILURE)
         else if \<not> ci_malloc31 ci
         then Some (w, set_msg (''Failed to allocate 31-bit buffer for workarea to list '' @ c_str dsn) (d\<lparr> detail_rc := - 4 \<rparr>), datasets, RTNCD_FAILURE)
         else let sel = \<lparr> csifiltk = pad_to MAX_DS_LENGTH (map toupper dsn), csifldnm = map (pad_to 8) fields, csiresum = ebcdic SPACE,
                          total_size = ll_buffer_size limits - min_size \<rparr>
              in map_option (\<lambda>(s, ended).
                   (cs_world s,
                    (case ended of
                       Some _ \<Rightarrow> cs_diag s
                     | None \<Rightarrow> if cs_found s then cs_diag s
                              else catalog_error ZDS_RSNCD_NOT_FOUND (- 6) ''Not found in any catalog'' (cs_diag s)),
                    cs_list s,
                    (case ended of Some rc \<Rightarrow> rc | None \<Rightarrow> if cs_found s then RTNCD_SUCCESS else RTNCD_WARNING)))
                 (csi_calls ci show_attributes (ll_max_entries limits) sel False
                   \<lparr> cs_world = w, cs_diag = d, cs_found = False, cs_list = datasets \<rparr>))"

text \<open>What reading and writing data sets take from the listing of a name. A listing that does not return has no
  counterpart there.\<close>

definition ds_entry_of :: "zds_entry \<Rightarrow> ds_entry" where
  "ds_entry_of e = \<lparr> en_recfm = e_recfm e, en_lrecl = lrecl e, en_blksize = blksize e \<rparr>"

definition catalog_data_sets :: "'w csi_ops \<Rightarrow> 'w \<Rightarrow> string \<Rightarrow> 'w \<times> int \<times> ds_entry list" where
  "catalog_data_sets ci w dsn =
     (case zds_list_data_sets ci w zdiag_init \<lparr> ll_buffer_size = 0, ll_max_entries = 0 \<rparr> dsn [] True of
        Some (w', _, entries, rc) \<Rightarrow> (w', rc, map ds_entry_of entries)
      | None \<Rightarrow> (w, RTNCD_FAILURE, []))"

definition with_catalog :: "'w csi_ops \<Rightarrow> 'w zds_ops \<Rightarrow> 'w zds_ops" where
  "with_catalog ci ops = ops\<lparr> zo_data_sets := catalog_data_sets ci \<rparr>"

end
