(* ===== verification/Zds_Catalog_Props.thy ===== *)
theory Zds_Catalog_Props
  imports Zds_Catalog Zds_Members_Props
begin

text \<open>
  A listing of data sets contains the entries of all catalogs over all calls of the search interface, in
  their order, up to the limit; its code says whether a catalog was found and whether the limit was hit.
\<close>

unbundle bit_operations_syntax

section \<open>Records\<close>

definition catalog_record :: "byte list \<Rightarrow> bool" where
  "catalog_record r \<longleftrightarrow> length r = 50 \<and> rec_type r = CATALOG_TYPE \<and> rec_flag r \<noteq> ERROR_CONDITION \<and> DATA_NOT_COMPLETE AND rec_flag r = 0"

definition entry_record :: "byte list \<Rightarrow> bool" where
  "entry_record r \<longleftrightarrow> int (length r) = 46 + rec_total_len r \<and> 50 \<le> length r \<and> rec_type r \<noteq> CATALOG_TYPE \<and>
     rec_flag r \<noteq> ENTRY_ERROR \<and> rec_type r \<noteq> NOT_FOUND \<and> supported_type (rec_type r)"

definition finds_catalog :: "byte list \<Rightarrow> bool" where
  "finds_catalog r \<longleftrightarrow> rec_type r = CATALOG_TYPE \<and> NO_ENTRY AND rec_flag r = 0"

definition entry_names :: "byte list list \<Rightarrow> string list" where
  "entry_names rs = map rec_name (filter (\<lambda>r. rec_type r \<noteq> CATALOG_TYPE) rs)"

lemma entry_names_simps [simp]:
  "entry_names [] = []"
  "entry_names (r # rs) = (if rec_type r = CATALOG_TYPE then entry_names rs else rec_name r # entry_names rs)"
  "entry_names (rs @ qs) = entry_names rs @ entry_names qs"
  by (simp_all add: entry_names_def)

lemma rec_append:
  assumes "50 \<le> length r"
  shows "rec_flag (r @ q) = rec_flag r" "rec_type (r @ q) = rec_type r" "rec_name (r @ q) = rec_name r"
    "rec_total_len (r @ q) = rec_total_len r"
proof -
  show "rec_flag (r @ q) = rec_flag r" "rec_type (r @ q) = rec_type r"
    using assms by (auto simp: rec_flag_def rec_type_def nth_append)
  have "take 44 (drop 2 (r @ q)) = take 44 (drop 2 r)" using assms by simp
  then show "rec_name (r @ q) = rec_name r" by (simp only: rec_name_def)
  have "drop 46 (r @ q) ! i = drop 46 r ! i" if "i < 4" for i
  proof -
    have "i < length r - 46" using assms that by linarith
    then show ?thesis by (simp add: nth_append)
  qed
  then show "rec_total_len (r @ q) = rec_total_len r" by (simp add: rec_total_len_def be32s_def)
qed

lemma loaders_keep_name [simp]:
  "e_name (load_date_attrs_from_dscb b e) = e_name e" "e_name (load_spacu_from_dscb b e) = e_name e"
  "e_name (load_primary_secondary_from_dscb b e) = e_name e"
  by (simp_all add: load_date_attrs_from_dscb_def load_spacu_from_dscb_def load_primary_secondary_from_dscb_def Let_def)

lemma general_keeps_name [simp]: "e_name (load_general_attrs_from_dscb b e) = e_name e"
  unfolding load_general_attrs_from_dscb_def Let_def by simp

lemma alloc_keeps_name [simp]: "e_name (load_alloc_attrs_from_dscb b e) = e_name e"
  unfolding load_alloc_attrs_from_dscb_def Let_def by (simp add: case_prod_beta)

lemma used_keeps_name [simp]: "e_name (load_used_attrs_from_dscb b e) = e_name e"
  unfolding load_used_attrs_from_dscb_def Let_def by simp

lemma dscb_keeps_name [simp]: "e_name (zds_get_attrs_from_dscb answer e) = e_name e"
  by (cases answer) (simp_all add: zds_get_attrs_from_dscb_def)

lemma typed_keeps_name [simp]: "e_name (typed_entry t e) = e_name e"
  by (simp add: typed_entry_def)

lemma fields_keep_name [simp]: "e_name (catalog_fields ci r e) = e_name e"
  by (auto simp: catalog_fields_def load_volsers_from_catalog_def Let_def split: prod.splits)

lemma attributes_keep_name:
  "entry_attributes ci w d r e = (w', d', e') \<Longrightarrow> e_name e' = e_name e"
  by (auto simp: entry_attributes_def Let_def split: prod.splits if_splits)

section \<open>The search interface\<close>

text \<open>The contract: the module can be loaded, the answers come one after the other, and reading a control block does
  not ask for another one.\<close>

definition obtain_keeps :: "'w csi_ops \<Rightarrow> ('w \<Rightarrow> nat) \<Rightarrow> bool" where
  "obtain_keeps ci asked \<longleftrightarrow> (\<forall>w dsn vol. asked (fst (ci_obtain ci w dsn vol)) = asked w)"

definition answers_in_turn :: "'w csi_ops \<Rightarrow> ('w \<Rightarrow> nat) \<Rightarrow> (nat \<Rightarrow> csi_area) \<Rightarrow> bool" where
  "answers_in_turn ci asked answers \<longleftrightarrow>
     (\<forall>w. snd (ci_load ci w) \<and> asked (fst (ci_load ci w)) = asked w) \<and>
     (\<forall>w sel. fst (snd (ci_search ci w sel)) = 0 \<and> snd (snd (snd (ci_search ci w sel))) = answers (asked w) \<and>
       asked (fst (ci_search ci w sel)) = Suc (asked w))"

lemma dscb_asked:
  assumes "obtain_keeps ci asked" and "ZDSDSCB1 ci w d dsn vol = (w', d', answer)"
  shows "asked w' = asked w"
  using assms(1) [unfolded obtain_keeps_def, rule_format, of w "pad_to MAX_DS_LENGTH (c_str dsn)" "pad_to MAX_VOLSER_LENGTH (c_str vol)"]
    assms(2)
  unfolding ZDSDSCB1_def by (auto split: prod.splits if_splits option.splits)

lemma attributes_asked:
  assumes "obtain_keeps ci asked" and "entry_attributes ci w d r e = (w', d', e')"
  shows "asked w' = asked w"
  using assms(2) unfolding entry_attributes_def Let_def using dscb_asked [OF assms(1)] by (auto split: prod.splits if_splits)

lemma catalog_step:
  "catalog_record r \<Longrightarrow> csi_record ci show_attributes m (r @ q) s = (if finds_catalog r then s\<lparr> cs_found := True \<rparr> else s, Inr 50)"
  by (simp add: catalog_record_def csi_record_def rec_append finds_catalog_def sizeof_CSI_CATALOG_def Let_def)

lemma unsigned_max: "0 \<le> m \<Longrightarrow> m < 2 ^ 63 \<Longrightarrow> uint (word_of_int m :: 64 word) = m"
  by (simp add: uint_word_of_int_eq take_bit_int_eq_self)

definition same_search :: "('w \<Rightarrow> nat) \<Rightarrow> 'w catalog_state \<Rightarrow> 'w catalog_state \<Rightarrow> bool" where
  "same_search asked s s' \<longleftrightarrow> asked (cs_world s') = asked (cs_world s) \<and> cs_found s' = cs_found s"

lemma entry_step:
  assumes "entry_record r" and "0 \<le> m" and "m < 2 ^ 63" and keeps: "obtain_keeps ci asked"
  shows "\<exists>s' e. same_search asked s s' \<and> e_name e = rec_name r \<and>
    (if m < int (length (cs_list s)) + 1
     then csi_record ci show_attributes m (r @ q) s = (s', Inl RTNCD_WARNING) \<and> cs_list s' = cs_list s
     else csi_record ci show_attributes m (r @ q) s = (s', Inr (int (length r))) \<and> cs_list s' = cs_list s @ [e])"
proof -
  note r = assms(1) [unfolded entry_record_def]
  define e0 where "e0 = zds_entry_init\<lparr> e_name := rec_name r \<rparr>"
  obtain w1 d1 e1 where attrs: "(if show_attributes then entry_attributes ci (cs_world s) (cs_diag s) (r @ q) e0 else (cs_world s, cs_diag s, e0))
      = (w1, d1, e1)" by (metis prod_cases3)
  have name: "e_name e1 = rec_name r" and asked: "asked w1 = asked (cs_world s)"
    using attrs attributes_keep_name [of ci "cs_world s" "cs_diag s" "r @ q" e0 w1 d1 e1]
      attributes_asked [OF keeps, of "cs_world s" "cs_diag s" "r @ q" e0 w1 d1 e1] by (auto simp: e0_def split: if_splits)
  have len: "sizeof_CSI_ENTRY - sizeof_CSI_FIELD + rec_total_len r = int (length r)"
    using r by (simp add: sizeof_CSI_ENTRY_def)
  have long: "50 \<le> length r" and kinds: "(rec_type r = CATALOG_TYPE) = False" "(rec_flag r = ENTRY_ERROR) = False"
      "(rec_type r = NOT_FOUND) = False" "(\<not> supported_type (rec_type r)) = False" using r by simp_all
  let ?s1 = "s\<lparr> cs_world := w1, cs_diag := d1 \<rparr>"
  have rec: "csi_record ci show_attributes m (r @ q) s =
      (if m < int (length (cs_list s)) + 1
       then (?s1\<lparr> cs_diag := (set_msg (''Reached maximum returned records requested '' @ show_int m) d1)
                                \<lparr> detail_rc := ZDS_RSNCD_MAXED_ENTRIES_REACHED \<rparr> \<rparr>, Inl RTNCD_WARNING)
       else (?s1\<lparr> cs_list := cs_list s @ [e1] \<rparr>, Inr (int (length r))))"
    unfolding csi_record_def Let_def rec_append [OF long] attrs [unfolded e0_def] kinds if_False prod.case
      len unsigned_max [OF assms(2,3)] by (rule refl)
  show ?thesis
  proof (cases "m < int (length (cs_list s)) + 1")
    case True
    then show ?thesis using rec name asked
      by (intro exI [of _ "fst (csi_record ci show_attributes m (r @ q) s)"] exI [of _ e1]) (simp add: same_search_def)
  next
    case False
    then show ?thesis using rec name asked
      by (intro exI [of _ "fst (csi_record ci show_attributes m (r @ q) s)"] exI [of _ e1]) (simp add: same_search_def)
  qed
qed

definition names_of :: "'w catalog_state \<Rightarrow> string list" where
  "names_of s = map e_name (cs_list s)"

lemma records_spec:
  assumes keeps: "obtain_keeps ci asked" and "0 \<le> m" and "m < 2 ^ 63" and "\<forall>r \<in> set rs. catalog_record r \<or> entry_record r"
    and "area = pre @ concat rs @ rest" and "p = int (length pre)" and "n = int (length (concat rs))"
    and "int (length (cs_list s)) \<le> m"
  shows "\<exists>s'. asked (cs_world s') = asked (cs_world s) \<and>
    (if int (length (names_of s @ entry_names rs)) \<le> m
     then csi_records ci show_attributes m area p n s = Some (s', None) \<and> names_of s' = names_of s @ entry_names rs \<and>
       (cs_found s' \<longleftrightarrow> cs_found s \<or> (\<exists>r \<in> set rs. finds_catalog r))
     else csi_records ci show_attributes m area p n s = Some (s', Some RTNCD_WARNING) \<and>
       names_of s' = take (nat m) (names_of s @ entry_names rs))"
  using assms(4-)
proof (induction rs arbitrary: pre p n s)
  case Nil
  then show ?case by (subst (1 2) csi_records.simps) (auto simp: names_of_def)
next
  case (Cons r rs)
  have at: "drop (nat p) area = r @ concat rs @ rest" using Cons.prems(2,3) by simp
  have n: "0 < n" using Cons.prems(1,4) by (auto simp: catalog_record_def entry_record_def)
  have left: "n - int (length r) = int (length (concat rs))" using Cons.prems(4) by simp
  have step_on: "area = (pre @ r) @ concat rs @ rest" "p + int (length r) = int (length (pre @ r))" using Cons.prems(2,3) by simp_all
  have good: "\<forall>r \<in> set rs. catalog_record r \<or> entry_record r" using Cons.prems(1) by simp
  consider (cat) "catalog_record r" | (ent) "entry_record r" using Cons.prems(1) by auto
  then show ?case
  proof cases
    case cat
    define s1 where "s1 = (if finds_catalog r then s\<lparr> cs_found := True \<rparr> else s)"
    have s1: "asked (cs_world s1) = asked (cs_world s)" "names_of s1 = names_of s" "cs_list s1 = cs_list s"
      "cs_found s1 \<longleftrightarrow> cs_found s \<or> finds_catalog r" by (auto simp: s1_def names_of_def)
    have "csi_records ci show_attributes m area p n s = csi_records ci show_attributes m area (p + int (length r)) (n - int (length r)) s1"
      using n cat by (subst csi_records.simps) (simp add: at catalog_step s1_def catalog_record_def)
    moreover have "rec_type r = CATALOG_TYPE" using cat by (simp add: catalog_record_def)
    moreover have "int (length (cs_list s1)) \<le> m" using s1 Cons.prems(5) by simp
    moreover obtain s' where "asked (cs_world s') = asked (cs_world s1)"
      "if int (length (names_of s1 @ entry_names rs)) \<le> m
       then csi_records ci show_attributes m area (p + int (length r)) (n - int (length r)) s1 = Some (s', None) \<and>
         names_of s' = names_of s1 @ entry_names rs \<and> (cs_found s' \<longleftrightarrow> cs_found s1 \<or> (\<exists>r \<in> set rs. finds_catalog r))
       else csi_records ci show_attributes m area (p + int (length r)) (n - int (length r)) s1 = Some (s', Some RTNCD_WARNING) \<and>
         names_of s' = take (nat m) (names_of s1 @ entry_names rs)"
      using Cons.IH [OF good step_on left, of s1] calculation(3) by blast
    ultimately show ?thesis using s1 by (intro exI [of _ s']) simp
  next
    case ent
    obtain s1 e where s1: "same_search asked s s1" "e_name e = rec_name r"
      "if m < int (length (cs_list s)) + 1
       then csi_record ci show_attributes m (r @ concat rs @ rest) s = (s1, Inl RTNCD_WARNING) \<and> cs_list s1 = cs_list s
       else csi_record ci show_attributes m (r @ concat rs @ rest) s = (s1, Inr (int (length r))) \<and> cs_list s1 = cs_list s @ [e]"
      using entry_step [OF ent assms(2,3) keeps] by blast
    have ty: "rec_type r \<noteq> CATALOG_TYPE" "\<not> finds_catalog r" using ent by (auto simp: entry_record_def finds_catalog_def)
    show ?thesis
    proof (cases "m < int (length (cs_list s)) + 1")
      case True
      then have "csi_records ci show_attributes m area p n s = Some (s1, Some RTNCD_WARNING)"
        using n s1(3) by (subst csi_records.simps) (simp add: at)
      moreover have "nat m = length (cs_list s)" using True Cons.prems(5) assms(2) by simp
      ultimately show ?thesis using True s1 ty by (auto simp: names_of_def same_search_def)
    next
      case False
      then have "csi_records ci show_attributes m area p n s = csi_records ci show_attributes m area (p + int (length r)) (n - int (length r)) s1"
        using n s1(3) by (subst csi_records.simps) (simp add: at)
      moreover have "names_of s1 = names_of s @ [rec_name r]" using False s1 by (simp add: names_of_def)
      moreover have "int (length (cs_list s1)) \<le> m" using False s1 by simp
      moreover obtain s' where "asked (cs_world s') = asked (cs_world s1)"
      "if int (length (names_of s1 @ entry_names rs)) \<le> m
       then csi_records ci show_attributes m area (p + int (length r)) (n - int (length r)) s1 = Some (s', None) \<and>
         names_of s' = names_of s1 @ entry_names rs \<and> (cs_found s' \<longleftrightarrow> cs_found s1 \<or> (\<exists>r \<in> set rs. finds_catalog r))
       else csi_records ci show_attributes m area (p + int (length r)) (n - int (length r)) s1 = Some (s', Some RTNCD_WARNING) \<and>
         names_of s' = take (nat m) (names_of s1 @ entry_names rs)"
      using Cons.IH [OF good step_on left, of s1] calculation(3) by blast
      ultimately show ?thesis using s1(1) ty unfolding same_search_def by (intro exI [of _ s']) simp
    qed
  qed
qed

section \<open>Calls\<close>

definition good_records :: "byte list list \<Rightarrow> bool" where
  "good_records rs \<longleftrightarrow> (\<forall>r \<in> set rs. catalog_record r \<or> entry_record r)"

text \<open>An area with the records of a call; its flag says whether there is another call.\<close>

definition holds_records :: "nat \<Rightarrow> csi_area \<Rightarrow> byte list list \<Rightarrow> bool \<Rightarrow> bool" where
  "holds_records n a rs again \<longleftrightarrow> number_fields a = int n + 1 \<and> used_size a = sizeof_CSI_HEADER + int (length (concat rs)) \<and>
     take (length (concat rs)) (area_bytes a) = concat rs \<and> good_records rs \<and> (area_resum a = ebcdic CHR ''Y'' \<longleftrightarrow> again)"

definition calls_hold :: "nat \<Rightarrow> (nat \<Rightarrow> csi_area) \<Rightarrow> nat \<Rightarrow> byte list list list \<Rightarrow> bool" where
  "calls_hold n answers k rss \<longleftrightarrow> rss \<noteq> [] \<and>
     (\<forall>i < length rss. holds_records n (answers (k + i)) (rss ! i) (Suc i < length rss))"

lemma calls_hold_Cons:
  assumes "calls_hold n answers k (rs # rss)"
  shows "holds_records n (answers k) rs (rss \<noteq> [])" and "rss \<noteq> [] \<Longrightarrow> calls_hold n answers (Suc k) rss"
proof -
  have all: "holds_records n (answers (k + i)) ((rs # rss) ! i) (Suc i < length (rs # rss))" if "i < length (rs # rss)" for i
    using assms that unfolding calls_hold_def by blast
  show "holds_records n (answers k) rs (rss \<noteq> [])" using all [of 0] by simp
  show "calls_hold n answers (Suc k) rss" if "rss \<noteq> []"
    unfolding calls_hold_def
  proof (intro conjI allI impI that)
    fix i assume "i < length rss"
    then show "holds_records n (answers (Suc k + i)) (rss ! i) (Suc i < length rss)" using all [of "Suc i"] by simp
  qed
qed

lemma search_step:
  assumes "answers_in_turn ci asked answers"
  shows "\<exists>w'. ZDSCSI00 ci w d loaded sel = (w', d, True, 0, Some (answers (asked w))) \<and> asked w' = Suc (asked w)"
proof -
  define w1 where "w1 = (if loaded then w else fst (ci_load ci w))"
  have load: "snd (ci_load ci w)" "asked (fst (ci_load ci w)) = asked w" using assms unfolding answers_in_turn_def by blast+
  have "(if loaded then (w, True) else ci_load ci w) = (w1, True)" and w1: "asked w1 = asked w"
    using load by (simp_all add: w1_def prod_eq_iff)
  moreover have "fst (snd (ci_search ci w1 sel)) = 0" "snd (snd (snd (ci_search ci w1 sel))) = answers (asked w1)"
      "asked (fst (ci_search ci w1 sel)) = Suc (asked w1)"
    using assms unfolding answers_in_turn_def by blast+
  ultimately show ?thesis by (cases "ci_search ci w1 sel") (auto simp: ZDSCSI00_def)
qed

lemma calls_spec:
  fixes ci :: "'w csi_ops"
  assumes turn: "answers_in_turn ci asked answers" and keeps: "obtain_keeps ci asked" and m: "0 \<le> m" "m < 2 ^ 63"
    and "calls_hold (length (csifldnm sel)) answers (asked (cs_world s)) rss" and "int (length (cs_list s)) \<le> m"
  shows "\<exists>s'. if int (length (names_of s @ concat (map entry_names rss))) \<le> m
     then csi_calls ci show_attributes m sel loaded s = Some (s', None) \<and> names_of s' = names_of s @ concat (map entry_names rss) \<and>
       (cs_found s' \<longleftrightarrow> cs_found s \<or> (\<exists>rs \<in> set rss. \<exists>r \<in> set rs. finds_catalog r))
     else csi_calls ci show_attributes m sel loaded s = Some (s', Some RTNCD_WARNING) \<and>
       names_of s' = take (nat m) (names_of s @ concat (map entry_names rss))"
  using assms(5-)
proof (induction rss arbitrary: sel loaded s)
  case Nil
  then show ?case by (simp add: calls_hold_def)
next
  case (Cons rs rss)
  let ?a = "answers (asked (cs_world s))"
  have a: "number_fields ?a - 1 = int (length (csifldnm sel))" "used_size ?a - sizeof_CSI_HEADER = int (length (concat rs))"
      "take (length (concat rs)) (area_bytes ?a) = concat rs" "good_records rs" "area_resum ?a = ebcdic CHR ''Y'' \<longleftrightarrow> rss \<noteq> []"
    using calls_hold_Cons(1) [OF Cons.prems(1)] unfolding holds_records_def by simp_all
  have bytes: "area_bytes ?a = [] @ concat rs @ drop (length (concat rs)) (area_bytes ?a)"
    by (metis a(3) append_Nil append_take_drop_id)
  obtain w1 where w1: "ZDSCSI00 ci (cs_world s) (cs_diag s) loaded sel = (w1, cs_diag s, True, 0, Some ?a)" "asked w1 = Suc (asked (cs_world s))"
    using search_step [OF turn, of "cs_world s" "cs_diag s" loaded sel] by blast
  define s1 where "s1 = s\<lparr> cs_world := w1, cs_diag := cs_diag s \<rparr>"
  have s1: "names_of s1 = names_of s" "cs_list s1 = cs_list s" "cs_found s1 = cs_found s" "asked (cs_world s1) = Suc (asked (cs_world s))"
    using w1(2) by (simp_all add: s1_def names_of_def)
  obtain s2 where s2: "asked (cs_world s2) = Suc (asked (cs_world s))"
    "if int (length (names_of s @ entry_names rs)) \<le> m
     then csi_records ci show_attributes m (area_bytes ?a) 0 (used_size ?a - sizeof_CSI_HEADER) s1 = Some (s2, None) \<and>
       names_of s2 = names_of s @ entry_names rs \<and> (cs_found s2 \<longleftrightarrow> cs_found s \<or> (\<exists>r \<in> set rs. finds_catalog r))
     else csi_records ci show_attributes m (area_bytes ?a) 0 (used_size ?a - sizeof_CSI_HEADER) s1 = Some (s2, Some RTNCD_WARNING) \<and>
       names_of s2 = take (nat m) (names_of s @ entry_names rs)"
    using records_spec [OF keeps m a(4) [unfolded good_records_def] bytes _ a(2), of 0 s1] Cons.prems(2) unfolding s1 by auto
  define ended where "ended = (\<lambda>s :: 'w catalog_state. s\<lparr> cs_world := ZDSDEL ci (cs_world s) True \<rparr>)"
  have ended: "names_of (ended s') = names_of s'" "cs_found (ended s') = cs_found s'" for s'
    by (simp_all add: ended_def names_of_def)
  let ?run = "csi_records ci show_attributes m (area_bytes ?a) 0 (used_size ?a - sizeof_CSI_HEADER) s1"
  let ?sel = "sel\<lparr> csiresum := area_resum ?a \<rparr>"
  have call: "csi_calls ci show_attributes m sel loaded s =
      (case ?run of None \<Rightarrow> None | Some (s2, Some rc2) \<Rightarrow> Some (ended s2, Some rc2)
       | Some (s2, None) \<Rightarrow> if area_resum ?a = ebcdic CHR ''Y'' then csi_calls ci show_attributes m ?sel True s2 else Some (ended s2, None))"
    unfolding csi_calls.simps [of ci show_attributes m sel loaded s] w1(1) Let_def prod.case option.case s1_def [symmetric] ended_def
    using a(1) by (simp only: simp_thms if_False)
  consider (stop) "m < int (length (names_of s @ entry_names rs))" | (last) "int (length (names_of s @ entry_names rs)) \<le> m" "rss = []"
    | (again) "int (length (names_of s @ entry_names rs)) \<le> m" "rss \<noteq> []" by linarith
  then show ?case
  proof cases
    case stop
    then have "csi_calls ci show_attributes m sel loaded s = Some (ended s2, Some RTNCD_WARNING)" using call s2(2) by simp
    moreover have "names_of s2 = take (nat m) (names_of s @ entry_names rs @ qs)" for qs using stop s2(2) m(1) by simp
    ultimately show ?thesis using stop by (intro exI [of _ "ended s2"]) (simp add: ended)
  next
    case last
    then have "csi_calls ci show_attributes m sel loaded s = Some (ended s2, None)" using call s2(2) a(5) by simp
    then show ?thesis using last s2(2) by (intro exI [of _ "ended s2"]) (simp add: ended)
  next
    case again
    then have go: "csi_calls ci show_attributes m sel loaded s = csi_calls ci show_attributes m ?sel True s2" using call s2(2) a(5) by simp
    have hold: "calls_hold (length (csifldnm ?sel)) answers (asked (cs_world s2)) rss"
      using calls_hold_Cons(2) [OF Cons.prems(1) again(2)] s2(1) by simp
    have room: "int (length (cs_list s2)) \<le> m" using again(1) s2(2) by (metis length_map names_of_def)
    obtain s' where "if int (length (names_of s2 @ concat (map entry_names rss))) \<le> m
       then csi_calls ci show_attributes m sel loaded s = Some (s', None) \<and> names_of s' = names_of s2 @ concat (map entry_names rss) \<and>
         (cs_found s' \<longleftrightarrow> cs_found s2 \<or> (\<exists>rs \<in> set rss. \<exists>r \<in> set rs. finds_catalog r))
       else csi_calls ci show_attributes m sel loaded s = Some (s', Some RTNCD_WARNING) \<and>
         names_of s' = take (nat m) (names_of s2 @ concat (map entry_names rss))"
      using Cons.IH [OF hold room] unfolding go by blast
    then show ?thesis using again(1) s2(2) by (intro exI [of _ s']) simp
  qed
qed

section \<open>The listing\<close>

text \<open>C16. A search interface that answers with good records, over any number of calls: the listing returns the names
  of the entries of all catalogs over all calls, in their order, up to the limit. It succeeds only when all of them
  fit and some catalog was found; otherwise it returns a warning.\<close>

theorem catalog_listing:
  assumes turn: "answers_in_turn ci asked answers" and keeps: "obtain_keeps ci asked" and "ci_malloc31 ci"
    and m: "ll_max_entries (set_limits limits) = m" "0 \<le> m" "m < 2 ^ 63"
    and n: "n = (if show_attributes then length catalog_field_names else 0)"
    and "min_buffer_size n \<le> ll_buffer_size (set_limits limits)" and hold: "calls_hold n answers (asked w) rss"
  shows "\<exists>w' d' entries. zds_list_data_sets ci w d limits dsn [] show_attributes =
      Some (w', d', entries, if int (length (concat (map entry_names rss))) \<le> m \<and> (\<exists>rs \<in> set rss. \<exists>r \<in> set rs. finds_catalog r)
                             then RTNCD_SUCCESS else RTNCD_WARNING) \<and>
    map e_name entries = take (nat m) (concat (map entry_names rss))"
proof -
  define names where "names = concat (map entry_names rss)"
  define sel where "sel = \<lparr> csifiltk = pad_to MAX_DS_LENGTH (map toupper dsn),
    csifldnm = map (pad_to 8) (if show_attributes then catalog_field_names else []), csiresum = ebcdic SPACE,
    total_size = ll_buffer_size (set_limits limits) - min_buffer_size n \<rparr>"
  define s where "s = \<lparr> cs_world = w, cs_diag = d, cs_found = False, cs_list = [] \<rparr>"
  have start: "cs_list s = []" "names_of s @ xs = xs" "cs_found s = False" for xs by (simp_all add: s_def names_of_def)
  have room: "int (length (cs_list s)) \<le> m" using m(2) start(1) by simp
  have "length (csifldnm sel) = n" by (simp add: sel_def n)
  then have "calls_hold (length (csifldnm sel)) answers (asked (cs_world s)) rss" using hold by (simp add: s_def)
  then obtain s' where s': "if int (length names) \<le> m
     then csi_calls ci show_attributes m sel False s = Some (s', None) \<and> names_of s' = names \<and>
       (cs_found s' \<longleftrightarrow> (\<exists>rs \<in> set rss. \<exists>r \<in> set rs. finds_catalog r))
     else csi_calls ci show_attributes m sel False s = Some (s', Some RTNCD_WARNING) \<and> names_of s' = take (nat m) names"
    using calls_spec [OF turn keeps m(2,3) _ room, of sel rss show_attributes False] unfolding start(2,3) simp_thms names_def by blast
  have fits: "(ll_buffer_size (set_limits limits) < min_buffer_size n) = False" using assms(8) by simp
  have listing: "zds_list_data_sets ci w d limits dsn [] show_attributes =
     map_option (\<lambda>(s, ended).
       (cs_world s,
        (case ended of
           Some _ \<Rightarrow> cs_diag s
         | None \<Rightarrow> if cs_found s then cs_diag s
                  else catalog_error ZDS_RSNCD_NOT_FOUND (- 6) ''Not found in any catalog'' (cs_diag s)),
        cs_list s,
        (case ended of Some rc \<Rightarrow> rc | None \<Rightarrow> if cs_found s then RTNCD_SUCCESS else RTNCD_WARNING)))
     (csi_calls ci show_attributes m sel False s)"
  proof -
    have len: "length (if show_attributes then catalog_field_names else []) = n" by (simp add: n)
    show ?thesis
      unfolding zds_list_data_sets_def Let_def len fits if_False m(1) s_def [symmetric] sel_def [symmetric]
      using assms(3) by (simp only: simp_thms if_False)
  qed
  show ?thesis unfolding names_def [symmetric] listing using s' m(2)
    by (cases "int (length names) \<le> m") (auto simp: names_of_def)
qed

text \<open>A search interface of two calls: a catalog with an entry, and another entry.\<close>

definition csi_sample_entry :: "byte \<Rightarrow> string \<Rightarrow> byte list" where
  "csi_sample_entry t dsn = [0x80, t] @ map ebcdic (pad_to 44 dsn) @ [0, 0, 0, 4]"

definition csi_sample_records :: "byte list list list" where
  "csi_sample_records = [[[0, CATALOG_TYPE] @ replicate 48 0, csi_sample_entry (ebcdic CHR ''A'') ''HLQ.A''],
     [csi_sample_entry (ebcdic CHR ''C'') ''HLQ.B'']]"

definition csi_sample_area :: "byte list list \<Rightarrow> byte \<Rightarrow> csi_area" where
  "csi_sample_area rs resume = \<lparr> number_fields = 1, used_size = 14 + int (length (concat rs)), area_bytes = concat rs, area_resum = resume \<rparr>"

fun csi_sample_answers :: "nat \<Rightarrow> csi_area" where
  "csi_sample_answers 0 = csi_sample_area (csi_sample_records ! 0) (ebcdic CHR ''Y'')"
| "csi_sample_answers (Suc k) = csi_sample_area (csi_sample_records ! 1) (ebcdic CHR ''N'')"

definition sample_csi :: "nat csi_ops" where
  "sample_csi = \<lparr> ci_malloc31 = True, ci_load = (\<lambda>w. (w, True)), ci_search = (\<lambda>w _. (Suc w, 0, 0, csi_sample_answers w)),
     ci_delete = (\<lambda>w. w), ci_obtain = (\<lambda>w _ _. (w, 8, [])), ci_workarea = ''0'', ci_symbol = (\<lambda>_. (0, '''')) \<rparr>"

lemma csi_sample_name:
  assumes "length dsn \<le> 44" and "NUL \<notin> set dsn"
  shows "rec_name (csi_sample_entry t dsn) = pad_to 44 dsn"
proof -
  have "\<forall>c \<in> set (pad_to 44 dsn). ebcdic c \<noteq> 0" using assms by (auto simp: pad_to_def ebcdic_zero)
  then have whole: "takeWhile (\<lambda>b. b \<noteq> 0) (map ebcdic (pad_to 44 dsn)) = map ebcdic (pad_to 44 dsn)" by (simp add: takeWhile_eq_all_conv)
  have "length (pad_to 44 dsn) = 44" using assms(1) by (simp add: pad_to_def)
  then have "take 44 (drop 2 (csi_sample_entry t dsn)) = map ebcdic (pad_to 44 dsn)" by (simp add: csi_sample_entry_def)
  then show ?thesis unfolding rec_name_def buffer_text_def by (simp only: whole) (simp add: comp_def)
qed

lemma csi_sample_good:
  assumes "length dsn \<le> 44" and "t = ebcdic CHR ''A'' \<or> t = ebcdic CHR ''C''"
  shows "entry_record (csi_sample_entry t dsn)" and "rec_type (csi_sample_entry t dsn) \<noteq> CATALOG_TYPE"
proof -
  have long: "length (pad_to 44 dsn) = 44" using assms by (simp add: pad_to_def)
  have "drop 46 (csi_sample_entry t dsn) = [0, 0, 0, 4]" using long by (simp add: csi_sample_entry_def)
  then have "rec_total_len (csi_sample_entry t dsn) = be32s [0, 0, 0, 4]" by (simp only: rec_total_len_def)
  also have "\<dots> = 4" by code_simp
  finally have total: "rec_total_len (csi_sample_entry t dsn) = 4" .
  have len: "length (csi_sample_entry t dsn) = 50" using long by (simp add: csi_sample_entry_def)
  have ty: "rec_type (csi_sample_entry t dsn) = t" and fl: "rec_flag (csi_sample_entry t dsn) = 0x80" by (simp_all add: csi_sample_entry_def rec_type_def rec_flag_def)
  have codes: "ebcdic CHR ''A'' = 0xC1" "ebcdic CHR ''C'' = 0xC3" by code_simp+
  have "supported_type t" using assms(2) by (auto simp: supported_type_def)
  then show "entry_record (csi_sample_entry t dsn)"
    using assms(2) codes unfolding entry_record_def total len ty fl by (auto simp: CATALOG_TYPE_def ENTRY_ERROR_def NOT_FOUND_def)
  show "rec_type (csi_sample_entry t dsn) \<noteq> CATALOG_TYPE" using assms(2) codes unfolding ty by (auto simp: CATALOG_TYPE_def)
qed

lemma csi_sample_catalog: "catalog_record ([0, CATALOG_TYPE] @ replicate 48 0)" "finds_catalog ([0, CATALOG_TYPE] @ replicate 48 0)"
  "rec_type ([0, CATALOG_TYPE] @ replicate 48 0) = CATALOG_TYPE"
  by (simp_all add: catalog_record_def finds_catalog_def rec_type_def rec_flag_def ERROR_CONDITION_def)

lemma csi_sample_holds: "calls_hold 0 csi_sample_answers 0 csi_sample_records"
proof -
  have resume: "ebcdic CHR ''N'' \<noteq> ebcdic CHR ''Y''" by code_simp
  have "good_records (csi_sample_records ! 0)" "good_records (csi_sample_records ! 1)"
    using csi_sample_good(1) csi_sample_catalog(1) by (simp_all add: good_records_def csi_sample_records_def)
  then have "holds_records 0 (csi_sample_answers 0) (csi_sample_records ! 0) True" "holds_records 0 (csi_sample_answers (Suc 0)) (csi_sample_records ! 1) False"
    using resume unfolding holds_records_def by (simp_all add: csi_sample_area_def sizeof_CSI_HEADER_def)
  moreover have "length csi_sample_records = 2" by (simp add: csi_sample_records_def)
  ultimately show ?thesis unfolding calls_hold_def by (auto simp: numeral_2_eq_2 less_Suc_eq)
qed

theorem catalog_listing_witness:
  "\<exists>w' d' entries. zds_list_data_sets sample_csi 0 zdiag_init \<lparr> ll_buffer_size = 0, ll_max_entries = 1 \<rparr> ''HLQ.*'' [] False =
      Some (w', d', entries, RTNCD_WARNING) \<and> map e_name entries = [pad_to 44 ''HLQ.A'']"
proof -
  have turn: "answers_in_turn sample_csi id csi_sample_answers" "obtain_keeps sample_csi id" "ci_malloc31 sample_csi"
    by (simp_all add: answers_in_turn_def obtain_keeps_def sample_csi_def)
  have names: "concat (map entry_names csi_sample_records) = [pad_to 44 ''HLQ.A'', pad_to 44 ''HLQ.B'']"
    unfolding csi_sample_records_def by (simp add: csi_sample_good(2) csi_sample_catalog(3) csi_sample_name del: append.simps append_Cons)
  have limits: "ll_max_entries (set_limits \<lparr> ll_buffer_size = 0, ll_max_entries = 1 \<rparr>) = 1"
    "min_buffer_size 0 \<le> ll_buffer_size (set_limits \<lparr> ll_buffer_size = 0, ll_max_entries = 1 \<rparr>)"
    by (simp_all add: set_limits_def min_buffer_size_def MIN_BUFFER_FIXED_def sizeof_CSIFIELD_def ZDS_DEFAULT_BUFFER_SIZE_def)
  show ?thesis
    using catalog_listing [OF turn limits(1) _ _ _ limits(2), where show_attributes = False and w = 0 and d = zdiag_init and dsn = "''HLQ.*''" and rss = csi_sample_records]
      csi_sample_holds unfolding names by simp
qed

end
