(* ===== verification/Zusf_Table.thy ===== *)
theory Zusf_Table
  imports Zut
begin

text \<open>
  The names of the coded character sets (\<open>CCSID_DISPLAY_TABLE\<close> of \<open>zusf.cpp\<close>), in the order of the
  source, and the look-up in both directions. Every name is decimal digits or \<open>IBM-\<close> and digits with
  the value of the identifier, or one of 21 special names, so names are unique.
\<close>

definition ccsid_table_1 :: "(int \<times> string) list" where
  "ccsid_table_1 =
    [(37, ''IBM-037''), (256, ''00256''), (259, ''00259''), (273, ''IBM-273''), (274, ''IBM-274''),
     (275, ''IBM-275''), (277, ''IBM-277''), (278, ''IBM-278''), (280, ''IBM-280''), (281, ''IBM-281''),
     (282, ''IBM-282''), (284, ''IBM-284''), (285, ''IBM-285''), (286, ''00286''), (290, ''IBM-290''),
     (293, ''00293''), (297, ''IBM-297''), (300, ''IBM-300''), (301, ''IBM-301''), (367, ''00367''),
     (420, ''IBM-420''), (421, ''00421''), (423, ''00423''), (424, ''IBM-424''), (425, ''IBM-425''),
     (437, ''IBM-437''), (500, ''IBM-500''), (720, ''00720''), (737, ''00737''), (775, ''00775''),
     (803, ''00803''), (806, ''00806''), (808, ''IBM-808''), (813, ''ISO8859-7''), (819, ''ISO8859-1''),
     (833, ''IBM-833''), (834, ''IBM-834''), (835, ''IBM-835''), (836, ''IBM-836''), (837, ''IBM-837''),
     (838, ''IBM-838''), (848, ''IBM-848''), (849, ''00849''), (850, ''IBM-850''), (851, ''00851''),
     (852, ''IBM-852''), (853, ''00853''), (855, ''IBM-855''), (856, ''IBM-856''), (857, ''00857''),
     (858, ''IBM-858''), (859, ''IBM-859''), (860, ''00860''), (861, ''IBM-861''), (862, ''IBM-862''),
     (863, ''00863''), (864, ''IBM-864''), (865, ''00865''), (866, ''IBM-866''), (867, ''IBM-867''),
     (868, ''00868''), (869, ''IBM-869''), (870, ''IBM-870''), (871, ''IBM-871''), (872, ''IBM-872''),
     (874, ''TIS-620''), (875, ''IBM-875''), (876, ''00876''), (878, ''00878''), (880, ''IBM-880''),
     (891, ''00891''), (895, ''00895''), (896, ''00896''), (897, ''00897''), (899, ''00899''),
     (901, ''IBM-901''), (902, ''IBM-902''), (903, ''00903''), (904, ''IBM-904''), (905, ''00905''),
     (912, ''ISO8859-2''), (913, ''00913''), (914, ''ISO8859-4''), (915, ''ISO8859-5''),
     (916, ''ISO8859-8''), (918, ''00918''), (920, ''ISO8859-9''), (921, ''ISO8859-13''),
     (922, ''IBM-922''), (923, ''ISO8859-15''), (924, ''IBM-924''), (926, ''00926''), (927, ''IBM-927''),
     (928, ''IBM-928''), (930, ''IBM-930''), (931, ''00931''), (932, ''IBM-eucJC''), (933, ''IBM-933''),
     (934, ''00934''), (935, ''IBM-935''), (936, ''IBM-936''), (937, ''IBM-937''), (938, ''IBM-938''),
     (939, ''IBM-939''), (941, ''00941''), (942, ''IBM-942''), (943, ''IBM-943''), (944, ''00944''),
     (946, ''IBM-946''), (947, ''IBM-947''), (948, ''IBM-948''), (949, ''IBM-949''), (950, ''BIG5''),
     (951, ''IBM-951''), (952, ''00952''), (953, ''00953''), (954, ''00954''), (955, ''00955''),
     (956, ''IBM-956''), (957, ''IBM-957''), (958, ''IBM-958''), (959, ''IBM-959''), (960, ''00960''),
     (961, ''00961''), (963, ''00963''), (964, ''IBM-eucTW''), (965, ''00965''), (966, ''00966''),
     (970, ''IBM-eucKR''), (971, ''00971''), (1002, ''01002''), (1004, ''01004''), (1006, ''01006''),
     (1008, ''01008''), (1009, ''01009''), (1010, ''01010''), (1011, ''01011''), (1012, ''01012''),
     (1013, ''01013''), (1014, ''01014''), (1015, ''01015''), (1016, ''01016''), (1017, ''01017''),
     (1018, ''01018''), (1019, ''01019''), (1020, ''01020''), (1021, ''01021''), (1023, ''01023''),
     (1025, ''IBM-1025''), (1026, ''IBM-1026'')]"

definition ccsid_table_2 :: "(int \<times> string) list" where
  "ccsid_table_2 =
    [(1027, ''IBM-1027''), (1040, ''01040''), (1041, ''01041''), (1042, ''01042''), (1043, ''01043''),
     (1046, ''IBM-1046''), (1047, ''IBM-1047''), (1051, ''01051''), (1088, ''IBM-1088''),
     (1089, ''ISO8859-6''), (1097, ''01097''), (1098, ''01098''), (1100, ''01100''), (1101, ''01101''),
     (1102, ''01102''), (1103, ''01103''), (1104, ''01104''), (1105, ''01105''), (1106, ''01106''),
     (1107, ''01107''), (1112, ''IBM-1112''), (1114, ''01114''), (1115, ''IBM-1115''),
     (1122, ''IBM-1122''), (1123, ''IBM-1123''), (1124, ''IBM-1124''), (1125, ''IBM-1125''),
     (1126, ''IBM-1126''), (1129, ''01129''), (1130, ''01130''), (1131, ''01131''), (1132, ''01132''),
     (1133, ''01133''), (1137, ''01137''), (1140, ''IBM-1140''), (1141, ''IBM-1141''),
     (1142, ''IBM-1142''), (1143, ''IBM-1143''), (1144, ''IBM-1144''), (1145, ''IBM-1145''),
     (1146, ''IBM-1146''), (1147, ''IBM-1147''), (1148, ''IBM-1148''), (1149, ''IBM-1149''),
     (1153, ''IBM-1153''), (1154, ''IBM-1154''), (1155, ''IBM-1155''), (1156, ''IBM-1156''),
     (1157, ''IBM-1157''), (1158, ''IBM-1158''), (1159, ''IBM-1159''), (1160, ''IBM-1160''),
     (1161, ''IBM-1161''), (1162, ''01162''), (1163, ''01163''), (1164, ''01164''), (1165, ''IBM-1165''),
     (1166, ''01166''), (1167, ''01167''), (1168, ''01168''), (1200, ''01200''), (1202, ''01202''),
     (1208, ''UTF-8''), (1210, ''01210''), (1232, ''01232''), (1250, ''IBM-1250''), (1251, ''IBM-1251''),
     (1252, ''IBM-1252''), (1253, ''IBM-1253''), (1254, ''IBM-1254''), (1255, ''IBM-1255''),
     (1256, ''IBM-1256''), (1257, ''01257''), (1258, ''01258''), (1275, ''01275''), (1276, ''01276''),
     (1277, ''01277''), (1280, ''01280''), (1281, ''01281''), (1282, ''01282''), (1283, ''01283''),
     (1284, ''01284''), (1285, ''01285''), (1287, ''01287''), (1288, ''01288''), (1350, ''01350''),
     (1351, ''01351''), (1362, ''IBM-1362''), (1363, ''IBM-1363''), (1364, ''IBM-1364''),
     (1370, ''IBM-1370''), (1371, ''IBM-1371''), (1374, ''01374''), (1375, ''01375''),
     (1380, ''IBM-1380''), (1381, ''IBM-1381''), (1382, ''01382''), (1383, ''IBM-eucCN''),
     (1385, ''01385''), (1386, ''IBM-1386''), (1388, ''IBM-1388''), (1390, ''IBM-1390''),
     (1391, ''01391''), (1392, ''01392''), (1399, ''IBM-1399''), (4133, ''04133''), (4369, ''04369''),
     (4370, ''04370''), (4371, ''04371''), (4373, ''04373''), (4374, ''04374''), (4376, ''04376''),
     (4378, ''04378''), (4380, ''04380''), (4381, ''04381''), (4386, ''04386''), (4393, ''04393''),
     (4396, ''IBM-4396''), (4397, ''04397''), (4516, ''04516''), (4517, ''04517''), (4519, ''04519''),
     (4520, ''04520''), (4533, ''04533''), (4596, ''04596''), (4899, ''04899''), (4904, ''04904''),
     (4909, ''IBM-4909''), (4929, ''04929''), (4930, ''IBM-4930''), (4931, ''04931''), (4932, ''04932''),
     (4933, ''IBM-4933''), (4934, ''04934''), (4944, ''04944''), (4945, ''04945''), (4946, ''IBM-4946''),
     (4947, ''04947''), (4948, ''04948''), (4949, ''04949''), (4951, ''04951''), (4952, ''04952''),
     (4953, ''04953''), (4954, ''04954''), (4955, ''04955''), (4956, ''04956''), (4957, ''04957''),
     (4958, ''04958''), (4959, ''04959''), (4960, ''04960'')]"

definition ccsid_table_3 :: "(int \<times> string) list" where
  "ccsid_table_3 =
    [(4961, ''04961''), (4962, ''04962''), (4963, ''04963''), (4964, ''04964''), (4965, ''04965''),
     (4966, ''04966''), (4967, ''04967''), (4970, ''04970''), (4971, ''IBM-4971''), (4976, ''04976''),
     (4992, ''04992''), (4993, ''04993''), (5012, ''05012''), (5014, ''05014''), (5023, ''05023''),
     (5026, ''IBM-5026''), (5028, ''05028''), (5029, ''05029''), (5031, ''IBM-5031''), (5033, ''05033''),
     (5035, ''IBM-5035''), (5038, ''05038''), (5039, ''05039''), (5043, ''05043''), (5045, ''05045''),
     (5046, ''05046''), (5047, ''05047''), (5048, ''05048''), (5049, ''05049''), (5050, ''05050''),
     (5052, ''ISO-2022-JP''), (5053, ''IBM-5053''), (5054, ''IBM-5054''), (5055, ''IBM-5055''),
     (5056, ''05056''), (5067, ''05067''), (5100, ''05100''), (5104, ''05104''), (5123, ''IBM-5123''),
     (5137, ''05137''), (5142, ''05142''), (5143, ''05143''), (5210, ''05210''), (5211, ''05211''),
     (5346, ''IBM-5346''), (5347, ''IBM-5347''), (5348, ''IBM-5348''), (5349, ''IBM-5349''),
     (5350, ''IBM-5350''), (5351, ''IBM-5351''), (5352, ''IBM-5352''), (5353, ''05353''),
     (5354, ''05354''), (5470, ''05470''), (5471, ''05471''), (5472, ''05472''), (5473, ''05473''),
     (5476, ''05476''), (5477, ''05477''), (5478, ''05478''), (5479, ''05479''), (5486, ''05486''),
     (5487, ''05487''), (5488, ''IBM-5488''), (5495, ''05495''), (8229, ''08229''), (8448, ''08448''),
     (8482, ''IBM-8482''), (8492, ''08492''), (8493, ''08493''), (8612, ''08612''), (8629, ''08629''),
     (8692, ''08692''), (9025, ''09025''), (9026, ''09026''), (9027, ''IBM-9027''), (9028, ''09028''),
     (9030, ''09030''), (9042, ''09042''), (9044, ''IBM-9044''), (9047, ''09047''), (9048, ''09048''),
     (9049, ''09049''), (9056, ''09056''), (9060, ''09060''), (9061, ''IBM-9061''), (9064, ''09064''),
     (9066, ''09066''), (9088, ''09088''), (9089, ''09089''), (9122, ''09122''), (9124, ''09124''),
     (9125, ''09125''), (9127, ''09127''), (9131, ''09131''), (9139, ''09139''), (9142, ''09142''),
     (9144, ''09144''), (9145, ''09145''), (9146, ''09146''), (9163, ''09163''), (9238, ''IBM-9238''),
     (9306, ''09306''), (9444, ''09444''), (9447, ''09447''), (9448, ''09448''), (9449, ''09449''),
     (9572, ''09572''), (9574, ''09574''), (9575, ''09575''), (9577, ''09577''), (9580, ''09580''),
     (12544, ''12544''), (12588, ''12588''), (12712, ''IBM-12712''), (12725, ''12725''),
     (12788, ''12788''), (13121, ''IBM-13121''), (13124, ''IBM-13124''), (13125, ''13125''),
     (13140, ''13140''), (13143, ''13143''), (13145, ''13145''), (13152, ''13152''), (13156, ''13156''),
     (13157, ''13157''), (13162, ''13162''), (13184, ''13184''), (13185, ''13185''), (13218, ''13218''),
     (13219, ''13219''), (13221, ''13221''), (13223, ''13223''), (13235, ''13235''), (13238, ''13238''),
     (13240, ''13240''), (13241, ''13241''), (13242, ''13242''), (13488, ''UCS-2''), (13671, ''13671''),
     (13676, ''13676''), (16421, ''16421''), (16684, ''IBM-16684''), (16804, ''IBM-16804''),
     (16821, ''16821''), (16884, ''16884''), (17221, ''17221''), (17240, ''17240''),
     (17248, ''IBM-17248''), (17314, ''17314'')]"

definition ccsid_table_4 :: "(int \<times> string) list" where
  "ccsid_table_4 =
    [(17331, ''17331''), (17337, ''17337''), (17354, ''17354''), (17584, ''17584''), (20517, ''20517''),
     (20780, ''20780''), (20917, ''20917''), (20980, ''20980''), (21314, ''21314''), (21317, ''21317''),
     (21344, ''21344''), (21427, ''21427''), (21433, ''21433''), (21450, ''21450''), (21680, ''21680''),
     (24613, ''24613''), (24876, ''24876''), (24877, ''24877''), (25013, ''25013''), (25076, ''25076''),
     (25426, ''25426''), (25427, ''25427''), (25428, ''25428''), (25429, ''25429''), (25431, ''25431''),
     (25432, ''25432''), (25433, ''25433''), (25436, ''25436''), (25437, ''25437''), (25438, ''25438''),
     (25439, ''25439''), (25440, ''25440''), (25441, ''25441''), (25442, ''25442''), (25444, ''25444''),
     (25445, ''25445''), (25450, ''25450''), (25467, ''25467''), (25473, ''25473''), (25479, ''25479''),
     (25480, ''25480''), (25502, ''25502''), (25503, ''25503''), (25504, ''25504''), (25508, ''25508''),
     (25510, ''25510''), (25512, ''25512''), (25514, ''25514''), (25518, ''25518''), (25520, ''25520''),
     (25522, ''25522''), (25524, ''25524''), (25525, ''25525''), (25527, ''25527''), (25546, ''25546''),
     (25580, ''25580''), (25616, ''25616''), (25617, ''25617''), (25618, ''25618''), (25619, ''25619''),
     (25664, ''25664''), (25690, ''25690''), (25691, ''25691''), (28709, ''IBM-28709''),
     (29109, ''29109''), (29172, ''29172''), (29522, ''29522''), (29523, ''29523''), (29524, ''29524''),
     (29525, ''29525''), (29527, ''29527''), (29528, ''29528''), (29529, ''29529''), (29532, ''29532''),
     (29533, ''29533''), (29534, ''29534''), (29535, ''29535''), (29536, ''29536''), (29537, ''29537''),
     (29540, ''29540''), (29541, ''29541''), (29546, ''29546''), (29614, ''29614''), (29616, ''29616''),
     (29618, ''29618''), (29620, ''29620''), (29621, ''29621''), (29623, ''29623''), (29712, ''29712''),
     (29713, ''29713''), (29714, ''29714''), (29715, ''29715''), (29760, ''29760''), (32805, ''32805''),
     (33058, ''33058''), (33205, ''33205''), (33268, ''33268''), (33618, ''33618''), (33619, ''33619''),
     (33620, ''33620''), (33621, ''33621''), (33623, ''33623''), (33624, ''33624''), (33632, ''33632''),
     (33636, ''33636''), (33637, ''33637''), (33665, ''33665''), (33698, ''33698''), (33699, ''33699''),
     (33700, ''33700''), (33717, ''33717''), (33722, ''EUCJP''), (37301, ''37301''), (37719, ''37719''),
     (37728, ''37728''), (37732, ''37732''), (37761, ''37761''), (37813, ''37813''), (41397, ''41397''),
     (41460, ''41460''), (41824, ''41824''), (41828, ''41828''), (45493, ''45493''), (45556, ''45556''),
     (45920, ''45920''), (49589, ''49589''), (49652, ''49652''), (53668, ''IBM-53668''),
     (53685, ''53685''), (53748, ''53748''), (54189, ''54189''), (54191, ''IBM-54191''),
     (54289, ''54289''), (61696, ''61696''), (61697, ''61697''), (61698, ''61698''), (61699, ''61699''),
     (61700, ''61700''), (61710, ''61710''), (61711, ''61711''), (61712, ''61712''), (61953, ''61953''),
     (61956, ''61956''), (62337, ''62337''), (62381, ''62381''), (62383, ''IBM-62383''),
     (65535, ''binary'')]"

definition CCSID_DISPLAY_TABLE :: "(int \<times> string) list" where
  "CCSID_DISPLAY_TABLE = ccsid_table_1 @ ccsid_table_2 @ ccsid_table_3 @ ccsid_table_4"

text \<open>The loop of the source runs over a hash table, in an order that does not matter because names are unique.\<close>

definition zusf_get_ccsid_from_display_name :: "string \<Rightarrow> int" where
  "zusf_get_ccsid_from_display_name display_name =
     (if display_name = ''untagged'' then 0
      else if display_name = ''binary'' then 65535
      else case find (\<lambda>entry. snd entry = display_name) CCSID_DISPLAY_TABLE of Some entry \<Rightarrow> fst entry | None \<Rightarrow> - 1)"

definition zusf_get_ccsid_display_name :: "int \<Rightarrow> string" where
  "zusf_get_ccsid_display_name ccsid =
     (if ccsid \<le> 0 then ''untagged''
      else case map_of CCSID_DISPLAY_TABLE ccsid of Some name \<Rightarrow> name | None \<Rightarrow> show_int ccsid)"

section \<open>Uniqueness\<close>

text \<open>The value of a text of decimal digits.\<close>

fun dec_value :: "int \<Rightarrow> string \<Rightarrow> int option" where
  "dec_value acc [] = Some acc"
| "dec_value acc (c # s) =
     (let k = (of_char c :: int) in if 48 \<le> k \<and> k \<le> 57 then dec_value (acc * 10 + (k - 48)) s else None)"

text \<open>The number a name gives, if it has the regular form.\<close>

definition ccsid_of_name :: "string \<Rightarrow> int option" where
  "ccsid_of_name s =
     (case s of
        [] \<Rightarrow> None
      | c # t \<Rightarrow>
          if c = CHR ''I''
          then (case t of c2 # c3 # c4 # u \<Rightarrow> if [c2, c3, c4] = ''BM-'' \<and> u \<noteq> [] then dec_value 0 u else None | _ \<Rightarrow> None)
          else dec_value 0 s)"

definition regular_entry :: "int \<times> string \<Rightarrow> bool" where
  "regular_entry e \<longleftrightarrow>
     (case ccsid_of_name (snd e) of Some n \<Rightarrow> n = fst e | None \<Rightarrow> True) \<and>
     (case snd e of [] \<Rightarrow> False | c # t \<Rightarrow> 65 \<le> (of_char c :: int) \<or> dec_value 0 (c # t) \<noteq> None)"

lemma regular_tables:
  "list_all regular_entry ccsid_table_1" "list_all regular_entry ccsid_table_2"
  "list_all regular_entry ccsid_table_3" "list_all regular_entry ccsid_table_4"
  by code_simp+

lemma special_tables:
  "distinct (''untagged'' # map snd (filter (\<lambda>e. ccsid_of_name (snd e) = None) CCSID_DISPLAY_TABLE))"
  by code_simp

end
