(* ===== verification/Zusf.thy ===== *)
theory Zusf
  imports Zusf_Table Zds_Write Zjson
begin

text \<open>
  Files and directories of the UNIX system services (\<open>zusf.cpp\<close>): listing, creating, copying, moving,
  changing and deleting them, over the calls of the C library as parameters.

  A call that fails gives its \<open>errno\<close>; \<open>readdir\<close> gives the names of a directory as they were when it was
  opened. Every operation that descends into directories takes a bound on the depth and gives \<open>None\<close>
  when the bound is too small.
\<close>

unbundle bit_operations_syntax

section \<open>Services and state\<close>

text \<open>What the macros \<open>S_ISDIR\<close> and the others tell of a mode.\<close>

datatype file_kind = K_dir | K_link | K_fifo | K_socket | K_char | K_regular | K_other

record file_stats =
  st_mode :: "32 word"
  st_nlink :: int
  st_uid :: "32 word"
  st_gid :: "32 word"
  st_size :: int
  st_mtime :: int
  st_ccsid :: "16 word"
  st_txtflag :: bool

record 'w zusf_ops =
  uo_kind :: "32 word \<Rightarrow> file_kind"
  uo_stat :: "'w \<Rightarrow> string \<Rightarrow> int + file_stats"
  uo_lstat :: "'w \<Rightarrow> string \<Rightarrow> int + file_stats"
  uo_readdir :: "'w \<Rightarrow> string \<Rightarrow> string list option"
  uo_realpath :: "'w \<Rightarrow> string \<Rightarrow> int + string"
  uo_chmod :: "'w \<Rightarrow> string \<Rightarrow> 32 word \<Rightarrow> 'w \<times> int"
  uo_chown :: "'w \<Rightarrow> string \<Rightarrow> 32 word \<Rightarrow> 32 word \<Rightarrow> 'w \<times> int"
  uo_chattr :: "'w \<Rightarrow> string \<Rightarrow> 16 word \<Rightarrow> bool \<Rightarrow> 'w \<times> int"
  uo_mkdir :: "'w \<Rightarrow> string \<Rightarrow> 32 word \<Rightarrow> 'w \<times> int"
  uo_rmdir :: "'w \<Rightarrow> string \<Rightarrow> 'w \<times> int"
  uo_remove :: "'w \<Rightarrow> string \<Rightarrow> 'w \<times> int"
  uo_create :: "'w \<Rightarrow> string \<Rightarrow> 'w \<times> bool"
  uo_run :: "'w \<Rightarrow> string \<Rightarrow> string list \<Rightarrow> 'w \<times> int \<times> string"
  uo_getpwuid :: "32 word \<Rightarrow> string option"
  uo_getgrgid :: "32 word \<Rightarrow> string option"
  uo_getpwnam :: "string \<Rightarrow> 32 word option"
  uo_getgrnam :: "string \<Rightarrow> 32 word option"
  uo_gmtime :: "int \<Rightarrow> string option"
  uo_localtime :: "int \<Rightarrow> string option"

record zusf =
  u_diag :: zdiag
  u_encoding :: zencode
  u_etag :: string
  u_created :: bool

definition usf_message :: "string \<Rightarrow> zusf \<Rightarrow> zusf" where
  "usf_message m z = z\<lparr> u_diag := set_msg m (u_diag z) \<rparr>"

definition path_message :: "string \<Rightarrow> string \<Rightarrow> string \<Rightarrow> zusf \<Rightarrow> zusf" where
  "path_message before path after = usf_message (before @ quoted_name path @ after)"

definition usf_init :: zusf where
  "usf_init = \<lparr> u_diag = zdiag_init, u_encoding = \<lparr> codepage = [], source_codepage = [], data_type = eDataTypeText \<rparr>,
     u_etag = [], u_created = False \<rparr>"

section \<open>Paths, times, modes\<close>

text \<open>The last character of an empty path is not defined; it is none here.\<close>

definition zusf_join_path :: "string \<Rightarrow> string \<Rightarrow> string" where
  "zusf_join_path dir_path name =
     (if dir_path \<noteq> [] \<and> last dir_path = CHR ''/'' then dir_path @ name else dir_path @ ''/'' @ name)"

definition PATH_MAX :: nat where "PATH_MAX = 1024"

definition zusf_is_valid_path :: "string \<Rightarrow> bool" where
  "zusf_is_valid_path path \<longleftrightarrow> path \<noteq> [] \<and> length path \<le> PATH_MAX"

text \<open>\<open>file.substr(file.find_last_of("/") + 1)\<close>, and \<open>file.substr(0, file.find_last_of("/"))\<close>, which is
  the whole text when there is no slash.\<close>

definition after_last_slash :: "string \<Rightarrow> string" where
  "after_last_slash file = rev (takeWhile (\<lambda>c. c \<noteq> CHR ''/'') (rev file))"

definition before_last_slash :: "string \<Rightarrow> string option" where
  "before_last_slash file =
     (if CHR ''/'' \<in> set file then Some (rev (tl (dropWhile (\<lambda>c. c \<noteq> CHR ''/'') (rev file)))) else None)"

definition zusf_format_ls_time :: "'w zusf_ops \<Rightarrow> int \<Rightarrow> bool \<Rightarrow> string" where
  "zusf_format_ls_time ops mtime use_csv_format =
     (if use_csv_format
      then (case uo_gmtime ops mtime of Some s \<Rightarrow> s | None \<Rightarrow> ''1970-01-01T00:00:00'')
      else (case uo_localtime ops mtime of Some s \<Rightarrow> s | None \<Rightarrow> replicate 12 SPACE))"

definition mode_char :: "32 word \<Rightarrow> 32 word \<Rightarrow> char \<Rightarrow> char" where
  "mode_char mode bits c = (if mode AND bits \<noteq> 0 then c else CHR ''-'')"

definition zusf_build_mode_string :: "(32 word \<Rightarrow> file_kind) \<Rightarrow> 32 word \<Rightarrow> string" where
  "zusf_build_mode_string kind mode =
     (case kind mode of K_dir \<Rightarrow> CHR ''d'' | K_link \<Rightarrow> CHR ''l'' | K_fifo \<Rightarrow> CHR ''p'' | K_socket \<Rightarrow> CHR ''s''
      | K_char \<Rightarrow> CHR ''c'' | _ \<Rightarrow> CHR ''-'') #
     [mode_char mode 0x100 CHR ''r'', mode_char mode 0x80 CHR ''w'', mode_char mode 0x40 CHR ''x'',
      mode_char mode 0x20 CHR ''r'', mode_char mode 0x10 CHR ''w'', mode_char mode 0x08 CHR ''x'',
      mode_char mode 0x04 CHR ''r'', mode_char mode 0x02 CHR ''w'', mode_char mode 0x01 CHR ''x'']"

definition is_kind :: "'w zusf_ops \<Rightarrow> file_kind \<Rightarrow> file_stats \<Rightarrow> bool" where
  "is_kind ops k st \<longleftrightarrow> uo_kind ops (st_mode st) = k"

definition zusf_get_file_ccsid :: "'w zusf_ops \<Rightarrow> 'w \<Rightarrow> zusf \<Rightarrow> string \<Rightarrow> zusf \<times> int" where
  "zusf_get_file_ccsid ops w z file =
     (case uo_stat ops w file of
        Inl _ \<Rightarrow> (path_message ''Path '' file '' does not exist'' z, RTNCD_FAILURE)
      | Inr st \<Rightarrow> if is_kind ops K_dir st then (path_message ''Path '' file '' is a directory'' z, RTNCD_FAILURE)
          else (z, uint (st_ccsid st)))"

section \<open>Owners\<close>

definition zusf_get_owner_from_uid :: "'w zusf_ops \<Rightarrow> 32 word \<Rightarrow> string" where
  "zusf_get_owner_from_uid ops uid = (case uo_getpwuid ops uid of Some s \<Rightarrow> s | None \<Rightarrow> [])"

definition zusf_get_group_from_gid :: "'w zusf_ops \<Rightarrow> 32 word \<Rightarrow> string" where
  "zusf_get_group_from_gid ops gid = (case uo_getgrgid ops gid of Some s \<Rightarrow> s | None \<Rightarrow> [])"

definition only_digits :: "string \<Rightarrow> bool" where
  "only_digits s \<longleftrightarrow> (\<forall>c \<in> set s. is_ascii_dec_digit c)"

text \<open>\<open>resolve_uid_from_str\<close> and \<open>resolve_gid_from_str\<close> differ in the data base; \<open>strtoul\<close> stops at the
  greatest \<open>unsigned long\<close>, which is out of range anyway.\<close>

definition resolve_id_from_str :: "(string \<Rightarrow> 32 word option) \<Rightarrow> string \<Rightarrow> 32 word option" where
  "resolve_id_from_str lookup s =
     (if s = [] then Some (- 1)
      else if only_digits s
      then (let v = digits_value 10 s in if v < 2 ^ 32 then Some (of_nat v) else None)
      else lookup s)"

definition split_owner :: "string \<Rightarrow> string \<times> string" where
  "split_owner owner =
     (let user = takeWhile (\<lambda>c. c \<noteq> CHR '':'') owner
      in (user, if CHR '':'' \<in> set owner then drop (length user + 1) owner else []))"

text \<open>The user and the group of \<open>zusf_chown_uss_file_or_dir\<close>, or the message of its refusal.\<close>

definition resolve_owner :: "'w zusf_ops \<Rightarrow> string \<Rightarrow> 32 word \<Rightarrow> string + 32 word \<times> 32 word" where
  "resolve_owner ops owner current_gid =
     (let (user_part, group_part) = split_owner owner
      in case resolve_id_from_str (uo_getpwnam ops) user_part of
           None \<Rightarrow> Inl (''chown error: invalid user '' @ quoted_name user_part)
         | Some uid \<Rightarrow>
             (case resolve_id_from_str (uo_getgrnam ops) group_part of
                None \<Rightarrow> Inl (''chown error: invalid group '' @ quoted_name group_part)
              | Some gid \<Rightarrow>
                  if uid = - 1 \<and> gid = - 1 then Inl ''chown error: neither user nor group specified''
                  else Inr (uid, if gid = - 1 then current_gid else gid)))"

section \<open>Tags\<close>

definition LONG_MAX :: int where "LONG_MAX = 2 ^ 63 - 1"

text \<open>The coded character set that a tag names: a number that fills the text, cut to an \<open>int\<close>, or a name.\<close>

definition resolve_tag :: "string \<Rightarrow> int option" where
  "resolve_tag tag =
     (let (parsed_ccsid, n) = strtoll_dec (c_str tag)
      in if n = length (c_str tag) \<and> parsed_ccsid \<noteq> LONG_MAX \<and> parsed_ccsid \<noteq> - LONG_MAX - 1
         then Some (sint (word_of_int parsed_ccsid :: 32 word))
         else let ccsid = zusf_get_ccsid_from_display_name tag in if ccsid = - 1 then None else Some ccsid)"

section \<open>Recursion\<close>

text \<open>The loops over the entries of a directory: the first return code that is not 0 ends them.\<close>

definition real_entry :: "string \<Rightarrow> bool" where
  "real_entry n \<longleftrightarrow> n \<noteq> ''.'' \<and> n \<noteq> ''..''"

fun each_entry :: "('w \<Rightarrow> zusf \<Rightarrow> string \<Rightarrow> ('w \<times> zusf \<times> int) option) \<Rightarrow> 'w \<Rightarrow> zusf \<Rightarrow> string list \<Rightarrow> ('w \<times> zusf \<times> int) option" where
  "each_entry f w z [] = Some (w, z, 0)"
| "each_entry f w z (n # ns) =
     (if \<not> real_entry n then each_entry f w z ns
      else case f w z n of
        None \<Rightarrow> None
      | Some (w', z', rc) \<Rightarrow> if rc \<noteq> 0 then Some (w', z', rc) else each_entry f w' z' ns)"

text \<open>
  The answer of the unchecked \<open>stat\<close> of a child: \<open>S_ISDIR\<close> of an uninitialized structure when it fails,
  given by \<open>garbage\<close>.
\<close>

definition child_is_dir :: "'w zusf_ops \<Rightarrow> bool \<Rightarrow> int + file_stats \<Rightarrow> bool" where
  "child_is_dir ops garbage r = (case r of Inl _ \<Rightarrow> garbage | Inr st \<Rightarrow> is_kind ops K_dir st)"

fun zusf_chmod_uss_file_or_dir ::
    "nat \<Rightarrow> 'w zusf_ops \<Rightarrow> bool \<Rightarrow> 'w \<Rightarrow> zusf \<Rightarrow> string \<Rightarrow> 32 word \<Rightarrow> bool \<Rightarrow> ('w \<times> zusf \<times> int) option" where
  "zusf_chmod_uss_file_or_dir 0 ops garbage w z file mode recursive = None"
| "zusf_chmod_uss_file_or_dir (Suc depth) ops garbage w z file mode recursive =
     (case uo_stat ops w file of
        Inl _ \<Rightarrow> Some (w, path_message ''Path '' file '' does not exist'' z, RTNCD_FAILURE)
      | Inr st \<Rightarrow>
          if \<not> recursive \<and> is_kind ops K_dir st
          then Some (w, path_message ''Path '' file '' is a folder and recursive is false'' z, RTNCD_FAILURE)
          else let (w1, _) = uo_chmod ops w file mode
               in if recursive \<and> is_kind ops K_dir st
                  then (case uo_readdir ops w1 file of
                          None \<Rightarrow> Some (w1, path_message ''Could not open directory '' file [] z, RTNCD_FAILURE)
                        | Some names \<Rightarrow>
                            each_entry (\<lambda>w' z' n. zusf_chmod_uss_file_or_dir depth ops garbage w' z' (zusf_join_path file n) mode
                                (child_is_dir ops garbage (uo_stat ops w' (zusf_join_path file n)))) w1 z names)
                  else Some (w1, z, 0))"

fun zusf_delete_uss_item ::
    "nat \<Rightarrow> 'w zusf_ops \<Rightarrow> 'w \<Rightarrow> zusf \<Rightarrow> string \<Rightarrow> bool \<Rightarrow> ('w \<times> zusf \<times> int) option" where
  "zusf_delete_uss_item 0 ops w z file recursive = None"
| "zusf_delete_uss_item (Suc depth) ops w z file recursive =
     (case uo_lstat ops w file of
        Inl _ \<Rightarrow> Some (w, path_message ''Path '' file '' does not exist'' z, RTNCD_FAILURE)
      | Inr st \<Rightarrow>
          let is_dir = is_kind ops K_dir st
          in if is_dir \<and> \<not> recursive
             then Some (w, path_message ''Path '' file '' is a directory and recursive was false'' z, RTNCD_FAILURE)
             else (case (if is_dir
                         then (case uo_readdir ops w file of
                                 None \<Rightarrow> Some (w, path_message ''Could not open directory '' file [] z, RTNCD_FAILURE)
                               | Some names \<Rightarrow>
                                   each_entry (\<lambda>w' z' n.
                                     let child_path = zusf_join_path file n
                                     in case uo_lstat ops w' child_path of
                                          Inl _ \<Rightarrow> Some (w', path_message ''Could not stat child path '' child_path [] z', RTNCD_FAILURE)
                                        | Inr child_stats \<Rightarrow>
                                            zusf_delete_uss_item depth ops w' z' child_path (is_kind ops K_dir child_stats))
                                     w z names)
                         else Some (w, z, 0)) of
                     None \<Rightarrow> None
                   | Some (w1, z1, rc) \<Rightarrow>
                       if rc \<noteq> 0 then Some (w1, z1, rc)
                       else let (w2, err) = (if is_dir then uo_rmdir ops w1 file else uo_remove ops w1 file)
                            in if err \<noteq> 0
                               then Some (w2, usf_message (''Could not delete '' @ quoted_name file @ '', rc: '' @ show_int err) z1, RTNCD_FAILURE)
                               else Some (w2, z1, 0)))"

fun zusf_chown_uss_file_or_dir ::
    "nat \<Rightarrow> 'w zusf_ops \<Rightarrow> 'w \<Rightarrow> zusf \<Rightarrow> string \<Rightarrow> string \<Rightarrow> bool \<Rightarrow> ('w \<times> zusf \<times> int) option" where
  "zusf_chown_uss_file_or_dir 0 ops w z file owner recursive = None"
| "zusf_chown_uss_file_or_dir (Suc depth) ops w z file owner recursive =
     (case uo_stat ops w file of
        Inl _ \<Rightarrow> Some (w, path_message ''Path '' file '' does not exist'' z, RTNCD_FAILURE)
      | Inr st \<Rightarrow>
          if is_kind ops K_dir st \<and> \<not> recursive
          then Some (w, path_message ''Path '' file '' is a folder and recursive is false'' z, RTNCD_FAILURE)
          else case resolve_owner ops owner (st_gid st) of
            Inl m \<Rightarrow> Some (w, usf_message m z, RTNCD_FAILURE)
          | Inr (uid, gid) \<Rightarrow>
              let (w1, err) = uo_chown ops w file uid gid
              in if err \<noteq> 0
                 then Some (w1, usf_message (''chown failed for path '' @ quoted_name file @ '', errno '' @ show_int err) z, RTNCD_FAILURE)
                 else if recursive \<and> is_kind ops K_dir st
                 then (case uo_readdir ops w1 file of
                         None \<Rightarrow> Some (w1, path_message ''Could not open directory '' file [] z, RTNCD_FAILURE)
                       | Some names \<Rightarrow>
                           each_entry (\<lambda>w' z' n.
                             let child_path = zusf_join_path file n
                             in case uo_stat ops w' child_path of
                                  Inl _ \<Rightarrow> Some (w', path_message ''Could not stat child path '' child_path [] z', RTNCD_FAILURE)
                                | Inr child_stats \<Rightarrow>
                                    zusf_chown_uss_file_or_dir depth ops w' z' child_path owner (is_kind ops K_dir child_stats))
                             w1 z names)
                 else Some (w1, z, 0))"

fun zusf_chtag_uss_file_or_dir ::
    "nat \<Rightarrow> 'w zusf_ops \<Rightarrow> bool \<Rightarrow> 'w \<Rightarrow> zusf \<Rightarrow> string \<Rightarrow> string \<Rightarrow> bool \<Rightarrow> ('w \<times> zusf \<times> int) option" where
  "zusf_chtag_uss_file_or_dir 0 ops garbage w z file tag recursive = None"
| "zusf_chtag_uss_file_or_dir (Suc depth) ops garbage w z file tag recursive =
     (case uo_stat ops w file of
        Inl _ \<Rightarrow> Some (w, path_message ''Path '' file '' does not exist'' z, RTNCD_FAILURE)
      | Inr st \<Rightarrow>
          case resolve_tag tag of
            None \<Rightarrow> Some (w, usf_message (''Invalid tag '' @ quoted_name tag @ '' - not a valid CCSID or display name'') z, RTNCD_FAILURE)
          | Some ccsid \<Rightarrow>
              if \<not> is_kind ops K_dir st
              then let (w1, err) = uo_chattr ops w file (word_of_int ccsid) (ccsid \<noteq> 65535 \<and> ccsid \<noteq> 0)
                   in if err \<noteq> 0 then Some (w1, path_message ''Failed to update attributes for path '' file [] z, RTNCD_FAILURE)
                      else Some (w1, z, 0)
              else if recursive
              then (case uo_readdir ops w file of
                      None \<Rightarrow> Some (w, path_message ''Could not open directory '' file [] z, RTNCD_FAILURE)
                    | Some names \<Rightarrow>
                        each_entry (\<lambda>w' z' n. zusf_chtag_uss_file_or_dir depth ops garbage w' z' (zusf_join_path file n) tag
                            (child_is_dir ops garbage (uo_stat ops w' (zusf_join_path file n)))) w z names)
              else Some (w, z, 0))"

text \<open>\<open>atoi\<close> and the conversion to \<open>short\<close>; the digits are taken to fit a \<open>long\<close>.\<close>

definition zusf_get_id_from_user_or_group :: "'w zusf_ops \<Rightarrow> string \<Rightarrow> bool \<Rightarrow> int" where
  "zusf_get_id_from_user_or_group ops user_or_group is_user =
     (if only_digits user_or_group then sint (of_nat (digits_value 10 user_or_group) :: 16 word)
      else case (if is_user then uo_getpwnam ops user_or_group else uo_getgrnam ops user_or_group) of
        Some ident \<Rightarrow> sint (ucast ident :: 16 word)
      | None \<Rightarrow> - 1)"

section \<open>Creating, copying and moving\<close>

record copy_options =
  co_recursive :: bool
  co_follow_symlinks :: bool
  co_preserve_attributes :: bool
  co_force :: bool

definition is_fifo :: "'w zusf_ops \<Rightarrow> 'w \<Rightarrow> string \<Rightarrow> bool" where
  "is_fifo ops w path = (case uo_stat ops w path of Inl _ \<Rightarrow> False | Inr st \<Rightarrow> is_kind ops K_fifo st)"

definition copy_arguments :: "copy_options \<Rightarrow> string \<Rightarrow> string \<Rightarrow> string list" where
  "copy_arguments opts source_path destination_path =
     (if co_recursive opts then [''-R''] else []) @ (if co_follow_symlinks opts then [''-L''] else []) @
     (if co_preserve_attributes opts then [''-p''] else []) @ (if co_force opts then [''-f''] else []) @
     [''--'', source_path, destination_path]"

definition zusf_copy_file_or_dir ::
    "'w zusf_ops \<Rightarrow> 'w \<Rightarrow> zusf \<Rightarrow> string \<Rightarrow> string \<Rightarrow> copy_options \<Rightarrow> 'w \<times> zusf \<times> int" where
  "zusf_copy_file_or_dir ops w z source_path destination_path opts =
     (if \<not> zusf_is_valid_path source_path \<or> \<not> zusf_is_valid_path destination_path
      then (w, usf_message ''Source or target path is empty or too long'' z, RTNCD_FAILURE)
      else if co_follow_symlinks opts \<and> \<not> co_recursive opts
      then (w, usf_message ''follow symlinks option requires setting the recursive flag'' z, RTNCD_FAILURE)
      else if is_fifo ops w source_path
      then (w, usf_message ''we do not support copying from named pipes'' z, RTNCD_FAILURE)
      else if is_fifo ops w destination_path
      then (w, usf_message ''we do not support copying to named pipes'' z, RTNCD_FAILURE)
      else let (w', rc, stderr_resp) = uo_run ops w ''cp'' (copy_arguments opts source_path destination_path)
           in if 0 < rc
              then (w', usf_message (''Failed to copy '' @ source_path @ '' to '' @ destination_path @ '', errno: '' @ show_int rc
                      @ [NL] @ ''stderr: '' @ stderr_resp) z, RTNCD_FAILURE)
              else (w', z, rc))"

text \<open>\<open>%08o\<close>.\<close>

fun octal_digits :: "nat \<Rightarrow> nat \<Rightarrow> string" where
  "octal_digits 0 n = []"
| "octal_digits (Suc k) n = octal_digits k (n div 8) @ [digit_char (n mod 8)]"

definition format_08o :: "32 word \<Rightarrow> string" where
  "format_08o m = (if unat m < 8 ^ 8 then octal_digits 8 (unat m)
                   else if unat m < 8 ^ 9 then octal_digits 9 (unat m)
                   else if unat m < 8 ^ 10 then octal_digits 10 (unat m) else octal_digits 11 (unat m))"

record create_options =
  cr_create_dir :: bool
  cr_overwrite :: bool

definition exists_message :: "'w zusf_ops \<Rightarrow> string \<Rightarrow> file_stats \<Rightarrow> string" where
  "exists_message ops file st =
     (if is_kind ops K_regular st then ''File '' @ quoted_name file @ '' already exists''
      else if is_kind ops K_dir st then ''Directory '' @ quoted_name file @ '' already exists''
      else ''Path '' @ quoted_name file @ '' already exists! Mode: '' @ quoted_name (format_08o (st_mode st)))"

lemma before_last_slash_shorter: "before_last_slash s = Some p \<Longrightarrow> length p < length s"
proof -
  assume p: "before_last_slash s = Some p"
  then have "CHR ''/'' \<in> set (rev s)" by (simp add: before_last_slash_def split: if_splits)
  then have "dropWhile (\<lambda>c. c \<noteq> CHR ''/'') (rev s) \<noteq> []" by (simp add: dropWhile_eq_Nil_conv)
  moreover have "length (dropWhile (\<lambda>c. c \<noteq> CHR ''/'') (rev s)) \<le> length (rev s)" by (rule length_dropWhile_le)
  ultimately show "length p < length s"
    using p by (cases "dropWhile (\<lambda>c. c \<noteq> CHR ''/'') (rev s)") (auto simp: before_last_slash_def split: if_splits)
qed

text \<open>The recursion to the parent directory ends because its path is shorter.\<close>

function zusf_create_uss_file_or_dir ::
    "'w zusf_ops \<Rightarrow> 'w \<Rightarrow> zusf \<Rightarrow> string \<Rightarrow> 32 word \<Rightarrow> create_options \<Rightarrow> 'w \<times> zusf \<times> int"
  and create_item ::
    "'w zusf_ops \<Rightarrow> 'w \<Rightarrow> zusf \<Rightarrow> string \<Rightarrow> 32 word \<Rightarrow> create_options \<Rightarrow> 'w \<times> zusf \<times> int" where
  "zusf_create_uss_file_or_dir ops w z file mode opts =
     (case uo_stat ops w file of
        Inr st \<Rightarrow>
          if \<not> cr_overwrite opts then (w, usf_message (exists_message ops file st) z, RTNCD_WARNING)
          else create_item ops w z file mode opts
      | Inl _ \<Rightarrow> create_item ops w z file mode opts)"
| "create_item ops w z file mode opts =
     (if cr_create_dir opts
      then let (w1, z1, rc1) =
             (case before_last_slash file of
                None \<Rightarrow> (w, z, 0)
              | Some parent_path \<Rightarrow>
                  (case uo_stat ops w parent_path of
                     Inr _ \<Rightarrow> (w, z, 0)
                   | Inl _ \<Rightarrow> zusf_create_uss_file_or_dir ops w z parent_path mode \<lparr> cr_create_dir = True, cr_overwrite = False \<rparr>))
           in if rc1 \<noteq> 0 then (w1, z1, rc1)
              else let (w2, err) = uo_mkdir ops w1 file mode;
                       z2 = (if err \<noteq> 0
                             then usf_message (''Failed to create directory '' @ quoted_name file @ '', errno: '' @ show_int err) z1
                             else z1);
                       (w3, _) = uo_chmod ops w2 file mode
                   in (w3, z2, if err \<noteq> 0 then - 1 else 0)
      else let (w1, opened) = uo_create ops w file
           in if opened then (let (w2, _) = uo_chmod ops w1 file mode in (w2, z, RTNCD_SUCCESS))
              else (w1, path_message ''Could not create '' file [] z, RTNCD_FAILURE))"
  by pat_completeness auto
termination
  by (relation "measure (\<lambda>x. case x of Inl (_, _, _, file, _, _) \<Rightarrow> 2 * length file + 1 | Inr (_, _, _, file, _, _) \<Rightarrow> 2 * length file)")
    (auto dest: before_last_slash_shorter)

declare zusf_create_uss_file_or_dir.simps [simp del] create_item.simps [simp del]

definition shorten_path :: "string \<Rightarrow> string" where
  "shorten_path s = (if 100 < length s then ''...'' @ drop (length s - 100) s else s)"

text \<open>
  \<open>realpath\<close> is called for a path that \<open>stat\<close> finds; otherwise the resolved path stays uninitialized
  (\<open>garbage\<close> is the comparison's result then) and the stats stay those of \<open>lstat\<close>.
\<close>

definition resolve_path :: "'w zusf_ops \<Rightarrow> 'w \<Rightarrow> string \<Rightarrow> file_stats \<Rightarrow> int + file_stats \<times> string option" where
  "resolve_path ops w path lst =
     (case uo_stat ops w path of
        Inl _ \<Rightarrow> Inr (lst, None)
      | Inr st \<Rightarrow> (case uo_realpath ops w path of Inl e \<Rightarrow> Inl e | Inr p \<Rightarrow> Inr (st, Some p)))"

definition same_path :: "bool \<Rightarrow> string option \<Rightarrow> string option \<Rightarrow> bool" where
  "same_path garbage a b = (case (a, b) of (Some p, Some q) \<Rightarrow> p = q | _ \<Rightarrow> garbage)"

definition move_target_check ::
    "'w zusf_ops \<Rightarrow> bool \<Rightarrow> 'w \<Rightarrow> string \<Rightarrow> string \<Rightarrow> bool \<Rightarrow> file_stats \<Rightarrow> string option \<Rightarrow> string option" where
  "move_target_check ops garbage w source target force source_stats resolved_source =
     (case uo_lstat ops w target of
        Inl _ \<Rightarrow> None
      | Inr lst \<Rightarrow>
          if \<not> force then Some (''Target path '' @ quoted_name (shorten_path target) @ '' already exists'')
          else case resolve_path ops w target lst of
            Inl e \<Rightarrow> Some (''Failed to resolve target path '' @ quoted_name (shorten_path target) @ ''; errno: '' @ show_int e)
          | Inr (target_stats, resolved_target) \<Rightarrow>
              if same_path garbage resolved_source resolved_target
              then Some (''Source '' @ quoted_name (shorten_path source) @ '' and target '' @ quoted_name (shorten_path target) @ '' are identical'')
              else if is_kind ops K_dir source_stats \<and> \<not> is_kind ops K_dir target_stats
              then Some (''Cannot move directory '' @ quoted_name (shorten_path source) @ ''. Target '' @ quoted_name (shorten_path target) @ '' is not a directory'')
              else if is_kind ops K_fifo source_stats \<and> \<not> is_kind ops K_fifo target_stats
              then Some (''Cannot move pipe '' @ quoted_name (shorten_path source) @ ''. Target '' @ quoted_name (shorten_path target) @ '' is not a pipe'')
              else None)"

definition zusf_move_uss_file_or_dir ::
    "'w zusf_ops \<Rightarrow> bool \<Rightarrow> 'w \<Rightarrow> zusf \<Rightarrow> string \<Rightarrow> string \<Rightarrow> bool \<Rightarrow> 'w \<times> zusf \<times> int" where
  "zusf_move_uss_file_or_dir ops garbage w z source target force =
     (if \<not> zusf_is_valid_path source \<or> \<not> zusf_is_valid_path target
      then (w, usf_message ''Source or target path is empty or too long'' z, RTNCD_FAILURE)
      else case uo_lstat ops w source of
        Inl _ \<Rightarrow> (w, path_message ''Source path '' (shorten_path source) '' does not exist'' z, RTNCD_FAILURE)
      | Inr lst \<Rightarrow>
          if c_str source = c_str target
          then (w, usf_message (''Source '' @ quoted_name (shorten_path source) @ '' and target '' @ quoted_name (shorten_path target)
                  @ '' are identical'') z, RTNCD_FAILURE)
          else case resolve_path ops w source lst of
            Inl e \<Rightarrow> (w, usf_message (''Failed to resolve source path '' @ quoted_name (shorten_path source) @ ''; errno: '' @ show_int e) z, RTNCD_FAILURE)
          | Inr (source_stats, resolved_source) \<Rightarrow>
              (case move_target_check ops garbage w source target force source_stats resolved_source of
                 Some m \<Rightarrow> (w, usf_message m z, RTNCD_FAILURE)
               | None \<Rightarrow>
                   let (w', rc, _) = uo_run ops w ''mv'' [''--'', source, target]
                   in if rc \<noteq> 0
                      then (w', usf_message (''Failed to move file or directory from '' @ quoted_name (shorten_path source) @ '' to ''
                              @ quoted_name (shorten_path target) @ '', errno: '' @ show_int rc) z, RTNCD_FAILURE)
                      else (w', z, RTNCD_SUCCESS)))"

section \<open>Listing\<close>

record list_opts =
  l_all_files :: bool
  l_long_format :: bool
  l_max_depth :: int

record zusf_list_entry =
  ze_name :: string
  ze_mode :: string
  ze_links :: int
  ze_user :: string
  ze_group :: string
  ze_size :: int
  ze_filetag :: string
  ze_mtime :: string

definition list_entry :: "'w zusf_ops \<Rightarrow> file_stats \<Rightarrow> string \<Rightarrow> bool \<Rightarrow> zusf_list_entry" where
  "list_entry ops st display_name long_format =
     (let e = \<lparr> ze_name = display_name, ze_mode = [], ze_links = 0, ze_user = [], ze_group = [], ze_size = 0,
                 ze_filetag = [], ze_mtime = [] \<rparr>
      in if long_format
         then e\<lparr> ze_mode := zusf_build_mode_string (uo_kind ops) (st_mode st), ze_links := st_nlink st,
                  ze_user := zusf_get_owner_from_uid ops (st_uid st), ze_group := zusf_get_group_from_gid ops (st_gid st),
                  ze_size := st_size st, ze_filetag := zusf_get_ccsid_display_name (uint (st_ccsid st)),
                  ze_mtime := zusf_format_ls_time ops (st_mtime st) True \<rparr>
         else e)"

definition set_left :: "nat \<Rightarrow> string \<Rightarrow> string" where
  "set_left width s = s @ replicate (width - length s) SPACE"

definition set_right :: "nat \<Rightarrow> string \<Rightarrow> string" where
  "set_right width s = replicate (width - length s) SPACE @ s"

text \<open>The text of \<open>zusf_format_file_entry\<close>; the entry it appends is \<open>list_entry\<close>.\<close>

definition zusf_format_file_entry :: "'w zusf_ops \<Rightarrow> file_stats \<Rightarrow> string \<Rightarrow> list_opts \<Rightarrow> bool \<Rightarrow> string" where
  "zusf_format_file_entry ops st display_name opts use_csv_format =
     (if \<not> l_long_format opts then display_name @ [NL]
      else let mode = zusf_build_mode_string (uo_kind ops) (st_mode st);
               ccsid = zusf_get_ccsid_display_name (uint (st_ccsid st));
               tag_flag = (if st_txtflag st then ''T=on'' else ''T=off'');
               time_str = zusf_format_ls_time ops (st_mtime st) use_csv_format;
               owner = zusf_get_owner_from_uid ops (st_uid st);
               group = zusf_get_group_from_gid ops (st_gid st);
               is_directory = is_kind ops K_dir st
           in if use_csv_format
              then fst (zut_format_as_csv [mode, show_int (st_nlink st), owner, group, show_int (st_size st), ccsid, time_str, display_name]) @ [NL]
              else (if is_directory then [] else if ccsid \<noteq> ''untagged'' then ''t'' else ''-'') @ ''  '' @
                set_left 12 (if is_directory then [] else ccsid) @ '' '' @ set_left 5 (if is_directory then [] else tag_flag) @
                (if is_directory then ''   '' else ''  '') @ mode @ '' '' @ set_right 3 (show_int (st_nlink st)) @ '' '' @
                set_left 8 owner @ '' '' @ set_left 8 group @ '' '' @ set_right 8 (show_int (st_size st)) @ '' '' @ time_str @ '' '' @
                display_name @ [NL])"

text \<open>\<open>std::sort\<close> with \<open>strcmp\<close>: the names of a directory are distinct, so the order is determined.\<close>

fun insert_name :: "string \<Rightarrow> string list \<Rightarrow> string list" where
  "insert_name n [] = [n]"
| "insert_name n (m # ms) = (if string_less m n then m # insert_name n ms else n # m # ms)"

definition sort_names :: "string list \<Rightarrow> string list" where
  "sort_names ns = foldr insert_name ns []"

definition shown_entry :: "list_opts \<Rightarrow> string \<Rightarrow> bool" where
  "shown_entry opts n \<longleftrightarrow> real_entry n \<and> (l_all_files opts \<or> take 1 n \<noteq> ''.'')"

text \<open>The entries below a directory; the depth left decreases, so the recursion is on it. A directory
  that cannot be opened gives \<open>None\<close> and counts as empty below the first level.\<close>

fun zusf_collect_directory_entries_recursive :: "'w zusf_ops \<Rightarrow> 'w \<Rightarrow> list_opts \<Rightarrow> nat \<Rightarrow> string \<Rightarrow> string list option" where
  "zusf_collect_directory_entries_recursive ops w opts levels dir_path =
     (case uo_readdir ops w dir_path of
        None \<Rightarrow> None
      | Some names \<Rightarrow>
          Some (concat (map (\<lambda>name.
            name #
            (case levels of
               0 \<Rightarrow> []
             | Suc left \<Rightarrow>
                 (case uo_lstat ops w (zusf_join_path dir_path name) of
                    Inl _ \<Rightarrow> []
                  | Inr st \<Rightarrow>
                      if is_kind ops K_dir st
                      then (case zusf_collect_directory_entries_recursive ops w opts left (zusf_join_path dir_path name) of
                              None \<Rightarrow> []
                            | Some subdir_entries \<Rightarrow> map (\<lambda>subentry. name @ ''/'' @ subentry) subdir_entries)
                      else [])))
            (sort_names (filter (shown_entry opts) names)))))"

declare zusf_collect_directory_entries_recursive.simps [simp del]

text \<open>The levels below the first that a list descends to.\<close>

definition deeper_levels :: "list_opts \<Rightarrow> nat" where
  "deeper_levels opts = nat (l_max_depth opts - 1)"

type_synonym listing = "string \<times> zusf_list_entry list"

definition add_file_entry :: "'w zusf_ops \<Rightarrow> list_opts \<Rightarrow> bool \<Rightarrow> file_stats \<Rightarrow> string \<Rightarrow> listing \<Rightarrow> listing" where
  "add_file_entry ops opts use_csv_format st display_name l =
     (fst l @ zusf_format_file_entry ops st display_name opts use_csv_format,
      snd l @ [list_entry ops st display_name (l_long_format opts)])"

fun add_children :: "'w zusf_ops \<Rightarrow> 'w \<Rightarrow> list_opts \<Rightarrow> bool \<Rightarrow> string \<Rightarrow> string list \<Rightarrow> listing \<Rightarrow> listing \<times> string option" where
  "add_children ops w opts csv file [] l = (l, None)"
| "add_children ops w opts csv file (name # names) l =
     (case uo_lstat ops w (zusf_join_path file name) of
        Inl _ \<Rightarrow> (l, Some (''Could not stat child path '' @ quoted_name (zusf_join_path file name)))
      | Inr st \<Rightarrow> add_children ops w opts csv file names (add_file_entry ops opts csv st name l))"

definition add_dots :: "'w zusf_ops \<Rightarrow> 'w \<Rightarrow> list_opts \<Rightarrow> bool \<Rightarrow> string \<Rightarrow> file_stats \<Rightarrow> listing \<Rightarrow> listing" where
  "add_dots ops w opts csv file st l =
     (let l1 = add_file_entry ops opts csv st ''.'' l;
          parent = (case before_last_slash file of Some p \<Rightarrow> p | None \<Rightarrow> file);
          parent_path = (if parent = [] then ''/'' else parent)
      in case uo_stat ops w parent_path of
           Inl _ \<Rightarrow> l1
         | Inr parent_stats \<Rightarrow> add_file_entry ops opts csv parent_stats ''..'' l1)"

definition zusf_list_uss_file_path ::
    "'w zusf_ops \<Rightarrow> 'w \<Rightarrow> zusf \<Rightarrow> string \<Rightarrow> listing \<Rightarrow> list_opts \<Rightarrow> bool \<Rightarrow> zusf \<times> listing \<times> int" where
  "zusf_list_uss_file_path ops w z file l opts csv =
     (if \<not> zusf_is_valid_path file then (usf_message ''File path is empty or too long'' z, l, RTNCD_FAILURE)
      else case uo_stat ops w file of
        Inl _ \<Rightarrow> (path_message ''Path '' file '' does not exist'' z, l, RTNCD_FAILURE)
      | Inr st \<Rightarrow>
          if is_kind ops K_regular st \<or> is_kind ops K_dir st \<and> l_max_depth opts = 0
          then (z, add_file_entry ops opts csv st (after_last_slash file) ([], snd l), RTNCD_SUCCESS)
          else if \<not> is_kind ops K_dir st then (path_message ''Path '' file '' is not a directory'' z, l, RTNCD_FAILURE)
          else let l0 = ([], snd l);
                   l1 = (if l_all_files opts then add_dots ops w opts csv file st l0 else l0)
               in case zusf_collect_directory_entries_recursive ops w opts (deeper_levels opts) file of
                    None \<Rightarrow> (path_message ''Could not open directory '' file [] z, l1, RTNCD_FAILURE)
                  | Some names \<Rightarrow>
                      (case add_children ops w opts csv file names l1 of
                         (l2, None) \<Rightarrow> (z, l2, RTNCD_SUCCESS)
                       | (l2, Some m) \<Rightarrow> (usf_message m z, l2, RTNCD_FAILURE)))"

end
