(* ===== verification/Zusf_IO.thy ===== *)
theory Zusf_IO
  imports Zusf
begin

text \<open>
  Reading and writing files (\<open>zusf.cpp\<close>), whole and in chunks through a pipe. The file is tagged with
  its coded character set; text is converted from and to it. The streams of the C library are
  parameters: a file is read as its bytes, opening for output empties it, and writing tells the number
  of bytes that were written.
\<close>

section \<open>Streams\<close>

record 'w usf_io =
  io_files :: "'w zusf_ops"
  io_read :: "'w \<Rightarrow> string \<Rightarrow> bool \<Rightarrow> byte list option"
  io_open_out :: "'w \<Rightarrow> string \<Rightarrow> bool \<Rightarrow> 'w \<times> bool"
  io_fwrite :: "'w \<Rightarrow> byte list \<Rightarrow> 'w \<times> nat"
  io_fflush :: "'w \<Rightarrow> 'w \<times> int"
  io_fclose :: "'w \<Rightarrow> 'w"
  io_pipe_in :: "string \<Rightarrow> pipe_result"
  io_pipe_out :: "string \<Rightarrow> pipe_result"
  io_set_size :: "'w \<Rightarrow> int \<Rightarrow> 'w"
  io_heartbeat :: "'w \<Rightarrow> 'w"

definition is_binary :: "zusf \<Rightarrow> bool" where
  "is_binary z \<longleftrightarrow> data_type (u_encoding z) = eDataTypeBinary"

text \<open>The encoding of the file: the code page of the request, or the tag unless it is UTF-8 or binary.\<close>

definition file_encoding :: "'w zusf_ops \<Rightarrow> 'w \<Rightarrow> zusf \<Rightarrow> string \<Rightarrow> zusf \<times> string option" where
  "file_encoding ops w z file =
     (if data_type (u_encoding z) \<noteq> eDataTypeText then (z, None)
      else if codepage (u_encoding z) \<noteq> [] then (z, Some (codepage (u_encoding z)))
      else let (z', file_ccsid) = zusf_get_file_ccsid ops w z file
           in (z', if 0 < file_ccsid \<and> file_ccsid \<noteq> 1208 \<and> file_ccsid \<noteq> 65535 then Some (show_int file_ccsid) else None))"

definition local_encoding :: "zusf \<Rightarrow> string" where
  "local_encoding z = (if source_codepage (u_encoding z) \<noteq> [] then source_codepage (u_encoding z) else ''UTF-8'')"

definition conversion_message :: "string \<Rightarrow> string \<Rightarrow> string" where
  "conversion_message from_encoding to_encoding =
     ''Failed to convert input data from '' @ from_encoding @ '' to '' @ to_encoding"

definition converter_message :: "string \<Rightarrow> string \<Rightarrow> string" where
  "converter_message from_encoding to_encoding = ''Cannot open converter from '' @ from_encoding @ '' to '' @ to_encoding"

section \<open>Reading\<close>

definition zusf_read_from_uss_file ::
    "'w usf_io \<Rightarrow> 'c iconv_ops \<Rightarrow> 'w \<Rightarrow> zusf \<Rightarrow> string \<Rightarrow> byte list \<Rightarrow> zusf \<times> byte list \<times> int" where
  "zusf_read_from_uss_file io ic w z file response =
     (case io_read io w file (is_binary z) of
        None \<Rightarrow> (path_message ''Could not open file '' file [] z, response, RTNCD_FAILURE)
      | Some raw_data \<Rightarrow>
          let (z1, enc) = file_encoding (io_files io) w z file
          in case enc of
               None \<Rightarrow> (z1, raw_data, RTNCD_SUCCESS)
             | Some from_encoding \<Rightarrow>
                 if raw_data = [] then (z1, raw_data, RTNCD_SUCCESS)
                 else case zut_encode ic raw_data from_encoding (local_encoding z1) (u_diag z1) of
                        (d, Inl _) \<Rightarrow> (usf_message (conversion_message from_encoding (local_encoding z1)) (z1\<lparr> u_diag := d \<rparr>),
                                     raw_data, RTNCD_FAILURE)
                      | (d, Inr temp) \<Rightarrow> (z1\<lparr> u_diag := d \<rparr>, if temp \<noteq> [] then temp else raw_data, RTNCD_SUCCESS))"

definition FIFO_CHUNK_SIZE :: nat where "FIFO_CHUNK_SIZE = 32768"

text \<open>What \<open>fread\<close> returns from a file until its end.\<close>

function split_chunks :: "nat \<Rightarrow> byte list \<Rightarrow> byte list list" where
  "split_chunks n bs = (if bs = [] \<or> n = 0 then [] else take n bs # split_chunks n (drop n bs))"
  by pat_completeness auto
termination by (relation "measure (\<lambda>(n, bs). length bs)") auto

declare split_chunks.simps [simp del]

text \<open>The chunks of the reader: descriptor, left-over bytes, length so far; results of writing to the pipe
  are ignored, so what is written is collected.\<close>

record 'c read_state =
  rs_cd :: "'c option"
  rs_left_over :: "byte list"
  rs_content_len :: nat
  rs_output :: "byte list"

definition send_chunk :: "byte list \<Rightarrow> 'c read_state \<Rightarrow> 'c read_state" where
  "send_chunk chunk st =
     (let (encoded, left_over) = encode_stream chunk (Some (rs_left_over st))
      in st\<lparr> rs_content_len := rs_content_len st + length chunk, rs_output := rs_output st @ encoded,
             rs_left_over := (case left_over of Some l \<Rightarrow> l | None \<Rightarrow> []) \<rparr>)"

fun read_chunks ::
    "'w usf_io \<Rightarrow> 'c iconv_ops \<Rightarrow> 'w \<Rightarrow> zdiag \<Rightarrow> byte list list \<Rightarrow> 'c read_state \<Rightarrow> 'w \<times> zdiag \<times> 'c read_state \<times> bool" where
  "read_chunks io ic w d [] st = (w, d, st, True)"
| "read_chunks io ic w d (c # cs) st =
     (let w1 = io_heartbeat io w
      in case rs_cd st of
           None \<Rightarrow> read_chunks io ic w1 d cs (send_chunk c st)
         | Some cd \<Rightarrow>
             (case zut_encode_cd ic cd c d False of
                (cd', d', Inl _) \<Rightarrow> (w1, d', st\<lparr> rs_cd := Some cd' \<rparr>, False)
              | (cd', d', Inr chunk) \<Rightarrow> read_chunks io ic w1 d' cs (send_chunk chunk (st\<lparr> rs_cd := Some cd' \<rparr>))))"

text \<open>After the loop: the shift state, then the bytes that are still left over.\<close>

definition read_end :: "'c iconv_ops \<Rightarrow> zdiag \<Rightarrow> 'c read_state \<Rightarrow> zdiag \<times> 'c read_state \<times> int" where
  "read_end ic d st =
     (let (d', st', rc) =
        (case rs_cd st of
           None \<Rightarrow> (d, st, RTNCD_SUCCESS)
         | Some cd \<Rightarrow>
             (let (_, flush_buffer, d') = zut_iconv_flush ic cd d
              in if flush_buffer = [] \<and> 0 < e_msg_len d' then (d', st, RTNCD_FAILURE)
                 else (d', if flush_buffer \<noteq> [] then send_chunk flush_buffer st else st, RTNCD_SUCCESS)))
      in if rc \<noteq> RTNCD_SUCCESS then (d', st', rc)
         else (d', st'\<lparr> rs_output := rs_output st' @ (if rs_left_over st' \<noteq> [] then encode (rs_left_over st') else []) \<rparr>, RTNCD_SUCCESS))"

definition out_pipe_message :: "pipe_result \<Rightarrow> string \<Rightarrow> string" where
  "out_pipe_message p pipe =
     (case p of
        Pipe_no_open errno \<Rightarrow> ''open() failed on output pipe '' @ quoted_name pipe @ '', errno: '' @ show_int errno
      | _ \<Rightarrow> ''Could not open output pipe '' @ quoted_name pipe)"

text \<open>The streamed reader: the state, the length and what was written to the pipe.\<close>

definition zusf_read_from_uss_file_streamed ::
    "'w usf_io \<Rightarrow> 'c iconv_ops \<Rightarrow> 'w \<Rightarrow> zusf \<Rightarrow> string \<Rightarrow> string \<Rightarrow> nat \<Rightarrow> 'w \<times> zusf \<times> nat \<times> byte list \<times> int" where
  "zusf_read_from_uss_file_streamed io ic w z file pipe content_len =
     (case io_read io w file (is_binary z) of
        None \<Rightarrow> (w, path_message ''Could not open file '' file [] z, content_len, [], RTNCD_FAILURE)
      | Some data \<Rightarrow>
          (case uo_stat (io_files io) w file of
             Inl _ \<Rightarrow> (w, path_message ''Could not stat file '' file [] z, content_len, [], RTNCD_FAILURE)
           | Inr st \<Rightarrow>
               let w1 = io_set_size io w (st_size st)
               in case io_pipe_out io pipe of
                    Pipe_chunks _ \<Rightarrow>
                      (let (z1, enc) = file_encoding (io_files io) w1 z file;
                           cd = (case enc of None \<Rightarrow> None | Some e \<Rightarrow> iconv_open ic (local_encoding z1) e)
                       in if enc \<noteq> None \<and> cd = None
                          then (w1, usf_message (converter_message (the enc) (local_encoding z1)) z1, content_len, [], RTNCD_FAILURE)
                          else let (w2, d, rs, ok) = read_chunks io ic w1 (u_diag z1) (split_chunks (FIFO_CHUNK_SIZE * 3 div 4) data)
                                     \<lparr> rs_cd = cd, rs_left_over = [], rs_content_len = content_len, rs_output = [] \<rparr>
                               in if \<not> ok
                                  then (w2, usf_message (conversion_message (the enc) (local_encoding z1)) (z1\<lparr> u_diag := d \<rparr>),
                                        rs_content_len rs, rs_output rs, RTNCD_FAILURE)
                                  else let (d', rs', rc) = read_end ic d rs
                                       in (w2, z1\<lparr> u_diag := d' \<rparr>, rs_content_len rs', rs_output rs', rc))
                  | p \<Rightarrow> (w1, usf_message (out_pipe_message p pipe) z, content_len, [], RTNCD_FAILURE)))"

section \<open>Writing\<close>

definition USF_ENOENT :: int where "USF_ENOENT = 129"

definition etag_of :: "file_stats \<Rightarrow> string" where
  "etag_of st = zut_build_etag (word_of_int (st_mtime st)) (word_of_int (st_size st))"

text \<open>The check of the e-tag, which both writers make before they open the file: a refusal, or whether the
  file is created.\<close>

definition usf_check_etag :: "'w zusf_ops \<Rightarrow> 'w \<Rightarrow> zusf \<Rightarrow> string \<Rightarrow> zusf + zusf" where
  "usf_check_etag ops w z file =
     (case uo_stat ops w file of
        Inl err \<Rightarrow> if err \<noteq> USF_ENOENT then Inl z else Inr (z\<lparr> u_created := True \<rparr>)
      | Inr st \<Rightarrow>
          if u_etag z \<noteq> [] \<and> etag_of st \<noteq> u_etag z
          then Inl (usf_message (''Etag mismatch: expected '' @ u_etag z @ '', actual '' @ etag_of st) z)
          else Inr (z\<lparr> u_created := False \<rparr>))"

definition no_space_message :: "string \<Rightarrow> string" where
  "no_space_message file = ''Failed to write to '' @ quoted_name file @ '' (possibly out of space)''"

text \<open>After writing, the file is tagged with the encoding; the result is ignored. A depth of one suffices.\<close>

definition tag_written :: "'w zusf_ops \<Rightarrow> 'w \<Rightarrow> zusf \<Rightarrow> string \<Rightarrow> string option \<Rightarrow> 'w \<times> zusf" where
  "tag_written ops w z file enc =
     (case enc of
        None \<Rightarrow> (w, z)
      | Some e \<Rightarrow>
          (case zusf_chtag_uss_file_or_dir 1 ops False w z file e False of
             Some (w', z', _) \<Rightarrow> (w', z') | None \<Rightarrow> (w, z)))"

definition set_new_etag :: "'w zusf_ops \<Rightarrow> 'w \<Rightarrow> zusf \<Rightarrow> string \<Rightarrow> string \<Rightarrow> zusf \<times> int" where
  "set_new_etag ops w z file message =
     (case uo_stat ops w file of
        Inl _ \<Rightarrow> (usf_message message z, RTNCD_FAILURE)
      | Inr st \<Rightarrow> (z\<lparr> u_etag := etag_of st \<rparr>, RTNCD_SUCCESS))"

definition zusf_write_to_uss_file ::
    "'w usf_io \<Rightarrow> 'c iconv_ops \<Rightarrow> 'w \<Rightarrow> zusf \<Rightarrow> string \<Rightarrow> byte list \<Rightarrow> 'w \<times> zusf \<times> int" where
  "zusf_write_to_uss_file io ic w z0 file data =
     (case usf_check_etag (io_files io) w z0 file of
        Inl z \<Rightarrow> (w, z, RTNCD_FAILURE)
      | Inr z \<Rightarrow>
          let (z1, enc) = file_encoding (io_files io) w z file;
              (d, converted) = (case enc of None \<Rightarrow> (u_diag z1, Inr data)
                                | Some e \<Rightarrow> zut_encode ic data (local_encoding z1) e (u_diag z1));
              z2 = z1\<lparr> u_diag := d \<rparr>
          in case converted of
               Inl _ \<Rightarrow> (w, usf_message (conversion_message (local_encoding z1) (the enc)) z2, RTNCD_FAILURE)
             | Inr temp \<Rightarrow>
                 (let (w1, opened) = io_open_out io w file (is_binary z2)
                  in if \<not> opened then (w1, usf_message (''Could not open '' @ quoted_name file @ '' for writing'') z2, RTNCD_FAILURE)
                     else let (w2, bytes_written) = (if temp \<noteq> [] then io_fwrite io w1 temp else (w1, 0));
                              w3 = io_fclose io w2
                          in if bytes_written \<noteq> length temp
                             then (w3, usf_message (no_space_message file) z2, RTNCD_FAILURE)
                             else let (w4, z3) = tag_written (io_files io) w3 z2 file enc;
                                      (z4, rc) = set_new_etag (io_files io) w4 z3 file
                                                   (''Could not stat file '' @ quoted_name file @ '' after writing'')
                                  in (w4, z4, rc)))"

record 'c write_state =
  ws_cd :: "'c option"
  ws_left_over :: "byte list"
  ws_content_len :: nat
  ws_truncated :: bool

text \<open>The chunks of the writer. The loop ends with an exception of the decoder, a failed conversion, a
  failed write (which is recorded) or the end of the pipe.\<close>

datatype chunks_end = Chunks_done | Chunks_failed

fun write_chunks ::
    "'w usf_io \<Rightarrow> 'c iconv_ops \<Rightarrow> 'w \<Rightarrow> zdiag \<Rightarrow> byte list list \<Rightarrow> 'c write_state
      \<Rightarrow> 'w \<times> zdiag \<times> 'c write_state \<times> chunks_end result" where
  "write_chunks io ic w d [] st = (w, d, st, Inr Chunks_done)"
| "write_chunks io ic w d (c # cs) st =
     (let w1 = io_heartbeat io w
      in case decode_stream c (Some (ws_left_over st)) of
           (Inl e, _) \<Rightarrow> (w1, d, st, Inl e)
         | (Inr decoded, left_over) \<Rightarrow>
             let st1 = st\<lparr> ws_left_over := the left_over, ws_content_len := ws_content_len st + length decoded \<rparr>
             in case (case ws_cd st1 of
                        None \<Rightarrow> (None, d, Inr decoded)
                      | Some cd \<Rightarrow> (case zut_encode_cd ic cd decoded d False of (cd', d', r) \<Rightarrow> (Some cd', d', r))) of
                  (cd', d', Inl _) \<Rightarrow> (w1, d', st1\<lparr> ws_cd := cd' \<rparr>, Inr Chunks_failed)
                | (cd', d', Inr chunk) \<Rightarrow>
                    (let st2 = st1\<lparr> ws_cd := cd' \<rparr>; (w2, bytes_written) = io_fwrite io w1 chunk
                     in if bytes_written \<noteq> length chunk then (w2, d', st2\<lparr> ws_truncated := True \<rparr>, Inr Chunks_done)
                        else write_chunks io ic w2 d' cs st2))"

text \<open>The shift state after the loop.\<close>

definition flush_writer ::
    "'w usf_io \<Rightarrow> 'c iconv_ops \<Rightarrow> 'w \<Rightarrow> zdiag \<Rightarrow> 'c write_state \<Rightarrow> 'w \<times> zdiag \<times> bool \<times> bool" where
  "flush_writer io ic w d st =
     (case ws_cd st of
        None \<Rightarrow> (w, d, ws_truncated st, True)
      | Some cd \<Rightarrow>
          (let (_, flush_buffer, d') = zut_iconv_flush ic cd d
           in if flush_buffer = [] \<and> 0 < e_msg_len d' then (w, d', ws_truncated st, False)
              else if flush_buffer = [] then (w, d', ws_truncated st, True)
              else let (w', n) = io_fwrite io w flush_buffer
                   in (w', d', ws_truncated st \<or> n \<noteq> length flush_buffer, True)))"

definition in_pipe_message :: "pipe_result \<Rightarrow> string \<Rightarrow> string" where
  "in_pipe_message p pipe =
     (case p of
        Pipe_no_open errno \<Rightarrow> ''open() failed on input pipe '' @ quoted_name pipe @ '', errno: '' @ show_int errno
      | _ \<Rightarrow> ''Could not open input pipe '' @ quoted_name pipe)"

definition zusf_write_to_uss_file_streamed ::
    "'w usf_io \<Rightarrow> 'c iconv_ops \<Rightarrow> 'w \<Rightarrow> zusf \<Rightarrow> string \<Rightarrow> string \<Rightarrow> nat \<Rightarrow> 'w \<times> zusf \<times> nat \<times> int result" where
  "zusf_write_to_uss_file_streamed io ic w z00 file pipe content_len =
     (let (z0, enc) = file_encoding (io_files io) w z00 file
      in case usf_check_etag (io_files io) w z0 file of
           Inl z \<Rightarrow> (w, z, content_len, Inr RTNCD_FAILURE)
         | Inr z \<Rightarrow>
             let (w1, opened) = io_open_out io w file (is_binary z)
             in if \<not> opened then (w1, path_message ''Could not open '' file [] z, content_len, Inr RTNCD_FAILURE)
                else case io_pipe_in io pipe of
                  Pipe_chunks chunks \<Rightarrow>
                    (let cd = (case enc of None \<Rightarrow> None | Some e \<Rightarrow> iconv_open ic e (local_encoding z))
                     in if enc \<noteq> None \<and> cd = None
                        then (io_fclose io w1, usf_message (converter_message (local_encoding z) (the enc)) z, content_len, Inr RTNCD_FAILURE)
                        else let (w2, d, ws, r) = write_chunks io ic w1 (u_diag z) chunks
                                   \<lparr> ws_cd = cd, ws_left_over = [], ws_content_len = content_len, ws_truncated = False \<rparr>;
                                 z1 = z\<lparr> u_diag := d \<rparr>
                             in case r of
                                  Inl e \<Rightarrow> (io_fclose io w2, z1, ws_content_len ws, Inl e)
                                | Inr Chunks_failed \<Rightarrow>
                                    (io_fclose io w2, usf_message (conversion_message (local_encoding z) (the enc)) z1, ws_content_len ws, Inr RTNCD_FAILURE)
                                | Inr Chunks_done \<Rightarrow>
                                    (let (w3, d', truncated, flushed) = flush_writer io ic w2 d ws;
                                         z2 = z1\<lparr> u_diag := d' \<rparr>
                                     in if \<not> flushed then (io_fclose io w3, z2, ws_content_len ws, Inr RTNCD_FAILURE)
                                        else let (w4, flush_rc) = io_fflush io w3
                                             in if truncated \<or> flush_rc \<noteq> 0
                                                then (io_fclose io w4, usf_message (no_space_message file) z2, ws_content_len ws, Inr RTNCD_FAILURE)
                                                else let (w5, z3) = tag_written (io_files io) w4 z2 file enc;
                                                         (z4, rc) = set_new_etag (io_files io) w5 z3 file (''Path '' @ quoted_name file @ '' does not exist'')
                                                     in (io_fclose io w5, z4, ws_content_len ws, Inr rc)))
                | p \<Rightarrow> (io_fclose io w1, usf_message (in_pipe_message p pipe) z, content_len, Inr RTNCD_FAILURE))"

end
