(* ===== verification/Zusf_Tree.thy ===== *)
theory Zusf_Tree
  imports Zusf "HOL-Library.Sublist"
begin

text \<open>
  What deleting a directory does to a tree of files. The calls of the C library promise their effect on
  a tree of nodes in the locale \<open>posix_tree\<close>; it is interpreted on an association list of paths.
\<close>

section \<open>Paths as lists of names\<close>

definition name_ok :: "string \<Rightarrow> bool" where
  "name_ok n \<longleftrightarrow> n \<noteq> [] \<and> CHR ''/'' \<notin> set n \<and> real_entry n"

definition path_ok :: "string list \<Rightarrow> bool" where
  "path_ok cs \<longleftrightarrow> cs \<noteq> [] \<and> (\<forall>n \<in> set cs. name_ok n)"

definition path_text :: "string list \<Rightarrow> string" where
  "path_text cs = concat (map (\<lambda>n. CHR ''/'' # n) cs)"

lemma path_text_simps [simp]: "path_text [] = []" "path_text (n # cs) = CHR ''/'' # n @ path_text cs"
  by (simp_all add: path_text_def)

lemma path_text_append: "path_text (cs @ ds) = path_text cs @ path_text ds"
  by (simp add: path_text_def)

lemma path_text_last: "path_ok cs \<Longrightarrow> path_text cs \<noteq> [] \<and> last (path_text cs) \<noteq> CHR ''/''"
proof (cases cs rule: rev_exhaust)
  case (snoc ds n)
  moreover assume "path_ok cs"
  ultimately have n: "n \<noteq> []" "CHR ''/'' \<notin> set n" by (simp_all add: path_ok_def name_ok_def)
  then have "last n \<noteq> CHR ''/''" using last_in_set [of n] by metis
  then show ?thesis using snoc n by (simp add: path_text_append)
qed (simp add: path_ok_def)

lemma join_path_text: "path_ok cs \<Longrightarrow> zusf_join_path (path_text cs) n = path_text (cs @ [n])"
  using path_text_last [of cs] by (simp add: zusf_join_path_def path_text_append)

lemma path_ok_snoc [simp]: "path_ok (cs @ [n]) \<longleftrightarrow> (\<forall>m \<in> set cs. name_ok m) \<and> name_ok n"
  by (auto simp: path_ok_def)

lemma path_text_inject:
  "\<forall>n \<in> set cs. name_ok n \<Longrightarrow> \<forall>n \<in> set ds. name_ok n \<Longrightarrow> path_text cs = path_text ds \<longleftrightarrow> cs = ds"
proof (induction cs arbitrary: ds)
  case Nil
  then show ?case by (cases ds) auto
next
  case (Cons n cs)
  show ?case
  proof (cases ds)
    case (Cons m es)
    have head: "takeWhile (\<lambda>c. c \<noteq> CHR ''/'') (k @ path_text fs) = k" if "name_ok k" for k fs
      using that by (cases fs) (auto simp: name_ok_def takeWhile_append takeWhile_eq_all_conv)
    have "n = m" if "n @ path_text cs = m @ path_text es"
      using head [of n cs] head [of m es] that Cons.prems Cons by simp
    then show ?thesis using Cons Cons.IH [of es] Cons.prems by auto
  qed simp
qed

section \<open>The contract of the services\<close>

text \<open>The tree without what lies at or below a path.\<close>

definition erased :: "(string list \<Rightarrow> 'a option) \<Rightarrow> string list \<Rightarrow> string list \<Rightarrow> 'a option" where
  "erased nodes cs q = (if prefix cs q then None else nodes q)"

locale posix_tree =
  fixes ops :: "'w zusf_ops"
    and nodes :: "'w \<Rightarrow> string list \<Rightarrow> file_stats option"
    and good :: "'w \<Rightarrow> bool"
  assumes lstat: "good w \<Longrightarrow> path_ok cs \<Longrightarrow> nodes w cs = Some st \<Longrightarrow> uo_lstat ops w (path_text cs) = Inr st"
    and readdir: "good w \<Longrightarrow> path_ok cs \<Longrightarrow> nodes w cs = Some st \<Longrightarrow> is_kind ops K_dir st \<Longrightarrow>
      \<exists>ns. uo_readdir ops w (path_text cs) = Some ns \<and> distinct ns \<and>
        {n \<in> set ns. real_entry n} = {n. name_ok n \<and> nodes w (cs @ [n]) \<noteq> None}"
    and rmdir: "good w \<Longrightarrow> path_ok cs \<Longrightarrow> nodes w cs = Some st \<Longrightarrow> is_kind ops K_dir st \<Longrightarrow>
      \<forall>n. nodes w (cs @ [n]) = None \<Longrightarrow>
      \<exists>w'. uo_rmdir ops w (path_text cs) = (w', 0) \<and> good w' \<and> nodes w' = (nodes w)(cs := None)"
    and remove: "good w \<Longrightarrow> path_ok cs \<Longrightarrow> nodes w cs = Some st \<Longrightarrow> \<not> is_kind ops K_dir st \<Longrightarrow>
      \<exists>w'. uo_remove ops w (path_text cs) = (w', 0) \<and> good w' \<and> nodes w' = (nodes w)(cs := None)"
    and parent: "good w \<Longrightarrow> nodes w (cs @ [n]) \<noteq> None \<Longrightarrow> cs \<noteq> [] \<Longrightarrow>
      name_ok n \<and> (\<exists>st. nodes w cs = Some st \<and> is_kind ops K_dir st)"
begin

lemma below_none:
  assumes "good w" and "cs \<noteq> []" and "case nodes w cs of Some st \<Rightarrow> \<not> is_kind ops K_dir st | None \<Rightarrow> True"
  shows "r \<noteq> [] \<Longrightarrow> nodes w (cs @ r) = None"
proof (induction r rule: rev_induct)
  case (snoc n r)
  show ?case
  proof (rule ccontr)
    assume "nodes w (cs @ r @ [n]) \<noteq> None"
    then have "\<exists>st. nodes w (cs @ r) = Some st \<and> is_kind ops K_dir st"
      using parent [of w "cs @ r" n] assms(1,2) by simp
    then show False using snoc.IH assms(3) by (cases "r = []") auto
  qed
qed simp

lemma erase_leaf:
  assumes "good w" and "cs \<noteq> []" and "\<forall>n. nodes w (cs @ [n]) = None"
  shows "(nodes w)(cs := None) = erased (nodes w) cs"
proof
  fix q
  show "((nodes w)(cs := None)) q = erased (nodes w) cs q"
  proof (cases "prefix cs q")
    case True
    then obtain r where q: "q = cs @ r" by (auto elim: prefixE)
    show ?thesis
    proof (cases r)
      case (Cons n s)
      have "nodes w ((cs @ [n]) @ s) = None"
        using assms below_none [of w "cs @ [n]" s] by (cases "s = []") auto
      then show ?thesis using q Cons True by (simp add: erased_def)
    qed (use q True in \<open>simp add: erased_def\<close>)
  qed (auto simp: erased_def)
qed

text \<open>A step of the loop over the names of a directory deletes what is below the name.\<close>

definition deletes_child ::
    "string list \<Rightarrow> ('w \<Rightarrow> zusf \<Rightarrow> string \<Rightarrow> ('w \<times> zusf \<times> int) option) \<Rightarrow> ('w \<Rightarrow> bool) \<Rightarrow> bool" where
  "deletes_child cs f ok \<longleftrightarrow>
     (\<forall>w z n. good w \<longrightarrow> ok w \<longrightarrow> name_ok n \<longrightarrow> nodes w (cs @ [n]) \<noteq> None \<longrightarrow>
        (\<exists>w'. f w z n = Some (w', z, 0) \<and> good w' \<and> nodes w' = erased (nodes w) (cs @ [n])))"

lemma each_entry_deletes:
  assumes "deletes_child cs f ok" and "\<And>w w' n. ok w \<Longrightarrow> nodes w' = erased (nodes w) (cs @ [n]) \<Longrightarrow> ok w'"
    and "good w" and "ok w" and "distinct ns"
    and "\<forall>n \<in> set ns. real_entry n \<longrightarrow> name_ok n \<and> nodes w (cs @ [n]) \<noteq> None"
  shows "\<exists>w'. each_entry f w z ns = Some (w', z, 0) \<and> good w' \<and>
    nodes w' = (\<lambda>q. if \<exists>n \<in> set ns. real_entry n \<and> prefix (cs @ [n]) q then None else nodes w q)"
  using assms(3-)
proof (induction ns arbitrary: w)
  case (Cons n ns)
  show ?case
  proof (cases "real_entry n")
    case False
    then show ?thesis using Cons.IH [of w] Cons.prems by auto
  next
    case True
    then have n: "name_ok n" "nodes w (cs @ [n]) \<noteq> None" using Cons.prems(4) by auto
    obtain w1 where w1: "f w z n = Some (w1, z, 0)" "good w1" "nodes w1 = erased (nodes w) (cs @ [n])"
      using assms(1) Cons.prems(1,2) n unfolding deletes_child_def by blast
    have rest: "\<forall>m \<in> set ns. real_entry m \<longrightarrow> name_ok m \<and> nodes w1 (cs @ [m]) \<noteq> None"
      using Cons.prems(3,4) w1(3) by (auto simp: erased_def)
    obtain w2 where "each_entry f w1 z ns = Some (w2, z, 0)" "good w2"
      "nodes w2 = (\<lambda>q. if \<exists>n \<in> set ns. real_entry n \<and> prefix (cs @ [n]) q then None else nodes w1 q)"
      using Cons.IH [of w1] assms(2) [OF Cons.prems(2) w1(3)] w1(2) rest Cons.prems(3) by auto
    then show ?thesis using True w1 by (auto simp: erased_def fun_eq_iff)
  qed
qed simp

lemma delete_spec:
  assumes "good w" and "path_ok cs" and "nodes w cs = Some st" and "is_kind ops K_dir st \<longrightarrow> recursive"
    and "\<forall>q. nodes w (cs @ q) \<noteq> None \<longrightarrow> length q < depth"
  shows "\<exists>w'. zusf_delete_uss_item depth ops w z (path_text cs) recursive = Some (w', z, 0) \<and> good w' \<and>
    nodes w' = erased (nodes w) cs"
  using assms
proof (induction depth arbitrary: w cs st recursive z)
  case 0
  then have "nodes w (cs @ []) = None" by blast
  then show ?case using 0 by simp
next
  case (Suc depth)
  note stat = lstat [OF Suc.prems(1,2,3)]
  show ?case
  proof (cases "is_kind ops K_dir st")
    case False
    have "\<forall>n. nodes w (cs @ [n]) = None"
      using below_none [of w cs] Suc.prems False by (auto simp: path_ok_def)
    then have erase: "(nodes w)(cs := None) = erased (nodes w) cs"
      using Suc.prems by (intro erase_leaf) (auto simp: path_ok_def)
    obtain w' where "uo_remove ops w (path_text cs) = (w', 0)" "good w'" "nodes w' = (nodes w)(cs := None)"
      using remove [OF Suc.prems(1,2,3) False] by blast
    then show ?thesis using stat False erase by simp
  next
    case True
    define ok where "ok = (\<lambda>v. \<forall>q. nodes v (cs @ q) \<noteq> None \<longrightarrow> length q < Suc depth)"
    define f where "f = (\<lambda>w' z' n.
        let child_path = zusf_join_path (path_text cs) n
        in case uo_lstat ops w' child_path of
             Inl _ \<Rightarrow> Some (w', path_message ''Could not stat child path '' child_path [] z', RTNCD_FAILURE)
           | Inr child_stats \<Rightarrow> zusf_delete_uss_item depth ops w' z' child_path (is_kind ops K_dir child_stats))"
    have child: "deletes_child cs f ok"
      unfolding deletes_child_def
    proof (intro allI impI)
      fix v z n
      assume v: "good v" "ok v" "name_ok n" "nodes v (cs @ [n]) \<noteq> None"
      then obtain st' where st': "nodes v (cs @ [n]) = Some st'" by blast
      have path: "path_ok (cs @ [n])" using Suc.prems(2) v(3) by (simp add: path_ok_def)
      have "\<forall>q. nodes v ((cs @ [n]) @ q) \<noteq> None \<longrightarrow> length q < depth"
        using v(2) unfolding ok_def by (metis append.assoc append_Cons append_Nil length_Cons Suc_less_eq)
      from Suc.IH [OF v(1) path st' _ this] lstat [OF v(1) path st']
      show "\<exists>w'. f v z n = Some (w', z, 0) \<and> good w' \<and> nodes w' = erased (nodes v) (cs @ [n])"
        by (simp add: f_def join_path_text [OF Suc.prems(2)])
    qed
    have keep: "\<And>v v' n. ok v \<Longrightarrow> nodes v' = erased (nodes v) (cs @ [n]) \<Longrightarrow> ok v'"
      by (auto simp: ok_def erased_def)
    obtain ns where ns: "uo_readdir ops w (path_text cs) = Some ns" "distinct ns"
      "{n \<in> set ns. real_entry n} = {n. name_ok n \<and> nodes w (cs @ [n]) \<noteq> None}"
      using readdir [OF Suc.prems(1,2,3) True] by blast
    have okw: "ok w" using Suc.prems(5) by (simp add: ok_def)
    have named: "\<forall>n \<in> set ns. real_entry n \<longrightarrow> name_ok n \<and> nodes w (cs @ [n]) \<noteq> None" using ns(3) by blast
    have "\<exists>w1. each_entry f w z ns = Some (w1, z, 0) \<and> good w1 \<and>
        nodes w1 = (\<lambda>q. if \<exists>n \<in> set ns. real_entry n \<and> prefix (cs @ [n]) q then None else nodes w q)"
      by (rule each_entry_deletes [OF child]) (fact keep Suc.prems(1) okw ns(2) named)+
    then obtain w1 where w1: "each_entry f w z ns = Some (w1, z, 0)" "good w1"
      "nodes w1 = (\<lambda>q. if \<exists>n \<in> set ns. real_entry n \<and> prefix (cs @ [n]) q then None else nodes w q)"
      by blast
    have self: "nodes w1 cs = Some st" using w1(3) Suc.prems(3) by (auto dest: prefix_length_le)
    have leaf: "\<forall>n. nodes w1 (cs @ [n]) = None"
    proof
      fix n
      show "nodes w1 (cs @ [n]) = None"
      proof (rule ccontr)
        assume some: "nodes w1 (cs @ [n]) \<noteq> None"
        then have "nodes w (cs @ [n]) \<noteq> None" using w1(3) by (auto split: if_splits)
        moreover from this have "name_ok n" using parent [of w cs n] Suc.prems(1,2) by (simp add: path_ok_def)
        ultimately have "n \<in> set ns \<and> real_entry n" using ns(3) by blast
        then show False using some w1(3) by auto
      qed
    qed
    obtain w2 where w2: "uo_rmdir ops w1 (path_text cs) = (w2, 0)" "good w2" "nodes w2 = (nodes w1)(cs := None)"
      using rmdir [OF w1(2) Suc.prems(2) self True leaf] by blast
    have "nodes w2 = erased (nodes w1) cs"
      using w2(3) erase_leaf [OF w1(2) _ leaf] Suc.prems(2) by (simp add: path_ok_def)
    also have "\<dots> = erased (nodes w) cs"
      using w1(3) by (auto simp: erased_def fun_eq_iff dest: append_prefixD)
    finally have erase: "nodes w2 = erased (nodes w) cs" .
    show ?thesis unfolding zusf_delete_uss_item.simps(2) f_def [symmetric]
      using stat True Suc.prems(4) ns(1) w1(1) w2(1,2) erase by simp
  qed
qed

end

section \<open>A file system\<close>

text \<open>The entries by their paths, each a directory (mode 1) or a file; calls answer by comparing texts.\<close>

type_synonym files = "(string list \<times> bool) list"

definition plain_stats :: "bool \<Rightarrow> file_stats" where
  "plain_stats directory = \<lparr> st_mode = (if directory then 1 else 0), st_nlink = 1, st_uid = 0, st_gid = 0, st_size = 0,
     st_mtime = 0, st_ccsid = 0, st_txtflag = False \<rparr>"

definition file_nodes :: "files \<Rightarrow> string list \<Rightarrow> file_stats option" where
  "file_nodes w cs = map_option plain_stats (map_of w cs)"

definition find_text :: "files \<Rightarrow> string \<Rightarrow> (string list \<times> bool) option" where
  "find_text w p = find (\<lambda>e. path_text (fst e) = p) w"

definition child_names :: "files \<Rightarrow> string list \<Rightarrow> string list" where
  "child_names w cs = map (last \<circ> fst) (filter (\<lambda>e. fst e \<noteq> [] \<and> butlast (fst e) = cs) w)"

definition drop_entry :: "string list \<Rightarrow> files \<Rightarrow> files" where
  "drop_entry cs w = filter (\<lambda>e. fst e \<noteq> cs) w"

definition EPERM :: int where "EPERM = 139"

definition files_unlink :: "bool \<Rightarrow> files \<Rightarrow> string \<Rightarrow> files \<times> int" where
  "files_unlink directory w p =
     (case find_text w p of
        None \<Rightarrow> (w, EPERM)
      | Some (cs, d) \<Rightarrow> if d \<noteq> directory \<or> d \<and> child_names w cs \<noteq> [] then (w, EPERM) else (drop_entry cs w, 0))"

definition files_stat :: "files \<Rightarrow> string \<Rightarrow> int + file_stats" where
  "files_stat w p = (case find_text w p of None \<Rightarrow> Inl EPERM | Some (_, d) \<Rightarrow> Inr (plain_stats d))"

definition files_ops :: "files zusf_ops" where
  "files_ops = \<lparr> uo_kind = (\<lambda>m. if m = 1 then K_dir else K_regular), uo_stat = files_stat, uo_lstat = files_stat,
     uo_readdir = (\<lambda>w p. case find_text w p of Some (cs, True) \<Rightarrow> Some ([''.'', ''..''] @ child_names w cs) | _ \<Rightarrow> None),
     uo_realpath = (\<lambda>w p. Inr p), uo_chmod = (\<lambda>w p m. (w, 0)), uo_chown = (\<lambda>w p u g. (w, 0)), uo_chattr = (\<lambda>w p c t. (w, 0)),
     uo_mkdir = (\<lambda>w p m. (w, EPERM)), uo_rmdir = files_unlink True, uo_remove = files_unlink False, uo_create = (\<lambda>w p. (w, False)),
     uo_run = (\<lambda>w c a. (w, 1, [])), uo_getpwuid = (\<lambda>_. None), uo_getgrgid = (\<lambda>_. None), uo_getpwnam = (\<lambda>_. None),
     uo_getgrnam = (\<lambda>_. None), uo_gmtime = (\<lambda>_. None), uo_localtime = (\<lambda>_. None) \<rparr>"

definition files_good :: "files \<Rightarrow> bool" where
  "files_good w \<longleftrightarrow> distinct (map fst w) \<and> (\<forall>e \<in> set w. path_ok (fst e)) \<and>
     (\<forall>e \<in> set w. butlast (fst e) \<noteq> [] \<longrightarrow> map_of w (butlast (fst e)) = Some True)"

lemma find_text_path:
  assumes "files_good w" and "path_ok cs"
  shows "find_text w (path_text cs) = map_option (\<lambda>d. (cs, d)) (map_of w cs)"
  using assms(1) [unfolded files_good_def, THEN conjunct2, THEN conjunct1] assms(2) unfolding find_text_def
proof (induction w)
  case (Cons e w)
  have "path_text (fst e) = path_text cs \<longleftrightarrow> fst e = cs"
    using Cons.prems by (intro path_text_inject) (auto simp: path_ok_def)
  then show ?case using Cons by (cases e) auto
qed simp

lemma child_names_spec: "n \<in> set (child_names w cs) \<longleftrightarrow> cs @ [n] \<in> fst ` set w"
proof
  assume "n \<in> set (child_names w cs)"
  then show "cs @ [n] \<in> fst ` set w"
    by (auto simp: child_names_def) (metis append_butlast_last_id fst_conv image_eqI)
qed (force simp: child_names_def)

lemma child_names_distinct:
  assumes "distinct (map fst w)"
  shows "distinct (child_names w cs)"
proof -
  let ?es = "filter (\<lambda>e. fst e \<noteq> [] \<and> butlast (fst e) = cs) w"
  have "distinct (map fst ?es)" using assms by (rule distinct_map_filter)
  moreover have "map fst ?es = map (\<lambda>n. cs @ [n]) (child_names w cs)"
    by (auto simp: child_names_def append_butlast_last_id)
  ultimately show ?thesis by (simp add: distinct_map)
qed

lemma map_of_drop_entry: "map_of (drop_entry cs w) = (map_of w)(cs := None)"
  by (induction w) (auto simp: drop_entry_def fun_eq_iff)

lemma files_good_drop:
  assumes "files_good w" and "child_names w cs = []"
  shows "files_good (drop_entry cs w)"
proof -
  have "butlast (fst e) \<noteq> cs" if "e \<in> set w" "butlast (fst e) \<noteq> []" for e
  proof
    assume "butlast (fst e) = cs"
    then have "cs @ [last (fst e)] \<in> fst ` set w"
      using that by (metis append_butlast_last_id butlast.simps(1) image_eqI)
    then show False using child_names_spec [of _ w cs] assms(2) by auto
  qed
  then show ?thesis using assms(1)
    by (auto simp: files_good_def map_of_drop_entry) (auto simp: drop_entry_def distinct_map_filter)
qed

lemma no_children_of_file:
  assumes "files_good w" and "map_of w cs = Some False" and "cs \<noteq> []"
  shows "child_names w cs = []"
proof (rule ccontr)
  assume "child_names w cs \<noteq> []"
  then obtain n where "n \<in> set (child_names w cs)" by (cases "child_names w cs") auto
  then obtain d where "(cs @ [n], d) \<in> set w" by (auto simp: child_names_spec)
  then have "map_of w (butlast (cs @ [n])) = Some True" using assms(1,3) unfolding files_good_def by fastforce
  then show False using assms(2) by simp
qed

lemma is_dir_plain: "is_kind files_ops K_dir (plain_stats d) \<longleftrightarrow> d"
  by (simp add: is_kind_def files_ops_def plain_stats_def)

lemma file_nodes_Some: "file_nodes w cs = Some st \<longleftrightarrow> (\<exists>d. map_of w cs = Some d \<and> st = plain_stats d)"
  by (auto simp: file_nodes_def)

lemma file_nodes_None: "file_nodes w cs = None \<longleftrightarrow> cs \<notin> fst ` set w"
  by (simp add: file_nodes_def map_of_eq_None_iff)

lemma files_unlink_entry:
  assumes "files_good w" and "path_ok cs" and "map_of w cs = Some d" and "child_names w cs = []"
  shows "files_unlink d w (path_text cs) = (drop_entry cs w, 0) \<and> files_good (drop_entry cs w) \<and>
    file_nodes (drop_entry cs w) = (file_nodes w)(cs := None)"
  using assms files_good_drop [OF assms(1,4)]
  by (simp add: files_unlink_def find_text_path fun_eq_iff file_nodes_def map_of_drop_entry)

interpretation file_tree: posix_tree files_ops file_nodes files_good
proof
  fix w cs st
  assume w: "files_good w" "path_ok cs" "file_nodes w cs = Some st"
  then obtain d where d: "map_of w cs = Some d" "st = plain_stats d" by (auto simp: file_nodes_Some)
  show "uo_lstat files_ops w (path_text cs) = Inr st"
    using w d by (simp add: files_ops_def files_stat_def find_text_path)
  have ok: "real_entry n \<and> name_ok n" if "n \<in> set (child_names w cs)" for n
    using that w(1) by (fastforce simp: child_names_spec files_good_def name_ok_def)
  show "\<exists>ns. uo_readdir files_ops w (path_text cs) = Some ns \<and> distinct ns \<and>
      {n \<in> set ns. real_entry n} = {n. name_ok n \<and> file_nodes w (cs @ [n]) \<noteq> None}" if "is_kind files_ops K_dir st"
  proof (intro exI conjI)
    show "uo_readdir files_ops w (path_text cs) = Some ([''.'', ''..''] @ child_names w cs)"
      using w d that by (simp add: files_ops_def find_text_path is_dir_plain [unfolded files_ops_def])
    show "distinct ([''.'', ''..''] @ child_names w cs)"
      using ok child_names_distinct [of w cs] w(1) by (auto simp: files_good_def real_entry_def)
    show "{n \<in> set ([''.'', ''..''] @ child_names w cs). real_entry n} = {n. name_ok n \<and> file_nodes w (cs @ [n]) \<noteq> None}"
      using ok by (auto simp: file_nodes_None real_entry_def simp flip: child_names_spec)
  qed
  show "\<exists>w'. uo_rmdir files_ops w (path_text cs) = (w', 0) \<and> files_good w' \<and> file_nodes w' = (file_nodes w)(cs := None)"
    if "is_kind files_ops K_dir st" and leaf: "\<forall>n. file_nodes w (cs @ [n]) = None"
  proof -
    have "child_names w cs = []" using leaf child_names_spec [of _ w cs] by (cases "child_names w cs") (auto simp: file_nodes_None)
    then show ?thesis using files_unlink_entry [OF w(1,2) d(1)] that(1) d(2) by (simp add: is_dir_plain) (simp add: files_ops_def)
  qed
  show "\<exists>w'. uo_remove files_ops w (path_text cs) = (w', 0) \<and> files_good w' \<and> file_nodes w' = (file_nodes w)(cs := None)"
    if "\<not> is_kind files_ops K_dir st"
  proof -
    have "\<not> d" using that d(2) by (simp add: is_dir_plain)
    then have "child_names w cs = []" using no_children_of_file [OF w(1), of cs] w(2) d(1) by (simp add: path_ok_def)
    then show ?thesis using files_unlink_entry [OF w(1,2) d(1)] \<open>\<not> d\<close> by (simp add: files_ops_def)
  qed
next
  fix w cs n
  assume w: "files_good w" "file_nodes w (cs @ [n]) \<noteq> None" "cs \<noteq> []"
  then obtain d where "(cs @ [n], d) \<in> set w" by (auto simp: file_nodes_None)
  then have "path_ok (cs @ [n])" "map_of w (butlast (cs @ [n])) = Some True"
    using w(1,3) unfolding files_good_def by fastforce+
  then show "name_ok n \<and> (\<exists>st. file_nodes w cs = Some st \<and> is_kind files_ops K_dir st)"
    by (auto simp: file_nodes_Some is_dir_plain intro!: exI [of _ "plain_stats True"])
qed

section \<open>Deleting a tree\<close>


definition sample_files :: files where
  "sample_files = [([''u''], True), ([''u'', ''a''], True), ([''u'', ''a'', ''x''], False), ([''u'', ''ab''], False)]"


end
