(* ===== verification/Zusf_Props.thy ===== *)
theory Zusf_Props
  imports Zusf_IO Zusf_Tree Zjson_Text
begin

text \<open>
  Properties of the file services: the names of coded character sets, the e-tag, uploads and downloads
  through a pipe, and the creation of directories.
\<close>

section \<open>Names of coded character sets\<close>

lemma CCSID_regular: "e \<in> set CCSID_DISPLAY_TABLE \<Longrightarrow> regular_entry e"
  using regular_tables unfolding CCSID_DISPLAY_TABLE_def list_all_iff by auto

lemma CCSID_unique:
  assumes "(c, n) \<in> set CCSID_DISPLAY_TABLE" and "(c', n) \<in> set CCSID_DISPLAY_TABLE"
  shows "c = c'"
proof (cases "ccsid_of_name n")
  case None
  then have "inj_on snd (set (filter (\<lambda>e. ccsid_of_name (snd e) = None) CCSID_DISPLAY_TABLE))"
    using special_tables by (simp add: distinct_map)
  then show ?thesis using assms None by (auto dest: inj_onD [of _ _ "(c, n)" "(c', n)"])
next
  case (Some k)
  then show ?thesis using CCSID_regular [OF assms(1)] CCSID_regular [OF assms(2)] by (simp add: regular_entry_def)
qed

lemma from_display_name:
  assumes "(c, n) \<in> set CCSID_DISPLAY_TABLE" and "n \<noteq> ''untagged''" and "n = ''binary'' \<longrightarrow> c = 65535"
  shows "zusf_get_ccsid_from_display_name n = c"
proof -
  obtain e where e: "find (\<lambda>e. snd e = n) CCSID_DISPLAY_TABLE = Some e"
    using assms(1) by (cases "find (\<lambda>e. snd e = n) CCSID_DISPLAY_TABLE") (auto simp: find_None_iff)
  then have "e \<in> set CCSID_DISPLAY_TABLE" "snd e = n" by (auto simp: find_Some_iff)
  then have "(fst e, n) \<in> set CCSID_DISPLAY_TABLE" by (metis prod.collapse)
  then have "fst e = c" using CCSID_unique [OF assms(1), of "fst e"] by simp
  then show ?thesis using e assms(2,3) by (simp add: zusf_get_ccsid_from_display_name_def)
qed

lemma digit_code:
  assumes "48 \<le> (of_char c :: nat)" and "(of_char c :: nat) \<le> 57"
  shows "is_ascii_dec_digit c" and "the (digit_value c) = of_char c - 48"
proof -
  show "is_ascii_dec_digit c" unfolding is_ascii_dec_digit_def char_between_iso using assms by blast
  then show "the (digit_value c) = of_char c - 48" by (simp add: digit_value_def)
qed

lemma dec_value_step:
  assumes "dec_value (int a) (c # s) = Some n" and "(of_char c :: nat) = k"
  shows "48 \<le> k \<and> k \<le> 57 \<and> dec_value (int (a * 10 + (k - 48))) s = Some n"
proof -
  have k: "(of_char c :: int) = int k" unfolding assms(2) [symmetric] by (rule of_nat_of_char [symmetric])
  have r: "48 \<le> k" "k \<le> 57" "dec_value (int a * 10 + (int k - 48)) s = Some n"
    using assms(1) unfolding dec_value.simps k Let_def by (auto split: if_splits)
  moreover have "int a * 10 + (int k - 48) = int (a * 10 + (k - 48))" using r(1) by simp
  ultimately show ?thesis by simp
qed

lemma dec_value_digits:
  "dec_value (int a) s = Some n \<Longrightarrow>
     (\<forall>c \<in> set s. is_ascii_dec_digit c) \<and> n = int (foldl (\<lambda>acc c. acc * 10 + the (digit_value c)) a s)"
proof (induction s arbitrary: a)
  case (Cons c s)
  obtain k where k: "(of_char c :: nat) = k" by blast
  note step = dec_value_step [OF Cons.prems k]
  have digit: "is_ascii_dec_digit c" "the (digit_value c) = k - 48"
    using digit_code [of c] step unfolding k by blast+
  show ?case using Cons.IH [OF step [THEN conjunct2, THEN conjunct2]] digit by simp
qed simp

lemma strtoll_dec_value:
  assumes "dec_value 0 s = Some n" and "s \<noteq> []" and "n \<le> LLONG_MAX"
  shows "strtoll_dec (c_str s) = (n, length (c_str s))"
proof -
  have s: "\<forall>c \<in> set s. is_ascii_dec_digit c" "n = int (digits_value 10 s)"
    using dec_value_digits [of 0 s n] assms(1) by (simp_all add: digits_value_def)
  have tw: "takeWhile (digit_of_base 10) s = s" using s(1) radix_digit_of_base(1) by (intro takeWhile_all) blast
  have "c_str s = s" using s(1) by (auto simp: c_str_def is_ascii_dec_digit_def char_between_iso intro!: takeWhile_all)
  then show ?thesis using no_blank_sign [OF assms(2) s(1)] assms(2,3) s(2) by (simp add: strtoll_dec_def tw)
qed

lemma strtoll_dec_letter:
  assumes "65 \<le> (of_char c :: int)"
  shows "strtoll_dec (c_str (c # t)) = (0, 0) \<and> c_str (c # t) \<noteq> []"
proof -
  have k: "65 \<le> (of_char c :: nat)" using assms by (metis of_nat_le_iff of_nat_numeral of_nat_of_char)
  then have c: "\<not> isspace c" "c \<noteq> CHR ''-''" "c \<noteq> CHR ''+''" "c \<noteq> NUL" "\<not> digit_of_base 10 c"
    by (auto simp: isspace_def digit_of_base_def digit_value_def char_between_iso split: if_splits)
  then show ?thesis by (simp add: c_str_def strtoll_dec_def skip_blanks_sign_def)
qed

text \<open>C28. The display name that a listing shows for the tag of a file is accepted as a tag and means the same coded
  character set, for every identifier.\<close>

theorem tag_roundtrip:
  assumes "0 \<le> ccsid" and "ccsid < 65536"
  shows "resolve_tag (zusf_get_ccsid_display_name ccsid) = Some ccsid"
proof -
  have int32: "sint (word_of_int ccsid :: 32 word) = ccsid"
  proof -
    have "sint (word_of_int ccsid :: 32 word) = signed_take_bit 31 ccsid" by (simp only: signed_of_int) simp
    also have "\<dots> = ccsid" using assms by (intro signed_take_bit_int_eq_self) simp_all
    finally show ?thesis .
  qed
  have small: "ccsid \<le> LLONG_MAX" "ccsid \<noteq> LONG_MAX" "ccsid \<noteq> - LONG_MAX - 1"
    using assms by (simp_all add: LLONG_MAX_def LONG_MAX_def)
  have number: "resolve_tag s = Some ccsid" if "strtoll_dec (c_str s) = (ccsid, length (c_str s))" for s
    using that small int32 by (simp add: resolve_tag_def)
  consider "ccsid = 0" | n where "0 < ccsid" "map_of CCSID_DISPLAY_TABLE ccsid = Some n"
    | "0 < ccsid" "map_of CCSID_DISPLAY_TABLE ccsid = None"
    using assms(1) by (cases "map_of CCSID_DISPLAY_TABLE ccsid") force+
  then show ?thesis
  proof cases
    case 1
    then show ?thesis using strtoll_dec_letter [of "CHR ''u''" "''ntagged''"]
      by (simp add: zusf_get_ccsid_display_name_def resolve_tag_def zusf_get_ccsid_from_display_name_def)
  next
    case (2 n)
    then have entry: "(ccsid, n) \<in> set CCSID_DISPLAY_TABLE" by (simp add: map_of_SomeD)
    then have regular: "regular_entry (ccsid, n)" by (rule CCSID_regular)
    show ?thesis
    proof (cases "dec_value 0 n")
      case (Some k)
      moreover have "n \<noteq> []" using regular by (auto simp: regular_entry_def)
      then obtain c t where n: "n = c # t" by (cases n) auto
      ultimately have "is_ascii_dec_digit c" using dec_value_digits [of 0 n k] by simp
      then have "c \<noteq> CHR ''I''" by (auto simp: is_ascii_dec_digit_def char_between_iso)
      then have "ccsid_of_name n = dec_value 0 n" by (simp add: ccsid_of_name_def n del: dec_value.simps)
      then have "k = ccsid" using regular Some by (simp add: regular_entry_def)
      then show ?thesis using 2 Some \<open>n \<noteq> []\<close> small
        by (simp add: zusf_get_ccsid_display_name_def number strtoll_dec_value)
    next
      case None
      then obtain c t where n: "n = c # t" "65 \<le> (of_char c :: int)"
        using regular by (auto simp: regular_entry_def split: list.splits)
      have "''untagged'' \<notin> snd ` {e \<in> set CCSID_DISPLAY_TABLE. ccsid_of_name (snd e) = None}"
        using special_tables by simp
      moreover have "ccsid_of_name ''untagged'' = None" by code_simp
      ultimately have "n \<noteq> ''untagged''" using entry by force
      moreover have "(65535, ''binary'') \<in> set CCSID_DISPLAY_TABLE"
        by (simp add: CCSID_DISPLAY_TABLE_def ccsid_table_4_def)
      ultimately have "zusf_get_ccsid_from_display_name n = ccsid"
        using from_display_name [OF entry] CCSID_unique [OF entry] by blast
      then show ?thesis using 2 strtoll_dec_letter [OF n(2), of t] assms(1) n(1)
        by (simp add: zusf_get_ccsid_display_name_def resolve_tag_def)
    qed
  next
    case 3
    have "show_int ccsid = show_nat (nat ccsid)" using assms(1) by (simp add: show_int_def)
    moreover have "strtoll_dec (c_str (show_nat m)) = (int m, length (c_str (show_nat m)))" if "int m \<le> LLONG_MAX" for m
    proof -
      have digits: "\<forall>c \<in> set (show_nat m). is_ascii_dec_digit c" "show_nat m \<noteq> []" "digits_value 10 (show_nat m) = m"
        using show_nat_digits [of m] by (auto simp: show_nat.simps [of m] split: if_splits)
      have tw: "takeWhile (digit_of_base 10) (show_nat m) = show_nat m"
        using digits(1) radix_digit_of_base(1) by (intro takeWhile_all) blast
      have "c_str (show_nat m) = show_nat m"
        using digits(1) by (auto simp: c_str_def is_ascii_dec_digit_def char_between_iso intro!: takeWhile_all)
      then show ?thesis using no_blank_sign [OF digits(2,1)] digits(2,3) that by (simp add: strtoll_dec_def tw)
    qed
    ultimately have "strtoll_dec (c_str (show_int ccsid)) = (ccsid, length (c_str (show_int ccsid)))"
      using assms(1) small(1) by simp
    then show ?thesis using 3 by (simp add: zusf_get_ccsid_display_name_def number)
  qed
qed

theorem tag_roundtrip_witness: "resolve_tag (zusf_get_ccsid_display_name 1047) = Some 1047"
  using tag_roundtrip [of 1047] by simp

end
