(* ===== verification/Zjbm.thy ===== *)
theory Zjbm
  imports Zds_Write
begin

text \<open>
  The job services (\<open>zjbm.c\<close>): status, modification and lists through the subsystem interface. The
  chains of control blocks that the subsystem returns are lists; a null pointer is the empty list. The
  request blocks keep the fields that the code sets or reads. \<open>IEFSSREQ\<close>, the text lookup, \<open>IAZSYMBL\<close>
  and the allocation of storage above the bar are parameters. An abend under recovery is an answer of
  the service; the calls that release storage outside recovery return.
\<close>

unbundle bit_operations_syntax

section \<open>The block of a request\<close>

text \<open>\<open>correlator\<close>, \<open>jobid\<close> and the names are arrays of fixed length; \<open>service_rsn\<close> and its second part
  belong to the diagnostic area.\<close>

record zjb =
  jobs_max :: int
  dds_max :: int
  buffer_size :: int
  buffer_size_needed :: int
  correlator :: string
  jobid :: string
  owner_name :: string
  prefix_name :: string
  status_name :: string
  token :: "byte list"
  jb_encoding :: zencode
  jb_diag :: zdiag
  service_rsn :: int
  service_rsn_secondary :: int

definition zjb_init :: zjb where
  "zjb_init = \<lparr> jobs_max = 0, dds_max = 0, buffer_size = 0, buffer_size_needed = 0, correlator = replicate 64 NUL,
     jobid = replicate 8 NUL, owner_name = replicate 8 NUL, prefix_name = replicate 8 NUL, status_name = replicate 8 NUL,
     token = replicate 80 0, jb_encoding = \<lparr> codepage = [], source_codepage = [], data_type = eDataTypeText \<rparr>,
     jb_diag = zdiag_init, service_rsn = 0, service_rsn_secondary = 0 \<rparr>"

definition ZJB_RTNCD_SERVICE_FAILURE :: int where "ZJB_RTNCD_SERVICE_FAILURE = - 2"
definition ZJB_RTNCD_SUBMIT_ERROR :: int where "ZJB_RTNCD_SUBMIT_ERROR = - 3"
definition ZJB_RTNCD_INSUFFICIENT_BUFFER :: int where "ZJB_RTNCD_INSUFFICIENT_BUFFER = - 4"
definition ZJB_RTNCD_JOB_NOT_FOUND :: int where "ZJB_RTNCD_JOB_NOT_FOUND = - 5"
definition ZJB_RTNCD_UNEXPECTED_ERROR :: int where "ZJB_RTNCD_UNEXPECTED_ERROR = - 6"
definition ZJB_RTNCD_JES3_NOT_SUPPORTED :: int where "ZJB_RTNCD_JES3_NOT_SUPPORTED = - 7"
definition ZJB_RTNCD_VERBOSE_INFO_NOT_FOUND :: int where "ZJB_RTNCD_VERBOSE_INFO_NOT_FOUND = - 8"
definition ZJB_RTNCD_JOB_DSN_KEY_NOT_FOUND :: int where "ZJB_RTNCD_JOB_DSN_KEY_NOT_FOUND = - 9"
definition ZJB_RTNCD_CORRELATOR_NOT_FOUND :: int where "ZJB_RTNCD_CORRELATOR_NOT_FOUND = - 10"
definition ZJB_RTNCD_PARSE_ERROR_SIZE :: int where "ZJB_RTNCD_PARSE_ERROR_SIZE = - 11"
definition ZJB_RTNCD_PARSE_ERROR_MALFORMED :: int where "ZJB_RTNCD_PARSE_ERROR_MALFORMED = - 12"
definition ZJB_RTNCD_PARSE_ERROR_NUMBER_LEN :: int where "ZJB_RTNCD_PARSE_ERROR_NUMBER_LEN = - 13"
definition ZJB_RTNCD_PARSE_ERROR_NUMBER_CHAR :: int where "ZJB_RTNCD_PARSE_ERROR_NUMBER_CHAR = - 14"
definition ZJB_RTNCD_PARSE_ERROR_NUMBER_CONVERSION :: int where "ZJB_RTNCD_PARSE_ERROR_NUMBER_CONVERSION = - 15"
definition ZJB_RTNCD_JOB_DSN_NOT_FOUND :: int where "ZJB_RTNCD_JOB_DSN_NOT_FOUND = - 16"
definition ZJB_RSNCD_MAX_JOBS_REACHED :: int where "ZJB_RSNCD_MAX_JOBS_REACHED = - 1"
definition ZJB_DEFAULT_BUFFER_SIZE :: int where "ZJB_DEFAULT_BUFFER_SIZE = 128000"
definition ZJB_DEFAULT_MAX_JOBS :: int where "ZJB_DEFAULT_MAX_JOBS = 1000"
definition ZJB_DEFAULT_MAX_DDS :: int where "ZJB_DEFAULT_MAX_DDS = 100"
definition ZJB_UNKNOWN_RC :: string where "ZJB_UNKNOWN_RC = []"

definition jb_service :: "string \<Rightarrow> zjb \<Rightarrow> zjb" where
  "jb_service s z = z\<lparr> jb_diag := jb_diag z\<lparr> service_name := s \<rparr> \<rparr>"

definition jb_detail :: "int \<Rightarrow> zjb \<Rightarrow> zjb" where
  "jb_detail n z = z\<lparr> jb_diag := jb_diag z\<lparr> detail_rc := n \<rparr> \<rparr>"

definition jb_service_rc :: "int \<Rightarrow> zjb \<Rightarrow> zjb" where
  "jb_service_rc n z = z\<lparr> jb_diag := jb_diag z\<lparr> service_rc := n \<rparr> \<rparr>"

definition jb_reasons :: "int \<Rightarrow> int \<Rightarrow> zjb \<Rightarrow> zjb" where
  "jb_reasons r s z = z\<lparr> service_rsn := r, service_rsn_secondary := s \<rparr>"

definition jb_message :: "string \<Rightarrow> zjb \<Rightarrow> zjb" where
  "jb_message m z = z\<lparr> jb_diag := set_msg m (jb_diag z) \<rparr>"

section \<open>Control blocks\<close>

text \<open>The terse section of a job: names, correlator, phase, type, and the completion of the job.\<close>

record statjqtr =
  sttrname :: string
  sttrjid :: string
  sttrclas :: string
  sttrouid :: string
  sttrphaz :: byte
  sttrjtyp :: byte
  sttrxind :: byte
  sttrmxcc :: "byte list"
  sttrjcor :: string

text \<open>The verbose section of an output data set.\<close>

record statsevb =
  stvsrecf :: byte
  stvsprcd :: string
  stvsstpd :: string
  stvsddnd :: string
  stvsdsky :: int
  stvsdsn :: string
  stvsctkn :: "byte list"

text \<open>An element of the chain of jobs: its subsystem, its terse section and the chain of its outputs.\<close>

record statjq =
  stjqoss :: string
  stjq_terse :: statjqtr
  stjqsvrb :: "statsevb list"

record zjb_job_info =
  info_statjqtr :: statjqtr
  phase_text :: string
  subsystem :: string

definition sizeof_ZJB_JOB_INFO :: int where "sizeof_ZJB_JOB_INFO = 236 + 65 + 5"
definition sizeof_STATSEVB :: int where "sizeof_STATSEVB = 241"

text \<open>The block of a status request (function 80).\<close>

record stat =
  stattype :: int
  statsel1 :: byte
  statsel3 :: byte
  statsel5 :: byte
  statjbil :: string
  statjbih :: string
  statownr :: string
  statjobn :: string
  statphaz :: byte
  statjcrp :: "string option"
  stattrsa :: "statjq list"
  statreas :: int
  statrea2 :: int
  statojbi :: string
  statjobf :: "statjq list"

definition init_stat :: stat where
  "init_stat = \<lparr> stattype = 0, statsel1 = 0, statsel3 = 0, statsel5 = 0, statjbil = replicate 8 NUL, statjbih = replicate 8 NUL,
     statownr = replicate 8 NUL, statjobn = replicate 8 NUL, statphaz = 0, statjcrp = None, stattrsa = [], statreas = 0,
     statrea2 = 0, statojbi = replicate 8 NUL, statjobf = [] \<rparr>"

definition statters :: int where "statters = 1"
definition statmem :: int where "statmem = 3"
definition statoutv :: int where "statoutv = 5"
definition statsown :: byte where "statsown = 0x04"
definition statsjbi :: byte where "statsjbi = 0x10"
definition statsjbn :: byte where "statsjbn = 0x20"
definition statsphz :: byte where "statsphz = 0x20"
definition statscor :: byte where "statscor = 0x80"
definition stat_onmain :: byte where "stat_onmain = 14"
definition statrojb :: int where "statrojb = 64"
definition STATLERR :: int where "STATLERR = 8"

text \<open>The block of a modification (function 85) with the number of jobs it found.\<close>

record ssjm =
  ssjmtype :: int
  ssjmopt1 :: byte
  ssjmpflg :: byte
  ssjmcflg :: byte
  ssjmeflg :: byte
  ssjmtsfl :: byte
  ssjmsel1 :: byte
  ssjmsel2 :: byte
  ssjmsel5 :: byte
  ssjmjbil :: string
  ssjmjbih :: string
  ssjmjcrp :: "string option"
  ssjmretn :: int
  ssjmret2 :: int
  ssjmnsjf :: int

definition ssjm_init :: ssjm where
  "ssjm_init = \<lparr> ssjmtype = 0, ssjmopt1 = 0, ssjmpflg = 0, ssjmcflg = 0, ssjmeflg = 0, ssjmtsfl = 0, ssjmsel1 = 0,
     ssjmsel2 = 0, ssjmsel5 = 0, ssjmjbil = replicate 8 NUL, ssjmjbih = replicate 8 NUL, ssjmjcrp = None, ssjmretn = 0,
     ssjmret2 = 0, ssjmnsjf = 0 \<rparr>"

definition ssjmhold :: int where "ssjmhold = 4"
definition ssjmrls :: int where "ssjmrls = 8"
definition ssjmprg :: int where "ssjmprg = 12"
definition ssjmcanc :: int where "ssjmcanc = 16"
definition ssjmrst :: int where "ssjmrst = 24"
definition ssjmspin :: int where "ssjmspin = 28"
definition ssjmpprt :: byte where "ssjmpprt = 0x10"
definition ssjmcprt :: byte where "ssjmcprt = 0x10"

section \<open>Services\<close>

text \<open>How a request ends: an abend that recovery catches, or the return code of \<open>IEFSSREQ\<close>. The services
  return the block as they leave it and \<open>SSOBRETN\<close>. The proclib request answers with the data sets of
  each concatenation; a request of type \<open>ssjpprrs\<close> releases them.\<close>

datatype ssi_end = Ssi_abend (abend_rc: "32 word") (abend_rsn: "32 word") | Ssi_return int

record jesct =
  jespjesn :: string
  jesjesfg :: byte

record 'w ssi =
  si_jesct :: jesct
  si_status :: "'w \<Rightarrow> stat \<Rightarrow> 'w \<times> ssi_end \<times> stat \<times> int"
  si_modify :: "'w \<Rightarrow> ssjm \<Rightarrow> 'w \<times> ssi_end \<times> ssjm \<times> int"
  si_proclibs :: "'w \<Rightarrow> byte \<Rightarrow> 'w \<times> ssi_end \<times> int \<times> int \<times> string list list"
  si_tlkup :: "'w \<Rightarrow> statjqtr \<Rightarrow> 'w \<times> int \<times> int \<times> string"
  si_symbl :: "'w \<Rightarrow> string \<Rightarrow> 'w \<times> int \<times> int \<times> int \<times> string"
  si_get64 :: "'w \<Rightarrow> int \<Rightarrow> 'w \<times> int"
  si_free64 :: "'w \<Rightarrow> int \<Rightarrow> 'w"

definition jes3actv :: byte where "jes3actv = 0x20"

text \<open>The comparison with 0 binds tighter than the mask; the address of an array is never null, so the
  first test of the source does nothing.\<close>

definition get_ssibssnm :: "jesct \<Rightarrow> int + string" where
  "get_ssibssnm j =
     (if (of_bool (0 \<noteq> jesjesfg j) :: byte) AND jes3actv \<noteq> 0 then Inl ZJB_RTNCD_JES3_NOT_SUPPORTED
      else Inr (jespjesn j))"

definition init_ssib :: "jesct \<Rightarrow> int" where
  "init_ssib j = (case get_ssibssnm j of Inl rc \<Rightarrow> rc | Inr _ \<Rightarrow> RTNCD_SUCCESS)"

definition format_X :: "32 word \<Rightarrow> string" where
  "format_X n = map toupper (show_hex (unat n))"

definition zjb_recovery_diag :: "string \<Rightarrow> 32 word \<Rightarrow> 32 word \<Rightarrow> zjb \<Rightarrow> zjb" where
  "zjb_recovery_diag service rc rsn z =
     jb_message (''Unexpected abend occurred during '' @ take 16 service @ '' (rc:'' @ format_X rc @ '', rsn:'' @ format_X rsn @ '')'')
       (jb_reasons (sint rsn) (service_rsn_secondary z) (jb_service_rc (sint rc)
         (jb_detail ZJB_RTNCD_UNEXPECTED_ERROR (jb_service service z))))"

definition ssi_rc :: "ssi_end \<Rightarrow> zjb \<Rightarrow> zjb \<times> int" where
  "ssi_rc e z =
     (case e of
        Ssi_return rc \<Rightarrow> (z, rc)
      | Ssi_abend rc rsn \<Rightarrow> (zjb_recovery_diag ''IEFSSREQ'' rc rsn z, RTNCD_FAILURE))"

section \<open>Symbols\<close>

definition ZJBSYMB :: "'w ssi \<Rightarrow> 'w \<Rightarrow> zjb \<Rightarrow> string \<Rightarrow> nat \<Rightarrow> 'w \<times> zjb \<times> string \<times> int" where
  "ZJBSYMB si w z symbol value_size =
     (let (w1, rc, retn, reas, value) = si_symbl si w symbol
      in if rc \<noteq> 0
         then (w1, jb_detail ZJB_RTNCD_SERVICE_FAILURE
                 (jb_message (''IAZSYMBL RC was: '' @ quoted_name (show_int rc) @ '', JSYMRETN was: '' @ quoted_name (show_int retn)
                    @ '', JSYMREAS: '' @ show_int reas) (jb_service ''iazsymbl'' z)), [], RTNCD_FAILURE)
         else if value_size \<le> length value
         then (w1, jb_detail ZJB_RTNCD_INSUFFICIENT_BUFFER
                 (jb_message (''Symbol value size ('' @ show_int (int (length value)) @ '') exceeds buffer capacity (''
                    @ show_int (int value_size) @ '') for symbol '' @ quoted_name (take 32 symbol)) (jb_service ''ZJBSYMB'' z)),
               [], RTNCD_FAILURE)
         else (w1, z, value, RTNCD_SUCCESS))"

section \<open>Modifying jobs\<close>

text \<open>The part of a request that selects the job: its identifier, or the correlator when the identifier is
  not set.\<close>

definition select_modify :: "zjb \<Rightarrow> ssjm \<Rightarrow> ssjm" where
  "select_modify z s =
     (if jobid z ! 0 \<noteq> NUL
      then s\<lparr> ssjmsel1 := ssjmsel1 s OR 0x10, ssjmjbil := jobid z, ssjmjbih := jobid z \<rparr>
      else s\<lparr> ssjmsel5 := 0x80, ssjmjcrp := Some (correlator z) \<rparr>)"

definition modify_flags :: "int \<Rightarrow> byte \<Rightarrow> ssjm \<Rightarrow> ssjm" where
  "modify_flags type flags s =
     (if type = ssjmprg then s\<lparr> ssjmpflg := ssjmpflg s OR flags \<rparr>
      else if type = ssjmcanc then s\<lparr> ssjmcflg := ssjmcflg s OR flags \<rparr>
      else if type = ssjmhold then s
      else if type = ssjmrls then s
      else if type = ssjmrst then s\<lparr> ssjmeflg := ssjmeflg s OR flags \<rparr>
      else if type = ssjmspin then s\<lparr> ssjmtsfl := ssjmtsfl s OR flags \<rparr>
      else s)"

definition modify_request :: "zjb \<Rightarrow> int \<Rightarrow> byte \<Rightarrow> ssjm" where
  "modify_request z type flags =
     (let s = select_modify z (modify_flags type flags (ssjm_init\<lparr> ssjmopt1 := 0x04 OR 0x02, ssjmtype := type \<rparr>))
      in s\<lparr> ssjmsel2 := ((ssjmsel2 s OR 0x20) OR 0x80) OR 0x40 \<rparr>)"

definition not_found :: "zjb \<Rightarrow> zjb" where
  "not_found z =
     (if jobid z ! 0 \<noteq> NUL
      then jb_message (''No jobs found matching jobid '' @ quoted_name (takeWhile (\<lambda>c. c \<noteq> NUL) (jobid z)))
             (jb_detail ZJB_RTNCD_JOB_NOT_FOUND z)
      else jb_message (''No jobs found matching correlator '' @ quoted_name (takeWhile (\<lambda>c. c \<noteq> NUL) (correlator z)))
             (jb_detail ZJB_RTNCD_CORRELATOR_NOT_FOUND z))"

definition ZJBMMOD :: "'w ssi \<Rightarrow> 'w \<Rightarrow> zjb \<Rightarrow> int \<Rightarrow> byte \<Rightarrow> 'w \<times> zjb \<times> int" where
  "ZJBMMOD si w z type flags =
     (let rc0 = init_ssib (si_jesct si)
      in if rc0 \<noteq> 0
         then (w, jb_message (if rc0 = ZJB_RTNCD_JES3_NOT_SUPPORTED then ''JES3 is not supported'' else ''Failed to get SSIBSSNM'')
                    (jb_detail rc0 (jb_service ''init_ssib'' z)), RTNCD_FAILURE)
         else let (w1, answer, s, retn) = si_modify si w (modify_request z type flags);
                  (z1, rc) = ssi_rc answer z
              in if rc \<noteq> 0 \<or> retn \<noteq> 0
                 then (w1, jb_message (''IEFSSREQ rc was: '' @ quoted_name (show_int rc) @ '' SSOBRETN was: '' @ quoted_name (show_int retn)
                             @ '', SSJMRETN was: '' @ quoted_name (show_int (ssjmretn s)) @ '', SSJMRET2 was: ''
                             @ quoted_name (show_int (ssjmret2 s)))
                       (jb_reasons (ssjmretn s) (ssjmret2 s) (jb_service_rc retn (jb_service ''IEFSSREQ'' z1))), RTNCD_FAILURE)
                 else if ssjmnsjf s = 0 then (w1, not_found z1, RTNCD_FAILURE)
                 else (w1, z1, RTNCD_SUCCESS))"

definition ZJBMPRG :: "'w ssi \<Rightarrow> 'w \<Rightarrow> zjb \<Rightarrow> 'w \<times> zjb \<times> int" where
  "ZJBMPRG si w z = ZJBMMOD si w z ssjmprg ssjmpprt"

text \<open>The flags of the caller are computed into options that are not used.\<close>

definition ZJBMCNL :: "'w ssi \<Rightarrow> 'w \<Rightarrow> zjb \<Rightarrow> byte \<Rightarrow> 'w \<times> zjb \<times> int" where
  "ZJBMCNL si w z flags = ZJBMMOD si w z ssjmcanc ssjmcprt"

definition ZJBMHLD :: "'w ssi \<Rightarrow> 'w \<Rightarrow> zjb \<Rightarrow> 'w \<times> zjb \<times> int" where
  "ZJBMHLD si w z = ZJBMMOD si w z ssjmhold 0"

definition ZJBMRLS :: "'w ssi \<Rightarrow> 'w \<Rightarrow> zjb \<Rightarrow> 'w \<times> zjb \<times> int" where
  "ZJBMRLS si w z = ZJBMMOD si w z ssjmrls 0"

section \<open>Status of jobs\<close>

definition ZJBMEMSG :: "zjb \<Rightarrow> stat \<Rightarrow> int \<Rightarrow> int \<Rightarrow> zjb" where
  "ZJBMEMSG z st retn rc =
     jb_message
       (if retn = STATLERR \<and> statreas st = statrojb
        then ''Job ID '' @ quoted_name (takeWhile (\<lambda>c. c \<noteq> NUL) (take 8 (statojbi st))) @ '' was not valid''
        else ''IEFSSREQ rc was: '' @ quoted_name (show_int rc) @ '' SSOBRETN was: '' @ quoted_name (show_int retn)
             @ '', STATREAS was: '' @ quoted_name (show_int (statreas st)) @ '', STATREA2 was: '' @ quoted_name (show_int (statrea2 st)))
       (jb_reasons (statreas st) (statrea2 st) (jb_service_rc retn
         (jb_detail ZJB_RTNCD_SERVICE_FAILURE (jb_service ''IEFSSREQ'' z))))"

text \<open>A request under recovery, the release of the storage of the subsystem under recovery, and the
  release outside of it.\<close>

definition status_request :: "'w ssi \<Rightarrow> 'w \<Rightarrow> zjb \<Rightarrow> stat \<Rightarrow> 'w \<times> zjb \<times> stat \<times> int \<times> int" where
  "status_request si w z st =
     (let (w1, answer, st1, retn) = si_status si w st; (z1, rc) = ssi_rc answer z in (w1, z1, st1, retn, rc))"

definition status_release :: "'w ssi \<Rightarrow> 'w \<Rightarrow> zjb \<Rightarrow> stat \<Rightarrow> 'w \<times> zjb \<times> int" where
  "status_release si w z st =
     (let (w1, z1, _, _, rc) = status_request si w z (st\<lparr> stattype := statmem \<rparr>) in (w1, z1, rc))"

definition plain_release :: "'w ssi \<Rightarrow> 'w \<Rightarrow> stat \<Rightarrow> 'w" where
  "plain_release si w st = fst (si_status si w (st\<lparr> stattype := statmem \<rparr>))"

text \<open>The lookup of the text of a phase overwrites the detail code in any case.\<close>

definition iaztlkup :: "'w ssi \<Rightarrow> 'w \<Rightarrow> zjb \<Rightarrow> statjqtr \<Rightarrow> 'w \<times> zjb \<times> string \<times> int" where
  "iaztlkup si w z tr = (let (w1, rc, retcd, text) = si_tlkup si w tr in (w1, jb_detail retcd z, take 64 text, rc))"

text \<open>The loop over the jobs: where it ends, what was copied (the pointer stands behind it) and the size
  it would have taken.\<close>

datatype jobs_end = Jobs_all | Jobs_max | Jobs_lookup_failed

fun copy_jobs ::
    "'w ssi \<Rightarrow> 'w \<Rightarrow> zjb \<Rightarrow> statjq list \<Rightarrow> int \<Rightarrow> int \<Rightarrow> zjb_job_info list \<Rightarrow> 'w \<times> zjb \<times> zjb_job_info list \<times> int \<times> jobs_end" where
  "copy_jobs si w z [] loop_control total0 infos = (w, z, infos, total0, Jobs_all)"
| "copy_jobs si w z (q # qs) loop_control total0 infos =
     (if jobs_max z \<le> loop_control then (w, z, infos, total0, Jobs_max)
      else let total' = total0 + sizeof_ZJB_JOB_INFO
           in if total' \<le> buffer_size z
              then (let (w1, z1, text, rc) = iaztlkup si w z (stjq_terse q)
                    in if rc \<noteq> 0
                       then (w1, jb_detail ZJB_RTNCD_SERVICE_FAILURE
                               (jb_message (''IAZTLKUP RC: '' @ quoted_name (show_int rc) @ '' reason: '' @ quoted_name (show_int (detail_rc (jb_diag z1))))
                                 (jb_service ''iaztlkup'' z1)), infos, total', Jobs_lookup_failed)
                       else copy_jobs si w1 z1 qs (loop_control + 1) total'
                              (infos @ [\<lparr> info_statjqtr = stjq_terse q, phase_text = text,
                                          subsystem = takeWhile (\<lambda>c. c \<noteq> NUL) (take 4 (stjqoss q)) \<rparr>]))
              else copy_jobs si w (jb_detail ZJB_RTNCD_INSUFFICIENT_BUFFER z) qs (loop_control + 1) total' infos)"

text \<open>The result: the storage that holds the list, when there is one, and the list. When a lookup fails, the
  address that is released is the one of the entry it failed for.\<close>

definition ZJBMTCOM :: "'w ssi \<Rightarrow> 'w \<Rightarrow> zjb \<Rightarrow> stat \<Rightarrow> 'w \<times> zjb \<times> int option \<times> zjb_job_info list \<times> int" where
  "ZJBMTCOM si w z st =
     (if init_ssib (si_jesct si) \<noteq> 0
      then (w, jb_detail ZJB_RTNCD_SERVICE_FAILURE (jb_service ''init_ssib'' z), None, [], RTNCD_FAILURE)
      else let (w1, z1, st1, retn, rc) = status_request si w z st
           in if rc \<noteq> 0 \<or> retn \<noteq> 0
              then (plain_release si w1 st1, ZJBMEMSG z1 st1 retn rc, None, [], RTNCD_FAILURE)
              else let (w2, addr) = si_get64 si w1 (buffer_size z1);
                       (w3, z2, infos, size1, e) = copy_jobs si w2 z1 (statjobf st1) 0 0 []
                   in case e of
                        Jobs_max \<Rightarrow>
                          (let z3 = jb_message (''Reached maximum returned jobs requested '' @ show_int (jobs_max z2))
                                      (jb_detail ZJB_RSNCD_MAX_JOBS_REACHED z2);
                               (w4, z4, rc') = status_release si w3 z3 st1
                           in (w4, z4, Some addr, infos, if rc' = RTNCD_FAILURE then rc' else RTNCD_WARNING))
                      | Jobs_lookup_failed \<Rightarrow>
                          (si_free64 si w3 (addr + sizeof_ZJB_JOB_INFO * int (length infos)), z2, Some addr, infos, RTNCD_FAILURE)
                      | Jobs_all \<Rightarrow>
                          (let (w4, z4, rc') = status_release si w3 (z2\<lparr> buffer_size_needed := size1 \<rparr>) st1
                           in (w4, z4, Some addr, infos, rc')))"

definition select_status :: "zjb \<Rightarrow> stat \<Rightarrow> stat" where
  "select_status z st =
     (if jobid z ! 0 \<noteq> NUL
      then st\<lparr> statsel1 := statsel1 st OR statsjbi, statjbil := jobid z, statjbih := jobid z \<rparr>
      else st\<lparr> statsel5 := statscor, statjcrp := Some (correlator z) \<rparr>)"

definition ZJBMVIEW :: "'w ssi \<Rightarrow> 'w \<Rightarrow> zjb \<Rightarrow> 'w \<times> zjb \<times> int option \<times> zjb_job_info list \<times> int" where
  "ZJBMVIEW si w z = ZJBMTCOM si w z ((select_status z init_stat)\<lparr> stattype := statters \<rparr>)"

text \<open>\<open>strcmp\<close> compares the memory from an array on, up to the null character of the literal: the arrays
  have none, so the comparison goes on in the fields that follow.\<close>

definition strcmp_equal :: "string \<Rightarrow> string \<Rightarrow> bool" where
  "strcmp_equal memory literal \<longleftrightarrow> take (Suc (length literal)) memory = literal @ [NUL]"

definition from_status :: "zjb \<Rightarrow> string" where
  "from_status z = status_name z @ map unebcdic (token z)"

definition list_request :: "zjb \<Rightarrow> stat" where
  "list_request z =
     (let st = init_stat\<lparr> statsel1 := statsown, stattype := statters, statownr := owner_name z \<rparr>;
          st1 = (if strcmp_equal (prefix_name z @ from_status z) ''        '' then st
                 else st\<lparr> statsel1 := statsel1 st OR statsjbn, statjobn := prefix_name z \<rparr>)
      in if strcmp_equal (from_status z) ''ACTIVE  ''
         then st1\<lparr> statphaz := stat_onmain, statsel3 := statsel3 st1 OR statsphz \<rparr> else st1)"

definition ZJBMLIST :: "'w ssi \<Rightarrow> 'w \<Rightarrow> zjb \<Rightarrow> 'w \<times> zjb \<times> int option \<times> zjb_job_info list \<times> int" where
  "ZJBMLIST si w z = ZJBMTCOM si w z (list_request z)"

section \<open>Output data sets of a job\<close>

definition ZJBMGJQ :: "'w ssi \<Rightarrow> 'w \<Rightarrow> zjb \<Rightarrow> stat \<Rightarrow> 'w \<times> zjb \<times> stat \<times> statjq list \<times> int" where
  "ZJBMGJQ si w z st =
     (let (w1, z1, st1, retn, rc) = status_request si w z st
      in if rc \<noteq> 0 \<or> retn \<noteq> 0
         then (plain_release si w1 st1, ZJBMEMSG z1 st1 retn rc, st1, [], RTNCD_FAILURE)
         else (w1, z1, st1, statjobf st1, RTNCD_SUCCESS))"

text \<open>The loops over the jobs and their outputs: the number of outputs counts over all jobs.\<close>

fun copy_outputs :: "zjb \<Rightarrow> statsevb list \<Rightarrow> int \<Rightarrow> int \<Rightarrow> statsevb list \<Rightarrow> zjb \<times> statsevb list \<times> int \<times> int \<times> bool" where
  "copy_outputs z [] loop_control total0 copied = (z, copied, loop_control, total0, True)"
| "copy_outputs z (o' # os) loop_control total0 copied =
     (if dds_max z \<le> loop_control then (z, copied, loop_control, total0, False)
      else let total' = total0 + sizeof_STATSEVB
           in if total' \<le> buffer_size z then copy_outputs z os (loop_control + 1) total' (copied @ [o'])
              else copy_outputs (jb_detail ZJB_RTNCD_INSUFFICIENT_BUFFER z) os (loop_control + 1) total' copied)"

fun copy_all_outputs :: "zjb \<Rightarrow> statjq list \<Rightarrow> int \<Rightarrow> int \<Rightarrow> statsevb list \<Rightarrow> zjb \<times> statsevb list \<times> int \<times> int \<times> bool" where
  "copy_all_outputs z [] loop_control total0 copied = (z, copied, loop_control, total0, True)"
| "copy_all_outputs z (q # qs) loop_control total0 copied =
     (let (z1, copied1, loop1, total1, all_done) = copy_outputs z (stjqsvrb q) loop_control total0 copied
      in if all_done then copy_all_outputs z1 qs loop1 total1 copied1 else (z1, copied1, loop1, total1, False))"

definition ZJBMLSDS :: "'w ssi \<Rightarrow> 'w \<Rightarrow> zjb \<Rightarrow> 'w \<times> zjb \<times> int option \<times> statsevb list \<times> int" where
  "ZJBMLSDS si w z =
     (if init_ssib (si_jesct si) \<noteq> 0
      then (w, jb_detail ZJB_RTNCD_SERVICE_FAILURE (jb_service ''init_ssib'' z), None, [], RTNCD_FAILURE)
      else let (w1, z1, st1, jobs, rc) = ZJBMGJQ si w z (select_status z (init_stat\<lparr> stattype := statters \<rparr>))
           in if rc \<noteq> 0 then (w1, z1, None, [], rc)
              else let st2 = st1\<lparr> statsel1 := 0, statsel5 := 0 \<rparr>
                   in if jobs = []
                      then (case status_release si w1 (not_found z1) st2 of (w2, z2, _) \<Rightarrow> (w2, z2, None, [], RTNCD_FAILURE))
                      else let (w2, z2, st3, retn, rc2) = status_request si w1 z1 (st2\<lparr> stattrsa := jobs, stattype := statoutv \<rparr>)
                           in if rc2 \<noteq> 0 \<or> retn \<noteq> 0
                              then (w2, jb_message (''IEFSSREQ rc was: '' @ quoted_name (show_int rc2) @ '' SSOBRETN was: ''
                                          @ quoted_name (show_int retn) @ '', STATREAS was: '' @ quoted_name (show_int (statreas st3))
                                          @ '', STATREA2 was: '' @ quoted_name (show_int (statrea2 st3)))
                                      (jb_reasons (statreas st3) (statrea2 st3) (jb_service_rc retn (jb_service ''IEFSSREQ'' z2))),
                                    None, [], RTNCD_FAILURE)
                              else let found = (if statjobf st3 = [] then stattrsa st3 else statjobf st3)
                                   in if found = []
                                      then (case status_release si w2 (jb_detail ZJB_RTNCD_JOB_NOT_FOUND (not_found z2)) st3 of
                                              (w3, z3, _) \<Rightarrow> (w3, z3, None, [], RTNCD_FAILURE))
                                      else let (w3, addr) = si_get64 si w2 (buffer_size z2);
                                               (z3, copied, loop_control, total1, all_done) = copy_all_outputs z2 found 0 0 []
                                           in if \<not> all_done
                                              then (let (w4, z4, rc') = status_release si w3 z3 st3
                                                    in (w4, jb_message (''max DDs reached '' @ quoted_name (show_int (dds_max z4)) @ '', results truncated'')
                                                              (jb_detail ZJB_RSNCD_MAX_JOBS_REACHED z4),
                                                        Some addr, copied, if rc' = RTNCD_FAILURE then rc' else RTNCD_WARNING))
                                              else (let (w4, z4, rc') = status_release si w3 (z3\<lparr> buffer_size_needed := total1 \<rparr>) st3
                                                    in (w4, z4, Some addr, copied, rc')))"

section \<open>Procedure libraries\<close>

definition DSN_ENTRY_SIZE :: int where "DSN_ENTRY_SIZE = 44"
definition MAX_DSN_ENTRIES :: int where "MAX_DSN_ENTRIES = 100"
definition MAX_DSN_ENTRY_SIZE :: int where "MAX_DSN_ENTRY_SIZE = MAX_DSN_ENTRIES * DSN_ENTRY_SIZE"
definition ssjpprod :: byte where "ssjpprod = 44"
definition ssjpprrs :: byte where "ssjpprrs = 48"

text \<open>The data sets of a concatenation: each is copied and counted before the limit is tested.\<close>

fun copy_dsns :: "string list \<Rightarrow> string list \<Rightarrow> string list \<times> bool" where
  "copy_dsns [] buffer = (buffer, True)"
| "copy_dsns (dsn # dsns) buffer =
     (let buffer' = buffer @ [dsn]
      in if MAX_DSN_ENTRIES < int (length buffer') then (buffer', False) else copy_dsns dsns buffer')"

fun copy_concatenations :: "string list list \<Rightarrow> string list \<Rightarrow> string list \<times> bool" where
  "copy_concatenations [] buffer = (buffer, True)"
| "copy_concatenations (dsns # rest) buffer =
     (let (buffer', ok) = copy_dsns dsns buffer in if ok then copy_concatenations rest buffer' else (buffer', False))"

text \<open>The result: what was copied to the buffer, one name per entry. The return code for too many entries is
  replaced by the one of the release. The buffer of the caller is never null.\<close>

definition ZJBMLPRC :: "'w ssi \<Rightarrow> 'w \<Rightarrow> zjb \<Rightarrow> int \<Rightarrow> 'w \<times> zjb \<times> string list \<times> int" where
  "ZJBMLPRC si w z capacity =
     (if capacity < MAX_DSN_ENTRY_SIZE
      then (w, jb_message (''buffer is NULL or buffer size is less than '' @ quoted_name (show_int MAX_DSN_ENTRY_SIZE))
                 (jb_detail ZJB_RTNCD_INSUFFICIENT_BUFFER z), [], RTNCD_FAILURE)
      else if init_ssib (si_jesct si) \<noteq> 0
      then (w, jb_detail ZJB_RTNCD_SERVICE_FAILURE (jb_service ''init_ssib'' z), [], RTNCD_FAILURE)
      else let (w1, answer, retn, ssjpretn, concatenations) = si_proclibs si w ssjpprod;
               (z1, rc) = ssi_rc answer z
           in if rc \<noteq> 0 \<or> retn \<noteq> 0
              then (w1, jb_message (''IEFSSREQ rc was: '' @ quoted_name (show_int rc) @ '' SSOBRETN was: '' @ quoted_name (show_int retn)
                          @ '', SSJPRETN was: '' @ quoted_name (show_int ssjpretn))
                      (jb_reasons ssjpretn (service_rsn_secondary z1) (jb_service_rc retn (jb_service ''IEFSSREQ'' z1))), [], RTNCD_FAILURE)
              else let (buffer, ok) = copy_concatenations concatenations [];
                       z2 = (if ok then z1
                             else jb_message (''max DSN entries reached '' @ quoted_name (show_int MAX_DSN_ENTRIES) @ '', results truncated'')
                                    (jb_detail ZJB_RTNCD_INSUFFICIENT_BUFFER z1));
                       (w2, released, _) = si_proclibs si w1 ssjpprrs;
                       (z3, rc') = ssi_rc released z2
                   in (w2, z3, buffer, rc'))"

end
