(* ===== verification/Zjb.thy ===== *)
theory Zjb
  imports Zjbm Zds_Dscb
begin

text \<open>
  Jobs (\<open>zjb.cpp\<close>): submitting, listing, viewing, reading output, waiting, and the modifications, over the
  services of \<open>Zjbm\<close> and the data set operations of \<open>Zds_Write\<close>. Dynamic allocation of spool data
  sets (SVC 99) and of the internal reader, \<open>sleep\<close> and the user identifier are parameters. Reading the
  system log is not modelled: it goes through the VSAM reader.
\<close>

unbundle bit_operations_syntax

section \<open>Parameters\<close>

text \<open>A spool data set is allocated for input by its name and a browse token, which holds the token of the data
  set when there is one. The answer is the return code, the error and information codes and the DD name.\<close>

record spool_request =
  sr_jobdsn :: string
  sr_token :: "byte list option"

record 'w jb_ops =
  jo_ssi :: "'w ssi"
  jo_zds :: "'w zds_ops"
  jo_getuserid :: "int \<times> string"
  jo_svc99 :: "'w \<Rightarrow> spool_request \<Rightarrow> 'w \<times> int \<times> int \<times> int \<times> string"
  jo_dyninit :: int
  jo_dynalloc_intrdr :: "'w \<Rightarrow> 'w \<times> int \<times> string"
  jo_dynfree :: "'w \<Rightarrow> string \<Rightarrow> 'w \<times> int"
  jo_sleep :: "'w \<Rightarrow> 'w"

definition zut_get_current_user :: "int \<times> string \<Rightarrow> string \<Rightarrow> string" where
  "zut_get_current_user answer struser = (if fst answer \<noteq> 0 then struser else zut_rtrim '' '' (snd answer))"

section \<open>Selecting a job\<close>

text \<open>A text longer than an identifier is a correlator; the other field keeps its contents.\<close>

definition set_job :: "string \<Rightarrow> zjb \<Rightarrow> zjb" where
  "set_job job_id z =
     (if 8 < length job_id then z\<lparr> correlator := zut_uppercase_pad_truncate job_id 64 \<rparr>
      else z\<lparr> jobid := zut_uppercase_pad_truncate job_id 8 \<rparr>)"

definition job_defaults :: "zjb \<Rightarrow> zjb" where
  "job_defaults z =
     (let z1 = (if buffer_size z = 0 then z\<lparr> buffer_size := ZJB_DEFAULT_BUFFER_SIZE \<rparr> else z)
      in if jobs_max z1 = 0 then z1\<lparr> jobs_max := ZJB_DEFAULT_MAX_JOBS \<rparr> else z1)"

definition dds_defaults :: "zjb \<Rightarrow> zjb" where
  "dds_defaults z =
     (let z1 = (if buffer_size z = 0 then z\<lparr> buffer_size := ZJB_DEFAULT_BUFFER_SIZE \<rparr> else z)
      in if dds_max z1 = 0 then z1\<lparr> dds_max := ZJB_DEFAULT_MAX_DDS \<rparr> else z1)"

section \<open>Jobs\<close>

record zjob =
  j_jobname :: string
  j_jobid :: string
  j_owner :: string
  j_status :: string
  j_full_status :: string
  j_retcode :: string
  j_correlator :: string
  j_subsystem :: string
  j_type :: string
  j_jobclass :: string
  j_phase :: int

text \<open>The completion indicator and code as one big-endian word, and the return code they are shown as.\<close>

definition completion_word :: "statjqtr \<Rightarrow> 32 word" where
  "completion_word tr =
     push_bit 24 (ucast (sttrxind tr)) OR push_bit 16 (ucast (sttrmxcc tr ! 0)) OR push_bit 8 (ucast (sttrmxcc tr ! 1))
       OR ucast (sttrmxcc tr ! 2)"

definition word_part :: "32 word \<Rightarrow> nat \<Rightarrow> byte" where
  "word_part w i = ucast (drop_bit (8 * (3 - i)) w)"

definition completion_text :: "statjqtr \<Rightarrow> string" where
  "completion_text tr =
     (if sttrxind tr AND 0x80 \<noteq> 0
      then let full = completion_word tr AND 0x00FFF000;
               byte1 = drop_bit 4 (word_part full 1); byte2 = word_part full 1 AND 0x0F; byte3 = drop_bit 4 (word_part full 2)
           in ''ABEND '' @ [zut_get_hex_char (ucast byte1), zut_get_hex_char (ucast byte2), zut_get_hex_char (ucast byte3)]
      else ''CC '' @ pad_zeros 4 (show_int (sint (completion_word tr AND 0x00000FFF))))"

definition special_retcode :: "statjqtr \<Rightarrow> string \<Rightarrow> string" where
  "special_retcode tr retcode =
     (if sttrxind tr = 3 then ''JCL ERROR''
      else if sttrxind tr = 4 then ''CANCELED''
      else if sttrxind tr = 7 then ''SEC ERROR''
      else retcode)"

definition job_type :: "statjqtr \<Rightarrow> string" where
  "job_type tr = (if sttrjtyp tr = 1 then ''STC'' else if sttrjtyp tr = 2 then ''TSU'' else ''JOB'')"

definition job_status :: "statjqtr \<Rightarrow> string \<Rightarrow> string \<times> string" where
  "job_status tr full_status =
     (if full_status = ''AWAIT MAIN SELECT'' then (''INPUT'', ZJB_UNKNOWN_RC)
      else if full_status = ''EXECUTING'' then (''ACTIVE'', ZJB_UNKNOWN_RC)
      else if full_status = ''AWAITING OUTPUT'' then (''OUTPUT'', completion_text tr)
      else (full_status, ZJB_UNKNOWN_RC))"

definition job_response :: "zjb_job_info \<Rightarrow> zjob" where
  "job_response info =
     (let tr = info_statjqtr info;
          full_status = zut_rtrim '' '' (takeWhile (\<lambda>c. c \<noteq> NUL) (phase_text info));
          (status, retcode) = job_status tr full_status
      in \<lparr> j_jobname = sttrname tr, j_jobid = sttrjid tr, j_owner = (if sttrouid tr ! 0 = NUL then [] else sttrouid tr),
           j_status = status, j_full_status = full_status, j_retcode = special_retcode tr retcode,
           j_correlator = sttrjcor tr, j_subsystem = subsystem info @ replicate (5 - length (subsystem info)) NUL,
           j_type = job_type tr, j_jobclass = sttrclas tr, j_phase = uint (sttrphaz tr) \<rparr>)"

definition zjb_build_job_response :: "zjb_job_info list \<Rightarrow> zjob list" where
  "zjb_build_job_response infos = map job_response infos"

definition free64 :: "'w ssi \<Rightarrow> 'w \<Rightarrow> int option \<Rightarrow> 'w" where
  "free64 si w addr = (case addr of Some a \<Rightarrow> si_free64 si w a | None \<Rightarrow> w)"

definition zjb_view :: "'w jb_ops \<Rightarrow> 'w \<Rightarrow> zjb \<Rightarrow> string \<Rightarrow> 'w \<times> zjb \<times> zjob option \<times> int" where
  "zjb_view jo w z job_id =
     (let (w1, z1, addr, infos, rc) = ZJBMVIEW (jo_ssi jo) w (set_job job_id (job_defaults z))
      in if rc \<noteq> 0 then (w1, z1, None, rc)
         else (case zjb_build_job_response infos of
                 [] \<Rightarrow> (w1, jb_detail ZJB_RTNCD_JOB_NOT_FOUND (jb_message (''Could not locate job with job_id '' @ quoted_name job_id) z1), None, RTNCD_FAILURE)
               | job # _ \<Rightarrow> (free64 (jo_ssi jo) w1 addr, z1, Some job, RTNCD_SUCCESS)))"

definition zjb_list_by_owner ::
    "'w jb_ops \<Rightarrow> 'w \<Rightarrow> zjb \<Rightarrow> string \<Rightarrow> string \<Rightarrow> string \<Rightarrow> 'w \<times> zjb \<times> zjob list \<times> int" where
  "zjb_list_by_owner jo w z owner job_prefix status =
     (let resolved_owner = (if owner = [] then zut_get_current_user (jo_getuserid jo) owner else owner);
          z1 = (job_defaults z)\<lparr> owner_name := zut_uppercase_pad_truncate resolved_owner 8,
                 prefix_name := zut_uppercase_pad_truncate job_prefix 8, status_name := zut_uppercase_pad_truncate status 8 \<rparr>;
          (w1, z2, addr, infos, rc) = ZJBMLIST (jo_ssi jo) w z1
      in if rc \<noteq> RTNCD_SUCCESS \<and> rc \<noteq> RTNCD_WARNING then (w1, z2, [], rc)
         else (free64 (jo_ssi jo) w1 addr, z2, zjb_build_job_response infos, rc))"

definition zjb_list_proclib :: "'w jb_ops \<Rightarrow> 'w \<Rightarrow> zjb \<Rightarrow> 'w \<times> zjb \<times> string list \<times> int" where
  "zjb_list_proclib jo w z =
     (let (w1, z1, buffer, rc) = ZJBMLPRC (jo_ssi jo) w z MAX_DSN_ENTRY_SIZE
      in (w1, z1, if rc = RTNCD_SUCCESS then buffer else [], rc))"

section \<open>Output data sets\<close>

record zjob_dd =
  dd_jobid :: string
  dd_ddn :: string
  dd_dsn :: string
  dd_stepname :: string
  dd_procstep :: string
  dd_token :: "byte list"
  dd_key :: int
  dd_is_asa :: bool

definition dd_of_output :: "string \<Rightarrow> statsevb \<Rightarrow> zjob_dd" where
  "dd_of_output job_id e = \<lparr> dd_jobid = job_id, dd_ddn = stvsddnd e, dd_dsn = stvsdsn e, dd_stepname = stvsstpd e,
     dd_procstep = stvsprcd e, dd_token = stvsctkn e, dd_key = stvsdsky e, dd_is_asa = (stvsrecf e AND 0x04 \<noteq> 0) \<rparr>"

text \<open>The two data sets of a job that is still in the input queue, with the keys they usually have.\<close>

definition input_dd :: "zjob \<Rightarrow> string \<Rightarrow> int \<Rightarrow> zjob_dd" where
  "input_dd job ddn key =
     \<lparr> dd_jobid = j_jobid job, dd_ddn = ddn,
       dd_dsn = zut_rtrim '' '' (j_owner job) @ ''.'' @ zut_rtrim '' '' (j_jobname job) @ ''.'' @ j_jobid job @ ''.'' @ ddn,
       dd_stepname = [], dd_procstep = [], dd_token = replicate 80 0, dd_key = key, dd_is_asa = False \<rparr>"

definition zjb_list_dds :: "'w jb_ops \<Rightarrow> 'w \<Rightarrow> zjb \<Rightarrow> string \<Rightarrow> 'w \<times> zjb \<times> zjob_dd list \<times> int" where
  "zjb_list_dds jo w z job_id =
     (let (w1, z1, addr, outputs, rc) = ZJBMLSDS (jo_ssi jo) w (set_job job_id (dds_defaults z))
      in if rc \<noteq> RTNCD_SUCCESS \<and> rc \<noteq> RTNCD_WARNING then (w1, z1, [], rc)
         else if outputs = []
         then (let (w2, z2, job, view_rc) = zjb_view jo w1 z1 job_id;
                   w3 = free64 (jo_ssi jo) w2 addr
               in case job of
                    Some j \<Rightarrow> (w3, z2, [input_dd j ''JESMSGLG'' 2, input_dd j ''JESJCL'' 3], rc)
                  | None \<Rightarrow> (w3, jb_detail ZJB_RTNCD_VERBOSE_INFO_NOT_FOUND
                               (jb_message (''no output DDs found for '' @ quoted_name job_id) z2), [], RTNCD_WARNING))
         else (free64 (jo_ssi jo) w1 addr, z1, map (dd_of_output job_id) outputs, rc))"

definition zjb_get_job_dsn_by_key :: "'w jb_ops \<Rightarrow> 'w \<Rightarrow> zjb \<Rightarrow> string \<Rightarrow> int \<Rightarrow> 'w \<times> zjb \<times> string \<times> int" where
  "zjb_get_job_dsn_by_key jo w z job_id key =
     (let (w1, z1, dds, rc) = zjb_list_dds jo w z job_id
      in if rc \<noteq> 0 then (w1, z1, [], rc)
         else (case find (\<lambda>dd. key = dd_key dd) dds of
                 Some dd \<Rightarrow> (w1, z1\<lparr> token := dd_token dd \<rparr>, dd_dsn dd, RTNCD_SUCCESS)
               | None \<Rightarrow> (w1, jb_detail ZJB_RTNCD_JOB_DSN_KEY_NOT_FOUND
                            (jb_message (''Could not locate data set key '' @ quoted_name (show_int key) @ '' on job '' @ quoted_name job_id) z1),
                          [], RTNCD_WARNING)))"

text \<open>A spool data set name is \<open>userid.jobname.jobid.Dkey\<close>, possibly with more qualifiers.\<close>

definition after_dot :: "string \<Rightarrow> string option" where
  "after_dot s = (case dropWhile (\<lambda>c. c \<noteq> CHR ''.'') s of [] \<Rightarrow> None | _ # rest \<Rightarrow> Some rest)"

definition before_dot :: "string \<Rightarrow> string" where
  "before_dot s = takeWhile (\<lambda>c. c \<noteq> CHR ''.'') s"

definition zjb_parse_dsn_for_key :: "string \<Rightarrow> int + string \<times> int" where
  "zjb_parse_dsn_for_key dsn =
     (case after_dot dsn of
        None \<Rightarrow> Inl ZJB_RTNCD_PARSE_ERROR_SIZE
      | Some from_jobname \<Rightarrow>
     (case after_dot from_jobname of
        None \<Rightarrow> Inl ZJB_RTNCD_PARSE_ERROR_SIZE
      | Some from_jobid \<Rightarrow>
     (case after_dot from_jobid of
        None \<Rightarrow> Inl ZJB_RTNCD_PARSE_ERROR_SIZE
      | Some from_ddskey \<Rightarrow>
          let ddskey = before_dot from_ddskey
          in if ddskey = [] \<or> ddskey ! 0 \<noteq> CHR ''D'' then Inl ZJB_RTNCD_PARSE_ERROR_MALFORMED
             else let key_str = drop 1 ddskey
                  in if key_str = [] \<or> 7 < length key_str then Inl ZJB_RTNCD_PARSE_ERROR_NUMBER_LEN
                     else if \<not> list_all is_ascii_dec_digit key_str then Inl ZJB_RTNCD_PARSE_ERROR_NUMBER_CHAR
                     else Inr (before_dot from_jobid, int (digits_value 10 key_str)))))"

section \<open>Reading output\<close>

definition alloc_message :: "string \<Rightarrow> int \<Rightarrow> int \<Rightarrow> int \<Rightarrow> string" where
  "alloc_message jobdsn rc s99error s99info =
     ''Could not allocate job spool file '' @ quoted_name jobdsn @ '', rc: '' @ quoted_name (show_int rc) @ '' s99error: ''
       @ quoted_name (show_int s99error) @ '' s99info: '' @ quoted_name (show_int s99info)"

text \<open>The token of the block is used when it is not zero. The request fails only when the error code is set;
  the return code is passed on in any case. The DD name that was given stays when the request fails.\<close>

definition zjb_read_job_dynamic_allocation ::
    "'w jb_ops \<Rightarrow> 'w \<Rightarrow> zjb \<Rightarrow> string \<Rightarrow> string \<Rightarrow> 'w \<times> zjb \<times> string \<times> int" where
  "zjb_read_job_dynamic_allocation jo w z jobdsn ddname =
     (let (w1, rc, s99error, s99info, dd) = jo_svc99 jo w
            \<lparr> sr_jobdsn = jobdsn, sr_token = (if token z \<noteq> replicate 80 0 then Some (token z) else None) \<rparr>
      in if rc \<noteq> 0 \<and> s99error \<noteq> 0
         then (w1, jb_reasons s99error s99info (jb_detail ZJB_RTNCD_SERVICE_FAILURE
                (jb_message (alloc_message jobdsn rc s99error s99info)
                  (jb_service_rc rc (jb_service ''svc99'' z)))), ddname, RTNCD_FAILURE)
         else (w1, z, takeWhile (\<lambda>c. c \<noteq> NUL) dd, rc))"

definition zjb_free_job_dynamic_allocation :: "'w jb_ops \<Rightarrow> 'w \<Rightarrow> zjb \<Rightarrow> string \<Rightarrow> 'w \<times> zjb \<times> int" where
  "zjb_free_job_dynamic_allocation jo w z ddname =
     (let (w1, rc) = jo_dynfree jo w ddname
      in if rc \<noteq> 0 \<and> e_msg_len (jb_diag z) = 0
         then (w1, jb_detail ZJB_RTNCD_SERVICE_FAILURE (jb_message (''dynfree failed with '' @ show_int rc)
                     (jb_service_rc rc (jb_service ''dynfree'' z))), RTNCD_FAILURE)
         else (w1, z, rc))"

definition zds_zero :: zds where
  "zds_zero = \<lparr> diag = zdiag_init, encoding_opts = \<lparr> codepage = [], source_codepage = [], data_type = eDataTypeText \<rparr>,
     z_ddname = replicate 8 NUL, etag = [], dynalloc = False \<rparr>"

text \<open>The diagnostic area of a data set operation replaces the one of the job; it has no reason codes.\<close>

definition take_diag :: "zds \<Rightarrow> zjb \<Rightarrow> zjb" where
  "take_diag zd z = z\<lparr> jb_diag := diag zd, service_rsn := 0, service_rsn_secondary := 0 \<rparr>"

text \<open>A name that parses is looked up among the outputs of its job, for the token and the ASA flag.\<close>

definition find_spool :: "'w jb_ops \<Rightarrow> 'w \<Rightarrow> zjb \<Rightarrow> string \<Rightarrow> 'w \<times> zjb \<times> string \<times> bool \<times> int" where
  "find_spool jo w z dsn =
     (case zjb_parse_dsn_for_key dsn of
        Inl _ \<Rightarrow> (w, z, [], False, 0)
      | Inr (parsed_jobid, _) \<Rightarrow>
          (let (w1, z1, dds, rc) = zjb_list_dds jo w z parsed_jobid
           in if rc \<noteq> 0 then (w1, z1, [], False, rc)
              else (case find (\<lambda>dd. zut_trim '' '' (dd_dsn dd) = zut_trim '' '' dsn) dds of
                      Some dd \<Rightarrow> (w1, z1\<lparr> token := dd_token dd \<rparr>, dd_dsn dd, dd_is_asa dd, 0)
                    | None \<Rightarrow> (w1, jb_message (''Spool read DSN not found in job '' @ quoted_name parsed_jobid)
                                 (jb_service_rc ZJB_RTNCD_JOB_DSN_NOT_FOUND (jb_service ''zjb_list_dds'' z1)), [], False, RTNCD_FAILURE))))"

definition zjb_read_job_content_by_dsn ::
    "'w jb_ops \<Rightarrow> 'c iconv_ops \<Rightarrow> 'w \<Rightarrow> zjb \<Rightarrow> string \<Rightarrow> ('w \<times> zjb \<times> byte list \<times> int) result" where
  "zjb_read_job_content_by_dsn jo ic w z dsn =
     (let (w1, z1, ddname, dd_is_asa, rc) = find_spool jo w (z\<lparr> token := replicate 80 0 \<rparr>) dsn
      in if rc \<noteq> 0 then Inr (w1, z1, [], rc)
         else let (w2, z2, dd, rc2) = zjb_read_job_dynamic_allocation jo w1 z1 dsn ddname
              in if rc2 \<noteq> 0 then Inr (w2, z2, [], rc2)
                 else bind_result (zds_read (jo_zds jo) ic w2 (Some (zds_zero\<lparr> encoding_opts := jb_encoding z2 \<rparr>))
                             \<lparr> o_ddname = dd, o_dsname = dsn, o_is_asa = dd_is_asa \<rparr>)
                        (\<lambda>(w3, zd, response, rc3).
                           let (w4, z4, newrc) = zjb_free_job_dynamic_allocation jo w3 (take_diag zd z2) dd
                           in Inr (w4, z4, response, if newrc \<noteq> 0 \<and> rc3 = 0 then newrc else rc3)))"

definition zjb_read_job_content_by_key ::
    "'w jb_ops \<Rightarrow> 'c iconv_ops \<Rightarrow> 'w \<Rightarrow> zjb \<Rightarrow> string \<Rightarrow> int \<Rightarrow> ('w \<times> zjb \<times> byte list \<times> int) result" where
  "zjb_read_job_content_by_key jo ic w z job_id key =
     (let (w1, z1, job_dsn, rc) = zjb_get_job_dsn_by_key jo w z job_id key
      in if rc \<noteq> 0 then Inr (w1, z1, [], rc) else zjb_read_job_content_by_dsn jo ic w1 z1 job_dsn)"

text \<open>\<open>std::getline\<close> with a delimiter: no empty part after the last delimiter.\<close>

fun getline_parts :: "string \<Rightarrow> string \<Rightarrow> string list" where
  "getline_parts part [] = (if part = [] then [] else [part])"
| "getline_parts part (c # cs) = (if c = CHR ''.'' then part # getline_parts [] cs else getline_parts (part @ [c]) cs)"

definition zjb_read_job_jcl ::
    "'w jb_ops \<Rightarrow> 'c iconv_ops \<Rightarrow> 'w \<Rightarrow> zjb \<Rightarrow> string \<Rightarrow> ('w \<times> zjb \<times> byte list \<times> int) result" where
  "zjb_read_job_jcl jo ic w z job_id =
     (let (w1, z1, dds, rc) = zjb_list_dds jo w z job_id
      in if rc \<noteq> 0 then Inr (w1, z1, [], rc)
         else (case getline_parts [] (dd_dsn (dds ! 0)) of
                 a # b # c # _ \<Rightarrow> zjb_read_job_content_by_dsn jo ic w1 z1 (a @ ''.'' @ b @ ''.'' @ c @ ''.JCL'')
               | _ \<Rightarrow> Inr (w1, jb_detail ZJB_RTNCD_UNEXPECTED_ERROR
                        (jb_message (''Unexpected data set name '' @ quoted_name (dd_dsn (dds ! 0)) @ '' for jobid '' @ job_id) z1),
                      [], RTNCD_FAILURE)))"

section \<open>Waiting\<close>

definition has_text :: "string \<Rightarrow> string \<Rightarrow> bool" where
  "has_text part s \<longleftrightarrow> list_ex (\<lambda>n. take (length part) (drop n s) = part) [0..<Suc (length s)]"

text \<open>A round of the loop: the world, the block, and the result when the loop ends.\<close>

definition wait_step :: "'w jb_ops \<Rightarrow> 'w \<Rightarrow> zjb \<Rightarrow> string \<Rightarrow> string \<Rightarrow> 'w \<times> zjb \<times> int option" where
  "wait_step jo w z job_id wanted =
     (let (w1, z1, job, rc) = zjb_view jo w z job_id; w2 = jo_sleep jo w1
      in case job of
           None \<Rightarrow> (w2, z1, Some RTNCD_FAILURE)
         | Some j \<Rightarrow>
             if wanted = ''ACTIVE'' \<and> has_text ''OUTPUT'' (j_status j) then (w2, z1, Some RTNCD_SUCCESS)
             else (w2, z1, if j_status j = wanted then Some RTNCD_SUCCESS else None))"

partial_function (option) wait_loop :: "'w jb_ops \<Rightarrow> 'w \<Rightarrow> zjb \<Rightarrow> string \<Rightarrow> string \<Rightarrow> ('w \<times> zjb \<times> int) option" where
  "wait_loop jo w z job_id wanted =
     (case wait_step jo w z job_id wanted of
        (w', z', Some rc) \<Rightarrow> Some (w', z', rc)
      | (w', z', None) \<Rightarrow> wait_loop jo w' z' job_id wanted)"

definition zjb_wait :: "'w jb_ops \<Rightarrow> 'w \<Rightarrow> zjb \<Rightarrow> string \<Rightarrow> ('w \<times> zjb \<times> int) option" where
  "zjb_wait jo w z wanted = wait_loop jo w z (jobid z) wanted"

section \<open>Modifying jobs\<close>

definition zjb_delete :: "'w jb_ops \<Rightarrow> 'w \<Rightarrow> zjb \<Rightarrow> string \<Rightarrow> 'w \<times> zjb \<times> int" where
  "zjb_delete jo w z job_id = ZJBMPRG (jo_ssi jo) w (set_job job_id z)"

definition zjb_cancel :: "'w jb_ops \<Rightarrow> 'w \<Rightarrow> zjb \<Rightarrow> string \<Rightarrow> 'w \<times> zjb \<times> int" where
  "zjb_cancel jo w z job_id = ZJBMCNL (jo_ssi jo) w (set_job job_id z) 0"

definition zjb_hold :: "'w jb_ops \<Rightarrow> 'w \<Rightarrow> zjb \<Rightarrow> string \<Rightarrow> 'w \<times> zjb \<times> int" where
  "zjb_hold jo w z job_id = ZJBMHLD (jo_ssi jo) w (set_job job_id z)"

definition zjb_release :: "'w jb_ops \<Rightarrow> 'w \<Rightarrow> zjb \<Rightarrow> string \<Rightarrow> 'w \<times> zjb \<times> int" where
  "zjb_release jo w z job_id = ZJBMRLS (jo_ssi jo) w (set_job job_id z)"

section \<open>Submitting\<close>

definition service_failure :: "string \<Rightarrow> int \<Rightarrow> zjb \<Rightarrow> zjb" where
  "service_failure service rc z =
     jb_detail ZJB_RTNCD_SERVICE_FAILURE (jb_message (service @ '' failed with '' @ show_int rc) (jb_service_rc rc (jb_service service z)))"

text \<open>A value in a buffer of zeros.\<close>

definition zero_filled :: "nat \<Rightarrow> string \<Rightarrow> string" where
  "zero_filled n value = take n (value @ replicate n NUL)"

text \<open>After the contents have been written: the identifier and the correlator of the job, and the end of the reader.\<close>

definition job_of_reader :: "'w jb_ops \<Rightarrow> 'w \<Rightarrow> zjb \<Rightarrow> string \<Rightarrow> 'w \<times> zjb \<times> string \<times> int" where
  "job_of_reader jo w z ddname =
     (let (w3, z3, value, rc3) = ZJBSYMB (jo_ssi jo) w z ''SYS_LASTJOBID'' 9
      in if rc3 \<noteq> 0 then (fst (jo_dynfree jo w3 ddname), z3, [], rc3)
         else let new_id = takeWhile (\<lambda>c. c \<noteq> NUL) value
              in if new_id = []
                 then (fst (jo_dynfree jo w3 ddname),
                       jb_detail ZJB_RTNCD_SUBMIT_ERROR (jb_message ''job submission failed'' (jb_service ''intrdr'' z3)),
                       new_id, RTNCD_FAILURE)
                 else let (w4, z4, corr, rc4) = ZJBSYMB (jo_ssi jo) w3 z3 ''SYS_CORR_LASTJOB'' 65
                      in if rc4 \<noteq> 0 then (fst (jo_dynfree jo w4 ddname), z4, new_id, rc4)
                         else let z5 = z4\<lparr> correlator := zero_filled 64 corr \<rparr>;
                                  (w5, rc5) = jo_dynfree jo w4 ddname
                              in if rc5 \<noteq> 0 then (w5, service_failure ''dynfree'' rc5 z5, new_id, RTNCD_FAILURE)
                                 else (w5, z5, new_id, RTNCD_SUCCESS))"

text \<open>The result: the identifier of the job. The internal reader is freed on every path but an exception.\<close>

definition zjb_submit ::
    "'w jb_ops \<Rightarrow> 'c iconv_ops \<Rightarrow> 'w \<Rightarrow> zjb \<Rightarrow> byte list \<Rightarrow> ('w \<times> zjb \<times> string \<times> int) result" where
  "zjb_submit jo ic w z contents =
     (if jo_dyninit jo \<noteq> 0 then Inr (w, service_failure ''dyninit'' (jo_dyninit jo) z, [], RTNCD_FAILURE)
      else let (w1, rc, ddname) = jo_dynalloc_intrdr jo w
           in if rc \<noteq> 0 then Inr (w1, service_failure ''dynalloc'' rc z, [], RTNCD_FAILURE)
              else bind_result (zds_write (jo_zds jo) ic w1 (Some zds_zero) \<lparr> o_ddname = ddname, o_dsname = [], o_is_asa = False \<rparr> contents)
                (\<lambda>(w2, zd, rc2). Inr (if rc2 \<noteq> 0 then (fst (jo_dynfree jo w2 ddname), take_diag zd z, [], rc2)
                                      else job_of_reader jo w2 z ddname)))"

definition zjb_submit_dsn ::
    "'w jb_ops \<Rightarrow> 'c iconv_ops \<Rightarrow> 'w \<Rightarrow> zjb \<Rightarrow> string \<Rightarrow> ('w \<times> zjb \<times> string \<times> int) result" where
  "zjb_submit_dsn jo ic w z dsn =
     bind_result (zds_read (jo_zds jo) ic w (Some zds_zero) \<lparr> o_ddname = [], o_dsname = dsn, o_is_asa = False \<rparr>)
       (\<lambda>(w1, zd, contents, rc).
          if rc \<noteq> 0 then Inr (w1, take_diag zd z, [], rc) else zjb_submit jo ic w1 z contents)"

end
