(* ===== verification/Zjb_Props.thy ===== *)
theory Zjb_Props
  imports Zjb Zds_Write_Props "HOL-Library.Multiset"
begin

text \<open>
  Which jobs a listing contains and what its return code says about the others, the storage that listings
  release, the shown completion of a job, the names of spool data sets, waiting, and submitting.
\<close>

unbundle bit_operations_syntax

section \<open>Requests\<close>

text \<open>No product with the JES3 flag is recognized: the test compares first and masks then.\<close>

lemma get_ssibssnm_ok [simp]: "get_ssibssnm j = Inr (jespjesn j)"
  by (simp add: get_ssibssnm_def jes3actv_def of_bool_def)

lemma init_ssib_ok [simp]: "init_ssib j = 0"
  by (simp add: init_ssib_def RTNCD_SUCCESS_def)

lemma jb_fields [simp]:
  "jobs_max (jb_service s z) = jobs_max z" "buffer_size (jb_service s z) = buffer_size z"
  "jobs_max (jb_detail n z) = jobs_max z" "buffer_size (jb_detail n z) = buffer_size z"
  "jobs_max (jb_service_rc n z) = jobs_max z" "buffer_size (jb_service_rc n z) = buffer_size z"
  "jobs_max (jb_reasons r q z) = jobs_max z" "buffer_size (jb_reasons r q z) = buffer_size z"
  "jobs_max (jb_message m z) = jobs_max z" "buffer_size (jb_message m z) = buffer_size z"
  by (simp_all add: jb_service_def jb_detail_def jb_service_rc_def jb_reasons_def jb_message_def)

lemma recovery_fields [simp]:
  "jobs_max (zjb_recovery_diag s rc rsn z) = jobs_max z" "buffer_size (zjb_recovery_diag s rc rsn z) = buffer_size z"
  by (simp_all add: zjb_recovery_diag_def)

lemma pad_truncate_no_NUL:
  assumes "s = [] \<or> s ! 0 \<noteq> NUL" and "toupper (s ! 0) = NUL \<longrightarrow> s ! 0 = NUL" and "0 < n"
  shows "zut_uppercase_pad_truncate s n ! 0 \<noteq> NUL"
proof (cases s)
  case Nil
  then show ?thesis using assms(3) by (cases n) (simp_all add: zut_uppercase_pad_truncate_def)
next
  case (Cons c cs)
  then have "toupper c \<noteq> NUL" using assms by auto
  then show ?thesis using Cons assms(3) by (cases n) (simp_all add: zut_uppercase_pad_truncate_def Let_def)
qed

section \<open>The jobs of a list\<close>

definition lookups_succeed :: "'w ssi \<Rightarrow> bool" where
  "lookups_succeed si \<longleftrightarrow> (\<forall>w tr. fst (snd (si_tlkup si w tr)) = 0)"

definition room :: "int \<Rightarrow> int \<Rightarrow> nat" where
  "room bytes entry = nat (bytes div entry)"

lemma room_step:
  assumes "0 < e"
  shows "room b e = (if e \<le> b then Suc (room (b - e) e) else 0)"
proof (cases "e \<le> b")
  case True
  have "b div e = (b - e) div e + 1" using div_add_self2 [of e "b - e"] assms by simp
  moreover have "0 \<le> (b - e) div e" using True assms by (simp add: pos_imp_zdiv_nonneg_iff)
  ultimately show ?thesis using True by (simp add: room_def nat_add_distrib)
next
  case False
  have "b div e \<le> 0" using False assms by (cases "0 \<le> b") (simp_all add: div_neg_pos_less0 less_imp_le)
  then show ?thesis using False by (simp add: room_def)
qed

lemma copy_jobs_spec:
  assumes "lookups_succeed si"
  shows "\<exists>w' z' infos' t'. copy_jobs si w z qs l t infos =
      (w', z', infos @ infos', t', if int (length qs) \<le> jobs_max z - l then Jobs_all else if qs = [] then Jobs_all else Jobs_max) \<and>
    map info_statjqtr infos' =
      map stjq_terse (take (min (nat (jobs_max z - l)) (room (buffer_size z - t) sizeof_ZJB_JOB_INFO)) qs) \<and>
    jobs_max z' = jobs_max z \<and> buffer_size z' = buffer_size z"
proof (induction qs arbitrary: w z l t infos)
  case (Cons q qs)
  let ?e = sizeof_ZJB_JOB_INFO
  have e: "0 < ?e" by (simp add: sizeof_ZJB_JOB_INFO_def)
  show ?case
  proof (cases "jobs_max z \<le> l")
    case False
    then have n: "nat (jobs_max z - l) = Suc (nat (jobs_max z - (l + 1)))" by simp
    obtain w1 rc retcd phase where look: "si_tlkup si w (stjq_terse q) = (w1, rc, retcd, phase)" by (metis prod_cases4)
    then have rc: "rc = 0" using assms unfolding lookups_succeed_def by (metis fst_conv snd_conv)
    show ?thesis
    proof (cases "t + ?e \<le> buffer_size z")
      case True
      then have "room (buffer_size z - t) ?e = Suc (room (buffer_size z - (t + ?e)) ?e)"
        using room_step [OF e, of "buffer_size z - t"] by (simp add: algebra_simps)
      then show ?thesis
        using Cons.IH [of w1 "jb_detail retcd z" "l + 1" "t + ?e"
            "infos @ [\<lparr> info_statjqtr = stjq_terse q, phase_text = take 64 phase, subsystem = takeWhile (\<lambda>c. c \<noteq> NUL) (take 4 (stjqoss q)) \<rparr>]"]
          False True n rc look
        by (auto simp: iaztlkup_def)
    next
      case full: False
      then have "room (buffer_size z - t) ?e = 0" "room (buffer_size z - (t + ?e)) ?e = 0"
        using room_step [OF e, of "buffer_size z - t"] room_step [OF e, of "buffer_size z - (t + ?e)"] e by auto
      then show ?thesis
        using Cons.IH [of w "jb_detail ZJB_RTNCD_INSUFFICIENT_BUFFER z" "l + 1" "t + ?e" infos] False full n by auto
    qed
  qed simp
qed simp


text \<open>The code that a listing request returns.\<close>

lemma status_release_fields:
  assumes "status_release si w z st = (w', z', rc)"
  shows "jobs_max z' = jobs_max z \<and> buffer_size z' = buffer_size z"
  using assms
  by (auto simp: status_release_def status_request_def ssi_rc_def Let_def split: prod.splits ssi_end.splits)

lemma ZJBMTCOM_list:
  assumes "lookups_succeed si" and "si_status si w st = (w1, Ssi_return 0, st1, 0)"
    and "ZJBMTCOM si w z st = (w', z', addr, infos, rc)" and "0 \<le> jobs_max z"
  shows "map info_statjqtr infos =
      map stjq_terse (take (min (nat (jobs_max z)) (room (buffer_size z) sizeof_ZJB_JOB_INFO)) (statjobf st1)) \<and>
    (jobs_max z < int (length (statjobf st1)) \<longrightarrow>
      (\<exists>v y st2 rc'. status_release si v y st2 = (w', z', rc') \<and> rc = (if rc' = RTNCD_FAILURE then rc' else RTNCD_WARNING))) \<and>
    (int (length (statjobf st1)) \<le> jobs_max z \<longrightarrow>
      (\<exists>v y st2. status_release si v y st2 = (w', z', rc)))"
proof -
  obtain w2 a where a: "si_get64 si w1 (buffer_size z) = (w2, a)" by fastforce
  obtain w3 z3 infos3 t3 where c: "copy_jobs si w2 z (statjobf st1) 0 0 [] =
      (w3, z3, infos3, t3, if int (length (statjobf st1)) \<le> jobs_max z then Jobs_all
         else if statjobf st1 = [] then Jobs_all else Jobs_max)"
    and i: "map info_statjqtr infos3 =
      map stjq_terse (take (min (nat (jobs_max z)) (room (buffer_size z) sizeof_ZJB_JOB_INFO)) (statjobf st1))"
    and m: "jobs_max z3 = jobs_max z"
    using copy_jobs_spec [OF assms(1), of w2 z "statjobf st1" 0 0 "[]"] by auto
  have req: "status_request si w z st = (w1, z, st1, 0, 0)"
    by (simp add: status_request_def ssi_rc_def assms(2))
  show ?thesis
  proof (cases "int (length (statjobf st1)) \<le> jobs_max z")
    case True
    then show ?thesis using assms(3) c i m
      by (auto simp: ZJBMTCOM_def req a Let_def split: prod.splits)
  next
    case False
    then have "statjobf st1 \<noteq> []" using assms(4) by auto
    then have e: "copy_jobs si w2 z (statjobf st1) 0 0 [] = (w3, z3, infos3, t3, Jobs_max)" using False c by simp
    define msg where "msg = jb_message (''Reached maximum returned jobs requested '' @ show_int (jobs_max z3))
      (jb_detail ZJB_RSNCD_MAX_JOBS_REACHED z3)"
    obtain w4 z4 rc' where r: "status_release si w3 msg st1 = (w4, z4, rc')" by (metis prod_cases3)
    have "ZJBMTCOM si w z st = (w4, z4, Some a, infos3, if rc' = RTNCD_FAILURE then rc' else RTNCD_WARNING)"
      using r unfolding msg_def ZJBMTCOM_def by (simp add: req a e)
    then show ?thesis using assms(3) i r False by auto
  qed
qed

definition status_answers :: "'w ssi \<Rightarrow> 'w \<Rightarrow> stat \<Rightarrow> statjq list \<Rightarrow> bool" where
  "status_answers si w st qs \<longleftrightarrow> (\<exists>w1 st1. si_status si w st = (w1, Ssi_return 0, st1, 0) \<and> statjobf st1 = qs)"

definition releases_succeed :: "'w ssi \<Rightarrow> bool" where
  "releases_succeed si \<longleftrightarrow> (\<forall>w st. stattype st = statmem \<longrightarrow> fst (snd (si_status si w st)) = Ssi_return 0)"

lemma release_zero:
  assumes "releases_succeed si" and "status_release si w z st = (w', z', rc)"
  shows "rc = 0"
proof -
  obtain w1 a s r where a: "si_status si w (st\<lparr> stattype := statmem \<rparr>) = (w1, a, s, r)" by (metis prod_cases4)
  then have "a = Ssi_return 0"
    using assms(1) [unfolded releases_succeed_def, rule_format, of "st\<lparr> stattype := statmem \<rparr>" w] by simp
  then show ?thesis using assms(2) a by (simp add: status_release_def status_request_def ssi_rc_def)
qed

lemma job_response_jobid: "map j_jobid (zjb_build_job_response infos) = map (sttrjid \<circ> info_statjqtr) infos"
  by (simp add: zjb_build_job_response_def job_response_def Let_def case_prod_beta)

text \<open>C21. A listing shows the first jobs of the answer: at most the requested number, and at most 418, the number that fits
  in the default buffer; the warning is given only when the requested number is exceeded.\<close>

theorem listing_cut:
  assumes "zjb_list_by_owner jo w z owner job_prefix status = (w', z', jobs, rc)"
    and "\<And>st. stattype st = statters \<Longrightarrow> status_answers (jo_ssi jo) w st qs"
    and "lookups_succeed (jo_ssi jo)" and "releases_succeed (jo_ssi jo)"
    and "buffer_size z = 0" and "0 < jobs_max z"
  shows "map j_jobid jobs = map (sttrjid \<circ> stjq_terse) (take (min (nat (jobs_max z)) 418) qs) \<and>
    rc = (if jobs_max z < int (length qs) then RTNCD_WARNING else RTNCD_SUCCESS)"
proof -
  define resolved where "resolved = (if owner = [] then zut_get_current_user (jo_getuserid jo) owner else owner)"
  define z1 where "z1 = (job_defaults z)\<lparr> owner_name := zut_uppercase_pad_truncate resolved 8,
      prefix_name := zut_uppercase_pad_truncate job_prefix 8, status_name := zut_uppercase_pad_truncate status 8 \<rparr>"
  have z1: "buffer_size z1 = 128000" "jobs_max z1 = jobs_max z"
    using assms(5,6) by (simp_all add: z1_def job_defaults_def Let_def ZJB_DEFAULT_BUFFER_SIZE_def)
  have "stattype (list_request z1) = statters" by (simp add: list_request_def Let_def)
  then obtain w1 st1 where st: "si_status (jo_ssi jo) w (list_request z1) = (w1, Ssi_return 0, st1, 0)" "statjobf st1 = qs"
    using assms(2) unfolding status_answers_def by blast
  obtain w2 z2 addr infos rc2 where com: "ZJBMTCOM (jo_ssi jo) w z1 (list_request z1) = (w2, z2, addr, infos, rc2)"
    using prod_cases5 by blast
  have room: "room 128000 sizeof_ZJB_JOB_INFO = 418" by (simp add: room_def sizeof_ZJB_JOB_INFO_def)
  note list = ZJBMTCOM_list [OF assms(3) st(1) com, unfolded z1 st(2) room]
  have rc2: "rc2 = (if jobs_max z < int (length qs) then RTNCD_WARNING else RTNCD_SUCCESS)"
  proof (cases "jobs_max z < int (length qs)")
    case True
    then obtain v y st2 rc' where "status_release (jo_ssi jo) v y st2 = (w2, z2, rc')"
      "rc2 = (if rc' = RTNCD_FAILURE then rc' else RTNCD_WARNING)"
      using list assms(6) by auto
    then show ?thesis using release_zero [OF assms(4), of v y st2 w2 z2 rc'] True by (auto simp: rtncd_defs)
  next
    case False
    then obtain v y st2 where "status_release (jo_ssi jo) v y st2 = (w2, z2, rc2)" using list assms(6) by auto
    then show ?thesis using release_zero [OF assms(4), of v y st2 w2 z2 rc2] False by (auto simp: rtncd_defs)
  qed
  then have "rc2 = RTNCD_SUCCESS \<or> rc2 = RTNCD_WARNING" by simp
  then have "jobs = zjb_build_job_response infos" "rc = rc2"
    using assms(1) com unfolding zjb_list_by_owner_def ZJBMLIST_def z1_def resolved_def Let_def by auto
  then show ?thesis
    using rc2 list assms(6) job_response_jobid [of infos] by (metis (no_types, lifting) less_le map_map)
qed


section \<open>Storage\<close>

text \<open>The blocks of storage that are in use: allocation adds one, a release removes one, and the services do not
  touch them.\<close>

locale job_storage =
  fixes si :: "'w ssi" and live :: "'w \<Rightarrow> int multiset"
  assumes get64: "si_get64 si w n = (w', a) \<Longrightarrow> live w' = add_mset a (live w)"
    and free64: "live (si_free64 si w a) = live w - {#a#}"
    and status: "live (fst (si_status si w st)) = live w"
    and lookup: "live (fst (si_tlkup si w tr)) = live w"
begin

lemma request_live: "status_request si w z st = (w', z', st', retn, rc) \<Longrightarrow> live w' = live w"
  using status [of w st] by (auto simp: status_request_def Let_def split: prod.splits)

lemma release_live: "status_release si w z st = (w', z', rc) \<Longrightarrow> live w' = live w"
  using request_live by (auto simp: status_release_def split: prod.splits)

lemma copy_jobs_live: "copy_jobs si w z qs l t infos = (w', z', infos', t', e) \<Longrightarrow> live w' = live w"
proof (induction qs arbitrary: w z l t infos)
  case (Cons q qs)
  obtain w1 z1 phase rc where look: "iaztlkup si w z (stjq_terse q) = (w1, z1, phase, rc)" by (metis prod_cases4)
  then have "live w1 = live w" using lookup [of w "stjq_terse q"] by (auto simp: iaztlkup_def split: prod.splits)
  then show ?case using Cons.IH [of w1] Cons.IH [of w] Cons.prems look by (auto simp: Let_def split: if_splits)
qed simp

lemma ZJBMTCOM_live:
  assumes "ZJBMTCOM si w z st = (w', z', addr, infos, rc)" and "rc = RTNCD_SUCCESS \<or> rc = RTNCD_WARNING"
  shows "\<exists>a. addr = Some a \<and> live w' = add_mset a (live w)"
proof -
  obtain w1 z1 st1 retn rc1 where req: "status_request si w z st = (w1, z1, st1, retn, rc1)" by (metis prod_cases5)
  show ?thesis
  proof (cases "rc1 \<noteq> 0 \<or> retn \<noteq> 0")
    case True
    then show ?thesis using assms req by (auto simp: ZJBMTCOM_def rtncd_defs)
  next
    case False
    obtain w2 a where a: "si_get64 si w1 (buffer_size z1) = (w2, a)" by fastforce
    obtain w3 z3 infos3 t3 e where c: "copy_jobs si w2 z1 (statjobf st1) 0 0 [] = (w3, z3, infos3, t3, e)" by (metis prod_cases5)
    have live: "live w3 = add_mset a (live w)"
      using request_live [OF req] get64 [OF a] copy_jobs_live [OF c] by simp
    show ?thesis
    proof (cases e)
      case Jobs_all
      obtain w4 z4 rc4 where r: "status_release si w3 (z3\<lparr> buffer_size_needed := t3 \<rparr>) st1 = (w4, z4, rc4)" by (metis prod_cases3)
      then show ?thesis using assms(1) req False a c Jobs_all live release_live [OF r] by (simp add: ZJBMTCOM_def)
    next
      case Jobs_max
      define msg where "msg = jb_message (''Reached maximum returned jobs requested '' @ show_int (jobs_max z3))
        (jb_detail ZJB_RSNCD_MAX_JOBS_REACHED z3)"
      obtain w4 z4 rc4 where r: "status_release si w3 msg st1 = (w4, z4, rc4)" by (metis prod_cases3)
      then show ?thesis using assms(1) req False a c Jobs_max live release_live [OF r] by (simp add: ZJBMTCOM_def msg_def)
    next
      case Jobs_lookup_failed
      then show ?thesis using assms req False a c by (simp add: ZJBMTCOM_def rtncd_defs)
    qed
  qed
qed

lemma ZJBMGJQ_live: "ZJBMGJQ si w z st = (w', z', st', qs, rc) \<Longrightarrow> live w' = live w"
  using request_live status by (auto simp: ZJBMGJQ_def plain_release_def Let_def split: prod.splits if_splits)

lemma ZJBMLSDS_live:
  assumes "ZJBMLSDS si w z = (w', z', addr, copied, rc)" and "rc = RTNCD_SUCCESS \<or> rc = RTNCD_WARNING"
  shows "\<exists>a. addr = Some a \<and> live w' = add_mset a (live w)"
proof -
  have rc: "rc \<noteq> RTNCD_FAILURE" using assms(2) by (auto simp: rtncd_defs)
  note def = assms(1) [unfolded ZJBMLSDS_def init_ssib_ok, simplified]
  obtain w1 z1 st1 jobs rc1 where q: "ZJBMGJQ si w z (select_status z (init_stat\<lparr> stattype := statters \<rparr>)) = (w1, z1, st1, jobs, rc1)"
    by (metis prod_cases5)
  have rc1: "rc1 = 0"
    using q assms(2) def by (auto simp: ZJBMGJQ_def Let_def rtncd_defs split: prod.splits if_splits)
  have jobs: "jobs \<noteq> []" using def q rc1 rc by (auto split: prod.splits)
  obtain w2 z2 st2 retn rc2 where
    v: "status_request si w1 z1 (st1\<lparr> statsel1 := 0, statsel5 := 0, stattrsa := jobs, stattype := statoutv \<rparr>) = (w2, z2, st2, retn, rc2)"
    by (metis prod_cases5)
  have ok: "rc2 = 0" "retn = 0" using def q rc1 jobs v rc by (auto split: if_splits)
  define found where "found = (if statjobf st2 = [] then stattrsa st2 else statjobf st2)"
  have found: "found \<noteq> []" using def q rc1 jobs v ok rc by (auto simp: found_def split: prod.splits if_splits)
  obtain w3 a where a: "si_get64 si w2 (buffer_size z2) = (w3, a)" by fastforce
  obtain z3 copied3 l3 t3 ended where c: "copy_all_outputs z2 found 0 0 [] = (z3, copied3, l3, t3, ended)" by (metis prod_cases5)
  have live3: "live w3 = add_mset a (live w)" using ZJBMGJQ_live [OF q] request_live [OF v] get64 [OF a] by simp
  define y where "y = (if ended then z3\<lparr> buffer_size_needed := t3 \<rparr> else z3)"
  obtain w4 z4 rc4 where r: "status_release si w3 y st2 = (w4, z4, rc4)" by (metis prod_cases3)
  have "w' = w4 \<and> addr = Some a"
    using def q rc1 jobs v ok found a c r unfolding y_def by (cases ended) (simp_all add: found_def [symmetric] Let_def)
  then show ?thesis using release_live [OF r] live3 by simp
qed

lemma free64_live: "live (Zjb.free64 si w (Some a)) = live w - {#a#}"
  by (simp add: Zjb.free64_def free64)

lemma view_live:
  assumes "jo_ssi jo = si" and "zjb_view jo w z job_id = (w', z', Some job, rc)"
  shows "live w' = live w"
proof -
  obtain w1 z1 addr infos rc1 where v: "ZJBMVIEW si w (set_job job_id (job_defaults z)) = (w1, z1, addr, infos, rc1)"
    using prod_cases5 by blast
  then have "rc1 = 0" using assms by (auto simp: zjb_view_def split: if_splits)
  then obtain a where "addr = Some a" "live w1 = add_mset a (live w)"
    using ZJBMTCOM_live [OF v [unfolded ZJBMVIEW_def]] by (auto simp: rtncd_defs)
  then show ?thesis using assms v \<open>rc1 = 0\<close> free64_live by (auto simp: zjb_view_def split: list.splits)
qed

lemma listing_live:
  assumes "jo_ssi jo = si" and "zjb_list_by_owner jo w z owner job_prefix status = (w', z', jobs, rc)"
    and "rc = RTNCD_SUCCESS \<or> rc = RTNCD_WARNING"
  shows "live w' = live w"
proof -
  define z1 where "z1 = (job_defaults z)\<lparr> owner_name := zut_uppercase_pad_truncate
      (if owner = [] then zut_get_current_user (jo_getuserid jo) owner else owner) 8,
      prefix_name := zut_uppercase_pad_truncate job_prefix 8, status_name := zut_uppercase_pad_truncate status 8 \<rparr>"
  obtain w1 z2 addr infos rc1 where v: "ZJBMTCOM si w z1 (list_request z1) = (w1, z2, addr, infos, rc1)"
    using prod_cases5 by blast
  have out: "w' = free64 si w1 addr" "rc1 = rc"
    using assms v unfolding zjb_list_by_owner_def ZJBMLIST_def z1_def Let_def by (auto split: if_splits)
  then obtain a where "addr = Some a" "live w1 = add_mset a (live w)" using ZJBMTCOM_live [OF v] assms(3) by auto
  then show ?thesis using out free64_live by simp
qed

lemma list_dds_live:
  assumes "jo_ssi jo = si" and "zjb_list_dds jo w z job_id = (w', z', dds, rc)" and "dds \<noteq> []"
  shows "live w' = live w"
proof -
  obtain w1 z1 addr outputs rc1 where v: "ZJBMLSDS si w (set_job job_id (dds_defaults z)) = (w1, z1, addr, outputs, rc1)"
    using prod_cases5 by blast
  have rc1: "rc1 = RTNCD_SUCCESS \<or> rc1 = RTNCD_WARNING" using assms v by (auto simp: zjb_list_dds_def split: if_splits)
  then obtain a where a: "addr = Some a" "live w1 = add_mset a (live w)" using ZJBMLSDS_live [OF v] by blast
  obtain w2 z2 job view_rc where view: "zjb_view jo w1 z1 job_id = (w2, z2, job, view_rc)" by (metis prod_cases4)
  show ?thesis
  proof (cases "outputs = []")
    case True
    have "job \<noteq> None" using assms v rc1 view True by (cases job) (auto simp: zjb_list_dds_def Let_def)
    then obtain j where "job = Some j" by blast
    then have "live w2 = live w1" using view_live [OF assms(1)] view by blast
    then show ?thesis using assms v rc1 view True a \<open>job = Some j\<close> free64_live by (auto simp: zjb_list_dds_def Let_def)
  next
    case False
    then show ?thesis using assms v rc1 a free64_live by (auto simp: zjb_list_dds_def)
  qed
qed

end

section \<open>A subsystem\<close>

text \<open>The jobs and the blocks of storage in use. Status requests answer with all jobs; the texts of the phases are
  looked up by number, and unknown phases are an error.\<close>

record jes =
  js_jobs :: "statjq list"
  js_live :: "int list"

definition phase_name :: "byte \<Rightarrow> string option" where
  "phase_name p = (if p = 2 then Some ''AWAIT MAIN SELECT'' else if p = 14 then Some ''EXECUTING''
     else if p = 20 then Some ''AWAITING OUTPUT'' else None)"

definition sample_ssi :: "jes ssi" where
  "sample_ssi = \<lparr> si_jesct = \<lparr> jespjesn = ''JES2'', jesjesfg = 0x80 \<rparr>,
     si_status = (\<lambda>w st. (w, Ssi_return 0, if stattype st = statmem then st else st\<lparr> statjobf := js_jobs w \<rparr>, 0)),
     si_modify = (\<lambda>w s. (w, Ssi_return 0, s\<lparr> ssjmnsjf := int (length (filter (\<lambda>q. sttrjid (stjq_terse q) = ssjmjbil s) (js_jobs w))) \<rparr>, 0)),
     si_proclibs = (\<lambda>w f. (w, Ssi_return 0, 0, 0, [replicate 101 ''SYS1.PROCLIB''])),
     si_tlkup = (\<lambda>w tr. case phase_name (sttrphaz tr) of Some p \<Rightarrow> (w, 0, 0, p) | None \<Rightarrow> (w, 8, 4, [])),
     si_symbl = (\<lambda>w n. (w, 0, 0, 0, ''JOB00001'')),
     si_get64 = (\<lambda>w n. let a = 4096 * (1 + int (length (js_live w))) in (w\<lparr> js_live := a # js_live w \<rparr>, a)),
     si_free64 = (\<lambda>w a. w\<lparr> js_live := remove1 a (js_live w) \<rparr>) \<rparr>"

definition sample_jobs_ops :: "jes zds_ops \<Rightarrow> jes ssi \<Rightarrow> jes jb_ops" where
  "sample_jobs_ops zds si = \<lparr> jo_ssi = si, jo_zds = zds, jo_getuserid = (0, ''IBMUSER''), jo_svc99 = (\<lambda>w r. (w, 0, 0, 0, ''SYS00001'')),
     jo_dyninit = 0, jo_dynalloc_intrdr = (\<lambda>w. (w, 0, ''SYS00002'')), jo_dynfree = (\<lambda>w d. (w, 0)), jo_sleep = (\<lambda>w. w) \<rparr>"

definition live_blocks :: "jes \<Rightarrow> int multiset" where
  "live_blocks w = mset (js_live w)"

interpretation sample_storage: job_storage sample_ssi live_blocks
proof
  fix w w' :: jes and n a :: int
  assume "si_get64 sample_ssi w n = (w', a)"
  then show "live_blocks w' = add_mset a (live_blocks w)" by (auto simp: sample_ssi_def live_blocks_def Let_def)
qed (auto simp: sample_ssi_def live_blocks_def split: option.splits)

definition sample_job :: "string \<Rightarrow> byte \<Rightarrow> statjq" where
  "sample_job job_id phase = \<lparr> stjqoss = ''JES2'',
     stjq_terse = \<lparr> sttrname = ''PAYROLL '', sttrjid = job_id, sttrclas = ''A       '', sttrouid = ''IBMUSER '', sttrphaz = phase,
       sttrjtyp = 3, sttrxind = 0x80, sttrmxcc = [0x0C, 0x40, 0x00], sttrjcor = replicate 64 SPACE \<rparr>,
     stjqsvrb = [] \<rparr>"

text \<open>The witness: 500 jobs, none of the lookups fails, and 1000 jobs asked for.\<close>

definition busy_ssi :: "jes ssi" where
  "busy_ssi = sample_ssi\<lparr> si_tlkup := \<lambda>w tr. (w, 0, 0, ''EXECUTING'') \<rparr>"

definition busy_jes :: jes where
  "busy_jes = \<lparr> js_jobs = replicate 500 (sample_job ''JOB00001'' 14), js_live = [] \<rparr>"

theorem listing_cut_witness:
  "\<forall>zds. \<exists>w' z' jobs. zjb_list_by_owner (sample_jobs_ops zds busy_ssi) busy_jes (zjb_init\<lparr> jobs_max := 1000 \<rparr>) ''IBMUSER'' ''*'' []
      = (w', z', jobs, RTNCD_SUCCESS) \<and> map j_jobid jobs = replicate 418 ''JOB00001''"
proof
  fix zds
  let ?jo = "sample_jobs_ops zds busy_ssi" let ?z = "zjb_init\<lparr> jobs_max := 1000 \<rparr>"
  obtain w' z' jobs rc where list: "zjb_list_by_owner ?jo busy_jes ?z ''IBMUSER'' ''*'' [] = (w', z', jobs, rc)"
    by (metis prod_cases4)
  have "map j_jobid jobs = map (sttrjid \<circ> stjq_terse) (take (min (nat (jobs_max ?z)) 418) (js_jobs busy_jes)) \<and>
      rc = (if jobs_max ?z < int (length (js_jobs busy_jes)) then RTNCD_WARNING else RTNCD_SUCCESS)"
    by (rule listing_cut [OF list])
       (auto simp: status_answers_def busy_ssi_def sample_ssi_def sample_jobs_ops_def lookups_succeed_def releases_succeed_def
          zjb_init_def statters_def statmem_def)
  moreover have "map (sttrjid \<circ> stjq_terse) (take (min (nat (jobs_max ?z)) 418) (js_jobs busy_jes)) = replicate 418 ''JOB00001''"
    by (simp add: zjb_init_def sample_job_def busy_jes_def)
  moreover have "(if jobs_max ?z < int (length (js_jobs busy_jes)) then RTNCD_WARNING else RTNCD_SUCCESS) = RTNCD_SUCCESS"
    by (simp add: zjb_init_def busy_jes_def)
  ultimately show "\<exists>w' z' jobs. zjb_list_by_owner ?jo busy_jes ?z ''IBMUSER'' ''*'' [] = (w', z', jobs, RTNCD_SUCCESS) \<and>
      map j_jobid jobs = replicate 418 ''JOB00001''"
    using list by metis
qed

text \<open>C22. Listing and viewing jobs and listing their output release the storage they obtain, for every answer of the
  services, when they return a result.\<close>

theorem job_storage_released:
  assumes "job_storage (jo_ssi jo) live"
  shows "(zjb_view jo w z job_id = (w', z', Some job, rc) \<longrightarrow> live w' = live w) \<and>
    (zjb_list_by_owner jo w z owner job_prefix status = (w', z', jobs, rc) \<and> (rc = RTNCD_SUCCESS \<or> rc = RTNCD_WARNING)
      \<longrightarrow> live w' = live w) \<and>
    (zjb_list_dds jo w z job_id = (w', z', dds, rc) \<and> dds \<noteq> [] \<longrightarrow> live w' = live w)"
proof (intro conjI impI)
  show "live w' = live w" if "zjb_view jo w z job_id = (w', z', Some job, rc)"
    by (rule job_storage.view_live [OF assms refl that])
  show "live w' = live w" if "zjb_list_by_owner jo w z owner job_prefix status = (w', z', jobs, rc) \<and> (rc = RTNCD_SUCCESS \<or> rc = RTNCD_WARNING)"
    using job_storage.listing_live [OF assms refl] that by blast
  show "live w' = live w" if "zjb_list_dds jo w z job_id = (w', z', dds, rc) \<and> dds \<noteq> []"
    using job_storage.list_dds_live [OF assms refl] that by blast
qed

text \<open>When a lookup fails after the first job, the address that is released is not the one of the block.\<close>

lemma failed_lookup_keeps_storage:
  "live_blocks (fst (ZJBMVIEW sample_ssi \<lparr> js_jobs = [sample_job ''JOB00001'' 14, sample_job ''JOB00002'' 99], js_live = [] \<rparr>
     (job_defaults zjb_init))) = {#4096#}"
  by code_simp

theorem job_storage_released_witness:
  "\<forall>zds. \<exists>w' z' job rc. zjb_view (sample_jobs_ops zds sample_ssi) \<lparr> js_jobs = [sample_job ''JOB00001'' 14], js_live = [7] \<rparr> zjb_init
     ''JOB00001'' = (w', z', Some job, rc) \<and> j_status job = ''ACTIVE'' \<and> live_blocks w' = {#7#}"
proof
  fix zds
  let ?w = "\<lparr> js_jobs = [sample_job ''JOB00001'' 14], js_live = [7] \<rparr>"
  have job: "map_option j_status (fst (snd (snd (zjb_view (sample_jobs_ops zds sample_ssi) ?w zjb_init ''JOB00001'')))) = Some ''ACTIVE''"
    by code_simp
  obtain w' z' j rc where v: "zjb_view (sample_jobs_ops zds sample_ssi) ?w zjb_init ''JOB00001'' = (w', z', j, rc)" by (metis prod_cases4)
  then obtain job' where "j = Some job'" "j_status job' = ''ACTIVE''" using job by auto
  moreover have "job_storage (jo_ssi (sample_jobs_ops zds sample_ssi)) live_blocks"
    using sample_storage.job_storage_axioms by (simp add: sample_jobs_ops_def)
  from job_storage_released [OF this] v \<open>j = Some job'\<close> have "live_blocks w' = live_blocks ?w" by blast
  ultimately show "\<exists>w' z' job rc. zjb_view (sample_jobs_ops zds sample_ssi) ?w zjb_init ''JOB00001'' = (w', z', Some job, rc) \<and>
      j_status job = ''ACTIVE'' \<and> live_blocks w' = {#7#}"
    using v by (auto simp: live_blocks_def)
qed

section \<open>The completion of a job\<close>

definition hex_char :: "nat \<Rightarrow> char" where
  "hex_char n = ''0123456789ABCDEF'' ! n"

lemma hex_char_byte: "unat b < 16 \<Longrightarrow> zut_get_hex_char (ucast (b :: byte)) = hex_char (unat b)"
proof -
  assume b: "unat b < 16"
  have "unat (ucast b AND 0xF :: 32 word) = unat (take_bit 4 (ucast b :: 32 word))"
    by (simp add: take_bit_eq_mask mask_eq_exp_minus_1)
  also have "\<dots> = take_bit 4 (take_bit 32 (unat b))" by (simp only: unsigned_take_bit_eq unsigned_ucast_eq) simp
  also have "\<dots> = unat b" using b by (simp add: take_bit_eq_mod)
  finally show "zut_get_hex_char (ucast b) = hex_char (unat b)" by (simp add: zut_get_hex_char_def hex_char_def)
qed

lemma abend_bytes:
  assumes "sttrmxcc tr = [a, b, c]"
  shows "word_part (completion_word tr AND 0x00FFF000) 1 = a"
    and "drop_bit 4 (word_part (completion_word tr AND 0x00FFF000) 2) = drop_bit 4 b"
proof -
  have m: "(0x00FFF000 :: 32 word) = push_bit 12 (mask 12)" by (simp add: mask_eq_exp_minus_1 push_bit_eq_mult)
  show "word_part (completion_word tr AND 0x00FFF000) 1 = a"
    unfolding m by (intro bit_word_eqI) (auto simp: word_part_def completion_word_def assms bit_simps dest: bit_imp_le_length)
  show "drop_bit 4 (word_part (completion_word tr AND 0x00FFF000) 2) = drop_bit 4 b"
    unfolding m by (intro bit_word_eqI) (auto simp: word_part_def completion_word_def assms bit_simps dest: bit_imp_le_length)
qed

lemma word_of_nat_byte: "(word_of_nat (unat b mod 16) :: 32 word) = ucast (take_bit 4 (b :: byte))"
proof -
  have "unat b mod 16 = unat (take_bit 4 b)" by (simp only: unsigned_take_bit_eq) (simp add: take_bit_eq_mod)
  then show ?thesis by simp
qed

lemma completion_number:
  assumes "sttrmxcc tr = [a, b, c]"
  shows "sint (completion_word tr AND 0x00000FFF) = int (unat b mod 16 * 256 + unat c)"
proof -
  have m: "(0x00000FFF :: 32 word) = mask 12" by (simp add: mask_eq_exp_minus_1)
  have "completion_word tr AND mask 12 = push_bit 8 (ucast (take_bit 4 b)) OR ucast c"
    by (intro bit_word_eqI) (auto simp: completion_word_def assms bit_simps dest: bit_imp_le_length)
  also have "\<dots> = push_bit 8 (ucast (take_bit 4 b)) + ucast c"
    by (rule disjunctive_add [symmetric]) (auto simp: bit_simps dest: bit_imp_le_length)
  finally have w: "completion_word tr AND mask 12 = word_of_nat (unat b mod 16 * 256 + unat c)"
    by (simp add: push_bit_eq_mult word_of_nat_byte)
  have "unat b mod 16 * 256 + unat c < 4096" using unsigned_less [of c, where ?'a = nat] by simp
  moreover have "sint (word_of_nat n :: 32 word) = int n" if "n < 4096" for n
  proof -
    have "sint (word_of_nat n :: 32 word) = signed_take_bit 31 (int n)" by (simp only: signed_of_nat) simp
    also have "\<dots> = int n" using that by (intro signed_take_bit_int_eq_self) simp_all
    finally show ?thesis .
  qed
  ultimately show ?thesis unfolding m w by blast
qed

text \<open>The completion of a job is shown as the system abend code in three hexadecimal digits, or as the return code
  in at least four decimal digits; the user part of an abend code is not shown.\<close>

theorem completion_shown:
  assumes "sttrmxcc tr = [a, b, c]"
  shows "completion_text tr =
    (if sttrxind tr AND 0x80 \<noteq> 0
     then ''ABEND '' @ [hex_char (unat a div 16), hex_char (unat a mod 16), hex_char (unat b div 16)]
     else ''CC '' @ pad_zeros 4 (show_nat (unat b mod 16 * 256 + unat c)))"
proof -
  have high: "unat (drop_bit 4 x) = unat x div 16" for x :: byte
    using unsigned_less [of x, where ?'a = nat] by (simp only: unsigned_drop_bit_eq) (simp add: drop_bit_eq_div take_bit_eq_mod)
  have low: "unat (x AND 0x0F) = unat x mod 16" for x :: byte
  proof -
    have "x AND 0x0F = take_bit 4 x" by (simp add: take_bit_eq_mask mask_eq_exp_minus_1)
    then show ?thesis by (simp only: unsigned_take_bit_eq) (simp add: take_bit_eq_mod)
  qed
  have digit: "zut_get_hex_char (ucast x) = hex_char (unat x)" if "unat x < 16" for x :: byte
    using hex_char_byte that .
  have number: "show_int (int n) = show_nat n" for n by (simp add: show_int_def)
  have "unat x div 16 < 16" for x :: byte using unsigned_less [of x, where ?'a = nat] by simp
  then show ?thesis
    unfolding completion_text_def Let_def abend_bytes [OF assms] completion_number [OF assms] number
    by (simp add: digit high low)
qed

theorem completion_shown_witness:
  "completion_text (stjq_terse (sample_job ''JOB00001'' 20)) = ''ABEND 0C4''"
  using completion_shown [where tr = "stjq_terse (sample_job ''JOB00001'' 20)" and a = "0x0C" and b = "0x40" and c = 0]
  by (simp add: sample_job_def hex_char_def)

text \<open>Every user abend of a program is shown with the same text.\<close>

lemma user_abends_shown_alike:
  "sttrxind tr AND 0x80 \<noteq> 0 \<Longrightarrow> sttrmxcc tr = [0, b, c] \<Longrightarrow> unat b < 16 \<Longrightarrow> completion_text tr = ''ABEND 000''"
proof -
  assume b: "sttrxind tr AND 0x80 \<noteq> 0" "sttrmxcc tr = [0, b, c]" "unat b < 16"
  have zero: "drop_bit 4 b = 0"
  proof -
    have "unat (drop_bit 4 b) = unat b div 16" using b(3)
      by (simp only: unsigned_drop_bit_eq) (simp add: drop_bit_eq_div take_bit_eq_mod)
    then show ?thesis using b(3) by (simp add: unat_eq_0)
  qed
  show ?thesis using b(1)
    unfolding completion_text_def Let_def abend_bytes [OF b(2)] zero by (simp add: zut_get_hex_char_def)
qed

section \<open>Names of spool data sets\<close>

definition no_dot :: "string \<Rightarrow> bool" where
  "no_dot s \<longleftrightarrow> CHR ''.'' \<notin> set s"

lemma after_dot_Some: "after_dot s = Some r \<longleftrightarrow> (\<exists>p. no_dot p \<and> s = p @ ''.'' @ r)"
proof
  assume "after_dot s = Some r"
  then have "dropWhile (\<lambda>c. c \<noteq> CHR ''.'') s = CHR ''.'' # r"
    using hd_dropWhile [of "\<lambda>c. c \<noteq> CHR ''.''" s]
    by (cases "dropWhile (\<lambda>c. c \<noteq> CHR ''.'') s") (auto simp: after_dot_def)
  then have "s = takeWhile (\<lambda>c. c \<noteq> CHR ''.'') s @ ''.'' @ r" by (metis append_Cons append_Nil takeWhile_dropWhile_id)
  moreover have "no_dot (takeWhile (\<lambda>c. c \<noteq> CHR ''.'') s)" by (auto simp: no_dot_def dest: set_takeWhileD)
  ultimately show "\<exists>p. no_dot p \<and> s = p @ ''.'' @ r" by blast
next
  assume "\<exists>p. no_dot p \<and> s = p @ ''.'' @ r"
  then show "after_dot s = Some r" by (auto simp: after_dot_def no_dot_def dropWhile_append)
qed

lemma before_dot_split: "\<exists>rest. s = before_dot s @ rest \<and> (rest = [] \<or> hd rest = CHR ''.'') \<and> no_dot (before_dot s)"
proof -
  have "dropWhile (\<lambda>c. c \<noteq> CHR ''.'') s = [] \<or> hd (dropWhile (\<lambda>c. c \<noteq> CHR ''.'') s) = CHR ''.''"
    using hd_dropWhile [of "\<lambda>c. c \<noteq> CHR ''.''" s] by blast
  then show ?thesis
    by (intro exI [of _ "dropWhile (\<lambda>c. c \<noteq> CHR ''.'') s"]) (auto simp: before_dot_def no_dot_def dest: set_takeWhileD)
qed

lemma before_dot_append: "no_dot p \<Longrightarrow> rest = [] \<or> hd rest = CHR ''.'' \<Longrightarrow> before_dot (p @ rest) = p"
  by (cases rest) (auto simp: before_dot_def no_dot_def takeWhile_append takeWhile_eq_all_conv)

text \<open>C24. A data set name is taken for the name of a spool data set exactly when its fourth qualifier is \<open>D\<close> with one to
  seven digits; the job is its third qualifier and the key the number.\<close>

theorem parse_dsn_exact:
  "zjb_parse_dsn_for_key dsn = Inr (job, key) \<longleftrightarrow>
    (\<exists>user name digits rest. dsn = user @ ''.'' @ name @ ''.'' @ job @ ''.D'' @ digits @ rest \<and>
       no_dot user \<and> no_dot name \<and> no_dot job \<and> list_all is_ascii_dec_digit digits \<and> 0 < length digits \<and> length digits \<le> 7 \<and>
       (rest = [] \<or> hd rest = CHR ''.'') \<and> key = int (digits_value 10 digits))"
proof
  assume p: "zjb_parse_dsn_for_key dsn = Inr (job, key)"
  then obtain r1 r2 r3 where r: "after_dot dsn = Some r1" "after_dot r1 = Some r2" "after_dot r2 = Some r3"
    by (auto simp: zjb_parse_dsn_for_key_def split: option.splits)
  obtain user name where un: "no_dot user" "dsn = user @ ''.'' @ r1" "no_dot name" "r1 = name @ ''.'' @ r2"
    using r(1,2) by (auto simp: after_dot_Some)
  obtain id3 where id3: "no_dot id3" "r2 = id3 @ ''.'' @ r3" using r(3) by (auto simp: after_dot_Some)
  obtain rest where rest: "r3 = before_dot r3 @ rest" "rest = [] \<or> hd rest = CHR ''.''" using before_dot_split [of r3] by blast
  have job: "before_dot r2 = id3" using id3 by (simp add: before_dot_append)
  obtain k where k: "before_dot r3 = CHR ''D'' # k" "list_all is_ascii_dec_digit k" "0 < length k" "length k \<le> 7"
    "job = id3" "key = int (digits_value 10 k)"
    using p job r
    by (cases "before_dot r3") (auto simp: zjb_parse_dsn_for_key_def Let_def split: if_splits)
  show "\<exists>user name digits rest. dsn = user @ ''.'' @ name @ ''.'' @ job @ ''.D'' @ digits @ rest \<and>
       no_dot user \<and> no_dot name \<and> no_dot job \<and> list_all is_ascii_dec_digit digits \<and> 0 < length digits \<and> length digits \<le> 7 \<and>
       (rest = [] \<or> hd rest = CHR ''.'') \<and> key = int (digits_value 10 digits)"
    using un id3 rest k by (intro exI [of _ user] exI [of _ name] exI [of _ k] exI [of _ rest]) simp
next
  assume "\<exists>user name digits rest. dsn = user @ ''.'' @ name @ ''.'' @ job @ ''.D'' @ digits @ rest \<and>
       no_dot user \<and> no_dot name \<and> no_dot job \<and> list_all is_ascii_dec_digit digits \<and> 0 < length digits \<and> length digits \<le> 7 \<and>
       (rest = [] \<or> hd rest = CHR ''.'') \<and> key = int (digits_value 10 digits)"
  then obtain user name digits rest where dsn: "dsn = user @ ''.'' @ name @ ''.'' @ job @ ''.D'' @ digits @ rest"
    and nd: "no_dot user" "no_dot name" "no_dot job" and digits: "list_all is_ascii_dec_digit digits" "0 < length digits" "length digits \<le> 7"
    and rest: "rest = [] \<or> hd rest = CHR ''.''" and key: "key = int (digits_value 10 digits)" by blast
  have "\<not> is_ascii_dec_digit CHR ''.''" by code_simp
  then have "no_dot (''D'' @ digits)" using digits(1) by (auto simp: no_dot_def list_all_iff)
  then have "before_dot ((''D'' @ digits) @ rest) = ''D'' @ digits" by (rule before_dot_append [OF _ rest])
  moreover have "before_dot (job @ ''.D'' @ digits @ rest) = job" by (rule before_dot_append) (simp_all add: nd)
  moreover have "after_dot dsn = Some (name @ ''.'' @ job @ ''.D'' @ digits @ rest)"
    "after_dot (name @ ''.'' @ job @ ''.D'' @ digits @ rest) = Some (job @ ''.D'' @ digits @ rest)"
    "after_dot (job @ ''.D'' @ digits @ rest) = Some (''D'' @ digits @ rest)"
    using nd dsn by (auto simp: after_dot_Some)
  ultimately show "zjb_parse_dsn_for_key dsn = Inr (job, key)"
    using digits key by (simp add: zjb_parse_dsn_for_key_def)
qed

section \<open>Waiting\<close>

text \<open>The state before round \<open>n\<close>, what the round shows, and when it is the last one.\<close>

definition view_round :: "'w jb_ops \<Rightarrow> string \<Rightarrow> 'w \<times> zjb \<Rightarrow> 'w \<times> zjb" where
  "view_round jo job_id s = (case zjb_view jo (fst s) (snd s) job_id of (w', z', _, _) \<Rightarrow> (jo_sleep jo w', z'))"

definition shown_at :: "'w jb_ops \<Rightarrow> string \<Rightarrow> 'w \<times> zjb \<Rightarrow> nat \<Rightarrow> zjob option" where
  "shown_at jo job_id s n = (case (view_round jo job_id ^^ n) s of (w', z') \<Rightarrow> fst (snd (snd (zjb_view jo w' z' job_id))))"

definition ends_wait :: "string \<Rightarrow> zjob option \<Rightarrow> bool" where
  "ends_wait wanted j \<longleftrightarrow>
     (case j of None \<Rightarrow> True | Some job \<Rightarrow> j_status job = wanted \<or> wanted = ''ACTIVE'' \<and> has_text ''OUTPUT'' (j_status job))"

lemma wait_step_spec:
  "wait_step jo w z job_id wanted =
     (fst (view_round jo job_id (w, z)), snd (view_round jo job_id (w, z)),
      if ends_wait wanted (shown_at jo job_id (w, z) 0)
      then Some (if shown_at jo job_id (w, z) 0 = None then RTNCD_FAILURE else RTNCD_SUCCESS) else None)"
  by (auto simp: wait_step_def view_round_def shown_at_def ends_wait_def Let_def split: prod.splits option.splits)

lemma shown_at_Suc: "shown_at jo job_id s (Suc n) = shown_at jo job_id (view_round jo job_id s) n"
  by (simp add: shown_at_def funpow_swap1)

lemma wait_loop_returns:
  assumes "ends_wait wanted (shown_at jo job_id (w, z) n)" and "\<forall>m < n. \<not> ends_wait wanted (shown_at jo job_id (w, z) m)"
  shows "wait_loop jo w z job_id wanted =
    (case (view_round jo job_id ^^ Suc n) (w, z) of (w', z') \<Rightarrow>
       Some (w', z', if shown_at jo job_id (w, z) n = None then RTNCD_FAILURE else RTNCD_SUCCESS))"
  using assms
proof (induction n arbitrary: w z)
  case 0
  then show ?case by (subst wait_loop.simps) (auto simp: wait_step_spec split: prod.splits)
next
  case (Suc n)
  obtain w1 z1 where s: "view_round jo job_id (w, z) = (w1, z1)" by fastforce
  have go: "\<not> ends_wait wanted (shown_at jo job_id (w, z) 0)" using Suc.prems(2) by blast
  have "wait_loop jo w z job_id wanted = wait_loop jo w1 z1 job_id wanted"
    by (subst wait_loop.simps) (simp add: wait_step_spec s go)
  moreover have "ends_wait wanted (shown_at jo job_id (w1, z1) n)" "\<forall>m < n. \<not> ends_wait wanted (shown_at jo job_id (w1, z1) m)"
    using Suc.prems s shown_at_Suc [of jo job_id "(w, z)"] by (metis Suc_less_eq)+
  ultimately show ?case using Suc.IH [of w1 z1] s shown_at_Suc [of jo job_id "(w, z)" n] by (simp add: funpow_swap1)
qed

lemma wait_loop_ends:
  assumes "wait_loop jo w z job_id wanted = Some r"
  shows "\<exists>n. ends_wait wanted (shown_at jo job_id (w, z) n)"
  using assms
proof (induction rule: wait_loop.raw_induct [rotated 1, consumes 1])
  case (1 loop jo w z job_id wanted r)
  obtain w1 z1 where s: "view_round jo job_id (w, z) = (w1, z1)" by fastforce
  show ?case
  proof (cases "ends_wait wanted (shown_at jo job_id (w, z) 0)")
    case False
    then have "loop jo w1 z1 job_id wanted = Some r" using 1 s by (simp add: wait_step_spec)
    then obtain n where "ends_wait wanted (shown_at jo job_id (w1, z1) n)" using 1 by blast
    then have "ends_wait wanted (shown_at jo job_id (w, z) (Suc n))" using s by (simp add: shown_at_Suc)
    then show ?thesis by blast
  qed blast
qed

text \<open>C23. Waiting for a status returns exactly when some round shows the wanted status, or output while waiting for an
  active job, or no job at all; it returns after the first such round, with success unless no job was shown.\<close>

theorem wait_outcome:
  "zjb_wait jo w z wanted =
    (if \<exists>n. ends_wait wanted (shown_at jo (jobid z) (w, z) n)
     then let n = LEAST n. ends_wait wanted (shown_at jo (jobid z) (w, z) n); s = (view_round jo (jobid z) ^^ Suc n) (w, z)
          in Some (fst s, snd s, if shown_at jo (jobid z) (w, z) n = None then RTNCD_FAILURE else RTNCD_SUCCESS)
     else None)"
proof (cases "\<exists>n. ends_wait wanted (shown_at jo (jobid z) (w, z) n)")
  case True
  define n where "n = (LEAST n. ends_wait wanted (shown_at jo (jobid z) (w, z) n))"
  have "ends_wait wanted (shown_at jo (jobid z) (w, z) n)" using True unfolding n_def by (metis LeastI)
  moreover have "\<forall>m < n. \<not> ends_wait wanted (shown_at jo (jobid z) (w, z) m)" unfolding n_def using not_less_Least by blast
  ultimately show ?thesis using True wait_loop_returns [of wanted jo "jobid z" w z n]
    unfolding zjb_wait_def n_def [symmetric] by (simp add: Let_def case_prod_beta)
next
  case False
  then have "wait_loop jo w z (jobid z) wanted = None" using wait_loop_ends [of jo w z "jobid z" wanted] by (cases "wait_loop jo w z (jobid z) wanted") auto
  then show ?thesis using False by (simp add: zjb_wait_def)
qed

section \<open>Submitting\<close>

lemma job_of_reader_frees:
  assumes "job_of_reader jo w z ddname = (w', z', new_id, rc)"
  shows "\<exists>v. w' = fst (jo_dynfree jo v ddname) \<and> (rc = RTNCD_SUCCESS \<longrightarrow> snd (jo_dynfree jo v ddname) = 0 \<and> new_id \<noteq> [])"
proof -
  obtain w3 z3 value3 rc3 where a: "ZJBSYMB (jo_ssi jo) w z ''SYS_LASTJOBID'' 9 = (w3, z3, value3, rc3)" by (metis prod_cases4)
  show ?thesis
  proof (cases "rc3 \<noteq> 0 \<or> takeWhile (\<lambda>c. c \<noteq> NUL) value3 = []")
    case True
    then show ?thesis using assms a unfolding job_of_reader_def by (auto simp: Let_def rtncd_defs split: if_splits)
  next
    case False
    obtain w4 z4 corr rc4 where b: "ZJBSYMB (jo_ssi jo) w3 z3 ''SYS_CORR_LASTJOB'' 65 = (w4, z4, corr, rc4)" by (metis prod_cases4)
    obtain w5 rc5 where f: "jo_dynfree jo w4 ddname = (w5, rc5)" by fastforce
    have "w' = w5 \<and> (rc = RTNCD_SUCCESS \<longrightarrow> rc5 = 0 \<and> new_id \<noteq> [])"
      using assms a b f False unfolding job_of_reader_def by (auto simp: Let_def rtncd_defs split: if_splits)
    then show ?thesis using f by (metis fst_conv snd_conv)
  qed
qed

text \<open>C25. Once the internal reader is allocated, a submission that returns has freed it last; success means that the
  contents were written without an error, the reader was freed and the job has an identifier.\<close>

theorem submit_frees_reader:
  assumes "zjb_submit jo ic w z contents = Inr (w', z', new_id, rc)" and "jo_dyninit jo = 0"
    and "jo_dynalloc_intrdr jo w = (w1, 0, ddname)"
  shows "\<exists>v. w' = fst (jo_dynfree jo v ddname) \<and>
    (rc = RTNCD_SUCCESS \<longrightarrow> snd (jo_dynfree jo v ddname) = 0 \<and> new_id \<noteq> [] \<and>
      (\<exists>v' zd. zds_write (jo_zds jo) ic w1 (Some zds_zero) \<lparr> o_ddname = ddname, o_dsname = [], o_is_asa = False \<rparr> contents = Inr (v', zd, 0)))"
proof -
  obtain w2 zd rc2 where wr: "zds_write (jo_zds jo) ic w1 (Some zds_zero) \<lparr> o_ddname = ddname, o_dsname = [], o_is_asa = False \<rparr> contents
      = Inr (w2, zd, rc2)" and
    result: "(w', z', new_id, rc) = (if rc2 \<noteq> 0 then (fst (jo_dynfree jo w2 ddname), take_diag zd z, [], rc2) else job_of_reader jo w2 z ddname)"
    using assms unfolding zjb_submit_def by (auto split: if_splits)
  show ?thesis
  proof (cases "rc2 = 0")
    case False
    then show ?thesis using result by (auto simp: rtncd_defs)
  next
    case True
    then show ?thesis using job_of_reader_frees [of jo w2 z ddname w' z' new_id rc] result wr by auto
  qed
qed

definition quiet_ssi :: "'w ssi" where
  "quiet_ssi = \<lparr> si_jesct = \<lparr> jespjesn = ''JES2'', jesjesfg = 0 \<rparr>, si_status = (\<lambda>w st. (w, Ssi_return 0, st, 0)),
     si_modify = (\<lambda>w s. (w, Ssi_return 0, s, 0)), si_proclibs = (\<lambda>w f. (w, Ssi_return 0, 0, 0, [])),
     si_tlkup = (\<lambda>w tr. (w, 0, 0, [])), si_symbl = (\<lambda>w n. (w, 0, 0, 0, ''JOB00001'')), si_get64 = (\<lambda>w n. (w, 0)),
     si_free64 = (\<lambda>w a. w) \<rparr>"

text \<open>The world is the output of a sequential data set; freeing the reader leaves a mark.\<close>

definition reader_ops :: "byte list list jb_ops" where
  "reader_ops = \<lparr> jo_ssi = quiet_ssi, jo_zds = tape_system [], jo_getuserid = (0, ''IBMUSER''), jo_svc99 = (\<lambda>w r. (w, 0, 0, 0, ''SYS00001'')),
     jo_dyninit = 0, jo_dynalloc_intrdr = (\<lambda>w. (w, 0, ''SYS00002'')), jo_dynfree = (\<lambda>w d. (w @ [map ebcdic d], 0)), jo_sleep = (\<lambda>w. w) \<rparr>"

theorem submit_frees_reader_witness:
  "\<exists>w' z' v. zjb_submit reader_ops no_code_pages [] zjb_init [] = Inr (w', z', ''JOB00001'', RTNCD_SUCCESS) \<and>
     w' = v @ [map ebcdic ''SYS00002'']"
proof -
  have "\<exists>w' z'. zjb_submit reader_ops no_code_pages [] zjb_init [] = Inr (w', z', ''JOB00001'', RTNCD_SUCCESS)"
    by (cases "get_newline_char no_code_pages [] zdiag_init")
      (simp add: zjb_submit_def reader_ops_def zds_write_def zds_validate_opts_def zds_write_sequential_def tape_system_def
        setup_encoding_def zds_zero_def handle_truncation_result_def truncation_init_def job_of_reader_def
        ZJBSYMB_def quiet_ssi_def rtncd_defs zds_use_codepage_def Let_def)
  then obtain w' z' where s: "zjb_submit reader_ops no_code_pages [] zjb_init [] = Inr (w', z', ''JOB00001'', RTNCD_SUCCESS)" by blast
  then obtain v where "w' = fst (jo_dynfree reader_ops v ''SYS00002'')"
    using submit_frees_reader [OF s, of "[]" "''SYS00002''"] by (auto simp: reader_ops_def)
  then show ?thesis using s by (auto simp: reader_ops_def)
qed

section \<open>Selecting jobs\<close>

text \<open>A list request always filters by job name: the blank name is compared with the memory behind it.\<close>

lemma list_request_filters_name:
  assumes "length (prefix_name z) = 8" and "length (status_name z) = 8" and "status_name z ! 0 \<noteq> NUL"
  shows "statsel1 (list_request z) = statsown OR statsjbn \<and> statjobn (list_request z) = prefix_name z"
proof -
  obtain c cs where c: "status_name z = c # cs" "c \<noteq> NUL" using assms(2,3) by (cases "status_name z") auto
  have "\<not> strcmp_equal (prefix_name z @ from_status z) ''        ''"
    using assms(1) c by (simp add: strcmp_equal_def from_status_def)
  then show ?thesis by (simp add: list_request_def Let_def)
qed

text \<open>A request by correlator is made for the job whose identifier an earlier call has left in the block.\<close>

theorem correlator_loses_to_old_id:
  assumes "8 < length corr" and "jobid z ! 0 \<noteq> NUL"
  shows "ssjmjbil (modify_request (set_job corr z) type flags) = jobid z \<and>
    ssjmjcrp (modify_request (set_job corr z) type flags) = None \<and>
    statjbil (select_status (set_job corr z) init_stat) = jobid z"
  using assms
  by (auto simp: modify_request_def select_modify_def modify_flags_def select_status_def set_job_def ssjm_init_def Let_def)

theorem correlator_loses_to_old_id_witness:
  "ssjmjbil (modify_request (set_job ''J0000002SY1.....CC20F380.......:'' (zjb_init\<lparr> jobid := ''JOB00001'' \<rparr>)) ssjmprg ssjmpprt) = ''JOB00001''"
  using correlator_loses_to_old_id [of "''J0000002SY1.....CC20F380.......:''" "zjb_init\<lparr> jobid := ''JOB00001'' \<rparr>" ssjmprg ssjmpprt]
  by simp

text \<open>The flag that asks for a job in the output queue is not passed on by a cancellation.\<close>

lemma cancel_ignores_flags: "ZJBMCNL si w z flags = ZJBMCNL si w z 0"
  by (simp add: ZJBMCNL_def)

text \<open>A successful listing of the output is not empty, so that the first entry can be read.\<close>

lemma list_dds_not_empty:
  assumes "zjb_list_dds jo w z job_id = (w', z', dds, 0)"
  shows "dds \<noteq> []"
  using assms by (auto simp: zjb_list_dds_def Let_def rtncd_defs split: prod.splits if_splits option.splits)

section \<open>Procedure libraries\<close>

lemma copy_dsns_length: "int (length buffer) \<le> MAX_DSN_ENTRIES \<Longrightarrow> copy_dsns dsns buffer = (out, ok) \<Longrightarrow>
    out = buffer @ take (101 - length buffer) dsns \<and> (ok \<longleftrightarrow> int (length buffer + length dsns) \<le> MAX_DSN_ENTRIES)"
proof (induction dsns arbitrary: buffer)
  case (Cons d dsns)
  show ?case
  proof (cases "MAX_DSN_ENTRIES < int (length (buffer @ [d]))")
    case True
    then have "length buffer = 100" using Cons.prems(1) by (simp add: MAX_DSN_ENTRIES_def)
    then show ?thesis using Cons.prems True by (simp add: MAX_DSN_ENTRIES_def)
  next
    case False
    then have "101 - length buffer = Suc (101 - length (buffer @ [d]))" by (simp add: MAX_DSN_ENTRIES_def)
    then show ?thesis using Cons.IH [of "buffer @ [d]"] Cons.prems False by (simp add: algebra_simps)
  qed
qed auto

text \<open>When there are more than 100 names, 101 are copied to a buffer for 100, and the code of the release is
  returned in place of the failure.\<close>

lemma copy_concatenations_overflow: "copy_concatenations [replicate 101 dsn] [] = (replicate 101 dsn, False)"
proof -
  obtain out ok where c: "copy_dsns (replicate 101 dsn) [] = (out, ok)" by fastforce
  then have "out = replicate 101 dsn" "\<not> ok" using copy_dsns_length [OF _ c] by (simp_all add: MAX_DSN_ENTRIES_def)
  then show ?thesis using c by simp
qed

end
