(* ===== verification/Spec2Isabelle.thy ===== *)
theory Spec2Isabelle
  imports Base64 Lexer_Print Arg_Parser Command_Loop Worker_Runs Zjson_Text Rpc_Props Zut_Props Zds_Text_Props Zam_Props Zds_Write_Props Zds_Dscb_Props Zds_Members_Props
    Zds_Catalog_Props Zusf_Props Zjb_Props
begin

text \<open>
  A verification library for the native part of the Zowe Remote SSH server and its command-line
  program (\<open>src/native/c\<close>).

  \<^bold>\<open>The program.\<close> One binary is a command-line tool (\<open>parser.hpp\<close> over \<open>lexer.hpp\<close>, results in
  \<open>json_output.cpp\<close>) and a server (\<open>server/\<close>): the main thread reads JSON-RPC requests and hands them
  to a pool of worker threads (\<open>worker.cpp\<close>), a worker parses and validates a request
  (\<open>zjson.hpp\<close> over the system's parser behind \<open>zjsonm.c\<close>, \<open>validator.cpp\<close>), turns its parameters
  into arguments and calls the handler of a command (\<open>builder.cpp\<close>, \<open>dispatcher.cpp\<close>), and prints one
  response (\<open>rpc_server.cpp\<close>). The handlers reach data sets through \<open>zds.cpp\<close>, \<open>zut.cpp\<close> and the
  record writer \<open>zam.c\<close>.

  \<^bold>\<open>Theories.\<close> \<open>Prelude\<close>: characters in IBM-1047, lists and words. \<open>Std_Map\<close>: \<open>std::map\<close> as an ordered
  association list, with a locale for the laws of lookup and insertion.
  \<open>Base64\<close>: \<open>zbase64.h\<close>, block and streaming codecs. \<open>Lexer\<close> and \<open>Lexer_Print\<close>: \<open>lexer.hpp\<close>, the
  tokens and their printing. \<open>Suggest\<close>, \<open>Argument\<close>, \<open>Command\<close>, \<open>Command_Tree\<close>, \<open>Command_Parse\<close>,
  \<open>Command_Loop\<close>, \<open>Arg_Parser\<close>: \<open>parser.hpp\<close> and \<open>extend/plugin.hpp\<close>; registration, the tree of
  commands, the parse loop, its ends, help and completion tables. \<open>Json_Output\<close>: the result envelope.
  \<open>Zjson\<close>, \<open>Zjson_Struct\<close>, \<open>Zjson_Text\<close>: values, the mapping of structures, reading and writing text.
  \<open>Zjsonm\<close>: the 31-bit services and the storage they own. \<open>Validator\<close>: request schemas. \<open>Dispatcher\<close>:
  transforms and the table of commands. \<open>Rpc\<close>, \<open>Rpc_Server\<close>, \<open>Rpc_Props\<close>: messages, the life of a
  request, timeouts. \<open>Worker\<close>, \<open>Worker_Pool\<close>: the pool as a transition system whose steps lie between
  the points where another thread can run; \<open>Worker_Inv\<close>, \<open>Worker_Requests\<close>, \<open>Worker_Runs\<close>: its
  invariants, the fate of requests, schedules that reach particular states. \<open>Zut\<close>, \<open>Zut_Props\<close>:
  texts, checksum, environment and dynamic allocation. \<open>Zds_Text\<close>, \<open>Zds_Text_Props\<close>: data set names,
  attributes, truncation and ASA control characters. \<open>Zam\<close>, \<open>Zam_Props\<close>: the record writer from
  serialization to STOW. \<open>Zut_Encode\<close>: code page conversion. \<open>Zds_Write\<close>, \<open>Zds_Write_Props\<close>: reading
  and writing data sets and members, buffered and from a pipe, and the e-tag check. \<open>Zds_Dscb\<close>,
  \<open>Zds_Dscb_Props\<close>: the attributes in a data set control block. \<open>Zds_Members\<close>, \<open>Zds_Members_Props\<close>: the
  directory of a partitioned data set. \<open>Zds_Catalog\<close>, \<open>Zds_Catalog_Props\<close>: listing data sets through the
  catalog search interface and the control blocks; \<open>with_catalog\<close> gives reading and writing this catalog.
  \<open>Zusf_Table\<close>, \<open>Zusf\<close>, \<open>Zusf_IO\<close>, \<open>Zusf_Tree\<close>, \<open>Zusf_Props\<close>: UNIX files
  (\<open>zusf.cpp\<close>), the names of coded character sets, operations on trees of files with a locale for the
  contract of the system calls, reading and writing. \<open>Zjbm\<close>, \<open>Zjb\<close>, \<open>Zjb_Props\<close>: jobs (\<open>zjbm.c\<close>, \<open>zjb.cpp\<close>),
  requests to the subsystem, listings and their storage (a locale), spool data sets, submitting, waiting.

  \<^bold>\<open>Correspondence.\<close> A structure is a record with the names of its fields, an operation of the source a
  definition of the same name; code of one function that has a name of its own here (a loop, a step, a
  message) is used only by the definition of that function. A text is a list of characters in the
  execution character set, raw memory a list of bytes. Errors are values of a sum, an option, or the
  return code and diagnostic area of the source. Machine integers are words where the source can
  overflow.

  \<^bold>\<open>What is proved.\<close> Round trips and references (Base64, literals, escaping, JSON messages, checksum,
  records through blocks, ASA records to print lines); exact acceptance (decoder, validator, wildcard
  match, registration); invariants over every interleaving of the pool; what a parse can end in, what a
  request is answered with, what a writer releases, whatever the parameters return; and the behaviours in
  which the code departs from its intention, each with an input that shows it.

  \<^bold>\<open>Loops and bounds.\<close> A loop that can run forever is a partial function whose value is none when it
  does: \<open>parse_loop\<close> (it ends on trees without positional flags, and a theorem gives an input on which
  it does not), \<open>match_loop\<close> (it always ends) and \<open>wait_loop\<close> (a theorem says when). Operations on trees of
  UNIX files take a depth as their bound, which is enough when it exceeds the depth of the tree
  (shown for deletion). Everything else is total. The depth of JSON documents is cut at \<open>MAX_JSON_DEPTH\<close> and the abandoned identifiers at 64, as in the sources.

  \<^bold>\<open>Parameters.\<close> Code outside the repository or not in this language is an argument: conversions of
  floating point text (\<open>fp_ops\<close>, \<open>dbl_ops\<close>), the system's JSON parser (\<open>hwtj\<close>), handlers, hooks and the
  file system of the dispatcher (\<open>rpc_env\<close>), dynamic allocation (\<open>wdyn\<close>), the access method macros
  (\<open>zam_ops\<close>), \<open>iconv\<close> (\<open>iconv_ops\<close>), the streams and pipes behind \<open>zds.cpp\<close>
  (\<open>zds_ops\<close>), the catalog search interface and OBTAIN (\<open>csi_ops\<close>), the calls of the system behind \<open>zusf.cpp\<close> (\<open>zusf_ops\<close>, \<open>usf_io\<close>),
  and the subsystem interface and dynamic allocation behind the jobs (\<open>ssi\<close>, \<open>jb_ops\<close>).

  \<^bold>\<open>Not modelled.\<close> Descriptors and processes (spawning, pipes, terminal); the copies of control
  blocks under \<open>chdsect\<close>, which are generated; the system log, console, TSO and key rings, whose code
  calls system services and formats what they return; the command definitions under \<open>commands\<close>, which
  are tables over the modelled builder; logging; the plug-in loader; allocation of memory where it cannot
  fail observably. The programs in other languages (Python bindings, TypeScript client) use the messages
  that \<open>Rpc\<close> models.
\<close>

end
